(* ===== verification/SeekSequence.thy ===== *)
theory SeekSequence
  imports Prelude
begin

text \<open>
  The fuzzy line lookup of \<open>pycodex/apply_patch/seek_sequence.py\<close>: four passes over the candidate
  positions, each comparing lines less strictly. Proved: the result is the first position of the
  strictest pass that matches anywhere, and nothing is found only if even the loosest comparison
  fails at every candidate.
\<close>

section \<open>The code\<close>

definition normalise_char :: "int \<Rightarrow> int" where
  "normalise_char c =
     (if 8208 \<le> c \<and> c \<le> 8213 \<or> c = 8722 then 45
      else if 8216 \<le> c \<and> c \<le> 8219 then 39
      else if 8220 \<le> c \<and> c \<le> 8223 then 34
      else if c = 160 \<or> 8194 \<le> c \<and> c \<le> 8202 \<or> c = 8239 \<or> c = 8287 \<or> c = 12288 then 32
      else c)"

definition normalise_patch_seek_line :: "pystr \<Rightarrow> pystr" where
  "normalise_patch_seek_line value = map normalise_char (strip value)"

definition matches_at :: "(pystr \<Rightarrow> pystr \<Rightarrow> bool) \<Rightarrow> pystr list \<Rightarrow> pystr list \<Rightarrow> nat \<Rightarrow> bool" where
  "matches_at eqv lines pattern i \<longleftrightarrow> list_all2 eqv (take (length pattern) (drop i lines)) pattern"

text \<open>The comparison of each pass, in the order of the code.\<close>

definition seek_passes :: "(pystr \<Rightarrow> pystr \<Rightarrow> bool) list" where
  "seek_passes =
     [\<lambda>l e. l = e,
      \<lambda>l e. rstrip l = rstrip e,
      \<lambda>l e. strip l = strip e,
      \<lambda>l e. normalise_patch_seek_line l = normalise_patch_seek_line e]"

fun seek_in_passes ::
    "(pystr \<Rightarrow> pystr \<Rightarrow> bool) list \<Rightarrow> pystr list \<Rightarrow> pystr list \<Rightarrow> nat list \<Rightarrow> nat option" where
  "seek_in_passes [] lines pattern positions = None"
| "seek_in_passes (eqv # passes) lines pattern positions =
     (case find (matches_at eqv lines pattern) positions of
        Some line_index \<Rightarrow> Some line_index
      | None \<Rightarrow> seek_in_passes passes lines pattern positions)"

definition seek_sequence :: "pystr list \<Rightarrow> pystr list \<Rightarrow> nat \<Rightarrow> bool \<Rightarrow> nat option" where
  "seek_sequence lines pattern start eof =
     (if pattern = [] then Some start
      else if length lines < length pattern then None
      else let max_start = length lines - length pattern;
               search_start = (if eof \<and> length pattern \<le> length lines then max_start else start)
      in if max_start < search_start then None
         else seek_in_passes seek_passes lines pattern [search_start ..< max_start + 1])"

section \<open>The candidate positions\<close>

text \<open>Where the code may report a match: from \<open>start\<close> on, or with \<open>eof\<close> only at the very end.\<close>

definition seek_candidate :: "pystr list \<Rightarrow> pystr list \<Rightarrow> nat \<Rightarrow> bool \<Rightarrow> nat \<Rightarrow> bool" where
  "seek_candidate lines pattern start eof i \<longleftrightarrow>
     i + length pattern \<le> length lines \<and> (if eof then i + length pattern = length lines else start \<le> i)"

lemma seek_sequence_positions:
  assumes "pattern \<noteq> []"
  shows "seek_sequence lines pattern start eof =
    seek_in_passes seek_passes lines pattern
      (filter (seek_candidate lines pattern start eof) [0 ..< Suc (length lines)])"
proof (cases "length lines < length pattern")
  case True
  then have "filter (seek_candidate lines pattern start eof) [0 ..< Suc (length lines)] = []"
    by (auto simp: filter_empty_conv seek_candidate_def)
  moreover have "seek_in_passes ps lines pattern [] = None" for ps
    by (induction ps) auto
  ultimately show ?thesis using True assms by (simp add: seek_sequence_def del: upt_Suc)
next
  case False
  let ?max = "length lines - length pattern"
  let ?from = "if eof then ?max else start"
  have "filter (seek_candidate lines pattern start eof) [0 ..< Suc (length lines)] = [?from ..< ?max + 1]"
  proof (rule sorted_distinct_set_unique)
    show "set (filter (seek_candidate lines pattern start eof) [0 ..< Suc (length lines)]) =
        set [?from ..< ?max + 1]"
      using False by (auto simp: seek_candidate_def simp del: upt_Suc)
  qed (auto intro: sorted_wrt_filter distinct_filter simp del: upt_Suc)
  moreover have "seek_in_passes ps lines pattern [] = None" for ps
    by (induction ps) auto
  ultimately show ?thesis
    using False assms by (auto simp: seek_sequence_def Let_def)
qed

section \<open>Strictest pass first, then first position\<close>

lemma seek_in_passes_Some:
  "seek_in_passes ps lines pattern positions = Some i \<longleftrightarrow>
     (\<exists>k < length ps. find (matches_at (ps ! k) lines pattern) positions = Some i \<and>
        (\<forall>k' < k. \<forall>j \<in> set positions. \<not> matches_at (ps ! k') lines pattern j))"
proof (induction ps)
  case (Cons eqv ps)
  show ?case
  proof (cases "find (matches_at eqv lines pattern) positions")
    case None
    then have "\<forall>j \<in> set positions. \<not> matches_at eqv lines pattern j"
      by (auto simp: find_None_iff)
    with None Cons.IH show ?thesis
      by (simp only: length_Cons Ex_less_Suc2 All_less_Suc2 nth_Cons_0 nth_Cons_Suc
          seek_in_passes.simps option.case) simp
  next
    case (Some j)
    then have "\<exists>j \<in> set positions. matches_at eqv lines pattern j"
      by (metis find_Some_iff nth_mem)
    with Some show ?thesis
      by (simp only: length_Cons Ex_less_Suc2 All_less_Suc2 nth_Cons_0 nth_Cons_Suc
          seek_in_passes.simps option.case) blast
  qed
qed simp

lemma seek_in_passes_None:
  "seek_in_passes ps lines pattern positions = None \<longleftrightarrow>
     (\<forall>eqv \<in> set ps. \<forall>j \<in> set positions. \<not> matches_at eqv lines pattern j)"
proof (induction ps)
  case (Cons eqv ps)
  have "find (matches_at eqv lines pattern) positions = None \<longleftrightarrow>
      (\<forall>j \<in> set positions. \<not> matches_at eqv lines pattern j)"
    by (auto simp: find_None_iff)
  with Cons.IH show ?case by (auto split: option.split)
qed simp

lemma find_sorted_Some:
  assumes "sorted xs"
  shows "find P xs = Some x \<longleftrightarrow> x \<in> set xs \<and> P x \<and> (\<forall>y \<in> set xs. y < x \<longrightarrow> \<not> P (y::nat))"
  using assms
proof (induction xs)
  case (Cons a xs)
  then show ?case by (cases "P a") force+
qed simp

text \<open>Later passes accept whatever earlier ones accept.\<close>

lemma lstrip_rstrip: "lstrip (rstrip s) = rstrip (lstrip s)"
proof (induction s)
  case (Cons c s)
  consider "\<not> is_space c" | "is_space c" "\<forall>x \<in> set s. is_space x"
    | "is_space c" "\<exists>x \<in> set s. \<not> is_space x" by blast
  then show ?case
  proof cases
    case 1
    then show ?thesis
      by (auto simp: lstrip_def rstrip_def dropWhile_append dropWhile_eq_Nil_conv)
  next
    case 2
    then have "rstrip (c # s) = []" "lstrip (c # s) = []"
      by (auto simp: lstrip_def rstrip_def dropWhile_append)
    then show ?thesis by simp
  next
    case 3
    with Cons.IH show ?thesis
      by (auto simp: lstrip_def rstrip_def dropWhile_append dropWhile_eq_Nil_conv)
  qed
qed (simp add: lstrip_def rstrip_def)

lemma rstrip_strip: "rstrip l = rstrip e \<Longrightarrow> strip l = strip e"
  unfolding strip_def by (metis lstrip_rstrip)

lemma passes_weaken:
  assumes "eqv \<in> set seek_passes" "eqv l e"
  shows "normalise_patch_seek_line l = normalise_patch_seek_line e"
proof -
  consider "eqv = (\<lambda>l e. l = e)" | "eqv = (\<lambda>l e. rstrip l = rstrip e)"
    | "eqv = (\<lambda>l e. strip l = strip e)"
    | "eqv = (\<lambda>l e. normalise_patch_seek_line l = normalise_patch_seek_line e)"
    using assms(1) unfolding seek_passes_def by (simp only: list.set insert_iff empty_iff) blast
  then show ?thesis
  proof cases
    case 1
    with assms(2) have "l = e" by simp
    then show ?thesis by (rule arg_cong)
  next
    case 2
    with assms(2) have "strip l = strip e" by (intro rstrip_strip) simp
    then show ?thesis by (simp add: normalise_patch_seek_line_def)
  qed (use assms(2) in \<open>simp_all add: normalise_patch_seek_line_def\<close>)
qed

lemma matches_at_weaken:
  assumes "matches_at eqv lines pattern i" "eqv \<in> set seek_passes"
  shows "matches_at (\<lambda>l e. normalise_patch_seek_line l = normalise_patch_seek_line e) lines pattern i"
  using list_all2_mono [OF assms(1) [unfolded matches_at_def] passes_weaken [OF assms(2)]]
  by (simp add: matches_at_def)

lemma list_all2_same_image: "list_all2 (\<lambda>x y. f x = f y) xs ys \<longleftrightarrow> map f xs = map f ys"
  by (induction xs ys rule: list_induct2') auto

lemma matches_at_exact:
  "matches_at (\<lambda>l e. l = e) lines pattern i \<longleftrightarrow> take (length pattern) (drop i lines) = pattern"
  by (simp add: matches_at_def list.rel_eq)

lemma loosest_pass: "(\<lambda>l e. normalise_patch_seek_line l = normalise_patch_seek_line e) \<in> set seek_passes"
  by (simp add: seek_passes_def)

lemma seek_sequence_Some_lemma:
  assumes "pattern \<noteq> []"
  shows "seek_sequence lines pattern start eof = Some i \<longleftrightarrow>
    (\<exists>k < length seek_passes.
       seek_candidate lines pattern start eof i \<and> matches_at (seek_passes ! k) lines pattern i \<and>
       (\<forall>j < i. seek_candidate lines pattern start eof j \<longrightarrow>
          \<not> matches_at (seek_passes ! k) lines pattern j) \<and>
       (\<forall>k' < k. \<forall>j. seek_candidate lines pattern start eof j \<longrightarrow>
          \<not> matches_at (seek_passes ! k') lines pattern j))"
proof -
  let ?pos = "filter (seek_candidate lines pattern start eof) [0 ..< Suc (length lines)]"
  have pos: "j \<in> set ?pos \<longleftrightarrow> seek_candidate lines pattern start eof j" for j
    by (auto simp: seek_candidate_def simp del: upt_Suc)
  have "sorted ?pos" by (simp add: sorted_wrt_filter del: upt_Suc)
  then show ?thesis
    unfolding seek_sequence_positions [OF assms] seek_in_passes_Some
    by (simp only: find_sorted_Some pos Ball_def) blast
qed

lemma seek_sequence_None_lemma:
  assumes "pattern \<noteq> []"
  shows "seek_sequence lines pattern start eof = None \<longleftrightarrow>
    (\<forall>i. seek_candidate lines pattern start eof i \<longrightarrow>
       map normalise_patch_seek_line (take (length pattern) (drop i lines))
         \<noteq> map normalise_patch_seek_line pattern)"
proof -
  let ?pos = "filter (seek_candidate lines pattern start eof) [0 ..< Suc (length lines)]"
  let ?loose = "\<lambda>l e. normalise_patch_seek_line l = normalise_patch_seek_line e"
  have pos: "j \<in> set ?pos \<longleftrightarrow> seek_candidate lines pattern start eof j" for j
    by (auto simp: seek_candidate_def simp del: upt_Suc)
  have loose: "matches_at ?loose lines pattern i \<longleftrightarrow>
      map normalise_patch_seek_line (take (length pattern) (drop i lines))
        = map normalise_patch_seek_line pattern" for i
    by (simp add: matches_at_def list_all2_same_image)
  have "seek_sequence lines pattern start eof = None \<longleftrightarrow>
      (\<forall>i. seek_candidate lines pattern start eof i \<longrightarrow> \<not> matches_at ?loose lines pattern i)"
    unfolding seek_sequence_positions [OF assms] seek_in_passes_None
    by (simp only: pos Ball_def) (metis loosest_pass matches_at_weaken)
  then show ?thesis by (simp only: loose)
qed

lemma seek_sequence_bounds:
  assumes "seek_sequence lines pattern start False = Some i" "start \<le> length lines"
  shows "start \<le> i \<and> i + length pattern \<le> length lines"
proof (cases "pattern = []")
  case True
  with assms show ?thesis by (simp add: seek_sequence_def)
next
  case False
  with assms(1) show ?thesis
    by (auto simp: seek_sequence_Some_lemma seek_candidate_def)
qed

lemma seek_sequence_matches:
  assumes "seek_sequence lines pattern start eof = Some i" "pattern \<noteq> []"
  shows "map normalise_patch_seek_line (take (length pattern) (drop i lines))
    = map normalise_patch_seek_line pattern"
proof -
  from assms obtain k where "k < length seek_passes" "matches_at (seek_passes ! k) lines pattern i"
    by (auto simp: seek_sequence_Some_lemma)
  then have "matches_at (\<lambda>l e. normalise_patch_seek_line l = normalise_patch_seek_line e) lines pattern i"
    using matches_at_weaken nth_mem by blast
  then show ?thesis by (simp add: matches_at_def list_all2_same_image)
qed

text \<open>
  What the line lookup finds is the first position of the strictest comparison that succeeds
  anywhere: no earlier candidate matches under that comparison and no candidate at all under a
  stricter one.
\<close>

theorem seek_finds_first_of_strictest:
  assumes "pattern \<noteq> []"
  shows "seek_sequence lines pattern start eof = Some i \<longleftrightarrow>
    (\<exists>k < length seek_passes.
       seek_candidate lines pattern start eof i \<and> matches_at (seek_passes ! k) lines pattern i \<and>
       (\<forall>j < i. seek_candidate lines pattern start eof j \<longrightarrow>
          \<not> matches_at (seek_passes ! k) lines pattern j) \<and>
       (\<forall>k' < k. \<forall>j. seek_candidate lines pattern start eof j \<longrightarrow>
          \<not> matches_at (seek_passes ! k') lines pattern j))"
  by (rule seek_sequence_Some_lemma [OF assms])

lemma seek_finds_first_of_strictest_witness:
  "\<exists>k < length seek_passes. matches_at (seek_passes ! k) [[97], [98, 32], [98]] [[98]] 2"
proof -
  have "seek_sequence [[97], [98, 32], [98]] [[98]] 0 False = Some 2" by code_simp
  then show ?thesis
    using seek_finds_first_of_strictest [of "[[98]]" "[[97], [98, 32], [98]]" 0 False 2] by auto
qed

text \<open>
  The lookup fails only when even the loosest comparison (whitespace trimmed, typographic dashes,
  quotes and spaces read as ASCII) fails at every candidate position.
\<close>

theorem seek_fails_iff_nothing_matches:
  assumes "pattern \<noteq> []"
  shows "seek_sequence lines pattern start eof = None \<longleftrightarrow>
    (\<forall>i. seek_candidate lines pattern start eof i \<longrightarrow>
       map normalise_patch_seek_line (take (length pattern) (drop i lines))
         \<noteq> map normalise_patch_seek_line pattern)"
  by (rule seek_sequence_None_lemma [OF assms])

lemma seek_fails_iff_nothing_matches_witness: "seek_sequence [[97], [98]] [[99]] 0 False = None"
proof -
  have n: "normalise_patch_seek_line [97] = [97]" "normalise_patch_seek_line [98] = [98]"
    "normalise_patch_seek_line [99] = [99]"
    by code_simp+
  have "map normalise_patch_seek_line (take (length [[99 :: int]]) (drop i [[97], [98]]))
      \<noteq> map normalise_patch_seek_line [[99]]" if "seek_candidate [[97], [98]] [[99]] 0 False i" for i
  proof -
    from that consider "i = 0" | "i = 1" by (fastforce simp: seek_candidate_def)
    then show ?thesis by cases (simp_all add: n)
  qed
  then show ?thesis
    using seek_fails_iff_nothing_matches [of "[[99]]" "[[97], [98]]" 0 False] by blast
qed

end
