(* ===== verification/PyPath.thy ===== *)
theory PyPath
  imports Prelude
begin

text \<open>
  The part of \<open>pathlib.Path\<close> the code relies on, on POSIX: a path is its root (empty, one slash
  or exactly two) and its components, with empty and \<open>.\<close> components dropped when a string is
  parsed. File-system access (\<open>resolve\<close>, \<open>is_file\<close>) is not modelled here: where the code uses
  it, the function is a parameter.
\<close>

section \<open>Paths\<close>

datatype pypath = PyPath (path_root: pystr) (path_parts: "pystr list")

definition path_split_root :: "pystr \<Rightarrow> pystr \<times> pystr" where
  "path_split_root s =
     (if \<not> starts_with s (lit ''/'') then ([], s)
      else if \<not> starts_with s (lit ''//'') \<or> starts_with s (lit ''///'') then (lit ''/'', drop 1 s)
      else (lit ''//'', drop 2 s))"

definition path_of :: "pystr \<Rightarrow> pypath" where
  "path_of s = (case path_split_root s of (root, rel) \<Rightarrow>
     PyPath root (filter (\<lambda>p. p \<noteq> [] \<and> p \<noteq> lit ''.'') (split_on 47 rel)))"

definition path_str :: "pypath \<Rightarrow> pystr" where
  "path_str p = (let s = path_root p @ join_with (lit ''/'') (path_parts p)
                 in if s = [] then lit ''.'' else s)"

definition path_is_absolute :: "pypath \<Rightarrow> bool" where
  "path_is_absolute p \<longleftrightarrow> path_root p \<noteq> []"

definition path_join :: "pypath \<Rightarrow> pypath \<Rightarrow> pypath" where
  "path_join p q =
     (if path_is_absolute q then q else PyPath (path_root p) (path_parts p @ path_parts q))"

definition path_name :: "pypath \<Rightarrow> pystr" where
  "path_name p = (if path_parts p = [] then [] else last (path_parts p))"

definition path_parent :: "pypath \<Rightarrow> pypath" where
  "path_parent p = PyPath (path_root p) (butlast (path_parts p))"

text \<open>\<open>p.relative_to(folder)\<close> returns (and does not raise \<open>ValueError\<close>).\<close>

definition path_is_relative_to :: "pypath \<Rightarrow> pypath \<Rightarrow> bool" where
  "path_is_relative_to p folder \<longleftrightarrow>
     path_root p = path_root folder \<and> starts_with (path_parts p) (path_parts folder)"

text \<open>The component strings a parsed path can have.\<close>

definition path_component :: "pystr \<Rightarrow> bool" where
  "path_component p \<longleftrightarrow> p \<noteq> [] \<and> p \<noteq> lit ''.'' \<and> 47 \<notin> set p"

definition wf_path :: "pypath \<Rightarrow> bool" where
  "wf_path p \<longleftrightarrow> path_root p \<in> {[], lit ''/'', lit ''//''} \<and> list_all path_component (path_parts p)"

section \<open>Parsing and printing are inverse\<close>

lemma wf_path_of: "wf_path (path_of s)"
  by (auto simp: path_of_def wf_path_def path_split_root_def list_all_iff path_component_def
      dest: split_on_parts)

lemma path_component_hd:
  assumes "path_component p"
  obtains c cs where "p = c # cs" "c \<noteq> 47"
  using assms by (cases p) (auto simp: path_component_def)

lemma join_components_hd:
  assumes "list_all path_component ps" "ps \<noteq> []"
  obtains c cs where "join_with sep ps = c # cs" "c \<noteq> 47"
proof (cases ps)
  case Nil
  with assms that show ?thesis by simp
next
  case (Cons q qs)
  with assms obtain c cs where "q = c # cs" "c \<noteq> 47" by (auto elim: path_component_hd)
  with Cons that show ?thesis by (cases qs) auto
qed

lemma split_join_components:
  assumes "list_all path_component ps"
  shows "filter (\<lambda>p. p \<noteq> [] \<and> p \<noteq> lit ''.'') (split_on 47 (join_with (lit ''/'') ps)) = ps"
proof (cases "ps = []")
  case False
  have "lit ''/'' = [47]" by simp
  moreover have "split_on 47 (join_with [47] ps) = ps"
    using False assms by (intro split_on_join) (auto simp: list_all_iff path_component_def)
  moreover have "filter (\<lambda>p. p \<noteq> [] \<and> p \<noteq> lit ''.'') ps = ps"
    using assms by (simp add: filter_id_conv list_all_iff path_component_def)
  ultimately show ?thesis by metis
qed simp

lemma path_of_str: "wf_path p \<Longrightarrow> path_of (path_str p) = p"
proof (cases p)
  case (PyPath root ps)
  assume wf: "wf_path p"
  then have comps: "list_all path_component ps" by (simp add: PyPath wf_path_def)
  note split = split_join_components [OF comps]
  show ?thesis
  proof (cases "ps = []")
    case True
    with wf show ?thesis
      by (auto simp: PyPath wf_path_def path_of_def path_str_def path_split_root_def)
  next
    case False
    with comps obtain c cs where cs: "join_with (lit ''/'') ps = c # cs" "c \<noteq> 47"
      by (rule join_components_hd)
    from wf have "root \<in> {[], lit ''/'', lit ''//''}" by (simp add: PyPath wf_path_def)
    then show ?thesis
      using cs split
      by (auto simp: PyPath path_of_def path_str_def path_split_root_def Let_def)
  qed
qed

lemma path_str_nonempty [simp]: "path_str p \<noteq> []"
  by (simp add: path_str_def Let_def)

lemma path_is_relative_to_refl [simp]: "path_is_relative_to p p"
  by (simp add: path_is_relative_to_def)

lemma path_is_relative_to_trans:
  "path_is_relative_to p q \<Longrightarrow> path_is_relative_to q r \<Longrightarrow> path_is_relative_to p r"
  by (auto simp: path_is_relative_to_def starts_with_prefix)

lemma path_join_relative_to:
  "\<not> path_is_absolute q \<Longrightarrow> path_is_relative_to (path_join p q) p"
  by (simp add: path_is_relative_to_def path_join_def)

end
