(* ===== verification/PatchApply.thy ===== *)
theory PatchApply
  imports SeekSequence PatchParser "HOL-Library.Multiset"
begin

text \<open>
  Turning the chunks of an update into new file contents, \<open>pycodex/apply_patch/__init__.py\<close>:
  locating each chunk (\<open>_compute_replacements\<close>), applying the replacements from the last to the
  first (\<open>_apply_replacements\<close>) and joining the lines again. The specification is \<open>splice\<close>: one
  pass over the original lines that copies what no replacement covers.
\<close>

section \<open>The code\<close>

datatype apply_error_kind = ParseErrorKind | IoErrorKind | ComputeReplacementsKind
  | ImplicitInvocationKind

datatype apply_patch_error = ApplyPatchError (error_kind: apply_error_kind) (error_message: pystr)

definition compute_replacements_error :: "pystr \<Rightarrow> apply_patch_error" where
  "compute_replacements_error message = ApplyPatchError ComputeReplacementsKind message"

definition parse_error :: "patch_exn \<Rightarrow> apply_patch_error" where
  "parse_error e = ApplyPatchError ParseErrorKind (patch_exn_str e)"

definition implicit_invocation :: apply_patch_error where
  "implicit_invocation = ApplyPatchError ImplicitInvocationKind
     (lit ''patch detected without explicit call to apply_patch. Rerun as [\"apply_patch\", \"<patch>\"]'')"

type_synonym replacement = "nat \<times> nat \<times> pystr list"

text \<open>The change context of a chunk moves the search position past the line it names.\<close>

definition seek_context ::
    "pystr list \<Rightarrow> pypath \<Rightarrow> nat \<Rightarrow> update_chunk \<Rightarrow> (apply_patch_error, nat) result" where
  "seek_context original_lines path line_index chunk =
     (case change_context chunk of
        None \<Rightarrow> Inr line_index
      | Some cx \<Rightarrow>
          (case seek_sequence original_lines [cx] line_index False of
             None \<Rightarrow> Inl (compute_replacements_error
               (lit ''Failed to find context '' @ quoted cx @ lit '' in '' @ path_str path))
           | Some context_index \<Rightarrow> Inr (context_index + 1)))"

text \<open>The removed lines, with a second attempt without a trailing empty line.\<close>

definition locate_old_lines ::
    "pystr list \<Rightarrow> pypath \<Rightarrow> nat \<Rightarrow> update_chunk \<Rightarrow> (apply_patch_error, replacement) result" where
  "locate_old_lines original_lines path line_index chunk =
     (let pattern = old_lines chunk;
          new_slice = new_lines chunk;
          found = seek_sequence original_lines pattern line_index (is_end_of_file chunk);
          retry = (found = None \<and> pattern \<noteq> [] \<and> last pattern = []);
          pattern' = (if retry then butlast pattern else pattern);
          new_slice' = (if retry \<and> new_slice \<noteq> [] \<and> last new_slice = [] then butlast new_slice
                        else new_slice);
          found' = (if retry
                    then seek_sequence original_lines pattern' line_index (is_end_of_file chunk)
                    else found)
      in case found' of
           None \<Rightarrow> Inl (compute_replacements_error
             (lit ''Failed to find expected lines in '' @ path_str path @ lit '':'' @ [10]
               @ join_with [10] (old_lines chunk)))
         | Some i \<Rightarrow> Inr (i, length pattern', new_slice'))"

fun compute_loop :: "pystr list \<Rightarrow> pypath \<Rightarrow> nat \<Rightarrow> replacement list \<Rightarrow> update_chunk list
      \<Rightarrow> (apply_patch_error, replacement list) result" where
  "compute_loop original_lines path line_index replacements [] = Inr replacements"
| "compute_loop original_lines path line_index replacements (chunk # chunks) =
     bindE (seek_context original_lines path line_index chunk) (\<lambda>line_index.
     if old_lines chunk = [] then
       let insertion_index = (if original_lines \<noteq> [] \<and> last original_lines = []
                              then length original_lines - 1 else length original_lines)
       in compute_loop original_lines path line_index
            (replacements @ [(insertion_index, 0, new_lines chunk)]) chunks
     else bindE (locate_old_lines original_lines path line_index chunk) (\<lambda>(found, n, new_slice).
       compute_loop original_lines path (found + n) (replacements @ [(found, n, new_slice)]) chunks))"

definition compute_replacements ::
    "pystr list \<Rightarrow> pypath \<Rightarrow> update_chunk list \<Rightarrow> (apply_patch_error, replacement list) result" where
  "compute_replacements original_lines path chunks =
     bindE (compute_loop original_lines path 0 [] chunks) (\<lambda>rs. Inr (sort_key fst rs))"

text \<open>\<open>del result[a : a + n]\<close> and \<open>result.insert(i, x)\<close>; both clamp, as \<open>take\<close> and \<open>drop\<close> do.\<close>

definition del_slice :: "nat \<Rightarrow> nat \<Rightarrow> 'a list \<Rightarrow> 'a list" where
  "del_slice a n xs = take a xs @ drop (a + n) xs"

definition insert_at :: "nat \<Rightarrow> 'a \<Rightarrow> 'a list \<Rightarrow> 'a list" where
  "insert_at i x xs = take i xs @ x # drop i xs"

fun insert_segment :: "nat \<Rightarrow> 'a list \<Rightarrow> 'a list \<Rightarrow> 'a list" where
  "insert_segment i [] result = result"
| "insert_segment i (new_line # new_segment) result =
     insert_segment (i + 1) new_segment (insert_at i new_line result)"

definition apply_one :: "nat \<times> nat \<times> 'a list \<Rightarrow> 'a list \<Rightarrow> 'a list" where
  "apply_one r result = (case r of (start_index, old_length, new_segment) \<Rightarrow>
     insert_segment start_index new_segment (del_slice start_index old_length result))"

definition apply_replacements :: "'a list \<Rightarrow> (nat \<times> nat \<times> 'a list) list \<Rightarrow> 'a list" where
  "apply_replacements lines replacements = fold apply_one (rev replacements) lines"

definition content_lines :: "pystr \<Rightarrow> pystr list" where
  "content_lines content = (let ls = split_on 10 content in if last ls = [] then butlast ls else ls)"

definition derive_new_contents_from_chunks ::
    "pypath \<Rightarrow> update_chunk list \<Rightarrow> pystr \<Rightarrow> (apply_patch_error, pystr) result" where
  "derive_new_contents_from_chunks path chunks original_content =
     (let original_lines = content_lines original_content in
      bindE (compute_replacements original_lines path chunks) (\<lambda>replacements.
        let new_lines = apply_replacements original_lines replacements;
            new_lines = (if new_lines = [] \<or> last new_lines \<noteq> [] then new_lines @ [[]] else new_lines)
        in Inr (join_with [10] new_lines)))"

section \<open>The specification: one forward pass\<close>

fun splice :: "nat \<Rightarrow> 'a list \<Rightarrow> (nat \<times> nat \<times> 'a list) list \<Rightarrow> 'a list" where
  "splice pos lines [] = drop pos lines"
| "splice pos lines ((s, n, new) # rs) =
     take (s - pos) (drop pos lines) @ new @ splice (s + n) lines rs"

text \<open>Replacements in order, disjoint, inside the file.\<close>

fun disjoint_from :: "nat \<Rightarrow> nat \<Rightarrow> (nat \<times> nat \<times> 'a list) list \<Rightarrow> bool" where
  "disjoint_from pos len [] = (pos \<le> len)"
| "disjoint_from pos len ((s, n, new) # rs) = (pos \<le> s \<and> s + n \<le> len \<and> disjoint_from (s + n) len rs)"

lemma insert_segment_append: "i \<le> length xs \<Longrightarrow> insert_segment i seg xs = take i xs @ seg @ drop i xs"
proof (induction seg arbitrary: i xs)
  case (Cons a seg)
  then have "insert_segment (i + 1) seg (insert_at i a xs) =
      take (i + 1) (insert_at i a xs) @ seg @ drop (i + 1) (insert_at i a xs)"
    by (intro Cons.IH) (simp add: insert_at_def)
  with Cons.prems show ?case by (simp add: insert_at_def)
qed simp

lemma apply_one_splice:
  "s \<le> length xs \<Longrightarrow> apply_one (s, n, new) xs = take s xs @ new @ drop (s + n) xs"
  by (simp add: apply_one_def insert_segment_append del_slice_def)

lemma splice_prefix:
  "disjoint_from pos (length lines) rs \<Longrightarrow> pre \<le> pos \<Longrightarrow>
     splice pre lines rs = take (pos - pre) (drop pre lines) @ splice pos lines rs"
proof (induction rs arbitrary: pos)
  case Nil
  then have "drop pos lines = drop (pos - pre) (drop pre lines)" by simp
  then show ?case by (simp only: splice.simps append_take_drop_id)
next
  case (Cons r rs)
  obtain s n new where r: "r = (s, n, new)" by (cases r) auto
  with Cons.prems have "pos \<le> s" by simp
  then have "take (s - pre) (drop pre lines) =
      take (pos - pre) (drop pre lines) @ take (s - pos) (drop (pos - pre) (drop pre lines))"
    using Cons.prems by (subst take_add [symmetric]) simp
  then show ?case using Cons.prems by (simp add: r)
qed

lemma apply_replacements_Cons:
  "apply_replacements lines (r # rs) = apply_one r (apply_replacements lines rs)"
  by (simp add: apply_replacements_def)

lemma disjoint_from_le: "disjoint_from pos len rs \<Longrightarrow> pos \<le> len"
  by (induction pos len rs rule: disjoint_from.induct) auto

lemma apply_replacements_splice_lemma:
  "disjoint_from pos (length lines) rs \<Longrightarrow>
     apply_replacements lines rs = take pos lines @ splice pos lines rs"
proof (induction rs arbitrary: pos)
  case Nil
  then show ?case by (simp add: apply_replacements_def)
next
  case (Cons r rs)
  obtain s n new where r: "r = (s, n, new)" by (cases r) auto
  with Cons.prems have d: "pos \<le> s" "s + n \<le> length lines" "disjoint_from (s + n) (length lines) rs"
    by simp_all
  from Cons.IH [OF d(3)]
  have "apply_replacements lines (r # rs) =
      take s (take (s + n) lines @ splice (s + n) lines rs) @ new @
      drop (s + n) (take (s + n) lines @ splice (s + n) lines rs)"
    using d(2) by (simp add: apply_replacements_Cons r apply_one_splice)
  also have "\<dots> = take s lines @ new @ splice (s + n) lines rs"
    using d(2) by (simp add: min_def)
  also have "take s lines = take pos lines @ take (s - pos) (drop pos lines)"
    using d(1) by (metis le_add_diff_inverse take_add)
  finally show ?case by (simp add: r)
qed

section \<open>Located chunks are disjoint\<close>

lemma disjoint_from_mono: "disjoint_from pos len rs \<Longrightarrow> pos' \<le> pos \<Longrightarrow> disjoint_from pos' len rs"
  by (cases rs) auto

lemma disjoint_from_append:
  "disjoint_from pos len (rs @ [(s, n, new)]) \<longleftrightarrow>
     disjoint_from pos s rs \<and> s + n \<le> len"
  by (induction pos s rs rule: disjoint_from.induct) (auto dest: disjoint_from_le)

lemma disjoint_from_extend: "disjoint_from pos len rs \<Longrightarrow> len \<le> len' \<Longrightarrow> disjoint_from pos len' rs"
  by (induction pos len rs rule: disjoint_from.induct) auto

text \<open>
  The loop keeps: the located replacements, apart from the insertions at the end of the file, are
  disjoint and end before \<open>line_index\<close>.
\<close>

definition tail_insertion :: "pystr list \<Rightarrow> replacement \<Rightarrow> bool" where
  "tail_insertion lines r \<longleftrightarrow> fst r = length lines \<and> fst (snd r) = 0"

definition loop_inv :: "pystr list \<Rightarrow> nat \<Rightarrow> replacement list \<Rightarrow> bool" where
  "loop_inv lines line_index rs \<longleftrightarrow> line_index \<le> length lines \<and>
     disjoint_from 0 line_index (filter (\<lambda>r. \<not> tail_insertion lines r) rs)"

lemma loop_inv_advance:
  "loop_inv lines i rs \<Longrightarrow> i \<le> j \<Longrightarrow> j \<le> length lines \<Longrightarrow> loop_inv lines j rs"
  by (auto simp: loop_inv_def intro: disjoint_from_extend)

lemma loop_inv_tail:
  "loop_inv lines i rs \<Longrightarrow> loop_inv lines i (rs @ [(length lines, 0, new)])"
  by (simp add: loop_inv_def tail_insertion_def)

lemma loop_inv_located:
  assumes "loop_inv lines i rs" "i \<le> s" "s + n \<le> length lines"
  shows "loop_inv lines (s + n) (rs @ [(s, n, new)])"
  using assms
  by (auto simp: loop_inv_def disjoint_from_append intro: disjoint_from_extend)

text \<open>No chunk is anchored at the end of the file, and lines added at the end go after the last line.\<close>

definition plain_chunks :: "pystr list \<Rightarrow> update_chunk list \<Rightarrow> bool" where
  "plain_chunks lines chunks \<longleftrightarrow> list_all (\<lambda>c. \<not> is_end_of_file c) chunks \<and>
     (lines = [] \<or> last lines \<noteq> [] \<or> list_all (\<lambda>c. old_lines c \<noteq> []) chunks)"

lemma seek_context_bounds:
  "seek_context lines path li c = Inr li' \<Longrightarrow> li \<le> length lines \<Longrightarrow> li \<le> li' \<and> li' \<le> length lines"
  by (auto simp: seek_context_def split: option.splits dest: seek_sequence_bounds)

lemma locate_old_lines_found:
  assumes "locate_old_lines lines path li c = Inr (i, n, new)"
  obtains pattern where "seek_sequence lines pattern li (is_end_of_file c) = Some i"
    "n = length pattern" "pattern = old_lines c \<or> pattern = butlast (old_lines c) \<and> last (old_lines c) = []"
  using assms by (auto simp: locate_old_lines_def Let_def split: option.splits if_splits)

lemma locate_old_lines_bounds:
  assumes "locate_old_lines lines path li c = Inr (i, n, new)" "\<not> is_end_of_file c"
    "li \<le> length lines"
  shows "li \<le> i \<and> i + n \<le> length lines"
proof -
  from assms(1) obtain pattern where "seek_sequence lines pattern li False = Some i" "n = length pattern"
    using assms(2) by (auto elim: locate_old_lines_found)
  with assms(3) show ?thesis by (auto dest: seek_sequence_bounds)
qed

lemma compute_loop_inv:
  "compute_loop lines path li rs chunks = Inr rs' \<Longrightarrow> plain_chunks lines chunks \<Longrightarrow>
     loop_inv lines li rs \<Longrightarrow> \<exists>li'. loop_inv lines li' rs'"
proof (induction chunks arbitrary: li rs)
  case Nil
  then show ?case by auto
next
  case (Cons c chunks)
  have plain: "plain_chunks lines chunks" "\<not> is_end_of_file c"
    using Cons.prems(2) by (auto simp: plain_chunks_def)
  from Cons.prems(1) obtain li1 where li1: "seek_context lines path li c = Inr li1"
    by (auto simp: result_iff)
  then have le: "li \<le> li1" "li1 \<le> length lines"
    using seek_context_bounds [OF li1] Cons.prems(3) by (auto simp: loop_inv_def)
  have inv1: "loop_inv lines li1 rs" using loop_inv_advance [OF Cons.prems(3) le] .
  show ?case
  proof (cases "old_lines c = []")
    case True
    then have "lines = [] \<or> last lines \<noteq> []" using Cons.prems(2) by (auto simp: plain_chunks_def)
    then have "compute_loop lines path li1 (rs @ [(length lines, 0, new_lines c)]) chunks = Inr rs'"
      using Cons.prems(1) True li1 by auto
    then show ?thesis by (rule Cons.IH [OF _ plain(1) loop_inv_tail [OF inv1]])
  next
    case False
    with Cons.prems(1) li1 obtain i n new where
      i: "locate_old_lines lines path li1 c = Inr (i, n, new)"
      and rest: "compute_loop lines path (i + n) (rs @ [(i, n, new)]) chunks = Inr rs'"
      by (auto simp: result_iff)
    from locate_old_lines_bounds [OF i plain(2) le(2)]
    have "loop_inv lines (i + n) (rs @ [(i, n, new)])"
      by (intro loop_inv_located [OF inv1]) auto
    then show ?thesis by (rule Cons.IH [OF rest plain(1)])
  qed
qed

lemma disjoint_from_sorted:
  "disjoint_from pos len rs \<Longrightarrow> sorted (map fst rs) \<and> (\<forall>r \<in> set rs. pos \<le> fst r \<and> fst r + fst (snd r) \<le> len)"
proof (induction pos len rs rule: disjoint_from.induct)
  case (2 pos len s n new rs)
  then show ?case using disjoint_from_le by fastforce
qed simp

lemma disjoint_from_tails:
  "disjoint_from pos li xs \<Longrightarrow> li \<le> length lines \<Longrightarrow> \<forall>r \<in> set ts. tail_insertion lines r \<Longrightarrow>
     disjoint_from pos (length lines) (xs @ ts)"
proof (induction pos li xs rule: disjoint_from.induct)
  case (1 pos len)
  have "disjoint_from (length lines) (length lines) ts"
    using "1.prems"(3) by (induction ts) (auto simp: tail_insertion_def)
  then show ?case using "1.prems" disjoint_from_mono [of "length lines" _ ts pos] by simp
qed auto

lemma sort_replacements:
  assumes "loop_inv lines li rs"
  shows "sort_key fst rs =
    filter (\<lambda>r. \<not> tail_insertion lines r) rs @ filter (tail_insertion lines) rs"
proof (rule properties_for_sort_key)
  let ?T = "tail_insertion lines"
  from assms have d: "disjoint_from 0 li (filter (\<lambda>r. \<not> ?T r) rs)" "li \<le> length lines"
    by (simp_all add: loop_inv_def)
  then have lt: "fst r < length lines" if "r \<in> set rs" "\<not> ?T r" for r
  proof -
    have "r \<in> set (filter (\<lambda>r. \<not> ?T r) rs)" using that by simp
    with disjoint_from_sorted [OF d(1)] have "fst r + fst (snd r) \<le> li" by blast
    with d(2) that(2) show ?thesis by (auto simp: tail_insertion_def)
  qed
  show "mset (filter (\<lambda>r. \<not> ?T r) rs @ filter ?T rs) = mset rs"
    by (simp add: union_filter_mset_complement)
  show "filter (\<lambda>x. fst k = fst x) (filter (\<lambda>r. \<not> ?T r) rs @ filter ?T rs) =
      filter (\<lambda>x. fst k = fst x) rs"
    if "k \<in> set (filter (\<lambda>r. \<not> ?T r) rs @ filter ?T rs)" for k
  proof (cases "?T k")
    case True
    then have "x \<in> set rs \<and> fst k = fst x \<longrightarrow> ?T x" for x
      using lt by (fastforce simp: tail_insertion_def)
    then have "filter (\<lambda>x. \<not> ?T x \<and> fst k = fst x) rs = []"
      "filter (\<lambda>x. ?T x \<and> fst k = fst x) rs = filter (\<lambda>x. fst k = fst x) rs"
      by (auto simp: filter_empty_conv intro!: filter_cong)
    then show ?thesis by simp
  next
    case False
    then have "fst k \<noteq> length lines" using lt that by fastforce
    then have "filter (\<lambda>x. ?T x \<and> fst k = fst x) rs = []"
      "filter (\<lambda>x. \<not> ?T x \<and> fst k = fst x) rs = filter (\<lambda>x. fst k = fst x) rs"
      by (auto simp: filter_empty_conv tail_insertion_def intro!: filter_cong)
    then show ?thesis by simp
  qed
  have "sorted (map fst (filter ?T rs))"
    by (induction rs) (auto simp: tail_insertion_def)
  with disjoint_from_sorted [OF d(1)] lt
  show "sorted (map fst (filter (\<lambda>r. \<not> ?T r) rs @ filter ?T rs))"
    by (auto simp: sorted_append tail_insertion_def intro: less_imp_le)
qed

lemma compute_replacements_disjoint_lemma:
  assumes "compute_replacements lines path chunks = Inr rs" "plain_chunks lines chunks"
  shows "disjoint_from 0 (length lines) rs"
proof -
  from assms(1) obtain rs0 where
    rs0: "compute_loop lines path 0 [] chunks = Inr rs0" "rs = sort_key fst rs0"
    by (auto simp: compute_replacements_def result_iff)
  have "loop_inv lines 0 []" by (simp add: loop_inv_def)
  with rs0(1) assms(2) obtain li where "loop_inv lines li rs0"
    using compute_loop_inv by blast
  then show ?thesis
    using rs0(2) by (auto simp: sort_replacements loop_inv_def intro: disjoint_from_tails)
qed

text \<open>Lines as the text of a file, with a line feed after the last one.\<close>

definition file_text :: "pystr list \<Rightarrow> pystr" where
  "file_text ls = join_with [10] (if ls = [] \<or> last ls \<noteq> [] then ls @ [[]] else ls)"

lemma derive_splice_lemma:
  assumes "plain_chunks (content_lines content) chunks"
  shows "derive_new_contents_from_chunks path chunks content =
    bindE (compute_replacements (content_lines content) path chunks)
      (\<lambda>rs. Inr (file_text (splice 0 (content_lines content) rs)))"
proof (cases "compute_replacements (content_lines content) path chunks")
  case (Inr rs)
  with apply_replacements_splice_lemma [OF compute_replacements_disjoint_lemma [OF Inr assms]]
  show ?thesis by (simp add: derive_new_contents_from_chunks_def file_text_def Let_def)
qed (simp add: derive_new_contents_from_chunks_def)

section \<open>Edits whose old lines stand in the file as they are\<close>

text \<open>
  An edit script: the lines kept before each edit, the lines it removes and the lines it puts in their
  place. It is applicable when the removed lines do not stand earlier among the kept ones.
\<close>

type_synonym edit = "pystr list \<times> pystr list \<times> pystr list"

fun edits_before :: "edit list \<Rightarrow> pystr list \<Rightarrow> pystr list" where
  "edits_before [] tail = tail"
| "edits_before ((kept, old, new) # es) tail = kept @ old @ edits_before es tail"

fun edits_after :: "edit list \<Rightarrow> pystr list \<Rightarrow> pystr list" where
  "edits_after [] tail = tail"
| "edits_after ((kept, old, new) # es) tail = kept @ new @ edits_after es tail"

fun edits_ok :: "edit list \<Rightarrow> pystr list \<Rightarrow> bool" where
  "edits_ok [] tail = True"
| "edits_ok ((kept, old, new) # es) tail = (old \<noteq> []
     \<and> (\<forall>j < length kept. take (length old) (drop j (kept @ old @ edits_before es tail)) \<noteq> old)
     \<and> edits_ok es tail)"

fun edit_chunk :: "edit \<Rightarrow> update_chunk" where
  "edit_chunk (kept, old, new) =
     \<lparr>change_context = None, old_lines = old, new_lines = new, is_end_of_file = False\<rparr>"

fun edit_replacements :: "nat \<Rightarrow> edit list \<Rightarrow> replacement list" where
  "edit_replacements pos [] = []"
| "edit_replacements pos ((kept, old, new) # es) =
     (pos + length kept, length old, new) # edit_replacements (pos + length kept + length old) es"

lemma seek_exact:
  assumes "old \<noteq> []"
    and "\<forall>j < length kept. take (length old) (drop j (kept @ old @ rest)) \<noteq> old"
  shows "seek_sequence (front @ kept @ old @ rest) old (length front) False = Some (length front + length kept)"
proof -
  let ?lines = "front @ kept @ old @ rest"
  have "\<not> matches_at (seek_passes ! 0) ?lines old j" if "j < length front + length kept" "length front \<le> j" for j
  proof -
    have "drop j ?lines = drop (j - length front) (kept @ old @ rest)" using that(2) by simp
    moreover have "take (length old) (drop (j - length front) (kept @ old @ rest)) \<noteq> old"
      using assms(2) that by (intro assms(2) [rule_format]) arith
    ultimately show ?thesis by (simp only: seek_passes_def matches_at_exact nth_Cons_0 not_False_eq_True)
  qed
  then show ?thesis
    unfolding seek_sequence_Some_lemma [OF assms(1)]
    by (intro exI [of _ 0]) (auto simp: seek_candidate_def seek_passes_def matches_at_exact)
qed

lemma compute_loop_edits:
  "edits_ok es tail \<Longrightarrow> lines = front @ edits_before es tail \<Longrightarrow>
     compute_loop lines path (length front) rs (map edit_chunk es) =
       Inr (rs @ edit_replacements (length front) es)"
proof (induction es arbitrary: front rs)
  case (Cons e es)
  obtain kept old new where e: "e = (kept, old, new)" by (cases e) auto
  from Cons.prems have "seek_sequence lines old (length front) False = Some (length front + length kept)"
    by (simp add: e seek_exact)
  then have loc: "locate_old_lines lines path (length front) (edit_chunk e) =
      Inr (length front + length kept, length old, new)"
    by (simp add: e locate_old_lines_def)
  have "compute_loop lines path (length (front @ kept @ old))
      (rs @ [(length front + length kept, length old, new)]) (map edit_chunk es) =
      Inr ((rs @ [(length front + length kept, length old, new)]) @
        edit_replacements (length (front @ kept @ old)) es)"
    using Cons.prems by (intro Cons.IH) (simp_all add: e)
  then show ?case using loc Cons.prems
    by (simp add: e seek_context_def add.assoc)
qed simp

lemma edit_replacements_sorted:
  "sorted (map fst (edit_replacements pos es)) \<and> (\<forall>r \<in> set (edit_replacements pos es). pos \<le> fst r)"
  by (induction pos es rule: edit_replacements.induct) (auto dest: bspec)

lemma splice_edits:
  "splice pos (front @ edits_before es tail) (edit_replacements (length front) es) =
     drop pos front @ edits_after es tail" if "pos = length front"
  using that
proof (induction es arbitrary: pos front)
  case (Cons e es)
  obtain kept old new where e: "e = (kept, old, new)" by (cases e) auto
  show ?case using Cons.prems Cons.IH [of _ "front @ kept @ old"] by (simp add: e add.assoc)
qed simp

lemma plain_edits: "edits_ok es tail \<Longrightarrow> plain_chunks lines (map edit_chunk es)"
proof -
  assume ok: "edits_ok es tail"
  have "old_lines (edit_chunk e) \<noteq> [] \<and> \<not> is_end_of_file (edit_chunk e)" if "e \<in> set es" for e
    using ok that by (induction es) auto
  then show ?thesis by (auto simp: plain_chunks_def list_all_iff)
qed

lemma sort_key_sorted: "sorted (map fst rs) \<Longrightarrow> sort_key fst rs = rs"
  by (rule properties_for_sort_key) simp_all

lemma exact_edits_lemma:
  assumes "content_lines content = edits_before es tail" "edits_ok es tail"
  shows "derive_new_contents_from_chunks path (map edit_chunk es) content
    = Inr (file_text (edits_after es tail))"
proof -
  let ?lines = "content_lines content" and ?rs = "edit_replacements 0 es"
  have "compute_loop ?lines path 0 [] (map edit_chunk es) = Inr ?rs"
    using compute_loop_edits [OF assms(2), of ?lines "[]" path "[]"] assms(1) by simp
  then have "compute_replacements ?lines path (map edit_chunk es) = Inr ?rs"
    by (simp add: compute_replacements_def sort_key_sorted edit_replacements_sorted)
  moreover have "splice 0 ?lines ?rs = edits_after es tail"
    using splice_edits [of 0 "[]" es tail] assms(1) by simp
  ultimately show ?thesis
    by (simp add: derive_splice_lemma [OF plain_edits [OF assms(2)]])
qed

section \<open>Every chunk replaces lines it quotes\<close>

text \<open>
  The replacement a chunk may cause: at the end for a chunk that removes nothing, else at lines equal to
  the removed ones under the loosest comparison, the last removed line dropped when it is empty and the
  search needed that.
\<close>

definition chunk_replaces :: "pystr list \<Rightarrow> update_chunk \<Rightarrow> replacement \<Rightarrow> bool" where
  "chunk_replaces lines c r = (case r of (i, n, new) \<Rightarrow>
     if old_lines c = [] then n = 0 \<and> new = new_lines c \<and>
       i = length lines - (if lines \<noteq> [] \<and> last lines = [] then 1 else 0)
     else map normalise_patch_seek_line (take n (drop i lines)) =
            map normalise_patch_seek_line (take n (old_lines c))
       \<and> (n = length (old_lines c) \<and> new = new_lines c
          \<or> last (old_lines c) = [] \<and> n = length (old_lines c) - 1
            \<and> new = (if new_lines c \<noteq> [] \<and> last (new_lines c) = [] then butlast (new_lines c)
                     else new_lines c)))"

lemma locate_old_lines_replaces:
  assumes "locate_old_lines lines path li c = Inr r" "old_lines c \<noteq> []"
  shows "chunk_replaces lines c r"
proof -
  obtain i n new where r: "r = (i, n, new)" by (cases r) auto
  have m: "map normalise_patch_seek_line (take (length q) (drop i lines)) = map normalise_patch_seek_line q"
    if "seek_sequence lines q li (is_end_of_file c) = Some i" for q i
    using seek_sequence_matches [OF that] by (cases "q = []") auto
  show ?thesis
    using assms m [of "old_lines c"] m [of "butlast (old_lines c)"]
    by (auto simp: r chunk_replaces_def locate_old_lines_def Let_def butlast_conv_take
        split: option.splits if_splits)
qed

lemma compute_loop_replaces:
  "compute_loop lines path li rs chunks = Inr rs' \<Longrightarrow>
     \<exists>ts. rs' = rs @ ts \<and> list_all2 (chunk_replaces lines) chunks ts"
proof (induction chunks arbitrary: li rs)
  case (Cons c chunks)
  from Cons.prems obtain li' where li': "seek_context lines path li c = Inr li'" by (auto simp: result_iff)
  obtain r li2 where r: "chunk_replaces lines c r"
    and rest: "compute_loop lines path li2 (rs @ [r]) chunks = Inr rs'"
  proof (cases "old_lines c = []")
    case True
    let ?i = "length lines - (if lines \<noteq> [] \<and> last lines = [] then 1 else 0)"
    have "chunk_replaces lines c (?i, 0, new_lines c)" using True by (simp add: chunk_replaces_def)
    then show ?thesis using that [of "(?i, 0, new_lines c)" li'] Cons.prems li' True by (simp split: if_splits)
  next
    case False
    with Cons.prems li' obtain i n new where "locate_old_lines lines path li' c = Inr (i, n, new)"
      "compute_loop lines path (i + n) (rs @ [(i, n, new)]) chunks = Inr rs'"
      by (auto simp: result_iff)
    then show ?thesis using that locate_old_lines_replaces False by blast
  qed
  from Cons.IH [OF rest] r show ?case by auto
qed simp

text \<open>
  When no chunk is anchored at the end of the file, the computed replacements stand in the file in
  order and without overlap, and they are, up to that order, one per chunk: each replaces exactly
  lines its chunk quotes as removed, under the loosest comparison, by the lines the chunk adds.
\<close>

theorem replacements_quote_the_file:
  assumes "compute_replacements lines path chunks = Inr rs" "plain_chunks lines chunks"
  shows "disjoint_from 0 (length lines) rs
    \<and> (\<exists>rs0. mset rs0 = mset rs \<and> list_all2 (chunk_replaces lines) chunks rs0)"
proof -
  from assms(1) obtain rs0 where "compute_loop lines path 0 [] chunks = Inr rs0" "rs = sort_key fst rs0"
    by (auto simp: compute_replacements_def result_iff)
  then show ?thesis
    using compute_loop_replaces compute_replacements_disjoint_lemma [OF assms] by fastforce
qed

lemma replacements_quote_the_file_witness:
  "disjoint_from 0 3 [(1 :: nat, 1 :: nat, [[120 :: int]])]
    \<and> (\<exists>rs0. mset rs0 = {#(1, 1, [[120]])#} \<and> list_all2 (chunk_replaces [[97], [98], [99]])
         [edit_chunk ([], [[98]], [[120]])] rs0)"
proof -
  have "compute_replacements [[97], [98], [99]] (PyPath [] []) [edit_chunk ([], [[98]], [[120]])]
      = Inr [(1, 1, [[120]])]"
    by code_simp
  then show ?thesis
    using replacements_quote_the_file [of "[[97], [98], [99]]" "PyPath [] []"
        "[edit_chunk ([], [[98]], [[120]])]" "[(1, 1, [[120]])]"]
    by (simp add: plain_chunks_def)
qed

text \<open>
  Under the same condition the new contents of an update are one forward pass over the old lines
  that copies what no replacement covers: working from the last replacement to the first, by deletions
  and insertions at an index, moves no line that is still to be replaced.
\<close>

theorem derive_is_one_pass:
  assumes "plain_chunks (content_lines content) chunks"
  shows "derive_new_contents_from_chunks path chunks content =
    bindE (compute_replacements (content_lines content) path chunks)
      (\<lambda>rs. Inr (file_text (splice 0 (content_lines content) rs)))"
  by (rule derive_splice_lemma [OF assms])

lemma derive_is_one_pass_witness:
  "derive_new_contents_from_chunks (PyPath [] []) [edit_chunk ([], [[98]], [[120]])] [97, 10, 98, 10] =
    bindE (compute_replacements [[97], [98]] (PyPath [] []) [edit_chunk ([], [[98]], [[120]])])
      (\<lambda>rs. Inr (file_text (splice 0 [[97], [98]] rs)))"
  using derive_is_one_pass [of "[97, 10, 98, 10]" "[edit_chunk ([], [[98]], [[120]])]" "PyPath [] []"]
  by (simp add: plain_chunks_def content_lines_def)

end
