(* ===== verification/PatchVerify.thy ===== *)
theory PatchVerify
  imports PatchApply PyDict
begin

text \<open>
  Checking a parsed patch against the workspace, \<open>verify_apply_patch_args\<close> of
  \<open>pycodex/apply_patch/invocation.py\<close>, and writing a verified action to disk,
  \<open>apply_patch_action_to_disk\<close> of \<open>pycodex/apply_patch/__init__.py\<close>. The file system is a
  parameter of the checks (\<open>host\<close>): what a path resolves to, what reading it gives, whether it exists.
  The lines of \<open>difflib.unified_diff\<close> are a field of it as well: the diff is shown to the user and is
  not read back.
\<close>

section \<open>The host and the data\<close>

datatype read_outcome = ReadOk pystr | ReadOSError pystr | ReadDecodeError pystr

record host =
  host_resolve :: "pypath \<Rightarrow> (pystr, pypath) result"
  host_read_text :: "pypath \<Rightarrow> read_outcome"
  host_exists :: "pypath \<Rightarrow> bool"
  host_home :: pypath
  host_difflib :: "pystr list \<Rightarrow> pystr list \<Rightarrow> nat \<Rightarrow> pystr list"

datatype py_exn = ValueErr pystr | OSErr pystr | UnicodeDecodeErr pystr | PatchErr apply_patch_error

datatype file_change =
    ChangeAdd pystr "pystr option" "pystr option"
  | ChangeDelete pystr
  | ChangeUpdate pystr "pypath option" "pystr option" "pystr option" "pystr option"

fun change_move_path :: "file_change \<Rightarrow> pypath option" where
  "change_move_path (ChangeUpdate diff mv new old overwritten) = mv"
| "change_move_path c = None"

record apply_patch_action =
  action_changes :: "(pypath, file_change) pydict"
  action_cwd :: pypath
  action_patch :: pystr

datatype maybe_verified =
    Body apply_patch_action
  | ShellParseError pystr
  | CorrectnessError apply_patch_error
  | NotApplyPatch

section \<open>The workspace root\<close>

definition read_optional_text :: "host \<Rightarrow> pypath \<Rightarrow> pystr option" where
  "read_optional_text h p = (case host_read_text h p of ReadOk t \<Rightarrow> Some t | _ \<Rightarrow> None)"

text \<open>The walk up from the resolved working directory to the nearest directory with a \<open>.git\<close>.\<close>

function walk_to_root :: "host \<Rightarrow> pypath \<Rightarrow> pypath \<Rightarrow> pypath \<Rightarrow> pypath" where
  "walk_to_root h home resolved current =
     (if current = home then resolved
      else if host_exists h (path_join current (path_of (lit ''.git''))) then current
      else if path_parent current = current then resolved
      else walk_to_root h home resolved (path_parent current))"
  by pat_completeness auto
termination
proof (relation "measure (\<lambda>(_, _, _, current). length (path_parts current))")
  fix h home resolved current
  assume "path_parent current \<noteq> current"
  then have "path_parts current \<noteq> []" by (cases current) (auto simp: path_parent_def)
  then show "((h, home, resolved, path_parent current), (h, home, resolved, current))
      \<in> measure (\<lambda>(_, _, _, current). length (path_parts current))"
    by (simp add: path_parent_def)
qed simp

declare walk_to_root.simps [simp del]

definition workspace_root_for_cwd :: "host \<Rightarrow> pypath \<Rightarrow> (py_exn, pypath) result" where
  "workspace_root_for_cwd h cwd =
     (case host_resolve h cwd of Inl e \<Rightarrow> Inl (OSErr e) | Inr resolved \<Rightarrow>
      (case host_resolve h (host_home h) of Inl e \<Rightarrow> Inl (OSErr e) | Inr home \<Rightarrow>
       Inr (walk_to_root h home resolved resolved)))"

definition apply_patch_path_escape_error :: "host \<Rightarrow> pypath option \<Rightarrow> pypath \<Rightarrow> apply_patch_error option" where
  "apply_patch_path_escape_error h path workspace_root =
     (case path of None \<Rightarrow> None
      | Some p \<Rightarrow>
         (case host_resolve h p of
            Inl e \<Rightarrow> Some (ApplyPatchError IoErrorKind (lit ''Failed to resolve '' @ path_str p @ lit '': '' @ e))
          | Inr resolved_path \<Rightarrow>
         (case host_resolve h workspace_root of
            Inl e \<Rightarrow> Some (ApplyPatchError IoErrorKind (lit ''Failed to resolve '' @ path_str p @ lit '': '' @ e))
          | Inr resolved_root \<Rightarrow>
              if resolved_path = resolved_root \<or> path_is_relative_to resolved_path resolved_root then None
              else Some (compute_replacements_error (lit ''apply_patch path escapes workspace root ''
                @ path_str resolved_root @ lit '': '' @ path_str p)))))"

section \<open>The diff\<close>

fun splitlines_keepends :: "pystr \<Rightarrow> pystr list" where
  "splitlines_keepends [] = []"
| "splitlines_keepends (c # cs) =
     (if c = 13 \<and> cs \<noteq> [] \<and> hd cs = 10 then [13, 10] # splitlines_keepends (tl cs)
      else if is_linebreak c then [c] # splitlines_keepends cs
      else (case splitlines_keepends cs of [] \<Rightarrow> [[c]] | l # ls \<Rightarrow> (c # l) # ls))"

definition split_for_unified_diff :: "pystr \<Rightarrow> pystr list" where
  "split_for_unified_diff value =
     map (\<lambda>line. if ends_with line [10] then line else line @ [10]) (splitlines_keepends value)"

text \<open>The diff without its two header lines, and the new contents.\<close>

definition unified_diff_from_chunks_with_context ::
    "host \<Rightarrow> pypath \<Rightarrow> update_chunk list \<Rightarrow> pystr \<Rightarrow> nat \<Rightarrow> (apply_patch_error, pystr \<times> pystr) result" where
  "unified_diff_from_chunks_with_context h path chunks original_content context_lines =
     bindE (derive_new_contents_from_chunks path chunks original_content) (\<lambda>new_content.
       let diff_lines = host_difflib h (split_for_unified_diff original_content)
                          (split_for_unified_diff new_content) context_lines
       in Inr (concat (drop 2 diff_lines), new_content))"

definition unified_diff_from_chunks ::
    "host \<Rightarrow> pypath \<Rightarrow> update_chunk list \<Rightarrow> pystr \<Rightarrow> (apply_patch_error, pystr \<times> pystr) result" where
  "unified_diff_from_chunks h path chunks original_content =
     unified_diff_from_chunks_with_context h path chunks original_content 1"

lemma unified_diff_from_chunks_Inr [result_iff]:
  "unified_diff_from_chunks h path chunks old = Inr (diff, new) \<longleftrightarrow>
     derive_new_contents_from_chunks path chunks old = Inr new
     \<and> diff = concat (drop 2 (host_difflib h (split_for_unified_diff old) (split_for_unified_diff new) 1))"
  by (auto simp: unified_diff_from_chunks_def unified_diff_from_chunks_with_context_def bindE_eq_Inr Let_def)

section \<open>One hunk\<close>

text \<open>
  \<open>Inl\<close>: the exception leaves the function. \<open>Inr (Inl e)\<close>: the function returns the correctness
  error \<open>e\<close>. \<open>Inr (Inr c)\<close>: the change recorded for the resolved path.
\<close>

definition verify_hunk :: "host \<Rightarrow> pypath \<Rightarrow> pypath \<Rightarrow> hunk
      \<Rightarrow> (py_exn, apply_patch_error + pypath \<times> file_change) result" where
  "verify_hunk h effective_cwd workspace_root hk =
     (let path = resolve_path hk effective_cwd in
      case apply_patch_path_escape_error h (Some path) workspace_root of
        Some e \<Rightarrow> Inr (Inl e)
      | None \<Rightarrow>
      (case hk of
         AddFile _ contents \<Rightarrow>
           Inr (Inr (path, ChangeAdd contents None (read_optional_text h path)))
       | DeleteFile _ \<Rightarrow>
           (case host_read_text h path of
              ReadOSError e \<Rightarrow> Inr (Inl (ApplyPatchError IoErrorKind
                (lit ''Failed to read '' @ path_str path @ lit '': '' @ e)))
            | ReadDecodeError e \<Rightarrow> Inl (UnicodeDecodeErr e)
            | ReadOk content \<Rightarrow> Inr (Inr (path, ChangeDelete content)))
       | UpdateFile _ mv chunks \<Rightarrow>
           (case host_read_text h path of
              ReadOSError e \<Rightarrow> Inr (Inl (ApplyPatchError IoErrorKind
                (lit ''Failed to read file to update '' @ path_str path @ lit '': '' @ e)))
            | ReadDecodeError e \<Rightarrow> Inl (UnicodeDecodeErr e)
            | ReadOk original_content \<Rightarrow>
           (case unified_diff_from_chunks h path chunks original_content of
              Inl e \<Rightarrow> Inr (Inl e)
            | Inr (diff, new_content) \<Rightarrow>
              let move_path = map_option (path_join effective_cwd) mv in
              (case apply_patch_path_escape_error h move_path workspace_root of
                 Some e \<Rightarrow> Inr (Inl e)
               | None \<Rightarrow> Inr (Inr (path, ChangeUpdate diff move_path (Some new_content)
                   (Some original_content)
                   (case move_path of None \<Rightarrow> None | Some m \<Rightarrow> read_optional_text h m))))))))"

fun verify_hunks :: "host \<Rightarrow> pypath \<Rightarrow> pypath \<Rightarrow> (pypath, file_change) pydict \<Rightarrow> hunk list
      \<Rightarrow> (py_exn, apply_patch_error + (pypath, file_change) pydict) result" where
  "verify_hunks h effective_cwd workspace_root changes [] = Inr (Inr changes)"
| "verify_hunks h effective_cwd workspace_root changes (hk # hks) =
     bindE (verify_hunk h effective_cwd workspace_root hk) (\<lambda>r.
       case r of Inl e \<Rightarrow> Inr (Inl e)
       | Inr (path, change) \<Rightarrow>
           verify_hunks h effective_cwd workspace_root (dict_set path change changes) hks)"

definition verify_apply_patch_args :: "host \<Rightarrow> apply_patch_args \<Rightarrow> pypath \<Rightarrow> (py_exn, maybe_verified) result" where
  "verify_apply_patch_args h args cwd =
     (if \<not> path_is_absolute cwd then Inl (ValueErr (lit ''cwd must be an absolute path''))
      else let effective_cwd = (case patch_workdir args of None \<Rightarrow> cwd | Some w \<Rightarrow> path_join cwd (path_of w))
      in bindE (workspace_root_for_cwd h cwd) (\<lambda>workspace_root.
         if patch_hunks args = []
         then Inr (CorrectnessError (compute_replacements_error (lit ''patch must contain at least one hunk'')))
         else bindE (verify_hunks h effective_cwd workspace_root [] (patch_hunks args)) (\<lambda>r.
           case r of Inl e \<Rightarrow> Inr (CorrectnessError e)
           | Inr changes \<Rightarrow> Inr (Body \<lparr>action_changes = changes, action_cwd = effective_cwd,
                                       action_patch = patch_text args\<rparr>))))"

section \<open>Writing to disk\<close>

text \<open>
  The disk is the map from files to their text. \<open>unlink\<close> of a missing file raises; parents are
  created as needed. The disk is returned with the result: an exception leaves the writes made so far.
\<close>

type_synonym disk = "pypath \<rightharpoonup> pystr"

record disk_log =
  log_added :: "pypath list"
  log_modified :: "pypath list"
  log_deleted :: "pypath list"

definition unlink :: "pypath \<Rightarrow> disk \<Rightarrow> disk \<times> (py_exn, unit) result" where
  "unlink p d = (if d p = None then (d, Inl (OSErr (path_str p))) else (d(p := None), Inr ()))"

definition apply_change :: "pypath \<times> file_change \<Rightarrow> disk_log \<Rightarrow> disk \<Rightarrow> disk \<times> (py_exn, disk_log) result" where
  "apply_change pc lg d = (case pc of (path, change) \<Rightarrow>
     (case change of
        ChangeAdd content _ _ \<Rightarrow> (d(path \<mapsto> content), Inr (lg\<lparr>log_added := log_added lg @ [path]\<rparr>))
      | ChangeDelete _ \<Rightarrow>
          (case unlink path d of
             (d', Inl e) \<Rightarrow> (d', Inl e)
           | (d', Inr _) \<Rightarrow> (d', Inr (lg\<lparr>log_deleted := log_deleted lg @ [path]\<rparr>)))
      | ChangeUpdate _ mv new_content _ _ \<Rightarrow>
          (case new_content of
             None \<Rightarrow> (d, Inl (PatchErr (compute_replacements_error
               (lit ''missing computed content for update '' @ path_str path))))
           | Some text \<Rightarrow>
               let output_path = (case mv of None \<Rightarrow> path | Some m \<Rightarrow> m);
                   d' = d(output_path \<mapsto> text);
                   lg' = lg\<lparr>log_modified := log_modified lg @ [path]\<rparr>
               in if mv \<noteq> None \<and> mv \<noteq> Some path
                  then (case unlink path d' of
                          (d'', Inl e) \<Rightarrow> (d'', Inl e)
                        | (d'', Inr _) \<Rightarrow> (d'', Inr lg'))
                  else (d', Inr lg'))))"

fun apply_changes :: "(pypath, file_change) pydict \<Rightarrow> disk_log \<Rightarrow> disk \<Rightarrow> disk \<times> (py_exn, disk_log) result" where
  "apply_changes [] lg d = (d, Inr lg)"
| "apply_changes (pc # pcs) lg d =
     (case apply_change pc lg d of (d', Inl e) \<Rightarrow> (d', Inl e) | (d', Inr lg') \<Rightarrow> apply_changes pcs lg' d')"

definition apply_patch_summary :: "pypath list \<Rightarrow> pypath list \<Rightarrow> pypath list \<Rightarrow> pystr" where
  "apply_patch_summary added modified deleted =
     join_with [10] (lit ''Success. Updated the following files:''
       # map (\<lambda>p. lit ''A '' @ path_str p) added
       @ map (\<lambda>p. lit ''M '' @ path_str p) modified
       @ map (\<lambda>p. lit ''D '' @ path_str p) deleted) @ [10]"

definition apply_patch_action_to_disk :: "apply_patch_action \<Rightarrow> disk \<Rightarrow> disk \<times> (py_exn, pystr) result" where
  "apply_patch_action_to_disk action d =
     (case apply_changes (action_changes action)
             \<lparr>log_added = [], log_modified = [], log_deleted = []\<rparr> d of
        (d', Inl e) \<Rightarrow> (d', Inl e)
      | (d', Inr lg) \<Rightarrow> (d', Inr (apply_patch_summary (log_added lg) (log_modified lg) (log_deleted lg))))"

section \<open>Nothing leaves the workspace\<close>

definition inside_workspace :: "host \<Rightarrow> pypath \<Rightarrow> pypath \<Rightarrow> bool" where
  "inside_workspace h root p \<longleftrightarrow> (\<exists>rp rr. host_resolve h p = Inr rp \<and> host_resolve h root = Inr rr
     \<and> path_is_relative_to rp rr)"

definition change_inside :: "host \<Rightarrow> pypath \<Rightarrow> pypath \<times> file_change \<Rightarrow> bool" where
  "change_inside h root pc \<longleftrightarrow> inside_workspace h root (fst pc)
     \<and> pred_option (inside_workspace h root) (change_move_path (snd pc))"

lemma escape_error_None:
  "apply_patch_path_escape_error h path root = None \<longleftrightarrow> pred_option (inside_workspace h root) path"
  by (cases path)
    (auto simp: apply_patch_path_escape_error_def inside_workspace_def split: sum.splits)

lemma verify_hunk_inside:
  assumes "verify_hunk h cwd root hk = Inr (Inr pc)"
  shows "change_inside h root pc" "fst pc = resolve_path hk cwd"
  using assms
  by (auto simp: verify_hunk_def Let_def change_inside_def escape_error_None
      split: option.splits hunk.splits read_outcome.splits sum.splits)

lemma verify_hunks_inside:
  "verify_hunks h cwd root changes hks = Inr (Inr changes') \<Longrightarrow>
     list_all (change_inside h root) changes \<Longrightarrow> dict_ok changes \<Longrightarrow>
     list_all (change_inside h root) changes' \<and> dict_ok changes'
       \<and> fst ` set changes' = fst ` set changes \<union> (\<lambda>hk. resolve_path hk cwd) ` set hks"
proof (induction hks arbitrary: changes)
  case (Cons hk hks)
  from Cons.prems(1) obtain path change where
    1: "verify_hunk h cwd root hk = Inr (Inr (path, change))"
    and rest: "verify_hunks h cwd root (dict_set path change changes) hks = Inr (Inr changes')"
    by (auto simp: result_iff case_sum_eq)
  have "list_all (change_inside h root) (dict_set path change changes)"
    using Cons.prems(2) verify_hunk_inside(1) [OF 1] dict_set_in [of _ _ path change changes]
    by (fastforce simp: list_all_iff)
  from Cons.IH [OF rest this] Cons.prems(3) verify_hunk_inside(2) [OF 1] show ?case
    by (auto simp: dict_keys_set)
qed simp

lemma verify_body:
  assumes "verify_apply_patch_args h args cwd = Inr (Body action)"
  obtains root where "workspace_root_for_cwd h cwd = Inr root" "path_is_absolute cwd"
    "action_cwd action = (case patch_workdir args of None \<Rightarrow> cwd | Some w \<Rightarrow> path_join cwd (path_of w))"
    "verify_hunks h (action_cwd action) root [] (patch_hunks args) = Inr (Inr (action_changes action))"
    "patch_hunks args \<noteq> []"
  using assms
  by (auto simp: verify_apply_patch_args_def Let_def result_iff case_sum_eq split: if_splits)

text \<open>
  C3: A patch that verification accepts stays inside the workspace: every file its action touches and
  every move destination resolves to a path below the resolved workspace root, there is one change
  per file, and the files are exactly those the hunks name.
\<close>

theorem verified_action_stays_inside:
  assumes "verify_apply_patch_args h args cwd = Inr (Body action)"
  shows "\<exists>root. workspace_root_for_cwd h cwd = Inr root \<and> dict_ok (action_changes action)
    \<and> list_all (change_inside h root) (action_changes action)
    \<and> fst ` set (action_changes action) = (\<lambda>hk. resolve_path hk (action_cwd action)) ` set (patch_hunks args)"
  using assms by (rule verify_body) (use verify_hunks_inside in fastforce)

section \<open>The workspace root\<close>

text \<open>The root is the resolved working directory or an ancestor of it that holds a \<open>.git\<close>.\<close>

lemma path_parent_relative: "path_is_relative_to p (path_parent p)"
  by (auto simp: path_is_relative_to_def path_parent_def starts_with_prefix prefixeq_butlast)

lemma walk_to_root_ancestor:
  "path_is_relative_to resolved current \<Longrightarrow>
     path_is_relative_to resolved (walk_to_root h home resolved current)"
proof (induction h home resolved current rule: walk_to_root.induct)
  case (1 h home resolved current)
  have "path_is_relative_to resolved (path_parent current)"
    using "1.prems" path_parent_relative path_is_relative_to_trans by blast
  with "1.IH" "1.prems" show ?case
    by (subst walk_to_root.simps) auto
qed

lemma walk_to_root_git:
  "walk_to_root h home resolved current = root \<Longrightarrow>
     root = resolved \<or> host_exists h (path_join root (path_of (lit ''.git'')))"
proof (induction h home resolved current rule: walk_to_root.induct)
  case (1 h home resolved current)
  then show ?case
    by (subst (asm) (2) walk_to_root.simps) (auto split: if_splits)
qed

lemma path_relative_antisym: "path_is_relative_to p q \<Longrightarrow> path_is_relative_to q p \<Longrightarrow> p = q"
  by (cases p; cases q) (auto simp: path_is_relative_to_def starts_with_prefix)

lemma path_relative_parent: "path_is_relative_to c p \<Longrightarrow> p \<noteq> c \<Longrightarrow> path_is_relative_to (path_parent c) p"
  by (cases p; cases c)
    (auto simp: path_is_relative_to_def path_parent_def starts_with_prefix prefix_def butlast_append)

lemma walk_to_root_nearest:
  "walk_to_root h home resolved current = root \<Longrightarrow> root \<noteq> resolved \<Longrightarrow>
     path_is_relative_to current p \<Longrightarrow> path_is_relative_to p root \<Longrightarrow> p \<noteq> root \<Longrightarrow>
     \<not> host_exists h (path_join p (path_of (lit ''.git'')))"
proof (induction h home resolved current rule: walk_to_root.induct)
  case (1 h home resolved current)
  show ?case
  proof (cases "p = current")
    case True
    with "1.prems" show ?thesis by (subst (asm) walk_to_root.simps) (auto split: if_splits)
  next
    case False
    then have "path_is_relative_to (path_parent current) p"
      using path_relative_parent "1.prems"(3) by blast
    with "1.IH" "1.prems" False path_relative_antisym show ?thesis
      by (subst (asm) (1) walk_to_root.simps) (auto split: if_splits)
  qed
qed

section \<open>The last hunk of a file wins\<close>

lemma verify_hunks_append:
  "verify_hunks h cwd root changes (hks @ hks') =
     bindE (verify_hunks h cwd root changes hks) (\<lambda>r. case r of Inl e \<Rightarrow> Inr (Inl e)
       | Inr changes' \<Rightarrow> verify_hunks h cwd root changes' hks')"
proof (induction hks arbitrary: changes)
  case (Cons hk hks)
  show ?case
  proof (cases "verify_hunk h cwd root hk")
    case (Inr r)
    then show ?thesis using Cons.IH by (cases r) auto
  qed simp
qed simp

text \<open>
  Verification looks at the disk only, never at the outcome of an earlier hunk: if the last hunk of
  an accepted patch updates a file, the action's change for that file is the hunk applied to the text
  on disk, whatever earlier hunks of the patch do to the same file.
\<close>

theorem last_update_reads_the_disk:
  assumes body: "verify_apply_patch_args h args cwd = Inr (Body action)"
    and hunks: "patch_hunks args = hs @ [UpdateFile p mv cs]"
  shows "\<exists>original new diff mv' overwritten.
    host_read_text h (resolve_path (UpdateFile p mv cs) (action_cwd action)) = ReadOk original
    \<and> derive_new_contents_from_chunks (resolve_path (UpdateFile p mv cs) (action_cwd action)) cs original
        = Inr new
    \<and> dict_get (action_changes action) (resolve_path (UpdateFile p mv cs) (action_cwd action))
        = Some (ChangeUpdate diff mv' (Some new) (Some original) overwritten)"
proof -
  from body obtain root where
    "verify_hunks h (action_cwd action) root [] (hs @ [UpdateFile p mv cs]) = Inr (Inr (action_changes action))"
    by (rule verify_body) (simp add: hunks)
  then obtain changes path change where
    v: "verify_hunk h (action_cwd action) root (UpdateFile p mv cs) = Inr (Inr (path, change))"
    and a': "dict_set path change changes = action_changes action"
    by (auto simp: verify_hunks_append result_iff case_sum_eq)
  note a = a' [symmetric]
  have "path = resolve_path (UpdateFile p mv cs) (action_cwd action)"
    using verify_hunk_inside(2) [OF v] by simp
  with v a show ?thesis
    by (auto simp: verify_hunk_def Let_def unified_diff_from_chunks_Inr
        split: option.splits read_outcome.splits sum.splits)
qed

section \<open>What is on disk afterwards\<close>

fun effects :: "pypath \<times> file_change \<Rightarrow> (pypath \<times> pystr option) list" where
  "effects (p, ChangeAdd content nc ow) = [(p, Some content)]"
| "effects (p, ChangeDelete content) = [(p, None)]"
| "effects (p, ChangeUpdate diff mv new old ow) =
     (if mv = None \<or> mv = Some p then [(p, new)] else [(the mv, new), (p, None)])"

text \<open>Deleted and moved files are there, and updates carry their new text.\<close>

fun change_ready :: "disk \<Rightarrow> pypath \<times> file_change \<Rightarrow> bool" where
  "change_ready d (p, ChangeAdd content nc ow) = True"
| "change_ready d (p, ChangeDelete content) = (d p \<noteq> None)"
| "change_ready d (p, ChangeUpdate diff mv new old ow) =
     (new \<noteq> None \<and> (mv = None \<or> mv = Some p \<or> d p \<noteq> None))"

fun logged :: "pypath \<times> file_change \<Rightarrow> disk_log \<Rightarrow> disk_log" where
  "logged (p, ChangeAdd content nc ow) lg = lg\<lparr>log_added := log_added lg @ [p]\<rparr>"
| "logged (p, ChangeDelete content) lg = lg\<lparr>log_deleted := log_deleted lg @ [p]\<rparr>"
| "logged (p, ChangeUpdate diff mv new old ow) lg = lg\<lparr>log_modified := log_modified lg @ [p]\<rparr>"

definition run_effects :: "(pypath \<times> pystr option) list \<Rightarrow> disk \<Rightarrow> disk" where
  "run_effects es d = fold (\<lambda>(q, v) d. d(q := v)) es d"

lemma run_effects_other: "q \<notin> fst ` set es \<Longrightarrow> run_effects es d q = d q"
  by (induction es arbitrary: d) (auto simp: run_effects_def)

lemma run_effects_distinct:
  "distinct (map fst es) \<Longrightarrow>
     run_effects es d q = (case map_of es q of None \<Rightarrow> d q | Some v \<Rightarrow> v)"
proof (induction es arbitrary: d)
  case (Cons e es)
  obtain q' v where e: "e = (q', v)" by (cases e)
  have step: "run_effects (e # es) d = run_effects es (d(q' := v))"
    by (simp add: run_effects_def e)
  have "map_of es q' = None" using Cons.prems by (simp add: e map_of_eq_None_iff)
  with Cons step show ?case by (cases "q = q'") (auto simp: e split: option.split)
qed (simp add: run_effects_def)

lemma apply_change_effects:
  "change_ready d pc \<Longrightarrow> apply_change pc lg d = (run_effects (effects pc) d, Inr (logged pc lg))"
  by (cases "(d, pc)" rule: change_ready.cases)
    (auto simp: apply_change_def unlink_def run_effects_def Let_def fun_upd_twist
      split: option.splits)

lemma change_ready_other:
  "change_ready d pc \<Longrightarrow> d' (fst pc) = d (fst pc) \<Longrightarrow> change_ready d' pc"
  by (cases "(d, pc)" rule: change_ready.cases) auto

lemma fst_effects: "fst pc \<in> fst ` set (effects pc)"
  by (cases pc rule: effects.cases) auto

lemma apply_changes_effects:
  "distinct (map fst (concat (map effects pcs))) \<Longrightarrow> list_all (change_ready d) pcs \<Longrightarrow>
     apply_changes pcs lg d = (run_effects (concat (map effects pcs)) d, Inr (fold logged pcs lg))"
proof (induction pcs arbitrary: lg d)
  case Nil
  show ?case by (simp add: run_effects_def)
next
  case (Cons pc pcs)
  let ?d = "run_effects (effects pc) d"
  have "change_ready ?d pc'" if "pc' \<in> set pcs" for pc'
  proof (rule change_ready_other)
    show "change_ready d pc'" using Cons.prems(2) that by (simp add: list_all_iff)
    have "fst pc' \<in> fst ` set (concat (map effects pcs))"
      using that fst_effects [of pc'] by auto
    then show "?d (fst pc') = d (fst pc')"
      using Cons.prems(1) by (intro run_effects_other) auto
  qed
  then have "list_all (change_ready ?d) pcs" by (simp add: list_all_iff)
  with Cons.IH [of ?d] Cons.prems show ?case
    by (simp add: apply_change_effects run_effects_def)
qed

lemma fold_logged:
  "fold logged pcs lg =
     \<lparr>log_added = log_added lg @ map fst (filter (\<lambda>(_, c). \<exists>x y z. c = ChangeAdd x y z) pcs),
      log_modified = log_modified lg @ map fst (filter (\<lambda>(_, c). \<exists>a x y z w. c = ChangeUpdate a x y z w) pcs),
      log_deleted = log_deleted lg @ map fst (filter (\<lambda>(_, c). \<exists>x. c = ChangeDelete x) pcs)\<rparr>"
proof (induction pcs arbitrary: lg)
  case (Cons pc pcs)
  then show ?case by (cases pc rule: effects.cases) auto
qed simp

text \<open>
  Writing an action whose effects touch different paths, with the deleted and moved files in place,
  succeeds, and the disk afterwards is the old one with exactly those effects: additions and updates
  present with their text, deleted files and the sources of moves gone, all else untouched.
\<close>

theorem action_to_disk_effects:
  assumes "distinct (map fst (concat (map effects (action_changes action))))"
    and "list_all (change_ready d) (action_changes action)"
  shows "\<exists>summary. apply_patch_action_to_disk action d =
    (\<lambda>q. case map_of (concat (map effects (action_changes action))) q of None \<Rightarrow> d q | Some v \<Rightarrow> v,
     Inr summary)"
  using assms run_effects_distinct [OF assms(1)]
  by (auto simp: apply_patch_action_to_disk_def apply_changes_effects)

lemma action_to_disk_effects_witness:
  "\<exists>summary. apply_patch_action_to_disk
      \<lparr>action_changes = [(PyPath [] [[97]], ChangeUpdate [] (Some (PyPath [] [[98]])) (Some [120]) None None),
         (PyPath [] [[99]], ChangeDelete [121])], action_cwd = PyPath [] [], action_patch = []\<rparr>
      [PyPath [] [[97]] \<mapsto> [119], PyPath [] [[99]] \<mapsto> [121]] = ([PyPath [] [[98]] \<mapsto> [120]], Inr summary)"
  using action_to_disk_effects [of "\<lparr>action_changes =
        [(PyPath [] [[97]], ChangeUpdate [] (Some (PyPath [] [[98]])) (Some [120]) None None),
         (PyPath [] [[99]], ChangeDelete [121])], action_cwd = PyPath [] [], action_patch = []\<rparr>"
      "[PyPath [] [[97]] \<mapsto> [119], PyPath [] [[99]] \<mapsto> [121]]"]
  by (auto simp: fun_eq_iff)

text \<open>
  The workspace root is the resolved working directory or the nearest directory above it with a
  \<open>.git\<close>: it is a prefix of the resolved directory, and no directory strictly between has one.
\<close>

theorem root_is_nearest_git:
  assumes "workspace_root_for_cwd h cwd = Inr root" "host_resolve h cwd = Inr resolved"
  shows "path_is_relative_to resolved root
    \<and> (root = resolved \<or> host_exists h (path_join root (path_of (lit ''.git''))))
    \<and> (\<forall>p. root \<noteq> resolved \<and> path_is_relative_to resolved p \<and> path_is_relative_to p root \<and> p \<noteq> root
          \<longrightarrow> \<not> host_exists h (path_join p (path_of (lit ''.git''))))"
proof -
  from assms obtain home where r: "walk_to_root h home resolved resolved = root"
    by (auto simp: workspace_root_for_cwd_def split: sum.splits)
  show ?thesis
    using walk_to_root_ancestor [of resolved resolved h home] walk_to_root_git [OF r]
      walk_to_root_nearest [OF r] by (auto simp: r)
qed

lemma root_is_nearest_git_witness:
  "workspace_root_for_cwd \<lparr>host_resolve = Inr, host_read_text = (\<lambda>_. ReadOSError []),
      host_exists = (\<lambda>p. p = PyPath [47] [[119], lit ''.git'']), host_home = PyPath [47] [[104]],
      host_difflib = (\<lambda>_ _ _. [])\<rparr> (PyPath [47] [[119], [115]]) = Inr (PyPath [47] [[119]])
    \<and> path_is_relative_to (PyPath [47] [[119], [115]]) (PyPath [47] [[119]])" (is "?w = _ \<and> _")
proof -
  have "?w = Inr (PyPath [47] [[119]])"
    by (simp add: workspace_root_for_cwd_def walk_to_root.simps path_join_def path_parent_def
        path_is_absolute_def path_of_def path_split_root_def starts_with_def)
  then show ?thesis using root_is_nearest_git by fastforce
qed

section \<open>A workspace with one file\<close>

definition sample_path :: pypath where
  "sample_path = PyPath [47] [[119], [102]]"

definition sample_host :: host where
  "sample_host = \<lparr>host_resolve = Inr,
     host_read_text = (\<lambda>p. if p = sample_path then ReadOk [97, 10, 98, 10, 99, 10] else ReadOSError []),
     host_exists = (\<lambda>p. p = PyPath [47] [[119], lit ''.git'']),
     host_home = PyPath [47] [[104]], host_difflib = (\<lambda>old new n. [])\<rparr>"

lemma sample_root: "workspace_root_for_cwd sample_host (PyPath [47] [[119]]) = Inr (PyPath [47] [[119]])"
  by (simp add: workspace_root_for_cwd_def sample_host_def walk_to_root.simps path_join_def
      path_is_absolute_def path_of_def path_split_root_def starts_with_def)

lemma sample_facts:
  "host_resolve sample_host p = Inr p"
  "host_read_text sample_host sample_path = ReadOk [97, 10, 98, 10, 99, 10]"
  "inside_workspace sample_host (PyPath [47] [[119]]) sample_path"
  by (simp_all add: sample_host_def inside_workspace_def sample_path_def path_is_relative_to_def starts_with_def)

definition sample_args :: apply_patch_args where
  "sample_args = \<lparr>patch_text = [],
     patch_hunks = [UpdateFile (PyPath [] [[102]]) None [edit_chunk ([], [[97]], [[120]])],
       UpdateFile (PyPath [] [[102]]) None [edit_chunk ([], [[98]], [[121]])]],
     patch_workdir = None, patch_environment_id = None\<rparr>"

definition sample_action :: apply_patch_action where
  "sample_action = \<lparr>action_changes = [(sample_path,
       ChangeUpdate [] None (Some [97, 10, 121, 10, 99, 10]) (Some [97, 10, 98, 10, 99, 10]) None)],
     action_cwd = PyPath [47] [[119]], action_patch = []\<rparr>"

lemma sample_derive:
  "derive_new_contents_from_chunks sample_path [edit_chunk ([], [[97]], [[120]])] [97, 10, 98, 10, 99, 10]
    = Inr [120, 10, 98, 10, 99, 10]"
  "derive_new_contents_from_chunks sample_path [edit_chunk ([], [[98]], [[121]])] [97, 10, 98, 10, 99, 10]
    = Inr [97, 10, 121, 10, 99, 10]"
  by code_simp+

lemma sample_resolve: "resolve_path (UpdateFile (PyPath [] [[102]]) mv cs) (PyPath [47] [[119]]) = sample_path"
  by (simp add: resolve_path_def path_is_absolute_def path_join_def sample_path_def)

lemma sample_verified: "verify_apply_patch_args sample_host sample_args (PyPath [47] [[119]]) = Inr (Body sample_action)"
proof -
  have "apply_patch_path_escape_error sample_host (Some sample_path) (PyPath [47] [[119]]) = None"
    "apply_patch_path_escape_error sample_host None (PyPath [47] [[119]]) = None"
    by (simp_all add: escape_error_None sample_facts)
  moreover have "unified_diff_from_chunks sample_host sample_path cs old =
      map_sum id (\<lambda>new. ([], new)) (derive_new_contents_from_chunks sample_path cs old)" for cs old
    by (cases "derive_new_contents_from_chunks sample_path cs old")
      (simp_all add: unified_diff_from_chunks_def unified_diff_from_chunks_with_context_def sample_host_def)
  ultimately show ?thesis
    by (simp add: verify_apply_patch_args_def sample_args_def sample_action_def sample_root verify_hunk_def
        sample_resolve sample_facts sample_derive path_is_absolute_def
        del: edit_chunk.simps)
qed

lemma verified_action_stays_inside_witness:
  "\<exists>root. workspace_root_for_cwd sample_host (PyPath [47] [[119]]) = Inr root
    \<and> list_all (change_inside sample_host root) (action_changes sample_action)"
  using verified_action_stays_inside [OF sample_verified] by blast

lemma last_update_reads_the_disk_witness:
  "\<exists>original new diff mv' overwritten.
    host_read_text sample_host sample_path = ReadOk original
    \<and> derive_new_contents_from_chunks sample_path [edit_chunk ([], [[98]], [[121]])] original = Inr new
    \<and> dict_get (action_changes sample_action) sample_path
        = Some (ChangeUpdate diff mv' (Some new) (Some original) overwritten)"
  using last_update_reads_the_disk [OF sample_verified,
      of "[UpdateFile (PyPath [] [[102]]) None [edit_chunk ([], [[97]], [[120]])]]"
        "PyPath [] [[102]]" None "[edit_chunk ([], [[98]], [[121]])]"]
  by (simp add: sample_args_def sample_action_def sample_resolve del: edit_chunk.simps)

end
