(* ===== verification/PyShlex.thy ===== *)
theory PyShlex
  imports Prelude
begin

text \<open>
  The lexer \<open>shlex.shlex(s, posix=True, punctuation_chars=...)\<close> of the standard library with
  \<open>whitespace_split\<close> set and no comments, which is how the code uses it: words are separated by white
  space, quoted by single or double quotes and escaped by a backslash, and runs of punctuation
  characters are words of their own. \<open>shlex.split\<close> is the case without punctuation.
\<close>

datatype shlex_state = SxStart | SxWord | SxPunct | SxQuote int | SxEscape "int option"

definition shlex_space :: "int \<Rightarrow> bool" where
  "shlex_space c \<longleftrightarrow> c = 32 \<or> c = 9 \<or> c = 13 \<or> c = 10"

definition shlex_quote :: "int \<Rightarrow> bool" where
  "shlex_quote c \<longleftrightarrow> c = 39 \<or> c = 34"

definition shlex_emit :: "pystr \<Rightarrow> bool \<Rightarrow> pystr list \<Rightarrow> pystr list" where
  "shlex_emit token quoted' words = (if token \<noteq> [] \<or> quoted' then token # words else words)"

text \<open>
  The punctuation characters, the state, the token so far, whether it has been quoted, and the
  characters to read. A character that ends a token without being white space is read again.
\<close>

function shlex_loop ::
    "(int \<Rightarrow> bool) \<Rightarrow> shlex_state \<Rightarrow> pystr \<Rightarrow> bool \<Rightarrow> pystr \<Rightarrow> (pystr, pystr list) result" where
  "shlex_loop P SxStart token q [] = Inr []"
| "shlex_loop P SxWord token q [] = Inr (shlex_emit token q [])"
| "shlex_loop P SxPunct token q [] = Inr (shlex_emit token q [])"
| "shlex_loop P (SxQuote c) token q [] = Inl (lit ''No closing quotation'')"
| "shlex_loop P (SxEscape e) token q [] = Inl (lit ''No escaped character'')"
| "shlex_loop P SxStart token q (c # cs) =
     (if shlex_space c then shlex_loop P SxStart [] False cs
      else if c = 92 then shlex_loop P (SxEscape None) [] False cs
      else if P c then shlex_loop P SxPunct [c] False cs
      else if shlex_quote c then shlex_loop P (SxQuote c) [] False cs
      else shlex_loop P SxWord [c] False cs)"
| "shlex_loop P SxWord token q (c # cs) =
     (if shlex_space c then bindE (shlex_loop P SxStart [] False cs) (\<lambda>ws. Inr (shlex_emit token q ws))
      else if shlex_quote c then shlex_loop P (SxQuote c) token q cs
      else if c = 92 then shlex_loop P (SxEscape None) token q cs
      else if P c then bindE (shlex_loop P SxStart [] False (c # cs)) (\<lambda>ws. Inr (shlex_emit token q ws))
      else shlex_loop P SxWord (token @ [c]) q cs)"
| "shlex_loop P SxPunct token q (c # cs) =
     (if shlex_space c then bindE (shlex_loop P SxStart [] False cs) (\<lambda>ws. Inr (shlex_emit token q ws))
      else if P c then shlex_loop P SxPunct (token @ [c]) q cs
      else bindE (shlex_loop P SxStart [] False (c # cs)) (\<lambda>ws. Inr (shlex_emit token q ws)))"
| "shlex_loop P (SxQuote k) token q (c # cs) =
     (if c = k then shlex_loop P SxWord token True cs
      else if c = 92 \<and> k = 34 then shlex_loop P (SxEscape (Some k)) token True cs
      else shlex_loop P (SxQuote k) (token @ [c]) True cs)"
| "shlex_loop P (SxEscape e) token q (c # cs) =
     (let token' = (if e \<noteq> None \<and> c \<noteq> 92 \<and> Some c \<noteq> e then token @ [92] else token) @ [c]
      in shlex_loop P (case e of None \<Rightarrow> SxWord | Some k \<Rightarrow> SxQuote k) token' q cs)"
  by pat_completeness auto

termination
  by (relation "measure (\<lambda>(P, st, token, q, cs). 2 * length cs + (if st = SxStart then 0 else 1))") auto

definition no_punctuation :: "int \<Rightarrow> bool" where
  "no_punctuation c \<longleftrightarrow> False"

definition shlex_tokens :: "(int \<Rightarrow> bool) \<Rightarrow> pystr \<Rightarrow> (pystr, pystr list) result" where
  "shlex_tokens P s = shlex_loop P SxStart [] False s"

definition shlex_split :: "pystr \<Rightarrow> (pystr, pystr list) result" where
  "shlex_split s = shlex_tokens no_punctuation s"

section \<open>Words that need no quoting\<close>

definition plain_char :: "(int \<Rightarrow> bool) \<Rightarrow> int \<Rightarrow> bool" where
  "plain_char P c \<longleftrightarrow> \<not> shlex_space c \<and> \<not> shlex_quote c \<and> c \<noteq> 92 \<and> \<not> P c"

definition plain_word :: "(int \<Rightarrow> bool) \<Rightarrow> pystr \<Rightarrow> bool" where
  "plain_word P w \<longleftrightarrow> w \<noteq> [] \<and> list_all (plain_char P) w"

lemma shlex_plain:
  "list_all (plain_char P) w \<Longrightarrow>
     shlex_loop P SxWord token q (w @ rest) = shlex_loop P SxWord (token @ w) q rest"
  by (induction w arbitrary: token) (simp_all add: plain_char_def)

lemma shlex_word:
  "plain_word P w \<Longrightarrow> shlex_loop P SxStart [] False (w @ rest) = shlex_loop P SxWord w False rest"
  using shlex_plain [of P "tl w" "[hd w]" False rest]
  by (cases w) (simp_all add: plain_word_def plain_char_def)

lemma shlex_tokens_word: "plain_word P w \<Longrightarrow> shlex_tokens P w = Inr [w]"
  using shlex_word [of P w "[]"] by (simp add: shlex_tokens_def shlex_emit_def plain_word_def)

lemma shlex_tokens_space:
  "plain_word P w \<Longrightarrow> shlex_tokens P (w @ 32 # rest) = bindE (shlex_tokens P rest) (\<lambda>ws. Inr (w # ws))"
  using shlex_word [of P w "32 # rest"]
  by (simp add: shlex_tokens_def shlex_space_def shlex_emit_def plain_word_def)

text \<open>Words that need no quoting are split at the spaces between them.\<close>

lemma shlex_split_words:
  "\<forall>w \<in> set ws. plain_word no_punctuation w \<Longrightarrow> shlex_split (join_with [32] ws) = Inr ws"
proof (induction ws)
  case Nil
  then show ?case by (simp add: shlex_split_def shlex_tokens_def)
next
  case (Cons w ws)
  then show ?case
    by (cases ws) (simp_all add: shlex_split_def shlex_tokens_word shlex_tokens_space)
qed

section \<open>Quoted words\<close>

lemma shlex_in_quotes:
  "39 \<notin> set w \<Longrightarrow>
     shlex_loop P (SxQuote 39) token q (w @ 39 # rest) = shlex_loop P SxWord (token @ w) True rest"
  by (induction w arbitrary: token q) simp_all

lemma shlex_quoted:
  "39 \<notin> set w \<Longrightarrow> \<not> P 39 \<Longrightarrow>
     shlex_loop P SxStart [] False (39 # w @ 39 # rest) = shlex_loop P SxWord w True rest"
  by (simp add: shlex_in_quotes shlex_space_def shlex_quote_def)

lemma shlex_split_quoted: "39 \<notin> set w \<Longrightarrow> shlex_split ([39] @ w @ [39]) = Inr [w]"
  using shlex_quoted [of w no_punctuation "[]"]
  by (simp add: shlex_split_def shlex_tokens_def no_punctuation_def shlex_emit_def)

end
