(* ===== verification/PatchInvoke.thy ===== *)
theory PatchInvoke
  imports PatchVerify PyShlex
begin

text \<open>
  Recognising a call of \<open>apply_patch\<close>, the first part of \<open>pycodex/apply_patch/invocation.py\<close>: an
  argument vector is a direct call, a shell that runs a script with a here-document, or no call.
  Python's \<open>str.lower\<close> is a parameter.
\<close>

section \<open>Shells\<close>

definition APPLY_PATCH_COMMANDS :: "pystr list" where
  "APPLY_PATCH_COMMANDS = [lit ''apply_patch'', lit ''applypatch'']"

datatype maybe_apply_patch =
    MaybeBody apply_patch_args
  | MaybePatchParseError patch_exn
  | MaybeShellParseError pystr
  | MaybeNotApplyPatch

datatype shell_kind = UnixShell | PowerShell | CmdShell

text \<open>\<open>Path.stem\<close>: the name without its last suffix, where the dot is neither first nor last.\<close>

definition path_stem :: "pypath \<Rightarrow> pystr" where
  "path_stem p =
     (let name = path_name p; ext = takeWhile (\<lambda>c. c \<noteq> 46) (rev name);
          stem = take (length name - length ext - 1) name
      in if 46 \<in> set name \<and> ext \<noteq> [] \<and> stem \<noteq> [] then stem else name)"

definition classify_shell_name :: "(pystr \<Rightarrow> pystr) \<Rightarrow> pystr \<Rightarrow> pystr" where
  "classify_shell_name lower shell =
     lower (path_stem (path_of (map (\<lambda>c. if c = 92 then 47 else c) shell)))"

definition classify_shell :: "(pystr \<Rightarrow> pystr) \<Rightarrow> pystr \<Rightarrow> pystr \<Rightarrow> shell_kind option" where
  "classify_shell lower shell flag =
     (let name = classify_shell_name lower shell; flag_lc = lower flag in
      if name \<in> {lit ''bash'', lit ''zsh'', lit ''sh''} \<and> flag \<in> {lit ''-lc'', lit ''-c''} then Some UnixShell
      else if name \<in> {lit ''pwsh'', lit ''powershell''} \<and> flag_lc = lit ''-command'' then Some PowerShell
      else if name = lit ''cmd'' \<and> flag_lc = lit ''/c'' then Some CmdShell
      else None)"

definition can_skip_shell_flag :: "(pystr \<Rightarrow> pystr) \<Rightarrow> pystr \<Rightarrow> pystr \<Rightarrow> bool" where
  "can_skip_shell_flag lower shell flag \<longleftrightarrow>
     classify_shell_name lower shell \<in> {lit ''pwsh'', lit ''powershell''} \<and> lower flag = lit ''-noprofile''"

definition parse_shell_script :: "(pystr \<Rightarrow> pystr) \<Rightarrow> pystr list \<Rightarrow> (shell_kind \<times> pystr) option" where
  "parse_shell_script lower argv =
     (case argv of
        [shell, flag, script] \<Rightarrow> map_option (\<lambda>k. (k, script)) (classify_shell lower shell flag)
      | [shell, skipped, flag, script] \<Rightarrow>
          if can_skip_shell_flag lower shell skipped
          then map_option (\<lambda>k. (k, script)) (classify_shell lower shell flag) else None
      | _ \<Rightarrow> None)"

section \<open>Here-documents\<close>

definition parse_single_shell_word :: "pystr \<Rightarrow> pystr option" where
  "parse_single_shell_word s =
     (case shlex_split s of
        Inl _ \<Rightarrow> None
      | Inr words \<Rightarrow> if length words \<noteq> 1 \<or> hd words = [] then None else Some (hd words))"

definition NO_WORKDIR :: pystr where "NO_WORKDIR = lit ''__pycodex_no_workdir__''"

definition parse_apply_patch_heredoc_command :: "pystr \<Rightarrow> pystr option" where
  "parse_apply_patch_heredoc_command command_text =
     (case shlex_split command_text of
        Inl _ \<Rightarrow> None
      | Inr words \<Rightarrow>
          if words \<in> {[lit ''apply_patch''], [lit ''applypatch'']} then Some NO_WORKDIR
          else (case words of
            [cd, dir, conj', command] \<Rightarrow>
              if cd = lit ''cd'' \<and> conj' = lit ''&&'' \<and> command \<in> set APPLY_PATCH_COMMANDS
              then Some dir else None
          | _ \<Rightarrow> None))"

definition extract_apply_patch_from_shell :: "pystr \<Rightarrow> (pystr \<times> pystr option) option" where
  "extract_apply_patch_from_shell script =
     (let first_line = takeWhile (\<lambda>c. c \<noteq> 10) script; rest = drop (length first_line + 1) script in
      if 10 \<notin> set script then None
      else case str_find first_line (lit ''<<'') of
        None \<Rightarrow> None
      | Some redirect_index \<Rightarrow>
          if str_find first_line (lit ''<<<'') \<noteq> None then None
          else if str_find (drop (redirect_index + 2) first_line) (lit ''<<'') \<noteq> None then None
          else case parse_single_shell_word (strip (drop (redirect_index + 2) first_line)) of
            None \<Rightarrow> None
          | Some delimiter \<Rightarrow>
              (case parse_apply_patch_heredoc_command (strip (take redirect_index first_line)) of
                 None \<Rightarrow> None
               | Some command_parts \<Rightarrow>
                   let workdir = (if command_parts = NO_WORKDIR then None else Some command_parts);
                       lines = splitlines rest; body = takeWhile (\<lambda>l. l \<noteq> delimiter) lines
                   in if delimiter \<notin> set lines then None
                      else if list_ex (\<lambda>l. strip l \<noteq> []) (drop (length body + 1) lines) then None
                      else Some (join_with [10] body, workdir)))"

section \<open>Recognising and verifying\<close>

text \<open>The constructors of a patch error refuse a line number, with a \<open>ValueError\<close> nobody catches.\<close>

definition catch_parse_error ::
    "(patch_exn, 'a) result \<Rightarrow> (patch_exn \<Rightarrow> 'b) \<Rightarrow> ('a \<Rightarrow> 'b) \<Rightarrow> (py_exn, 'b) result" where
  "catch_parse_error r on_error on_value =
     (case r of
        Inr a \<Rightarrow> Inr (on_value a)
      | Inl (PatchValueError m) \<Rightarrow> Inl (ValueErr m)
      | Inl err \<Rightarrow> Inr (on_error err))"

definition maybe_parse_apply_patch ::
    "(pystr \<Rightarrow> pystr) \<Rightarrow> pystr list \<Rightarrow> (py_exn, maybe_apply_patch) result" where
  "maybe_parse_apply_patch lower argv =
     (if length argv = 2 \<and> hd argv \<in> set APPLY_PATCH_COMMANDS then
        catch_parse_error (parse_patch (argv ! 1)) MaybePatchParseError MaybeBody
      else case parse_shell_script lower argv of
        None \<Rightarrow> Inr MaybeNotApplyPatch
      | Some (_, script) \<Rightarrow>
          (case extract_apply_patch_from_shell script of
             None \<Rightarrow> Inr MaybeNotApplyPatch
           | Some (body, workdir) \<Rightarrow>
               catch_parse_error (parse_patch body) MaybePatchParseError
                 (\<lambda>source. MaybeBody (source\<lparr>patch_workdir := workdir\<rparr>))))"

definition is_patch :: "pystr \<Rightarrow> (py_exn, bool) result" where
  "is_patch script = catch_parse_error (parse_patch script) (\<lambda>_. False) (\<lambda>_. True)"

definition maybe_parse_apply_patch_verified ::
    "(pystr \<Rightarrow> pystr) \<Rightarrow> host \<Rightarrow> pystr list \<Rightarrow> pypath \<Rightarrow> (py_exn, maybe_verified) result" where
  "maybe_parse_apply_patch_verified lower h argv cwd =
     bindE (if length argv = 1 then is_patch (hd argv) else Inr False) (\<lambda>implicit.
     if implicit then Inr (CorrectnessError implicit_invocation)
     else bindE (case parse_shell_script lower argv of
                   None \<Rightarrow> Inr False | Some (_, script) \<Rightarrow> is_patch script) (\<lambda>implicit.
     if implicit then Inr (CorrectnessError implicit_invocation)
     else bindE (maybe_parse_apply_patch lower argv) (\<lambda>parsed.
     case parsed of
       MaybeBody body \<Rightarrow> verify_apply_patch_args h body cwd
     | MaybeShellParseError err \<Rightarrow> Inr (ShellParseError err)
     | MaybePatchParseError err \<Rightarrow> Inr (CorrectnessError (parse_error err))
     | MaybeNotApplyPatch \<Rightarrow> Inr NotApplyPatch)))"

section \<open>Parsing never raises a \<open>ValueError\<close>\<close>

fun value_error :: "(patch_exn, 'a) result \<Rightarrow> bool" where
  "value_error (Inl (PatchValueError m)) \<longleftrightarrow> True"
| "value_error r \<longleftrightarrow> False"

lemma value_error_bindE:
  "value_error (bindE r f) \<longleftrightarrow> value_error r \<or> (\<exists>x. r = Inr x \<and> value_error (f x))"
  by (cases r rule: value_error.cases) auto

lemma value_error_invalid:
  "\<not> value_error (Inl (invalid_patch m))" "0 < n \<Longrightarrow> \<not> value_error (Inl (invalid_hunk m n))"
  by (simp_all add: invalid_patch_def invalid_hunk_def)

lemma parse_chunk_lines_value_error: "0 < ln \<Longrightarrow> \<not> value_error (parse_chunk_lines ln olds news n ls)"
  by (induction ls arbitrary: olds news n) (simp_all add: value_error_invalid)

lemma parse_update_file_chunk_value_error: "0 < ln \<Longrightarrow> \<not> value_error (parse_update_file_chunk ls ln allow)"
  by (auto simp: parse_update_file_chunk_def value_error_bindE value_error_invalid
      parse_chunk_lines_value_error split: if_splits prod.splits)

lemma parse_chunks_value_error: "0 < ln \<Longrightarrow> \<not> value_error (parse_chunks ln parsed chunks ls)"
proof (induction ln parsed chunks ls rule: parse_chunks.induct)
  case (2 ln parsed chunks line rest)
  then show ?case
    by (auto simp: value_error_bindE parse_update_file_chunk_value_error split: prod.splits)
qed simp

lemma parse_one_hunk_value_error: "0 < ln \<Longrightarrow> \<not> value_error (parse_one_hunk ls ln)"
  by (auto simp: parse_one_hunk_def Let_def value_error_bindE value_error_invalid parse_chunks_value_error
      split: prod.splits)

lemma parse_hunks_value_error: "0 < ln \<Longrightarrow> \<not> value_error (parse_hunks ls ln)"
proof (induction ls ln rule: parse_hunks.induct)
  case (1 remaining ln)
  then show ?case
    by (subst parse_hunks.simps)
      (auto simp: value_error_bindE parse_one_hunk_value_error split: prod.splits)
qed

lemma parse_patch_value_error_lemma: "\<not> value_error (parse_patch patch)"
proof -
  have strict: "\<not> value_error (check_patch_boundaries_strict ls)" for ls
    by (auto simp: check_patch_boundaries_strict_def Let_def value_error_invalid)
  have "\<not> value_error (check_patch_boundaries_lenient ls)" for ls
    using strict [of ls] strict [of "butlast (tl ls)"]
    by (auto simp: check_patch_boundaries_lenient_def split: sum.splits)
  moreover have "\<not> value_error (parse_environment_id_preamble ls)" for ls
    by (auto simp: parse_environment_id_preamble_def Let_def value_error_invalid)
  moreover have "0 < ln" if "parse_environment_id_preamble ls = Inr (env, rest, ln)" for ls env rest ln
    using that by (auto simp: parse_environment_id_preamble_def Let_def split: if_splits)
  ultimately show ?thesis
    by (auto simp: parse_patch_def parse_patch_text_def PARSE_IN_STRICT_MODE_def Let_def
        value_error_bindE parse_hunks_value_error split: prod.splits)
qed

lemma catch_parse_error_patch:
  "catch_parse_error (parse_patch patch) on_error on_value =
     (case parse_patch patch of Inl err \<Rightarrow> Inr (on_error err) | Inr a \<Rightarrow> Inr (on_value a))"
  using parse_patch_value_error_lemma [of patch]
  by (cases "parse_patch patch" rule: value_error.cases) (auto simp: catch_parse_error_def)

section \<open>A here-document is a direct call\<close>

lemma str_find_absent: "n \<noteq> [] \<Longrightarrow> hd n \<notin> set s \<Longrightarrow> str_find s n = None"
  by (induction s) (auto simp: neq_Nil_conv)

text \<open>\<open>head <<'DELIM'\<close> on the first line, then the lines, then the delimiter.\<close>

definition heredoc_script :: "pystr \<Rightarrow> pystr \<Rightarrow> pystr list \<Rightarrow> pystr" where
  "heredoc_script head delim ls =
     head @ lit '' <<'' @ quoted delim @ [10] @ concat (map (\<lambda>l. l @ [10]) ls) @ delim @ [10]"

definition heredoc_lines :: "pystr \<Rightarrow> pystr list \<Rightarrow> bool" where
  "heredoc_lines delim ls \<longleftrightarrow> delim \<noteq> [] \<and> 39 \<notin> set delim \<and> 60 \<notin> set delim \<and> delim \<notin> set ls
     \<and> (\<forall>l \<in> set (delim # ls). \<forall>c \<in> set l. \<not> is_linebreak c)"

lemma splitlines_lines:
  "\<forall>l \<in> set ls. \<forall>c \<in> set l. \<not> is_linebreak c \<Longrightarrow>
     splitlines (concat (map (\<lambda>l. l @ [10]) ls) @ rest) = ls @ splitlines rest"
  by (induction ls) (simp_all add: splitlines_line)

lemma str_find_redirect:
  "60 \<notin> set head \<Longrightarrow> str_find (head @ [32, 60, 60] @ s) [60, 60 :: int] = Some (length head + 1)"
  by (induction head) auto

lemma str_find_triple:
  "60 \<notin> set head \<Longrightarrow> 60 \<notin> set s \<Longrightarrow> str_find (head @ [32, 60, 60] @ s) [60, 60, 60 :: int] = None"
proof (induction head)
  case Nil
  then show ?case by (cases s) (auto simp: str_find_absent starts_with_def)
qed auto

lemma drop_line: "drop (length l + 1) (l @ c # rest) = rest"
  by simp

lemma takeWhile_line: "10 \<notin> set l \<Longrightarrow> takeWhile (\<lambda>c. c \<noteq> 10) (l @ 10 # rest) = (l :: pystr)"
  by (induction l) auto

lemma extract_heredoc:
  assumes "heredoc_lines delim ls" "60 \<notin> set head" "10 \<notin> set head"
    and "parse_apply_patch_heredoc_command (strip (head @ [32])) = Some command_parts"
  shows "extract_apply_patch_from_shell (heredoc_script head delim ls) =
    Some (join_with [10] ls, if command_parts = NO_WORKDIR then None else Some command_parts)"
proof -
  let ?first = "head @ [32, 60, 60] @ quoted delim"
  have d: "delim \<noteq> []" "39 \<notin> set delim" "60 \<notin> set delim" "delim \<notin> set ls"
    "\<forall>c \<in> set delim. \<not> is_linebreak c" "\<forall>l \<in> set ls. \<forall>c \<in> set l. \<not> is_linebreak c"
    using assms(1) by (simp_all add: heredoc_lines_def)
  have nl: "10 \<notin> set delim" using d(5) linebreak_lf_cr(1) by blast
  have script: "heredoc_script head delim ls = ?first @ 10 # concat (map (\<lambda>l. l @ [10]) ls) @ delim @ [10]"
    by (simp add: heredoc_script_def)
  have first: "takeWhile (\<lambda>c. c \<noteq> 10) (heredoc_script head delim ls) = ?first"
    unfolding script by (rule takeWhile_line) (use assms(3) nl in \<open>simp add: quoted_def\<close>)
  have rest: "drop (length ?first + 1) (heredoc_script head delim ls) =
      concat (map (\<lambda>l. l @ [10]) ls) @ delim @ [10]"
    unfolding script by (rule drop_line)
  have lines: "splitlines (concat (map (\<lambda>l. l @ [10]) ls) @ delim @ [10]) = ls @ [delim]"
    using splitlines_lines [OF d(6)] splitlines_line [OF d(5), of "[]"] by simp
  have q60: "60 \<notin> set (quoted delim)" using d(3) by (simp add: quoted_def)
  have word: "parse_single_shell_word (strip (quoted delim)) = Some delim"
  proof -
    have "strip (quoted delim) = quoted delim"
      by (rule strip_id) (simp add: quoted_def is_space_def)
    then show ?thesis
      using shlex_split_quoted [OF d(2)] d(1) by (simp add: parse_single_shell_word_def quoted_def)
  qed
  have body: "takeWhile (\<lambda>l. l \<noteq> delim) (ls @ [delim]) = ls"
    using d(4) by (induction ls) auto
  have find: "str_find ?first [60, 60] = Some (length head + 1)"
    "str_find ?first [60, 60, 60] = None" "str_find (quoted delim) [60, 60] = None"
    using str_find_redirect [OF assms(2)] str_find_triple [OF assms(2) q60] str_find_absent [of "[60, 60]"] q60
    by simp_all
  have cut: "drop (length head + 1 + 2) ?first = quoted delim" "take (length head + 1) ?first = head @ [32]"
    by simp_all
  have lf: "10 \<in> set (heredoc_script head delim ls)" by (simp add: script)
  show ?thesis
    unfolding extract_apply_patch_from_shell_def Let_def first rest
    using lf find cut word assms(4) lines body by simp
qed

text \<open>The command before the redirection, with or without a change of directory.\<close>

fun heredoc_head :: "pystr option \<Rightarrow> pystr" where
  "heredoc_head None = lit ''apply_patch''"
| "heredoc_head (Some dir) = lit ''cd '' @ dir @ lit '' && apply_patch''"

definition plain_workdir :: "pystr \<Rightarrow> bool" where
  "plain_workdir dir \<longleftrightarrow> plain_word no_punctuation dir \<and> 60 \<notin> set dir \<and> dir \<noteq> NO_WORKDIR"

fun with_workdir :: "pystr option \<Rightarrow> maybe_apply_patch \<Rightarrow> maybe_apply_patch" where
  "with_workdir dir (MaybeBody source) = MaybeBody (source\<lparr>patch_workdir := dir\<rparr>)"
| "with_workdir dir m = m"

lemma plain_not_lf: "plain_word P w \<Longrightarrow> 10 \<notin> set w"
  by (auto simp: plain_word_def list_all_iff plain_char_def shlex_space_def)

lemma heredoc_head_words:
  "heredoc_head dir = join_with [32] (case dir of None \<Rightarrow> [lit ''apply_patch'']
     | Some d \<Rightarrow> [lit ''cd'', d, lit ''&&'', lit ''apply_patch''])"
  by (cases dir) simp_all

lemma heredoc_command:
  assumes "pred_option plain_workdir dir"
  shows "parse_apply_patch_heredoc_command (strip (heredoc_head dir @ [32])) =
    Some (case dir of None \<Rightarrow> NO_WORKDIR | Some d \<Rightarrow> d)"
proof -
  have "strip (heredoc_head dir @ [32]) = heredoc_head dir"
    by (cases dir) (simp_all add: strip_def lstrip_def rstrip_def is_space_def)
  moreover have "shlex_split (heredoc_head dir) = Inr (case dir of None \<Rightarrow> [lit ''apply_patch'']
      | Some d \<Rightarrow> [lit ''cd'', d, lit ''&&'', lit ''apply_patch''])"
    unfolding heredoc_head_words using assms
    by (intro shlex_split_words)
      (cases dir; simp add: plain_workdir_def; simp add: plain_word_def plain_char_def shlex_space_def shlex_quote_def no_punctuation_def)
  ultimately show ?thesis
    by (cases dir) (simp_all add: parse_apply_patch_heredoc_command_def APPLY_PATCH_COMMANDS_def)
qed

text \<open>
  A shell that runs a script of one here-document fed to \<open>apply_patch\<close>, in any quoting-free
  delimiter, is the direct call with the lines of the document as the patch; a leading
  \<open>cd dir &&\<close> only sets the working directory of the result.
\<close>

theorem heredoc_is_direct_call:
  assumes "heredoc_lines delim ls" "classify_shell lower shell flag \<noteq> None"
    and "pred_option plain_workdir dir"
  shows "maybe_parse_apply_patch lower [shell, flag, heredoc_script (heredoc_head dir) delim ls] =
    map_sum id (with_workdir dir)
      (maybe_parse_apply_patch lower [lit ''apply_patch'', join_with [10] ls])"
proof -
  have "60 \<notin> set (heredoc_head dir)" "10 \<notin> set (heredoc_head dir)"
    using assms(3) by (cases dir; auto simp: plain_workdir_def dest: plain_not_lf)+
  then have e: "extract_apply_patch_from_shell (heredoc_script (heredoc_head dir) delim ls) =
      Some (join_with [10] ls, dir)"
    using extract_heredoc [OF assms(1) _ _ heredoc_command [OF assms(3)]] assms(3)
    by (cases dir) (simp_all add: plain_workdir_def)
  show ?thesis
    using assms(2)
    by (auto simp: maybe_parse_apply_patch_def parse_shell_script_def e APPLY_PATCH_COMMANDS_def
        catch_parse_error_patch simp del: lit.simps split: sum.splits)
qed

lemma heredoc_is_direct_call_witness:
  "maybe_parse_apply_patch (\<lambda>s. s) [lit ''bash'', lit ''-lc'',
      heredoc_script (heredoc_head (Some (lit ''sub''))) (lit ''EOF'') [BEGIN_PATCH_MARKER, END_PATCH_MARKER]] =
    map_sum id (with_workdir (Some (lit ''sub''))) (maybe_parse_apply_patch (\<lambda>s. s)
      [lit ''apply_patch'', join_with [10] [BEGIN_PATCH_MARKER, END_PATCH_MARKER]])"
proof (rule heredoc_is_direct_call)
  show "heredoc_lines (lit ''EOF'') [BEGIN_PATCH_MARKER, END_PATCH_MARKER]"
    by (simp add: heredoc_lines_def BEGIN_PATCH_MARKER_def END_PATCH_MARKER_def is_linebreak_def)
  show "classify_shell (\<lambda>s. s) (lit ''bash'') (lit ''-lc'') \<noteq> None"
    by (simp add: classify_shell_def classify_shell_name_def path_of_def path_split_root_def starts_with_def
        path_stem_def path_name_def Let_def)
  show "pred_option plain_workdir (Some (lit ''sub''))"
    by (simp add: plain_workdir_def NO_WORKDIR_def plain_word_def plain_char_def shlex_space_def shlex_quote_def no_punctuation_def)
qed

text \<open>
  Parsing never ends in the \<open>ValueError\<close> of the error constructors, so the calls that catch
  \<open>ApplyPatchParseError\<close> catch every way parsing can fail: a malformed patch is always reported as
  a value, with a line number of at least one.
\<close>

theorem parse_errors_are_caught: "\<exists>m. maybe_parse_apply_patch lower argv = Inr m"
proof -
  have "\<exists>m. catch_parse_error (parse_patch p) on_error on_value = Inr m"
    for p and on_error :: "patch_exn \<Rightarrow> maybe_apply_patch" and on_value
    by (simp add: catch_parse_error_patch split: sum.split)
  then show ?thesis
    by (auto simp: maybe_parse_apply_patch_def split: option.split prod.split)
qed

end
