(* ===== verification/PatchRoundtrip.thy ===== *)
theory PatchRoundtrip
  imports PatchParser
begin

text \<open>
  A printer for the patch language and the proof that \<open>parse_patch\<close> inverts it. The printer is a
  specification device: it fixes one text per list of hunks (removed lines before added lines, an
  explicit \<open>@@\<close> header per chunk), so the round trip states that the parser loses nothing the
  language can express.
\<close>

section \<open>Printing hunks\<close>

definition render_chunk :: "update_chunk \<Rightarrow> pystr list" where
  "render_chunk c =
     (case change_context c of None \<Rightarrow> EMPTY_CHANGE_CONTEXT_MARKER
      | Some t \<Rightarrow> CHANGE_CONTEXT_MARKER @ t)
     # map ((#) 45) (old_lines c) @ map ((#) 43) (new_lines c)
     @ (if is_end_of_file c then [EOF_MARKER] else [])"

fun render_hunk :: "hunk \<Rightarrow> pystr list" where
  "render_hunk (AddFile p contents) =
     (ADD_FILE_MARKER @ path_str p) # map ((#) 43) (butlast (split_on 10 contents))"
| "render_hunk (DeleteFile p) = [DELETE_FILE_MARKER @ path_str p]"
| "render_hunk (UpdateFile p mv cs) =
     (UPDATE_FILE_MARKER @ path_str p)
     # (case mv of None \<Rightarrow> [] | Some m \<Rightarrow> [MOVE_TO_MARKER @ path_str m])
     @ concat (map render_chunk cs)"

definition render_lines :: "pystr option \<Rightarrow> hunk list \<Rightarrow> pystr list" where
  "render_lines env hs =
     BEGIN_PATCH_MARKER # (case env of None \<Rightarrow> [] | Some e \<Rightarrow> [ENVIRONMENT_ID_MARKER @ e])
     @ concat (map render_hunk hs) @ [END_PATCH_MARKER]"

definition render_patch :: "pystr option \<Rightarrow> hunk list \<Rightarrow> pystr" where
  "render_patch env hs = join_with [10] (render_lines env hs)"

text \<open>What can be printed: no line break inside a line, no space at the end of a path.\<close>

definition no_break :: "pystr \<Rightarrow> bool" where
  "no_break s \<longleftrightarrow> list_all (\<lambda>c. \<not> is_linebreak c) s"

definition printable_path :: "pypath \<Rightarrow> bool" where
  "printable_path p \<longleftrightarrow> wf_path p \<and> no_break (path_str p) \<and> \<not> is_space (last (path_str p))"

definition printable_chunk :: "update_chunk \<Rightarrow> bool" where
  "printable_chunk c \<longleftrightarrow> \<not> chunk_is_empty c \<and> list_all no_break (old_lines c)
     \<and> list_all no_break (new_lines c) \<and> pred_option no_break (change_context c)"

fun printable_hunk :: "hunk \<Rightarrow> bool" where
  "printable_hunk (AddFile p contents) \<longleftrightarrow> printable_path p
     \<and> (contents = [] \<or> last contents = 10) \<and> list_all no_break (split_on 10 contents)"
| "printable_hunk (DeleteFile p) \<longleftrightarrow> printable_path p"
| "printable_hunk (UpdateFile p mv cs) \<longleftrightarrow> printable_path p \<and> pred_option printable_path mv
     \<and> cs \<noteq> [] \<and> list_all printable_chunk cs"

definition printable_env :: "pystr \<Rightarrow> bool" where
  "printable_env e \<longleftrightarrow> e \<noteq> [] \<and> no_break e \<and> strip e = e"

section \<open>Chunks\<close>

text \<open>A line that ends the lines of a chunk, and one that ends the chunks of a hunk.\<close>

definition stop_line :: "pystr \<Rightarrow> bool" where
  "stop_line l \<longleftrightarrow> l \<noteq> EOF_MARKER \<and> l \<noteq> [] \<and> hd l \<notin> {32, 43, 45}"

definition header_line :: "pystr \<Rightarrow> bool" where
  "header_line l \<longleftrightarrow> starts_with l ADD_FILE_MARKER \<or> starts_with l DELETE_FILE_MARKER
     \<or> starts_with l UPDATE_FILE_MARKER"

lemma strip_nonempty: "s \<noteq> [] \<Longrightarrow> \<not> is_space (hd s) \<Longrightarrow> strip s \<noteq> []"
  by (cases s) (auto simp: strip_def lstrip_id rstrip_def dropWhile_eq_Nil_conv)

lemma not_space_marks [simp]: "\<not> is_space 42" "\<not> is_space 64" "\<not> is_space 43" "\<not> is_space 45"
  "\<not> is_space 104" "is_space 32" "is_space 10" "is_space 13"
  by (simp_all add: is_space_def)

lemma header_lineE:
  assumes "header_line l"
  obtains r where "l = ADD_FILE_MARKER @ r" | r where "l = DELETE_FILE_MARKER @ r"
    | r where "l = UPDATE_FILE_MARKER @ r"
  using assms by (auto simp: header_line_def starts_with_iff)

lemma header_line_stop:
  assumes "header_line l"
  shows "stop_line l" "starts_with l (lit ''*'')" "strip l \<noteq> []" "l \<noteq> []"
    "\<not> starts_with l MOVE_TO_MARKER" "\<not> starts_with l ENVIRONMENT_ID_MARKER" "lstrip l = l"
proof -
  have "l \<noteq> [] \<and> hd l = 42 \<and> \<not> starts_with l MOVE_TO_MARKER \<and> l \<noteq> EOF_MARKER
      \<and> \<not> starts_with l ENVIRONMENT_ID_MARKER"
    using assms by (rule header_lineE) (simp_all add: marker_defs)
  then show "stop_line l" "starts_with l (lit ''*'')" "strip l \<noteq> []" "l \<noteq> []"
    "\<not> starts_with l MOVE_TO_MARKER" "\<not> starts_with l ENVIRONMENT_ID_MARKER" "lstrip l = l"
    by (cases l; auto simp: stop_line_def strip_nonempty lstrip_id)+
qed

lemma parse_chunk_lines_old:
  "parse_chunk_lines ln olds news n (map ((#) 45) ls @ rest) =
     parse_chunk_lines ln (olds @ ls) news (n + length ls) rest"
  by (induction ls arbitrary: olds n) (simp_all add: EOF_MARKER_def)

lemma parse_chunk_lines_new:
  "parse_chunk_lines ln olds news n (map ((#) 43) ls @ rest) =
     parse_chunk_lines ln olds (news @ ls) (n + length ls) rest"
  by (induction ls arbitrary: news n) (simp_all add: EOF_MARKER_def)

lemma parse_chunk_lines_stop:
  "0 < n \<Longrightarrow> rest = [] \<or> stop_line (hd rest) \<Longrightarrow>
     parse_chunk_lines ln olds news n rest = Inr (olds, news, False, n)"
  by (cases rest) (auto simp: stop_line_def starts_with_iff)

lemma parse_render_chunk:
  assumes "printable_chunk c" and rest: "rest = [] \<or> stop_line (hd rest)"
  shows "parse_update_file_chunk (render_chunk c @ rest) ln allow = Inr (c, length (render_chunk c))"
proof -
  obtain body where body: "body = map ((#) 45) (old_lines c)
      @ map ((#) 43) (new_lines c) @ (if is_end_of_file c then [EOF_MARKER] else [])"
    by simp
  have n: "0 < length (old_lines c) + length (new_lines c)"
    using assms(1) by (auto simp: printable_chunk_def chunk_is_empty_def)
  have "parse_chunk_lines ln [] [] 0 (body @ rest) =
      Inr (old_lines c, new_lines c, is_end_of_file c, length body)"
    using n rest
    by (cases "is_end_of_file c")
      (simp_all add: body parse_chunk_lines_old parse_chunk_lines_new parse_chunk_lines_stop)
  moreover have "body \<noteq> []" using n by (auto simp: body)
  ultimately show ?thesis
    by (cases "change_context c")
      (simp_all add: render_chunk_def parse_update_file_chunk_def body [symmetric]
        EMPTY_CHANGE_CONTEXT_MARKER_def CHANGE_CONTEXT_MARKER_def remove_prefix_def)
qed

lemma render_chunk_hd: "\<exists>l ls. render_chunk c = l # ls \<and> stop_line l \<and> hd l = 64"
  by (auto simp: render_chunk_def stop_line_def marker_defs split: option.split)

lemma parse_render_chunks:
  assumes "list_all printable_chunk cs" and rest: "rest = [] \<or> header_line (hd rest)"
  shows "parse_chunks ln parsed chunks (concat (map render_chunk cs) @ rest) =
    Inr (chunks @ cs, parsed + length (concat (map render_chunk cs)))"
  using assms(1)
proof (induction cs arbitrary: parsed chunks)
  case Nil
  from rest show ?case
    by (cases rest) (auto dest: header_line_stop)
next
  case (Cons c cs)
  let ?more = "concat (map render_chunk cs) @ rest"
  obtain l ls where l: "render_chunk c = l # ls" "stop_line l" "hd l = 64"
    using render_chunk_hd by blast
  have ne: "strip l \<noteq> []" "\<not> starts_with l (lit ''*'')"
    using l(2,3) by (cases l; auto simp: strip_nonempty stop_line_def)+
  have stop: "?more = [] \<or> stop_line (hd ?more)"
    using rest render_chunk_hd [of "hd cs"]
    by (cases cs) (auto dest: header_line_stop)
  have "parse_update_file_chunk (l # ls @ ?more) (ln + int parsed) (chunks = []) =
      Inr (c, Suc (length ls))"
    using parse_render_chunk [OF _ stop, of c] Cons.prems by (simp add: l)
  with ne show ?case
    using Cons.IH [of "parsed + Suc (length ls)" "chunks @ [c]"] Cons.prems
    by (simp add: l add.assoc)
qed

section \<open>Hunks\<close>

lemma strip_marked: "m \<noteq> [] \<Longrightarrow> \<not> is_space (hd m) \<Longrightarrow> printable_path p \<Longrightarrow>
    strip (m @ path_str p) = m @ path_str p"
  by (intro strip_id) (auto simp: printable_path_def)

lemma path_of_printable: "printable_path p \<Longrightarrow> path_of (path_str p) = p"
  by (simp add: printable_path_def path_of_str)

lemma concat_lines:
  "s = [] \<or> last s = c \<Longrightarrow> concat (map (\<lambda>l. l @ [c]) (butlast (split_on c s))) = s"
proof (induction s)
  case (Cons a s)
  then show ?case
    by (cases "split_on c s") (auto split: if_splits)
qed simp

lemma parse_render_add:
  assumes "printable_hunk (AddFile p contents)" and rest: "rest = [] \<or> header_line (hd rest)"
  shows "parse_one_hunk (render_hunk (AddFile p contents) @ rest) ln =
    Inr (AddFile p contents, length (render_hunk (AddFile p contents)))"
proof -
  let ?ls = "butlast (split_on 10 contents)"
  let ?P = "\<lambda>l. starts_with l (lit ''+'')"
  have "takeWhile ?P (map ((#) 43) ?ls @ rest) = map ((#) 43) ?ls @ takeWhile ?P rest"
    by (rule takeWhile_append2) auto
  also have "takeWhile ?P rest = []"
    using rest by (cases rest) (auto elim: header_lineE simp: marker_defs)
  finally have "takeWhile ?P (map ((#) 43) ?ls @ rest) = map ((#) 43) ?ls"
    by simp
  moreover have "concat (map (\<lambda>l. l @ [10]) ?ls) = contents"
    using assms(1) by (intro concat_lines) auto
  moreover have "strip (ADD_FILE_MARKER @ path_str p) = ADD_FILE_MARKER @ path_str p"
    using assms(1) by (intro strip_marked) (simp_all add: ADD_FILE_MARKER_def)
  ultimately show ?thesis
    using assms(1) by (simp add: parse_one_hunk_def add_file_def path_of_printable comp_def)
qed

lemma parse_render_delete:
  assumes "printable_hunk (DeleteFile p)"
  shows "parse_one_hunk (render_hunk (DeleteFile p) @ rest) ln = Inr (DeleteFile p, 1)"
proof -
  have "strip (DELETE_FILE_MARKER @ path_str p) = DELETE_FILE_MARKER @ path_str p"
    using assms by (intro strip_marked) (simp_all add: DELETE_FILE_MARKER_def)
  moreover have "\<not> starts_with (DELETE_FILE_MARKER @ path_str p) ADD_FILE_MARKER"
    by (simp add: marker_defs)
  ultimately show ?thesis
    using assms by (simp add: parse_one_hunk_def delete_file_def path_of_printable)
qed

lemma parse_render_update:
  assumes "printable_hunk (UpdateFile p mv cs)" and rest: "rest = [] \<or> header_line (hd rest)"
  shows "parse_one_hunk (render_hunk (UpdateFile p mv cs) @ rest) ln =
    Inr (UpdateFile p mv cs, length (render_hunk (UpdateFile p mv cs)))"
proof -
  let ?body = "concat (map render_chunk cs) @ rest"
  have "strip (UPDATE_FILE_MARKER @ path_str p) = UPDATE_FILE_MARKER @ path_str p"
    using assms(1) by (intro strip_marked) (simp_all add: UPDATE_FILE_MARKER_def)
  moreover have "\<not> starts_with (UPDATE_FILE_MARKER @ path_str p) ADD_FILE_MARKER"
    "\<not> starts_with (UPDATE_FILE_MARKER @ path_str p) DELETE_FILE_MARKER"
    by (simp_all add: marker_defs)
  moreover have "\<not> starts_with (hd ?body) MOVE_TO_MARKER"
  proof -
    obtain c cs' where cs: "cs = c # cs'" using assms(1) by (cases cs) auto
    obtain l ls where "render_chunk c = l # ls" "hd l = 64" using render_chunk_hd by blast
    with cs show ?thesis by (cases l) (auto simp: MOVE_TO_MARKER_def)
  qed
  moreover have "parse_chunks ln k [] ?body = Inr (cs, k + length (concat (map render_chunk cs)))"
    for k
    using assms(1) parse_render_chunks [OF _ rest, of cs ln k "[]"] by simp
  moreover have "path_of (path_str p) = p" "cs \<noteq> []" "\<And>m. mv = Some m \<Longrightarrow> path_of (path_str m) = m"
    using assms(1) by (auto simp: path_of_printable)
  ultimately show ?thesis
    by (cases mv) (simp_all add: parse_one_hunk_def update_file_def Let_def)
qed

lemma parse_render_hunk:
  assumes "printable_hunk h" and "rest = [] \<or> header_line (hd rest)"
  shows "parse_one_hunk (render_hunk h @ rest) ln = Inr (h, length (render_hunk h))"
  using assms parse_render_add parse_render_delete parse_render_update by (cases h) auto

lemma render_hunk_hd: "\<exists>l ls. render_hunk h = l # ls \<and> header_line l"
  by (cases h) (auto simp: header_line_def)

lemma parse_render_hunks:
  "list_all printable_hunk hs \<Longrightarrow> parse_hunks (concat (map render_hunk hs)) ln = Inr hs"
proof (induction hs arbitrary: ln)
  case Nil
  show ?case by (simp add: parse_hunks.simps)
next
  case (Cons h hs)
  let ?rest = "concat (map render_hunk hs)"
  have rest: "?rest = [] \<or> header_line (hd ?rest)"
    using render_hunk_hd [of "hd hs"] by (cases hs) auto
  have "render_hunk h \<noteq> []" using render_hunk_hd [of h] by auto
  with Cons.IH [of "ln + int (length (render_hunk h))"] Cons.prems parse_render_hunk [OF _ rest]
  show ?case by (simp add: parse_hunks.simps [of "render_hunk h @ ?rest"])
qed

section \<open>The whole patch\<close>

lemma no_break_append [simp]: "no_break (s @ t) \<longleftrightarrow> no_break s \<and> no_break t"
  by (simp add: no_break_def)

lemma no_break_Cons [simp]: "no_break (c # s) \<longleftrightarrow> \<not> is_linebreak c \<and> no_break s"
  by (simp add: no_break_def)

lemma not_linebreak_marks [simp]: "\<not> is_linebreak 43" "\<not> is_linebreak 45"
  by (simp_all add: is_linebreak_def)

lemma no_break_markers [simp]: "no_break BEGIN_PATCH_MARKER" "no_break END_PATCH_MARKER"
  "no_break ENVIRONMENT_ID_MARKER" "no_break ADD_FILE_MARKER" "no_break DELETE_FILE_MARKER"
  "no_break UPDATE_FILE_MARKER" "no_break MOVE_TO_MARKER" "no_break EOF_MARKER"
  "no_break CHANGE_CONTEXT_MARKER" "no_break EMPTY_CHANGE_CONTEXT_MARKER"
  by (simp_all add: no_break_def marker_defs is_linebreak_def)

lemma no_break_render_chunk: "printable_chunk c \<Longrightarrow> list_all no_break (render_chunk c)"
  by (auto simp: render_chunk_def printable_chunk_def list_all_iff split: option.split)

lemma no_break_render_hunk: "printable_hunk h \<Longrightarrow> list_all no_break (render_hunk h)"
proof (cases h)
  case (AddFile p contents)
  moreover assume "printable_hunk h"
  ultimately show ?thesis
    by (auto simp: list_all_iff printable_path_def dest: in_set_butlastD)
next
  case (UpdateFile p mv cs)
  moreover assume "printable_hunk h"
  ultimately show ?thesis
    using no_break_render_chunk
    by (fastforce simp: list_all_iff printable_path_def split: option.split)
qed (auto simp: printable_path_def)

lemma no_break_render_lines:
  assumes "list_all printable_hunk hs" "pred_option printable_env env"
  shows "list_all no_break (render_lines env hs)"
proof -
  have "list_all no_break (concat (map render_hunk hs))"
    using assms(1) no_break_render_hunk by (induction hs) auto
  with assms(2) show ?thesis
    by (auto simp: render_lines_def printable_env_def split: option.split)
qed

lemma last_join_with:
  "xs \<noteq> [] \<Longrightarrow> last xs \<noteq> [] \<Longrightarrow> join_with sep xs \<noteq> [] \<and> last (join_with sep xs) = last (last xs)"
  by (induction sep xs rule: join_with.induct) auto

lemma join_with_hd: "x \<noteq> [] \<Longrightarrow> hd (join_with sep (x # xs)) = hd x"
  by (cases xs) auto

lemma join_with_ne: "x \<noteq> [] \<Longrightarrow> join_with sep (x # xs) \<noteq> []"
  by (cases xs) auto

lemma render_patch_lines:
  assumes "list_all printable_hunk hs" "pred_option printable_env env"
  shows "splitlines (strip (render_patch env hs)) = render_lines env hs"
proof -
  have ne: "render_lines env hs \<noteq> []" by (simp add: render_lines_def)
  have last: "last (render_lines env hs) = END_PATCH_MARKER"
    by (simp add: render_lines_def)
  have "hd (render_patch env hs) = 42" "render_patch env hs \<noteq> []"
    by (simp_all add: render_patch_def render_lines_def BEGIN_PATCH_MARKER_def join_with_hd join_with_ne)
  moreover have "last (render_patch env hs) = 104"
    using last_join_with [OF ne, of "[10]"] by (simp add: render_patch_def last END_PATCH_MARKER_def)
  ultimately have "strip (render_patch env hs) = render_patch env hs"
    by (intro strip_id) simp
  moreover have "splitlines (render_patch env hs) = render_lines env hs"
    using no_break_render_lines [OF assms] last
    unfolding render_patch_def
    by (intro splitlines_join) (auto simp: list_all_iff no_break_def END_PATCH_MARKER_def)
  ultimately show ?thesis by simp
qed

lemma strip_markers [simp]: "strip BEGIN_PATCH_MARKER = BEGIN_PATCH_MARKER"
  "strip END_PATCH_MARKER = END_PATCH_MARKER"
  by (intro strip_id; simp add: marker_defs)+

lemma boundaries_render:
  "check_patch_boundaries_lenient (render_lines env hs) =
     Inr (render_lines env hs, (case env of None \<Rightarrow> [] | Some e \<Rightarrow> [ENVIRONMENT_ID_MARKER @ e])
       @ concat (map render_hunk hs))"
  by (simp add: check_patch_boundaries_lenient_def check_patch_boundaries_strict_def
      render_lines_def butlast_append)

lemma preamble_render:
  assumes "pred_option printable_env env"
  shows "parse_environment_id_preamble
      ((case env of None \<Rightarrow> [] | Some e \<Rightarrow> [ENVIRONMENT_ID_MARKER @ e]) @ concat (map render_hunk hs))
    = Inr (env, concat (map render_hunk hs), if env = None then 2 else 3)"
proof (cases env)
  case None
  show ?thesis
  proof (cases hs)
    case Nil
    with None show ?thesis by (simp add: parse_environment_id_preamble_def)
  next
    case (Cons h hs')
    obtain l ls where l: "render_hunk h = l # ls" "header_line l" using render_hunk_hd by blast
    with None Cons header_line_stop [OF l(2)] show ?thesis by (simp add: parse_environment_id_preamble_def)
  qed
next
  case (Some e)
  have "lstrip (ENVIRONMENT_ID_MARKER @ e) = ENVIRONMENT_ID_MARKER @ e"
    by (intro lstrip_id) (simp add: ENVIRONMENT_ID_MARKER_def)
  with Some assms show ?thesis
    by (simp add: parse_environment_id_preamble_def printable_env_def)
qed

lemma parse_render_patch_lemma:
  assumes "list_all printable_hunk hs" "pred_option printable_env env"
  shows "parse_patch (render_patch env hs) =
    Inr \<lparr>patch_text = render_patch env hs, patch_hunks = hs, patch_workdir = None,
         patch_environment_id = env\<rparr>"
  unfolding parse_patch_def parse_patch_text_def PARSE_IN_STRICT_MODE_def Let_def
    render_patch_lines [OF assms]
  by (simp add: boundaries_render preamble_render [OF assms(2)] parse_render_hunks [OF assms(1)]
      render_patch_def)

text \<open>
  C2: Parsing inverts printing. For every list of hunks the patch language can express, with or without
  an environment id, parsing the printed patch gives back exactly those hunks, that environment id and
  the text itself.
\<close>

theorem parse_inverts_render:
  assumes "list_all printable_hunk hs" "pred_option printable_env env"
  shows "parse_patch (render_patch env hs) =
    Inr \<lparr>patch_text = render_patch env hs, patch_hunks = hs, patch_workdir = None,
         patch_environment_id = env\<rparr>"
  by (rule parse_render_patch_lemma [OF assms])

definition sample_hunks :: "hunk list" where
  "sample_hunks =
     [AddFile (PyPath [] [[97]]) [104, 105, 10], DeleteFile (PyPath [] [[98]]),
      UpdateFile (PyPath [] [[99]]) (Some (PyPath [] [[100]]))
        [\<lparr>change_context = Some [120], old_lines = [[121]], new_lines = [[122]], is_end_of_file = True\<rparr>]]"

lemma sample_hunks_printable: "list_all printable_hunk sample_hunks"
  by (simp add: sample_hunks_def printable_path_def printable_chunk_def wf_path_def path_component_def
      path_str_def no_break_def is_linebreak_def is_space_def chunk_is_empty_def)

lemma parse_inverts_render_witness:
  "parse_patch (render_patch None sample_hunks) =
    Inr \<lparr>patch_text = render_patch None sample_hunks, patch_hunks = sample_hunks, patch_workdir = None,
         patch_environment_id = None\<rparr>"
  using parse_inverts_render [of sample_hunks None] by (simp add: sample_hunks_printable)

end
