(* ===== verification/PatchCall.thy ===== *)
theory PatchCall
  imports PatchInvoke PatchRoundtrip
begin

text \<open>
  The whole of an \<open>apply_patch\<close> call: the argument vector is recognised, the patch parsed, each hunk
  checked against the workspace, the new contents computed and the action written to disk.
\<close>

definition edits_hunk :: "pypath \<Rightarrow> edit list \<Rightarrow> hunk" where
  "edits_hunk p es = UpdateFile p None (map edit_chunk es)"

definition edit_diff :: "host \<Rightarrow> pystr \<Rightarrow> pystr \<Rightarrow> pystr" where
  "edit_diff h old new =
     concat (drop 2 (host_difflib h (split_for_unified_diff old) (split_for_unified_diff new) 1))"

lemma verify_edits_hunk:
  assumes "inside_workspace h root (resolve_path (edits_hunk p es) cwd)"
    and "host_read_text h (resolve_path (edits_hunk p es) cwd) = ReadOk content"
    and "content_lines content = edits_before es tail" "edits_ok es tail"
  shows "verify_hunk h cwd root (edits_hunk p es) = Inr (Inr (resolve_path (edits_hunk p es) cwd,
    ChangeUpdate (edit_diff h content (file_text (edits_after es tail))) None
      (Some (file_text (edits_after es tail))) (Some content) None))"
proof -
  have "apply_patch_path_escape_error h (Some (resolve_path (edits_hunk p es) cwd)) root = None"
    "apply_patch_path_escape_error h None root = None"
    by (simp_all add: escape_error_None assms(1))
  moreover have "unified_diff_from_chunks h (resolve_path (edits_hunk p es) cwd) (map edit_chunk es) content =
      Inr (edit_diff h content (file_text (edits_after es tail)), file_text (edits_after es tail))"
    by (simp add: result_iff exact_edits_lemma [OF assms(3,4)] edit_diff_def)
  ultimately show ?thesis
    using assms(2) by (simp add: verify_hunk_def edits_hunk_def Let_def)
qed

definition edits_call :: "pystr option \<Rightarrow> pypath \<Rightarrow> edit list \<Rightarrow> pystr list" where
  "edits_call env p es = [lit ''apply_patch'', render_patch env [edits_hunk p es]]"

definition printable_edits :: "pystr option \<Rightarrow> pypath \<Rightarrow> edit list \<Rightarrow> bool" where
  "printable_edits env p es \<longleftrightarrow> pred_option printable_env env \<and> printable_hunk (edits_hunk p es)"

text \<open>The edits stand in the file \<open>path\<close> of the workspace, with \<open>tail\<close> after the last of them.\<close>

definition edits_apply ::
    "host \<Rightarrow> pypath \<Rightarrow> pystr option \<Rightarrow> pypath \<Rightarrow> pypath \<Rightarrow> edit list \<Rightarrow> pystr list \<Rightarrow> bool" where
  "edits_apply h cwd env p path es tail \<longleftrightarrow> printable_edits env p es \<and> edits_ok es tail
     \<and> path_is_absolute cwd \<and> path = resolve_path (edits_hunk p es) cwd
     \<and> (\<exists>root. workspace_root_for_cwd h cwd = Inr root \<and> inside_workspace h root path)
     \<and> (\<exists>content. host_read_text h path = ReadOk content \<and> content_lines content = edits_before es tail)"

lemma edits_verified:
  assumes "edits_apply h cwd env p path es tail"
  obtains body action where "parse_patch (render_patch env [edits_hunk p es]) = Inr body"
    "verify_apply_patch_args h body cwd = Inr (Body action)"
    "apply_patch_action_to_disk action d =
       (d(path \<mapsto> file_text (edits_after es tail)), Inr (apply_patch_summary [] [path] []))"
proof -
  let ?body = "\<lparr>patch_text = render_patch env [edits_hunk p es], patch_hunks = [edits_hunk p es],
    patch_workdir = None, patch_environment_id = env\<rparr>"
  from assms obtain root content where a: "workspace_root_for_cwd h cwd = Inr root"
    "inside_workspace h root path" "host_read_text h path = ReadOk content"
    "content_lines content = edits_before es tail" "edits_ok es tail" "path_is_absolute cwd"
    "path = resolve_path (edits_hunk p es) cwd" "printable_edits env p es"
    by (auto simp: edits_apply_def)
  let ?action = "\<lparr>action_changes = [(path, ChangeUpdate
      (edit_diff h content (file_text (edits_after es tail))) None
      (Some (file_text (edits_after es tail))) (Some content) None)],
    action_cwd = cwd, action_patch = render_patch env [edits_hunk p es]\<rparr>"
  have "parse_patch (render_patch env [edits_hunk p es]) = Inr ?body"
    using a(8) by (intro parse_render_patch_lemma) (simp_all add: printable_edits_def)
  moreover have "verify_apply_patch_args h ?body cwd = Inr (Body ?action)"
    using a verify_edits_hunk [of h root p es cwd content tail]
    by (simp add: verify_apply_patch_args_def)
  moreover have "apply_patch_action_to_disk ?action d =
      (d(path \<mapsto> file_text (edits_after es tail)), Inr (apply_patch_summary [] [path] []))"
    by (simp add: apply_patch_action_to_disk_def apply_change_def del: lit.simps)
  ultimately show ?thesis using that by blast
qed

text \<open>
  C1: An \<open>apply_patch\<close> call whose patch edits one file inside the workspace, each edit standing in the
  file as the patch quotes it, is accepted, and writing the resulting action gives the file exactly the
  edited lines, leaves every other file alone and reports the file as modified.
\<close>

theorem edit_call_edits_the_file:
  assumes "edits_apply h cwd env p path es tail"
  shows "\<exists>action. maybe_parse_apply_patch_verified lower h (edits_call env p es) cwd = Inr (Body action)
    \<and> apply_patch_action_to_disk action d =
        (d(path \<mapsto> file_text (edits_after es tail)), Inr (apply_patch_summary [] [path] []))"
proof -
  obtain body action where r: "parse_patch (render_patch env [edits_hunk p es]) = Inr body"
    "verify_apply_patch_args h body cwd = Inr (Body action)"
    "apply_patch_action_to_disk action d =
       (d(path \<mapsto> file_text (edits_after es tail)), Inr (apply_patch_summary [] [path] []))"
    by (rule edits_verified [OF assms])
  then have "maybe_parse_apply_patch_verified lower h (edits_call env p es) cwd = Inr (Body action)"
    by (simp add: edits_call_def maybe_parse_apply_patch_verified_def maybe_parse_apply_patch_def
        parse_shell_script_def APPLY_PATCH_COMMANDS_def catch_parse_error_def del: lit.simps)
  with r show ?thesis by blast
qed

lemma sample_edits:
  "edits_apply sample_host (PyPath [47] [[119]]) None (PyPath [] [[102]]) sample_path
     [([[97]], [[98]], [[120]])] [[99]]"
  by (simp add: edits_apply_def sample_root sample_facts printable_edits_def edits_hunk_def printable_path_def
      printable_chunk_def wf_path_def path_component_def path_str_def no_break_def is_linebreak_def
      is_space_def chunk_is_empty_def path_is_absolute_def resolve_path_def path_join_def
      sample_path_def [symmetric] content_lines_def)

lemma edit_call_edits_the_file_witness:
  "\<exists>action. maybe_parse_apply_patch_verified (\<lambda>s. s) sample_host
       (edits_call None (PyPath [] [[102]]) [([[97]], [[98]], [[120]])]) (PyPath [47] [[119]]) = Inr (Body action)
     \<and> apply_patch_action_to_disk action Map.empty =
        ([sample_path \<mapsto> [97, 10, 120, 10, 99, 10]], Inr (apply_patch_summary [] [sample_path] []))"
  using edit_call_edits_the_file [OF sample_edits] by (simp add: file_text_def)

section \<open>The standalone executable\<close>

text \<open>
  \<open>standalone_executable.py\<close>. An argument that is no string is \<open>None\<close>; exceptions of the verification
  are not caught, those of writing are.
\<close>

record standalone_result =
  sr_exit_code :: int
  sr_stdout :: pystr
  sr_stderr :: pystr

definition standalone_error :: "int \<Rightarrow> pystr \<Rightarrow> standalone_result" where
  "standalone_error code message = \<lparr>sr_exit_code = code, sr_stdout = [], sr_stderr = message\<rparr>"

definition invalid_patch_input :: standalone_result where
  "invalid_patch_input = standalone_error 1 (lit ''apply_patch handler received invalid patch input'' @ [10])"

fun py_exn_str :: "py_exn \<Rightarrow> pystr" where
  "py_exn_str (ValueErr m) = m"
| "py_exn_str (OSErr m) = m"
| "py_exn_str (UnicodeDecodeErr m) = m"
| "py_exn_str (PatchErr e) = error_message e"

definition standalone_patch_arg :: "pystr option list \<Rightarrow> pystr \<Rightarrow> standalone_result + pystr" where
  "standalone_patch_arg args stdin_text =
     (case args of
        [] \<Rightarrow> if stdin_text = [] then Inl (standalone_error 2 (lit ''Usage: apply_patch '' @ quoted (lit ''PATCH'')
               @ [10] @ lit ''       echo '' @ quoted (lit ''PATCH'') @ lit '' | apply_patch'' @ [10]))
             else Inr stdin_text
      | None # _ \<Rightarrow> Inl (standalone_error 1 (lit ''Error: apply_patch requires a UTF-8 PATCH argument.'' @ [10]))
      | Some patch # rest \<Rightarrow>
          if rest \<noteq> [] then Inl (standalone_error 2 (lit ''Error: apply_patch accepts exactly one argument.'' @ [10]))
          else Inr patch)"

definition standalone_run_main ::
    "(pystr \<Rightarrow> pystr) \<Rightarrow> host \<Rightarrow> pystr option list \<Rightarrow> pystr \<Rightarrow> pypath \<Rightarrow> disk
       \<Rightarrow> disk \<times> (py_exn, standalone_result) result" where
  "standalone_run_main lower h args stdin_text root d =
     (case standalone_patch_arg args stdin_text of
        Inl r \<Rightarrow> (d, Inr r)
      | Inr patch_arg \<Rightarrow>
     (case maybe_parse_apply_patch lower [hd APPLY_PATCH_COMMANDS, patch_arg] of
        Inl e \<Rightarrow> (d, Inl e)
      | Inr (MaybePatchParseError e) \<Rightarrow> (d, Inr (standalone_error 1 (patch_exn_str e @ [10])))
      | Inr (MaybeBody body) \<Rightarrow>
          (case verify_apply_patch_args h body root of
             Inl e \<Rightarrow> (d, Inl e)
           | Inr (Body action) \<Rightarrow>
               (case apply_patch_action_to_disk action d of
                  (d', Inr summary) \<Rightarrow> (d', Inr \<lparr>sr_exit_code = 0, sr_stdout = summary, sr_stderr = []\<rparr>)
                | (d', Inl e) \<Rightarrow> (d', Inr (standalone_error 1 (py_exn_str e @ [10]))))
           | Inr (ShellParseError e) \<Rightarrow> (d, Inr (standalone_error 1 (e @ [10])))
           | Inr (CorrectnessError e) \<Rightarrow> (d, Inr (standalone_error 1 (error_message e @ [10])))
           | Inr NotApplyPatch \<Rightarrow> (d, Inr invalid_patch_input))
      | Inr _ \<Rightarrow> (d, Inr invalid_patch_input)))"

text \<open>
  The standalone executable succeeds or leaves a trace of why not: exit code zero means that one
  patch was given, parsed and verified and its action written completely, the summary being printed;
  with any other code nothing is printed on standard output, and the disk is as before unless a
  verified action failed while it was being written.
\<close>

theorem standalone_exit_code:
  assumes "standalone_run_main lower h args stdin_text root d = (d', Inr r)"
  shows "(if sr_exit_code r = 0
      then \<exists>patch body action. standalone_patch_arg args stdin_text = Inr patch
        \<and> parse_patch patch = Inr body \<and> verify_apply_patch_args h body root = Inr (Body action)
        \<and> apply_patch_action_to_disk action d = (d', Inr (sr_stdout r)) \<and> sr_stderr r = []
      else sr_stdout r = [] \<and> sr_stderr r \<noteq> [] \<and> (d' = d \<or>
        (\<exists>action e. apply_patch_action_to_disk action d = (d', Inl e))))"
  using assms
  by (auto simp: standalone_run_main_def standalone_patch_arg_def standalone_error_def invalid_patch_input_def
      maybe_parse_apply_patch_def APPLY_PATCH_COMMANDS_def catch_parse_error_patch
      split: sum.splits maybe_apply_patch.splits maybe_verified.splits prod.splits list.splits option.splits
        if_splits)

lemma standalone_exit_code_witness:
  "\<exists>d' r. standalone_run_main (\<lambda>s. s) sample_host
       [Some (render_patch None [edits_hunk (PyPath [] [[102]]) [([[97]], [[98]], [[120]])]])] []
       (PyPath [47] [[119]]) Map.empty = (d', Inr r)
     \<and> (\<exists>action. apply_patch_action_to_disk action Map.empty = (d', Inr (sr_stdout r)))"
proof -
  obtain body action d' summary where
    "parse_patch (render_patch None [edits_hunk (PyPath [] [[102]]) [([[97]], [[98]], [[120]])]]) = Inr body"
    "verify_apply_patch_args sample_host body (PyPath [47] [[119]]) = Inr (Body action)"
    "apply_patch_action_to_disk action Map.empty = (d', Inr summary)"
    by (rule edits_verified [OF sample_edits])
  then have r: "standalone_run_main (\<lambda>s. s) sample_host
      [Some (render_patch None [edits_hunk (PyPath [] [[102]]) [([[97]], [[98]], [[120]])]])] []
      (PyPath [47] [[119]]) Map.empty = (d', Inr \<lparr>sr_exit_code = 0, sr_stdout = summary, sr_stderr = []\<rparr>)"
    by (simp add: standalone_run_main_def standalone_patch_arg_def maybe_parse_apply_patch_def
        APPLY_PATCH_COMMANDS_def catch_parse_error_def)
  show ?thesis using r standalone_exit_code [OF r] by auto
qed

end
