(* ===== verification/PatchStreaming.thy ===== *)
theory PatchStreaming
  imports PatchRoundtrip
begin

text \<open>
  \<open>StreamingPatchParser\<close> of \<open>pycodex/apply_patch/streaming_parser.py\<close>: a state machine fed one
  character at a time. A raised error ends the parse, so \<open>Inl\<close> carries no state. The second half
  proves that pieces can be cut anywhere, and that on every printed patch the machine reaches the
  same hunks as the batch parser.
\<close>

section \<open>State\<close>

datatype stream_mode = NotStarted | StartedPatch | AddFileMode | DeleteFileMode | UpdateFileMode
  | EndedPatch

record stream_parser =
  line_buffer :: pystr
  mode :: stream_mode
  line_number :: int
  hunks :: "hunk list"
  hunk_line_number :: "int option"

definition new_stream_parser :: stream_parser where
  "new_stream_parser =
     \<lparr>line_buffer = [], mode = NotStarted, line_number = 0, hunks = [], hunk_line_number = None\<rparr>"

fun is_update :: "hunk \<Rightarrow> bool" where
  "is_update (UpdateFile p m cs) = True"
| "is_update h = False"

definition last_is_update :: "stream_parser \<Rightarrow> bool" where
  "last_is_update st \<longleftrightarrow> hunks st \<noteq> [] \<and> is_update (last (hunks st))"

section \<open>Chunk helpers\<close>

definition append_streaming_context_line :: "update_chunk \<Rightarrow> pystr \<Rightarrow> update_chunk" where
  "append_streaming_context_line c line =
     c\<lparr>old_lines := old_lines c @ [line], new_lines := new_lines c @ [line]\<rparr>"

definition append_streaming_old_line :: "update_chunk \<Rightarrow> pystr \<Rightarrow> update_chunk" where
  "append_streaming_old_line c line = c\<lparr>old_lines := old_lines c @ [line]\<rparr>"

definition append_streaming_new_line :: "update_chunk \<Rightarrow> pystr \<Rightarrow> update_chunk" where
  "append_streaming_new_line c line = c\<lparr>new_lines := new_lines c @ [line]\<rparr>"

definition empty_chunk :: "pystr option \<Rightarrow> update_chunk" where
  "empty_chunk context =
     \<lparr>change_context = context, old_lines = [], new_lines = [], is_end_of_file = False\<rparr>"

definition ensure_streaming_chunk :: "update_chunk list \<Rightarrow> update_chunk list" where
  "ensure_streaming_chunk chunks = (if chunks = [] then [empty_chunk None] else chunks)"

definition map_last :: "('a \<Rightarrow> 'a) \<Rightarrow> 'a list \<Rightarrow> 'a list" where
  "map_last f xs = butlast xs @ [f (last xs)]"

text \<open>Only called when the last hunk is an update.\<close>

definition replace_last_update_hunk :: "stream_parser \<Rightarrow> update_chunk list \<Rightarrow> stream_parser" where
  "replace_last_update_hunk st chunks =
     st\<lparr>hunks := map_last (\<lambda>h. UpdateFile (hunk_path h) (hunk_move_path h) chunks) (hunks st)\<rparr>"

section \<open>Lines\<close>

definition ensure_update_hunk_is_not_empty ::
    "stream_parser \<Rightarrow> pystr \<Rightarrow> (patch_exn, unit) result" where
  "ensure_update_hunk_is_not_empty st line =
     (if \<not> last_is_update st then Inr ()
      else let h = last (hunks st) in
        if hunk_chunks h = [] \<and> mode st = UpdateFileMode \<and> hunk_line_number st \<noteq> None
        then Inl (invalid_hunk
          (lit ''Update file hunk for path '' @ quoted (path_str (hunk_path h)) @ lit '' is empty'')
          (the (hunk_line_number st)))
        else if hunk_chunks h \<noteq> [] \<and> chunk_is_empty (last (hunk_chunks h))
        then (if line = END_PATCH_MARKER
              then Inl (invalid_hunk (lit ''Update hunk does not contain any lines'') (line_number st))
              else Inl (invalid_hunk (unexpected_update_line_message line) (line_number st)))
        else Inr ())"

text \<open>\<open>Some st'\<close> when the line was a header or the end marker (Python's \<open>True\<close>).\<close>

definition handle_hunk_headers_and_end_patch ::
    "stream_parser \<Rightarrow> pystr \<Rightarrow> (patch_exn, stream_parser option) result" where
  "handle_hunk_headers_and_end_patch st marker_line =
     (if marker_line = END_PATCH_MARKER then
        bindE (ensure_update_hunk_is_not_empty st marker_line) (\<lambda>_. Inr (Some (st\<lparr>mode := EndedPatch\<rparr>)))
      else if starts_with marker_line ADD_FILE_MARKER then
        bindE (ensure_update_hunk_is_not_empty st marker_line) (\<lambda>_. Inr (Some
          (st\<lparr>hunks := hunks st @ [add_file (remove_prefix marker_line ADD_FILE_MARKER) []],
              mode := AddFileMode, hunk_line_number := None\<rparr>)))
      else if starts_with marker_line DELETE_FILE_MARKER then
        bindE (ensure_update_hunk_is_not_empty st marker_line) (\<lambda>_. Inr (Some
          (st\<lparr>hunks := hunks st @ [delete_file (remove_prefix marker_line DELETE_FILE_MARKER)],
              mode := DeleteFileMode, hunk_line_number := None\<rparr>)))
      else if starts_with marker_line UPDATE_FILE_MARKER then
        bindE (ensure_update_hunk_is_not_empty st marker_line) (\<lambda>_. Inr (Some
          (st\<lparr>hunks := hunks st @ [update_file (remove_prefix marker_line UPDATE_FILE_MARKER) None []],
              mode := UpdateFileMode, hunk_line_number := Some (line_number st)\<rparr>)))
      else Inr None)"

definition process_update_line :: "stream_parser \<Rightarrow> pystr \<Rightarrow> (patch_exn, stream_parser) result" where
  "process_update_line st line =
     (let update_line = rstrip line in
      bindE (handle_hunk_headers_and_end_patch st update_line) (\<lambda>handled.
      case handled of Some st' \<Rightarrow> Inr st' | None \<Rightarrow>
      if \<not> last_is_update st
      then Inl (invalid_hunk (unexpected_update_line_message line) (line_number st))
      else let h = last (hunks st); chunks = hunk_chunks h in
      if chunks = [] \<and> hunk_move_path h = None \<and> starts_with update_line MOVE_TO_MARKER
      then Inr (st\<lparr>hunks := butlast (hunks st) @
             [UpdateFile (hunk_path h) (Some (path_of (remove_prefix update_line MOVE_TO_MARKER))) chunks]\<rparr>)
      else if (update_line = EMPTY_CHANGE_CONTEXT_MARKER \<or> starts_with update_line CHANGE_CONTEXT_MARKER)
         \<and> chunks \<noteq> [] \<and> chunk_is_empty (last chunks)
      then Inl (invalid_hunk (unexpected_update_line_message line) (line_number st))
      else if update_line = EMPTY_CHANGE_CONTEXT_MARKER
      then Inr (replace_last_update_hunk st (chunks @ [empty_chunk None]))
      else if starts_with update_line CHANGE_CONTEXT_MARKER
      then Inr (replace_last_update_hunk st
             (chunks @ [empty_chunk (Some (remove_prefix update_line CHANGE_CONTEXT_MARKER))]))
      else if update_line = EOF_MARKER \<and> chunks \<noteq> [] \<and> chunk_is_empty (last chunks)
      then Inl (invalid_hunk (lit ''Update hunk does not contain any lines'') (line_number st))
      else if update_line = EOF_MARKER \<and> chunks \<noteq> []
      then Inr (replace_last_update_hunk st (map_last (\<lambda>c. c\<lparr>is_end_of_file := True\<rparr>) chunks))
      else if line = []
      then Inr (replace_last_update_hunk st
             (map_last (\<lambda>c. append_streaming_context_line c []) (ensure_streaming_chunk chunks)))
      else if starts_with line (lit '' '')
      then Inr (replace_last_update_hunk st
             (map_last (\<lambda>c. append_streaming_context_line c (tl line)) (ensure_streaming_chunk chunks)))
      else if starts_with line (lit ''+'')
      then Inr (replace_last_update_hunk st
             (map_last (\<lambda>c. append_streaming_new_line c (tl line)) (ensure_streaming_chunk chunks)))
      else if starts_with line (lit ''-'')
      then Inr (replace_last_update_hunk st
             (map_last (\<lambda>c. append_streaming_old_line c (tl line)) (ensure_streaming_chunk chunks)))
      else if chunks \<noteq> [] \<and> \<not> chunk_is_empty (last chunks)
      then Inl (invalid_hunk
             (lit ''Expected update hunk to start with a @@ context marker, got: '' @ quoted line)
             (line_number st))
      else Inl (invalid_hunk (unexpected_update_line_message line) (line_number st))))"

fun is_add :: "hunk \<Rightarrow> bool" where
  "is_add (AddFile p c) = True"
| "is_add h = False"

definition process_line :: "stream_parser \<Rightarrow> pystr \<Rightarrow> (patch_exn, stream_parser) result" where
  "process_line st line =
     (let trimmed = strip line;
          header_error = Inl (invalid_hunk (invalid_hunk_header_message trimmed) (line_number st))
      in case mode st of
        NotStarted \<Rightarrow>
          if trimmed = BEGIN_PATCH_MARKER then Inr (st\<lparr>mode := StartedPatch\<rparr>)
          else Inl (invalid_patch (lit ''The first line of the patch must be '' @ quoted BEGIN_PATCH_MARKER))
      | StartedPatch \<Rightarrow>
          if starts_with line ENVIRONMENT_ID_MARKER then Inr st
          else bindE (handle_hunk_headers_and_end_patch st trimmed) (\<lambda>handled.
            case handled of Some st' \<Rightarrow> Inr st' | None \<Rightarrow> header_error)
      | AddFileMode \<Rightarrow>
          bindE (handle_hunk_headers_and_end_patch st trimmed) (\<lambda>handled.
            case handled of Some st' \<Rightarrow> Inr st' | None \<Rightarrow>
            if starts_with line (lit ''+'') \<and> hunks st \<noteq> [] \<and> is_add (last (hunks st))
            then Inr (st\<lparr>hunks := map_last
                   (\<lambda>h. AddFile (hunk_path h) (hunk_contents h @ tl line @ [10])) (hunks st)\<rparr>)
            else header_error)
      | DeleteFileMode \<Rightarrow>
          bindE (handle_hunk_headers_and_end_patch st trimmed) (\<lambda>handled.
            case handled of Some st' \<Rightarrow> Inr st' | None \<Rightarrow> header_error)
      | UpdateFileMode \<Rightarrow> process_update_line st line
      | EndedPatch \<Rightarrow> Inr st)"

section \<open>Deltas and the end of the stream\<close>

definition push_char :: "stream_parser \<Rightarrow> int \<Rightarrow> (patch_exn, stream_parser) result" where
  "push_char st ch =
     (if ch = 10 then
        let line = line_buffer st;
            line = (if ends_with line [13] then butlast line else line)
        in process_line (st\<lparr>line_buffer := [], line_number := line_number st + 1\<rparr>) line
      else Inr (st\<lparr>line_buffer := line_buffer st @ [ch]\<rparr>))"

fun push_delta :: "stream_parser \<Rightarrow> pystr \<Rightarrow> (patch_exn, stream_parser) result" where
  "push_delta st [] = Inr st"
| "push_delta st (ch # delta) = bindE (push_char st ch) (\<lambda>st'. push_delta st' delta)"

definition finish :: "stream_parser \<Rightarrow> (patch_exn, stream_parser) result" where
  "finish st =
     bindE (if line_buffer st = [] then Inr st
            else let line = line_buffer st;
                     st = st\<lparr>line_buffer := [], line_number := line_number st + 1\<rparr>
                 in if strip line = END_PATCH_MARKER
                    then bindE (ensure_update_hunk_is_not_empty st (strip line))
                           (\<lambda>_. Inr (st\<lparr>mode := EndedPatch\<rparr>))
                    else process_line st line)
       (\<lambda>st. if mode st \<noteq> EndedPatch
             then Inl (invalid_patch (lit ''The last line of the patch must be '' @ quoted END_PATCH_MARKER))
             else Inr st)"

text \<open>A whole stream: the deltas in order, then \<open>finish\<close>; the hunks are the result.\<close>

fun push_deltas :: "stream_parser \<Rightarrow> pystr list \<Rightarrow> (patch_exn, stream_parser) result" where
  "push_deltas st [] = Inr st"
| "push_deltas st (d # ds) = bindE (push_delta st d) (\<lambda>st'. push_deltas st' ds)"

definition stream_patch :: "pystr list \<Rightarrow> (patch_exn, hunk list) result" where
  "stream_patch deltas =
     bindE (push_deltas new_stream_parser deltas) (\<lambda>st. bindE (finish st) (\<lambda>st. Inr (hunks st)))"

section \<open>Where the stream is cut does not matter\<close>

lemma push_delta_append:
  "push_delta st (d1 @ d2) = bindE (push_delta st d1) (\<lambda>st'. push_delta st' d2)"
proof (induction d1 arbitrary: st)
  case (Cons ch d1)
  then show ?case by (cases "push_char st ch") auto
qed simp

lemma push_deltas_concat: "push_deltas st ds = push_delta st (concat ds)"
proof (induction ds arbitrary: st)
  case (Cons d ds)
  then show ?case by (cases "push_delta st d") (auto simp: push_delta_append)
qed simp

text \<open>
  Where a delta ends makes no difference: feeding the parser a list of deltas one after the other,
  stopping at the first that fails, is feeding it their concatenation.
\<close>

theorem deltas_may_be_cut_anywhere: "push_deltas st ds = push_delta st (concat ds)"
  by (rule push_deltas_concat)

end
