(* ===== verification/PatchStreamAgree.thy ===== *)
theory PatchStreamAgree
  imports PatchStreaming
begin

text \<open>
  The streaming parser agrees with the batch parser on printed patches. A line at a time: the
  state after the lines of a chunk, of a hunk, of all hunks, and after \<open>finish\<close>.
\<close>

section \<open>From characters to lines\<close>

fun feed :: "stream_parser \<Rightarrow> pystr list \<Rightarrow> (patch_exn, stream_parser) result" where
  "feed st [] = Inr st"
| "feed st (l # ls) =
     bindE (process_line (st\<lparr>line_buffer := [], line_number := line_number st + 1\<rparr>) l)
       (\<lambda>st'. if line_buffer st' = [] then feed st' ls else Inl (PatchValueError []))"

lemma feed_append: "feed st (ls @ ms) = bindE (feed st ls) (\<lambda>st'. feed st' ms)"
proof (induction ls arbitrary: st)
  case (Cons l ls)
  then show ?case
    by (cases "process_line (st\<lparr>line_buffer := [], line_number := line_number st + 1\<rparr>) l") auto
qed simp

lemma push_delta_no_newline:
  "10 \<notin> set l \<Longrightarrow> push_delta st l = Inr (st\<lparr>line_buffer := line_buffer st @ l\<rparr>)"
  by (induction l arbitrary: st) (auto simp: push_char_def)

lemma no_break_ends: "no_break l \<Longrightarrow> \<not> ends_with l [13]" "no_break l \<Longrightarrow> 10 \<notin> set l"
  by (auto simp: no_break_def ends_with_iff list_all_iff)

lemma push_delta_line:
  assumes "no_break l" "line_buffer st = []"
  shows "push_delta st (l @ 10 # rest) =
    bindE (process_line (st\<lparr>line_buffer := [], line_number := line_number st + 1\<rparr>) l)
      (\<lambda>st'. push_delta st' rest)"
  using assms by (simp add: push_delta_append push_delta_no_newline no_break_ends push_char_def Let_def)

lemma push_delta_feed:
  "list_all no_break ls \<Longrightarrow> line_buffer st = [] \<Longrightarrow> feed st ls = Inr st' \<Longrightarrow>
     push_delta st (concat (map (\<lambda>l. l @ [10]) ls) @ rest) = push_delta st' rest"
proof (induction ls arbitrary: st)
  case (Cons l ls)
  then show ?case by (auto simp: push_delta_line result_iff split: if_splits)
qed simp

section \<open>Headers\<close>

definition ready :: "stream_parser \<Rightarrow> bool" where
  "ready st \<longleftrightarrow> last_is_update st \<longrightarrow>
     hunk_chunks (last (hunks st)) \<noteq> [] \<and> \<not> chunk_is_empty (last (hunk_chunks (last (hunks st))))"

definition active :: "stream_parser \<Rightarrow> bool" where
  "active st \<longleftrightarrow> line_buffer st = [] \<and> mode st \<in> {StartedPatch, AddFileMode, DeleteFileMode, UpdateFileMode}"

lemma ensure_ready: "ready st \<Longrightarrow> ensure_update_hunk_is_not_empty st l = Inr ()"
  by (auto simp: ensure_update_hunk_is_not_empty_def ready_def Let_def)

lemma process_header:
  assumes "active st" "strip l = l" "rstrip l = l" "\<not> starts_with l ENVIRONMENT_ID_MARKER"
    and "handle_hunk_headers_and_end_patch st l = Inr (Some st')"
  shows "process_line st l = Inr st'"
  using assms by (auto simp: active_def process_line_def process_update_line_def)

lemma ready_line [simp]: "ready (st\<lparr>line_buffer := b, line_number := n\<rparr>) = ready st"
  by (simp add: ready_def last_is_update_def)

lemma active_line [simp]: "active st \<Longrightarrow> active (st\<lparr>line_buffer := [], line_number := n\<rparr>)"
  by (simp add: active_def)

lemma marked_strip:
  assumes "m \<noteq> []" "\<not> is_space (hd m)" "printable_path p"
  shows "strip (m @ path_str p) = m @ path_str p" "rstrip (m @ path_str p) = m @ path_str p"
proof -
  show "strip (m @ path_str p) = m @ path_str p" using assms by (rule strip_marked)
  show "rstrip (m @ path_str p) = m @ path_str p"
    using assms by (intro rstrip_id) (auto simp: printable_path_def)
qed

definition shape :: "hunk list \<Rightarrow> stream_mode \<Rightarrow> int \<Rightarrow> int option \<Rightarrow> stream_parser" where
  "shape hs m n hl =
     \<lparr>line_buffer = [], mode = m, line_number = n, hunks = hs, hunk_line_number = hl\<rparr>"

lemma shape_simps [simp]:
  "line_buffer (shape hs m n hl) = []" "mode (shape hs m n hl) = m"
  "line_number (shape hs m n hl) = n" "hunks (shape hs m n hl) = hs"
  "hunk_line_number (shape hs m n hl) = hl"
  "(shape hs m n hl)\<lparr>line_buffer := [], line_number := k\<rparr> = shape hs m k hl"
  "(shape hs m n hl)\<lparr>mode := m'\<rparr> = shape hs m' n hl"
  "(shape hs m n hl)\<lparr>hunks := hs'\<rparr> = shape hs' m n hl"
  "(shape hs m n hl)\<lparr>hunk_line_number := hl'\<rparr> = shape hs m n hl'"
  by (simp_all add: shape_def)

lemma active_shape:
  assumes "active st"
  obtains m where "st = shape (hunks st) m (line_number st) (hunk_line_number st)" "mode st = m"
  using assms that by (cases st) (auto simp: shape_def active_def)

lemma feed_header:
  assumes st: "active st" "ready st" and p: "printable_path p"
  shows "feed st [ADD_FILE_MARKER @ path_str p] =
      Inr (shape (hunks st @ [AddFile p []]) AddFileMode (line_number st + 1) None)"
    and "feed st [DELETE_FILE_MARKER @ path_str p] =
      Inr (shape (hunks st @ [DeleteFile p]) DeleteFileMode (line_number st + 1) None)"
    and "feed st [UPDATE_FILE_MARKER @ path_str p] =
      Inr (shape (hunks st @ [UpdateFile p None []]) UpdateFileMode (line_number st + 1)
        (Some (line_number st + 1)))"
proof -
  let ?st = "st\<lparr>line_buffer := [], line_number := line_number st + 1\<rparr>"
  have e: "ensure_update_hunk_is_not_empty ?st l = Inr ()" for l
    using st by (simp add: ensure_ready)
  have a: "active ?st" using st by simp
  have "handle_hunk_headers_and_end_patch ?st (ADD_FILE_MARKER @ path_str p) =
      Inr (Some (shape (hunks st @ [AddFile p []]) AddFileMode (line_number st + 1) None))"
    using e p by (simp add: handle_hunk_headers_and_end_patch_def marker_defs shape_def
        add_file_def path_of_printable remove_prefix_def)
  from process_header [OF a _ _ _ this] marked_strip [of ADD_FILE_MARKER, OF _ _ p]
  show "feed st [ADD_FILE_MARKER @ path_str p] =
      Inr (shape (hunks st @ [AddFile p []]) AddFileMode (line_number st + 1) None)"
    by (simp add: marker_defs)
  have "handle_hunk_headers_and_end_patch ?st (DELETE_FILE_MARKER @ path_str p) =
      Inr (Some (shape (hunks st @ [DeleteFile p]) DeleteFileMode (line_number st + 1) None))"
    using e p by (simp add: handle_hunk_headers_and_end_patch_def marker_defs shape_def
        delete_file_def path_of_printable remove_prefix_def)
  from process_header [OF a _ _ _ this] marked_strip [of DELETE_FILE_MARKER, OF _ _ p]
  show "feed st [DELETE_FILE_MARKER @ path_str p] =
      Inr (shape (hunks st @ [DeleteFile p]) DeleteFileMode (line_number st + 1) None)"
    by (simp add: marker_defs)
  have "handle_hunk_headers_and_end_patch ?st (UPDATE_FILE_MARKER @ path_str p) =
      Inr (Some (shape (hunks st @ [UpdateFile p None []]) UpdateFileMode (line_number st + 1)
        (Some (line_number st + 1))))"
    using e p by (simp add: handle_hunk_headers_and_end_patch_def marker_defs shape_def
        update_file_def path_of_printable remove_prefix_def)
  from process_header [OF a _ _ _ this] marked_strip [of UPDATE_FILE_MARKER, OF _ _ p]
  show "feed st [UPDATE_FILE_MARKER @ path_str p] =
      Inr (shape (hunks st @ [UpdateFile p None []]) UpdateFileMode (line_number st + 1)
        (Some (line_number st + 1)))"
    by (simp add: marker_defs)
qed

section \<open>The lines of an update\<close>

lemma rstrip_hd: "\<not> is_space c \<Longrightarrow> \<exists>r. rstrip (c # s) = c # r"
  by (rule exI [of _ "rstrip s"]) (auto simp: rstrip_def dropWhile_append dropWhile_eq_Nil_conv)

lemma not_header:
  assumes "l = c # s" "c \<noteq> 42"
  shows "handle_hunk_headers_and_end_patch st l = Inr None"
  using assms by (simp add: handle_hunk_headers_and_end_patch_def marker_defs)

lemma map_last_snoc [simp]: "map_last f (xs @ [x]) = xs @ [f x]"
  by (simp add: map_last_def)

lemma last_is_update_shape [simp]: "last_is_update (shape (hs @ [UpdateFile p mv cs]) m n hl)"
  by (simp add: last_is_update_def)

lemma ensure_chunk_snoc [simp]: "ensure_streaming_chunk (cs @ [c]) = cs @ [c]"
  by (simp add: ensure_streaming_chunk_def)

lemma replace_last_shape [simp]:
  "replace_last_update_hunk (shape (hs @ [UpdateFile p mv cs]) m n hl) cs' =
     shape (hs @ [UpdateFile p mv cs']) m n hl"
  by (simp add: replace_last_update_hunk_def)

lemma process_minus:
  "process_update_line (shape (hs @ [UpdateFile p mv (cs @ [c])]) UpdateFileMode n hl) (45 # l) =
     Inr (shape (hs @ [UpdateFile p mv (cs @ [append_streaming_old_line c l])]) UpdateFileMode n hl)"
proof -
  obtain r where "rstrip (45 # l) = 45 # r" using rstrip_hd [of 45 l] by auto
  then show ?thesis
    by (simp add: process_update_line_def not_header) (simp add: marker_defs)
qed

lemma process_plus:
  "process_update_line (shape (hs @ [UpdateFile p mv (cs @ [c])]) UpdateFileMode n hl) (43 # l) =
     Inr (shape (hs @ [UpdateFile p mv (cs @ [append_streaming_new_line c l])]) UpdateFileMode n hl)"
proof -
  obtain r where "rstrip (43 # l) = 43 # r" using rstrip_hd [of 43 l] by auto
  then show ?thesis
    by (simp add: process_update_line_def not_header) (simp add: marker_defs)
qed

lemma feed_old:
  "feed (shape (hs @ [UpdateFile p mv (cs @ [c])]) UpdateFileMode n hl) (map ((#) 45) ls) =
     Inr (shape (hs @ [UpdateFile p mv (cs @ [c\<lparr>old_lines := old_lines c @ ls\<rparr>])])
       UpdateFileMode (n + int (length ls)) hl)"
  by (induction ls arbitrary: c n)
    (simp_all add: process_line_def process_minus append_streaming_old_line_def add.assoc)

lemma feed_new:
  "feed (shape (hs @ [UpdateFile p mv (cs @ [c])]) UpdateFileMode n hl) (map ((#) 43) ls) =
     Inr (shape (hs @ [UpdateFile p mv (cs @ [c\<lparr>new_lines := new_lines c @ ls\<rparr>])])
       UpdateFileMode (n + int (length ls)) hl)"
  by (induction ls arbitrary: c n)
    (simp_all add: process_line_def process_plus append_streaming_new_line_def add.assoc)

lemma feed_eof:
  assumes "\<not> chunk_is_empty c"
  shows "feed (shape (hs @ [UpdateFile p mv (cs @ [c])]) UpdateFileMode n hl) [EOF_MARKER] =
    Inr (shape (hs @ [UpdateFile p mv (cs @ [c\<lparr>is_end_of_file := True\<rparr>])]) UpdateFileMode (n + 1) hl)"
proof -
  have "rstrip EOF_MARKER = EOF_MARKER" by (intro rstrip_id) (simp add: marker_defs is_space_def)
  moreover have "handle_hunk_headers_and_end_patch st EOF_MARKER = Inr None" for st
    by (simp add: handle_hunk_headers_and_end_patch_def marker_defs)
  moreover have "\<not> starts_with EOF_MARKER MOVE_TO_MARKER" "EOF_MARKER \<noteq> EMPTY_CHANGE_CONTEXT_MARKER"
    "\<not> starts_with EOF_MARKER CHANGE_CONTEXT_MARKER"
    by (simp_all add: marker_defs)
  ultimately show ?thesis
    using assms by (simp add: process_line_def process_update_line_def)
qed

text \<open>A context line that stripping leaves alone.\<close>

definition streamable_chunk :: "update_chunk \<Rightarrow> bool" where
  "streamable_chunk c \<longleftrightarrow> printable_chunk c
     \<and> pred_option (\<lambda>t. t \<noteq> [] \<and> \<not> is_space (last t)) (change_context c)"

lemma feed_context:
  assumes ctx: "pred_option (\<lambda>t. t \<noteq> [] \<and> \<not> is_space (last t)) cx"
    and cs: "cs = [] \<or> \<not> chunk_is_empty (last cs)"
  shows "feed (shape (hs @ [UpdateFile p mv cs]) UpdateFileMode n hl)
      [case cx of None \<Rightarrow> EMPTY_CHANGE_CONTEXT_MARKER | Some t \<Rightarrow> CHANGE_CONTEXT_MARKER @ t] =
    Inr (shape (hs @ [UpdateFile p mv (cs @ [empty_chunk cx])]) UpdateFileMode (n + 1) hl)"
proof -
  let ?l = "case cx of None \<Rightarrow> EMPTY_CHANGE_CONTEXT_MARKER | Some t \<Rightarrow> CHANGE_CONTEXT_MARKER @ t"
  obtain s where s: "?l = 64 # s"
    by (cases cx) (simp_all add: marker_defs)
  have l: "rstrip ?l = ?l" "\<And>st. handle_hunk_headers_and_end_patch st ?l = Inr None"
    "\<not> starts_with ?l MOVE_TO_MARKER"
  proof -
    have "?l = [] \<or> \<not> is_space (last ?l)"
      using ctx by (cases cx) (simp_all add: marker_defs)
    then show "rstrip ?l = ?l" by (rule rstrip_id)
    show "handle_hunk_headers_and_end_patch st ?l = Inr None" for st
      using s by (rule not_header) simp
    show "\<not> starts_with ?l MOVE_TO_MARKER" by (simp add: s MOVE_TO_MARKER_def)
  qed
  show ?thesis
  proof (cases cx)
    case None
    with l cs show ?thesis by (simp add: process_line_def process_update_line_def Let_def)
  next
    case (Some t)
    with ctx have "CHANGE_CONTEXT_MARKER @ t \<noteq> EMPTY_CHANGE_CONTEXT_MARKER"
      by (simp add: marker_defs)
    with Some l cs show ?thesis by (simp add: process_line_def process_update_line_def Let_def)
  qed
qed

lemma feed_chunk:
  assumes c: "streamable_chunk c" and cs: "cs = [] \<or> \<not> chunk_is_empty (last cs)"
  shows "feed (shape (hs @ [UpdateFile p mv cs]) UpdateFileMode n hl) (render_chunk c) =
    Inr (shape (hs @ [UpdateFile p mv (cs @ [c])]) UpdateFileMode (n + int (length (render_chunk c))) hl)"
proof -
  let ?full = "(empty_chunk (change_context c))\<lparr>old_lines := old_lines c, new_lines := new_lines c\<rparr>"
  have full: "c = (if is_end_of_file c then ?full\<lparr>is_end_of_file := True\<rparr> else ?full)"
    by (cases c) (auto simp: empty_chunk_def)
  have "pred_option (\<lambda>t. t \<noteq> [] \<and> \<not> is_space (last t)) (change_context c)" "\<not> chunk_is_empty ?full"
    using c by (simp_all add: streamable_chunk_def printable_chunk_def chunk_is_empty_def)
  note steps = feed_context [OF this(1) cs] feed_eof [OF this(2)]
  let ?head = "[case change_context c of None \<Rightarrow> EMPTY_CHANGE_CONTEXT_MARKER
      | Some t \<Rightarrow> CHANGE_CONTEXT_MARKER @ t] @ map ((#) 45) (old_lines c) @ map ((#) 43) (new_lines c)"
  let ?eof = "if is_end_of_file c then [EOF_MARKER] else []"
  have head: "feed (shape (hs @ [UpdateFile p mv cs]) UpdateFileMode n hl) ?head =
      Inr (shape (hs @ [UpdateFile p mv (cs @ [?full])]) UpdateFileMode (n + int (length ?head)) hl)"
    by (simp only: feed_append steps(1) bindE_Inr feed_old feed_new)
      (simp add: empty_chunk_def add.assoc)
  have "render_chunk c = ?head @ ?eof" by (simp add: render_chunk_def)
  then have "feed (shape (hs @ [UpdateFile p mv cs]) UpdateFileMode n hl) (render_chunk c) =
      feed (shape (hs @ [UpdateFile p mv (cs @ [?full])]) UpdateFileMode (n + int (length ?head)) hl) ?eof"
    by (simp only: feed_append [of _ ?head] head bindE_Inr)
  also have "\<dots> = Inr (shape (hs @ [UpdateFile p mv (cs @ [c])]) UpdateFileMode
      (n + int (length (?head @ ?eof))) hl)"
  proof (cases "is_end_of_file c")
    case True
    then have "?full\<lparr>is_end_of_file := True\<rparr> = c" using full by simp
    then show ?thesis by (simp only: True if_True steps(2)) simp
  next
    case False
    then have "?full = c" using full by simp
    then show ?thesis by (simp only: False if_False feed.simps) simp
  qed
  finally show ?thesis using \<open>render_chunk c = ?head @ ?eof\<close> by (simp only:)
qed

lemma feed_chunks:
  "list_all streamable_chunk cs' \<Longrightarrow> cs = [] \<or> \<not> chunk_is_empty (last cs) \<Longrightarrow>
   feed (shape (hs @ [UpdateFile p mv cs]) UpdateFileMode n hl) (concat (map render_chunk cs')) =
     Inr (shape (hs @ [UpdateFile p mv (cs @ cs')]) UpdateFileMode
       (n + int (length (concat (map render_chunk cs')))) hl)"
proof (induction cs' arbitrary: cs n)
  case (Cons c cs')
  then have "\<not> chunk_is_empty c" by (simp add: streamable_chunk_def printable_chunk_def)
  with Cons show ?case by (simp add: feed_append feed_chunk add.assoc)
qed simp

section \<open>Hunks\<close>

fun streamable_hunk :: "hunk \<Rightarrow> bool" where
  "streamable_hunk (UpdateFile p mv cs) \<longleftrightarrow>
     printable_hunk (UpdateFile p mv cs) \<and> list_all streamable_chunk cs"
| "streamable_hunk h = printable_hunk h"

lemma streamable_printable: "streamable_hunk h \<Longrightarrow> printable_hunk h"
  by (cases h) auto

definition stands_for :: "stream_parser \<Rightarrow> hunk list \<Rightarrow> bool" where
  "stands_for st hs \<longleftrightarrow> active st \<and> ready st \<and> hunks st = hs"

lemma stands_for_shape:
  "m \<in> {AddFileMode, DeleteFileMode} \<Longrightarrow> \<not> is_update h \<Longrightarrow> stands_for (shape (hs @ [h]) m n hl) (hs @ [h])"
  "cs \<noteq> [] \<Longrightarrow> \<not> chunk_is_empty (last cs) \<Longrightarrow>
     stands_for (shape (hs @ [UpdateFile p mv cs]) UpdateFileMode n hl) (hs @ [UpdateFile p mv cs])"
  by (auto simp: stands_for_def active_def ready_def last_is_update_def)

lemma feed_added:
  "feed (shape (hs @ [AddFile p c]) AddFileMode n hl) (map ((#) 43) ls) =
     Inr (shape (hs @ [AddFile p (c @ concat (map (\<lambda>l. l @ [10]) ls))]) AddFileMode
       (n + int (length ls)) hl)"
proof (induction ls arbitrary: c n)
  case (Cons l ls)
  obtain r where r: "rstrip (43 # l) = 43 # r" using rstrip_hd [of 43 l] by auto
  have "handle_hunk_headers_and_end_patch st (strip (43 # l)) = Inr None" for st
    by (simp add: strip_def lstrip_def r not_header)
  then show ?case using Cons.IH by (simp add: process_line_def add.assoc)
qed simp

lemma feed_move:
  assumes "printable_path m"
  shows "feed (shape (hs @ [UpdateFile p None []]) UpdateFileMode n hl) [MOVE_TO_MARKER @ path_str m] =
    Inr (shape (hs @ [UpdateFile p (Some m) []]) UpdateFileMode (n + 1) hl)"
proof -
  have "rstrip (MOVE_TO_MARKER @ path_str m) = MOVE_TO_MARKER @ path_str m"
    using assms by (intro rstrip_id) (simp add: printable_path_def)
  moreover have "handle_hunk_headers_and_end_patch st (MOVE_TO_MARKER @ path_str m) = Inr None" for st
    by (simp add: handle_hunk_headers_and_end_patch_def marker_defs)
  ultimately show ?thesis
    using assms by (simp add: process_line_def process_update_line_def path_of_printable Let_def)
qed

lemma feed_update:
  assumes h: "streamable_hunk (UpdateFile p mv cs)" and st: "active st" "ready st"
  shows "\<exists>n hl. feed st (render_hunk (UpdateFile p mv cs)) =
    Inr (shape (hunks st @ [UpdateFile p mv cs]) UpdateFileMode n hl)"
proof -
  let ?move = "case mv of None \<Rightarrow> [] | Some m \<Rightarrow> [MOVE_TO_MARKER @ path_str m]"
  have render: "render_hunk (UpdateFile p mv cs) =
      [UPDATE_FILE_MARKER @ path_str p] @ ?move @ concat (map render_chunk cs)" by simp
  have p: "printable_path p" using h by simp
  have move: "\<exists>n'. feed (shape (hunks st @ [UpdateFile p None []]) UpdateFileMode n hl) ?move =
      Inr (shape (hunks st @ [UpdateFile p mv []]) UpdateFileMode n' hl)" for n hl
    using h feed_move by (cases mv) auto
  obtain n' where n': "feed (shape (hunks st @ [UpdateFile p None []]) UpdateFileMode
      (line_number st + 1) (Some (line_number st + 1))) ?move =
      Inr (shape (hunks st @ [UpdateFile p mv []]) UpdateFileMode n' (Some (line_number st + 1)))"
    using move by blast
  have cs: "list_all streamable_chunk cs" using h by simp
  show ?thesis
    by (simp only: render feed_append feed_header(3) [OF st p] bindE_Inr n'
        feed_chunks [OF cs, of "[]", simplified]) blast
qed

lemma feed_hunk:
  assumes "streamable_hunk h" and st: "stands_for st hs"
  shows "\<exists>st'. feed st (render_hunk h) = Inr st' \<and> stands_for st' (hs @ [h])"
proof (cases h)
  case (AddFile p contents)
  have c: "concat (map (\<lambda>l. l @ [10]) (butlast (split_on 10 contents))) = contents"
    using assms AddFile by (intro concat_lines) auto
  have r: "render_hunk h = [ADD_FILE_MARKER @ path_str p] @ map ((#) 43) (butlast (split_on 10 contents))"
    by (simp add: AddFile)
  have "active st" "ready st" "printable_path p" "hunks st = hs"
    using assms AddFile by (simp_all add: stands_for_def)
  then show ?thesis
    by (simp only: r feed_append feed_header(1) bindE_Inr feed_added append_Nil c)
      (auto simp: AddFile intro!: stands_for_shape)
next
  case (DeleteFile p)
  have "active st" "ready st" "printable_path p" "hunks st = hs"
    using assms DeleteFile by (simp_all add: stands_for_def)
  then show ?thesis
    by (simp only: DeleteFile render_hunk.simps feed_header(2)) (auto intro!: stands_for_shape)
next
  case (UpdateFile p mv cs)
  have st': "active st" "ready st" "hunks st = hs" using st by (simp_all add: stands_for_def)
  have "cs \<noteq> []" "\<not> chunk_is_empty (last cs)"
    using assms(1) UpdateFile by (auto simp: printable_chunk_def list_all_iff)
  with feed_update [of p mv cs st] assms(1) st' UpdateFile show ?thesis
    by (metis stands_for_shape(2))
qed

lemma feed_hunks:
  "list_all streamable_hunk hs' \<Longrightarrow> stands_for st hs \<Longrightarrow>
     \<exists>st'. feed st (concat (map render_hunk hs')) = Inr st' \<and> stands_for st' (hs @ hs')"
proof (induction hs' arbitrary: st hs)
  case (Cons h hs')
  from feed_hunk [of h st hs] Cons.prems obtain st1 where
    1: "feed st (render_hunk h) = Inr st1" "stands_for st1 (hs @ [h])" by auto
  with Cons.IH [of st1 "hs @ [h]"] Cons.prems show ?case by (simp add: feed_append)
qed simp

section \<open>The whole stream\<close>

lemma join_lines: "join_with [c] (ls @ [l]) = concat (map (\<lambda>l. l @ [c]) ls) @ l"
  by (induction ls) (simp_all add: join_with_Cons)

lemma finish_end:
  assumes "stands_for st hs"
  shows "\<exists>st'. finish (st\<lparr>line_buffer := END_PATCH_MARKER\<rparr>) = Inr st' \<and> hunks st' = hs"
proof -
  let ?st = "st\<lparr>line_buffer := [], line_number := line_number st + 1\<rparr>"
  have "ensure_update_hunk_is_not_empty ?st END_PATCH_MARKER = Inr ()" "hunks st = hs"
    using assms by (simp_all add: stands_for_def ensure_ready)
  moreover have "END_PATCH_MARKER \<noteq> []" by (simp add: END_PATCH_MARKER_def)
  ultimately show ?thesis by (simp add: finish_def)
qed

lemma feed_start:
  assumes "pred_option printable_env env"
  shows "\<exists>st. feed new_stream_parser (BEGIN_PATCH_MARKER #
      (case env of None \<Rightarrow> [] | Some e \<Rightarrow> [ENVIRONMENT_ID_MARKER @ e])) = Inr st \<and> stands_for st []"
proof -
  have init: "new_stream_parser = shape [] NotStarted 0 None"
    by (simp add: new_stream_parser_def shape_def)
  have ok: "stands_for (shape [] StartedPatch n hl) []" for n hl
    by (simp add: stands_for_def active_def ready_def last_is_update_def)
  then show ?thesis
    by (cases env) (auto simp: init process_line_def)
qed

lemma stream_render_lemma:
  assumes hs: "list_all streamable_hunk hs" and env: "pred_option printable_env env"
    and ds: "concat deltas = render_patch env hs"
  shows "stream_patch deltas = Inr hs"
proof -
  let ?pre = "BEGIN_PATCH_MARKER # (case env of None \<Rightarrow> [] | Some e \<Rightarrow> [ENVIRONMENT_ID_MARKER @ e])"
  let ?ls = "?pre @ concat (map render_hunk hs)"
  have lines: "render_lines env hs = ?ls @ [END_PATCH_MARKER]" by (simp add: render_lines_def)
  obtain st0 where st0: "feed new_stream_parser ?pre = Inr st0" "stands_for st0 []"
    using feed_start [OF env] by blast
  obtain st where st: "feed st0 (concat (map render_hunk hs)) = Inr st" "stands_for st hs"
    using feed_hunks [OF hs st0(2)] by auto
  have fed: "feed new_stream_parser ?ls = Inr st"
    by (simp only: feed_append st0 bindE_Inr st)
  have "list_all printable_hunk hs" using hs by (auto simp: list_all_iff streamable_printable)
  from no_break_render_lines [OF this env] have nb: "list_all no_break ?ls"
    by (simp add: lines)
  have "render_patch env hs = concat (map (\<lambda>l. l @ [10]) ?ls) @ END_PATCH_MARKER"
    unfolding render_patch_def lines join_lines by (rule refl)
  moreover have "line_buffer new_stream_parser = []" by (simp add: new_stream_parser_def)
  ultimately have "push_delta new_stream_parser (render_patch env hs) = push_delta st END_PATCH_MARKER"
    using push_delta_feed [OF nb _ fed] by simp
  also have "\<dots> = Inr (st\<lparr>line_buffer := END_PATCH_MARKER\<rparr>)"
    using st(2) push_delta_no_newline [OF no_break_ends(2) [OF no_break_markers(2)]]
    by (simp add: stands_for_def active_def)
  finally have "push_deltas new_stream_parser deltas = Inr (st\<lparr>line_buffer := END_PATCH_MARKER\<rparr>)"
    by (simp add: push_deltas_concat ds)
  with finish_end [OF st(2)] show ?thesis by (auto simp: stream_patch_def)
qed



end
