(* ===== verification/PyJson.thy ===== *)
theory PyJson
  imports Prelude
begin

text \<open>
  JSON values as the code builds them with Python dictionaries and lists: the fields of an object
  keep the order in which they are written. A floating-point number is carried as its text.
\<close>

datatype json =
    JNull
  | JBool bool
  | JInt int
  | JFloat pystr
  | JStr pystr
  | JArr "json list"
  | JObj "(pystr \<times> json) list"

text \<open>An object tagged by its \<open>type\<close> field.\<close>

definition tagged :: "string \<Rightarrow> (string \<times> json) list \<Rightarrow> json" where
  "tagged t fields = JObj ((lit ''type'', JStr (lit t)) # map (\<lambda>(k, v). (lit k, v)) fields)"

definition jstr :: "string \<Rightarrow> json" where
  "jstr s = JStr (lit s)"

definition jobj :: "(string \<times> json) list \<Rightarrow> json" where
  "jobj fields = JObj (map (\<lambda>(k, v). (lit k, v)) fields)"

lemma jobj_inject: "jobj xs = jobj ys \<longleftrightarrow> xs = ys"
proof -
  have "inj (\<lambda>(k, v::json). (lit k, v))" by (auto simp: inj_def lit_inject)
  then show ?thesis by (simp add: jobj_def inj_map_eq_map)
qed

lemma tagged_jobj: "tagged t fields = jobj ((''type'', jstr t) # fields)"
  by (simp add: tagged_def jobj_def jstr_def)

lemma jstr_inject [simp]: "jstr s = jstr t \<longleftrightarrow> s = t"
  by (simp add: jstr_def lit_inject)

lemma tagged_inject [simp]: "tagged t xs = tagged u ys \<longleftrightarrow> t = u \<and> xs = ys"
  by (simp add: tagged_jobj jobj_inject)

text \<open>The value of a field, as \<open>dict.get\<close> reads it.\<close>

fun json_get :: "json \<Rightarrow> string \<Rightarrow> json option" where
  "json_get (JObj fields) k = map_of fields (lit k)"
| "json_get j k = None"

end
