(* ===== verification/LegacyTypes.thy ===== *)
theory LegacyTypes
  imports PyPath PyJson
begin

text \<open>
  The vocabulary of \<open>pycodex/execpolicy_legacy\<close>: argument types and their validation
  (\<open>arg_type.py\<close>, \<open>sed_command.py\<close>), argument matchers (\<open>arg_matcher.py\<close>), matched values
  (\<open>valid_exec.py\<close>), options (\<open>opt.py\<close>), calls (\<open>exec_call.py\<close>) and the errors (\<open>error.py\<close>), with
  the JSON each of them is reported as.
\<close>

section \<open>Argument types\<close>

datatype arg_type = TLiteral pystr | TOpaqueNonFile | TReadableFile | TWriteableFile
  | TPositiveInteger | TSedCommand | TUnknown

datatype arg_matcher = MLiteral pystr | MOpaqueNonFile | MReadableFile | MWriteableFile
  | MReadableFiles | MReadableFilesOrCwd | MPositiveInteger | MSedCommand | MUnverifiedVarargs

datatype cardinality = One | AtLeastOne | ZeroOrMore

fun is_exact :: "cardinality \<Rightarrow> nat option" where
  "is_exact One = Some 1"
| "is_exact c = None"

fun matcher_cardinality :: "arg_matcher \<Rightarrow> cardinality" where
  "matcher_cardinality (MLiteral v) = One"
| "matcher_cardinality MOpaqueNonFile = One"
| "matcher_cardinality MReadableFile = One"
| "matcher_cardinality MWriteableFile = One"
| "matcher_cardinality MPositiveInteger = One"
| "matcher_cardinality MSedCommand = One"
| "matcher_cardinality MReadableFiles = AtLeastOne"
| "matcher_cardinality MReadableFilesOrCwd = ZeroOrMore"
| "matcher_cardinality MUnverifiedVarargs = ZeroOrMore"

fun matcher_arg_type :: "arg_matcher \<Rightarrow> arg_type" where
  "matcher_arg_type (MLiteral v) = TLiteral v"
| "matcher_arg_type MOpaqueNonFile = TOpaqueNonFile"
| "matcher_arg_type MReadableFile = TReadableFile"
| "matcher_arg_type MReadableFiles = TReadableFile"
| "matcher_arg_type MReadableFilesOrCwd = TReadableFile"
| "matcher_arg_type MWriteableFile = TWriteableFile"
| "matcher_arg_type MPositiveInteger = TPositiveInteger"
| "matcher_arg_type MSedCommand = TSedCommand"
| "matcher_arg_type MUnverifiedVarargs = TUnknown"

fun might_write_file :: "arg_type \<Rightarrow> bool" where
  "might_write_file TWriteableFile = True"
| "might_write_file TUnknown = True"
| "might_write_file t = False"

text \<open>Starlark strings become literals (\<open>ArgMatcher.unpack_value\<close>); other values are refused.\<close>

datatype policy_value = PVStr pystr | PVMatcher arg_matcher | PVOther

fun unpack_value :: "policy_value \<Rightarrow> arg_matcher option" where
  "unpack_value (PVStr s) = Some (MLiteral s)"
| "unpack_value (PVMatcher m) = Some m"
| "unpack_value PVOther = None"

section \<open>Calls, options and matched values\<close>

record positional_arg =
  pos_index :: nat
  pos_value :: pystr

record exec_call =
  call_program :: pystr
  call_args :: "pystr list"

definition exec_call_str :: "exec_call \<Rightarrow> pystr" where
  "exec_call_str c = (if call_args c = [] then call_program c
     else join_with (lit '' '') (call_program c # call_args c))"

datatype opt_meta = MetaFlag | MetaValue arg_type

record opt =
  opt_name :: pystr
  opt_meta :: opt_meta
  opt_required :: bool

definition opt_flag :: "pystr \<Rightarrow> opt" where
  "opt_flag name = \<lparr>opt_name = name, opt_meta = MetaFlag, opt_required = False\<rparr>"

definition opt_value :: "pystr \<Rightarrow> arg_matcher \<Rightarrow> bool \<Rightarrow> opt" where
  "opt_value name m required =
     \<lparr>opt_name = name, opt_meta = MetaValue (matcher_arg_type m), opt_required = required\<rparr>"

record matched_arg =
  ma_index :: nat
  ma_type :: arg_type
  ma_value :: pystr

record matched_opt =
  mo_name :: pystr
  mo_value :: pystr
  mo_type :: arg_type

record valid_exec =
  ve_program :: pystr
  ve_flags :: "pystr list"
  ve_opts :: "matched_opt list"
  ve_args :: "matched_arg list"
  ve_system_path :: "pystr list"

definition might_write_files :: "valid_exec \<Rightarrow> bool" where
  "might_write_files e \<longleftrightarrow>
     list_ex (\<lambda>o'. might_write_file (mo_type o')) (ve_opts e)
     \<or> list_ex (\<lambda>a. might_write_file (ma_type a)) (ve_args e)"

section \<open>Errors\<close>

datatype legacy_error =
    LiteralValueDidNotMatch pystr pystr
  | EmptyFileName
  | InvalidPositiveInteger pystr
  | SedCommandNotProvablySafe pystr
  | UnexpectedArguments pystr "positional_arg list"
  | MultipleVarargPatterns pystr arg_matcher arg_matcher
  | RangeStartExceedsEnd nat nat
  | RangeEndOutOfBounds nat nat
  | PrefixOverlapsSuffix
  | NotEnoughArgs pystr "positional_arg list" "arg_matcher list"
  | InternalInvariantViolation pystr
  | VarargMatcherDidNotMatchAnything pystr arg_matcher
  | OptionMissingValue pystr pystr
  | OptionFollowedByOptionInsteadOfValue pystr pystr pystr
  | UnknownOption pystr pystr
  | DoubleDashNotSupportedYet pystr
  | MissingRequiredOptions pystr "pystr list"
  | NoSpecForProgram pystr
  | ReadablePathNotInReadableFolders pypath "pypath list"
  | WriteablePathNotInWriteableFolders pypath "pypath list"
  | CannotCheckRelativePath pypath
  | CannotCanonicalizePath pystr pystr

section \<open>Validation\<close>

definition ascii_digits :: "pystr \<Rightarrow> bool" where
  "ascii_digits s \<longleftrightarrow> s \<noteq> [] \<and> list_all (\<lambda>c. 48 \<le> c \<and> c \<le> 57) s"

definition decimal_value :: "pystr \<Rightarrow> int" where
  "decimal_value s = foldl (\<lambda>n c. 10 * n + (c - 48)) 0 s"

definition parse_u64 :: "pystr \<Rightarrow> int option" where
  "parse_u64 value =
     (if \<not> ascii_digits value then None
      else let parsed = decimal_value value in
        if 2 ^ 64 - 1 < parsed then None else Some parsed)"

definition parse_sed_command :: "pystr \<Rightarrow> (legacy_error, unit) result" where
  "parse_sed_command sed_command =
     (let stripped = butlast sed_command;
          first = takeWhile (\<lambda>c. c \<noteq> 44) stripped;
          rest = drop (length first + 1) stripped
      in if ends_with sed_command (lit ''p'') \<and> 44 \<in> set stripped
            \<and> parse_u64 first \<noteq> None \<and> parse_u64 rest \<noteq> None
         then Inr () else Inl (SedCommandNotProvablySafe sed_command))"

fun validate_arg :: "arg_type \<Rightarrow> pystr \<Rightarrow> (legacy_error, unit) result" where
  "validate_arg (TLiteral v) value =
     (if value \<noteq> v then Inl (LiteralValueDidNotMatch v value) else Inr ())"
| "validate_arg TReadableFile value = (if value = [] then Inl EmptyFileName else Inr ())"
| "validate_arg TWriteableFile value = (if value = [] then Inl EmptyFileName else Inr ())"
| "validate_arg TOpaqueNonFile value = Inr ()"
| "validate_arg TUnknown value = Inr ()"
| "validate_arg TPositiveInteger value =
     (case parse_u64 value of
        None \<Rightarrow> Inl (InvalidPositiveInteger value)
      | Some n \<Rightarrow> if n = 0 then Inl (InvalidPositiveInteger value) else Inr ())"
| "validate_arg TSedCommand value = parse_sed_command value"

definition matched_arg_new :: "nat \<Rightarrow> arg_type \<Rightarrow> pystr \<Rightarrow> (legacy_error, matched_arg) result" where
  "matched_arg_new index t value =
     bindE (validate_arg t value) (\<lambda>_. Inr \<lparr>ma_index = index, ma_type = t, ma_value = value\<rparr>)"

definition matched_opt_new :: "pystr \<Rightarrow> pystr \<Rightarrow> arg_type \<Rightarrow> (legacy_error, matched_opt) result" where
  "matched_opt_new name value t =
     bindE (validate_arg t value) (\<lambda>_. Inr \<lparr>mo_name = name, mo_value = value, mo_type = t\<rparr>)"

text \<open>The declarative reading of validation.\<close>

fun accepts :: "arg_type \<Rightarrow> pystr \<Rightarrow> bool" where
  "accepts (TLiteral v) value \<longleftrightarrow> value = v"
| "accepts TReadableFile value \<longleftrightarrow> value \<noteq> []"
| "accepts TWriteableFile value \<longleftrightarrow> value \<noteq> []"
| "accepts TOpaqueNonFile value \<longleftrightarrow> True"
| "accepts TUnknown value \<longleftrightarrow> True"
| "accepts TPositiveInteger value \<longleftrightarrow>
     ascii_digits value \<and> 0 < decimal_value value \<and> decimal_value value < 2 ^ 64"
| "accepts TSedCommand value \<longleftrightarrow>
     (\<exists>a b. value = a @ lit '','' @ b @ lit ''p'' \<and> ascii_digits a \<and> ascii_digits b
        \<and> decimal_value a < 2 ^ 64 \<and> decimal_value b < 2 ^ 64)"

lemma decimal_value_nonneg: "list_all (\<lambda>c. 48 \<le> c \<and> c \<le> 57) s \<Longrightarrow> 0 \<le> decimal_value s"
proof -
  have "list_all (\<lambda>c. 48 \<le> c \<and> c \<le> 57) s \<Longrightarrow> 0 \<le> n \<Longrightarrow> 0 \<le> foldl (\<lambda>n c. 10 * n + (c - 48)) n s"
    for n :: int by (induction s arbitrary: n) auto
  then show "list_all (\<lambda>c. 48 \<le> c \<and> c \<le> 57) s \<Longrightarrow> 0 \<le> decimal_value s"
    by (simp add: decimal_value_def)
qed

lemma parse_u64_Some:
  "parse_u64 s = Some n \<longleftrightarrow> ascii_digits s \<and> n = decimal_value s \<and> n < 2 ^ 64"
  by (auto simp: parse_u64_def Let_def)

lemma parse_u64_None: "parse_u64 s = None \<longleftrightarrow> \<not> (ascii_digits s \<and> decimal_value s < 2 ^ 64)"
  by (auto simp: parse_u64_def Let_def)

lemma ascii_digits_no_comma: "ascii_digits s \<Longrightarrow> 44 \<notin> set s"
  by (auto simp: ascii_digits_def list_all_iff)

lemma split_at_comma:
  assumes "44 \<notin> set a"
  shows "takeWhile (\<lambda>c. c \<noteq> 44) (a @ 44 # b) = (a :: pystr)"
    and "drop (length (takeWhile (\<lambda>c. c \<noteq> 44) (a @ 44 # b)) + 1) (a @ 44 # b) = b"
proof -
  have "takeWhile (\<lambda>c. c \<noteq> 44) (a @ 44 # b) = a @ takeWhile (\<lambda>c. c \<noteq> 44) (44 # b)"
    using assms by (intro takeWhile_append2) auto
  then show t: "takeWhile (\<lambda>c. c \<noteq> 44) (a @ 44 # b) = a" by simp
  show "drop (length (takeWhile (\<lambda>c. c \<noteq> 44) (a @ 44 # b)) + 1) (a @ 44 # b) = b"
    by (simp add: t)
qed

lemma parse_sed_accepts: "parse_sed_command s = Inr () \<longleftrightarrow> accepts TSedCommand s"
proof
  assume p: "parse_sed_command s = Inr ()"
  let ?st = "butlast s" and ?f = "takeWhile (\<lambda>c. c \<noteq> 44) (butlast s)"
  from p have e: "ends_with s (lit ''p'')" "44 \<in> set ?st"
    and u: "parse_u64 ?f \<noteq> None" "parse_u64 (drop (length ?f + 1) ?st) \<noteq> None"
    by (auto simp: parse_sed_command_def Let_def split: if_splits)
  have "s = ?st @ lit ''p''" using e(1) by (auto simp: ends_with_iff)
  moreover have "?st = ?f @ 44 # drop (length ?f + 1) ?st"
  proof -
    have ne: "dropWhile (\<lambda>c. c \<noteq> 44) ?st \<noteq> []" using e(2) by (simp add: dropWhile_eq_Nil_conv)
    have "hd (dropWhile (\<lambda>c. c \<noteq> 44) ?st) = 44" using hd_dropWhile [OF ne] by simp
    with ne have "dropWhile (\<lambda>c. c \<noteq> 44) ?st = 44 # tl (dropWhile (\<lambda>c. c \<noteq> 44) ?st)"
      by (metis list.collapse)
    moreover have "tl (dropWhile (\<lambda>c. c \<noteq> 44) ?st) = drop (length ?f + 1) ?st"
      by (simp add: dropWhile_eq_drop tl_drop drop_Suc [symmetric])
    ultimately show ?thesis by (metis takeWhile_dropWhile_id)
  qed
  ultimately have "s = (?f @ 44 # drop (length ?f + 1) ?st) @ lit ''p''" by (rule subst [rotated])
  then have "s = ?f @ lit '','' @ drop (length ?f + 1) ?st @ lit ''p''" by simp
  with u show "accepts TSedCommand s"
    unfolding accepts.simps parse_u64_None by blast
next
  assume "accepts TSedCommand s"
  then obtain a b where s: "s = a @ lit '','' @ b @ lit ''p''" "ascii_digits a" "ascii_digits b"
    "decimal_value a < 2 ^ 64" "decimal_value b < 2 ^ 64" by auto
  have "butlast s = a @ 44 # b" by (simp add: s(1) butlast_append)
  moreover have "ends_with s (lit ''p'')" by (simp add: s(1) ends_with_iff)
  ultimately show "parse_sed_command s = Inr ()"
    using split_at_comma [OF ascii_digits_no_comma [OF s(2)], of b] s(2-5)
    by (simp add: parse_sed_command_def Let_def parse_u64_None)
qed

lemma validate_accepts: "validate_arg t value = Inr () \<longleftrightarrow> accepts t value"
proof (cases t)
  case TSedCommand
  then show ?thesis using parse_sed_accepts by simp
next
  case TPositiveInteger
  have "ascii_digits value \<Longrightarrow> 0 \<le> decimal_value value"
    by (rule decimal_value_nonneg) (simp add: ascii_digits_def)
  with TPositiveInteger show ?thesis
    by (auto simp: parse_u64_Some parse_u64_None split: option.splits)
qed auto

lemma matched_arg_new_Inr [result_iff]:
  "matched_arg_new i t v = Inr m \<longleftrightarrow> accepts t v \<and> m = \<lparr>ma_index = i, ma_type = t, ma_value = v\<rparr>"
  by (auto simp: matched_arg_new_def result_iff validate_accepts [symmetric])

lemma matched_opt_new_Inr [result_iff]:
  "matched_opt_new n v t = Inr m \<longleftrightarrow> accepts t v \<and> m = \<lparr>mo_name = n, mo_value = v, mo_type = t\<rparr>"
  by (auto simp: matched_opt_new_def result_iff validate_accepts [symmetric])

text \<open>
  Validation accepts exactly the values the type describes: the literal itself, a nonempty file
  name, a positive decimal below \<open>2 ^ 64\<close>, a print command \<open>A,Bp\<close> with two such numbers (zero
  allowed), anything for the two types that check nothing.
\<close>

theorem validation_is_the_type: "validate_arg t value = Inr () \<longleftrightarrow> accepts t value"
  by (rule validate_accepts)

end
