(* ===== verification/LegacyResolver.thy ===== *)
theory LegacyResolver
  imports LegacyTypes
begin

text \<open>
  \<open>pycodex/execpolicy_legacy/arg_resolver.py\<close>: the positional arguments of a call are matched with
  the argument patterns of a specification, of which at most one may take a variable number of
  arguments. The code is shown to accept exactly the expansions of the patterns to the number of
  arguments seen, each argument checked once and in order.
\<close>

section \<open>The resolver\<close>

record partitioned_args =
  num_prefix_args :: nat
  num_suffix_args :: nat
  prefix_patterns :: "arg_matcher list"
  suffix_patterns :: "arg_matcher list"
  vararg_pattern :: "arg_matcher option"

definition no_partition :: partitioned_args where
  "no_partition = \<lparr>num_prefix_args = 0, num_suffix_args = 0, prefix_patterns = [],
     suffix_patterns = [], vararg_pattern = None\<rparr>"

fun partition_loop ::
  "pystr \<Rightarrow> bool \<Rightarrow> partitioned_args \<Rightarrow> arg_matcher list \<Rightarrow> (legacy_error, partitioned_args) result"
where
  "partition_loop program in_prefix acc [] = Inr acc"
| "partition_loop program in_prefix acc (pattern # patterns) =
     (case is_exact (matcher_cardinality pattern) of
        Some exact \<Rightarrow>
          if in_prefix then
            partition_loop program in_prefix
              (acc\<lparr>prefix_patterns := prefix_patterns acc @ [pattern],
                   num_prefix_args := num_prefix_args acc + exact\<rparr>) patterns
          else
            partition_loop program in_prefix
              (acc\<lparr>suffix_patterns := suffix_patterns acc @ [pattern],
                   num_suffix_args := num_suffix_args acc + exact\<rparr>) patterns
      | None \<Rightarrow>
          (case vararg_pattern acc of
             None \<Rightarrow> partition_loop program False (acc\<lparr>vararg_pattern := Some pattern\<rparr>) patterns
           | Some first \<Rightarrow> Inl (MultipleVarargPatterns program first pattern)))"

definition partition_args ::
  "pystr \<Rightarrow> arg_matcher list \<Rightarrow> (legacy_error, partitioned_args) result" where
  "partition_args program arg_patterns = partition_loop program True no_partition arg_patterns"

definition get_range_checked :: "'a list \<Rightarrow> nat \<Rightarrow> nat \<Rightarrow> (legacy_error, 'a list) result" where
  "get_range_checked values start stop =
     (if stop < start then Inl (RangeStartExceedsEnd start stop)
      else if length values < stop then Inl (RangeEndOutOfBounds stop (length values))
      else Inr (take (stop - start) (drop start values)))"

definition match_positional ::
  "arg_matcher \<Rightarrow> positional_arg \<Rightarrow> (legacy_error, matched_arg) result" where
  "match_positional pattern a =
     matched_arg_new (pos_index a) (matcher_arg_type pattern) (pos_value a)"

text \<open>The loop over the prefix (suffix) patterns; it also returns the index it has reached.\<close>

fun match_exact ::
  "arg_matcher list \<Rightarrow> positional_arg list \<Rightarrow> nat \<Rightarrow> (legacy_error, matched_arg list \<times> nat) result"
where
  "match_exact [] segment i = Inr ([], i)"
| "match_exact (pattern # patterns) segment i =
     (case is_exact (matcher_cardinality pattern) of
        None \<Rightarrow> Inl (InternalInvariantViolation (lit ''expected exact cardinality''))
      | Some n \<Rightarrow>
          bindE (mapE (match_positional pattern) (take n (drop i segment))) (\<lambda>ms.
          bindE (match_exact patterns segment (i + n)) (\<lambda>(rest, j). Inr (ms @ rest, j))))"

definition match_vararg ::
  "pystr \<Rightarrow> positional_arg list \<Rightarrow> nat \<Rightarrow> nat \<Rightarrow> arg_matcher option
     \<Rightarrow> (legacy_error, matched_arg list) result" where
  "match_vararg program observed start stop pattern_opt =
     (case pattern_opt of
        None \<Rightarrow> Inr []
      | Some pattern \<Rightarrow>
          bindE (get_range_checked observed start stop) (\<lambda>vararg.
            if matcher_cardinality pattern = One then
              Inl (InternalInvariantViolation
                (lit ''vararg pattern should not have cardinality of one''))
            else if matcher_cardinality pattern = AtLeastOne \<and> vararg = [] then
              Inl (VarargMatcherDidNotMatchAnything program pattern)
            else mapE (match_positional pattern) vararg))"

definition resolve_observed_args_with_patterns ::
  "pystr \<Rightarrow> positional_arg list \<Rightarrow> arg_matcher list \<Rightarrow> (legacy_error, matched_arg list) result"
where
  "resolve_observed_args_with_patterns program observed patterns =
     bindE (partition_args program patterns) (\<lambda>parts.
     bindE (get_range_checked observed 0 (num_prefix_args parts)) (\<lambda>prefix'.
     bindE (match_exact (prefix_patterns parts) prefix' 0) (\<lambda>(ms1, prefix_arg_index).
     if length observed < num_suffix_args parts then Inl (NotEnoughArgs program observed patterns)
     else let initial_suffix = length observed - num_suffix_args parts in
     if initial_suffix < prefix_arg_index then Inl PrefixOverlapsSuffix
     else
     bindE (match_vararg program observed prefix_arg_index initial_suffix (vararg_pattern parts)) (\<lambda>ms2.
     bindE (get_range_checked observed initial_suffix (length observed)) (\<lambda>suffix'.
     bindE (match_exact (suffix_patterns parts) suffix' 0) (\<lambda>(ms3, _).
     let matched = ms1 @ ms2 @ ms3 in
     if length matched < length observed then
       bindE (get_range_checked observed (length matched) (length observed))
         (\<lambda>extra_args. Inl (UnexpectedArguments program extra_args))
     else Inr matched))))))"

section \<open>What it is meant to accept\<close>

text \<open>
  The types that the patterns give to \<open>n\<close> arguments: one each for the exact patterns, and the
  rest to the pattern with a variable number of arguments, if there is one.
\<close>

definition exact_pattern :: "arg_matcher \<Rightarrow> bool" where
  "exact_pattern m \<longleftrightarrow> matcher_cardinality m = One"

definition pattern_types :: "arg_matcher list \<Rightarrow> nat \<Rightarrow> arg_type list option" where
  "pattern_types patterns n =
     (let pre = takeWhile exact_pattern patterns; rest = dropWhile exact_pattern patterns in
      case rest of
        [] \<Rightarrow> if n = length patterns then Some (map matcher_arg_type patterns) else None
      | v # suf \<Rightarrow>
          if list_all exact_pattern suf \<and> length pre + length suf \<le> n
             \<and> (matcher_cardinality v = AtLeastOne \<longrightarrow> length pre + length suf < n)
          then Some (map matcher_arg_type pre
                 @ replicate (n - (length pre + length suf)) (matcher_arg_type v)
                 @ map matcher_arg_type suf)
          else None)"

definition typed_args :: "arg_type list \<Rightarrow> positional_arg list \<Rightarrow> matched_arg list" where
  "typed_args ts args =
     map2 (\<lambda>t a. \<lparr>ma_index = pos_index a, ma_type = t, ma_value = pos_value a\<rparr>) ts args"

definition args_accepted :: "arg_type list \<Rightarrow> positional_arg list \<Rightarrow> bool" where
  "args_accepted ts args = list_all2 (\<lambda>t a. accepts t (pos_value a)) ts args"

section \<open>Partition\<close>

lemma exact_pattern_iff: "exact_pattern m \<longleftrightarrow> is_exact (matcher_cardinality m) = Some 1"
  by (cases "matcher_cardinality m") (simp_all add: exact_pattern_def)

lemma inexact_pattern_iff: "\<not> exact_pattern m \<longleftrightarrow> is_exact (matcher_cardinality m) = None"
  by (cases "matcher_cardinality m") (simp_all add: exact_pattern_def)

lemma partition_loop_exact:
  "list_all exact_pattern ps \<Longrightarrow>
     partition_loop program in_prefix acc (ps @ qs) =
       partition_loop program in_prefix
         (if in_prefix then acc\<lparr>prefix_patterns := prefix_patterns acc @ ps,
                                num_prefix_args := num_prefix_args acc + length ps\<rparr>
          else acc\<lparr>suffix_patterns := suffix_patterns acc @ ps,
                   num_suffix_args := num_suffix_args acc + length ps\<rparr>) qs"
  by (cases in_prefix; induction ps arbitrary: acc) (simp_all add: exact_pattern_iff)

lemma partition_all_exact:
  assumes "list_all exact_pattern ps"
  shows "partition_args program ps = Inr \<lparr>num_prefix_args = length ps, num_suffix_args = 0,
     prefix_patterns = ps, suffix_patterns = [], vararg_pattern = None\<rparr>"
  using partition_loop_exact [OF assms, of program True no_partition "[]"]
  by (simp add: partition_args_def no_partition_def)

lemma partition_vararg:
  assumes "list_all exact_pattern pre" "\<not> exact_pattern v" "list_all exact_pattern suf"
  shows "partition_args program (pre @ v # suf) =
    Inr \<lparr>num_prefix_args = length pre, num_suffix_args = length suf,
     prefix_patterns = pre, suffix_patterns = suf, vararg_pattern = Some v\<rparr>"
  using partition_loop_exact [OF assms(1), of program True no_partition "v # suf"]
    partition_loop_exact [OF assms(3), of program False
      "no_partition\<lparr>prefix_patterns := pre, num_prefix_args := length pre, vararg_pattern := Some v\<rparr>" "[]"]
    assms(2)
  by (simp add: partition_args_def no_partition_def inexact_pattern_iff)

lemma partition_two_varargs:
  assumes "list_all exact_pattern pre" "\<not> exact_pattern v"
    "list_all exact_pattern mid" "\<not> exact_pattern w"
  shows "partition_args program (pre @ v # mid @ w # suf) = Inl (MultipleVarargPatterns program v w)"
  using partition_loop_exact [OF assms(1), of program True no_partition "v # mid @ w # suf"]
    partition_loop_exact [OF assms(3), of program False
      "no_partition\<lparr>prefix_patterns := pre, num_prefix_args := length pre, vararg_pattern := Some v\<rparr>" "w # suf"]
    assms(2,4)
  by (simp add: partition_args_def no_partition_def inexact_pattern_iff)

section \<open>Matching\<close>

lemma get_range_checked_Inr [result_iff]:
  "get_range_checked xs i j = Inr ys \<longleftrightarrow> i \<le> j \<and> j \<le> length xs \<and> ys = take (j - i) (drop i xs)"
  by (auto simp: get_range_checked_def)

lemma match_positional_Inr [result_iff]:
  "match_positional p a = Inr m \<longleftrightarrow> accepts (matcher_arg_type p) (pos_value a) \<and>
     m = \<lparr>ma_index = pos_index a, ma_type = matcher_arg_type p, ma_value = pos_value a\<rparr>"
  by (simp add: match_positional_def result_iff)

lemma typed_args_simps [simp]:
  "typed_args [] as = []"
  "typed_args (t # ts) (a # as) =
     \<lparr>ma_index = pos_index a, ma_type = t, ma_value = pos_value a\<rparr> # typed_args ts as"
  by (simp_all add: typed_args_def)

lemma args_accepted_simps [simp]:
  "args_accepted [] as \<longleftrightarrow> as = []"
  "args_accepted (t # ts) (a # as) \<longleftrightarrow> accepts t (pos_value a) \<and> args_accepted ts as"
  by (simp_all add: args_accepted_def)

lemma args_accepted_length: "args_accepted ts as \<Longrightarrow> length ts = length as"
  by (simp add: args_accepted_def list_all2_lengthD)

lemma args_accepted_append:
  "length ts = length as \<Longrightarrow>
     args_accepted (ts @ us) (as @ bs) \<longleftrightarrow> args_accepted ts as \<and> args_accepted us bs"
  by (simp add: args_accepted_def list_all2_append)

lemma typed_args_append:
  "length ts = length as \<Longrightarrow> typed_args (ts @ us) (as @ bs) = typed_args ts as @ typed_args us bs"
  by (simp add: typed_args_def)

lemma length_typed_args [simp]: "length (typed_args ts as) = min (length ts) (length as)"
  by (simp add: typed_args_def)

lemma match_exact_Inr:
  "list_all exact_pattern ps \<Longrightarrow> length seg = i + length ps \<Longrightarrow>
     match_exact ps seg i = Inr (ms, j) \<longleftrightarrow>
       args_accepted (map matcher_arg_type ps) (drop i seg)
       \<and> ms = typed_args (map matcher_arg_type ps) (drop i seg) \<and> j = i + length ps"
proof (induction ps arbitrary: i ms)
  case (Cons p ps)
  then obtain a where a: "drop i seg = a # drop (Suc i) seg"
    by (metis Cons_nth_drop_Suc length_Cons less_add_same_cancel1 zero_less_Suc)
  have "match_exact ps seg (Suc i) = Inr (ns, j) \<longleftrightarrow>
       args_accepted (map matcher_arg_type ps) (drop (Suc i) seg)
       \<and> ns = typed_args (map matcher_arg_type ps) (drop (Suc i) seg) \<and> j = Suc i + length ps" for ns
    using Cons by simp
  then show ?case using Cons.prems a
    by (auto simp: exact_pattern_iff result_iff split: prod.splits)
qed auto

lemma mapE_match_Inr:
  "mapE (match_positional p) as = Inr ms \<longleftrightarrow>
     args_accepted (replicate (length as) (matcher_arg_type p)) as
     \<and> ms = typed_args (replicate (length as) (matcher_arg_type p)) as"
proof (induction as arbitrary: ms)
  case (Cons a as)
  then show ?case by (auto simp: bindE_eq_Inr match_positional_Inr)
qed auto

section \<open>The resolver accepts the expansions of the patterns\<close>

lemma patterns_cases:
  obtains (exact) "list_all exact_pattern ps"
  | (one) pre v suf where "ps = pre @ v # suf" "list_all exact_pattern pre" "\<not> exact_pattern v"
      "list_all exact_pattern suf"
  | (two) pre v mid w suf where "ps = pre @ v # mid @ w # suf" "list_all exact_pattern pre"
      "\<not> exact_pattern v" "list_all exact_pattern mid" "\<not> exact_pattern w"
proof -
  have split: "\<exists>pre v suf. xs = pre @ v # suf \<and> list_all exact_pattern pre \<and> \<not> exact_pattern v"
    if "\<not> list_all exact_pattern xs" for xs
    using that split_list_first_prop [of xs "\<lambda>m. \<not> exact_pattern m"] by (auto simp: list_all_iff)
  show thesis
  proof (cases "list_all exact_pattern ps")
    case False
    then obtain pre v suf where 1: "ps = pre @ v # suf" "list_all exact_pattern pre" "\<not> exact_pattern v"
      using split by blast
    show thesis
    proof (cases "list_all exact_pattern suf")
      case False
      then obtain mid w suf' where "suf = mid @ w # suf'" "list_all exact_pattern mid" "\<not> exact_pattern w"
        using split by blast
      with 1 two show thesis by blast
    qed (use 1 one in blast)
  qed (rule exact)
qed

lemma takeWhile_exact:
  assumes "list_all exact_pattern pre" "\<not> exact_pattern v"
  shows "takeWhile exact_pattern (pre @ v # rest) = pre" "dropWhile exact_pattern (pre @ v # rest) = v # rest"
  using assms by (auto simp: takeWhile_append dropWhile_append list_all_iff)

lemma pattern_types_exact:
  "list_all exact_pattern ps \<Longrightarrow>
     pattern_types ps n = (if n = length ps then Some (map matcher_arg_type ps) else None)"
proof -
  assume "list_all exact_pattern ps"
  then have none: "dropWhile exact_pattern ps = []" by (simp add: dropWhile_eq_Nil_conv list_all_iff)
  show ?thesis unfolding pattern_types_def Let_def none by simp
qed

lemma pattern_types_one:
  assumes "list_all exact_pattern pre" "\<not> exact_pattern v" "list_all exact_pattern suf"
  shows "pattern_types (pre @ v # suf) n =
    (if length pre + length suf \<le> n
        \<and> (matcher_cardinality v = AtLeastOne \<longrightarrow> length pre + length suf < n)
     then Some (map matcher_arg_type pre
            @ replicate (n - (length pre + length suf)) (matcher_arg_type v)
            @ map matcher_arg_type suf)
     else None)"
  using assms by (simp add: pattern_types_def takeWhile_exact)

lemma pattern_types_two:
  assumes "list_all exact_pattern pre" "\<not> exact_pattern v" "\<not> exact_pattern w"
  shows "pattern_types (pre @ v # mid @ w # suf) n = None"
  using assms by (simp add: pattern_types_def takeWhile_exact)

lemma resolve_exact:
  assumes "list_all exact_pattern ps"
  shows "resolve_observed_args_with_patterns program obs ps = Inr ms \<longleftrightarrow>
    length obs = length ps \<and> args_accepted (map matcher_arg_type ps) obs
    \<and> ms = typed_args (map matcher_arg_type ps) obs"
proof -
  have m: "match_exact ps (take (length ps) obs) 0 = Inr (ns, j) \<longleftrightarrow>
      args_accepted (map matcher_arg_type ps) (take (length ps) obs)
      \<and> ns = typed_args (map matcher_arg_type ps) (take (length ps) obs) \<and> j = length ps"
    if "length ps \<le> length obs" for ns j
    using match_exact_Inr [OF assms, of "take (length ps) obs" 0 ns j] that by simp
  have m': "match_exact ps obs 0 = Inr (ns, j) \<longleftrightarrow> args_accepted (map matcher_arg_type ps) obs
      \<and> ns = typed_args (map matcher_arg_type ps) obs \<and> j = length ps"
    if "length obs = length ps" for ns j
    using m [of ns j] that by simp
  show ?thesis (is "?L \<longleftrightarrow> ?R")
  proof
    show "?L \<Longrightarrow> ?R"
      by (auto simp: resolve_observed_args_with_patterns_def partition_all_exact [OF assms]
          match_vararg_def result_iff m Let_def split: prod.splits if_splits)
  next
    assume R: ?R
    then have "match_exact ps obs 0 = Inr (ms, length ps)" by (simp add: m')
    with R show ?L
      by (simp add: resolve_observed_args_with_patterns_def partition_all_exact [OF assms]
          match_vararg_def get_range_checked_def Let_def)
  qed
qed

lemma resolve_one:
  fixes obs :: "positional_arg list"
  assumes "list_all exact_pattern pre" "\<not> exact_pattern v" "list_all exact_pattern suf"
  defines "k \<equiv> length pre + length suf"
  defines "ts \<equiv> map matcher_arg_type pre @ replicate (length obs - k) (matcher_arg_type v)
    @ map matcher_arg_type suf"
  shows "resolve_observed_args_with_patterns program obs (pre @ v # suf) = Inr ms \<longleftrightarrow>
    k \<le> length obs \<and> (matcher_cardinality v = AtLeastOne \<longrightarrow> k < length obs)
    \<and> args_accepted ts obs \<and> ms = typed_args ts obs"
proof (cases "k \<le> length obs")
  case False
  then show ?thesis
    by (auto simp: resolve_observed_args_with_patterns_def partition_vararg [OF assms(1-3)]
        result_iff Let_def k_def match_exact_Inr [OF assms(1)] split: prod.splits)
next
  case True
  define p m s where pms: "p = take (length pre) obs"
    "m = take (length obs - k) (drop (length pre) obs)"
    "s = drop (length obs - length suf) obs"
  have len: "length p = length pre" "length s = length suf" "length m = length obs - k"
    using True by (auto simp: pms k_def)
  have "drop (length pre) obs = m @ s"
  proof -
    have "drop (length obs - k) (drop (length pre) obs) = s"
      using True by (simp add: pms k_def)
    then show ?thesis unfolding pms(2) by (metis append_take_drop_id)
  qed
  then have obs: "obs = p @ m @ s" by (metis append_take_drop_id pms(1))
  have acc: "args_accepted ts obs \<longleftrightarrow> args_accepted (map matcher_arg_type pre) p
      \<and> args_accepted (replicate (length obs - k) (matcher_arg_type v)) m
      \<and> args_accepted (map matcher_arg_type suf) s"
    unfolding ts_def by (subst obs) (simp add: args_accepted_append len)
  have typed: "typed_args ts obs = typed_args (map matcher_arg_type pre) p
      @ typed_args (replicate (length obs - k) (matcher_arg_type v)) m
      @ typed_args (map matcher_arg_type suf) s"
    unfolding ts_def by (subst obs) (simp add: typed_args_append len)
  have e1: "match_exact pre p 0 = Inr (ns, j) \<longleftrightarrow> args_accepted (map matcher_arg_type pre) p
      \<and> ns = typed_args (map matcher_arg_type pre) p \<and> j = length pre" for ns j
    using match_exact_Inr [OF assms(1), of p 0 ns j] by (simp add: len)
  have e3: "match_exact suf s 0 = Inr (ns, j) \<longleftrightarrow> args_accepted (map matcher_arg_type suf) s
      \<and> ns = typed_args (map matcher_arg_type suf) s \<and> j = length suf" for ns j
    using match_exact_Inr [OF assms(3), of s 0 ns j] by (simp add: len)
  have e2: "match_vararg program obs (length pre) (length obs - length suf) (Some v) = Inr ns \<longleftrightarrow>
      (matcher_cardinality v = AtLeastOne \<longrightarrow> k < length obs)
      \<and> args_accepted (replicate (length obs - k) (matcher_arg_type v)) m
      \<and> ns = typed_args (replicate (length obs - k) (matcher_arg_type v)) m" for ns
  proof -
    have "get_range_checked obs (length pre) (length obs - length suf) = Inr m"
      using True by (auto simp: result_iff pms k_def add.commute)
    moreover have "m = [] \<longleftrightarrow> \<not> k < length obs" using len(3) by (metis length_0_conv not_less diff_is_0_eq)
    ultimately show ?thesis
      using assms(2) mapE_match_Inr [of v m ns] by (auto simp: match_vararg_def exact_pattern_def len)
  qed
  have r: "get_range_checked obs 0 (length pre) = Inr p"
    "get_range_checked obs (length obs - length suf) (length obs) = Inr s"
    using True by (auto simp: result_iff pms k_def)
  show ?thesis (is "?L \<longleftrightarrow> ?R")
  proof
    assume ?L
    then show ?R using True
      by (auto simp: resolve_observed_args_with_patterns_def partition_vararg [OF assms(1-3)] r
          bindE_eq_Inr e1 e2 e3 acc typed Let_def split: prod.splits if_splits)
  next
    assume R: ?R
    then have "match_exact pre p 0 = Inr (typed_args (map matcher_arg_type pre) p, length pre)"
      "match_vararg program obs (length pre) (length obs - length suf) (Some v) =
         Inr (typed_args (replicate (length obs - k) (matcher_arg_type v)) m)"
      "match_exact suf s 0 = Inr (typed_args (map matcher_arg_type suf) s, length suf)"
      by (auto simp: e1 e2 e3 acc)
    moreover have "\<not> length obs < length suf" "\<not> length obs - length suf < length pre"
      using True by (auto simp: k_def)
    moreover have "length ms = length obs"
      using R by (auto dest: args_accepted_length)
    moreover have "ms = typed_args (map matcher_arg_type pre) p
      @ typed_args (replicate (length obs - k) (matcher_arg_type v)) m
      @ typed_args (map matcher_arg_type suf) s" using R typed by simp
    ultimately show ?L
      by (simp add: resolve_observed_args_with_patterns_def partition_vararg [OF assms(1-3)] r)
  qed
qed

lemma resolve_iff_lemma:
  "resolve_observed_args_with_patterns program obs patterns = Inr ms \<longleftrightarrow>
     (\<exists>ts. pattern_types patterns (length obs) = Some ts \<and> args_accepted ts obs
        \<and> ms = typed_args ts obs)"
proof (cases patterns rule: patterns_cases)
  case exact
  then show ?thesis by (auto simp: resolve_exact pattern_types_exact)
next
  case (one pre v suf)
  show ?thesis
    unfolding one(1) by (auto simp: resolve_one [OF one(2-4)] pattern_types_one [OF one(2-4)])
next
  case (two pre v mid w suf)
  then show ?thesis
    by (simp add: resolve_observed_args_with_patterns_def partition_two_varargs pattern_types_two)
qed

text \<open>
  The resolver accepts the observed arguments exactly when the patterns expand to their number (the
  one pattern of variable length taking what the others leave) and every argument has the type the
  expansion gives it; the result lists each argument once, in order, with that type.
\<close>

theorem resolver_expands_patterns:
  "resolve_observed_args_with_patterns program obs patterns = Inr ms \<longleftrightarrow>
     (\<exists>ts. pattern_types patterns (length obs) = Some ts \<and> args_accepted ts obs
        \<and> ms = typed_args ts obs)"
  by (rule resolve_iff_lemma)

end
