(* ===== verification/LegacyProgram.thy ===== *)
theory LegacyProgram
  imports LegacyResolver PyDict "HOL-Library.List_Lexorder"
begin

text \<open>
  \<open>pycodex/execpolicy_legacy/program.py\<close>: a program specification reads the arguments of a call as
  flags, options with values and positional arguments, and answers that the call matches, that it
  is forbidden, or with the error that rules it out. A grammar of argument lists
  (\<open>reads\<close>) says what the scanner accepts.
\<close>

section \<open>Specifications and answers\<close>

datatype forbidden_cause =
    ForbiddenProgram pystr exec_call
  | ForbiddenArg pystr exec_call
  | ForbiddenExec valid_exec

datatype matched_exec =
    MatchExec valid_exec
  | MatchForbidden forbidden_cause pystr

record program_spec =
  sp_program :: pystr
  sp_system_path :: "pystr list"
  sp_option_bundling :: bool
  sp_combined_format :: bool
  sp_allowed_options :: "(pystr, opt) pydict"
  sp_arg_patterns :: "arg_matcher list"
  sp_forbidden :: "pystr option"
  sp_should_match :: "pystr list list"
  sp_should_not_match :: "pystr list list"
  sp_required_options :: "pystr list"

definition program_spec_new ::
  "pystr \<Rightarrow> pystr list \<Rightarrow> bool \<Rightarrow> bool \<Rightarrow> (pystr, opt) pydict \<Rightarrow> arg_matcher list \<Rightarrow> pystr option
     \<Rightarrow> pystr list list \<Rightarrow> pystr list list \<Rightarrow> program_spec" where
  "program_spec_new program system_path option_bundling combined_format allowed_options
      arg_patterns forbidden should_match should_not_match =
     \<lparr>sp_program = program, sp_system_path = system_path, sp_option_bundling = option_bundling,
      sp_combined_format = combined_format, sp_allowed_options = allowed_options,
      sp_arg_patterns = arg_patterns, sp_forbidden = forbidden, sp_should_match = should_match,
      sp_should_not_match = should_not_match,
      sp_required_options = map fst (filter (\<lambda>(name, o'). opt_required o') allowed_options)\<rparr>"

section \<open>Checking a call\<close>

record scan_state =
  sc_expecting :: "(pystr \<times> arg_type) option"
  sc_positional :: "positional_arg list"
  sc_flags :: "pystr list"
  sc_opts :: "matched_opt list"

definition scan_start :: scan_state where
  "scan_start = \<lparr>sc_expecting = None, sc_positional = [], sc_flags = [], sc_opts = []\<rparr>"

definition scan_arg ::
  "program_spec \<Rightarrow> nat \<Rightarrow> pystr \<Rightarrow> scan_state \<Rightarrow> (legacy_error, scan_state) result" where
  "scan_arg spec index arg st =
     (case sc_expecting st of
        Some (name, arg_type) \<Rightarrow>
          if starts_with arg (lit ''-'') then
            Inl (OptionFollowedByOptionInsteadOfValue (sp_program spec) name arg)
          else bindE (matched_opt_new name arg arg_type) (\<lambda>m.
            Inr (st\<lparr>sc_opts := sc_opts st @ [m], sc_expecting := None\<rparr>))
      | None \<Rightarrow>
          if arg = lit ''--'' then Inl (DoubleDashNotSupportedYet (sp_program spec))
          else if starts_with arg (lit ''-'') then
            (case dict_get (sp_allowed_options spec) arg of
               None \<Rightarrow> Inl (UnknownOption (sp_program spec) arg)
             | Some o' \<Rightarrow>
                 (case opt_meta o' of
                    MetaFlag \<Rightarrow> Inr (st\<lparr>sc_flags := sc_flags st @ [arg]\<rparr>)
                  | MetaValue t \<Rightarrow> Inr (st\<lparr>sc_expecting := Some (arg, t)\<rparr>)))
          else Inr (st\<lparr>sc_positional := sc_positional st @ [\<lparr>pos_index = index, pos_value = arg\<rparr>]\<rparr>))"

fun scan_args ::
  "program_spec \<Rightarrow> nat \<Rightarrow> pystr list \<Rightarrow> scan_state \<Rightarrow> (legacy_error, scan_state) result" where
  "scan_args spec index [] st = Inr st"
| "scan_args spec index (arg # args) st =
     bindE (scan_arg spec index arg st) (\<lambda>st'. scan_args spec (Suc index) args st')"

definition program_spec_check ::
  "program_spec \<Rightarrow> exec_call \<Rightarrow> (legacy_error, matched_exec) result" where
  "program_spec_check spec call =
     bindE (scan_args spec 0 (call_args call) scan_start) (\<lambda>st.
     case sc_expecting st of
       Some (name, _) \<Rightarrow> Inl (OptionMissingValue (sp_program spec) name)
     | None \<Rightarrow>
         bindE (resolve_observed_args_with_patterns (sp_program spec) (sc_positional st)
                  (sp_arg_patterns spec)) (\<lambda>matched_args.
         let names = map mo_name (sc_opts st);
             missing = filter (\<lambda>n. n \<notin> set names) (sp_required_options spec)
         in if missing \<noteq> [] then
              Inl (MissingRequiredOptions (sp_program spec) (sort (remdups missing)))
            else
              let e = \<lparr>ve_program = sp_program spec, ve_flags = sc_flags st,
                       ve_opts = sc_opts st, ve_args = matched_args,
                       ve_system_path = sp_system_path spec\<rparr>
              in case sp_forbidden spec of
                   Some reason \<Rightarrow> Inr (MatchForbidden (ForbiddenExec e) reason)
                 | None \<Rightarrow> Inr (MatchExec e)))"

section \<open>The examples of a specification\<close>

record positive_example_failed =
  pf_program :: pystr
  pf_args :: "pystr list"
  pf_error :: legacy_error

record negative_example_passed =
  np_program :: pystr
  np_args :: "pystr list"

fun verify_good :: "program_spec \<Rightarrow> pystr list list \<Rightarrow> positive_example_failed list" where
  "verify_good spec [] = []"
| "verify_good spec (good # rest) =
     (case program_spec_check spec \<lparr>call_program = sp_program spec, call_args = good\<rparr> of
        Inl err \<Rightarrow> \<lparr>pf_program = sp_program spec, pf_args = good, pf_error = err\<rparr> # verify_good spec rest
      | Inr _ \<Rightarrow> verify_good spec rest)"

definition verify_should_match_list :: "program_spec \<Rightarrow> positive_example_failed list" where
  "verify_should_match_list spec = verify_good spec (sp_should_match spec)"

fun verify_bad :: "program_spec \<Rightarrow> pystr list list \<Rightarrow> negative_example_passed list" where
  "verify_bad spec [] = []"
| "verify_bad spec (bad # rest) =
     (case program_spec_check spec \<lparr>call_program = sp_program spec, call_args = bad\<rparr> of
        Inl err \<Rightarrow> verify_bad spec rest
      | Inr _ \<Rightarrow> \<lparr>np_program = sp_program spec, np_args = bad\<rparr> # verify_bad spec rest)"

definition verify_should_not_match_list :: "program_spec \<Rightarrow> negative_example_passed list" where
  "verify_should_not_match_list spec = verify_bad spec (sp_should_not_match spec)"

section \<open>The grammar of accepted argument lists\<close>

definition is_option :: "pystr \<Rightarrow> bool" where
  "is_option a \<longleftrightarrow> starts_with a (lit ''-'') \<and> a \<noteq> lit ''--''"

inductive reads ::
  "program_spec \<Rightarrow> nat \<Rightarrow> pystr list \<Rightarrow> pystr list \<Rightarrow> matched_opt list \<Rightarrow> positional_arg list \<Rightarrow> bool"
  for spec where
  reads_end: "reads spec i [] [] [] []"
| reads_flag: "is_option a \<Longrightarrow> dict_get (sp_allowed_options spec) a = Some o' \<Longrightarrow>
    opt_meta o' = MetaFlag \<Longrightarrow> reads spec (Suc i) rest fs os ps \<Longrightarrow>
    reads spec i (a # rest) (a # fs) os ps"
| reads_value: "is_option a \<Longrightarrow> dict_get (sp_allowed_options spec) a = Some o' \<Longrightarrow>
    opt_meta o' = MetaValue t \<Longrightarrow> \<not> starts_with v (lit ''-'') \<Longrightarrow> accepts t v \<Longrightarrow>
    reads spec (Suc (Suc i)) rest fs os ps \<Longrightarrow>
    reads spec i (a # v # rest) fs (\<lparr>mo_name = a, mo_value = v, mo_type = t\<rparr> # os) ps"
| reads_positional: "\<not> starts_with a (lit ''-'') \<Longrightarrow> reads spec (Suc i) rest fs os ps \<Longrightarrow>
    reads spec i (a # rest) fs os (\<lparr>pos_index = i, pos_value = a\<rparr> # ps)"

inductive_cases reads_NilE: "reads spec i [] fs os ps"
inductive_cases reads_ConsE: "reads spec i (a # rest) fs os ps"

lemma not_option_dashdash [simp]: "\<not> is_option (lit ''--'')"
  by (simp add: is_option_def)

lemma scan_arg_flag:
  "sc_expecting st = None \<Longrightarrow> is_option a \<Longrightarrow> dict_get (sp_allowed_options spec) a = Some o' \<Longrightarrow>
     opt_meta o' = MetaFlag \<Longrightarrow> scan_arg spec i a st = Inr (st\<lparr>sc_flags := sc_flags st @ [a]\<rparr>)"
  unfolding scan_arg_def is_option_def by auto

lemma scan_arg_option:
  "sc_expecting st = None \<Longrightarrow> is_option a \<Longrightarrow> dict_get (sp_allowed_options spec) a = Some o' \<Longrightarrow>
     opt_meta o' = MetaValue t \<Longrightarrow> scan_arg spec i a st = Inr (st\<lparr>sc_expecting := Some (a, t)\<rparr>)"
  unfolding scan_arg_def is_option_def by auto

lemma scan_arg_value:
  "sc_expecting st = Some (n, t) \<Longrightarrow> scan_arg spec i v st = Inr st' \<longleftrightarrow>
     \<not> starts_with v (lit ''-'') \<and> accepts t v
     \<and> st' = st\<lparr>sc_opts := sc_opts st @ [\<lparr>mo_name = n, mo_value = v, mo_type = t\<rparr>], sc_expecting := None\<rparr>"
  unfolding scan_arg_def by (auto simp: bindE_eq_Inr matched_opt_new_Inr)

lemma scan_arg_None:
  "sc_expecting st = None \<Longrightarrow> scan_arg spec i a st = Inr st' \<Longrightarrow>
    (is_option a \<and> (\<exists>o'. dict_get (sp_allowed_options spec) a = Some o' \<and> opt_meta o' = MetaFlag)
       \<and> st' = st\<lparr>sc_flags := sc_flags st @ [a]\<rparr>)
    \<or> (\<exists>o' t. is_option a \<and> dict_get (sp_allowed_options spec) a = Some o' \<and> opt_meta o' = MetaValue t
       \<and> st' = st\<lparr>sc_expecting := Some (a, t)\<rparr>)
    \<or> (\<not> starts_with a (lit ''-'')
       \<and> st' = st\<lparr>sc_positional := sc_positional st @ [\<lparr>pos_index = i, pos_value = a\<rparr>]\<rparr>)"
  unfolding scan_arg_def is_option_def
  by (auto split: if_splits option.splits opt_meta.splits)

lemma scan_arg_positional:
  "sc_expecting st = None \<Longrightarrow> \<not> starts_with a (lit ''-'') \<Longrightarrow>
     scan_arg spec i a st = Inr (st\<lparr>sc_positional := sc_positional st @ [\<lparr>pos_index = i, pos_value = a\<rparr>]\<rparr>)"
  unfolding scan_arg_def by auto

lemma reads_scan:
  "reads spec i args fs os ps \<Longrightarrow> sc_expecting st = None \<Longrightarrow>
     scan_args spec i args st = Inr (st\<lparr>sc_flags := sc_flags st @ fs, sc_opts := sc_opts st @ os,
        sc_positional := sc_positional st @ ps\<rparr>)"
proof (induction arbitrary: st rule: reads.induct)
  case (reads_value a o' t v i rest fs os ps)
  then show ?case by (simp add: scan_arg_option scan_arg_value [THEN iffD2])
qed (simp_all add: scan_arg_flag scan_arg_positional)

lemma scan_reads:
  "scan_args spec i args st = Inr st' \<Longrightarrow> sc_expecting st = None \<Longrightarrow> sc_expecting st' = None \<Longrightarrow>
     \<exists>fs os ps. reads spec i args fs os ps \<and> st' = st\<lparr>sc_flags := sc_flags st @ fs,
        sc_opts := sc_opts st @ os, sc_positional := sc_positional st @ ps\<rparr>"
proof (induction args arbitrary: i st rule: length_induct)
  case (1 args)
  show ?case
  proof (cases args)
    case Nil
    with 1 show ?thesis by (force intro: reads_end)
  next
    case (Cons a rest)
    then obtain st1 where s: "scan_arg spec i a st = Inr st1" "scan_args spec (Suc i) rest st1 = Inr st'"
      using 1 by (auto simp: bindE_eq_Inr)
    have short: "\<forall>xs. length xs < length args \<longrightarrow> (\<forall>i st. scan_args spec i xs st = Inr st' \<longrightarrow>
        sc_expecting st = None \<longrightarrow> sc_expecting st' = None \<longrightarrow>
        (\<exists>fs os ps. reads spec i xs fs os ps \<and> st' = st\<lparr>sc_flags := sc_flags st @ fs,
           sc_opts := sc_opts st @ os, sc_positional := sc_positional st @ ps\<rparr>))"
      using "1.IH" by blast
    consider (flag) o' where "is_option a" "dict_get (sp_allowed_options spec) a = Some o'"
        "opt_meta o' = MetaFlag" "st1 = st\<lparr>sc_flags := sc_flags st @ [a]\<rparr>"
      | (valued) o' t where "is_option a" "dict_get (sp_allowed_options spec) a = Some o'"
        "opt_meta o' = MetaValue t" "st1 = st\<lparr>sc_expecting := Some (a, t)\<rparr>"
      | (positional) "\<not> starts_with a (lit ''-'')"
        "st1 = st\<lparr>sc_positional := sc_positional st @ [\<lparr>pos_index = i, pos_value = a\<rparr>]\<rparr>"
      using scan_arg_None [OF "1.prems"(2) s(1)] by blast
    then show ?thesis
    proof cases
      case flag
      with short s(2) "1.prems" Cons obtain fs os ps where "reads spec (Suc i) rest fs os ps"
        "st' = st1\<lparr>sc_flags := sc_flags st1 @ fs, sc_opts := sc_opts st1 @ os,
           sc_positional := sc_positional st1 @ ps\<rparr>" by fastforce
      with flag Cons show ?thesis using reads_flag [OF flag(1-3)] by fastforce
    next
      case positional
      with short s(2) "1.prems" Cons obtain fs os ps where "reads spec (Suc i) rest fs os ps"
        "st' = st1\<lparr>sc_flags := sc_flags st1 @ fs, sc_opts := sc_opts st1 @ os,
           sc_positional := sc_positional st1 @ ps\<rparr>" by fastforce
      with positional Cons show ?thesis using reads_positional [OF positional(1)] by fastforce
    next
      case valued
      with s(2) "1.prems" obtain v rest' where r: "rest = v # rest'" by (cases rest) auto
      with s(2) obtain st2 where s2: "scan_arg spec (Suc i) v st1 = Inr st2"
        "scan_args spec (Suc (Suc i)) rest' st2 = Inr st'" by (auto simp: bindE_eq_Inr)
      with valued have v: "\<not> starts_with v (lit ''-'')" "accepts t v"
        and st2: "st2 = st\<lparr>sc_opts := sc_opts st @ [\<lparr>mo_name = a, mo_value = v, mo_type = t\<rparr>]\<rparr>"
        using scan_arg_value [of st1 a t spec "Suc i" v st2] "1.prems"(2) by auto
      have "length rest' < length args" "sc_expecting st2 = None" using Cons r st2 "1.prems"(2) by auto
      with short s2(2) "1.prems"(3) obtain fs os ps where "reads spec (Suc (Suc i)) rest' fs os ps"
        "st' = st2\<lparr>sc_flags := sc_flags st2 @ fs, sc_opts := sc_opts st2 @ os,
           sc_positional := sc_positional st2 @ ps\<rparr>" by blast
      with Cons r st2 show ?thesis using LegacyProgram.reads_value [OF valued(1-3) v] by fastforce
    qed
  qed
qed

section \<open>What a check answers\<close>

definition required_given :: "program_spec \<Rightarrow> matched_opt list \<Rightarrow> bool" where
  "required_given spec os \<longleftrightarrow> set (sp_required_options spec) \<subseteq> mo_name ` set os"

definition spec_exec ::
  "program_spec \<Rightarrow> pystr list \<Rightarrow> matched_opt list \<Rightarrow> matched_arg list \<Rightarrow> valid_exec" where
  "spec_exec spec fs os ms = \<lparr>ve_program = sp_program spec, ve_flags = fs, ve_opts = os,
     ve_args = ms, ve_system_path = sp_system_path spec\<rparr>"

definition spec_answer :: "program_spec \<Rightarrow> valid_exec \<Rightarrow> matched_exec" where
  "spec_answer spec e = (case sp_forbidden spec of
     Some reason \<Rightarrow> MatchForbidden (ForbiddenExec e) reason | None \<Rightarrow> MatchExec e)"

lemma missing_empty:
  "filter (\<lambda>n. n \<notin> set (map mo_name os)) (sp_required_options spec) = [] \<longleftrightarrow> required_given spec os"
  by (auto simp: required_given_def filter_empty_conv)

lemma spec_check_iff_lemma:
  "program_spec_check spec call = Inr answer \<longleftrightarrow>
     (\<exists>fs os ps ts. reads spec 0 (call_args call) fs os ps
        \<and> pattern_types (sp_arg_patterns spec) (length ps) = Some ts \<and> args_accepted ts ps
        \<and> required_given spec os
        \<and> answer = spec_answer spec (spec_exec spec fs os (typed_args ts ps)))" (is "?L \<longleftrightarrow> ?R")
proof
  assume ?L
  then obtain st where st: "scan_args spec 0 (call_args call) scan_start = Inr st"
    unfolding program_spec_check_def bindE_eq_Inr by blast
  with \<open>?L\<close> have none: "sc_expecting st = None"
    by (cases "sc_expecting st") (auto simp: program_spec_check_def)
  with st obtain fs os ps where r: "reads spec 0 (call_args call) fs os ps"
    "st = \<lparr>sc_expecting = None, sc_positional = ps, sc_flags = fs, sc_opts = os\<rparr>"
    using scan_reads [OF st] by (auto simp: scan_start_def)
  with \<open>?L\<close> st none show ?R
    by (auto simp: program_spec_check_def bindE_eq_Inr resolve_iff_lemma Let_def missing_empty
        spec_answer_def spec_exec_def simp del: filter_empty_conv set_map split: if_splits option.splits)
next
  assume ?R
  then obtain fs os ps ts where r: "reads spec 0 (call_args call) fs os ps"
    and p: "pattern_types (sp_arg_patterns spec) (length ps) = Some ts" "args_accepted ts ps"
    and q: "required_given spec os"
    and a: "answer = spec_answer spec (spec_exec spec fs os (typed_args ts ps))" by blast
  have "scan_args spec 0 (call_args call) scan_start =
      Inr \<lparr>sc_expecting = None, sc_positional = ps, sc_flags = fs, sc_opts = os\<rparr>"
    using reads_scan [OF r, of scan_start] by (simp add: scan_start_def)
  moreover have "resolve_observed_args_with_patterns (sp_program spec) ps (sp_arg_patterns spec)
      = Inr (typed_args ts ps)" using p by (simp add: resolve_iff_lemma)
  ultimately show ?L
    using q missing_empty [of os spec]
    by (simp add: program_spec_check_def a spec_answer_def spec_exec_def Let_def
        del: filter_empty_conv set_map split: option.splits)
qed

text \<open>Every argument of the call is accounted for: a flag, an option with its value, or an argument.\<close>

lemma reads_count: "reads spec i args fs os ps \<Longrightarrow> length args = length fs + 2 * length os + length ps"
  by (induction rule: reads.induct) auto

lemma reads_flags:
  "reads spec i args fs os ps \<Longrightarrow> f \<in> set fs \<Longrightarrow>
     f \<in> set args \<and> (\<exists>o'. dict_get (sp_allowed_options spec) f = Some o' \<and> opt_meta o' = MetaFlag)"
  by (induction rule: reads.induct) auto

lemma reads_opts:
  "reads spec i args fs os ps \<Longrightarrow> m \<in> set os \<Longrightarrow>
     mo_name m \<in> set args \<and> mo_value m \<in> set args \<and> accepts (mo_type m) (mo_value m)
     \<and> (\<exists>o'. dict_get (sp_allowed_options spec) (mo_name m) = Some o' \<and> opt_meta o' = MetaValue (mo_type m))"
  by (induction rule: reads.induct) auto

lemma reads_positional_at:
  "reads spec i args fs os ps \<Longrightarrow> p \<in> set ps \<Longrightarrow>
     i \<le> pos_index p \<and> pos_index p < i + length args \<and> args ! (pos_index p - i) = pos_value p
     \<and> \<not> starts_with (pos_value p) (lit ''-'')"
  by (induction rule: reads.induct) (auto simp: nth_Cons' )

lemma typed_args_in:
  "length ts = length ps \<Longrightarrow> m \<in> set (typed_args ts ps) \<Longrightarrow> args_accepted ts ps \<Longrightarrow>
     (\<exists>p \<in> set ps. ma_index m = pos_index p \<and> ma_value m = pos_value p) \<and> accepts (ma_type m) (ma_value m)"
  by (induction ts ps rule: list_induct2) auto

text \<open>
  C24: A specification answers a call exactly when the arguments can be read as its flags, its options
  with accepted values and positional arguments that its patterns accept, with every required
  option present; the answer is what was read, or the specification's prohibition of it.
\<close>

theorem spec_answers_what_it_reads:
  "program_spec_check spec call = Inr answer \<longleftrightarrow>
     (\<exists>fs os ps ts. reads spec 0 (call_args call) fs os ps
        \<and> pattern_types (sp_arg_patterns spec) (length ps) = Some ts \<and> args_accepted ts ps
        \<and> required_given spec os
        \<and> answer = spec_answer spec (spec_exec spec fs os (typed_args ts ps)))"
  by (rule spec_check_iff_lemma)

text \<open>
  A match accounts for every argument of the call: their number is that of the flags, two per
  option with value and one per positional argument; the flags and options are declared by the
  specification, the values have their declared types, a positional argument stands in the call at
  its recorded index, and no required option is missing.
\<close>

theorem match_accounts_for_every_argument:
  assumes "program_spec_check spec call = Inr (MatchExec e)"
  shows "length (call_args call) = length (ve_flags e) + 2 * length (ve_opts e) + length (ve_args e)
    \<and> (\<forall>f \<in> set (ve_flags e). \<exists>o'. dict_get (sp_allowed_options spec) f = Some o' \<and> opt_meta o' = MetaFlag)
    \<and> (\<forall>m \<in> set (ve_opts e). accepts (mo_type m) (mo_value m) \<and>
      (\<exists>o'. dict_get (sp_allowed_options spec) (mo_name m) = Some o' \<and> opt_meta o' = MetaValue (mo_type m)))
    \<and> (\<forall>m \<in> set (ve_args e). accepts (ma_type m) (ma_value m) \<and> ma_index m < length (call_args call)
      \<and> call_args call ! ma_index m = ma_value m)
    \<and> set (sp_required_options spec) \<subseteq> mo_name ` set (ve_opts e)"
proof -
  from assms obtain fs os ps ts where r: "reads spec 0 (call_args call) fs os ps"
    and p: "args_accepted ts ps" and q: "required_given spec os"
    and a: "MatchExec e = spec_answer spec (spec_exec spec fs os (typed_args ts ps))"
    unfolding spec_check_iff_lemma by blast
  then have e: "e = spec_exec spec fs os (typed_args ts ps)"
    by (auto simp: spec_answer_def split: option.splits)
  have l: "length ts = length ps" using p by (rule args_accepted_length)
  have "length (call_args call) = length (ve_flags e) + 2 * length (ve_opts e) + length (ve_args e)"
    using reads_count [OF r] by (simp add: e spec_exec_def l)
  moreover have "\<forall>f \<in> set (ve_flags e). \<exists>o'. dict_get (sp_allowed_options spec) f = Some o' \<and> opt_meta o' = MetaFlag"
    using reads_flags [OF r] by (simp add: e spec_exec_def)
  moreover have "\<forall>m \<in> set (ve_opts e). accepts (mo_type m) (mo_value m) \<and>
      (\<exists>o'. dict_get (sp_allowed_options spec) (mo_name m) = Some o' \<and> opt_meta o' = MetaValue (mo_type m))"
    using reads_opts [OF r] by (simp add: e spec_exec_def)
  moreover have "\<forall>m \<in> set (ve_args e). accepts (ma_type m) (ma_value m) \<and> ma_index m < length (call_args call)
      \<and> call_args call ! ma_index m = ma_value m"
    using reads_positional_at [OF r] typed_args_in [OF l _ p] by (fastforce simp: e spec_exec_def)
  moreover have "set (sp_required_options spec) \<subseteq> mo_name ` set (ve_opts e)"
    using q by (simp add: e spec_exec_def required_given_def)
  ultimately show ?thesis by blast
qed

definition head_spec :: program_spec where
  "head_spec = program_spec_new (lit ''head'') [lit ''/bin/head''] False False
     [(lit ''-n'', opt_value (lit ''-n'') MPositiveInteger False), (lit ''-q'', opt_flag (lit ''-q''))]
     [MReadableFiles] None [] []"

definition head_call :: exec_call where
  "head_call = \<lparr>call_program = lit ''head'', call_args = [lit ''-q'', lit ''-n'', lit ''5'', lit ''notes'']\<rparr>"

definition head_exec :: valid_exec where
  "head_exec = \<lparr>ve_program = lit ''head'', ve_flags = [lit ''-q''],
     ve_opts = [\<lparr>mo_name = lit ''-n'', mo_value = lit ''5'', mo_type = TPositiveInteger\<rparr>],
     ve_args = [\<lparr>ma_index = 3, ma_type = TReadableFile, ma_value = lit ''notes''\<rparr>],
     ve_system_path = [lit ''/bin/head'']\<rparr>"

lemma head_matches: "program_spec_check head_spec head_call = Inr (MatchExec head_exec)"
  by code_simp

lemma match_accounts_for_every_argument_witness:
  "length (call_args head_call) = length (ve_flags head_exec) + 2 * length (ve_opts head_exec) + length (ve_args head_exec)
    \<and> set (sp_required_options head_spec) \<subseteq> mo_name ` set (ve_opts head_exec)"
  using match_accounts_for_every_argument [OF head_matches] by blast

end
