(* ===== verification/LegacyJson.thy ===== *)
theory LegacyJson
  imports LegacyTypes
begin

text \<open>
  What \<open>pycodex/execpolicy_legacy\<close> reports as JSON: the \<open>to_mapping\<close> methods of argument types,
  matchers, options, calls, matches and errors. The report of an error determines the error.
\<close>

section \<open>Values\<close>

fun arg_type_to_mapping :: "arg_type \<Rightarrow> json" where
  "arg_type_to_mapping (TLiteral v) = tagged ''Literal'' [(''value'', JStr v)]"
| "arg_type_to_mapping TOpaqueNonFile = tagged ''OpaqueNonFile'' []"
| "arg_type_to_mapping TReadableFile = tagged ''ReadableFile'' []"
| "arg_type_to_mapping TWriteableFile = tagged ''WriteableFile'' []"
| "arg_type_to_mapping TPositiveInteger = tagged ''PositiveInteger'' []"
| "arg_type_to_mapping TSedCommand = tagged ''SedCommand'' []"
| "arg_type_to_mapping TUnknown = tagged ''Unknown'' []"

fun arg_matcher_to_mapping :: "arg_matcher \<Rightarrow> json" where
  "arg_matcher_to_mapping (MLiteral v) = tagged ''Literal'' [(''value'', JStr v)]"
| "arg_matcher_to_mapping MOpaqueNonFile = tagged ''OpaqueNonFile'' []"
| "arg_matcher_to_mapping MReadableFile = tagged ''ReadableFile'' []"
| "arg_matcher_to_mapping MWriteableFile = tagged ''WriteableFile'' []"
| "arg_matcher_to_mapping MReadableFiles = tagged ''ReadableFiles'' []"
| "arg_matcher_to_mapping MReadableFilesOrCwd = tagged ''ReadableFilesOrCwd'' []"
| "arg_matcher_to_mapping MPositiveInteger = tagged ''PositiveInteger'' []"
| "arg_matcher_to_mapping MSedCommand = tagged ''SedCommand'' []"
| "arg_matcher_to_mapping MUnverifiedVarargs = tagged ''UnverifiedVarargs'' []"

definition positional_arg_to_mapping :: "positional_arg \<Rightarrow> json" where
  "positional_arg_to_mapping a =
     jobj [(''index'', JInt (int (pos_index a))), (''value'', JStr (pos_value a))]"

definition exec_call_to_mapping :: "exec_call \<Rightarrow> json" where
  "exec_call_to_mapping c =
     jobj [(''program'', JStr (call_program c)), (''args'', JArr (map JStr (call_args c)))]"

fun opt_meta_to_mapping :: "opt_meta \<Rightarrow> json" where
  "opt_meta_to_mapping MetaFlag = tagged ''Flag'' []"
| "opt_meta_to_mapping (MetaValue t) = tagged ''Value'' [(''arg_type'', arg_type_to_mapping t)]"

definition opt_to_mapping :: "opt \<Rightarrow> json" where
  "opt_to_mapping o' = jobj [(''opt'', JStr (opt_name o')),
     (''meta'', opt_meta_to_mapping (opt_meta o')), (''required'', JBool (opt_required o'))]"

definition matched_arg_to_mapping :: "matched_arg \<Rightarrow> json" where
  "matched_arg_to_mapping a = jobj [(''index'', JInt (int (ma_index a))),
     (''type'', arg_type_to_mapping (ma_type a)), (''value'', JStr (ma_value a))]"

definition matched_opt_to_mapping :: "matched_opt \<Rightarrow> json" where
  "matched_opt_to_mapping o' = jobj [(''name'', JStr (mo_name o')), (''value'', JStr (mo_value o')),
     (''type'', arg_type_to_mapping (mo_type o'))]"

definition matched_flag_to_mapping :: "pystr \<Rightarrow> json" where
  "matched_flag_to_mapping name = jobj [(''name'', JStr name)]"

definition valid_exec_to_mapping :: "valid_exec \<Rightarrow> json" where
  "valid_exec_to_mapping e = jobj
     [(''program'', JStr (ve_program e)),
      (''flags'', JArr (map matched_flag_to_mapping (ve_flags e))),
      (''opts'', JArr (map matched_opt_to_mapping (ve_opts e))),
      (''args'', JArr (map matched_arg_to_mapping (ve_args e))),
      (''system_path'', JArr (map JStr (ve_system_path e)))]"

section \<open>Errors\<close>

definition json_path :: "pypath \<Rightarrow> json" where
  "json_path p = JStr (path_str p)"

fun error_to_mapping :: "legacy_error \<Rightarrow> json" where
  "error_to_mapping (LiteralValueDidNotMatch expected actual) =
     tagged ''LiteralValueDidNotMatch'' [(''expected'', JStr expected), (''actual'', JStr actual)]"
| "error_to_mapping EmptyFileName = tagged ''EmptyFileName'' []"
| "error_to_mapping (InvalidPositiveInteger value) =
     tagged ''InvalidPositiveInteger'' [(''value'', JStr value)]"
| "error_to_mapping (SedCommandNotProvablySafe command) =
     tagged ''SedCommandNotProvablySafe'' [(''command'', JStr command)]"
| "error_to_mapping (UnexpectedArguments program args) =
     tagged ''UnexpectedArguments'' [(''program'', JStr program),
       (''args'', JArr (map positional_arg_to_mapping args))]"
| "error_to_mapping (MultipleVarargPatterns program first second) =
     tagged ''MultipleVarargPatterns'' [(''program'', JStr program),
       (''first'', arg_matcher_to_mapping first), (''second'', arg_matcher_to_mapping second)]"
| "error_to_mapping (RangeStartExceedsEnd start stop) =
     tagged ''RangeStartExceedsEnd'' [(''start'', JInt (int start)), (''end'', JInt (int stop))]"
| "error_to_mapping (RangeEndOutOfBounds stop len) =
     tagged ''RangeEndOutOfBounds'' [(''end'', JInt (int stop)), (''len'', JInt (int len))]"
| "error_to_mapping PrefixOverlapsSuffix = tagged ''PrefixOverlapsSuffix'' []"
| "error_to_mapping (NotEnoughArgs program args patterns) =
     tagged ''NotEnoughArgs'' [(''program'', JStr program),
       (''args'', JArr (map positional_arg_to_mapping args)),
       (''arg_patterns'', JArr (map arg_matcher_to_mapping patterns))]"
| "error_to_mapping (InternalInvariantViolation message) =
     tagged ''InternalInvariantViolation'' [(''message'', JStr message)]"
| "error_to_mapping (VarargMatcherDidNotMatchAnything program matcher) =
     tagged ''VarargMatcherDidNotMatchAnything'' [(''program'', JStr program),
       (''matcher'', arg_matcher_to_mapping matcher)]"
| "error_to_mapping (OptionMissingValue program option) =
     tagged ''OptionMissingValue'' [(''program'', JStr program), (''option'', JStr option)]"
| "error_to_mapping (OptionFollowedByOptionInsteadOfValue program option value) =
     tagged ''OptionFollowedByOptionInsteadOfValue'' [(''program'', JStr program),
       (''option'', JStr option), (''value'', JStr value)]"
| "error_to_mapping (UnknownOption program option) =
     tagged ''UnknownOption'' [(''program'', JStr program), (''option'', JStr option)]"
| "error_to_mapping (DoubleDashNotSupportedYet program) =
     tagged ''DoubleDashNotSupportedYet'' [(''program'', JStr program)]"
| "error_to_mapping (MissingRequiredOptions program options) =
     tagged ''MissingRequiredOptions'' [(''program'', JStr program),
       (''options'', JArr (map JStr options))]"
| "error_to_mapping (NoSpecForProgram program) =
     tagged ''NoSpecForProgram'' [(''program'', JStr program)]"
| "error_to_mapping (ReadablePathNotInReadableFolders file folders) =
     tagged ''ReadablePathNotInReadableFolders'' [(''file'', json_path file),
       (''folders'', JArr (map json_path folders))]"
| "error_to_mapping (WriteablePathNotInWriteableFolders file folders) =
     tagged ''WriteablePathNotInWriteableFolders'' [(''file'', json_path file),
       (''folders'', JArr (map json_path folders))]"
| "error_to_mapping (CannotCheckRelativePath file) =
     tagged ''CannotCheckRelativePath'' [(''file'', json_path file)]"
| "error_to_mapping (CannotCanonicalizePath file err) =
     tagged ''CannotCanonicalizePath'' [(''file'', JStr file), (''error'', JStr err)]"

section \<open>Reports determine what is reported\<close>

named_theorems report_inj "reports determine what they report"

lemma arg_type_to_mapping_inj [report_inj]: "arg_type_to_mapping a = arg_type_to_mapping b \<longleftrightarrow> a = b"
  by (cases a; cases b) simp_all

lemma arg_matcher_to_mapping_inj [report_inj]:
  "arg_matcher_to_mapping a = arg_matcher_to_mapping b \<longleftrightarrow> a = b"
  by (cases a; cases b) simp_all

lemma positional_arg_to_mapping_inj [report_inj]:
  "positional_arg_to_mapping a = positional_arg_to_mapping b \<longleftrightarrow> a = b"
  by (auto simp: positional_arg_to_mapping_def jobj_inject)

lemma map_report_inj [report_inj]:
  "map positional_arg_to_mapping xs = map positional_arg_to_mapping ys \<longleftrightarrow> xs = ys"
  "map arg_matcher_to_mapping ms = map arg_matcher_to_mapping ns \<longleftrightarrow> ms = ns"
  "map JStr ss = map JStr ts \<longleftrightarrow> ss = ts"
  by (rule inj_map_eq_map, simp add: inj_def report_inj)+

fun error_paths :: "legacy_error \<Rightarrow> pypath set" where
  "error_paths (ReadablePathNotInReadableFolders file folders) = insert file (set folders)"
| "error_paths (WriteablePathNotInWriteableFolders file folders) = insert file (set folders)"
| "error_paths (CannotCheckRelativePath file) = {file}"
| "error_paths e = {}"

lemma json_path_inj: "wf_path p \<Longrightarrow> wf_path q \<Longrightarrow> json_path p = json_path q \<longleftrightarrow> p = q"
  unfolding json_path_def by (metis json.inject(4) path_of_str)

lemma json_paths_inj:
  "(\<forall>p \<in> set ps. wf_path p) \<Longrightarrow> (\<forall>q \<in> set qs. wf_path q) \<Longrightarrow>
     map json_path ps = map json_path qs \<longleftrightarrow> ps = qs"
  by (rule inj_on_map_eq_map) (auto simp: inj_on_def json_path_inj)

text \<open>
  The JSON an error is reported as determines the error: no two different errors, with paths as
  \<open>pathlib\<close> makes them, have the same report.
\<close>

theorem error_report_determines_error:
  assumes "\<forall>p \<in> error_paths a \<union> error_paths b. wf_path p"
    and "error_to_mapping a = error_to_mapping b"
  shows "a = b"
  using assms by (cases a; cases b) (simp_all add: report_inj json_path_inj json_paths_inj)

lemma error_report_determines_error_witness:
  "error_to_mapping (CannotCheckRelativePath (PyPath [] [[97]]))
     \<noteq> error_to_mapping (CannotCheckRelativePath (PyPath [] [[98]]))"
  using error_report_determines_error [of "CannotCheckRelativePath (PyPath [] [[97]])"
      "CannotCheckRelativePath (PyPath [] [[98]])"]
  by (auto simp: wf_path_def path_component_def)

end
