(* ===== verification/LegacyPolicy.thy ===== *)
theory LegacyPolicy
  imports LegacyProgram LegacyJson
begin

text \<open>
  The policy of \<open>pycodex/execpolicy_legacy\<close>: \<open>policy.py\<close> (which specification answers a call),
  the builder of \<open>policy_parser.py\<close>, the folder check of \<open>execv_checker.py\<close> and the command line
  of \<open>main.py\<close>. Compiled program regexes are their \<open>search\<close> functions; the file system is a
  parameter; evaluating a policy file is a parameter, the functions it may call are modelled.
\<close>

section \<open>The policy\<close>

record forbidden_program_regex =
  fr_search :: "pystr \<Rightarrow> bool"
  fr_reason :: pystr

record legacy_policy =
  lp_programs :: "(pystr, program_spec list) pydict"
  lp_forbidden_program_regexes :: "forbidden_program_regex list"
  lp_forbidden_substrings_pattern :: "pystr list option"

definition legacy_policy_new ::
  "(pystr, program_spec list) pydict \<Rightarrow> forbidden_program_regex list \<Rightarrow> pystr list \<Rightarrow> legacy_policy"
where
  "legacy_policy_new programs regexes forbidden_substrings =
     \<lparr>lp_programs = programs, lp_forbidden_program_regexes = regexes,
      lp_forbidden_substrings_pattern =
        (if forbidden_substrings = [] then None else Some forbidden_substrings)\<rparr>"

text \<open>\<open>search\<close> of the alternation of the escaped substrings.\<close>

definition substring_search :: "pystr list \<Rightarrow> pystr \<Rightarrow> bool" where
  "substring_search items s = list_ex (\<lambda>item. str_find s item \<noteq> None) items"

fun first_matching_spec ::
  "legacy_error \<Rightarrow> program_spec list \<Rightarrow> exec_call \<Rightarrow> (legacy_error, matched_exec) result" where
  "first_matching_spec last_error [] call = Inl last_error"
| "first_matching_spec last_error (spec # specs) call =
     (case program_spec_check spec call of
        Inr answer \<Rightarrow> Inr answer
      | Inl err \<Rightarrow> first_matching_spec err specs call)"

definition legacy_policy_check ::
  "legacy_policy \<Rightarrow> exec_call \<Rightarrow> (legacy_error, matched_exec) result" where
  "legacy_policy_check policy call =
     (let program = call_program call in
      case find (\<lambda>r. fr_search r program) (lp_forbidden_program_regexes policy) of
        Some r \<Rightarrow> Inr (MatchForbidden (ForbiddenProgram program call) (fr_reason r))
      | None \<Rightarrow>
          (case (case lp_forbidden_substrings_pattern policy of
                   None \<Rightarrow> None
                 | Some items \<Rightarrow> find (substring_search items) (call_args call)) of
             Some arg \<Rightarrow> Inr (MatchForbidden (ForbiddenArg arg call)
               (lit ''arg `'' @ arg @ lit ''` contains forbidden substring''))
           | None \<Rightarrow>
               first_matching_spec (NoSpecForProgram program)
                 (case dict_get (lp_programs policy) program of None \<Rightarrow> [] | Some specs \<Rightarrow> specs)
                 call))"

definition check_each_good_list_individually :: "legacy_policy \<Rightarrow> positive_example_failed list" where
  "check_each_good_list_individually policy =
     concat (map verify_should_match_list (concat (map snd (lp_programs policy))))"

definition check_each_bad_list_individually :: "legacy_policy \<Rightarrow> negative_example_passed list" where
  "check_each_bad_list_individually policy =
     concat (map verify_should_not_match_list (concat (map snd (lp_programs policy))))"

section \<open>Building a policy\<close>

datatype policy_exn = DuplicateFlag pystr | CannotUnpackArg policy_value | CannotUnpackOption policy_value

record policy_builder =
  pb_programs :: "(pystr, program_spec list) pydict"
  pb_forbidden_program_regexes :: "forbidden_program_regex list"
  pb_forbidden_substrings :: "pystr list"

definition policy_builder_new :: policy_builder where
  "policy_builder_new = \<lparr>pb_programs = [], pb_forbidden_program_regexes = [], pb_forbidden_substrings = []\<rparr>"

definition add_program_spec :: "program_spec \<Rightarrow> policy_builder \<Rightarrow> policy_builder" where
  "add_program_spec spec b =
     b\<lparr>pb_programs := dict_set (sp_program spec)
         ((case dict_get (pb_programs b) (sp_program spec) of None \<Rightarrow> [] | Some specs \<Rightarrow> specs) @ [spec])
         (pb_programs b)\<rparr>"

definition add_forbidden_substrings :: "pystr list \<Rightarrow> policy_builder \<Rightarrow> policy_builder" where
  "add_forbidden_substrings substrings b =
     b\<lparr>pb_forbidden_substrings := pb_forbidden_substrings b @ substrings\<rparr>"

definition add_forbidden_program_regex :: "forbidden_program_regex \<Rightarrow> policy_builder \<Rightarrow> policy_builder" where
  "add_forbidden_program_regex r b =
     b\<lparr>pb_forbidden_program_regexes := pb_forbidden_program_regexes b @ [r]\<rparr>"

definition policy_builder_build :: "policy_builder \<Rightarrow> legacy_policy" where
  "policy_builder_build b =
     legacy_policy_new (pb_programs b) (pb_forbidden_program_regexes b) (pb_forbidden_substrings b)"

text \<open>The arguments of \<open>define_program\<close> in a policy file; \<open>None\<close> where one is omitted.\<close>

record program_definition =
  pd_program :: pystr
  pd_system_path :: "pystr list option"
  pd_option_bundling :: "bool option"
  pd_combined_format :: "bool option"
  pd_options :: "opt list option"
  pd_args :: "policy_value list option"
  pd_forbidden :: "pystr option"
  pd_should_match :: "pystr list list option"
  pd_should_not_match :: "pystr list list option"

definition or_nil :: "'a list option \<Rightarrow> 'a list" where
  "or_nil x = (case x of None \<Rightarrow> [] | Some xs \<Rightarrow> xs)"

fun allow_options :: "(pystr, opt) pydict \<Rightarrow> opt list \<Rightarrow> (policy_exn, (pystr, opt) pydict) result" where
  "allow_options allowed [] = Inr allowed"
| "allow_options allowed (o' # os) =
     (if dict_get allowed (opt_name o') \<noteq> None then Inl (DuplicateFlag (opt_name o'))
      else allow_options (dict_set (opt_name o') o' allowed) os)"

definition unpack_arg :: "policy_value \<Rightarrow> (policy_exn, arg_matcher) result" where
  "unpack_arg v = (case unpack_value v of None \<Rightarrow> Inl (CannotUnpackArg v) | Some m \<Rightarrow> Inr m)"

definition spec_of_definition :: "program_definition \<Rightarrow> (policy_exn, program_spec) result" where
  "spec_of_definition d =
     bindE (allow_options [] (or_nil (pd_options d))) (\<lambda>allowed.
     bindE (mapE unpack_arg (or_nil (pd_args d))) (\<lambda>arg_patterns.
       Inr (program_spec_new (pd_program d) (or_nil (pd_system_path d))
         (pd_option_bundling d = Some True) (pd_combined_format d = Some True)
         allowed arg_patterns (pd_forbidden d) (or_nil (pd_should_match d))
         (or_nil (pd_should_not_match d)))))"

definition define_program ::
  "program_definition \<Rightarrow> policy_builder \<Rightarrow> (policy_exn, policy_builder) result" where
  "define_program d b = bindE (spec_of_definition d) (\<lambda>spec. Inr (add_program_spec spec b))"

definition policy_opt :: "pystr \<Rightarrow> policy_value \<Rightarrow> bool option \<Rightarrow> (policy_exn, opt) result" where
  "policy_opt name type required =
     (case unpack_value type of
        None \<Rightarrow> Inl (CannotUnpackOption type)
      | Some m \<Rightarrow> Inr (opt_value name m (required = Some True)))"

text \<open>The statements a policy file can execute, in its order.\<close>

datatype policy_statement =
    DefineProgram program_definition
  | ForbidSubstrings "pystr list"
  | ForbidProgramRegex "pystr \<Rightarrow> bool" pystr

fun run_policy :: "policy_builder \<Rightarrow> policy_statement list \<Rightarrow> (policy_exn, policy_builder) result" where
  "run_policy b [] = Inr b"
| "run_policy b (DefineProgram d # rest) = bindE (define_program d b) (\<lambda>b'. run_policy b' rest)"
| "run_policy b (ForbidSubstrings strings # rest) = run_policy (add_forbidden_substrings strings b) rest"
| "run_policy b (ForbidProgramRegex search reason # rest) =
     run_policy (add_forbidden_program_regex \<lparr>fr_search = search, fr_reason = reason\<rparr> b) rest"

definition policy_parse :: "policy_statement list \<Rightarrow> (policy_exn, legacy_policy) result" where
  "policy_parse statements =
     bindE (run_policy policy_builder_new statements) (\<lambda>b. Inr (policy_builder_build b))"

section \<open>Folders\<close>

record exec_host =
  eh_resolve :: "pypath \<Rightarrow> (pystr, pypath) result"
  eh_is_file :: "pypath \<Rightarrow> bool"
  eh_nt :: bool
  eh_access_x :: "pypath \<Rightarrow> bool"

definition ensure_absolute_path ::
  "exec_host \<Rightarrow> pystr \<Rightarrow> pypath option \<Rightarrow> (legacy_error, pypath) result" where
  "ensure_absolute_path h path cwd =
     (let file = path_of path;
          resolve = (\<lambda>f. case eh_resolve h f of
            Inl cls \<Rightarrow> Inl (CannotCanonicalizePath path cls) | Inr r \<Rightarrow> Inr r)
      in if path_is_absolute file then resolve file
         else (case cwd of
                 None \<Rightarrow> Inl (CannotCheckRelativePath file)
               | Some c \<Rightarrow> resolve (path_join c file)))"

definition check_path_in_folders ::
  "pypath \<Rightarrow> pypath list \<Rightarrow> (pypath \<Rightarrow> pypath list \<Rightarrow> legacy_error) \<Rightarrow> (legacy_error, unit) result"
where
  "check_path_in_folders file folders error_type =
     (if list_ex (path_is_relative_to file) folders then Inr () else Inl (error_type file folders))"

definition is_executable_file :: "exec_host \<Rightarrow> pystr \<Rightarrow> bool" where
  "is_executable_file h path =
     (let file = path_of path in
      if \<not> eh_is_file h file then False else if eh_nt h then True else eh_access_x h file)"

definition check_value ::
  "exec_host \<Rightarrow> pypath option \<Rightarrow> pypath list \<Rightarrow> pypath list \<Rightarrow> arg_type \<times> pystr
     \<Rightarrow> (legacy_error, unit) result" where
  "check_value h cwd readable writeable tv =
     (case tv of
        (TReadableFile, v) \<Rightarrow> bindE (ensure_absolute_path h v cwd)
          (\<lambda>f. check_path_in_folders f readable ReadablePathNotInReadableFolders)
      | (TWriteableFile, v) \<Rightarrow> bindE (ensure_absolute_path h v cwd)
          (\<lambda>f. check_path_in_folders f writeable WriteablePathNotInWriteableFolders)
      | _ \<Rightarrow> Inr ())"

definition typed_values :: "valid_exec \<Rightarrow> (arg_type \<times> pystr) list" where
  "typed_values e = map (\<lambda>a. (ma_type a, ma_value a)) (ve_args e)
     @ map (\<lambda>o'. (mo_type o', mo_value o')) (ve_opts e)"

definition execv_check ::
  "exec_host \<Rightarrow> valid_exec \<Rightarrow> pypath option \<Rightarrow> pypath list \<Rightarrow> pypath list
     \<Rightarrow> (legacy_error, pystr) result" where
  "execv_check h e cwd readable writeable =
     bindE (mapE (check_value h cwd readable writeable) (typed_values e)) (\<lambda>_.
       Inr (case find (is_executable_file h) (ve_system_path e) of
              Some system_path \<Rightarrow> system_path | None \<Rightarrow> ve_program e))"

section \<open>The command line\<close>

fun arg_type_to_rust_json :: "arg_type \<Rightarrow> json" where
  "arg_type_to_rust_json (TLiteral v) = jobj [(''Literal'', JStr v)]"
| "arg_type_to_rust_json TOpaqueNonFile = jstr ''OpaqueNonFile''"
| "arg_type_to_rust_json TReadableFile = jstr ''ReadableFile''"
| "arg_type_to_rust_json TWriteableFile = jstr ''WriteableFile''"
| "arg_type_to_rust_json TPositiveInteger = jstr ''PositiveInteger''"
| "arg_type_to_rust_json TSedCommand = jstr ''SedCommand''"
| "arg_type_to_rust_json TUnknown = jstr ''Unknown''"

definition valid_exec_to_rust_json :: "valid_exec \<Rightarrow> json" where
  "valid_exec_to_rust_json e = jobj
     [(''program'', JStr (ve_program e)),
      (''flags'', JArr (map (\<lambda>f. jobj [(''name'', JStr f)]) (ve_flags e))),
      (''opts'', JArr (map (\<lambda>o'. jobj [(''name'', JStr (mo_name o')), (''value'', JStr (mo_value o')),
          (''type'', arg_type_to_rust_json (mo_type o'))]) (ve_opts e))),
      (''args'', JArr (map (\<lambda>a. jobj [(''index'', JInt (int (ma_index a))),
          (''type'', arg_type_to_rust_json (ma_type a)), (''value'', JStr (ma_value a))]) (ve_args e))),
      (''system_path'', JArr (map JStr (ve_system_path e)))]"

definition exec_call_to_rust_json :: "exec_call \<Rightarrow> json" where
  "exec_call_to_rust_json c =
     jobj [(''program'', JStr (call_program c)), (''args'', JArr (map JStr (call_args c)))]"

fun forbidden_to_rust_json :: "forbidden_cause \<Rightarrow> json" where
  "forbidden_to_rust_json (ForbiddenProgram program call) =
     jobj [(''Program'', jobj [(''program'', JStr program), (''exec_call'', exec_call_to_rust_json call)])]"
| "forbidden_to_rust_json (ForbiddenArg arg call) =
     jobj [(''Arg'', jobj [(''arg'', JStr arg), (''exec_call'', exec_call_to_rust_json call)])]"
| "forbidden_to_rust_json (ForbiddenExec e) =
     jobj [(''Exec'', jobj [(''exec'', valid_exec_to_rust_json e)])]"

definition check_command :: "legacy_policy \<Rightarrow> exec_call \<Rightarrow> bool \<Rightarrow> json \<times> int" where
  "check_command policy call require_safe =
     (case legacy_policy_check policy call of
        Inl err \<Rightarrow>
          (jobj [(''result'', jstr ''unverified''), (''error'', error_to_mapping err)],
           if require_safe then 13 else 0)
      | Inr (MatchExec e) \<Rightarrow>
          if might_write_files e then
            (jobj [(''result'', jstr ''match''), (''match'', valid_exec_to_rust_json e)],
             if require_safe then 12 else 0)
          else (jobj [(''result'', jstr ''safe''), (''match'', valid_exec_to_rust_json e)], 0)
      | Inr (MatchForbidden cause reason) \<Rightarrow>
          (jobj [(''result'', jstr ''forbidden''), (''reason'', JStr reason),
             (''cause'', forbidden_to_rust_json cause)],
           if require_safe then 14 else 0))"

datatype cli_exn = CliValueError pystr | CliTypeError pystr | CliOther pystr

text \<open>What a run prints on standard output (a JSON document) or standard error, and its exit code.\<close>

record cli_outcome =
  cli_out :: "json option"
  cli_err :: "pystr option"
  cli_code :: int

fun json_strings :: "json list \<Rightarrow> pystr list option" where
  "json_strings [] = Some []"
| "json_strings (JStr s # js) = map_option ((#) s) (json_strings js)"
| "json_strings (j # js) = None"

definition exec_arg_from_json :: "json \<Rightarrow> (cli_exn, exec_call) result" where
  "exec_arg_from_json decoded =
     (case decoded of
        JObj _ \<Rightarrow>
          (case json_get decoded ''program'' of
             Some (JStr program) \<Rightarrow>
               (case json_get decoded ''args'' of
                  None \<Rightarrow> Inr \<lparr>call_program = program, call_args = []\<rparr>
                | Some (JArr args) \<Rightarrow>
                    (case json_strings args of
                       Some ss \<Rightarrow> Inr \<lparr>call_program = program, call_args = ss\<rparr>
                     | None \<Rightarrow> Inl (CliTypeError (lit ''exec.args must be a list of strings'')))
                | Some _ \<Rightarrow> Inl (CliTypeError (lit ''exec.args must be a list of strings'')))
           | _ \<Rightarrow> Inl (CliTypeError (lit ''exec.program must be a string'')))
      | _ \<Rightarrow> Inl (CliTypeError (lit ''exec JSON must decode to an object'')))"

fun cli_options ::
  "pystr list \<Rightarrow> bool \<Rightarrow> pypath option \<Rightarrow> (cli_exn, pystr list \<times> bool \<times> pypath option) result" where
  "cli_options [] require_safe policy_path = Inr ([], require_safe, policy_path)"
| "cli_options (arg # args) require_safe policy_path =
     (if arg = lit ''--require-safe'' then cli_options args True policy_path
      else if arg = lit ''--policy'' \<or> arg = lit ''-p'' then
        (case args of
           [] \<Rightarrow> Inl (CliValueError (arg @ lit '' requires a path''))
         | path # rest \<Rightarrow> cli_options rest require_safe (Some (path_of path)))
      else Inr (arg # args, require_safe, policy_path))"

definition cli_command ::
  "(pystr \<Rightarrow> (cli_exn, json) result) \<Rightarrow> pystr list \<Rightarrow> (cli_exn, exec_call option) result" where
  "cli_command json_loads args =
     (case args of
        [] \<Rightarrow> Inr None
      | command # rest \<Rightarrow>
          if command = lit ''check'' then
            (case rest of
               [] \<Rightarrow> Inr None
             | program # pargs \<Rightarrow> Inr (Some \<lparr>call_program = program, call_args = pargs\<rparr>))
          else if command = lit ''check-json'' then
            (case rest of
               [text] \<Rightarrow> bindE (json_loads text) (\<lambda>j. bindE (exec_arg_from_json j) (\<lambda>c. Inr (Some c)))
             | _ \<Rightarrow> Inl (CliValueError (lit ''check-json requires one JSON argument'')))
          else Inl (CliValueError (lit ''unknown command: '' @ command)))"

definition run_main ::
  "(pystr \<Rightarrow> (cli_exn, json) result) \<Rightarrow> (pypath option \<Rightarrow> (cli_exn, legacy_policy) result)
     \<Rightarrow> pystr list \<Rightarrow> (cli_exn, cli_outcome) result" where
  "run_main json_loads load_policy argv =
     bindE (cli_options argv False None) (\<lambda>(args, require_safe, policy_path).
     bindE (cli_command json_loads args) (\<lambda>command.
     case command of
       None \<Rightarrow> Inr \<lparr>cli_out = None, cli_err = Some (lit ''no command provided''), cli_code = 1\<rparr>
     | Some call \<Rightarrow>
         bindE (load_policy policy_path) (\<lambda>policy.
         let (output, exit_code) = check_command policy call require_safe in
         Inr \<lparr>cli_out = Some output, cli_err = None, cli_code = exit_code\<rparr>)))"

section \<open>Which specification answers\<close>

definition specs_for :: "legacy_policy \<Rightarrow> pystr \<Rightarrow> program_spec list" where
  "specs_for policy program = or_nil (dict_get (lp_programs policy) program)"

definition forbidden_outright :: "legacy_policy \<Rightarrow> exec_call \<Rightarrow> bool" where
  "forbidden_outright policy call \<longleftrightarrow>
     (\<exists>r \<in> set (lp_forbidden_program_regexes policy). fr_search r (call_program call))
     \<or> (\<exists>items. lp_forbidden_substrings_pattern policy = Some items
          \<and> (\<exists>arg \<in> set (call_args call). substring_search items arg))"

lemma first_matching_spec_Inr:
  "first_matching_spec err specs call = Inr answer \<longleftrightarrow>
     (\<exists>pre spec post. specs = pre @ spec # post \<and> program_spec_check spec call = Inr answer
        \<and> (\<forall>s \<in> set pre. \<exists>e. program_spec_check s call = Inl e))"
proof (induction specs arbitrary: err)
  case (Cons s specs)
  show ?case
  proof (cases "program_spec_check s call")
    case (Inl e)
    then have "first_matching_spec err (s # specs) call = first_matching_spec e specs call" by simp
    also have "first_matching_spec e specs call = Inr answer \<longleftrightarrow>
        (\<exists>pre spec post. specs = pre @ spec # post \<and> program_spec_check spec call = Inr answer
          \<and> (\<forall>s \<in> set pre. \<exists>e. program_spec_check s call = Inl e))" by (rule Cons.IH)
    also have "\<dots> \<longleftrightarrow>
        (\<exists>pre spec post. s # specs = pre @ spec # post \<and> program_spec_check spec call = Inr answer
          \<and> (\<forall>s \<in> set pre. \<exists>e. program_spec_check s call = Inl e))" (is "?A \<longleftrightarrow> ?B")
    proof
      assume ?A
      then obtain pre spec post where "specs = pre @ spec # post" "program_spec_check spec call = Inr answer"
        "\<forall>s \<in> set pre. \<exists>e. program_spec_check s call = Inl e" by blast
      with Inl show ?B by (intro exI [of _ "s # pre"] exI [of _ spec] exI [of _ post]) auto
    next
      assume ?B
      then obtain pre spec post where b: "s # specs = pre @ spec # post"
        "program_spec_check spec call = Inr answer"
        "\<forall>s \<in> set pre. \<exists>e. program_spec_check s call = Inl e" by blast
      with Inl obtain pre' where "pre = s # pre'" by (cases pre) auto
      with b show ?A by auto
    qed
    finally show ?thesis .
  next
    case (Inr a)
    have "(\<exists>pre spec post. s # specs = pre @ spec # post \<and> program_spec_check spec call = Inr answer
          \<and> (\<forall>s \<in> set pre. \<exists>e. program_spec_check s call = Inl e)) \<longleftrightarrow> a = answer" (is "?B \<longleftrightarrow> _")
    proof
      assume ?B
      then obtain pre spec post where b: "s # specs = pre @ spec # post"
        "program_spec_check spec call = Inr answer"
        "\<forall>s \<in> set pre. \<exists>e. program_spec_check s call = Inl e" by blast
      with Inr show "a = answer" by (cases pre) auto
    next
      assume "a = answer"
      with Inr show ?B by (intro exI [of _ "[]"] exI [of _ s] exI [of _ specs]) simp
    qed
    with Inr show ?thesis by simp
  qed
qed simp

lemma first_matching_spec_Inl:
  "first_matching_spec err specs call = Inl err' \<longleftrightarrow>
     (\<forall>s \<in> set specs. \<exists>e. program_spec_check s call = Inl e)
     \<and> (if specs = [] then err' = err else program_spec_check (last specs) call = Inl err')"
  by (induction specs arbitrary: err) (auto split: sum.splits)

lemma legacy_policy_check_not_forbidden:
  "\<not> forbidden_outright policy call \<Longrightarrow> legacy_policy_check policy call =
     first_matching_spec (NoSpecForProgram (call_program call)) (specs_for policy (call_program call)) call"
  by (auto simp: legacy_policy_check_def forbidden_outright_def specs_for_def or_nil_def Let_def
      find_None_iff find_Some_iff split: option.splits)

lemma legacy_policy_check_forbidden:
  "forbidden_outright policy call \<Longrightarrow>
     \<exists>cause reason. legacy_policy_check policy call = Inr (MatchForbidden cause reason)"
  by (auto simp: legacy_policy_check_def forbidden_outright_def Let_def
      find_None_iff split: option.splits)

lemma policy_match_iff:
  "legacy_policy_check policy call = Inr (MatchExec e) \<longleftrightarrow>
     \<not> forbidden_outright policy call
     \<and> (\<exists>pre spec post. specs_for policy (call_program call) = pre @ spec # post
          \<and> program_spec_check spec call = Inr (MatchExec e)
          \<and> (\<forall>s \<in> set pre. \<exists>err. program_spec_check s call = Inl err))"
proof (cases "forbidden_outright policy call")
  case True
  then show ?thesis using legacy_policy_check_forbidden [OF True] by auto
qed (simp add: legacy_policy_check_not_forbidden first_matching_spec_Inr)

section \<open>The policy a file builds\<close>

fun definitions_of :: "policy_statement list \<Rightarrow> program_definition list" where
  "definitions_of [] = []"
| "definitions_of (DefineProgram d # rest) = d # definitions_of rest"
| "definitions_of (_ # rest) = definitions_of rest"

fun substrings_of :: "policy_statement list \<Rightarrow> pystr list" where
  "substrings_of [] = []"
| "substrings_of (ForbidSubstrings ss # rest) = ss @ substrings_of rest"
| "substrings_of (_ # rest) = substrings_of rest"

definition builder_specs :: "policy_builder \<Rightarrow> pystr \<Rightarrow> program_spec list" where
  "builder_specs b program = or_nil (dict_get (pb_programs b) program)"

lemma builder_specs_add:
  "builder_specs (add_program_spec spec b) program =
     builder_specs b program @ (if sp_program spec = program then [spec] else [])"
  by (auto simp: builder_specs_def add_program_spec_def or_nil_def split: option.splits)

lemma run_policy_specs:
  "run_policy b statements = Inr b' \<Longrightarrow>
     \<exists>specs. mapE spec_of_definition (definitions_of statements) = Inr specs
       \<and> (\<forall>program. builder_specs b' program =
            builder_specs b program @ filter (\<lambda>s. sp_program s = program) specs)
       \<and> pb_forbidden_substrings b' = pb_forbidden_substrings b @ substrings_of statements"
proof (induction b statements rule: run_policy.induct)
  case (2 b d rest)
  then obtain spec where spec: "spec_of_definition d = Inr spec"
    "run_policy (add_program_spec spec b) rest = Inr b'"
    by (auto simp: define_program_def bindE_eq_Inr)
  then have "define_program d b = Inr (add_program_spec spec b)" by (simp add: define_program_def)
  from "2.IH" [OF this spec(2)] obtain specs where
    "mapE spec_of_definition (definitions_of rest) = Inr specs"
    "\<forall>program. builder_specs b' program =
       builder_specs (add_program_spec spec b) program @ filter (\<lambda>s. sp_program s = program) specs"
    "pb_forbidden_substrings b' = pb_forbidden_substrings b @ substrings_of rest"
    by (auto simp: add_program_spec_def)
  with spec(1) show ?case by (simp add: builder_specs_add)
next
  case (3 b strings rest)
  then show ?case by (simp add: add_forbidden_substrings_def builder_specs_def)
next
  case (4 b search reason rest)
  then show ?case by (simp add: add_forbidden_program_regex_def builder_specs_def)
qed simp

text \<open>
  A parsed policy holds, for each program, exactly the specifications its file defines for that
  program, in the order of the file: no definition is lost, duplicated or moved to another program.
\<close>

theorem parsed_policy_holds_the_definitions:
  assumes "policy_parse statements = Inr policy"
  shows "\<exists>specs. mapE spec_of_definition (definitions_of statements) = Inr specs
    \<and> (\<forall>program. specs_for policy program = filter (\<lambda>s. sp_program s = program) specs)"
proof -
  from assms obtain b where b: "run_policy policy_builder_new statements = Inr b"
    and p: "policy = policy_builder_build b"
    by (auto simp: policy_parse_def bindE_eq_Inr)
  have "specs_for policy program = builder_specs b program" for program
    by (simp add: p specs_for_def builder_specs_def policy_builder_build_def legacy_policy_new_def)
  moreover have "builder_specs policy_builder_new program = []" for program
    by (simp add: builder_specs_def policy_builder_new_def dict_get_def or_nil_def)
  ultimately show ?thesis using run_policy_specs [OF b] by auto
qed

section \<open>Files stay inside the folders\<close>

definition resolved_file :: "exec_host \<Rightarrow> pystr \<Rightarrow> pypath option \<Rightarrow> pypath option" where
  "resolved_file h v cwd =
     (case ensure_absolute_path h v cwd of Inl _ \<Rightarrow> None | Inr f \<Rightarrow> Some f)"

definition inside :: "pypath option \<Rightarrow> pypath list \<Rightarrow> bool" where
  "inside f folders \<longleftrightarrow> (\<exists>file. f = Some file \<and> (\<exists>folder \<in> set folders. path_is_relative_to file folder))"

lemma check_value_Inr:
  "check_value h cwd readable writeable (t, v) = Inr u \<longleftrightarrow>
     (t = TReadableFile \<longrightarrow> inside (resolved_file h v cwd) readable)
     \<and> (t = TWriteableFile \<longrightarrow> inside (resolved_file h v cwd) writeable)"
  by (cases "ensure_absolute_path h v cwd"; cases t)
     (auto simp: check_value_def check_path_in_folders_def inside_def resolved_file_def list_ex_iff)

text \<open>
  The folder check accepts an execution exactly when every readable file argument or option value,
  resolved against the working directory, lies in a readable folder and every writeable one in a
  writeable folder; the program it then returns is the first executable system path, or the
  program's own name when there is none.
\<close>

theorem folder_check_accepts_iff_inside:
  "execv_check h e cwd readable writeable = Inr program \<longleftrightarrow>
     (\<forall>v. (TReadableFile, v) \<in> set (typed_values e) \<longrightarrow> inside (resolved_file h v cwd) readable)
     \<and> (\<forall>v. (TWriteableFile, v) \<in> set (typed_values e) \<longrightarrow> inside (resolved_file h v cwd) writeable)
     \<and> program = (case find (is_executable_file h) (ve_system_path e) of
          Some system_path \<Rightarrow> system_path | None \<Rightarrow> ve_program e)"
proof -
  have "(\<exists>us. mapE (check_value h cwd readable writeable) tvs = Inr us) \<longleftrightarrow>
      (\<forall>v. (TReadableFile, v) \<in> set tvs \<longrightarrow> inside (resolved_file h v cwd) readable)
      \<and> (\<forall>v. (TWriteableFile, v) \<in> set tvs \<longrightarrow> inside (resolved_file h v cwd) writeable)" for tvs
  proof (induction tvs)
    case (Cons tv tvs)
    then show ?case by (cases tv) (auto simp: bindE_eq_Inr check_value_Inr)
  qed simp
  then show ?thesis by (auto simp: execv_check_def bindE_eq_Inr)
qed

section \<open>Exit codes\<close>

text \<open>
  With \<open>--require-safe\<close> the exit code of \<open>check\<close> is zero exactly for a call that no program regex
  or forbidden substring rules out and that the first specification not failing on it matches,
  with no argument or option that might write a file; every other answer has another code.
\<close>

theorem require_safe_exit_code:
  assumes "load_policy None = Inr policy" "call = \<lparr>call_program = program, call_args = args\<rparr>"
  shows "\<exists>out. run_main json_loads load_policy
      (lit ''--require-safe'' # lit ''check'' # program # args) = Inr out
    \<and> (cli_code out = 0 \<longleftrightarrow> \<not> forbidden_outright policy call
        \<and> (\<exists>pre spec post e. specs_for policy program = pre @ spec # post
             \<and> (\<forall>s \<in> set pre. \<exists>err. program_spec_check s call = Inl err)
             \<and> program_spec_check spec call = Inr (MatchExec e) \<and> \<not> might_write_files e))"
proof -
  have "snd (check_command policy call True) = 0 \<longleftrightarrow>
      (\<exists>e. legacy_policy_check policy call = Inr (MatchExec e) \<and> \<not> might_write_files e)"
    by (auto simp: check_command_def split: sum.splits matched_exec.splits)
  moreover have "run_main json_loads load_policy (lit ''--require-safe'' # lit ''check'' # program # args) =
      Inr \<lparr>cli_out = Some (fst (check_command policy call True)), cli_err = None,
           cli_code = snd (check_command policy call True)\<rparr>"
    using assms by (simp add: run_main_def cli_command_def split: prod.split)
  ultimately show ?thesis
    using assms(2) by (auto simp: policy_match_iff)
qed

definition head_policy :: legacy_policy where
  "head_policy = legacy_policy_new [(lit ''head'', [head_spec])] [] [lit ''rm'']"

lemma head_allowed: "\<not> forbidden_outright head_policy head_call"
  by (simp add: forbidden_outright_def head_policy_def legacy_policy_new_def head_call_def
      substring_search_def starts_with_def)

lemma require_safe_exit_code_witness:
  "\<exists>out. run_main (\<lambda>_. Inl (CliOther [])) (\<lambda>_. Inr head_policy)
      (lit ''--require-safe'' # lit ''check'' # lit ''head'' # call_args head_call) = Inr out
    \<and> cli_code out = 0"
proof -
  have "specs_for head_policy (lit ''head'') = [] @ head_spec # []"
    by (simp add: specs_for_def head_policy_def legacy_policy_new_def dict_get_def or_nil_def)
  moreover have "\<not> might_write_files head_exec" by code_simp
  ultimately have "\<exists>pre spec post e. specs_for head_policy (lit ''head'') = pre @ spec # post
      \<and> (\<forall>s \<in> set pre. \<exists>err. program_spec_check s head_call = Inl err)
      \<and> program_spec_check spec head_call = Inr (MatchExec e) \<and> \<not> might_write_files e"
    using head_matches by (intro exI conjI) auto
  then show ?thesis
    using require_safe_exit_code [of "\<lambda>_. Inr head_policy" head_policy head_call "lit ''head''"
        "call_args head_call" "\<lambda>_. Inl (CliOther [])"] head_allowed
    by (auto simp: head_call_def simp del: lit.simps)
qed

definition head_definition :: program_definition where
  "head_definition = \<lparr>pd_program = lit ''head'', pd_system_path = None, pd_option_bundling = None,
     pd_combined_format = None, pd_options = None, pd_args = Some [PVMatcher MReadableFiles],
     pd_forbidden = None, pd_should_match = None, pd_should_not_match = None\<rparr>"

lemma parsed_policy_holds_the_definitions_witness:
  "\<exists>policy specs. policy_parse [DefineProgram head_definition] = Inr policy
    \<and> mapE spec_of_definition [head_definition] = Inr specs
    \<and> (\<forall>program. specs_for policy program = filter (\<lambda>s. sp_program s = program) specs)"
proof -
  have "\<exists>policy. policy_parse [DefineProgram head_definition] = Inr policy"
    by (simp add: policy_parse_def define_program_def spec_of_definition_def head_definition_def
        or_nil_def unpack_arg_def)
  then show ?thesis
    using parsed_policy_holds_the_definitions [of "[DefineProgram head_definition]"] by fastforce
qed

definition head_host :: exec_host where
  "head_host = \<lparr>eh_resolve = Inr, eh_is_file = (\<lambda>_. True), eh_nt = False, eh_access_x = (\<lambda>_. True)\<rparr>"

lemma folder_check_accepts_iff_inside_witness:
  "execv_check head_host head_exec (Some (PyPath [47] [[119]])) [PyPath [47] [[119]]] []
    = Inr (lit ''/bin/head'')"
  unfolding folder_check_accepts_iff_inside
  by (simp add: head_exec_def head_host_def typed_values_def resolved_file_def ensure_absolute_path_def
      inside_def is_executable_file_def path_of_def path_split_root_def path_is_absolute_def path_join_def
      path_is_relative_to_def starts_with_def)

end
