(* ===== verification/ExecPolicy.thy ===== *)
theory ExecPolicy
  imports PyPath PyDict
begin

text \<open>
  The exec policy of \<open>pycodex/execpolicy\<close>: decisions and their order (\<open>decision.py\<close>), prefix and
  network rules (\<open>rule.py\<close>), executable names (\<open>executable_name.py\<close>) and the policy that matches a
  command with them (\<open>policy.py\<close>, with the methods it installs at its end). Python's Unicode tables
  (\<open>str.lower\<close>, \<open>str.isdigit\<close>) and \<open>os.name\<close> are parameters.
\<close>

section \<open>Decisions\<close>

datatype decision = Allow | Prompt | Forbid

fun decision_rank :: "decision \<Rightarrow> nat" where
  "decision_rank Allow = 0"
| "decision_rank Prompt = 1"
| "decision_rank Forbid = 2"

lemma decision_rank_inj: "decision_rank a = decision_rank b \<longleftrightarrow> a = b"
  by (cases a; cases b) simp_all

instantiation decision :: linorder
begin

definition less_eq_decision :: "decision \<Rightarrow> decision \<Rightarrow> bool" where
  "a \<le> b \<longleftrightarrow> decision_rank a \<le> decision_rank b"

definition less_decision :: "decision \<Rightarrow> decision \<Rightarrow> bool" where
  "a < b \<longleftrightarrow> decision_rank a < decision_rank b"

instance
  by standard (auto simp: less_eq_decision_def less_decision_def decision_rank_inj)

end

lemma decision_bounds [simp]: "Allow \<le> d" "d \<le> Forbid" "Forbid \<le> d \<longleftrightarrow> d = Forbid"
  by (cases d; simp add: less_eq_decision_def)+

fun decision_value :: "decision \<Rightarrow> pystr" where
  "decision_value Allow = lit ''allow''"
| "decision_value Prompt = lit ''prompt''"
| "decision_value Forbid = lit ''forbidden''"

section \<open>Errors\<close>

datatype network_protocol = Http | Https | Socks5Tcp | Socks5Udp

datatype pattern_token = Single pystr | Alts "pystr list"

record prefix_rule =
  pr_first :: pystr
  pr_rest :: "pattern_token list"
  pr_decision :: decision
  pr_justification :: "pystr option"

datatype rule_match =
    PrefixRuleMatch "pystr list" decision "pystr option" "pystr option"
  | HeuristicsRuleMatch "pystr list" decision

datatype exec_policy_exn =
    InvalidDecisionError pystr
  | InvalidPatternError pystr
  | InvalidExampleError pystr
  | InvalidRuleError pystr
  | ExampleDidNotMatchError "prefix_rule list" "pystr list list"
  | ExampleDidMatchError rule_match "pystr list"
  | EpValueError pystr
  | EpNameError pystr

definition decision_parse :: "pystr \<Rightarrow> (exec_policy_exn, decision) result" where
  "decision_parse raw =
     (if raw = lit ''allow'' then Inr Allow
      else if raw = lit ''prompt'' then Inr Prompt
      else if raw = lit ''forbidden'' then Inr Forbid
      else Inl (InvalidDecisionError (lit ''invalid decision: '' @ raw)))"

definition invalid_rule :: "pystr \<Rightarrow> exec_policy_exn" where
  "invalid_rule msg = InvalidRuleError (lit ''invalid rule: '' @ msg)"

definition invalid_pattern :: "pystr \<Rightarrow> exec_policy_exn" where
  "invalid_pattern msg = InvalidPatternError (lit ''invalid pattern element: '' @ msg)"

definition invalid_example :: "pystr \<Rightarrow> exec_policy_exn" where
  "invalid_example msg = InvalidExampleError (lit ''invalid example: '' @ msg)"

section \<open>Rules\<close>

fun protocol_value :: "network_protocol \<Rightarrow> pystr" where
  "protocol_value Http = lit ''http''"
| "protocol_value Https = lit ''https''"
| "protocol_value Socks5Tcp = lit ''socks5_tcp''"
| "protocol_value Socks5Udp = lit ''socks5_udp''"

text \<open>
  An unknown protocol raises \<open>NameError\<close>: \<open>rule.py\<close> names \<open>AmendError\<close>, which it does not import.
\<close>

definition protocol_parse :: "pystr \<Rightarrow> (exec_policy_exn, network_protocol) result" where
  "protocol_parse raw =
     (let value = if raw = lit ''https_connect'' \<or> raw = lit ''http-connect'' then lit ''https'' else raw
      in case find (\<lambda>p. protocol_value p = value) [Http, Https, Socks5Tcp, Socks5Udp] of
           Some p \<Rightarrow> Inr p
         | None \<Rightarrow> Inl (EpNameError (lit ''name ''
             @ [39] @ lit ''AmendError'' @ [39] @ lit '' is not defined'')))"

record unicode =
  u_lower :: "pystr \<Rightarrow> pystr"
  u_isdigit :: "int \<Rightarrow> bool"

definition all_digits :: "unicode \<Rightarrow> pystr \<Rightarrow> bool" where
  "all_digits u s \<longleftrightarrow> s \<noteq> [] \<and> list_all (u_isdigit u) s"

definition rstrip_dots :: "pystr \<Rightarrow> pystr" where
  "rstrip_dots s = rev (dropWhile (\<lambda>c. c = 46) (rev s))"

text \<open>\<open>host.rsplit(":", 1)\<close> for a host with exactly one colon.\<close>

definition split_colon :: "pystr \<Rightarrow> pystr \<times> pystr" where
  "split_colon host = (takeWhile (\<lambda>c. c \<noteq> 58) host, drop 1 (dropWhile (\<lambda>c. c \<noteq> 58) host))"

definition strip_port :: "unicode \<Rightarrow> pystr \<Rightarrow> pystr \<Rightarrow> (exec_policy_exn, pystr) result" where
  "strip_port u raw host =
     (if starts_with host (lit ''['') then
        (case str_find host (lit '']'') of
           None \<Rightarrow> Inl (invalid_rule (lit ''network_rule host has an invalid bracketed IPv6 literal''))
         | Some close \<Rightarrow>
             let inside = take (close - 1) (drop 1 host); rest = drop (close + 1) host;
                 port_ok = starts_with rest (lit '':'') \<and> all_digits u (drop 1 rest)
             in if rest \<noteq> [] \<and> \<not> port_ok then
                  Inl (invalid_rule (lit ''network_rule host contains an unsupported suffix: '' @ raw))
                else Inr inside)
      else if length (filter (\<lambda>c. c = 58) host) = 1 then
        (case split_colon host of (candidate, port) \<Rightarrow>
           if candidate \<noteq> [] \<and> port \<noteq> [] \<and> all_digits u port then Inr candidate else Inr host)
      else Inr host)"

definition normalize_network_rule_host :: "unicode \<Rightarrow> pystr \<Rightarrow> (exec_policy_exn, pystr) result" where
  "normalize_network_rule_host u raw =
     (let host = strip raw in
      if host = [] then Inl (invalid_rule (lit ''network_rule host cannot be empty''))
      else if contains_str host (lit ''://'') \<or> 47 \<in> set host \<or> 63 \<in> set host \<or> 35 \<in> set host then
        Inl (invalid_rule (lit ''network_rule host must be a hostname or IP literal (without scheme or path)''))
      else bindE (strip_port u raw host) (\<lambda>host.
        let normalized = u_lower u (strip (rstrip_dots host)) in
        if normalized = [] then Inl (invalid_rule (lit ''network_rule host cannot be empty''))
        else if 42 \<in> set normalized then
          Inl (invalid_rule (lit ''network_rule host must be a specific host; wildcards are not allowed''))
        else if list_ex is_space normalized then
          Inl (invalid_rule (lit ''network_rule host cannot contain whitespace''))
        else Inr normalized))"

fun token_matches :: "pattern_token \<Rightarrow> pystr \<Rightarrow> bool" where
  "token_matches (Single v) token \<longleftrightarrow> token = v"
| "token_matches (Alts vs) token \<longleftrightarrow> token \<in> set vs"

fun token_alternatives :: "pattern_token \<Rightarrow> pystr list" where
  "token_alternatives (Single v) = [v]"
| "token_alternatives (Alts vs) = vs"

definition matches_prefix :: "prefix_rule \<Rightarrow> pystr list \<Rightarrow> pystr list option" where
  "matches_prefix rule cmd =
     (let pattern_length = length (pr_rest rule) + 1 in
      if length cmd < pattern_length \<or> hd cmd \<noteq> pr_first rule then None
      else if list_all (\<lambda>(p, t). token_matches p t)
                (zip (pr_rest rule) (drop 1 (take pattern_length cmd)))
      then Some (take pattern_length cmd) else None)"

definition prefix_rule_new ::
  "pattern_token list \<Rightarrow> pystr \<Rightarrow> pystr option \<Rightarrow> (exec_policy_exn, prefix_rule) result" where
  "prefix_rule_new tokens decision justification =
     (case tokens of
        [] \<Rightarrow> Inl (EpValueError (lit ''prefix rule pattern cannot be empty''))
      | Alts _ # _ \<Rightarrow> Inl (EpValueError (lit ''prefix rule first token must be a string''))
      | Single first # rest \<Rightarrow> bindE (decision_parse decision) (\<lambda>d.
          Inr \<lparr>pr_first = first, pr_rest = rest, pr_decision = d, pr_justification = justification\<rparr>))"

definition rule_matches :: "prefix_rule \<Rightarrow> pystr list \<Rightarrow> rule_match option" where
  "rule_matches rule cmd = map_option
     (\<lambda>p. PrefixRuleMatch p (pr_decision rule) None (pr_justification rule)) (matches_prefix rule cmd)"

fun match_decision :: "rule_match \<Rightarrow> decision" where
  "match_decision (PrefixRuleMatch p d r j) = d"
| "match_decision (HeuristicsRuleMatch c d) = d"

record network_rule =
  nr_host :: pystr
  nr_protocol :: network_protocol
  nr_decision :: decision
  nr_justification :: "pystr option"

section \<open>Executable names\<close>

record os_name =
  os_nt :: bool
  os_lower :: "pystr \<Rightarrow> pystr"

definition executable_lookup_key :: "os_name \<Rightarrow> pystr \<Rightarrow> pystr" where
  "executable_lookup_key os raw =
     (if os_nt os then
        let lowered = os_lower os raw in
        case find (ends_with lowered) [lit ''.exe'', lit ''.cmd'', lit ''.bat'', lit ''.com''] of
          Some ext \<Rightarrow> take (length lowered - length ext) lowered
        | None \<Rightarrow> lowered
      else raw)"

definition executable_path_lookup_key :: "os_name \<Rightarrow> pypath \<Rightarrow> pystr option" where
  "executable_path_lookup_key os path =
     (if path_name path = [] then None else Some (executable_lookup_key os (path_name path)))"

section \<open>The policy\<close>

record exec_policy =
  ep_rules_by_program :: "(pystr, prefix_rule list) pydict"
  ep_network_rules :: "network_rule list"
  ep_host_executables_by_name :: "(pystr, pystr list) pydict"

definition exec_policy_empty :: exec_policy where
  "exec_policy_empty =
     \<lparr>ep_rules_by_program = [], ep_network_rules = [], ep_host_executables_by_name = []\<rparr>"

definition rules_for :: "exec_policy \<Rightarrow> pystr \<Rightarrow> prefix_rule list" where
  "rules_for policy program =
     (case dict_get (ep_rules_by_program policy) program of None \<Rightarrow> [] | Some rules \<Rightarrow> rules)"

definition append_rule :: "prefix_rule \<Rightarrow> exec_policy \<Rightarrow> exec_policy" where
  "append_rule rule policy = policy\<lparr>ep_rules_by_program :=
     dict_set (pr_first rule) (rules_for policy (pr_first rule) @ [rule]) (ep_rules_by_program policy)\<rparr>"

definition add_prefix_rule ::
  "pystr list \<Rightarrow> pystr \<Rightarrow> exec_policy \<Rightarrow> (exec_policy_exn, exec_policy) result" where
  "add_prefix_rule prefix' decision policy =
     (case prefix' of
        [] \<Rightarrow> Inl (invalid_pattern (lit ''prefix cannot be empty''))
      | first # rest \<Rightarrow> bindE (decision_parse decision) (\<lambda>d.
          Inr (append_rule \<lparr>pr_first = first, pr_rest = map Single rest, pr_decision = d,
                 pr_justification = None\<rparr> policy)))"

definition add_network_rule ::
  "unicode \<Rightarrow> pystr \<Rightarrow> network_protocol \<Rightarrow> decision \<Rightarrow> pystr option \<Rightarrow> exec_policy
     \<Rightarrow> (exec_policy_exn, exec_policy) result" where
  "add_network_rule u host protocol decision justification policy =
     (if justification \<noteq> None \<and> strip (the justification) = [] then
        Inl (invalid_rule (lit ''justification cannot be empty''))
      else bindE (normalize_network_rule_host u host) (\<lambda>normalized_host.
        Inr (policy\<lparr>ep_network_rules := ep_network_rules policy @
          [\<lparr>nr_host = normalized_host, nr_protocol = protocol, nr_decision = decision,
            nr_justification = justification\<rparr>]\<rparr>)))"

fun compile_domains :: "network_rule list \<Rightarrow> pystr list \<times> pystr list \<Rightarrow> pystr list \<times> pystr list" where
  "compile_domains [] acc = acc"
| "compile_domains (rule # rules) (allowed, denied) =
     compile_domains rules
       (let allowed' = filter (\<lambda>e. e \<noteq> nr_host rule) allowed;
            denied' = filter (\<lambda>e. e \<noteq> nr_host rule) denied
        in case nr_decision rule of
             Allow \<Rightarrow> (allowed' @ [nr_host rule], denied')
           | Forbid \<Rightarrow> (allowed', denied' @ [nr_host rule])
           | Prompt \<Rightarrow> (allowed, denied))"

definition compiled_network_domains :: "exec_policy \<Rightarrow> pystr list \<times> pystr list" where
  "compiled_network_domains policy = compile_domains (ep_network_rules policy) ([], [])"

definition set_host_executable_paths :: "pystr \<Rightarrow> pypath list \<Rightarrow> exec_policy \<Rightarrow> exec_policy" where
  "set_host_executable_paths name paths policy = policy\<lparr>ep_host_executables_by_name :=
     dict_set name (map path_str paths) (ep_host_executables_by_name policy)\<rparr>"

fun resolve_match :: "pystr \<Rightarrow> rule_match \<Rightarrow> rule_match" where
  "resolve_match program (PrefixRuleMatch p d r j) = PrefixRuleMatch p d (Some program) j"
| "resolve_match program m = m"

definition match_host_executable_rules ::
  "os_name \<Rightarrow> exec_policy \<Rightarrow> pystr list \<Rightarrow> rule_match list" where
  "match_host_executable_rules os policy command =
     (case command of
        [] \<Rightarrow> []
      | first # args \<Rightarrow>
          let program = path_of first in
          if \<not> path_is_absolute program then []
          else (case executable_path_lookup_key os program of
            None \<Rightarrow> []
          | Some basename \<Rightarrow>
              let rules = rules_for policy basename in
              if rules = [] then []
              else if (case dict_get (ep_host_executables_by_name policy) basename of
                         None \<Rightarrow> False | Some paths \<Rightarrow> path_str program \<notin> set paths) then []
              else map (resolve_match (path_str program))
                     (List.map_filter (\<lambda>rule. rule_matches rule (basename # args)) rules)))"

definition direct_matches :: "exec_policy \<Rightarrow> pystr list \<Rightarrow> rule_match list" where
  "direct_matches policy command =
     (case command of
        [] \<Rightarrow> []
      | first # _ \<Rightarrow> List.map_filter (\<lambda>rule. rule_matches rule command) (rules_for policy first))"

definition matches_for_command_with_options ::
  "os_name \<Rightarrow> exec_policy \<Rightarrow> pystr list \<Rightarrow> (pystr list \<Rightarrow> decision) option \<Rightarrow> bool \<Rightarrow> rule_match list"
where
  "matches_for_command_with_options os policy command heuristics_fallback resolve_host_executables =
     (let direct = direct_matches policy command;
          matched = (if direct = [] \<and> resolve_host_executables
                     then match_host_executable_rules os policy command else direct)
      in case heuristics_fallback of
           Some fallback \<Rightarrow>
             if matched = [] then [HeuristicsRuleMatch command (fallback command)] else matched
         | None \<Rightarrow> matched)"

definition matches_for_command ::
  "os_name \<Rightarrow> exec_policy \<Rightarrow> pystr list \<Rightarrow> (pystr list \<Rightarrow> decision) option \<Rightarrow> rule_match list" where
  "matches_for_command os policy command heuristics_fallback =
     matches_for_command_with_options os policy command heuristics_fallback False"

fun strongest_decision :: "decision list \<Rightarrow> decision" where
  "strongest_decision [] = Allow"
| "strongest_decision (d # ds) = fold max ds d"

record evaluation =
  ev_decision :: decision
  ev_matched_rules :: "rule_match list"

fun is_prefix_match :: "rule_match \<Rightarrow> bool" where
  "is_prefix_match (PrefixRuleMatch p d r j) = True"
| "is_prefix_match (HeuristicsRuleMatch c d) = False"

definition evaluation_is_match :: "evaluation \<Rightarrow> bool" where
  "evaluation_is_match e \<longleftrightarrow> list_ex is_prefix_match (ev_matched_rules e)"

definition check_with_options ::
  "os_name \<Rightarrow> exec_policy \<Rightarrow> pystr list \<Rightarrow> (pystr list \<Rightarrow> decision) option \<Rightarrow> bool
     \<Rightarrow> (exec_policy_exn, evaluation) result" where
  "check_with_options os policy command heuristics_fallback resolve_host_executables =
     (let matched = matches_for_command_with_options os policy command heuristics_fallback
                      resolve_host_executables
      in if matched = [] then
           Inl (EpValueError (lit ''invariant failed: matched_rules must be non-empty''))
         else Inr \<lparr>ev_decision = strongest_decision (map match_decision matched),
                   ev_matched_rules = matched\<rparr>)"

definition policy_check ::
  "os_name \<Rightarrow> exec_policy \<Rightarrow> pystr list \<Rightarrow> (pystr list \<Rightarrow> decision) option
     \<Rightarrow> (exec_policy_exn, evaluation) result" where
  "policy_check os policy command heuristics_fallback =
     check_with_options os policy command heuristics_fallback False"

section \<open>Matching a prefix\<close>

definition pattern_accepts :: "prefix_rule \<Rightarrow> pystr list \<Rightarrow> bool" where
  "pattern_accepts rule p \<longleftrightarrow>
     (\<exists>ts. p = pr_first rule # ts \<and> list_all2 token_matches (pr_rest rule) ts)"

lemma list_all_zip:
  "length xs = length ys \<Longrightarrow> list_all (\<lambda>(x, y). P x y) (zip xs ys) \<longleftrightarrow> list_all2 P xs ys"
  by (induction xs ys rule: list_induct2) auto

lemma list_all2_take: "list_all2 P xs ys \<Longrightarrow> take (length xs) (ys @ zs) = ys"
  by (simp add: list_all2_lengthD)

lemma in_map_filter: "y \<in> set (List.map_filter f xs) \<longleftrightarrow> (\<exists>x \<in> set xs. f x = Some y)"
  by (induction xs) (auto simp: map_filter_simps split: option.splits)

lemma matches_prefix_Some:
  "matches_prefix rule cmd = Some p \<longleftrightarrow> pattern_accepts rule p \<and> (\<exists>args. cmd = p @ args)"
proof (cases cmd)
  case Nil
  then show ?thesis by (auto simp: matches_prefix_def pattern_accepts_def)
next
  case (Cons c cs)
  let ?n = "length (pr_rest rule)"
  have "matches_prefix rule cmd = Some p \<longleftrightarrow>
      ?n \<le> length cs \<and> c = pr_first rule \<and> list_all2 token_matches (pr_rest rule) (take ?n cs)
      \<and> p = c # take ?n cs"
    by (auto simp: matches_prefix_def Cons Let_def list_all_zip)
  also have "\<dots> \<longleftrightarrow> pattern_accepts rule p \<and> (\<exists>args. cmd = p @ args)"
  proof
    assume "?n \<le> length cs \<and> c = pr_first rule \<and> list_all2 token_matches (pr_rest rule) (take ?n cs)
      \<and> p = c # take ?n cs"
    then show "pattern_accepts rule p \<and> (\<exists>args. cmd = p @ args)"
      by (auto simp: pattern_accepts_def Cons intro: exI [of _ "drop ?n cs"])
  next
    assume "pattern_accepts rule p \<and> (\<exists>args. cmd = p @ args)"
    then obtain ts args where "cs = ts @ args" "c = pr_first rule" "p = c # ts"
      "list_all2 token_matches (pr_rest rule) ts" by (auto simp: pattern_accepts_def Cons)
    then show "?n \<le> length cs \<and> c = pr_first rule \<and> list_all2 token_matches (pr_rest rule) (take ?n cs)
      \<and> p = c # take ?n cs" by (simp add: list_all2_take list_all2_lengthD)
  qed
  finally show ?thesis .
qed

lemma pattern_accepts_unique:
  "pattern_accepts rule p \<Longrightarrow> pattern_accepts rule q \<Longrightarrow> p @ a = q @ b \<Longrightarrow> p = q"
  by (auto simp: pattern_accepts_def dest!: list_all2_lengthD)

lemma rule_matches_Some:
  "rule_matches rule cmd = Some m \<longleftrightarrow>
     (\<exists>p args. pattern_accepts rule p \<and> cmd = p @ args
        \<and> m = PrefixRuleMatch p (pr_decision rule) None (pr_justification rule))"
  by (auto simp: rule_matches_def matches_prefix_Some)

section \<open>The strongest decision\<close>

lemma fold_max_ge: "(d::decision) \<le> fold max ds d \<and> (\<forall>x \<in> set ds. x \<le> fold max ds d)"
  by (induction ds arbitrary: d) (auto simp: max_def intro: order_trans, meson order_trans linear)

lemma fold_max_in: "fold max ds (d::decision) = d \<or> fold max ds d \<in> set ds"
proof (induction ds arbitrary: d)
  case (Cons a ds)
  from Cons.IH [of "max a d"] show ?case by (auto simp: max_def split: if_splits)
qed simp

lemma strongest_decision_in: "ds \<noteq> [] \<Longrightarrow> strongest_decision ds \<in> set ds"
  using fold_max_in by (cases ds) auto

lemma strongest_decision_ge: "d \<in> set ds \<Longrightarrow> d \<le> strongest_decision ds"
  using fold_max_ge by (cases ds) auto

section \<open>What a policy answers\<close>

lemma direct_matches_iff:
  "m \<in> set (direct_matches policy command) \<longleftrightarrow>
     (\<exists>rule p args. command = p @ args \<and> pattern_accepts rule p \<and> rule \<in> set (rules_for policy (hd command))
        \<and> m = PrefixRuleMatch p (pr_decision rule) None (pr_justification rule))"
proof (cases command)
  case (Cons c cs)
  have "rule_matches rule command = Some m \<longleftrightarrow> (\<exists>p args. pattern_accepts rule p \<and> command = p @ args
      \<and> m = PrefixRuleMatch p (pr_decision rule) None (pr_justification rule))" for rule
    by (rule rule_matches_Some)
  then show ?thesis by (simp add: direct_matches_def Cons in_map_filter) blast
qed (auto simp: direct_matches_def pattern_accepts_def)

lemma matches_for_command_eq:
  "matches_for_command os policy command fallback =
     (if direct_matches policy command \<noteq> [] then direct_matches policy command
      else case fallback of None \<Rightarrow> [] | Some f \<Rightarrow> [HeuristicsRuleMatch command (f command)])"
  by (auto simp: matches_for_command_def matches_for_command_with_options_def Let_def split: option.splits)

lemma check_with_options_Inr:
  "check_with_options os policy command fallback opts = Inr e \<longleftrightarrow>
     (let ms = matches_for_command_with_options os policy command fallback opts in
      ms \<noteq> [] \<and> e = \<lparr>ev_decision = strongest_decision (map match_decision ms), ev_matched_rules = ms\<rparr>)"
  by (auto simp: check_with_options_def Let_def)

lemma check_total:
  "\<exists>e. check_with_options os policy command (Some fallback) opts = Inr e"
  by (simp add: check_with_options_Inr Let_def)
     (simp add: matches_for_command_with_options_def Let_def)

lemma check_decision:
  assumes "check_with_options os policy command fallback opts = Inr e"
  shows "ev_decision e \<in> match_decision ` set (ev_matched_rules e)"
    and "\<forall>m \<in> set (ev_matched_rules e). match_decision m \<le> ev_decision e"
proof -
  let ?ms = "matches_for_command_with_options os policy command fallback opts"
  have e: "?ms \<noteq> []" "e = \<lparr>ev_decision = strongest_decision (map match_decision ?ms), ev_matched_rules = ?ms\<rparr>"
    using assms by (simp_all add: check_with_options_Inr Let_def)
  then show "ev_decision e \<in> match_decision ` set (ev_matched_rules e)"
    using strongest_decision_in [of "map match_decision ?ms"] by simp
  show "\<forall>m \<in> set (ev_matched_rules e). match_decision m \<le> ev_decision e"
    using strongest_decision_ge [of _ "map match_decision ?ms"] by (simp add: e)
qed

lemma rule_bounds:
  assumes "rule \<in> set (rules_for policy (pr_first rule))" "pattern_accepts rule p"
  shows "\<exists>e. check_with_options os policy (p @ args) fallback opts = Inr e \<and> pr_decision rule \<le> ev_decision e
    \<and> evaluation_is_match e"
proof -
  let ?m = "PrefixRuleMatch p (pr_decision rule) None (pr_justification rule)"
  have "hd (p @ args) = pr_first rule" using assms(2) by (auto simp: pattern_accepts_def)
  then have m: "?m \<in> set (direct_matches policy (p @ args))"
    using assms by (auto simp: direct_matches_iff)
  then have ms: "matches_for_command_with_options os policy (p @ args) fallback opts = direct_matches policy (p @ args)"
    by (auto simp: matches_for_command_with_options_def Let_def split: option.splits)
  from m have ne: "direct_matches policy (p @ args) \<noteq> []" by auto
  obtain e where e: "check_with_options os policy (p @ args) fallback opts = Inr e"
    "ev_matched_rules e = direct_matches policy (p @ args)"
    using ne ms by (simp add: check_with_options_def Let_def)
  moreover from e m have "match_decision ?m \<le> ev_decision e"
    using check_decision(2) [OF e(1)] by metis
  moreover have "evaluation_is_match e"
    using e(2) m by (auto simp: evaluation_is_match_def list_ex_iff intro!: bexI [of _ ?m])
  ultimately show ?thesis by auto
qed

text \<open>
  C25: A rule that a command's prefix satisfies cannot be weakened by anything else in the policy: the
  check answers, reports a rule match, and its decision is at least as strict as the rule's, whatever
  arguments follow, whatever fallback and options are given.
\<close>

theorem rule_bounds_decision:
  assumes "rule \<in> set (rules_for policy (pr_first rule))" "pattern_accepts rule p"
  shows "\<exists>e. check_with_options os policy (p @ args) fallback opts = Inr e \<and> pr_decision rule \<le> ev_decision e
    \<and> evaluation_is_match e"
  using assms by (rule rule_bounds)

text \<open>
  Matching by executable path is confined: every match found comes from a rule stored for the
  path's executable name, whose pattern the name and the arguments satisfy; the program is given as
  an absolute path and, if that name has registered paths, it is one of them, and the match reports it.
\<close>

theorem host_executable_match_is_registered:
  assumes "m \<in> set (match_host_executable_rules os policy command)"
  shows "\<exists>first args basename rule p extra.
    command = first # args \<and> path_is_absolute (path_of first)
    \<and> executable_path_lookup_key os (path_of first) = Some basename
    \<and> rule \<in> set (rules_for policy basename) \<and> pattern_accepts rule p \<and> basename # args = p @ extra
    \<and> m = PrefixRuleMatch p (pr_decision rule) (Some (path_str (path_of first))) (pr_justification rule)
    \<and> (\<forall>paths. dict_get (ep_host_executables_by_name policy) basename = Some paths
         \<longrightarrow> path_str (path_of first) \<in> set paths)"
proof (cases command)
  case Nil
  with assms show ?thesis by (simp add: match_host_executable_rules_def)
next
  case (Cons first args)
  let ?program = "path_of first"
  obtain basename where k: "executable_path_lookup_key os ?program = Some basename"
    using assms Cons by (cases "executable_path_lookup_key os ?program")
      (auto simp: match_host_executable_rules_def Let_def split: if_splits)
  with assms Cons have b: "path_is_absolute ?program"
    "\<forall>paths. dict_get (ep_host_executables_by_name policy) basename = Some paths
       \<longrightarrow> path_str ?program \<in> set paths"
    and m: "m \<in> resolve_match (path_str ?program) `
      set (List.map_filter (\<lambda>rule. rule_matches rule (basename # args)) (rules_for policy basename))"
    by (auto simp: match_host_executable_rules_def Let_def split: if_splits option.splits)
  from m obtain rule m' where r: "rule \<in> set (rules_for policy basename)"
    "rule_matches rule (basename # args) = Some m'" "m = resolve_match (path_str ?program) m'"
    by (auto simp: in_map_filter)
  then obtain p extra where "pattern_accepts rule p" "basename # args = p @ extra"
    "m = PrefixRuleMatch p (pr_decision rule) (Some (path_str ?program)) (pr_justification rule)"
    by (auto simp: rule_matches_Some)
  with b k r(1) Cons show ?thesis by blast
qed

section \<open>Network rules\<close>

definition last_ruling :: "network_rule list \<Rightarrow> pystr \<Rightarrow> decision option" where
  "last_ruling rules host =
     (let rs = filter (\<lambda>r. nr_host r = host \<and> nr_decision r \<noteq> Prompt) rules in
      if rs = [] then None else Some (nr_decision (last rs)))"

lemma compile_domains_append:
  "compile_domains (rs @ ss) acc = compile_domains ss (compile_domains rs acc)"
  by (induction rs acc rule: compile_domains.induct) auto

lemma last_ruling_snoc:
  "last_ruling (rs @ [r]) host =
     (if nr_host r = host \<and> nr_decision r \<noteq> Prompt then Some (nr_decision r) else last_ruling rs host)"
  by (simp add: last_ruling_def Let_def)

lemma compile_domains_last:
  "\<exists>allowed denied. compile_domains rs ([], []) = (allowed, denied)
     \<and> distinct allowed \<and> distinct denied
     \<and> (\<forall>host. (host \<in> set allowed \<longleftrightarrow> last_ruling rs host = Some Allow)
        \<and> (host \<in> set denied \<longleftrightarrow> last_ruling rs host = Some Forbid))"
proof (induction rs rule: rev_induct)
  case Nil
  then show ?case by (simp add: last_ruling_def)
next
  case (snoc r rs)
  then obtain allowed denied where "compile_domains rs ([], []) = (allowed, denied)"
    "distinct allowed" "distinct denied"
    "\<forall>host. (host \<in> set allowed \<longleftrightarrow> last_ruling rs host = Some Allow)
        \<and> (host \<in> set denied \<longleftrightarrow> last_ruling rs host = Some Forbid)" by blast
  then show ?case
    by (cases "nr_decision r") (auto simp: compile_domains_append last_ruling_snoc)
qed

text \<open>
  The compiled network domains follow the last ruling: a host is allowed exactly when the last rule
  that allows or forbids it allows it, denied exactly when that rule forbids it, so never both, and
  no host is listed twice. Prompt rules change nothing.
\<close>

theorem compiled_domains_follow_last_ruling:
  "\<exists>allowed denied. compiled_network_domains policy = (allowed, denied)
     \<and> distinct allowed \<and> distinct denied
     \<and> (\<forall>host. (host \<in> set allowed \<longleftrightarrow> last_ruling (ep_network_rules policy) host = Some Allow)
        \<and> (host \<in> set denied \<longleftrightarrow> last_ruling (ep_network_rules policy) host = Some Forbid))"
  using compile_domains_last by (simp add: compiled_network_domains_def)

text \<open>
  The decision of a check is the strictest of its matched rules: one of them decides so and none
  decides more strictly.
\<close>

theorem decision_is_the_strictest:
  assumes "check_with_options os policy command fallback opts = Inr e"
  shows "ev_decision e \<in> match_decision ` set (ev_matched_rules e)
    \<and> (\<forall>m \<in> set (ev_matched_rules e). match_decision m \<le> ev_decision e)"
  using check_decision [OF assms] by blast

text \<open>
  The host of a network rule, once normalised, names one host: it is not empty and has no wildcard
  and no whitespace.
\<close>

theorem normalized_host_is_specific:
  assumes "normalize_network_rule_host u raw = Inr host"
  shows "host \<noteq> [] \<and> 42 \<notin> set host \<and> (\<forall>c \<in> set host. \<not> is_space c)"
  using assms
  by (auto simp: normalize_network_rule_host_def Let_def bindE_eq_Inr list_ex_iff split: if_splits)

section \<open>A policy with rules for git\<close>

definition git_rule :: "pystr list \<Rightarrow> decision \<Rightarrow> prefix_rule" where
  "git_rule rest d = \<lparr>pr_first = lit ''git'', pr_rest = map Single rest, pr_decision = d, pr_justification = None\<rparr>"

definition git_policy :: exec_policy where
  "git_policy = \<lparr>ep_rules_by_program =
       [(lit ''git'', [git_rule [] Allow, git_rule [lit ''push''] Prompt])],
     ep_network_rules = [],
     ep_host_executables_by_name = [(lit ''git'', [lit ''/bin/git''])]\<rparr>"

definition posix :: os_name where
  "posix = \<lparr>os_nt = False, os_lower = (\<lambda>s. s)\<rparr>"

lemma git_rules: "rules_for git_policy (lit ''git'') = [git_rule [] Allow, git_rule [lit ''push''] Prompt]"
  by (simp add: rules_for_def git_policy_def dict_get_def)

lemma rule_bounds_decision_witness:
  "\<exists>e. check_with_options posix git_policy ([lit ''git'', lit ''push''] @ [lit ''-f'']) None False = Inr e
    \<and> Prompt \<le> ev_decision e \<and> evaluation_is_match e"
  using rule_bounds_decision [of "git_rule [lit ''push''] Prompt" git_policy "[lit ''git'', lit ''push'']"
      posix "[lit ''-f'']" None False]
  by (simp add: git_rules pattern_accepts_def git_rule_def del: lit.simps)

lemma host_executable_match_is_registered_witness:
  "\<exists>paths. dict_get (ep_host_executables_by_name git_policy) (lit ''git'') = Some paths
    \<and> path_str (path_of (lit ''/bin/git'')) \<in> set paths"
proof -
  have "match_host_executable_rules posix git_policy [lit ''/bin/git''] =
      [PrefixRuleMatch [lit ''git''] Allow (Some (lit ''/bin/git'')) None]"
    by code_simp
  then have "PrefixRuleMatch [lit ''git''] Allow (Some (lit ''/bin/git'')) None
      \<in> set (match_host_executable_rules posix git_policy [lit ''/bin/git''])"
    by simp
  note h = host_executable_match_is_registered [OF this]
  have "executable_path_lookup_key posix (path_of (lit ''/bin/git'')) = Some (lit ''git'')" by code_simp
  with h show ?thesis by (auto simp: git_policy_def dict_get_def simp del: lit.simps)
qed

lemma decision_is_the_strictest_witness:
  "\<exists>e. policy_check posix git_policy [lit ''git'', lit ''push''] None = Inr e
    \<and> ev_decision e \<in> match_decision ` set (ev_matched_rules e)"
proof -
  have "\<exists>e. check_with_options posix git_policy [lit ''git'', lit ''push''] None False = Inr e"
    by (simp add: check_with_options_def matches_for_command_with_options_def direct_matches_def git_rules
        git_rule_def rule_matches_def matches_prefix_def map_filter_simps Let_def del: lit.simps)
  then show ?thesis
    using decision_is_the_strictest by (fastforce simp: policy_check_def)
qed

lemma normalized_host_is_specific_witness:
  "\<exists>host. normalize_network_rule_host \<lparr>u_lower = (\<lambda>s. s), u_isdigit = (\<lambda>c. 48 \<le> c \<and> c \<le> 57)\<rparr>
      (lit '' a.b:80'') = Inr host \<and> host \<noteq> [] \<and> 42 \<notin> set host"
proof -
  have "normalize_network_rule_host \<lparr>u_lower = (\<lambda>s. s), u_isdigit = (\<lambda>c. 48 \<le> c \<and> c \<le> 57)\<rparr>
      (lit '' a.b:80'') = Inr (lit ''a.b'')"
    by code_simp
  then show ?thesis using normalized_host_is_specific by blast
qed

end
