(* ===== verification/ExecPolicyParser.thy ===== *)
theory ExecPolicyParser
  imports ExecPolicy PyJson
begin

text \<open>
  Reading exec policies: \<open>pycodex/execpolicy/parser.py\<close> from the calls of a policy file on
  (\<open>ast.parse\<close> and \<open>shlex.split\<close> are parameters), the example checks of \<open>rule.py\<close>, the
  \<open>check\<close> command of \<open>execpolicycheck.py\<close> and its command line in \<open>main.py\<close>. The parser mutates
  its policy as it goes, so every step returns the policy beside its outcome.
\<close>

section \<open>Policy files as calls with literal arguments\<close>

datatype pylit = LStr pystr | LList "pylit list" | LNone | LOther pystr

text \<open>
  A top-level call: the function's name (\<open>None\<close> when it is not a plain name), its keywords in order
  (\<open>None\<close> for \<open>**kwargs\<close>, and for a value \<open>ast.literal_eval\<close> refuses), and whether it has
  positional arguments.
\<close>

record policy_call =
  pc_name :: "pystr option"
  pc_keywords :: "(pystr option \<times> pylit option) list"
  pc_positional :: bool

fun pylit_type_name :: "pylit \<Rightarrow> pystr" where
  "pylit_type_name (LStr s) = lit ''str''"
| "pylit_type_name (LList xs) = lit ''list''"
| "pylit_type_name LNone = lit ''NoneType''"
| "pylit_type_name (LOther t) = t"

definition kwarg :: "(pystr, pylit) pydict \<Rightarrow> string \<Rightarrow> pylit" where
  "kwarg kwargs key = (case dict_get kwargs (lit key) of None \<Rightarrow> LNone | Some v \<Rightarrow> v)"

definition literal_string :: "pylit \<Rightarrow> string \<Rightarrow> (exec_policy_exn, pystr) result" where
  "literal_string v context' =
     (case v of LStr s \<Rightarrow> Inr s | _ \<Rightarrow> Inl (invalid_rule (lit context' @ lit '' must be a string'')))"

fun pylit_strings :: "pylit list \<Rightarrow> pystr list option" where
  "pylit_strings [] = Some []"
| "pylit_strings (LStr s # vs) = map_option ((#) s) (pylit_strings vs)"
| "pylit_strings (v # vs) = None"

definition literal_string_list :: "pylit \<Rightarrow> string \<Rightarrow> (exec_policy_exn, pystr list) result" where
  "literal_string_list v context' =
     (case (case v of LList vs \<Rightarrow> pylit_strings vs | _ \<Rightarrow> None) of
        Some ss \<Rightarrow> Inr ss
      | None \<Rightarrow> Inl (invalid_rule (lit context' @ lit '' must be a list of strings'')))"

definition parse_pattern_item :: "pylit \<Rightarrow> (exec_policy_exn, pattern_token) result" where
  "parse_pattern_item item =
     (case item of
        LStr s \<Rightarrow> Inr (Single s)
      | LList [] \<Rightarrow> Inl (invalid_pattern (lit ''pattern alternatives cannot be empty''))
      | LList alts \<Rightarrow>
          (case pylit_strings alts of
             None \<Rightarrow> Inl (invalid_pattern (lit ''pattern alternative must be a string''))
           | Some [s] \<Rightarrow> Inr (Single s)
           | Some ss \<Rightarrow> Inr (Alts ss))
      | v \<Rightarrow> Inl (invalid_pattern (lit ''pattern element must be a string or list of strings (got ''
               @ pylit_type_name v @ lit '')'')))"

definition parse_pattern_literal :: "pylit \<Rightarrow> (exec_policy_exn, pattern_token list) result" where
  "parse_pattern_literal v =
     (case v of
        LList [] \<Rightarrow> Inl (invalid_pattern (lit ''pattern cannot be empty''))
      | LList items \<Rightarrow> mapE parse_pattern_item items
      | v \<Rightarrow> Inl (invalid_pattern (lit ''pattern must be a list (got '' @ pylit_type_name v @ lit '')'')))"

type_synonym shlex = "pystr \<Rightarrow> (exec_policy_exn, pystr list) result"

definition parse_example_literal :: "shlex \<Rightarrow> pylit \<Rightarrow> (exec_policy_exn, pystr list) result" where
  "parse_example_literal shlex_split v =
     (case v of
        LStr s \<Rightarrow> bindE (shlex_split s) (\<lambda>parsed.
          if parsed = [] then Inl (invalid_example (lit ''example cannot be an empty string''))
          else Inr parsed)
      | LList [] \<Rightarrow> Inl (invalid_example (lit ''example cannot be an empty list''))
      | LList items \<Rightarrow>
          (case pylit_strings items of
             None \<Rightarrow> Inl (invalid_example (lit ''example tokens must be strings''))
           | Some ss \<Rightarrow> Inr ss)
      | v \<Rightarrow> Inl (invalid_example (lit ''example must be a string or list of strings (got ''
               @ pylit_type_name v @ lit '')'')))"

definition parse_examples_literal :: "shlex \<Rightarrow> pylit \<Rightarrow> (exec_policy_exn, pystr list list) result" where
  "parse_examples_literal shlex_split v =
     (case v of
        LNone \<Rightarrow> Inr []
      | LList items \<Rightarrow> mapE (parse_example_literal shlex_split) items
      | _ \<Rightarrow> Inl (invalid_example (lit ''examples must be a list'')))"

fun call_keywords_map ::
  "(pystr option \<times> pylit option) list \<Rightarrow> (pystr, pylit) pydict
     \<Rightarrow> (exec_policy_exn, (pystr, pylit) pydict) result" where
  "call_keywords_map [] acc = Inr acc"
| "call_keywords_map ((None, v) # rest) acc =
     Inl (invalid_rule (lit ''policy rule calls do not support **kwargs''))"
| "call_keywords_map ((Some k, None) # rest) acc =
     Inl (invalid_rule (lit ''policy parser slice only supports literal arguments''))"
| "call_keywords_map ((Some k, Some v) # rest) acc = call_keywords_map rest (dict_set k v acc)"

definition call_keyword_map :: "policy_call \<Rightarrow> (exec_policy_exn, (pystr, pylit) pydict) result" where
  "call_keyword_map call =
     bindE (call_keywords_map (pc_keywords call) []) (\<lambda>keywords.
       if pc_positional call then Inl (invalid_rule (lit ''policy rule calls require keyword arguments''))
       else Inr keywords)"

section \<open>Examples\<close>

definition validate_match_examples ::
  "os_name \<Rightarrow> exec_policy \<Rightarrow> prefix_rule list \<Rightarrow> pystr list list \<Rightarrow> (exec_policy_exn, unit) result"
where
  "validate_match_examples os policy rules examples =
     (let unmatched = filter (\<lambda>e. matches_for_command os policy e None = []) examples
      in if unmatched \<noteq> [] then Inl (ExampleDidNotMatchError rules unmatched) else Inr ())"

fun validate_not_match_examples ::
  "os_name \<Rightarrow> exec_policy \<Rightarrow> pystr list list \<Rightarrow> (exec_policy_exn, unit) result" where
  "validate_not_match_examples os policy [] = Inr ()"
| "validate_not_match_examples os policy (e # examples) =
     (case matches_for_command os policy e None of
        [] \<Rightarrow> validate_not_match_examples os policy examples
      | m # _ \<Rightarrow> Inl (ExampleDidMatchError m e))"

section \<open>Rules\<close>

record prefix_rule_fields =
  pf_pattern :: "pattern_token list"
  pf_decision :: decision
  pf_justification :: "pystr option"
  pf_matches :: "pystr list list"
  pf_not_matches :: "pystr list list"

definition read_prefix_rule ::
  "shlex \<Rightarrow> (pystr, pylit) pydict \<Rightarrow> (exec_policy_exn, prefix_rule_fields) result" where
  "read_prefix_rule shlex_split kwargs =
     bindE (parse_pattern_literal (kwarg kwargs ''pattern'')) (\<lambda>pattern.
     bindE (case dict_get kwargs (lit ''decision'') of
              None \<Rightarrow> Inr (lit ''allow'') | Some v \<Rightarrow> literal_string v ''decision'') (\<lambda>raw.
     bindE (decision_parse raw) (\<lambda>decision.
     bindE (case kwarg kwargs ''justification'' of
              LNone \<Rightarrow> Inr None
            | v \<Rightarrow> bindE (literal_string v ''justification'') (\<lambda>j.
                if strip j = [] then Inl (invalid_rule (lit ''justification cannot be empty''))
                else Inr (Some j))) (\<lambda>justification.
     bindE (parse_examples_literal shlex_split (kwarg kwargs ''match'')) (\<lambda>matches.
     bindE (parse_examples_literal shlex_split (kwarg kwargs ''not_match'')) (\<lambda>not_matches.
       Inr \<lparr>pf_pattern = pattern, pf_decision = decision, pf_justification = justification,
            pf_matches = matches, pf_not_matches = not_matches\<rparr>))))))"

definition expanded_rules :: "prefix_rule_fields \<Rightarrow> prefix_rule list" where
  "expanded_rules f = (case pf_pattern f of
     [] \<Rightarrow> []
   | first # rest \<Rightarrow> map (\<lambda>head. \<lparr>pr_first = head, pr_rest = rest, pr_decision = pf_decision f,
        pr_justification = pf_justification f\<rparr>) (token_alternatives first))"

definition parse_prefix_rule ::
  "shlex \<Rightarrow> os_name \<Rightarrow> (pystr, pylit) pydict \<Rightarrow> exec_policy
     \<Rightarrow> exec_policy \<times> (exec_policy_exn, unit) result" where
  "parse_prefix_rule shlex_split os kwargs policy =
     (case read_prefix_rule shlex_split kwargs of
        Inl err \<Rightarrow> (policy, Inl err)
      | Inr f \<Rightarrow>
          let rules = expanded_rules f; policy' = fold append_rule rules policy in
          (policy', bindE (validate_not_match_examples os policy' (pf_not_matches f)) (\<lambda>_.
             validate_match_examples os policy' rules (pf_matches f))))"

definition parse_network_rule ::
  "unicode \<Rightarrow> (pystr, pylit) pydict \<Rightarrow> exec_policy \<Rightarrow> exec_policy \<times> (exec_policy_exn, unit) result"
where
  "parse_network_rule u kwargs policy =
     (case
        bindE (literal_string (kwarg kwargs ''host'') ''host'') (\<lambda>host.
        bindE (literal_string (kwarg kwargs ''protocol'') ''protocol'') (\<lambda>raw_protocol.
        bindE (protocol_parse raw_protocol) (\<lambda>protocol.
        bindE (literal_string (kwarg kwargs ''decision'') ''decision'') (\<lambda>raw_decision.
        bindE (if raw_decision = lit ''deny'' then Inr Forbid else decision_parse raw_decision) (\<lambda>decision.
        bindE (case kwarg kwargs ''justification'' of
                 LNone \<Rightarrow> Inr None
               | v \<Rightarrow> bindE (literal_string v ''justification'') (\<lambda>j. Inr (Some j))) (\<lambda>justification.
          add_network_rule u host protocol decision justification policy))))))
      of Inl err \<Rightarrow> (policy, Inl err) | Inr policy' \<Rightarrow> (policy', Inr ()))"

definition validate_host_executable_name :: "pystr \<Rightarrow> (exec_policy_exn, unit) result" where
  "validate_host_executable_name raw =
     (if raw = [] then Inl (invalid_rule (lit ''host_executable name cannot be empty''))
      else if path_name (path_of raw) \<noteq> raw \<or> 47 \<in> set raw \<or> 92 \<in> set raw then
        Inl (invalid_rule (lit ''host_executable name must be a bare executable name (got '' @ raw @ lit '')''))
      else Inr ())"

definition parse_literal_absolute_path :: "pystr \<Rightarrow> (exec_policy_exn, pypath) result" where
  "parse_literal_absolute_path raw =
     (let path = path_of raw in
      if path_is_absolute path then Inr path
      else Inl (invalid_rule (lit ''host_executable paths must be absolute (got '' @ raw @ lit '')'')))"

fun host_executable_paths ::
  "os_name \<Rightarrow> pystr \<Rightarrow> pystr \<Rightarrow> pystr list \<Rightarrow> pypath list \<Rightarrow> (exec_policy_exn, pypath list) result"
where
  "host_executable_paths os name lookup_name [] parsed = Inr parsed"
| "host_executable_paths os name lookup_name (raw # raws) parsed =
     bindE (parse_literal_absolute_path raw) (\<lambda>path.
       if executable_path_lookup_key os path \<noteq> Some lookup_name then
         Inl (invalid_rule (lit ''host_executable path `'' @ raw @ lit ''` must have basename `''
           @ name @ lit ''`''))
       else host_executable_paths os name lookup_name raws
         (if path \<in> set parsed then parsed else parsed @ [path]))"

definition parse_host_executable ::
  "os_name \<Rightarrow> (pystr, pylit) pydict \<Rightarrow> exec_policy \<Rightarrow> exec_policy \<times> (exec_policy_exn, unit) result"
where
  "parse_host_executable os kwargs policy =
     (case
        bindE (literal_string (kwarg kwargs ''name'') ''name'') (\<lambda>name.
        bindE (validate_host_executable_name name) (\<lambda>_.
        bindE (literal_string_list (kwarg kwargs ''paths'') ''host_executable paths'') (\<lambda>paths.
        let lookup_name = executable_lookup_key os name in
        bindE (host_executable_paths os name lookup_name paths []) (\<lambda>parsed.
          Inr (set_host_executable_paths lookup_name parsed policy)))))
      of Inl err \<Rightarrow> (policy, Inl err) | Inr policy' \<Rightarrow> (policy', Inr ()))"

definition parse_call ::
  "shlex \<Rightarrow> unicode \<Rightarrow> os_name \<Rightarrow> policy_call \<Rightarrow> exec_policy
     \<Rightarrow> exec_policy \<times> (exec_policy_exn, unit) result" where
  "parse_call shlex_split u os call policy =
     (case call_keyword_map call of
        Inl err \<Rightarrow> (policy, Inl err)
      | Inr kwargs \<Rightarrow>
          if pc_name call = Some (lit ''prefix_rule'') then parse_prefix_rule shlex_split os kwargs policy
          else if pc_name call = Some (lit ''network_rule'') then parse_network_rule u kwargs policy
          else if pc_name call = Some (lit ''host_executable'') then parse_host_executable os kwargs policy
          else (policy, Inl (invalid_rule (lit ''unknown policy rule function: ''
            @ (case pc_name call of None \<Rightarrow> lit ''None'' | Some name \<Rightarrow> name)))))"

fun parse_calls ::
  "shlex \<Rightarrow> unicode \<Rightarrow> os_name \<Rightarrow> policy_call list \<Rightarrow> exec_policy
     \<Rightarrow> exec_policy \<times> (exec_policy_exn, unit) result" where
  "parse_calls shlex_split u os [] policy = (policy, Inr ())"
| "parse_calls shlex_split u os (call # calls) policy =
     (case parse_call shlex_split u os call policy of
        (policy', Inl err) \<Rightarrow> (policy', Inl err)
      | (policy', Inr _) \<Rightarrow> parse_calls shlex_split u os calls policy')"

section \<open>The check command\<close>

definition prefix_payload :: "pystr list \<Rightarrow> decision \<Rightarrow> (string \<times> json) list" where
  "prefix_payload p d = [(''matchedPrefix'', JArr (map JStr p)), (''decision'', JStr (decision_value d))]"

definition opt_field :: "string \<Rightarrow> pystr option \<Rightarrow> (string \<times> json) list" where
  "opt_field k v = (case v of None \<Rightarrow> [] | Some s \<Rightarrow> [(k, JStr s)])"

fun rule_match_to_json :: "rule_match \<Rightarrow> json" where
  "rule_match_to_json (PrefixRuleMatch p d r j) = jobj [(''prefixRuleMatch'',
     jobj (prefix_payload p d @ opt_field ''resolvedProgram'' r @ opt_field ''justification'' j))]"
| "rule_match_to_json (HeuristicsRuleMatch c d) = jobj [(''heuristicsRuleMatch'',
     jobj [(''command'', JArr (map JStr c)), (''decision'', JStr (decision_value d))])]"

definition format_matches_json :: "rule_match list \<Rightarrow> json" where
  "format_matches_json rules = jobj ((''matchedRules'', JArr (map rule_match_to_json rules))
     # (if rules = [] then []
        else [(''decision'', JStr (decision_value (strongest_decision (map match_decision rules))))]))"

record check_invocation =
  ci_rules :: "pypath list"
  ci_command :: "pystr list"
  ci_pretty :: bool
  ci_resolve_host_executables :: bool

fun parse_cli_loop ::
  "pystr list \<Rightarrow> check_invocation \<Rightarrow> (exec_policy_exn, check_invocation) result" where
  "parse_cli_loop [] c = Inr c"
| "parse_cli_loop (token # rest) c =
     (if token = lit ''-r'' \<or> token = lit ''--rules'' then
        (case rest of
           [] \<Rightarrow> Inl (EpValueError (lit ''codex-execpolicy check requires --rules PATH''))
         | path # rest' \<Rightarrow> parse_cli_loop rest' (c\<lparr>ci_rules := ci_rules c @ [path_of path]\<rparr>))
      else if token = lit ''--pretty'' then parse_cli_loop rest (c\<lparr>ci_pretty := True\<rparr>)
      else if token = lit ''--resolve-host-executables'' then
        parse_cli_loop rest (c\<lparr>ci_resolve_host_executables := True\<rparr>)
      else if token = lit ''--'' then Inr (c\<lparr>ci_command := rest\<rparr>)
      else Inr (c\<lparr>ci_command := token # rest\<rparr>))"

definition parse_execpolicy_cli :: "pystr list \<Rightarrow> (exec_policy_exn, check_invocation) result" where
  "parse_execpolicy_cli tokens =
     (case tokens of
        [] \<Rightarrow> Inl (EpValueError (lit ''codex-execpolicy requires a subcommand: check''))
      | subcommand # rest \<Rightarrow>
          if subcommand \<noteq> lit ''check'' then
            Inl (EpValueError (lit ''Unknown codex-execpolicy subcommand: '' @ subcommand))
          else
            bindE (parse_cli_loop rest \<lparr>ci_rules = [], ci_command = [], ci_pretty = False,
                     ci_resolve_host_executables = False\<rparr>) (\<lambda>c.
            if ci_rules c = [] then Inl (EpValueError (lit ''codex-execpolicy check requires --rules''))
            else if ci_command c = [] then
              Inl (EpValueError (lit ''codex-execpolicy check requires COMMAND''))
            else Inr c))"

text \<open>
  Loading the policy files. A failure to parse is raised again as \<open>type(exc)(message)\<close>, which for
  the two example errors lacks an argument, so a \<open>TypeError\<close> comes out instead.
\<close>

datatype load_exn = LoadOSError pystr | LoadPolicyError exec_policy_exn | LoadTypeError pystr

definition exec_policy_exn_str :: "exec_policy_exn \<Rightarrow> pystr" where
  "exec_policy_exn_str err =
     (case err of
        InvalidDecisionError m \<Rightarrow> m | InvalidPatternError m \<Rightarrow> m | InvalidExampleError m \<Rightarrow> m
      | InvalidRuleError m \<Rightarrow> m | EpValueError m \<Rightarrow> m | EpNameError m \<Rightarrow> m | _ \<Rightarrow> [])"

definition missing_argument :: "string \<Rightarrow> string \<Rightarrow> pystr" where
  "missing_argument cls arg = lit cls @ lit ''.__init__() missing 1 required positional argument: ''
     @ [39] @ lit arg @ [39]"

definition reraise :: "pypath \<Rightarrow> exec_policy_exn \<Rightarrow> load_exn" where
  "reraise path err =
     (let message = lit ''failed to parse policy at '' @ path_str path @ lit '': ''
                      @ exec_policy_exn_str err in
      case err of
        InvalidDecisionError _ \<Rightarrow> LoadPolicyError (InvalidDecisionError message)
      | InvalidPatternError _ \<Rightarrow> LoadPolicyError (invalid_pattern message)
      | InvalidExampleError _ \<Rightarrow> LoadPolicyError (invalid_example message)
      | InvalidRuleError _ \<Rightarrow> LoadPolicyError (invalid_rule message)
      | EpValueError _ \<Rightarrow> LoadPolicyError (EpValueError message)
      | EpNameError _ \<Rightarrow> LoadPolicyError (EpNameError message)
      | ExampleDidNotMatchError _ _ \<Rightarrow> LoadTypeError (missing_argument ''ExampleDidNotMatchError'' ''examples'')
      | ExampleDidMatchError _ _ \<Rightarrow> LoadTypeError (missing_argument ''ExampleDidMatchError'' ''example''))"

record policy_host =
  ph_read_text :: "pypath \<Rightarrow> (pystr, pystr) result"
  ph_calls :: "pypath \<Rightarrow> pystr \<Rightarrow> (exec_policy_exn, policy_call list) result"
  ph_shlex :: shlex
  ph_unicode :: unicode
  ph_os :: os_name

fun load_policies_loop ::
  "policy_host \<Rightarrow> pypath list \<Rightarrow> exec_policy \<Rightarrow> (load_exn, exec_policy) result" where
  "load_policies_loop h [] policy = Inr policy"
| "load_policies_loop h (path # paths) policy =
     (case ph_read_text h path of
        Inl err \<Rightarrow> Inl (LoadOSError (lit ''failed to read policy at '' @ path_str path @ lit '': '' @ err))
      | Inr contents \<Rightarrow>
          (case ph_calls h path contents of
             Inl err \<Rightarrow> Inl (reraise path err)
           | Inr calls \<Rightarrow>
               (case parse_calls (ph_shlex h) (ph_unicode h) (ph_os h) calls policy of
                  (policy', Inl err) \<Rightarrow> Inl (reraise path err)
                | (policy', Inr _) \<Rightarrow> load_policies_loop h paths policy')))"

definition load_policies :: "policy_host \<Rightarrow> pypath list \<Rightarrow> (load_exn, exec_policy) result" where
  "load_policies h paths = load_policies_loop h paths exec_policy_empty"

definition check_invocation_run :: "policy_host \<Rightarrow> check_invocation \<Rightarrow> (load_exn, json) result" where
  "check_invocation_run h c =
     bindE (load_policies h (ci_rules c)) (\<lambda>policy.
       Inr (format_matches_json (matches_for_command (ph_os h) policy (ci_command c) None)))"

section \<open>Rules accumulate\<close>

lemma rules_for_append_rule:
  "rules_for (append_rule r policy) program =
     rules_for policy program @ (if pr_first r = program then [r] else [])"
  by (auto simp: rules_for_def append_rule_def split: option.splits)

lemma rules_for_fold_append:
  "rules_for (fold append_rule rs policy) program =
     rules_for policy program @ filter (\<lambda>r. pr_first r = program) rs"
  by (induction rs arbitrary: policy) (simp_all add: rules_for_append_rule)

lemma bindE_InrE: "bindE m f = Inr y \<Longrightarrow> (\<And>x. m = Inr x \<Longrightarrow> f x = Inr y \<Longrightarrow> P) \<Longrightarrow> P"
  by (cases m) auto

lemma add_network_rule_keeps:
  "add_network_rule u host protocol d j policy = Inr policy' \<Longrightarrow>
     ep_rules_by_program policy' = ep_rules_by_program policy"
  by (auto simp: add_network_rule_def elim!: bindE_InrE split: if_splits)

lemma rules_for_network:
  "parse_network_rule u kwargs policy = (policy', res) \<Longrightarrow> rules_for policy' program = rules_for policy program"
  by (auto simp: parse_network_rule_def rules_for_def dest!: add_network_rule_keeps
      elim!: bindE_InrE split: sum.splits)

lemma rules_for_host_executable:
  "parse_host_executable os kwargs policy = (policy', res) \<Longrightarrow>
     rules_for policy' program = rules_for policy program"
  by (auto simp: parse_host_executable_def rules_for_def set_host_executable_paths_def Let_def
      elim!: bindE_InrE split: sum.splits)

lemma rules_for_prefix_rule:
  "parse_prefix_rule sh os kwargs policy = (policy', res) \<Longrightarrow>
     prefix (rules_for policy program) (rules_for policy' program)"
  by (auto simp: parse_prefix_rule_def Let_def rules_for_fold_append split: sum.splits)

lemma parse_call_keeps_rules:
  "parse_call sh u os call policy = (policy', res) \<Longrightarrow>
     prefix (rules_for policy program) (rules_for policy' program)"
  by (auto simp: parse_call_def rules_for_network rules_for_host_executable rules_for_prefix_rule
      split: sum.splits if_splits)

lemma parse_calls_keeps_rules:
  "parse_calls sh u os calls policy = (policy', res) \<Longrightarrow>
     prefix (rules_for policy program) (rules_for policy' program)"
proof (induction calls arbitrary: policy)
  case (Cons call calls)
  obtain policy1 res1 where c: "parse_call sh u os call policy = (policy1, res1)"
    by (cases "parse_call sh u os call policy")
  note first = parse_call_keeps_rules [OF c, of program]
  show ?case
  proof (cases res1)
    case (Inl err)
    with c Cons.prems first show ?thesis by simp
  next
    case (Inr a)
    with c Cons.prems have "parse_calls sh u os calls policy1 = (policy', res)"
      by (cases a) simp
    from first Cons.IH [OF this] show ?thesis by (rule prefix_order.order_trans)
  qed
qed simp

lemma direct_matches_mono:
  assumes "\<And>program. prefix (rules_for policy program) (rules_for policy' program)"
  shows "set (direct_matches policy command) \<subseteq> set (direct_matches policy' command)"
  using assms set_mono_prefix by (fastforce simp: direct_matches_iff subset_iff)

text \<open>
  Loading more rules only tightens: whatever calls are executed on a policy, and even if they fail
  on the way, a command that its rules matched before is still answered, at least as strictly.
\<close>

theorem loading_only_tightens:
  assumes "parse_calls sh u os calls policy = (policy', res)"
    and "direct_matches policy command \<noteq> []"
    and "check_with_options os policy command fallback opts = Inr e"
  shows "\<exists>e'. check_with_options os policy' command fallback opts = Inr e' \<and> ev_decision e \<le> ev_decision e'"
proof -
  have sub: "set (direct_matches policy command) \<subseteq> set (direct_matches policy' command)"
    using direct_matches_mono parse_calls_keeps_rules [OF assms(1)] by blast
  then have ne: "direct_matches policy' command \<noteq> []" using assms(2) by auto
  have opts: "matches_for_command_with_options os q command fallback opts = direct_matches q command"
    if "direct_matches q command \<noteq> []" for q
    using that by (auto simp: matches_for_command_with_options_def Let_def split: option.splits)
  obtain e' where e': "check_with_options os policy' command fallback opts = Inr e'"
    "ev_matched_rules e' = direct_matches policy' command"
    using ne opts [OF ne] by (simp add: check_with_options_def Let_def)
  have e: "ev_matched_rules e = direct_matches policy command"
    using assms(3) opts [OF assms(2)] by (auto simp: check_with_options_Inr Let_def)
  from check_decision(1) [OF assms(3)] e sub have "ev_decision e \<in> match_decision ` set (ev_matched_rules e')"
    using e'(2) by auto
  then have "ev_decision e \<le> ev_decision e'" using check_decision(2) [OF e'(1)] by auto
  with e' show ?thesis by blast
qed

section \<open>A rule that loads keeps the promises of its examples\<close>

lemma validate_match_examples_Inr [result_iff]:
  "validate_match_examples os policy rules examples = Inr u \<longleftrightarrow>
     (\<forall>e \<in> set examples. matches_for_command os policy e None \<noteq> [])"
  by (auto simp: validate_match_examples_def Let_def filter_empty_conv)

lemma validate_not_match_examples_Inr [result_iff]:
  "validate_not_match_examples os policy examples = Inr u \<longleftrightarrow>
     (\<forall>e \<in> set examples. matches_for_command os policy e None = [])"
  by (induction examples) (auto split: list.splits)

text \<open>
  A \<open>prefix_rule\<close> that loads keeps the promises of its examples: the policy gains exactly the
  expanded rules, each filed under its program after the rules already there, every \<open>match\<close> example
  is matched by the policy and no \<open>not_match\<close> example is.
\<close>

theorem loaded_prefix_rule_keeps_examples:
  assumes "parse_prefix_rule sh os kwargs policy = (policy', Inr ())"
  shows "\<exists>f. read_prefix_rule sh kwargs = Inr f
    \<and> (\<forall>program. rules_for policy' program =
         rules_for policy program @ filter (\<lambda>r. pr_first r = program) (expanded_rules f))
    \<and> (\<forall>e \<in> set (pf_matches f). matches_for_command os policy' e None \<noteq> [])
    \<and> (\<forall>e \<in> set (pf_not_matches f). matches_for_command os policy' e None = [])"
  using assms
  by (auto simp: parse_prefix_rule_def Let_def result_iff rules_for_fold_append split: sum.splits)

text \<open>
  The \<open>check\<close> command does not use \<open>--resolve-host-executables\<close>: with or without the flag it
  prints the same.
\<close>

theorem resolve_flag_is_ignored:
  "check_invocation_run h (c\<lparr>ci_resolve_host_executables := b\<rparr>) = check_invocation_run h c"
  by (simp add: check_invocation_run_def)

definition deny_push :: "(pystr, pylit) pydict" where
  "deny_push = [(lit ''pattern'', LList [LStr (lit ''git''), LStr (lit ''push'')]),
     (lit ''decision'', LStr (lit ''forbidden'')), (lit ''match'', LList [LList [LStr (lit ''git''), LStr (lit ''push'')]]),
     (lit ''not_match'', LList [LList [LStr (lit ''gh'')]])]"

definition deny_push_call :: policy_call where
  "deny_push_call = \<lparr>pc_name = Some (lit ''prefix_rule''),
     pc_keywords = map (\<lambda>(k, v). (Some k, Some v)) deny_push, pc_positional = False\<rparr>"

lemma loading_only_tightens_witness:
  "\<exists>e'. check_with_options posix (fst (parse_calls (\<lambda>_. Inr []) \<lparr>u_lower = id, u_isdigit = (\<lambda>_. False)\<rparr> posix
      [deny_push_call] git_policy)) [lit ''git'', lit ''push''] None False = Inr e' \<and> Prompt \<le> ev_decision e'"
proof -
  let ?cmd = "[lit ''git'', lit ''push'']"
  have d: "direct_matches git_policy ?cmd \<noteq> []"
    by (simp add: direct_matches_def git_rules git_rule_def rule_matches_def matches_prefix_def
        map_filter_simps Let_def del: lit.simps)
  obtain e where e: "check_with_options posix git_policy ?cmd None False = Inr e" "Prompt \<le> ev_decision e"
    using rule_bounds [of "git_rule [lit ''push''] Prompt" git_policy ?cmd posix "[]" None False]
    by (auto simp: git_rules pattern_accepts_def git_rule_def simp del: lit.simps)
  show ?thesis
    using loading_only_tightens [OF prod.collapse [symmetric] d e(1)] e(2) order_trans by blast
qed

lemma loaded_prefix_rule_keeps_examples_witness:
  "\<exists>policy' f. parse_prefix_rule (\<lambda>_. Inr []) posix deny_push git_policy = (policy', Inr ())
    \<and> read_prefix_rule (\<lambda>_. Inr []) deny_push = Inr f
    \<and> list_all (\<lambda>e. matches_for_command posix policy' e None \<noteq> []) (pf_matches f)
    \<and> list_all (\<lambda>e. matches_for_command posix policy' e None = []) (pf_not_matches f)"
proof -
  have "snd (parse_prefix_rule (\<lambda>_. Inr []) posix deny_push git_policy) = Inr ()" by code_simp
  then obtain policy' where p: "parse_prefix_rule (\<lambda>_. Inr []) posix deny_push git_policy = (policy', Inr ())"
    by (metis prod.collapse)
  show ?thesis using p loaded_prefix_rule_keeps_examples [OF p] by (auto simp: list_all_iff)
qed

end
