(* ===== verification/ExecPolicyAmend.thy ===== *)
theory ExecPolicyAmend
  imports ExecPolicyParser
begin

text \<open>
  Amending a policy file (\<open>pycodex/execpolicy/amend.py\<close>): the rule is printed as a line with its
  strings as JSON literals, and the line is appended unless the file has it. The file is its
  contents, \<open>None\<close> when it does not exist; the failures of the file system are parameters.
\<close>

section \<open>String literals\<close>

definition hex_digit :: "int \<Rightarrow> int" where
  "hex_digit n = (if n < 10 then 48 + n else 87 + n)"

text \<open>\<open>json.dumps(c, ensure_ascii=False)\<close> for one character, without the quotes.\<close>

definition json_escape :: "int \<Rightarrow> pystr" where
  "json_escape c =
     (if c = 34 then [92, 34] else if c = 92 then [92, 92]
      else if c = 8 then lit [CHR 92, CHR ''b''] else if c = 12 then lit [CHR 92, CHR ''f'']
      else if c = 10 then lit [CHR 92, CHR ''n''] else if c = 13 then lit [CHR 92, CHR ''r'']
      else if c = 9 then lit [CHR 92, CHR ''t'']
      else if c < 32 then [92, 117, 48, 48, hex_digit (c div 16), hex_digit (c mod 16)]
      else [c])"

definition json_policy_string :: "pystr \<Rightarrow> pystr" where
  "json_policy_string s = [34] @ concat (map json_escape s) @ [34]"

text \<open>
  Python's reading of a double-quoted literal, for the escapes that occur in JSON: the value and the
  rest of the line, \<open>None\<close> when the literal is not closed on the line or uses another escape.
\<close>

definition hex_value :: "int \<Rightarrow> int option" where
  "hex_value c =
     (if 48 \<le> c \<and> c \<le> 57 then Some (c - 48) else if 97 \<le> c \<and> c \<le> 102 then Some (c - 87)
      else if 65 \<le> c \<and> c \<le> 70 then Some (c - 55) else None)"

definition hex_value4 :: "int \<Rightarrow> int \<Rightarrow> int \<Rightarrow> int \<Rightarrow> int option" where
  "hex_value4 a b c d =
     (case (hex_value a, hex_value b, hex_value c, hex_value d) of
        (Some w, Some x, Some y, Some z) \<Rightarrow> Some (((w * 16 + x) * 16 + y) * 16 + z)
      | _ \<Rightarrow> None)"

definition simple_escape :: "int \<Rightarrow> int option" where
  "simple_escape c = map_of [(34, 34), (92, 92), (98, 8), (102, 12), (110, 10), (114, 13), (116, 9)] c"

fun read_literal_body :: "pystr \<Rightarrow> (pystr \<times> pystr) option" where
  "read_literal_body [] = None"
| "read_literal_body (c # cs) =
     (if c = 34 then Some ([], cs)
      else if c = 10 \<or> c = 13 then None
      else if c = 92 then
        (case cs of
           e # rest \<Rightarrow>
             if e = 117 then
               (case rest of
                  w # x # y # z # rest' \<Rightarrow>
                    (case hex_value4 w x y z of
                       None \<Rightarrow> None
                     | Some v \<Rightarrow> map_option (\<lambda>(s, r). (v # s, r)) (read_literal_body rest'))
                | _ \<Rightarrow> None)
             else
               (case simple_escape e of
                  None \<Rightarrow> None
                | Some v \<Rightarrow> map_option (\<lambda>(s, r). (v # s, r)) (read_literal_body rest))
         | [] \<Rightarrow> None)
      else map_option (\<lambda>(s, r). (c # s, r)) (read_literal_body cs))"

definition read_literal :: "pystr \<Rightarrow> (pystr \<times> pystr) option" where
  "read_literal s = (case s of [] \<Rightarrow> None | c # cs \<Rightarrow> if c = 34 then read_literal_body cs else None)"

lemma hex_value_digit: "0 \<le> n \<Longrightarrow> n < 16 \<Longrightarrow> hex_value (hex_digit n) = Some n"
  by (auto simp: hex_value_def hex_digit_def)

lemma hex_value_zero [simp]: "hex_value 48 = Some 0"
  by (simp add: hex_value_def)

lemma read_escape:
  assumes "0 \<le> c"
  shows "read_literal_body (json_escape c @ rest) = map_option (\<lambda>(s, r). (c # s, r)) (read_literal_body rest)"
proof -
  consider "c \<in> {34, 92, 8, 12, 10, 13, 9}" | "c \<notin> {34, 92, 8, 12, 10, 13, 9}" "c < 32"
    | "c \<notin> {34, 92, 8, 12, 10, 13, 9}" "32 \<le> c" by fastforce
  then show ?thesis
  proof cases
    case 1
    then show ?thesis by (auto simp: json_escape_def simple_escape_def)
  next
    case 2
    then have "c div 16 < 16" "0 \<le> c div 16" using assms by auto
    then have h: "hex_value (hex_digit (c div 16)) = Some (c div 16)"
      "hex_value (hex_digit (c mod 16)) = Some (c mod 16)"
      by (simp_all add: hex_value_digit)
    have "json_escape c = [92, 117, 48, 48, hex_digit (c div 16), hex_digit (c mod 16)]"
      using 2 by (simp add: json_escape_def)
    moreover have "hex_value4 48 48 (hex_digit (c div 16)) (hex_digit (c mod 16)) = Some c"
      using h by (simp add: hex_value4_def)
    ultimately show ?thesis by simp
  next
    case 3
    then show ?thesis by (simp add: json_escape_def)
  qed
qed

text \<open>
  The strings written into a policy file are read back unchanged: scanning the JSON literal of any
  string, with anything after it on the line, gives the string and what follows.
\<close>

theorem policy_string_reads_back:
  assumes "\<forall>c \<in> set s. 0 \<le> c"
  shows "read_literal (json_policy_string s @ rest) = Some (s, rest)"
proof -
  have "read_literal_body (concat (map json_escape s) @ 34 # rest) = Some (s, rest)"
    using assms by (induction s) (simp_all add: read_escape)
  then show ?thesis by (simp add: read_literal_def json_policy_string_def)
qed

section \<open>Appending a line\<close>

datatype amend_exn = AmendError pystr | AmendOther exec_policy_exn

record amend_host =
  am_mkdir :: "pypath \<Rightarrow> pystr option"
  am_read :: "pypath \<Rightarrow> pystr option"
  am_write :: "pypath \<Rightarrow> pystr option"

definition append_rule_line ::
  "amend_host \<Rightarrow> pypath \<Rightarrow> pystr \<Rightarrow> pystr option \<Rightarrow> (amend_exn, pystr option) result" where
  "append_rule_line h path line file =
     (let parent = path_parent path in
      if path_str parent = lit ''.'' then
        Inl (AmendError (lit ''policy path has no parent: '' @ path_str path))
      else case am_mkdir h parent of
        Some err \<Rightarrow> Inl (AmendError (lit ''failed to create policy directory '' @ path_str parent
                       @ lit '': '' @ err))
      | None \<Rightarrow>
          (case (if file = None then None else am_read h path) of
             Some err \<Rightarrow> Inl (AmendError (lit ''failed to read policy file '' @ path_str path @ lit '': '' @ err))
           | None \<Rightarrow>
               let contents = (case file of None \<Rightarrow> [] | Some c \<Rightarrow> c) in
               if line \<in> set (splitlines contents) then Inr file
               else case am_write h path of
                 Some err \<Rightarrow> Inl (AmendError (lit ''failed to write to policy file ''
                                @ path_str path @ lit '': '' @ err))
               | None \<Rightarrow> Inr (Some (contents
                     @ (if contents \<noteq> [] \<and> \<not> ends_with contents [10] then [10] else [])
                     @ line @ [10]))))"

definition prefix_rule_line :: "pystr list \<Rightarrow> pystr" where
  "prefix_rule_line tokens =
     lit ''prefix_rule(pattern=['' @ join_with (lit '', '') (map json_policy_string tokens)
       @ lit ''], decision='' @ json_policy_string (lit ''allow'') @ lit '')''"

definition blocking_append_allow_prefix_rule ::
  "amend_host \<Rightarrow> pypath \<Rightarrow> pystr list \<Rightarrow> pystr option \<Rightarrow> (amend_exn, pystr option) result" where
  "blocking_append_allow_prefix_rule h path tokens file =
     (if tokens = [] then Inl (AmendError (lit ''prefix rule requires at least one token''))
      else append_rule_line h path (prefix_rule_line tokens) file)"

definition network_rule_line ::
  "pystr \<Rightarrow> network_protocol \<Rightarrow> pystr \<Rightarrow> pystr option \<Rightarrow> pystr" where
  "network_rule_line host protocol decision_text justification =
     lit ''network_rule('' @ join_with (lit '', '')
       ([lit ''host='' @ json_policy_string host,
         lit ''protocol='' @ json_policy_string (protocol_value protocol),
         lit ''decision='' @ json_policy_string decision_text]
        @ (case justification of None \<Rightarrow> []
           | Some j \<Rightarrow> [lit ''justification='' @ json_policy_string j]))
       @ lit '')''"

definition decision_text :: "pystr \<Rightarrow> (amend_exn, pystr) result" where
  "decision_text decision =
     (if decision = lit ''forbidden'' then Inr (lit ''deny'')
      else if decision = lit ''allow'' \<or> decision = lit ''prompt'' then Inr decision
      else Inl (AmendError (lit ''invalid network rule: unknown decision: '' @ decision)))"

definition blocking_append_network_rule ::
  "unicode \<Rightarrow> amend_host \<Rightarrow> pypath \<Rightarrow> pystr \<Rightarrow> pystr \<Rightarrow> pystr \<Rightarrow> pystr option \<Rightarrow> pystr option
     \<Rightarrow> (amend_exn, pystr option) result" where
  "blocking_append_network_rule u h path host protocol decision justification file =
     (case normalize_network_rule_host u host of
        Inl err \<Rightarrow> Inl (AmendError (lit ''invalid network rule: '' @ exec_policy_exn_str err))
      | Inr normalized_host \<Rightarrow>
          if justification \<noteq> None \<and> strip (the justification) = [] then
            Inl (AmendError (lit ''invalid network rule: justification cannot be empty''))
          else case protocol_parse protocol of
            Inl err \<Rightarrow> Inl (AmendOther err)
          | Inr parsed_protocol \<Rightarrow>
              bindE (decision_text decision) (\<lambda>text.
                append_rule_line h path
                  (network_rule_line normalized_host parsed_protocol text justification) file))"

section \<open>The file after an amendment\<close>

definition host_ok :: "amend_host \<Rightarrow> pypath \<Rightarrow> bool" where
  "host_ok h path \<longleftrightarrow> am_mkdir h (path_parent path) = None \<and> am_read h path = None
     \<and> am_write h path = None \<and> path_str (path_parent path) \<noteq> lit ''.''"

definition file_lines :: "pystr option \<Rightarrow> pystr list" where
  "file_lines file = (case file of None \<Rightarrow> [] | Some c \<Rightarrow> splitlines c)"

lemma splitlines_nonempty: "s \<noteq> [] \<Longrightarrow> splitlines s \<noteq> []"
  by (cases s) (auto simp: splitlines.simps(2) split: list.splits)

lemma splitlines_append_lf:
  "splitlines (s @ 10 # t) = splitlines (s @ [10]) @ splitlines t"
proof (induction s rule: splitlines.induct)
  case 1
  then show ?case by (simp add: splitlines_lf)
next
  case (2 c cs)
  show ?case
  proof (cases "c = 13 \<and> cs \<noteq> [] \<and> hd cs = 10")
    case True
    then obtain cs' where cs: "cs = 10 # cs'" by (cases cs) auto
    with True 2(1) show ?thesis by (simp add: splitlines.simps(2))
  next
    case False
    show ?thesis
    proof (cases "is_linebreak c")
      case True
      show ?thesis
      proof (cases "c = 13 \<and> cs = []")
        case True
        then show ?thesis by (simp add: splitlines.simps(2))
      next
        case nocr: False
        have "splitlines (c # cs @ 10 # t) = [] # splitlines (cs @ 10 # t)"
          "splitlines (c # cs @ [10]) = [] # splitlines (cs @ [10])"
          using False True nocr by (auto simp: splitlines.simps(2) hd_append)
        with 2 False True show ?thesis by simp
      qed
    next
      case nob: False
      obtain l ls where "splitlines (cs @ [10]) = l # ls"
        using splitlines_nonempty [of "cs @ [10]"] by (cases "splitlines (cs @ [10])") auto
      with nob 2 False show ?thesis by (simp add: splitlines_nonbreak)
    qed
  qed
qed

lemma splitlines_snoc_lf: "\<exists>extra. splitlines (s @ [10]) = splitlines s @ extra"
proof (induction s rule: splitlines.induct)
  case 1
  then show ?case by simp
next
  case (2 c cs)
  show ?case
  proof (cases "c = 13 \<and> cs \<noteq> [] \<and> hd cs = 10")
    case True
    then obtain cs' where cs: "cs = 10 # cs'" by (cases cs) auto
    with True 2(1) show ?thesis by (auto simp: splitlines.simps(2))
  next
    case False
    show ?thesis
    proof (cases "cs = []")
      case True
      then show ?thesis by (cases "is_linebreak c") (auto simp: splitlines.simps(2))
    next
      case ne: False
      then have s: "splitlines (c # cs @ [10]) = (if is_linebreak c then [] # splitlines (cs @ [10])
          else (case splitlines (cs @ [10]) of [] \<Rightarrow> [[c]] | l # ls \<Rightarrow> (c # l) # ls))"
        using False by (auto simp: splitlines.simps(2) hd_append)
      obtain l ls where l: "splitlines cs = l # ls"
        using splitlines_nonempty [OF ne] by (cases "splitlines cs") auto
      obtain extra where "splitlines (cs @ [10]) = splitlines cs @ extra"
        using 2(2,3) False by blast
      with s l False show ?thesis by (auto simp: splitlines.simps(2))
    qed
  qed
qed

lemma splitlines_appended_line:
  assumes "\<forall>c \<in> set line. \<not> is_linebreak c"
  shows "\<exists>extra. splitlines (contents @ (if contents \<noteq> [] \<and> \<not> ends_with contents [10] then [10] else [])
    @ line @ [10]) = splitlines contents @ extra @ [line]"
proof -
  have line: "splitlines (line @ [10]) = [line]"
    using splitlines_line [OF assms, of "[]"] by simp
  consider "contents = []" | c where "contents = c @ [10]"
    | "contents \<noteq> []" "\<not> ends_with contents [10]"
    using ends_with_iff [of contents "[10]"] by blast
  then show ?thesis
  proof cases
    case 2
    then show ?thesis using line splitlines_append_lf [of c "line @ [10]"] by (simp add: ends_with_iff)
  next
    case 3
    obtain extra where "splitlines (contents @ [10]) = splitlines contents @ extra"
      using splitlines_snoc_lf by blast
    then show ?thesis using 3 line splitlines_append_lf [of contents "line @ [10]"] by simp
  qed (simp add: line)
qed

text \<open>
  Appending a rule keeps the policy file: the old lines stay, in place, the new line is among the
  lines afterwards, and appending it again changes nothing.
\<close>

theorem append_keeps_lines_and_is_idempotent:
  assumes "host_ok h path" and "\<forall>c \<in> set line. \<not> is_linebreak c"
  shows "\<exists>file'. append_rule_line h path line file = Inr file'
    \<and> prefix (file_lines file) (file_lines file') \<and> line \<in> set (file_lines file')
    \<and> append_rule_line h path line file' = Inr file'"
proof -
  have ok: "path_str (path_parent path) \<noteq> lit ''.''" "am_mkdir h (path_parent path) = None"
    "am_read h path = None" "am_write h path = None"
    using assms(1) by (simp_all add: host_ok_def)
  have present: "append_rule_line h path line f = Inr f" if "line \<in> set (file_lines f)" for f
    using that ok by (cases f) (simp_all add: append_rule_line_def file_lines_def Let_def)
  show ?thesis
  proof (cases "line \<in> set (file_lines file)")
    case True
    then show ?thesis using present by auto
  next
    case False
    define contents where "contents = (case file of None \<Rightarrow> [] | Some c \<Rightarrow> c)"
    define sep where "sep = (if contents \<noteq> [] \<and> \<not> ends_with contents [10] then [10] else ([] :: pystr))"
    let ?file' = "Some (contents @ sep @ line @ [10])"
    have fl: "file_lines file = splitlines contents"
      by (cases "file") (simp_all add: file_lines_def contents_def)
    with False have app: "append_rule_line h path line file = Inr ?file'"
      using ok by (simp add: append_rule_line_def Let_def sep_def contents_def)
    have "\<exists>extra. splitlines (contents @ sep @ line @ [10]) = splitlines contents @ extra @ [line]"
      unfolding sep_def by (rule splitlines_appended_line [OF assms(2)])
    then obtain extra where e: "file_lines ?file' = file_lines file @ extra @ [line]"
      by (auto simp: file_lines_def fl [unfolded file_lines_def])
    then have "line \<in> set (file_lines ?file')" by simp
    with app e present show ?thesis by (auto simp: prefix_def)
  qed
qed

definition prefix_kwargs :: "pystr list \<Rightarrow> (pystr, pylit) pydict" where
  "prefix_kwargs tokens =
     [(lit ''pattern'', LList (map LStr tokens)), (lit ''decision'', LStr (lit ''allow''))]"

lemma parse_pattern_strings:
  "mapE parse_pattern_item (map LStr tokens) = Inr (map Single tokens)"
  by (induction tokens) (simp_all add: parse_pattern_item_def)

text \<open>
  The call an amendment writes for a prefix loads as the rule it stands for: it leaves the same
  policy as adding the prefix with decision \<open>allow\<close> in memory, and that policy holds a rule allowing
  the prefix.
\<close>

theorem amended_prefix_loads_as_added:
  assumes "tokens \<noteq> []"
  shows "\<exists>policy'. parse_prefix_rule sh os (prefix_kwargs tokens) policy = (policy', Inr ())
    \<and> add_prefix_rule tokens (lit ''allow'') policy = Inr policy'
    \<and> (\<exists>rule \<in> set (rules_for policy' (hd tokens)). pr_decision rule = Allow \<and> pattern_accepts rule tokens)"
proof -
  obtain t ts where t: "tokens = t # ts" using assms by (cases tokens) auto
  let ?rule = "\<lparr>pr_first = t, pr_rest = map Single ts, pr_decision = Allow, pr_justification = None\<rparr>"
  have keys: "lit ''pattern'' \<noteq> lit ''decision''" "lit ''justification'' \<noteq> lit ''pattern''"
    "lit ''justification'' \<noteq> lit ''decision''" "lit ''match'' \<noteq> lit ''pattern''"
    "lit ''match'' \<noteq> lit ''decision''" "lit ''not_match'' \<noteq> lit ''pattern''"
    "lit ''not_match'' \<noteq> lit ''decision''"
    by (simp_all only: lit_inject) simp_all
  have kw: "kwarg (prefix_kwargs tokens) ''pattern'' = LList (map LStr tokens)"
    "dict_get (prefix_kwargs tokens) (lit ''decision'') = Some (LStr (lit ''allow''))"
    "kwarg (prefix_kwargs tokens) ''justification'' = LNone"
    "kwarg (prefix_kwargs tokens) ''match'' = LNone"
    "kwarg (prefix_kwargs tokens) ''not_match'' = LNone"
    using keys by (simp_all add: kwarg_def prefix_kwargs_def dict_get_def del: lit.simps)
  have pat: "parse_pattern_literal (LList (map LStr tokens)) = Inr (Single t # map Single ts)"
    using parse_pattern_strings [of tokens] by (simp add: parse_pattern_literal_def t)
  have dec: "decision_parse (lit ''allow'') = Inr Allow"
    by (simp add: decision_parse_def)
  have "read_prefix_rule sh (prefix_kwargs tokens) = Inr \<lparr>pf_pattern = Single t # map Single ts,
      pf_decision = Allow, pf_justification = None, pf_matches = [], pf_not_matches = []\<rparr>"
    unfolding read_prefix_rule_def kw pat
    by (simp add: literal_string_def dec parse_examples_literal_def del: lit.simps)
  then have "parse_prefix_rule sh os (prefix_kwargs tokens) policy = (append_rule ?rule policy, Inr ())"
    by (simp add: parse_prefix_rule_def Let_def expanded_rules_def validate_match_examples_def)
  moreover have "add_prefix_rule tokens (lit ''allow'') policy = Inr (append_rule ?rule policy)"
    by (simp add: add_prefix_rule_def t dec del: lit.simps)
  moreover have "pattern_accepts ?rule tokens"
    by (simp add: pattern_accepts_def t list_all2_map1 list_all2_same)
  ultimately show ?thesis by (auto simp: rules_for_append_rule t intro!: bexI [of _ ?rule])
qed

lemma policy_string_reads_back_witness:
  "read_literal (json_policy_string [34, 92, 10, 1, 233] @ lit '', x'') = Some ([34, 92, 10, 1, 233], lit '', x'')"
  by (rule policy_string_reads_back) simp

lemma append_keeps_lines_and_is_idempotent_witness:
  "\<exists>file'. append_rule_line \<lparr>am_mkdir = (\<lambda>_. None), am_read = (\<lambda>_. None), am_write = (\<lambda>_. None)\<rparr>
      (PyPath [] [lit ''rules'', lit ''default.rules'']) (lit ''b'') (Some (lit ''a'')) = Inr file'
    \<and> prefix [lit ''a''] (file_lines file') \<and> lit ''b'' \<in> set (file_lines file')"
proof -
  let ?h = "\<lparr>am_mkdir = (\<lambda>_. None), am_read = (\<lambda>_. None), am_write = (\<lambda>_. None)\<rparr>"
  have "host_ok ?h (PyPath [] [lit ''rules'', lit ''default.rules''])"
    by (simp add: host_ok_def path_str_def path_parent_def)
  moreover have "file_lines (Some (lit ''a'')) = [lit ''a'']"
    by (simp add: file_lines_def is_linebreak_def splitlines.simps)
  ultimately show ?thesis
    using append_keeps_lines_and_is_idempotent [of ?h "PyPath [] [lit ''rules'', lit ''default.rules'']" "lit ''b''"
        "Some (lit ''a'')"]
    by (auto simp: is_linebreak_def)
qed

lemma amended_prefix_loads_as_added_witness:
  "\<exists>policy'. parse_prefix_rule (\<lambda>_. Inr []) posix (prefix_kwargs [lit ''ls'']) exec_policy_empty = (policy', Inr ())
    \<and> add_prefix_rule [lit ''ls''] (lit ''allow'') exec_policy_empty = Inr policy'"
  using amended_prefix_loads_as_added [of "[lit ''ls'']" "\<lambda>_. Inr []" posix exec_policy_empty] by blast

end
