(* ===== verification/StreamText.thy ===== *)
theory StreamText
  imports Prelude
begin

text \<open>
  The contract of the streaming text parsers (\<open>pycodex/utils/stream_parser/stream_text.py\<close>): a
  parser takes the text in pieces, returns what each piece determines, and gives the rest when the
  stream ends. The locale states the law every such parser obeys, that the division of the text
  into pieces does not matter.
\<close>

section \<open>Chunks\<close>

record 't text_chunk =
  visible_text :: pystr
  extracted :: "'t list"

definition no_text :: "'t text_chunk" where
  "no_text = \<lparr>visible_text = [], extracted = []\<rparr>"

definition text_chunk_is_empty :: "'t text_chunk \<Rightarrow> bool" where
  "text_chunk_is_empty c \<longleftrightarrow> visible_text c = [] \<and> extracted c = []"

definition chunk_append :: "'t text_chunk \<Rightarrow> 't text_chunk \<Rightarrow> 't text_chunk" where
  "chunk_append a b =
     \<lparr>visible_text = visible_text a @ visible_text b, extracted = extracted a @ extracted b\<rparr>"

lemma chunk_append_no_text [simp]: "chunk_append c no_text = c" "chunk_append no_text c = c"
  by (simp_all add: chunk_append_def no_text_def)

lemma chunk_append_assoc: "chunk_append (chunk_append a b) c = chunk_append a (chunk_append b c)"
  by (simp add: chunk_append_def)

section \<open>Feeding a parser piece by piece\<close>

fun push_pieces :: "('s \<Rightarrow> pystr \<Rightarrow> 's \<times> 'o) \<Rightarrow> ('o \<Rightarrow> 'o \<Rightarrow> 'o) \<Rightarrow> 'o \<Rightarrow> 's \<Rightarrow> pystr list \<Rightarrow> 's \<times> 'o" where
  "push_pieces push merge none s [] = (s, none)"
| "push_pieces push merge none s (piece # pieces) =
     (case push s piece of (s1, o1) \<Rightarrow>
        case push_pieces push merge none s1 pieces of (s2, o2) \<Rightarrow> (s2, merge o1 o2))"

definition parse_stream ::
  "('s \<Rightarrow> pystr \<Rightarrow> 's \<times> 'o) \<Rightarrow> ('s \<Rightarrow> 's \<times> 'o) \<Rightarrow> ('o \<Rightarrow> 'o \<Rightarrow> 'o) \<Rightarrow> 'o \<Rightarrow> 's \<Rightarrow> pystr list \<Rightarrow> 'o" where
  "parse_stream push finish merge none s pieces =
     (case push_pieces push merge none s pieces of (s1, o1) \<Rightarrow>
        case finish s1 of (s2, o2) \<Rightarrow> merge o1 o2)"

section \<open>The law of a streaming parser\<close>

locale stream_parser =
  fixes push :: "'s \<Rightarrow> pystr \<Rightarrow> 's \<times> 'o"
    and merge :: "'o \<Rightarrow> 'o \<Rightarrow> 'o"
    and none :: 'o
    and ok :: "'s \<Rightarrow> bool"
  assumes push_ok: "ok s \<Longrightarrow> ok (fst (push s a))"
    and push_nil: "ok s \<Longrightarrow> push s [] = (s, none)"
    and push_split: "ok s \<Longrightarrow> push s (a @ b) =
      (case push s a of (s1, o1) \<Rightarrow> case push s1 b of (s2, o2) \<Rightarrow> (s2, merge o1 o2))"
    and merge_none: "merge x none = x"
begin

lemma pieces_concat: "ok s \<Longrightarrow> push_pieces push merge none s pieces = push s (concat pieces)"
proof (induction pieces arbitrary: s)
  case (Cons piece pieces)
  obtain s1 o1 where "push s piece = (s1, o1)" by (cases "push s piece")
  with Cons push_ok [OF Cons.prems, of piece] push_split [OF Cons.prems, of piece "concat pieces"]
  show ?case by simp
qed (simp add: push_nil)

lemma pieces_irrelevant:
  "ok s \<Longrightarrow> concat xs = concat ys \<Longrightarrow>
     push_pieces push merge none s xs = push_pieces push merge none s ys"
  by (simp add: pieces_concat)

lemma pieces_ok: "ok s \<Longrightarrow> ok (fst (push_pieces push merge none s pieces))"
  by (simp add: pieces_concat push_ok)

end

locale finishing_parser = stream_parser push merge none ok
  for push :: "'s \<Rightarrow> pystr \<Rightarrow> 's \<times> 'o" and merge :: "'o \<Rightarrow> 'o \<Rightarrow> 'o" and none :: 'o and ok :: "'s \<Rightarrow> bool" +
  fixes finish :: "'s \<Rightarrow> 's \<times> 'o"
    and start :: 's
  assumes start_ok: "ok start"
    and finish_start: "ok s \<Longrightarrow> fst (finish s) = start"
begin

lemma stream_concat:
  "parse_stream push finish merge none start pieces = parse_stream push finish merge none start [concat pieces]"
proof -
  have "push_pieces push merge none start pieces = push_pieces push merge none start [concat pieces]"
    by (rule pieces_irrelevant [OF start_ok]) simp
  then show ?thesis by (simp only: parse_stream_def)
qed

lemma stream_irrelevant:
  "concat xs = concat ys \<Longrightarrow>
     parse_stream push finish merge none start xs = parse_stream push finish merge none start ys"
  by (metis stream_concat)

text \<open>A finished parser is as new: a second stream is parsed as by a fresh parser.\<close>

lemma finish_restarts: "ok s \<Longrightarrow> push (fst (finish s)) a = push start a"
  by (simp add: finish_start)

end

end
