(* ===== verification/HiddenTag.thy ===== *)
theory HiddenTag
  imports StreamText
begin

text \<open>
  \<open>pycodex/utils/stream_parser/inline_hidden_tag.py\<close>: literal inline tags are hidden from the text
  and their contents extracted, while the text arrives in pieces; and its one client,
  \<open>citation.py\<close>. The parser holds back the longest end of the text that may still become a
  delimiter, and this is shown to make the division into pieces irrelevant for one tag.
\<close>

section \<open>The parser\<close>

record 't extracted_tag =
  et_tag :: 't
  et_content :: pystr

record 't tag_spec =
  ts_tag :: 't
  ts_open :: pystr
  ts_close :: pystr

record 't active_tag =
  at_tag :: 't
  at_close :: pystr
  at_content :: pystr

record 't hidden_parser =
  hp_specs :: "'t tag_spec list"
  hp_pending :: pystr
  hp_active :: "'t active_tag option"

definition specs_ok :: "'t tag_spec list \<Rightarrow> bool" where
  "specs_ok specs \<longleftrightarrow> specs \<noteq> [] \<and> list_all (\<lambda>s. ts_open s \<noteq> [] \<and> ts_close s \<noteq> []) specs"

definition hidden_parser_new :: "'t tag_spec list \<Rightarrow> (pystr, 't hidden_parser) result" where
  "hidden_parser_new specs =
     (if specs = [] then Inl (lit ''InlineHiddenTagParser requires at least one tag spec'')
      else case find (\<lambda>s. ts_open s = [] \<or> ts_close s = []) specs of
        Some s \<Rightarrow> Inl (if ts_open s = []
          then lit ''InlineHiddenTagParser requires non-empty open delimiters''
          else lit ''InlineHiddenTagParser requires non-empty close delimiters'')
      | None \<Rightarrow> Inr \<lparr>hp_specs = specs, hp_pending = [], hp_active = None\<rparr>)"

text \<open>The best candidate: least position, then longest delimiter, then first specification.\<close>

fun find_open_from :: "pystr \<Rightarrow> 't tag_spec list \<Rightarrow> (nat \<times> 't tag_spec) option \<Rightarrow> (nat \<times> 't tag_spec) option"
where
  "find_open_from pending [] best = best"
| "find_open_from pending (spec # specs) best =
     (case str_find pending (ts_open spec) of
        None \<Rightarrow> find_open_from pending specs best
      | Some pos \<Rightarrow>
          find_open_from pending specs
            (case best of
               None \<Rightarrow> Some (pos, spec)
             | Some (bpos, bspec) \<Rightarrow>
                 if pos < bpos \<or> pos = bpos \<and> length (ts_open bspec) < length (ts_open spec)
                 then Some (pos, spec) else best))"

definition find_next_open :: "'t tag_spec list \<Rightarrow> pystr \<Rightarrow> (nat \<times> 't tag_spec) option" where
  "find_next_open specs pending = find_open_from pending specs None"

definition longest_suffix_prefix_len :: "pystr \<Rightarrow> pystr \<Rightarrow> nat" where
  "longest_suffix_prefix_len s needle =
     (let max_len = min (length s) (length needle - 1) in
      case find (\<lambda>l. ends_with s (take l needle)) (rev [1..<Suc max_len]) of
        Some l \<Rightarrow> l | None \<Rightarrow> 0)"

definition max_open_prefix_suffix_len :: "'t tag_spec list \<Rightarrow> pystr \<Rightarrow> nat" where
  "max_open_prefix_suffix_len specs pending =
     fold max (map (\<lambda>s. longest_suffix_prefix_len pending (ts_open s)) specs) 0"

text \<open>
  The \<open>while\<close> loop of \<open>push_str\<close>. Every iteration that continues removes a non-empty delimiter from
  the pending text, so one more step than its length is enough (\<open>hidden_loop_fuel\<close>).
\<close>

type_synonym 't hidden_state = "'t active_tag option \<times> pystr \<times> 't extracted_tag text_chunk"

fun hidden_loop :: "'t tag_spec list \<Rightarrow> nat \<Rightarrow> 't hidden_state \<Rightarrow> 't hidden_state" where
  "hidden_loop specs 0 st = st"
| "hidden_loop specs (Suc fuel) (active, pending, out) =
     (case active of
        Some a \<Rightarrow>
          (case str_find pending (at_close a) of
             Some close_idx \<Rightarrow>
               hidden_loop specs fuel
                 (None, drop (close_idx + length (at_close a)) pending,
                  out\<lparr>extracted := extracted out @
                    [\<lparr>et_tag = at_tag a, et_content = at_content a @ take close_idx pending\<rparr>]\<rparr>)
           | None \<Rightarrow>
               let n = length pending - longest_suffix_prefix_len pending (at_close a) in
               (Some (a\<lparr>at_content := at_content a @ take n pending\<rparr>), drop n pending, out))
      | None \<Rightarrow>
          (case find_next_open specs pending of
             Some (open_idx, spec) \<Rightarrow>
               hidden_loop specs fuel
                 (Some \<lparr>at_tag = ts_tag spec, at_close = ts_close spec, at_content = []\<rparr>,
                  drop (open_idx + length (ts_open spec)) pending,
                  out\<lparr>visible_text := visible_text out @ take open_idx pending\<rparr>)
           | None \<Rightarrow>
               let n = length pending - max_open_prefix_suffix_len specs pending in
               (None, drop n pending, out\<lparr>visible_text := visible_text out @ take n pending\<rparr>)))"

definition hidden_push :: "'t hidden_parser \<Rightarrow> pystr \<Rightarrow> 't hidden_parser \<times> 't extracted_tag text_chunk" where
  "hidden_push p chunk =
     (let pending = hp_pending p @ chunk;
          (active, pending', out) =
            hidden_loop (hp_specs p) (Suc (length pending)) (hp_active p, pending, no_text)
      in (p\<lparr>hp_active := active, hp_pending := pending'\<rparr>, out))"

definition hidden_finish :: "'t hidden_parser \<Rightarrow> 't hidden_parser \<times> 't extracted_tag text_chunk" where
  "hidden_finish p =
     (case hp_active p of
        Some a \<Rightarrow> (p\<lparr>hp_pending := [], hp_active := None\<rparr>,
          no_text\<lparr>extracted := [\<lparr>et_tag = at_tag a, et_content = at_content a @ hp_pending p\<rparr>]\<rparr>)
      | None \<Rightarrow> (p\<lparr>hp_pending := []\<rparr>, no_text\<lparr>visible_text := hp_pending p\<rparr>))"

section \<open>Citations\<close>

definition CITATION_OPEN :: pystr where "CITATION_OPEN = lit ''<oai-mem-citation>''"
definition CITATION_CLOSE :: pystr where "CITATION_CLOSE = lit ''</oai-mem-citation>''"

definition citation_specs :: "unit tag_spec list" where
  "citation_specs = [\<lparr>ts_tag = (), ts_open = CITATION_OPEN, ts_close = CITATION_CLOSE\<rparr>]"

definition citation_new :: "unit hidden_parser" where
  "citation_new = \<lparr>hp_specs = citation_specs, hp_pending = [], hp_active = None\<rparr>"

definition contents_only :: "'t extracted_tag text_chunk \<Rightarrow> pystr text_chunk" where
  "contents_only c = \<lparr>visible_text = visible_text c, extracted = map et_content (extracted c)\<rparr>"

definition citation_push :: "unit hidden_parser \<Rightarrow> pystr \<Rightarrow> unit hidden_parser \<times> pystr text_chunk" where
  "citation_push p chunk = map_prod id contents_only (hidden_push p chunk)"

definition citation_finish :: "unit hidden_parser \<Rightarrow> unit hidden_parser \<times> pystr text_chunk" where
  "citation_finish p = map_prod id contents_only (hidden_finish p)"

definition strip_citations :: "pystr \<Rightarrow> pystr \<times> pystr list" where
  "strip_citations text =
     (case citation_push citation_new text of (p, out) \<Rightarrow>
        case citation_finish p of (_, tail) \<Rightarrow>
          (visible_text out @ visible_text tail, extracted out @ extracted tail))"

section \<open>The text that is held back\<close>

lemma find_rev_upt:
  "(case find P (rev [1..<Suc n]) of Some l \<Rightarrow> l | None \<Rightarrow> 0) = k \<longleftrightarrow>
     k \<le> n \<and> (k = 0 \<or> P k) \<and> (\<forall>l. k < l \<and> l \<le> n \<longrightarrow> \<not> P l)"
proof (induction n)
  case (Suc n)
  have "rev [1..<Suc (Suc n)] = Suc n # rev [1..<Suc n]" by simp
  then show ?case
  proof (cases "P (Suc n)")
    case True
    then show ?thesis using \<open>rev [1..<Suc (Suc n)] = _\<close>
      by (auto simp del: upt_Suc) (metis le_SucE not_less_eq_eq le_eq_less_or_eq)
  next
    case False
    then have "(case find P (rev [1..<Suc (Suc n)]) of Some l \<Rightarrow> l | None \<Rightarrow> 0) =
        (case find P (rev [1..<Suc n]) of Some l \<Rightarrow> l | None \<Rightarrow> 0)"
      using \<open>rev [1..<Suc (Suc n)] = _\<close> by (simp del: upt_Suc)
    with Suc False show ?thesis by (auto simp: le_Suc_eq simp del: upt_Suc)
  qed
qed auto

lemma ends_with_take: "ends_with s [] = True"
  by (simp add: ends_with_def)

lemma longest_eq:
  "longest_suffix_prefix_len s needle = k \<longleftrightarrow>
     k \<le> min (length s) (length needle - 1) \<and> ends_with s (take k needle)
     \<and> (\<forall>l. k < l \<and> l \<le> min (length s) (length needle - 1) \<longrightarrow> \<not> ends_with s (take l needle))"
  unfolding longest_suffix_prefix_len_def Let_def find_rev_upt by (auto simp: ends_with_take)

lemma longest_le: "longest_suffix_prefix_len s needle \<le> length s"
  using longest_eq [of s needle "longest_suffix_prefix_len s needle"] by simp

text \<open>
  What is released can be forgotten: once the needle is not in \<open>s\<close>, whether and where it occurs in
  \<open>s @ t\<close> is decided by the part held back.
\<close>

lemma starts_with_released:
  assumes none: "str_find s needle = None"
    and i: "i < length s - longest_suffix_prefix_len s needle"
    and ne: "needle \<noteq> []"
  shows "\<not> starts_with (drop i s @ t) needle"
proof
  assume st: "starts_with (drop i s @ t) needle"
  have i': "i < length s" using i by simp
  have short: "length (drop i s) < length needle"
  proof (rule ccontr)
    assume "\<not> ?thesis"
    then have "starts_with (drop i s) needle" using st by (simp add: starts_with_append_long)
    with none i' show False by (simp add: str_find_None)
  qed
  let ?l = "length (drop i s)"
  have l: "?l < length needle" "length s - ?l = i" using short i' by simp_all
  have "take ?l needle = take ?l (take (length needle) (drop i s @ t))"
    using st by (simp add: starts_with_def)
  also have "\<dots> = drop i s" using l by (simp add: take_append min_def)
  finally have "ends_with s (take ?l needle)" using l i' by (simp add: ends_with_def)
  moreover have "longest_suffix_prefix_len s needle < ?l" using i by simp
  moreover have "?l \<le> min (length s) (length needle - 1)" using l by simp
  ultimately show False using longest_eq [of s needle] by blast
qed

definition held_back :: "pystr \<Rightarrow> pystr \<Rightarrow> pystr" where
  "held_back s needle = drop (length s - longest_suffix_prefix_len s needle) s"

lemma length_held_back [simp]: "length (held_back s needle) = longest_suffix_prefix_len s needle"
  using longest_le [of s needle] by (simp add: held_back_def)

lemma find_appended: "str_find s needle = Some i \<Longrightarrow> str_find (s @ t) needle = Some i"
proof -
  assume f: "str_find s needle = Some i"
  note p = str_find_Some [OF f]
  have len: "i + length needle \<le> length s"
    using p starts_with_length [of "drop i s" needle] by (simp add: le_diff_conv2 add.commute)
  show ?thesis
  proof (rule str_find_first)
    show "starts_with (drop i (s @ t)) needle"
      using p by (simp add: starts_with_append_mono)
    show "\<forall>j < i. \<not> starts_with (drop j (s @ t)) needle"
      using p len by (auto simp: starts_with_append_long)
  qed (use p in simp)
qed

lemma find_released:
  assumes "str_find s needle = None" "needle \<noteq> []"
  shows "str_find (s @ t) needle =
    map_option ((+) (length s - longest_suffix_prefix_len s needle)) (str_find (held_back s needle @ t) needle)"
proof -
  let ?n = "length s - longest_suffix_prefix_len s needle"
  have drops: "drop (?n + j) (s @ t) = drop j (held_back s needle @ t)" for j
    using longest_le [of s needle] by (simp add: held_back_def add.commute)
  have before: "\<not> starts_with (drop i (s @ t)) needle" if "i < ?n" for i
    using starts_with_released [OF assms(1) that assms(2), of t] that by simp
  show ?thesis
  proof (cases "str_find (held_back s needle @ t) needle")
    case None
    have "\<not> starts_with (drop j (s @ t)) needle" if "j \<le> length (s @ t)" for j
    proof (cases "j < ?n")
      case False
      then have "drop j (s @ t) = drop (j - ?n) (held_back s needle @ t)" using drops [of "j - ?n"] by simp
      moreover have "j - ?n \<le> length (held_back s needle @ t)"
        using that False longest_le [of s needle] by simp
      ultimately show ?thesis using None [unfolded str_find_None] by metis
    qed (rule before)
    then have "str_find (s @ t) needle = None" by (simp add: str_find_None)
    with None show ?thesis by simp
  next
    case (Some j)
    note p = str_find_Some [OF Some]
    have "str_find (s @ t) needle = Some (?n + j)"
    proof (rule str_find_first)
      show "starts_with (drop (?n + j) (s @ t)) needle" using p by (simp only: drops)
      have "j \<le> longest_suffix_prefix_len s needle + length t" using p by simp
      then show "?n + j \<le> length (s @ t)" unfolding length_append using longest_le [of s needle] by arith
      show "\<forall>i < ?n + j. \<not> starts_with (drop i (s @ t)) needle"
      proof (intro allI impI)
        fix i assume i: "i < ?n + j"
        show "\<not> starts_with (drop i (s @ t)) needle"
        proof (cases "i < ?n")
          case False
          with i have "i - ?n < j" by linarith
          with p have "\<not> starts_with (drop (i - ?n) (held_back s needle @ t)) needle" by blast
          moreover have "drop i (s @ t) = drop (i - ?n) (held_back s needle @ t)"
            using False drops [of "i - ?n"] by simp
          ultimately show ?thesis by metis
        qed (rule before)
      qed
    qed
    with Some show ?thesis by simp
  qed
qed

lemma ends_with_suffix: "ends_with s p \<longleftrightarrow> suffix p s"
  by (auto simp: ends_with_iff suffix_def)

lemma longest_released:
  "longest_suffix_prefix_len (s @ t) needle = longest_suffix_prefix_len (held_back s needle @ t) needle"
proof -
  let ?r = "held_back s needle" and ?k = "longest_suffix_prefix_len s needle"
  let ?K = "longest_suffix_prefix_len (?r @ t) needle"
  have K: "?K \<le> min (length (?r @ t)) (length needle - 1)" "ends_with (?r @ t) (take ?K needle)"
    "\<And>l. ?K < l \<Longrightarrow> l \<le> min (length (?r @ t)) (length needle - 1) \<Longrightarrow> \<not> ends_with (?r @ t) (take l needle)"
    using longest_eq [of "?r @ t" needle ?K] by blast+
  have k: "\<And>l. ?k < l \<Longrightarrow> l \<le> min (length s) (length needle - 1) \<Longrightarrow> \<not> ends_with s (take l needle)"
    using longest_eq [of s needle ?k] by blast
  obtain d where d: "s = d @ ?r" unfolding held_back_def by (metis append_take_drop_id)
  have "\<not> ends_with (s @ t) (take l needle)" if l: "?K < l" "l \<le> min (length (s @ t)) (length needle - 1)" for l
  proof
    assume e: "ends_with (s @ t) (take l needle)"
    have "l \<le> length needle" using l(2) by linarith
    then have ll: "length (take l needle) = l" by simp
    show False
    proof (cases "l \<le> length (?r @ t)")
      case True
      have "suffix (take l needle) (d @ ?r @ t)" using e d by (metis append.assoc ends_with_suffix)
      then have "suffix (take l needle) (?r @ t)"
        using True ll by (metis suffix_length_suffix suffixI)
      with K(3) [OF l(1)] True l(2) show False by (simp add: ends_with_suffix)
    next
      case False
      then have lt: "length t < l" and lk: "?k < l - length t" by auto
      from e obtain u where u: "s @ t = u @ take l needle" by (auto simp: ends_with_iff)
      then have "length s + length t = length u + l" using ll by (metis length_append)
      then have lu: "length u \<le> length s" "length s - length u = l - length t" using lt by auto
      have "drop (length u) s @ t = take l needle"
        using u lu(1) by (metis append_eq_conv_conj drop_append drop0 diff_is_0_eq)
      then have "drop (length u) s = take (l - length t) (take l needle)"
        using lu by (metis append_eq_conv_conj length_drop)
      then have "drop (length u) s = take (l - length t) needle" using lt by (simp add: min_def)
      then have "ends_with s (take (l - length t) needle)"
        by (metis append_take_drop_id ends_with_iff)
      moreover have "l - length t \<le> min (length s) (length needle - 1)"
        using l(2) lu(2) by (metis diff_le_self le_trans min.bounded_iff)
      ultimately show False using k lk by blast
    qed
  qed
  moreover have "ends_with (s @ t) (take ?K needle)"
    using K(2) d by (metis append.assoc ends_with_iff)
  moreover have "?K \<le> min (length (s @ t)) (length needle - 1)"
    using K(1) longest_le [of s needle] by simp
  ultimately show ?thesis by (intro longest_eq [THEN iffD2]) blast
qed

lemma longest_held_back: "longest_suffix_prefix_len (held_back s needle) needle = longest_suffix_prefix_len s needle"
  using longest_released [of s "[]" needle] by simp

lemma find_held_back: "needle \<noteq> [] \<Longrightarrow> str_find (held_back s needle) needle = None"
proof -
  assume ne: "needle \<noteq> []"
  have "longest_suffix_prefix_len s needle \<le> length needle - 1"
    using longest_eq [of s needle "longest_suffix_prefix_len s needle"] by simp
  then have "length (held_back s needle) < length needle" using ne by (cases needle) auto
  then have "\<not> starts_with (drop j (held_back s needle)) needle" for j
    using starts_with_length [of "drop j (held_back s needle)" needle] by auto
  then show ?thesis by (simp add: str_find_None)
qed

section \<open>The loop for one tag\<close>

definition awaited :: "'t tag_spec \<Rightarrow> 't active_tag option \<Rightarrow> pystr" where
  "awaited sp active = (case active of None \<Rightarrow> ts_open sp | Some a \<Rightarrow> at_close a)"

definition tag_found :: "'t tag_spec \<Rightarrow> 't active_tag option \<Rightarrow> nat \<Rightarrow> pystr \<Rightarrow> 't extracted_tag text_chunk
    \<Rightarrow> 't hidden_state" where
  "tag_found sp active i pending out =
     (case active of
        Some a \<Rightarrow> (None, drop (i + length (at_close a)) pending,
          out\<lparr>extracted := extracted out @ [\<lparr>et_tag = at_tag a, et_content = at_content a @ take i pending\<rparr>]\<rparr>)
      | None \<Rightarrow> (Some \<lparr>at_tag = ts_tag sp, at_close = ts_close sp, at_content = []\<rparr>,
          drop (i + length (ts_open sp)) pending, out\<lparr>visible_text := visible_text out @ take i pending\<rparr>))"

definition release :: "'t active_tag option \<Rightarrow> nat \<Rightarrow> pystr \<Rightarrow> 't extracted_tag text_chunk \<Rightarrow> 't hidden_state" where
  "release active n pending out =
     (case active of
        Some a \<Rightarrow> (Some (a\<lparr>at_content := at_content a @ take n pending\<rparr>), drop n pending, out)
      | None \<Rightarrow> (None, drop n pending, out\<lparr>visible_text := visible_text out @ take n pending\<rparr>))"

lemma hidden_loop_one:
  "hidden_loop [sp] (Suc f) (active, pending, out) =
     (case str_find pending (awaited sp active) of
        Some i \<Rightarrow> hidden_loop [sp] f (tag_found sp active i pending out)
      | None \<Rightarrow> release active (length pending - longest_suffix_prefix_len pending (awaited sp active)) pending out)"
  by (auto simp: awaited_def tag_found_def release_def find_next_open_def max_open_prefix_suffix_len_def
      Let_def split: option.splits)

definition active_ok :: "'t active_tag option \<Rightarrow> bool" where
  "active_ok active \<longleftrightarrow> (case active of None \<Rightarrow> True | Some a \<Rightarrow> at_close a \<noteq> [])"

definition spec_ok :: "'t tag_spec \<Rightarrow> bool" where
  "spec_ok sp \<longleftrightarrow> ts_open sp \<noteq> [] \<and> ts_close sp \<noteq> []"

lemma awaited_nonempty: "spec_ok sp \<Longrightarrow> active_ok active \<Longrightarrow> awaited sp active \<noteq> []"
  by (auto simp: awaited_def spec_ok_def active_ok_def split: option.splits)

lemma tag_found_cases:
  assumes "spec_ok sp" "active_ok active" "str_find pending (awaited sp active) = Some i"
  obtains active' rest out' where "tag_found sp active i pending out = (active', rest, out')"
    "active_ok active'" "length rest < length pending"
    "\<And>t. tag_found sp active i (pending @ t) out = (active', rest @ t, out')"
proof -
  have "i + length (awaited sp active) \<le> length pending"
    using str_find_Some [OF assms(3)] starts_with_length [of "drop i pending" "awaited sp active"]
    by (simp add: le_diff_conv2 add.commute)
  moreover have "awaited sp active \<noteq> []" using assms by (simp add: awaited_nonempty)
  ultimately have "i + length (awaited sp active) \<le> length pending"
    "length pending - (i + length (awaited sp active)) < length pending"
    by (simp, metis add_leE diff_less length_greater_0_conv le_zero_eq not_gr_zero trans_less_add2)
  then show thesis
    using assms that by (cases active) (auto simp: tag_found_def awaited_def active_ok_def spec_ok_def)
qed

lemma hidden_loop_fuel:
  "spec_ok sp \<Longrightarrow> active_ok active \<Longrightarrow> length pending < f \<Longrightarrow> length pending < g \<Longrightarrow>
     hidden_loop [sp] f (active, pending, out) = hidden_loop [sp] g (active, pending, out)"
proof (induction f arbitrary: g active pending out)
  case (Suc f)
  then obtain g' where g: "g = Suc g'" by (cases g) auto
  show ?case
  proof (cases "str_find pending (awaited sp active)")
    case (Some i)
    obtain active' rest out' where r: "tag_found sp active i pending out = (active', rest, out')"
      "active_ok active'" "length rest < length pending"
      using tag_found_cases [OF Suc.prems(1,2) Some] by metis
    with Suc.prems g have "length rest < f" "length rest < g'" by auto
    then have "hidden_loop [sp] f (active', rest, out') = hidden_loop [sp] g' (active', rest, out')"
      by (rule Suc.IH [OF Suc.prems(1) r(2)])
    then show ?thesis
      by (simp only: g hidden_loop_one Some option.case r(1))
  qed (simp only: g hidden_loop_one option.case)
qed simp

definition run_tag :: "'t tag_spec \<Rightarrow> 't hidden_state \<Rightarrow> 't hidden_state" where
  "run_tag sp st = hidden_loop [sp] (Suc (length (fst (snd st)))) st"

lemma run_tag_Some:
  assumes "spec_ok sp" "active_ok active" "str_find pending (awaited sp active) = Some i"
  shows "run_tag sp (active, pending, out) = run_tag sp (tag_found sp active i pending out)"
proof -
  obtain active' rest out' where r: "tag_found sp active i pending out = (active', rest, out')"
    "active_ok active'" "length rest < length pending"
    using tag_found_cases [OF assms] by metis
  then show ?thesis
    unfolding run_tag_def hidden_loop_one
    using hidden_loop_fuel [OF assms(1) r(2), of rest "length pending" "Suc (length rest)"]
    by (simp add: assms(3) del: hidden_loop.simps)
qed

lemma run_tag_None:
  "str_find pending (awaited sp active) = None \<Longrightarrow> run_tag sp (active, pending, out) =
     release active (length pending - longest_suffix_prefix_len pending (awaited sp active)) pending out"
  unfolding run_tag_def hidden_loop_one by simp

lemma release_then_found:
  assumes "release active n p out = (active1, q, out1)" "n \<le> length p"
  shows "tag_found sp active (n + j) (p @ t) out = tag_found sp active1 j (q @ t) out1"
proof -
  obtain d where d: "p = d @ drop n p" "length d = n"
    using assms(2) by (metis append_take_drop_id length_take min.absorb2)
  then have "take n p = d" by (metis append_eq_conv_conj)
  with assms(1) d(2) show ?thesis
    by (subst d(1), cases active) (auto simp: release_def tag_found_def add.assoc)
qed

lemma release_then_release:
  assumes "release active n p out = (active1, q, out1)" "n \<le> length p"
  shows "release active (n + m) (p @ t) out = release active1 m (q @ t) out1"
proof -
  obtain d where d: "p = d @ drop n p" "length d = n"
    using assms(2) by (metis append_take_drop_id length_take min.absorb2)
  then have "take n p = d" by (metis append_eq_conv_conj)
  with assms(1) d(2) show ?thesis
    by (subst d(1), cases active) (auto simp: release_def)
qed

lemma release_awaited:
  "release active n p out = (active1, q, out1) \<Longrightarrow>
     awaited sp active1 = awaited sp active \<and> active_ok active1 = active_ok active \<and> q = drop n p"
  by (cases active) (auto simp: release_def awaited_def active_ok_def)

text \<open>The law of the parser: text may be cut anywhere.\<close>

lemma run_tag_split:
  assumes "spec_ok sp" "active_ok active"
  shows "run_tag sp (active, p @ t, out) =
    (case run_tag sp (active, p, out) of (active1, q, out1) \<Rightarrow> run_tag sp (active1, q @ t, out1))"
  using assms(2)
proof (induction p arbitrary: active out rule: length_induct)
  case (1 p)
  show ?case
  proof (cases "str_find p (awaited sp active)")
    case (Some i)
    obtain active' rest out' where r: "tag_found sp active i p out = (active', rest, out')"
      "active_ok active'" "length rest < length p"
      "tag_found sp active i (p @ t) out = (active', rest @ t, out')"
      using tag_found_cases [OF assms(1) 1(2) Some] by metis
    with 1 show ?thesis
      by (simp add: run_tag_Some [OF assms(1) 1(2) Some] run_tag_Some [OF assms(1) 1(2) find_appended [OF Some]])
  next
    case None
    let ?w = "awaited sp active"
    let ?n = "length p - longest_suffix_prefix_len p ?w"
    obtain active1 q out1 where r: "release active ?n p out = (active1, q, out1)"
      by (cases "release active ?n p out")
    have q: "q = held_back p ?w" "awaited sp active1 = ?w" "active_ok active1"
      using release_awaited [OF r, of sp] 1(2) by (auto simp: held_back_def)
    have ne: "?w \<noteq> []" using awaited_nonempty assms(1) 1(2) by blast
    have "run_tag sp (active, p @ t, out) = run_tag sp (active1, q @ t, out1)"
    proof (cases "str_find (q @ t) ?w")
      case (Some j)
      then have "str_find (p @ t) ?w = Some (?n + j)"
        using find_released [OF None ne, of t] by (simp add: q(1))
      moreover have "tag_found sp active (?n + j) (p @ t) out = tag_found sp active1 j (q @ t) out1"
        using release_then_found [OF r, of sp j t] by simp
      ultimately show ?thesis
        using Some q by (simp add: run_tag_Some [OF assms(1) 1(2)] run_tag_Some [OF assms(1) q(3)])
    next
      case none: None
      then have "str_find (p @ t) ?w = None"
        using find_released [OF None ne, of t] by (simp add: q(1))
      moreover have "length (p @ t) - longest_suffix_prefix_len (p @ t) ?w =
          ?n + (length (q @ t) - longest_suffix_prefix_len (q @ t) ?w)"
        using longest_released [of p t ?w] longest_le [of "q @ t" ?w] longest_le [of p ?w]
        by (simp add: q(1))
      ultimately show ?thesis
        using none q release_then_release [OF r, of _ t] by (simp add: run_tag_None)
    qed
    then show ?thesis by (simp add: run_tag_None [OF None] r)
  qed
qed

section \<open>The parser obeys the contract\<close>

lemma run_tag_out:
  assumes "spec_ok sp" "active_ok active"
  shows "run_tag sp (active, p, out) =
    (case run_tag sp (active, p, no_text) of (a, q, o') \<Rightarrow> (a, q, chunk_append out o'))"
  using assms(2)
proof (induction p arbitrary: active out rule: length_induct)
  case (1 p)
  show ?case
  proof (cases "str_find p (awaited sp active)")
    case (Some i)
    obtain active' rest o1 where r: "tag_found sp active i p no_text = (active', rest, o1)"
      "active_ok active'" "length rest < length p"
      using tag_found_cases [OF assms(1) 1(2) Some] by metis
    have r2: "tag_found sp active i p out = (active', rest, chunk_append out o1)"
      using r(1) by (cases active) (auto simp: tag_found_def chunk_append_def no_text_def)
    obtain a q o2 where o2: "run_tag sp (active', rest, no_text) = (a, q, o2)"
      by (cases "run_tag sp (active', rest, no_text)")
    have eqs: "run_tag sp (active, p, out) = run_tag sp (active', rest, chunk_append out o1)"
      "run_tag sp (active, p, no_text) = run_tag sp (active', rest, o1)"
      using run_tag_Some [OF assms(1) 1(2) Some] r(1) r2 by metis+
    have IH: "run_tag sp (active', rest, x) = (a, q, chunk_append x o2)" for x
    proof -
      have "run_tag sp (active', rest, x) =
          (case run_tag sp (active', rest, no_text) of (a, q, o') \<Rightarrow> (a, q, chunk_append x o'))"
        using 1(1) r(2,3) by blast
      then show ?thesis by (simp add: o2)
    qed
    show ?thesis by (simp add: eqs IH chunk_append_assoc)
  next
    case None
    then show ?thesis
      by (cases active) (simp_all add: run_tag_None release_def chunk_append_def no_text_def)
  qed
qed

definition held :: "'t tag_spec \<Rightarrow> 't active_tag option \<Rightarrow> pystr \<Rightarrow> bool" where
  "held sp active q \<longleftrightarrow> active_ok active \<and> longest_suffix_prefix_len q (awaited sp active) = length q"

lemma run_tag_held:
  assumes "spec_ok sp" "active_ok active" "run_tag sp (active, p, out) = (a, q, o')"
  shows "held sp a q"
  using assms(2,3)
proof (induction p arbitrary: active out rule: length_induct)
  case (1 p)
  show ?case
  proof (cases "str_find p (awaited sp active)")
    case (Some i)
    obtain active' rest o1 where "tag_found sp active i p out = (active', rest, o1)"
      "active_ok active'" "length rest < length p"
      using tag_found_cases [OF assms(1) 1(2) Some] by metis
    moreover from this 1(3) have "run_tag sp (active', rest, o1) = (a, q, o')"
      by (simp add: run_tag_Some [OF assms(1) 1(2) Some])
    ultimately show ?thesis using 1(1) by blast
  next
    case None
    let ?n = "length p - longest_suffix_prefix_len p (awaited sp active)"
    have r: "release active ?n p out = (a, q, o')" using 1(3) by (simp add: run_tag_None [OF None])
    have q: "q = held_back p (awaited sp active)" "awaited sp a = awaited sp active" "active_ok a"
      using release_awaited [OF r, of sp] 1(2) by (auto simp: held_back_def)
    then show ?thesis by (simp add: held_def longest_held_back)
  qed
qed

lemma run_tag_idle:
  assumes "spec_ok sp" "held sp active q"
  shows "run_tag sp (active, q, no_text) = (active, q, no_text)"
proof -
  let ?w = "awaited sp active"
  have h: "active_ok active" "longest_suffix_prefix_len q ?w = length q" using assms(2) by (simp_all add: held_def)
  have "str_find (held_back q ?w) ?w = None"
    using awaited_nonempty [OF assms(1) h(1)] by (rule find_held_back)
  moreover have "held_back q ?w = q" using h(2) by (simp add: held_back_def)
  ultimately show ?thesis using h
    by (cases active) (simp_all add: run_tag_None release_def no_text_def)
qed

definition hidden_ok :: "'t tag_spec \<Rightarrow> 't hidden_parser \<Rightarrow> bool" where
  "hidden_ok sp p \<longleftrightarrow> spec_ok sp \<and> hp_specs p = [sp] \<and> held sp (hp_active p) (hp_pending p)"

lemma hidden_push_run:
  "hp_specs p = [sp] \<Longrightarrow> hidden_push p chunk =
     (case run_tag sp (hp_active p, hp_pending p @ chunk, no_text) of
        (active, pending, out) \<Rightarrow> (p\<lparr>hp_active := active, hp_pending := pending\<rparr>, out))"
  by (simp add: hidden_push_def run_tag_def Let_def del: hidden_loop.simps)

lemma hidden_push_ok: "hidden_ok sp p \<Longrightarrow> hidden_ok sp (fst (hidden_push p chunk))"
proof -
  assume h: "hidden_ok sp p"
  obtain a q o1 where r: "run_tag sp (hp_active p, hp_pending p @ chunk, no_text) = (a, q, o1)"
    by (cases "run_tag sp (hp_active p, hp_pending p @ chunk, no_text)")
  have "held sp a q" using run_tag_held [OF _ _ r] h by (simp add: hidden_ok_def held_def)
  with h show ?thesis by (simp add: hidden_ok_def hidden_push_run r)
qed

lemma hidden_push_nil: "hidden_ok sp p \<Longrightarrow> hidden_push p [] = (p, no_text)"
  by (simp add: hidden_ok_def hidden_push_run run_tag_idle)

lemma hidden_push_split:
  assumes "hidden_ok sp p"
  shows "hidden_push p (a @ b) =
    (case hidden_push p a of (p1, o1) \<Rightarrow> case hidden_push p1 b of (p2, o2) \<Rightarrow> (p2, chunk_append o1 o2))"
proof -
  have sp: "spec_ok sp" "active_ok (hp_active p)" and specs: "hp_specs p = [sp]"
    using assms by (simp_all add: hidden_ok_def held_def)
  obtain a1 q1 o1 where r1: "run_tag sp (hp_active p, hp_pending p @ a, no_text) = (a1, q1, o1)"
    by (cases "run_tag sp (hp_active p, hp_pending p @ a, no_text)")
  have a1: "active_ok a1" using run_tag_held [OF sp r1] by (simp add: held_def)
  obtain a2 q2 o2 where r2: "run_tag sp (a1, q1 @ b, no_text) = (a2, q2, o2)"
    by (cases "run_tag sp (a1, q1 @ b, no_text)")
  have "run_tag sp (hp_active p, hp_pending p @ a @ b, no_text) = (a2, q2, chunk_append o1 o2)"
    using run_tag_split [OF sp, of "hp_pending p @ a" b no_text] run_tag_out [OF sp(1) a1, of "q1 @ b" o1]
    by (simp add: r1 r2)
  then show ?thesis using specs by (simp add: hidden_push_run r1 r2)
qed

lemma spec_ok_citation: "spec_ok \<lparr>ts_tag = (), ts_open = CITATION_OPEN, ts_close = CITATION_CLOSE\<rparr>"
  by (simp add: spec_ok_def CITATION_OPEN_def CITATION_CLOSE_def)

definition citation_ok :: "unit hidden_parser \<Rightarrow> bool" where
  "citation_ok p = hidden_ok \<lparr>ts_tag = (), ts_open = CITATION_OPEN, ts_close = CITATION_CLOSE\<rparr> p"

lemma longest_Nil [simp]: "longest_suffix_prefix_len [] needle = 0"
  using longest_le [of "[]" needle] by simp

lemma citation_new_ok: "citation_ok citation_new"
  unfolding citation_ok_def hidden_ok_def citation_new_def citation_specs_def
  using spec_ok_citation by (simp add: held_def active_ok_def)

lemma contents_only_append: "contents_only (chunk_append a b) = chunk_append (contents_only a) (contents_only b)"
  by (simp add: contents_only_def chunk_append_def)

lemma contents_only_no_text: "contents_only no_text = no_text"
  by (simp add: contents_only_def no_text_def)

interpretation citation: finishing_parser citation_push chunk_append no_text citation_ok citation_finish citation_new
proof unfold_locales
  show "citation_ok (fst (citation_push s a))" if "citation_ok s" for s a
    using hidden_push_ok that by (simp add: citation_ok_def citation_push_def)
  show "citation_push s [] = (s, no_text)" if "citation_ok s" for s
    using hidden_push_nil [OF that [unfolded citation_ok_def]]
    by (simp add: citation_push_def contents_only_no_text)
  show "citation_push s (a @ b) = (case citation_push s a of (s1, o1) \<Rightarrow>
      case citation_push s1 b of (s2, o2) \<Rightarrow> (s2, chunk_append o1 o2))" if "citation_ok s" for s a b
    using that unfolding citation_ok_def
    by (subst (1) citation_push_def, subst hidden_push_split)
      (auto simp: citation_push_def contents_only_append split: prod.splits)
  show "fst (citation_finish s) = citation_new" if "citation_ok s" for s
    using that by (auto simp: citation_finish_def hidden_finish_def citation_ok_def hidden_ok_def
        citation_new_def citation_specs_def split: option.splits)
qed (simp_all add: citation_new_ok)

section \<open>What is extracted\<close>

text \<open>
  The text between the first opening tag and the next closing tag is a citation, the rest is read
  on from there; a tag that is not closed takes all that follows it.
\<close>

function tagged_parts :: "pystr \<Rightarrow> pystr \<times> pystr list" where
  "tagged_parts doc =
     (case str_find doc CITATION_OPEN of
        None \<Rightarrow> (doc, [])
      | Some i \<Rightarrow>
          let rest = drop (i + length CITATION_OPEN) doc in
          case str_find rest CITATION_CLOSE of
            None \<Rightarrow> (take i doc, [rest])
          | Some j \<Rightarrow>
              let (visible, contents) = tagged_parts (drop (j + length CITATION_CLOSE) rest)
              in (take i doc @ visible, take j rest # contents))"
  by pat_completeness auto

lemma str_find_length: "str_find s n = Some i \<Longrightarrow> n \<noteq> [] \<Longrightarrow> i < length s"
  using str_find_Some [of s n i] by (cases "i = length s") auto

termination tagged_parts
proof (relation "measure length", goal_cases)
  case (2 doc i rest j)
  have "i < length doc"
    using str_find_length [OF 2(1)] by (simp add: CITATION_OPEN_def)
  then show ?case by (simp add: 2(2) CITATION_OPEN_def)
qed simp

declare tagged_parts.simps [simp del]

definition finished_parts :: "unit hidden_state \<Rightarrow> pystr \<times> pystr list" where
  "finished_parts st = (case st of (active, pending, out) \<Rightarrow>
     (case active of
        None \<Rightarrow> (visible_text out @ pending, map et_content (extracted out))
      | Some a \<Rightarrow> (visible_text out, map et_content (extracted out) @ [at_content a @ pending])))"

abbreviation citation_spec :: "unit tag_spec" where
  "citation_spec \<equiv> \<lparr>ts_tag = (), ts_open = CITATION_OPEN, ts_close = CITATION_CLOSE\<rparr>"

lemma finished_release: "finished_parts (release active n pending out) = finished_parts (active, pending, out)"
  by (cases active) (simp_all add: finished_parts_def release_def)

lemma run_tag_parts:
  "finished_parts (run_tag citation_spec (None, doc, out)) =
     (visible_text out @ fst (tagged_parts doc), map et_content (extracted out) @ snd (tagged_parts doc))"
proof (induction doc arbitrary: out rule: tagged_parts.induct)
  case (1 doc)
  have aw: "awaited citation_spec None = CITATION_OPEN" by (simp add: awaited_def)
  show ?case
  proof (cases "str_find doc CITATION_OPEN")
    case None
    then show ?thesis
      by (simp add: run_tag_None aw finished_release tagged_parts.simps [of doc])
        (simp add: finished_parts_def)
  next
    case (Some i)
    let ?a = "\<lparr>at_tag = (), at_close = CITATION_CLOSE, at_content = []\<rparr>"
    let ?rest = "drop (i + length CITATION_OPEN) doc"
    let ?out = "out\<lparr>visible_text := visible_text out @ take i doc\<rparr>"
    have ok: "active_ok (Some ?a)" by (simp add: active_ok_def CITATION_CLOSE_def)
    have aw': "awaited citation_spec (Some ?a) = CITATION_CLOSE" by (simp add: awaited_def)
    have run: "run_tag citation_spec (None, doc, out) = run_tag citation_spec (Some ?a, ?rest, ?out)"
      using run_tag_Some [OF spec_ok_citation, of None doc i out] Some
      by (simp add: aw active_ok_def tag_found_def)
    show ?thesis
    proof (cases "str_find ?rest CITATION_CLOSE")
      case None
      then show ?thesis using Some
        by (simp add: run run_tag_None aw' finished_release tagged_parts.simps [of doc] Let_def)
          (simp add: finished_parts_def)
    next
      case close: (Some j)
      let ?out' = "?out\<lparr>extracted := extracted out @ [\<lparr>et_tag = (), et_content = take j ?rest\<rparr>]\<rparr>"
      have "run_tag citation_spec (Some ?a, ?rest, ?out) =
          run_tag citation_spec (None, drop (j + length CITATION_CLOSE) ?rest, ?out')"
        using run_tag_Some [OF spec_ok_citation ok, of ?rest j ?out] close
        by (simp only: aw' tag_found_def option.case active_tag.simps text_chunk.simps) simp
      moreover note 1 [OF Some refl close, of ?out']
      ultimately show ?thesis using Some close
        by (simp add: run tagged_parts.simps [of doc] Let_def split: prod.splits)
    qed
  qed
qed

lemma citation_stream_lemma:
  "(\<lambda>c. (visible_text c, extracted c))
     (parse_stream citation_push citation_finish chunk_append no_text citation_new pieces)
   = tagged_parts (concat pieces)"
proof -
  let ?t = "concat pieces"
  obtain a q out where r: "run_tag citation_spec (None, ?t, no_text) = (a, q, out)"
    by (cases "run_tag citation_spec (None, ?t, no_text)")
  have push: "citation_push citation_new ?t =
      (citation_new\<lparr>hp_active := a, hp_pending := q\<rparr>, contents_only out)"
    using hidden_push_run [of citation_new citation_spec ?t] r
    by (simp add: citation_push_def citation_new_def citation_specs_def)
  have fin: "finished_parts (a, q, out) = tagged_parts ?t"
    using run_tag_parts [of ?t no_text] r by (simp add: no_text_def)
  have "parse_stream citation_push citation_finish chunk_append no_text citation_new pieces =
      parse_stream citation_push citation_finish chunk_append no_text citation_new [?t]"
    by (rule citation.stream_concat)
  also have "(\<lambda>c. (visible_text c, extracted c)) \<dots> = finished_parts (a, q, out)"
    by (cases a) (simp_all add: parse_stream_def push citation_finish_def hidden_finish_def
        finished_parts_def contents_only_def chunk_append_def no_text_def)
  finally show ?thesis using fin by simp
qed

lemma strip_citations_lemma: "strip_citations doc = tagged_parts doc"
proof -
  have "strip_citations doc = (\<lambda>c. (visible_text c, extracted c))
      (parse_stream citation_push citation_finish chunk_append no_text citation_new [doc])"
    by (simp add: strip_citations_def parse_stream_def chunk_append_def no_text_def split: prod.splits)
  then show ?thesis using citation_stream_lemma [of "[doc]"] by simp
qed

text \<open>
  The citation parser reads a stream as the document it carries: however the text is cut into
  pieces, the visible text is the document without its citation tags and their contents, the citations
  are those contents in order, and a tag left open at the end contributes what follows it.
\<close>

theorem citation_stream_is_document:
  "(\<lambda>c. (visible_text c, extracted c))
     (parse_stream citation_push citation_finish chunk_append no_text citation_new pieces)
   = tagged_parts (concat pieces)"
  by (rule citation_stream_lemma)

end
