(* ===== verification/TaggedLine.thy ===== *)
theory TaggedLine
  imports StreamText
begin

text \<open>
  \<open>pycodex/utils/stream_parser/tagged_line_parser.py\<close>: a line that consists of an opening or closing
  tag starts or ends a block, every other line is text, inside a block or not. The parser releases
  the text of a line as soon as it can no longer be a tag. It is shown to compute, from any division
  of the text into pieces, what reading the text line by line gives.
\<close>

section \<open>The parser\<close>

record 't line_tag =
  lt_open :: pystr
  lt_close :: pystr
  lt_tag :: 't

datatype 't segment = Normal pystr | TagStart 't | TagDelta 't pystr | TagEnd 't

fun push_segment :: "'t segment list \<Rightarrow> 't segment \<Rightarrow> 't segment list" where
  "push_segment segments (Normal text) =
     (if text = [] then segments
      else if segments \<noteq> [] then
        (case last segments of
           Normal previous \<Rightarrow> butlast segments @ [Normal (previous @ text)]
         | _ \<Rightarrow> segments @ [Normal text])
      else segments @ [Normal text])"
| "push_segment segments (TagDelta tag text) =
     (if text = [] then segments
      else if segments \<noteq> [] then
        (case last segments of
           TagDelta tag' previous \<Rightarrow>
             if tag' = tag then butlast segments @ [TagDelta tag (previous @ text)]
             else segments @ [TagDelta tag text]
         | _ \<Rightarrow> segments @ [TagDelta tag text])
      else segments @ [TagDelta tag text])"
| "push_segment segments segment = segments @ [segment]"

record 't line_parser =
  tl_specs :: "'t line_tag list"
  tl_active :: "'t option"
  tl_detect :: bool
  tl_buffer :: pystr

definition line_parser_new :: "'t line_tag list \<Rightarrow> 't line_parser" where
  "line_parser_new specs = \<lparr>tl_specs = specs, tl_active = None, tl_detect = True, tl_buffer = []\<rparr>"

definition text_segment :: "'t option \<Rightarrow> pystr \<Rightarrow> 't segment" where
  "text_segment active doc = (case active of Some tag \<Rightarrow> TagDelta tag doc | None \<Rightarrow> Normal doc)"

definition push_text :: "'t line_parser \<Rightarrow> pystr \<Rightarrow> 't segment list \<Rightarrow> 't segment list" where
  "push_text p doc segments = push_segment segments (text_segment (tl_active p) doc)"

definition is_tag_prefix :: "'t line_tag list \<Rightarrow> pystr \<Rightarrow> bool" where
  "is_tag_prefix specs slug \<longleftrightarrow>
     list_ex (\<lambda>s. starts_with (lt_open s) (rstrip slug) \<or> starts_with (lt_close s) (rstrip slug)) specs"

definition match_open :: "'t line_tag list \<Rightarrow> pystr \<Rightarrow> 't option" where
  "match_open specs slug = map_option lt_tag (find (\<lambda>s. lt_open s = slug) specs)"

definition match_close :: "'t line_tag list \<Rightarrow> pystr \<Rightarrow> 't option" where
  "match_close specs slug = map_option lt_tag (find (\<lambda>s. lt_close s = slug) specs)"

definition without_newline :: "pystr \<Rightarrow> pystr" where
  "without_newline line = (if ends_with line [10] then butlast line else line)"

definition finish_line :: "'t line_parser \<Rightarrow> 't segment list \<Rightarrow> 't line_parser \<times> 't segment list" where
  "finish_line p segments =
     (let line = tl_buffer p; slug = strip (without_newline line);
          p' = p\<lparr>tl_buffer := [], tl_detect := True\<rparr> in
      case match_open (tl_specs p) slug of
        Some tag \<Rightarrow>
          if tl_active p = None then (p'\<lparr>tl_active := Some tag\<rparr>, push_segment segments (TagStart tag))
          else (case match_close (tl_specs p) slug of
            Some ctag \<Rightarrow>
              if tl_active p = Some ctag then (p'\<lparr>tl_active := None\<rparr>, push_segment segments (TagEnd ctag))
              else (p', push_text p line segments)
          | None \<Rightarrow> (p', push_text p line segments))
      | None \<Rightarrow>
          (case match_close (tl_specs p) slug of
             Some ctag \<Rightarrow>
               if tl_active p = Some ctag then (p'\<lparr>tl_active := None\<rparr>, push_segment segments (TagEnd ctag))
               else (p', push_text p line segments)
           | None \<Rightarrow> (p', push_text p line segments)))"

fun parse_loop :: "'t line_parser \<Rightarrow> pystr \<Rightarrow> 't segment list \<Rightarrow> pystr \<Rightarrow> 't line_parser \<times> 't segment list"
where
  "parse_loop p run segments [] = (p, if run \<noteq> [] then push_text p run segments else segments)"
| "parse_loop p run segments (ch # delta) =
     (if tl_detect p then
        let segments1 = (if run \<noteq> [] then push_text p run segments else segments);
            p1 = p\<lparr>tl_buffer := tl_buffer p @ [ch]\<rparr>
        in if ch = 10 then
             (case finish_line p1 segments1 of (p2, segments2) \<Rightarrow> parse_loop p2 [] segments2 delta)
           else
             let slug = lstrip (tl_buffer p1) in
             if slug = [] \<or> is_tag_prefix (tl_specs p) slug then parse_loop p1 [] segments1 delta
             else
               let p2 = p1\<lparr>tl_buffer := [], tl_detect := False\<rparr> in
               parse_loop p2 [] (push_text p2 (tl_buffer p1) segments1) delta
      else
        let run' = run @ [ch] in
        if ch = 10 then parse_loop (p\<lparr>tl_detect := True\<rparr>) [] (push_text p run' segments) delta
        else parse_loop p run' segments delta)"

definition line_parse :: "'t line_parser \<Rightarrow> pystr \<Rightarrow> 't line_parser \<times> 't segment list" where
  "line_parse p delta = parse_loop p [] [] delta"

definition line_finish :: "'t line_parser \<Rightarrow> 't line_parser \<times> 't segment list" where
  "line_finish p =
     (let (active, segments) =
        (if tl_buffer p = [] then (tl_active p, [])
         else
           let buffered = tl_buffer p; slug = strip (without_newline buffered);
               open_tag = match_open (tl_specs p) slug; close_tag = match_close (tl_specs p) slug
           in if open_tag \<noteq> None \<and> tl_active p = None then
                (open_tag, push_segment [] (TagStart (the open_tag)))
              else if close_tag \<noteq> None \<and> tl_active p = close_tag then
                (None, push_segment [] (TagEnd (the close_tag)))
              else (tl_active p, push_text p buffered []));
        segments' = (case active of None \<Rightarrow> segments | Some tag \<Rightarrow> push_segment segments (TagEnd tag))
      in (p\<lparr>tl_buffer := [], tl_active := None, tl_detect := True\<rparr>, segments'))"

section \<open>Segments are merged\<close>

definition merge_segments :: "'t segment list \<Rightarrow> 't segment list \<Rightarrow> 't segment list" where
  "merge_segments xs ys = foldl push_segment xs ys"

lemma merge_segments_Nil [simp]: "merge_segments xs [] = xs"
  by (simp add: merge_segments_def)

lemma push_push_Normal:
  "push_segment (push_segment xs (Normal a)) (Normal b) = push_segment xs (Normal (a @ b))"
  by (cases "last xs") auto

lemma push_push_TagDelta:
  "push_segment (push_segment xs (TagDelta t a)) (TagDelta t b) = push_segment xs (TagDelta t (a @ b))"
  by (cases "last xs") auto

fun combine :: "'t segment \<Rightarrow> 't segment \<Rightarrow> 't segment option" where
  "combine (Normal a) (Normal b) = Some (Normal (a @ b))"
| "combine (TagDelta t a) (TagDelta u b) = (if t = u then Some (TagDelta u (a @ b)) else None)"
| "combine l s = None"

fun blank :: "'t segment \<Rightarrow> bool" where
  "blank (Normal a) \<longleftrightarrow> a = []"
| "blank (TagDelta t a) \<longleftrightarrow> a = []"
| "blank s \<longleftrightarrow> False"

lemma push_snoc:
  "push_segment (ys @ [l]) s =
     (case combine l s of Some m \<Rightarrow> ys @ [m] | None \<Rightarrow> if blank s then ys @ [l] else ys @ [l, s])"
  by (cases s; cases l) auto

lemma push_blank: "blank s \<Longrightarrow> push_segment xs s = xs"
  by (cases s) auto

lemma push_combine: "combine l s = Some m \<Longrightarrow> push_segment (push_segment xs l) s = push_segment xs m"
  by (cases l; cases s)
    (auto simp: push_push_Normal push_push_TagDelta simp del: push_segment.simps split: if_splits)

lemma combine_blank: "combine l s = Some m \<Longrightarrow> blank s \<Longrightarrow> m = l"
  by (cases l; cases s) (auto split: if_splits)

lemma push_Nil: "push_segment [] s = (if blank s then [] else [s])"
  by (cases s) auto

lemma push_merge: "push_segment (merge_segments xs ys) s = merge_segments xs (push_segment ys s)"
proof (cases ys rule: rev_cases)
  case Nil
  then show ?thesis by (simp add: merge_segments_def push_Nil push_blank)
next
  case (snoc ys' l)
  then show ?thesis
    by (auto simp: push_snoc merge_segments_def push_combine push_blank dest: combine_blank split: option.splits)
qed

lemma merge_snoc: "merge_segments xs (ys @ [s]) = push_segment (merge_segments xs ys) s"
  by (simp add: merge_segments_def)

lemma merge_assoc: "merge_segments (merge_segments xs ys) zs = merge_segments xs (merge_segments ys zs)"
proof (induction zs rule: rev_induct)
  case (snoc s zs)
  then show ?case by (simp add: merge_snoc push_merge)
qed simp

lemma push_text_Nil [simp]: "push_text p [] segments = segments"
  by (simp add: push_text_def text_segment_def split: option.splits)

lemma push_text_append: "push_text p b (push_text p a segments) = push_text p (a @ b) segments"
  by (cases "tl_active p")
    (simp_all add: push_text_def text_segment_def push_push_Normal push_push_TagDelta del: push_segment.simps)

lemma push_text_merge: "push_text p a (merge_segments xs ys) = merge_segments xs (push_text p a ys)"
  by (simp add: push_text_def push_merge)

section \<open>Cutting the text\<close>

lemma parse_loop_run: "parse_loop p run segments delta = parse_loop p [] (push_text p run segments) delta"
proof (induction delta arbitrary: p run segments)
  case (Cons ch delta)
  show ?case
  proof (cases "tl_detect p \<or> ch = 10")
    case True
    then show ?thesis
      by (auto simp: Let_def push_text_append simp del: push_segment.simps)
  next
    case False
    then have "parse_loop p run segments (ch # delta) = parse_loop p (run @ [ch]) segments delta"
      "parse_loop p [] (push_text p run segments) (ch # delta) = parse_loop p [ch] (push_text p run segments) delta"
      by simp_all
    then show ?thesis
      using Cons.IH [of p "run @ [ch]" segments] Cons.IH [of p "[ch]" "push_text p run segments"]
      by (simp add: push_text_append)
  qed
qed simp

lemma finish_line_merge:
  "finish_line p (merge_segments xs ys) = (case finish_line p ys of (p', zs) \<Rightarrow> (p', merge_segments xs zs))"
  by (auto simp: finish_line_def Let_def push_merge push_text_merge simp del: push_segment.simps split: option.splits)

lemma parse_loop_merge:
  "parse_loop p run (merge_segments xs ys) delta =
     (case parse_loop p run ys delta of (p', zs) \<Rightarrow> (p', merge_segments xs zs))"
proof (induction delta arbitrary: p run ys)
  case (Cons ch delta)
  then show ?case
    by (auto simp: Let_def push_text_merge finish_line_merge simp del: push_segment.simps split: prod.splits)
qed (simp add: push_text_merge)

lemma parse_loop_append:
  "parse_loop p run segments (a @ b) =
     (case parse_loop p run segments a of (p1, segments1) \<Rightarrow> parse_loop p1 [] segments1 b)"
proof (induction a arbitrary: p run segments)
  case Nil
  show ?case using parse_loop_run [of p run segments b] by simp
next
  case (Cons ch a)
  then show ?case by (auto simp: Let_def simp del: push_segment.simps split: prod.splits)
qed

lemma line_parse_split:
  "line_parse p (a @ b) =
     (case line_parse p a of (p1, o1) \<Rightarrow> case line_parse p1 b of (p2, o2) \<Rightarrow> (p2, merge_segments o1 o2))"
proof -
  obtain p1 o1 where 1: "parse_loop p [] [] a = (p1, o1)" by (cases "parse_loop p [] [] a")
  obtain p2 o2 where 2: "parse_loop p1 [] [] b = (p2, o2)" by (cases "parse_loop p1 [] [] b")
  show ?thesis
    using parse_loop_merge [of p1 "[]" o1 "[]" b] by (simp add: line_parse_def parse_loop_append 1 2)
qed

lemma finish_line_specs: "finish_line q s = (q', s') \<Longrightarrow> tl_specs q' = tl_specs q"
  by (auto simp: finish_line_def Let_def split: option.splits if_splits)

lemma parse_loop_specs: "parse_loop p run segments delta = (p', out) \<Longrightarrow> tl_specs p' = tl_specs p"
proof (induction delta arbitrary: p run segments)
  case (Cons ch delta)
  from Cons.prems show ?case
    by (auto simp: Let_def simp del: push_segment.simps split: prod.splits if_splits
        dest!: Cons.IH finish_line_specs)
qed simp

definition with_specs :: "'t line_tag list \<Rightarrow> 't line_parser \<Rightarrow> bool" where
  "with_specs specs p \<longleftrightarrow> tl_specs p = specs"

interpretation line_parser: stream_parser line_parse merge_segments "[]" "with_specs specs" for specs
proof unfold_locales
  show "with_specs specs (fst (line_parse s a))" if "with_specs specs s" for s a
    using that parse_loop_specs [of s "[]" "[]" a] by (cases "line_parse s a") (simp add: with_specs_def line_parse_def)
qed (simp_all add: line_parse_split, simp add: line_parse_def)

section \<open>Reading line by line\<close>

fun keep_lines :: "pystr \<Rightarrow> pystr list" where
  "keep_lines [] = []"
| "keep_lines (c # cs) =
     (if c = 10 then [10] # keep_lines cs
      else (case keep_lines cs of [] \<Rightarrow> [[c]] | l # ls \<Rightarrow> (c # l) # ls))"

definition line_meaning :: "'t line_tag list \<Rightarrow> 't option \<Rightarrow> pystr \<Rightarrow> 't option \<times> 't segment" where
  "line_meaning specs active line =
     (let slug = strip (without_newline line) in
      if active = None \<and> match_open specs slug \<noteq> None
      then (match_open specs slug, TagStart (the (match_open specs slug)))
      else if active \<noteq> None \<and> match_close specs slug = active
      then (None, TagEnd (the active))
      else (active, text_segment active line))"

fun read_lines :: "'t line_tag list \<Rightarrow> 't option \<Rightarrow> pystr list \<Rightarrow> 't segment list" where
  "read_lines specs active [] = (case active of None \<Rightarrow> [] | Some tag \<Rightarrow> [TagEnd tag])"
| "read_lines specs active (line # lines) =
     (case line_meaning specs active line of (active', s) \<Rightarrow> s # read_lines specs active' lines)"

definition tagged_lines :: "'t line_tag list \<Rightarrow> pystr \<Rightarrow> 't segment list" where
  "tagged_lines specs doc = read_lines specs None (keep_lines doc)"

lemma keep_lines_line: "10 \<notin> set l \<Longrightarrow> keep_lines (l @ 10 # rest) = (l @ [10]) # keep_lines rest"
  by (induction l) auto

lemma keep_lines_last: "10 \<notin> set l \<Longrightarrow> keep_lines l = (if l = [] then [] else [l])"
  by (induction l) auto

lemma finish_line_meaning:
  "finish_line p segments =
     (case line_meaning (tl_specs p) (tl_active p) (tl_buffer p) of (active, s) \<Rightarrow>
        (p\<lparr>tl_buffer := [], tl_detect := True, tl_active := active\<rparr>, push_segment segments s))"
  by (cases "tl_active p")
    (auto simp: finish_line_def line_meaning_def Let_def push_text_def simp del: push_segment.simps
      split: option.splits)

text \<open>While a line may still be a tag its beginning is a prefix of one.\<close>

lemma lstrip_append: "lstrip x \<noteq> [] \<Longrightarrow> lstrip (x @ y) = lstrip x @ y"
  by (auto simp: lstrip_def dropWhile_append)

lemma rstrip_append_prefix: "\<exists>y'. rstrip (x @ y) = rstrip x @ y'"
proof (induction y rule: rev_induct)
  case (snoc c y)
  show ?case
  proof (cases "is_space c")
    case True
    with snoc show ?thesis by (simp add: rstrip_def)
  next
    case False
    have "prefix (rstrip x) x" unfolding rstrip_def
      by (metis rev_rev_ident suffix_dropWhile suffix_to_prefix)
    then obtain zs where "x = rstrip x @ zs" by (auto simp: prefix_def)
    then have "x @ y @ [c] = rstrip x @ (zs @ y @ [c])" by (metis append.assoc)
    moreover have "rstrip (x @ y @ [c]) = x @ y @ [c]" using False by (simp add: rstrip_def)
    ultimately show ?thesis by metis
  qed
qed simp

lemma tag_line_prefix:
  assumes "\<not> (lstrip x = [] \<or> is_tag_prefix specs (lstrip x))"
  shows "match_open specs (strip (x @ y)) = None" "match_close specs (strip (x @ y)) = None"
proof -
  obtain y' where "strip (x @ y) = rstrip (lstrip x) @ y'"
    using assms lstrip_append [of x y] rstrip_append_prefix [of "lstrip x" y]
    by (auto simp: strip_def)
  then show "match_open specs (strip (x @ y)) = None" "match_close specs (strip (x @ y)) = None"
    using assms by (auto simp: match_open_def match_close_def find_None_iff is_tag_prefix_def list_ex_iff)
qed

lemma text_line:
  assumes "\<not> (lstrip x = [] \<or> is_tag_prefix specs (lstrip x))" "without_newline line = x @ y"
  shows "line_meaning specs active line = (active, text_segment active line)"
  using tag_line_prefix [OF assms(1), of y] assms(2) by (auto simp: line_meaning_def Let_def)

lemma without_newline_line: "10 \<notin> set l \<Longrightarrow> without_newline (l @ [10]) = l"
  by (simp add: without_newline_def ends_with_iff)

lemma without_newline_none: "10 \<notin> set l \<Longrightarrow> without_newline l = l"
  by (auto simp: without_newline_def ends_with_iff)

section \<open>One line\<close>

lemma streamed_line:
  "\<not> tl_detect p \<Longrightarrow> 10 \<notin> set l \<Longrightarrow>
     parse_loop p run segments (l @ 10 # rest) =
       parse_loop (p\<lparr>tl_detect := True\<rparr>) [] (push_text p (run @ l @ [10]) segments) rest"
  by (induction l arbitrary: run) (auto simp: Let_def)

lemma streamed_tail:
  "\<not> tl_detect p \<Longrightarrow> 10 \<notin> set l \<Longrightarrow>
     parse_loop p run segments l = (p, push_text p (run @ l) segments)"
  by (induction l arbitrary: run) (auto simp: Let_def)

lemma detected_line:
  "tl_detect p \<Longrightarrow> 10 \<notin> set (tl_buffer p @ l) \<Longrightarrow>
     parse_loop p [] segments (l @ 10 # rest) =
       (case line_meaning (tl_specs p) (tl_active p) (tl_buffer p @ l @ [10]) of (active, s) \<Rightarrow>
          parse_loop (p\<lparr>tl_buffer := [], tl_active := active\<rparr>) [] (push_segment segments s) rest)"
proof (induction l arbitrary: p)
  case Nil
  have same: "p\<lparr>tl_buffer := [], tl_detect := True, tl_active := a\<rparr> = p\<lparr>tl_buffer := [], tl_active := a\<rparr>" for a
    using Nil(1) by simp
  show ?case using Nil(1)
    by (simp add: Let_def finish_line_meaning same del: push_segment.simps split: prod.splits)
next
  case (Cons c l)
  let ?b = "tl_buffer p @ [c]"
  let ?p1 = "p\<lparr>tl_buffer := ?b\<rparr>"
  show ?case
  proof (cases "lstrip ?b = [] \<or> is_tag_prefix (tl_specs p) (lstrip ?b)")
    case True
    then have "parse_loop p [] segments ((c # l) @ 10 # rest) = parse_loop ?p1 [] segments (l @ 10 # rest)"
      using Cons.prems by (simp add: Let_def)
    then show ?thesis using Cons.IH [of ?p1] Cons.prems by simp
  next
    case False
    have m: "line_meaning (tl_specs p) (tl_active p) (tl_buffer p @ (c # l) @ [10]) =
        (tl_active p, text_segment (tl_active p) (tl_buffer p @ (c # l) @ [10]))"
      using Cons.prems(2) without_newline_line [of "tl_buffer p @ c # l"]
      by (intro text_line [OF False, of _ l]) simp
    let ?p2 = "p\<lparr>tl_buffer := [], tl_detect := False\<rparr>"
    have "parse_loop p [] segments ((c # l) @ 10 # rest) =
        parse_loop ?p2 [] (push_text p ?b segments) (l @ 10 # rest)"
      using Cons.prems False by (simp add: Let_def push_text_def)
    also have "\<dots> = parse_loop (?p2\<lparr>tl_detect := True\<rparr>) [] (push_text p (?b @ l @ [10]) segments) rest"
      using streamed_line [of ?p2 l "[]" "push_text p ?b segments" rest] Cons.prems(2)
        push_text_append [of p "l @ [10]" ?b segments]
      by (simp add: push_text_def)
    also have "?p2\<lparr>tl_detect := True\<rparr> = p\<lparr>tl_buffer := [], tl_active := tl_active p\<rparr>"
      using Cons.prems(1) by simp
    finally have e: "parse_loop p [] segments ((c # l) @ 10 # rest) =
        parse_loop (p\<lparr>tl_buffer := [], tl_active := tl_active p\<rparr>) [] (push_text p (?b @ l @ [10]) segments) rest" .
    show ?thesis unfolding e m by (simp add: push_text_def)
  qed
qed

lemma line_finish_meaning:
  assumes "10 \<notin> set (tl_buffer p)" "tl_buffer p \<noteq> []"
  shows "merge_segments segments (snd (line_finish p)) =
    merge_segments segments (read_lines (tl_specs p) (tl_active p) [tl_buffer p])"
proof -
  obtain active s where m: "line_meaning (tl_specs p) (tl_active p) (tl_buffer p) = (active, s)"
    by (cases "line_meaning (tl_specs p) (tl_active p) (tl_buffer p)")
  have "snd (line_finish p) = (case active of None \<Rightarrow> push_segment [] s
      | Some tag \<Rightarrow> push_segment (push_segment [] s) (TagEnd tag))"
    using m assms(2) by (auto simp: line_finish_def line_meaning_def Let_def push_text_def
        split: option.splits if_splits simp del: push_segment.simps)
  then show ?thesis
    by (cases active) (auto simp: m merge_segments_def push_Nil push_blank)
qed

lemma detected_tail:
  "tl_detect p \<Longrightarrow> 10 \<notin> set (tl_buffer p @ l) \<Longrightarrow> parse_loop p [] segments l = (p', segments') \<Longrightarrow>
     merge_segments segments' (snd (line_finish p')) =
       merge_segments segments (read_lines (tl_specs p) (tl_active p)
         (if tl_buffer p @ l = [] then [] else [tl_buffer p @ l]))"
proof (induction l arbitrary: p)
  case Nil
  then show ?case
    using line_finish_meaning [of p segments]
    by (auto simp: line_finish_def split: option.splits)
next
  case (Cons c l)
  let ?b = "tl_buffer p @ [c]"
  let ?p1 = "p\<lparr>tl_buffer := ?b\<rparr>"
  show ?case
  proof (cases "lstrip ?b = [] \<or> is_tag_prefix (tl_specs p) (lstrip ?b)")
    case True
    then have "parse_loop p [] segments (c # l) = parse_loop ?p1 [] segments l"
      using Cons.prems by (simp add: Let_def)
    then show ?thesis using Cons.IH [of ?p1] Cons.prems by simp
  next
    case False
    have m: "line_meaning (tl_specs p) (tl_active p) (tl_buffer p @ c # l) =
        (tl_active p, text_segment (tl_active p) (tl_buffer p @ c # l))"
      using Cons.prems(2) without_newline_none [of "tl_buffer p @ c # l"]
      by (intro text_line [OF False, of _ l]) simp
    let ?p2 = "p\<lparr>tl_buffer := [], tl_detect := False\<rparr>"
    have "parse_loop p [] segments (c # l) = parse_loop ?p2 [] (push_text p ?b segments) l"
      using Cons.prems False by (simp add: Let_def push_text_def)
    also have "\<dots> = (?p2, push_text p (?b @ l) segments)"
      using streamed_tail [of ?p2 l "[]" "push_text p ?b segments"] Cons.prems(2)
        push_text_append [of p l ?b segments]
      by (simp add: push_text_def)
    finally have "p' = ?p2" "segments' = push_text p (tl_buffer p @ c # l) segments"
      using Cons.prems(3) by simp_all
    then show ?thesis
      by (auto simp: m line_finish_def push_text_def merge_segments_def split: option.splits)
  qed
qed

lemma parse_lines:
  "tl_detect p \<Longrightarrow> tl_buffer p = [] \<Longrightarrow> parse_loop p [] segments doc = (p', segments') \<Longrightarrow>
     merge_segments segments' (snd (line_finish p')) =
       merge_segments segments (read_lines (tl_specs p) (tl_active p) (keep_lines doc))"
proof (induction doc arbitrary: p segments rule: length_induct)
  case (1 doc)
  show ?case
  proof (cases "10 \<in> set doc")
    case False
    then show ?thesis
      using detected_tail [of p doc segments p' segments'] 1(2-4) by (auto simp: keep_lines_last)
  next
    case True
    then obtain l rest where d: "doc = l @ 10 # rest" "10 \<notin> set l" by (meson split_list_first)
    obtain active s where m: "line_meaning (tl_specs p) (tl_active p) (l @ [10]) = (active, s)"
      by (cases "line_meaning (tl_specs p) (tl_active p) (l @ [10])")
    let ?p1 = "p\<lparr>tl_buffer := [], tl_active := active\<rparr>"
    have "parse_loop ?p1 [] (push_segment segments s) rest = (p', segments')"
      using detected_line [of p l segments rest] 1(2-4) d m by simp
    moreover have "length rest < length doc" by (simp add: d)
    ultimately have "merge_segments segments' (snd (line_finish p')) =
        merge_segments (push_segment segments s) (read_lines (tl_specs p) active (keep_lines rest))"
      using 1(1)[rule_format, of rest ?p1 "push_segment segments s"] 1(2) by simp
    then show ?thesis by (simp add: d keep_lines_line m merge_segments_def)
  qed
qed

lemma line_stream_lemma:
  "parse_stream line_parse line_finish merge_segments [] (line_parser_new specs) pieces =
     merge_segments [] (tagged_lines specs (concat pieces))"
proof -
  let ?p = "line_parser_new specs"
  obtain p1 o1 where r: "line_parse ?p (concat pieces) = (p1, o1)"
    by (cases "line_parse ?p (concat pieces)")
  have "push_pieces line_parse merge_segments [] ?p pieces = (p1, o1)"
    using line_parser.pieces_concat [of specs ?p pieces] r
    by (simp add: with_specs_def line_parser_new_def)
  moreover have "merge_segments o1 (snd (line_finish p1)) = merge_segments [] (tagged_lines specs (concat pieces))"
    using parse_lines [of ?p "[]" "concat pieces" p1 o1] r
    by (simp add: line_parse_def line_parser_new_def tagged_lines_def)
  ultimately show ?thesis
    by (cases "line_finish p1") (simp add: parse_stream_def)
qed

text \<open>
  The tagged-line parser works by lines, not by pieces: for every list of tags and every way of
  cutting the text, its output, adjacent text joined, is that of classifying the complete lines one
  by one with the tag that is open, closing an open tag at the end.
\<close>

theorem tagged_lines_are_lines:
  "parse_stream line_parse line_finish merge_segments [] (line_parser_new specs) pieces =
     merge_segments [] (tagged_lines specs (concat pieces))"
  by (rule line_stream_lemma)

end
