(* ===== verification/AssistantText.thy ===== *)
theory AssistantText
  imports HiddenTag TaggedLine
begin

text \<open>
  \<open>pycodex/utils/stream_parser/proposed_plan.py\<close> and \<open>assistant_text.py\<close>: the assistant's text has
  its citations hidden and, in plan mode, its plan blocks separated, in one pass over the stream.
  The pass is shown to be the composition of the two readings of the whole text.
\<close>

section \<open>Proposed plans\<close>

definition PROPOSED_PLAN_OPEN :: pystr where "PROPOSED_PLAN_OPEN = lit ''<proposed_plan>''"
definition PROPOSED_PLAN_CLOSE :: pystr where "PROPOSED_PLAN_CLOSE = lit ''</proposed_plan>''"

datatype plan_segment = PlanNormal pystr | PlanStart | PlanDelta pystr | PlanEnd

definition plan_specs :: "unit line_tag list" where
  "plan_specs = [\<lparr>lt_open = PROPOSED_PLAN_OPEN, lt_close = PROPOSED_PLAN_CLOSE, lt_tag = ()\<rparr>]"

definition plan_parser_new :: "unit line_parser" where
  "plan_parser_new = line_parser_new plan_specs"

fun to_plan_segment :: "unit segment \<Rightarrow> plan_segment" where
  "to_plan_segment (Normal t) = PlanNormal t"
| "to_plan_segment (TagStart u) = PlanStart"
| "to_plan_segment (TagDelta u t) = PlanDelta t"
| "to_plan_segment (TagEnd u) = PlanEnd"

fun normal_text :: "'t segment \<Rightarrow> pystr" where
  "normal_text (Normal t) = t"
| "normal_text s = []"

definition map_proposed_plan_segments :: "unit segment list \<Rightarrow> plan_segment text_chunk" where
  "map_proposed_plan_segments segments =
     \<lparr>visible_text = concat (map normal_text segments), extracted = map to_plan_segment segments\<rparr>"

definition plan_push :: "unit line_parser \<Rightarrow> pystr \<Rightarrow> unit line_parser \<times> plan_segment text_chunk" where
  "plan_push p chunk = map_prod id map_proposed_plan_segments (line_parse p chunk)"

definition plan_finish :: "unit line_parser \<Rightarrow> unit line_parser \<times> plan_segment text_chunk" where
  "plan_finish p = map_prod id map_proposed_plan_segments (line_finish p)"

definition strip_proposed_plan_blocks :: "pystr \<Rightarrow> pystr" where
  "strip_proposed_plan_blocks doc =
     (case plan_push plan_parser_new doc of (p, out) \<Rightarrow>
        visible_text out @ visible_text (snd (plan_finish p)))"

fun plan_text_loop :: "plan_segment list \<Rightarrow> pystr option \<Rightarrow> pystr option" where
  "plan_text_loop [] seen = seen"
| "plan_text_loop (PlanStart # segments) seen = plan_text_loop segments (Some [])"
| "plan_text_loop (PlanDelta t # segments) (Some plan) = plan_text_loop segments (Some (plan @ t))"
| "plan_text_loop (PlanDelta t # segments) None = plan_text_loop segments None"
| "plan_text_loop (_ # segments) seen = plan_text_loop segments seen"

definition extract_proposed_plan_text :: "pystr \<Rightarrow> pystr option" where
  "extract_proposed_plan_text doc =
     (case plan_push plan_parser_new doc of (p, out) \<Rightarrow>
        plan_text_loop (extracted out @ extracted (snd (plan_finish p))) None)"

section \<open>Assistant text\<close>

record assistant_chunk =
  ac_visible_text :: pystr
  ac_citations :: "pystr list"
  ac_plan_segments :: "plan_segment list"

record assistant_parser =
  ap_plan_mode :: bool
  ap_citations :: "unit hidden_parser"
  ap_plan :: "unit line_parser"

definition assistant_new :: "bool \<Rightarrow> assistant_parser" where
  "assistant_new plan_mode =
     \<lparr>ap_plan_mode = plan_mode, ap_citations = citation_new, ap_plan = plan_parser_new\<rparr>"

definition parse_visible_text :: "assistant_parser \<Rightarrow> pystr \<Rightarrow> assistant_parser \<times> assistant_chunk" where
  "parse_visible_text p visible =
     (if \<not> ap_plan_mode p then
        (p, \<lparr>ac_visible_text = visible, ac_citations = [], ac_plan_segments = []\<rparr>)
      else case plan_push (ap_plan p) visible of (plan, chunk) \<Rightarrow>
        (p\<lparr>ap_plan := plan\<rparr>, \<lparr>ac_visible_text = visible_text chunk, ac_citations = [],
           ac_plan_segments = extracted chunk\<rparr>))"

definition assistant_push :: "assistant_parser \<Rightarrow> pystr \<Rightarrow> assistant_parser \<times> assistant_chunk" where
  "assistant_push p chunk =
     (case citation_push (ap_citations p) chunk of (citations, citation_chunk) \<Rightarrow>
      case parse_visible_text (p\<lparr>ap_citations := citations\<rparr>) (visible_text citation_chunk) of (p', out) \<Rightarrow>
        (p', out\<lparr>ac_citations := extracted citation_chunk\<rparr>))"

definition assistant_finish :: "assistant_parser \<Rightarrow> assistant_parser \<times> assistant_chunk" where
  "assistant_finish p =
     (case citation_finish (ap_citations p) of (citations, citation_chunk) \<Rightarrow>
      case parse_visible_text (p\<lparr>ap_citations := citations\<rparr>) (visible_text citation_chunk) of (p1, out) \<Rightarrow>
      case (if ap_plan_mode p then
              (case plan_finish (ap_plan p1) of (plan, tail) \<Rightarrow>
                 (p1\<lparr>ap_plan := plan\<rparr>,
                  if text_chunk_is_empty tail then out
                  else out\<lparr>ac_visible_text := ac_visible_text out @ visible_text tail,
                           ac_plan_segments := ac_plan_segments out @ extracted tail\<rparr>))
            else (p1, out)) of (p2, out2) \<Rightarrow>
        (p2, out2\<lparr>ac_citations := extracted citation_chunk\<rparr>))"

section \<open>Merging what the pieces give\<close>

fun from_plan_segment :: "plan_segment \<Rightarrow> unit segment" where
  "from_plan_segment (PlanNormal t) = Normal t"
| "from_plan_segment PlanStart = TagStart ()"
| "from_plan_segment (PlanDelta t) = TagDelta () t"
| "from_plan_segment PlanEnd = TagEnd ()"

lemma from_to_plan [simp]: "from_plan_segment (to_plan_segment s) = s"
  by (cases s) simp_all

lemma map_from_to_plan [simp]: "map (from_plan_segment \<circ> to_plan_segment) ss = ss"
  by (induction ss) simp_all

definition merge_plan :: "plan_segment list \<Rightarrow> plan_segment list \<Rightarrow> plan_segment list" where
  "merge_plan xs ys =
     map to_plan_segment (merge_segments (map from_plan_segment xs) (map from_plan_segment ys))"

definition merge_plan_chunk :: "plan_segment text_chunk \<Rightarrow> plan_segment text_chunk \<Rightarrow> plan_segment text_chunk" where
  "merge_plan_chunk a b = \<lparr>visible_text = visible_text a @ visible_text b,
     extracted = merge_plan (extracted a) (extracted b)\<rparr>"

definition merge_assistant :: "assistant_chunk \<Rightarrow> assistant_chunk \<Rightarrow> assistant_chunk" where
  "merge_assistant a b = \<lparr>ac_visible_text = ac_visible_text a @ ac_visible_text b,
     ac_citations = ac_citations a @ ac_citations b,
     ac_plan_segments = merge_plan (ac_plan_segments a) (ac_plan_segments b)\<rparr>"

definition no_assistant :: assistant_chunk where
  "no_assistant = \<lparr>ac_visible_text = [], ac_citations = [], ac_plan_segments = []\<rparr>"

lemma to_from_plan [simp]: "to_plan_segment (from_plan_segment s) = s"
  by (cases s) simp_all

lemma merge_plan_Nil [simp]: "merge_plan xs [] = xs"
  by (induction xs) (simp_all add: merge_plan_def)

lemma visible_push_segment:
  "concat (map normal_text (push_segment segments s)) = concat (map normal_text segments) @ normal_text s"
proof (cases segments rule: rev_cases)
  case Nil
  then show ?thesis by (cases s) auto
next
  case (snoc ss l)
  then show ?thesis by (cases s; cases l) auto
qed

lemma visible_merge:
  "concat (map normal_text (merge_segments xs ys)) = concat (map normal_text xs) @ concat (map normal_text ys)"
  by (induction ys rule: rev_induct) (simp_all add: merge_snoc visible_push_segment)

lemma map_plan_merge:
  "map_proposed_plan_segments (merge_segments xs ys) =
     merge_plan_chunk (map_proposed_plan_segments xs) (map_proposed_plan_segments ys)"
  by (simp add: map_proposed_plan_segments_def merge_plan_chunk_def merge_plan_def visible_merge)

lemma map_plan_Nil [simp]: "map_proposed_plan_segments [] = no_text"
  by (simp add: map_proposed_plan_segments_def no_text_def)

section \<open>The contract\<close>

lemma plan_finish_start: "with_specs plan_specs p \<Longrightarrow> fst (plan_finish p) = plan_parser_new"
  by (auto simp: plan_finish_def line_finish_def plan_parser_new_def line_parser_new_def with_specs_def
      Let_def split: prod.splits)

interpretation plan: finishing_parser plan_push merge_plan_chunk no_text "with_specs plan_specs" plan_finish plan_parser_new
proof unfold_locales
  show "with_specs plan_specs (fst (plan_push s a))" if "with_specs plan_specs s" for s a
    using line_parser.push_ok [OF that] by (simp add: plan_push_def)
  show "plan_push s [] = (s, no_text)" if "with_specs plan_specs s" for s
    using line_parser.push_nil [OF that] by (simp add: plan_push_def)
  show "plan_push s (a @ b) = (case plan_push s a of (s1, o1) \<Rightarrow>
      case plan_push s1 b of (s2, o2) \<Rightarrow> (s2, merge_plan_chunk o1 o2))" for s a b
    by (auto simp: plan_push_def line_parse_split map_plan_merge split: prod.splits)
  show "merge_plan_chunk x no_text = x" for x
    by (simp add: merge_plan_chunk_def no_text_def)
qed (auto simp: plan_finish_start, simp add: plan_parser_new_def line_parser_new_def with_specs_def)

definition assistant_ok :: "bool \<Rightarrow> assistant_parser \<Rightarrow> bool" where
  "assistant_ok plan_mode p \<longleftrightarrow> ap_plan_mode p = plan_mode \<and> citation_ok (ap_citations p)
     \<and> with_specs plan_specs (ap_plan p) \<and> (\<not> plan_mode \<longrightarrow> ap_plan p = plan_parser_new)"

lemma plan_push_ok: "plan_push p a = (p', out) \<Longrightarrow> with_specs plan_specs p \<Longrightarrow> with_specs plan_specs p'"
  using plan.push_ok [of p a] by simp

lemma citation_push_ok: "citation_push p a = (p', out) \<Longrightarrow> citation_ok p \<Longrightarrow> citation_ok p'"
  using citation.push_ok [of p a] by simp

lemma assistant_push_eq:
  "assistant_push p chunk =
     (let (c, cc) = citation_push (ap_citations p) chunk;
          (l, lc) = (if ap_plan_mode p then plan_push (ap_plan p) (visible_text cc)
                     else (ap_plan p, \<lparr>visible_text = visible_text cc, extracted = []\<rparr>))
      in (p\<lparr>ap_citations := c, ap_plan := l\<rparr>,
          \<lparr>ac_visible_text = visible_text lc, ac_citations = extracted cc, ac_plan_segments = extracted lc\<rparr>))"
  by (auto simp: assistant_push_def parse_visible_text_def Let_def split: prod.splits)

lemma assistant_finish_state:
  "fst (assistant_finish p) = p\<lparr>ap_citations := fst (citation_finish (ap_citations p)),
     ap_plan := (if ap_plan_mode p
       then fst (plan_finish (fst (plan_push (ap_plan p) (visible_text (snd (citation_finish (ap_citations p)))))))
       else ap_plan p)\<rparr>"
  by (cases p) (simp add: assistant_finish_def parse_visible_text_def split: prod.splits)

lemma assistant_finish_new: "assistant_ok m p \<Longrightarrow> fst (assistant_finish p) = assistant_new m"
proof -
  assume ok: "assistant_ok m p"
  then have c: "fst (citation_finish (ap_citations p)) = citation_new"
    using citation.finish_start by (simp add: assistant_ok_def)
  have l: "fst (plan_finish (fst (plan_push (ap_plan p) x))) = plan_parser_new" for x
    using ok plan.finish_start [OF plan.push_ok] by (simp add: assistant_ok_def)
  have "fst (assistant_finish p) = p\<lparr>ap_citations := citation_new, ap_plan := plan_parser_new\<rparr>"
    using ok by (auto simp: assistant_finish_state c l assistant_ok_def)
  then show ?thesis using ok
    by (cases p) (simp add: assistant_new_def assistant_ok_def)
qed

interpretation assistant:
  finishing_parser assistant_push merge_assistant no_assistant "assistant_ok m" assistant_finish "assistant_new m" for m
proof unfold_locales
  show "assistant_ok m (fst (assistant_push s a))" if "assistant_ok m s" for s a
    using that
    by (auto simp: assistant_push_eq assistant_ok_def Let_def dest: plan_push_ok citation_push_ok
        split: prod.splits if_splits)
  show "assistant_push s [] = (s, no_assistant)" if "assistant_ok m s" for s
    using that citation.push_nil [of "ap_citations s"] plan.push_nil [of "ap_plan s"]
    by (auto simp: assistant_push_eq assistant_ok_def no_assistant_def no_text_def)
  show "assistant_push s (a @ b) = (case assistant_push s a of (s1, o1) \<Rightarrow>
      case assistant_push s1 b of (s2, o2) \<Rightarrow> (s2, merge_assistant o1 o2))" if "assistant_ok m s" for s a b
    using that citation.push_split [of "ap_citations s" a b] plan.push_split [of "ap_plan s"]
    by (auto simp: assistant_push_eq assistant_ok_def merge_assistant_def merge_plan_chunk_def
        chunk_append_def Let_def split: prod.splits)
  show "merge_assistant x no_assistant = x" for x
    by (simp add: merge_assistant_def no_assistant_def)
  show "assistant_ok m (assistant_new m)"
    using citation.start_ok plan.start_ok by (simp add: assistant_ok_def assistant_new_def)
  show "fst (assistant_finish s) = assistant_new m" if "assistant_ok m s" for s
    using that by (rule assistant_finish_new)
qed

section \<open>One pass is two readings\<close>

lemma merge_plan_chunk_assoc:
  "merge_plan_chunk (merge_plan_chunk a b) c = merge_plan_chunk a (merge_plan_chunk b c)"
  by (simp add: merge_plan_chunk_def merge_plan_def merge_assoc)

lemma merge_plan_append: "merge_plan (merge_plan xs ys) zs = merge_plan xs (ys @ zs)"
  by (simp add: merge_plan_def merge_segments_def)

definition plan_reading :: "pystr \<Rightarrow> plan_segment text_chunk" where
  "plan_reading doc = map_proposed_plan_segments (merge_segments [] (tagged_lines plan_specs doc))"

lemma plan_stream:
  "plan_push plan_parser_new doc = (p, out) \<Longrightarrow> merge_plan_chunk out (snd (plan_finish p)) = plan_reading doc"
proof -
  assume r: "plan_push plan_parser_new doc = (p, out)"
  then obtain o1 where o1: "line_parse plan_parser_new doc = (p, o1)" "out = map_proposed_plan_segments o1"
    by (cases "line_parse plan_parser_new doc") (simp add: plan_push_def)
  have "merge_segments o1 (snd (line_finish p)) = merge_segments [] (tagged_lines plan_specs doc)"
    using parse_lines [of plan_parser_new "[]" doc p o1] o1(1)
    by (simp add: line_parse_def plan_parser_new_def line_parser_new_def tagged_lines_def)
  then show ?thesis
    by (simp add: plan_reading_def o1(2) plan_finish_def map_plan_merge [symmetric])
qed

definition assistant_reading :: "bool \<Rightarrow> pystr \<Rightarrow> assistant_chunk" where
  "assistant_reading plan_mode doc =
     (let (visible, citations) = tagged_parts doc in
      if plan_mode then
        \<lparr>ac_visible_text = visible_text (plan_reading visible), ac_citations = citations,
         ac_plan_segments = extracted (plan_reading visible)\<rparr>
      else \<lparr>ac_visible_text = visible, ac_citations = citations, ac_plan_segments = []\<rparr>)"

lemma assistant_stream_lemma:
  "parse_stream assistant_push assistant_finish merge_assistant no_assistant (assistant_new m) pieces =
     assistant_reading m (concat pieces)"
proof -
  let ?doc = "concat pieces"
  obtain c cc where c: "citation_push citation_new ?doc = (c, cc)" by (cases "citation_push citation_new ?doc")
  obtain c2 cc2 where c2: "citation_finish c = (c2, cc2)" by (cases "citation_finish c")
  have parts: "(visible_text cc @ visible_text cc2, extracted cc @ extracted cc2) = tagged_parts ?doc"
    using strip_citations_lemma [of ?doc] by (simp add: strip_citations_def c c2)
  have one: "parse_stream assistant_push assistant_finish merge_assistant no_assistant (assistant_new m) pieces =
      parse_stream assistant_push assistant_finish merge_assistant no_assistant (assistant_new m) [?doc]"
    by (rule assistant.stream_concat)
  show ?thesis
  proof (cases m)
    case False
    then show ?thesis unfolding one
      by (simp add: parse_stream_def assistant_push_eq assistant_new_def c c2 assistant_finish_def
          parse_visible_text_def merge_assistant_def no_assistant_def assistant_reading_def parts [symmetric])
  next
    case True
    obtain l1 lc1 where l1: "plan_push plan_parser_new (visible_text cc) = (l1, lc1)"
      by (cases "plan_push plan_parser_new (visible_text cc)")
    obtain l2 lc2 where l2: "plan_push l1 (visible_text cc2) = (l2, lc2)"
      by (cases "plan_push l1 (visible_text cc2)")
    obtain l3 lc3 where l3: "plan_finish l2 = (l3, lc3)" by (cases "plan_finish l2")
    have "plan_push plan_parser_new (visible_text cc @ visible_text cc2) = (l2, merge_plan_chunk lc1 lc2)"
      using plan.push_split [OF plan.start_ok] by (simp add: l1 l2)
    then have "merge_plan_chunk (merge_plan_chunk lc1 lc2) lc3 = plan_reading (visible_text cc @ visible_text cc2)"
      using plan_stream l3 by (metis snd_conv)
    then have r: "plan_reading (visible_text cc @ visible_text cc2) =
        \<lparr>visible_text = visible_text lc1 @ visible_text lc2 @ visible_text lc3,
         extracted = merge_plan (extracted lc1) (extracted lc2 @ extracted lc3)\<rparr>"
      by (simp add: merge_plan_chunk_def merge_plan_append)
    have "text_chunk_is_empty lc3 \<Longrightarrow> visible_text lc3 = [] \<and> extracted lc3 = []"
      by (simp add: text_chunk_is_empty_def)
    then show ?thesis unfolding one
      by (auto simp: parse_stream_def assistant_push_eq assistant_new_def c c2 assistant_finish_def True
          parse_visible_text_def l1 l2 l3 merge_assistant_def no_assistant_def assistant_reading_def
          parts [symmetric] r)
  qed
qed

lemma strip_plan_lemma: "strip_proposed_plan_blocks doc = visible_text (plan_reading doc)"
proof -
  obtain p out where r: "plan_push plan_parser_new doc = (p, out)" by (cases "plan_push plan_parser_new doc")
  then show ?thesis
    by (simp add: strip_proposed_plan_blocks_def plan_stream [OF r, symmetric] merge_plan_chunk_def)
qed

text \<open>
  C26: The one-pass parser of assistant text is two readings of the whole message: however the message
  is cut into deltas, the citations and the visible text are those of the document, and in plan mode
  the plan blocks are then read, line by line, from the text without citations.
\<close>

theorem assistant_stream_is_two_readings:
  "parse_stream assistant_push assistant_finish merge_assistant no_assistant (assistant_new m) pieces =
     assistant_reading m (concat pieces)"
  by (rule assistant_stream_lemma)

end
