(* ===== verification/Utf8Stream.thy ===== *)
theory Utf8Stream
  imports HiddenTag
begin

text \<open>
  \<open>pycodex/utils/stream_parser/utf8_stream.py\<close>: bytes are decoded as they arrive and passed to an
  inner text parser, an unfinished character being kept for the next piece. Python's decoder is
  modelled with the positions it reports. For any inner parser that obeys the contract the division
  of the bytes into pieces does not matter, even inside characters.
\<close>

section \<open>Python's UTF-8 decoder\<close>

datatype utf8_step = Utf8Char int nat | Utf8Invalid nat | Utf8Incomplete

definition utf8_cont :: "int \<Rightarrow> bool" where
  "utf8_cont b \<longleftrightarrow> 128 \<le> b \<and> b < 192"

definition utf8_second3 :: "int \<Rightarrow> int \<Rightarrow> bool" where
  "utf8_second3 b0 b1 \<longleftrightarrow> utf8_cont b1 \<and> (b0 = 224 \<longrightarrow> 160 \<le> b1) \<and> (b0 = 237 \<longrightarrow> b1 < 160)"

definition utf8_second4 :: "int \<Rightarrow> int \<Rightarrow> bool" where
  "utf8_second4 b0 b1 \<longleftrightarrow> utf8_cont b1 \<and> (b0 = 240 \<longrightarrow> 144 \<le> b1) \<and> (b0 = 244 \<longrightarrow> b1 < 144)"

fun utf8_next :: "int list \<Rightarrow> utf8_step" where
  "utf8_next [] = Utf8Incomplete"
| "utf8_next (b0 # rest) =
     (if b0 < 128 then Utf8Char b0 1
      else if b0 < 194 then Utf8Invalid 1
      else if b0 < 224 then
        (case rest of
           [] \<Rightarrow> Utf8Incomplete
         | b1 # _ \<Rightarrow> if \<not> utf8_cont b1 then Utf8Invalid 1
                    else Utf8Char ((b0 - 192) * 64 + (b1 - 128)) 2)
      else if b0 < 240 then
        (case rest of
           [] \<Rightarrow> Utf8Incomplete
         | b1 # rest1 \<Rightarrow>
             if \<not> utf8_second3 b0 b1 then Utf8Invalid 1
             else (case rest1 of
               [] \<Rightarrow> Utf8Incomplete
             | b2 # _ \<Rightarrow> if \<not> utf8_cont b2 then Utf8Invalid 2
                        else Utf8Char (((b0 - 224) * 64 + (b1 - 128)) * 64 + (b2 - 128)) 3))
      else if b0 < 245 then
        (case rest of
           [] \<Rightarrow> Utf8Incomplete
         | b1 # rest1 \<Rightarrow>
             if \<not> utf8_second4 b0 b1 then Utf8Invalid 1
             else (case rest1 of
               [] \<Rightarrow> Utf8Incomplete
             | b2 # rest2 \<Rightarrow>
                 if \<not> utf8_cont b2 then Utf8Invalid 2
                 else (case rest2 of
                   [] \<Rightarrow> Utf8Incomplete
                 | b3 # _ \<Rightarrow> if \<not> utf8_cont b3 then Utf8Invalid 3
                     else Utf8Char ((((b0 - 240) * 64 + (b1 - 128)) * 64 + (b2 - 128)) * 64 + (b3 - 128)) 4)))
      else Utf8Invalid 1)"

text \<open>\<open>UnicodeDecodeError\<close>: where it starts and ends, and whether the data ended unexpectedly.\<close>

record decode_error =
  de_start :: nat
  de_end :: nat
  de_unexpected_end :: bool

fun utf8_decode_from :: "nat \<Rightarrow> int list \<Rightarrow> (decode_error, pystr) result" where
  "utf8_decode_from pos [] = Inr []"
| "utf8_decode_from pos (b # bs) =
     (case utf8_next (b # bs) of
        Utf8Char c n \<Rightarrow> bindE (utf8_decode_from (pos + n) (drop (n - 1) bs)) (\<lambda>s. Inr (c # s))
      | Utf8Invalid n \<Rightarrow> Inl \<lparr>de_start = pos, de_end = pos + n, de_unexpected_end = False\<rparr>
      | Utf8Incomplete \<Rightarrow>
          Inl \<lparr>de_start = pos, de_end = pos + length (b # bs), de_unexpected_end = True\<rparr>)"

definition utf8_decode :: "int list \<Rightarrow> (decode_error, pystr) result" where
  "utf8_decode bs = utf8_decode_from 0 bs"

section \<open>The stream\<close>

datatype utf8_exn = InvalidUtf8 nat nat | IncompleteUtf8AtEof

definition utf8_exn_str :: "utf8_exn \<Rightarrow> pystr" where
  "utf8_exn_str err =
     (case err of
        InvalidUtf8 valid_up_to error_len \<Rightarrow>
          lit ''invalid UTF-8 in streamed bytes at offset '' @ str_of_nat valid_up_to
            @ lit '' (error length '' @ str_of_nat error_len @ lit '')''
      | IncompleteUtf8AtEof \<Rightarrow> lit ''incomplete UTF-8 code point at end of stream'')"

record 's utf8_stream =
  us_inner :: 's
  us_pending :: "int list"

definition utf8_stream_new :: "'s \<Rightarrow> 's utf8_stream" where
  "utf8_stream_new inner = \<lparr>us_inner = inner, us_pending = []\<rparr>"

definition invalid_utf8 :: "decode_error \<Rightarrow> utf8_exn" where
  "invalid_utf8 err = InvalidUtf8 (de_start err) (de_end err - de_start err)"

definition push_bytes ::
  "('s \<Rightarrow> pystr \<Rightarrow> 's \<times> 't text_chunk) \<Rightarrow> 's utf8_stream \<Rightarrow> int list
     \<Rightarrow> 's utf8_stream \<times> (utf8_exn, 't text_chunk) result" where
  "push_bytes push st chunk =
     (let pending = us_pending st @ chunk in
      case utf8_decode pending of
        Inr s \<Rightarrow>
          (case push (us_inner st) s of (inner, out) \<Rightarrow>
             (st\<lparr>us_inner := inner, us_pending := []\<rparr>, Inr out))
      | Inl err \<Rightarrow>
          if \<not> de_unexpected_end err then
            (st\<lparr>us_pending := take (length (us_pending st)) pending\<rparr>, Inl (invalid_utf8 err))
          else
            let valid_up_to = de_start err in
            if valid_up_to = 0 then (st\<lparr>us_pending := pending\<rparr>, Inr no_text)
            else (case utf8_decode (take valid_up_to pending) of
              Inl prefix_err \<Rightarrow>
                (st\<lparr>us_pending := take (length (us_pending st)) pending\<rparr>, Inl (invalid_utf8 prefix_err))
            | Inr s \<Rightarrow>
                (case push (us_inner st) s of (inner, out) \<Rightarrow>
                   (st\<lparr>us_inner := inner, us_pending := drop valid_up_to pending\<rparr>, Inr out))))"

definition finish_bytes ::
  "('s \<Rightarrow> pystr \<Rightarrow> 's \<times> 't text_chunk) \<Rightarrow> ('s \<Rightarrow> 's \<times> 't text_chunk) \<Rightarrow> 's utf8_stream
     \<Rightarrow> 's utf8_stream \<times> (utf8_exn, 't text_chunk) result" where
  "finish_bytes push finish st =
     (if us_pending st = [] then
        (case finish (us_inner st) of (inner, tail) \<Rightarrow>
           (st\<lparr>us_inner := inner\<rparr>, Inr (chunk_append no_text tail)))
      else (case utf8_decode (us_pending st) of
        Inl err \<Rightarrow>
          (st, Inl (if \<not> de_unexpected_end err then invalid_utf8 err else IncompleteUtf8AtEof))
      | Inr s \<Rightarrow>
          (case push (us_inner st) s of (inner, out) \<Rightarrow>
             (case finish inner of (inner', tail) \<Rightarrow>
                (st\<lparr>us_inner := inner', us_pending := []\<rparr>, Inr (chunk_append out tail))))))"

definition into_inner :: "'s utf8_stream \<Rightarrow> (utf8_exn, 's) result" where
  "into_inner st =
     (if us_pending st = [] then Inr (us_inner st)
      else (case utf8_decode (us_pending st) of
        Inl err \<Rightarrow> Inl (if \<not> de_unexpected_end err then invalid_utf8 err else IncompleteUtf8AtEof)
      | Inr s \<Rightarrow> Inr (us_inner st)))"

definition into_inner_lossy :: "'s utf8_stream \<Rightarrow> 's" where
  "into_inner_lossy st = us_inner st"

text \<open>A caller that pushes piece after piece and stops at the first error.\<close>

fun push_byte_pieces ::
  "('s \<Rightarrow> pystr \<Rightarrow> 's \<times> 't text_chunk) \<Rightarrow> 's utf8_stream \<Rightarrow> int list list
     \<Rightarrow> 's utf8_stream \<times> (utf8_exn, 't text_chunk) result" where
  "push_byte_pieces push st [] = (st, Inr no_text)"
| "push_byte_pieces push st (piece # pieces) =
     (case push_bytes push st piece of
        (st', Inl err) \<Rightarrow> (st', Inl err)
      | (st', Inr o1) \<Rightarrow>
          (case push_byte_pieces push st' pieces of
             (st'', Inl err) \<Rightarrow> (st'', Inl err)
           | (st'', Inr o2) \<Rightarrow> (st'', Inr (chunk_append o1 o2))))"

section \<open>Encoding\<close>

definition scalar_value :: "int \<Rightarrow> bool" where
  "scalar_value c \<longleftrightarrow> 0 \<le> c \<and> c < 1114112 \<and> \<not> (55296 \<le> c \<and> c < 57344)"

definition utf8_encode_char :: "int \<Rightarrow> int list" where
  "utf8_encode_char c =
     (if c < 128 then [c]
      else if c < 2048 then [192 + c div 64, 128 + c mod 64]
      else if c < 65536 then [224 + c div 4096, 128 + c div 64 mod 64, 128 + c mod 64]
      else [240 + c div 262144, 128 + c div 4096 mod 64, 128 + c div 64 mod 64, 128 + c mod 64])"

definition utf8_encode :: "pystr \<Rightarrow> int list" where
  "utf8_encode s = concat (map utf8_encode_char s)"

lemma cont_mod [simp]: "utf8_cont (128 + (x::int) mod 64)"
  by (simp add: utf8_cont_def)

lemma utf8_encode_char_cases:
  assumes "scalar_value c"
  obtains (one) "0 \<le> c" "c < 128" "utf8_encode_char c = [c]"
  | (two) b1 b0 where "utf8_encode_char c = [b0, b1]" "194 \<le> b0" "b0 < 224" "utf8_cont b1"
      "c = (b0 - 192) * 64 + (b1 - 128)"
  | (three) b0 b1 b2 where "utf8_encode_char c = [b0, b1, b2]" "224 \<le> b0" "b0 < 240"
      "utf8_second3 b0 b1" "utf8_cont b2" "c = ((b0 - 224) * 64 + (b1 - 128)) * 64 + (b2 - 128)"
  | (four) b0 b1 b2 b3 where "utf8_encode_char c = [b0, b1, b2, b3]" "240 \<le> b0" "b0 < 245"
      "utf8_second4 b0 b1" "utf8_cont b2" "utf8_cont b3"
      "c = (((b0 - 240) * 64 + (b1 - 128)) * 64 + (b2 - 128)) * 64 + (b3 - 128)"
proof -
  consider "c < 128" | "128 \<le> c" "c < 2048" | "2048 \<le> c" "c < 65536" | "65536 \<le> c" by linarith
  then show thesis
  proof cases
    case 1
    then show thesis using assms one by (simp add: scalar_value_def utf8_encode_char_def)
  next
    case 2
    then show thesis by (intro two [of "192 + c div 64" "128 + c mod 64"]) (auto simp: utf8_encode_char_def)
  next
    case 3
    define q1 q2 where q: "q1 = c div 64" "q2 = q1 div 64"
    have d: "c div 4096 = q2" by (simp add: q zdiv_zmult2_eq [symmetric])
    have split: "c = 64 * q1 + c mod 64" "q1 = 64 * q2 + q1 mod 64"
      by (simp_all add: q)
    have r: "0 \<le> c mod 64" "c mod 64 < 64" "0 \<le> q1 mod 64" "q1 mod 64 < 64"
      by simp_all
    have c: "2048 \<le> c" "\<not> (55296 \<le> c \<and> c < 57344)" using 3 assms by (simp_all add: scalar_value_def)
    then have "32 \<le> q1" "\<not> (864 \<le> q1 \<and> q1 < 896)" using split(1) r by linarith+
    then have s: "utf8_second3 (224 + c div 4096) (128 + c div 64 mod 64)"
      unfolding utf8_second3_def utf8_cont_def d q(1) [symmetric] using split(2) r by linarith
    have e: "c = ((224 + c div 4096 - 224) * 64 + (128 + c div 64 mod 64 - 128)) * 64 + (128 + c mod 64 - 128)"
    proof -
      have "q2 * 64 + q1 mod 64 = q1" "q1 * 64 + c mod 64 = c" using split by linarith+
      then show ?thesis unfolding d q(1) [symmetric] by simp
    qed
    show thesis
      by (rule three [OF _ _ _ s _ e]) (use 3 in \<open>simp_all add: utf8_encode_char_def\<close>)
  next
    case 4
    define q1 q2 q3 where q: "q1 = c div 64" "q2 = q1 div 64" "q3 = q2 div 64"
    have d: "c div 4096 = q2" "c div 262144 = q3"
      by (simp_all add: q zdiv_zmult2_eq [symmetric])
    have split: "c = 64 * q1 + c mod 64" "q1 = 64 * q2 + q1 mod 64" "q2 = 64 * q3 + q2 mod 64"
      by (simp_all add: q)
    have r: "0 \<le> c mod 64" "c mod 64 < 64" "0 \<le> q1 mod 64" "q1 mod 64 < 64" "0 \<le> q2 mod 64" "q2 mod 64 < 64"
      by simp_all
    have c: "65536 \<le> c" "c < 1114112" using 4 assms by (simp_all add: scalar_value_def)
    have "16 \<le> q2" "q2 < 272" using c split(1,2) r by linarith+
    then have s: "utf8_second4 (240 + c div 262144) (128 + c div 4096 mod 64)"
      unfolding utf8_second4_def utf8_cont_def d using split(3) r by linarith
    have e: "c = (((240 + c div 262144 - 240) * 64 + (128 + c div 4096 mod 64 - 128)) * 64
        + (128 + c div 64 mod 64 - 128)) * 64 + (128 + c mod 64 - 128)"
    proof -
      have "q3 * 64 + q2 mod 64 = q2" "q2 * 64 + q1 mod 64 = q1" "q1 * 64 + c mod 64 = c"
        using split by linarith+
      then show ?thesis unfolding d q(1) [symmetric] by simp
    qed
    have l: "240 + c div 262144 < 245" using c by simp
    show thesis
      by (rule four [OF _ _ l s _ _ e]) (use 4 in \<open>simp_all add: utf8_encode_char_def\<close>)
  qed
qed

lemma utf8_next_encode:
  "scalar_value c \<Longrightarrow> utf8_next (utf8_encode_char c @ rest) = Utf8Char c (length (utf8_encode_char c))"
  by (elim utf8_encode_char_cases) auto

lemma strict_prefix_simps: "strict_prefix p (b # bs) \<longleftrightarrow> p = [] \<or> (\<exists>p'. p = b # p' \<and> strict_prefix p' bs)"
  by (cases p) auto

lemma utf8_next_incomplete:
  "scalar_value c \<Longrightarrow> strict_prefix p (utf8_encode_char c) \<Longrightarrow> utf8_next p = Utf8Incomplete"
  by (elim utf8_encode_char_cases) (auto simp: strict_prefix_simps)

lemma utf8_encode_char_nonempty [simp]: "utf8_encode_char c \<noteq> []"
  by (simp add: utf8_encode_char_def)

lemma utf8_decode_encode:
  assumes "\<forall>c \<in> set t. scalar_value c"
  shows "utf8_decode_from pos (utf8_encode t @ rest) =
    bindE (utf8_decode_from (pos + length (utf8_encode t)) rest) (\<lambda>s. Inr (t @ s))"
  using assms
proof (induction t arbitrary: pos)
  case Nil
  show ?case by (cases "utf8_decode_from pos rest") (simp_all add: utf8_encode_def)
next
  case (Cons c t)
  have enc: "utf8_encode (c # t) = utf8_encode_char c @ utf8_encode t" by (simp add: utf8_encode_def)
  obtain b bs where b: "utf8_encode_char c = b # bs" by (cases "utf8_encode_char c") auto
  have "utf8_next (b # bs @ utf8_encode t @ rest) = Utf8Char c (Suc (length bs))"
    using utf8_next_encode [of c "utf8_encode t @ rest"] Cons.prems b by simp
  with Cons.IH [of "pos + Suc (length bs)"] Cons.prems show ?case
    by (cases "utf8_decode_from (pos + length (utf8_encode (c # t))) rest")
      (simp_all add: enc b add.assoc)
qed

lemma utf8_decode_whole: "\<forall>c \<in> set t. scalar_value c \<Longrightarrow> utf8_decode (utf8_encode t) = Inr t"
  using utf8_decode_encode [of t 0 "[]"] by (simp add: utf8_decode_def)

lemma utf8_decode_cut:
  assumes "\<forall>c \<in> set t. scalar_value c" "scalar_value c" "strict_prefix p (utf8_encode_char c)" "p \<noteq> []"
  shows "utf8_decode (utf8_encode t @ p) = Inl \<lparr>de_start = length (utf8_encode t),
    de_end = length (utf8_encode t) + length p, de_unexpected_end = True\<rparr>"
proof -
  obtain b bs where p: "p = b # bs" using assms(4) by (cases p) auto
  have "utf8_next (b # bs) = Utf8Incomplete" using utf8_next_incomplete assms(2,3) p by blast
  then show ?thesis
    using utf8_decode_encode [OF assms(1), of 0 p] by (simp add: utf8_decode_def p)
qed

text \<open>A beginning of an encoded text is an encoded text and the beginning of a character.\<close>

lemma encoded_prefix:
  "prefix q (utf8_encode t) \<Longrightarrow> \<exists>t1 t2 p. t = t1 @ t2 \<and> q = utf8_encode t1 @ p
     \<and> (p = [] \<or> (\<exists>c t3. t2 = c # t3 \<and> strict_prefix p (utf8_encode_char c)))"
proof (induction t arbitrary: q)
  case Nil
  then show ?case by (simp add: utf8_encode_def)
next
  case (Cons c t)
  have enc: "utf8_encode (c # t) = utf8_encode_char c @ utf8_encode t" by (simp add: utf8_encode_def)
  from Cons.prems consider "strict_prefix q (utf8_encode_char c)"
    | q' where "q = utf8_encode_char c @ q'" "prefix q' (utf8_encode t)"
  proof -
    from Cons.prems have "prefix q (utf8_encode_char c) \<or> (\<exists>q'. q = utf8_encode_char c @ q' \<and> prefix q' (utf8_encode t))"
      by (simp add: enc prefix_append)
    moreover have "prefix q (utf8_encode_char c) \<Longrightarrow> strict_prefix q (utf8_encode_char c) \<or> q = utf8_encode_char c @ []"
      by (auto simp: strict_prefix_def)
    ultimately show thesis using that Nil_prefix by blast
  qed
  then show ?case
  proof cases
    case 1
    then show ?thesis
      by (intro exI [of _ "[]"] exI [of _ "c # t"] exI [of _ q]) (simp add: utf8_encode_def)
  next
    case 2
    from Cons.IH [OF 2(2)] obtain t1 t2 p where "t = t1 @ t2" "q' = utf8_encode t1 @ p"
      "p = [] \<or> (\<exists>c t3. t2 = c # t3 \<and> strict_prefix p (utf8_encode_char c))" by blast
    with 2(1) show ?thesis
      by (intro exI [of _ "c # t1"] exI [of _ t2] exI [of _ p]) (simp add: utf8_encode_def)
  qed
qed

section \<open>Pushing bytes\<close>

lemma push_bytes_whole:
  assumes "us_pending st @ chunk = utf8_encode t" "\<forall>c \<in> set t. scalar_value c"
  shows "push_bytes push st chunk =
    (case push (us_inner st) t of (inner, out) \<Rightarrow> (st\<lparr>us_inner := inner, us_pending := []\<rparr>, Inr out))"
  using utf8_decode_whole [OF assms(2)] by (simp add: push_bytes_def assms(1) Let_def)

lemma push_bytes_cut:
  assumes "us_pending st @ chunk = utf8_encode t @ p" "\<forall>c \<in> set t. scalar_value c"
    and "scalar_value c" "strict_prefix p (utf8_encode_char c)" "p \<noteq> []"
  shows "push_bytes push st chunk =
    (if t = [] then (st\<lparr>us_pending := p\<rparr>, Inr no_text)
     else case push (us_inner st) t of (inner, out) \<Rightarrow> (st\<lparr>us_inner := inner, us_pending := p\<rparr>, Inr out))"
proof -
  have empty: "utf8_encode t = [] \<longleftrightarrow> t = []" by (cases t) (simp_all add: utf8_encode_def)
  have d: "utf8_decode (us_pending st @ chunk) = Inl \<lparr>de_start = length (utf8_encode t),
      de_end = length (utf8_encode t) + length p, de_unexpected_end = True\<rparr>"
    using utf8_decode_cut [OF assms(2-5)] by (simp add: assms(1))
  have w: "utf8_decode (take (length (utf8_encode t)) (us_pending st @ chunk)) = Inr t"
    "drop (length (utf8_encode t)) (us_pending st @ chunk) = p"
    using utf8_decode_whole [OF assms(2)] by (simp_all add: assms(1))
  show ?thesis
  proof (cases "t = []")
    case True
    then have "us_pending st @ chunk = p" using assms(1) empty by simp
    with True d empty show ?thesis by (simp add: push_bytes_def Let_def)
  next
    case False
    with d w empty show ?thesis by (simp add: push_bytes_def Let_def)
  qed
qed

text \<open>The parsers the adapter takes: their chunks are text with extracts, joined field by field.\<close>

locale chunk_parser = stream_parser push chunk_append no_text ok
  for push :: "'s \<Rightarrow> pystr \<Rightarrow> 's \<times> 't text_chunk" and ok :: "'s \<Rightarrow> bool"
begin

lemma byte_pieces:
  assumes "ok s" "p @ concat pieces = utf8_encode t" "\<forall>c \<in> set t. scalar_value c"
    and "p = [] \<or> (\<exists>c t'. t = c # t' \<and> strict_prefix p (utf8_encode_char c))"
  shows "push_byte_pieces push \<lparr>us_inner = s, us_pending = p\<rparr> pieces =
    (case push s t of (s', out) \<Rightarrow> (\<lparr>us_inner = s', us_pending = []\<rparr>, Inr out))"
  using assms
proof (induction pieces arbitrary: s p t)
  case Nil
  have "t = []"
  proof (cases t)
    case (Cons c t')
    then have "length (utf8_encode_char c) \<le> length p" using Nil.prems(2) by (simp add: utf8_encode_def)
    then have False
      using Nil.prems(2,4) Cons by (auto simp: utf8_encode_def dest: prefix_length_less)
    then show ?thesis ..
  qed simp
  with Nil show ?case by (simp add: push_nil utf8_encode_def)
next
  case (Cons piece pieces)
  let ?st = "\<lparr>us_inner = s, us_pending = p\<rparr>"
  have "prefix (p @ piece) (utf8_encode t)"
    using Cons.prems(2) by (metis append.assoc concat.simps(2) prefixI)
  then obtain t1 t2 q where t: "t = t1 @ t2" "p @ piece = utf8_encode t1 @ q"
    "q = [] \<or> (\<exists>c t3. t2 = c # t3 \<and> strict_prefix q (utf8_encode_char c))"
    using encoded_prefix by blast
  have rest: "q @ concat pieces = utf8_encode t2"
  proof -
    have "utf8_encode t1 @ q @ concat pieces = utf8_encode t1 @ utf8_encode t2"
      using Cons.prems(2) t(1,2) by (metis append.assoc concat.simps(2) utf8_encode_def map_append concat_append)
    then show ?thesis by simp
  qed
  have sv: "\<forall>c \<in> set t1. scalar_value c" "\<forall>c \<in> set t2. scalar_value c"
    using Cons.prems(3) t(1) by auto
  obtain s1 o1 where s1: "push s t1 = (s1, o1)" by (cases "push s t1")
  have first: "push_bytes push ?st piece = (\<lparr>us_inner = s1, us_pending = q\<rparr>, Inr o1)"
  proof (cases "q = []")
    case True
    then show ?thesis
      using push_bytes_whole [of ?st piece t1 push] t(2) sv(1) s1 by simp
  next
    case False
    with t(3) obtain c t3 where c: "t2 = c # t3" "strict_prefix q (utf8_encode_char c)" by blast
    have "scalar_value c" using sv(2) c(1) by simp
    with False show ?thesis
      using push_bytes_cut [of ?st piece t1 q c push] t(2) sv(1) s1 c(2) push_nil [OF Cons.prems(1)]
      by (cases "t1 = []") simp_all
  qed
  have "ok s1" using push_ok [OF Cons.prems(1), of t1] s1 by simp
  from Cons.IH [OF this rest sv(2) t(3)]
  have "push_byte_pieces push \<lparr>us_inner = s1, us_pending = q\<rparr> pieces =
    (case push s1 t2 of (s', out) \<Rightarrow> (\<lparr>us_inner = s', us_pending = []\<rparr>, Inr out))" .
  with first show ?case
    using push_split [OF Cons.prems(1), of t1 t2] s1 by (simp add: t(1) split: prod.splits)
qed

lemma byte_stream:
  assumes "ok s" "concat pieces = utf8_encode t" "\<forall>c \<in> set t. scalar_value c"
  shows "push_byte_pieces push (utf8_stream_new s) pieces =
    (case push s t of (s', out) \<Rightarrow> (utf8_stream_new s', Inr out))"
  using byte_pieces [of s "[]" pieces t] assms by (simp add: utf8_stream_new_def)

end

interpretation citation_bytes: chunk_parser citation_push citation_ok
  by unfold_locales

text \<open>
  C27: Bytes may be cut anywhere, inside a character too: pushing the UTF-8 encoding of a message into
  the citation parser piece by piece never fails, nothing stays pending, and the visible text and the
  citations, with what finishing adds, are those of the whole message.
\<close>

theorem byte_pieces_read_the_message:
  assumes "concat pieces = utf8_encode doc" "\<forall>c \<in> set doc. scalar_value c"
  shows "\<exists>st out tail inner.
    push_byte_pieces citation_push (utf8_stream_new citation_new) pieces = (st, Inr out)
    \<and> finish_bytes citation_push citation_finish st = (inner, Inr tail)
    \<and> into_inner st = Inr (us_inner st)
    \<and> (visible_text (chunk_append out tail), extracted (chunk_append out tail)) = tagged_parts doc"
proof -
  obtain p out where r: "citation_push citation_new doc = (p, out)"
    by (cases "citation_push citation_new doc")
  have push: "push_byte_pieces citation_push (utf8_stream_new citation_new) pieces =
      (utf8_stream_new p, Inr out)"
    using citation_bytes.byte_stream [OF citation.start_ok assms] r by simp
  obtain p' tail where f: "citation_finish p = (p', tail)" by (cases "citation_finish p")
  have "(visible_text (chunk_append out tail), extracted (chunk_append out tail)) = tagged_parts doc"
    using citation_stream_lemma [of "[doc]"] r f by (simp add: parse_stream_def)
  then show ?thesis using push f
    by (intro exI [of _ "utf8_stream_new p"] exI [of _ out] exI [of _ tail] exI [of _ "utf8_stream_new p'"])
      (simp add: finish_bytes_def into_inner_def utf8_stream_new_def)
qed

lemma byte_pieces_read_the_message_witness:
  "\<exists>st out tail inner.
    push_byte_pieces citation_push (utf8_stream_new citation_new) [[104, 195], [169]] = (st, Inr out)
    \<and> finish_bytes citation_push citation_finish st = (inner, Inr tail)
    \<and> into_inner st = Inr (us_inner st)
    \<and> (visible_text (chunk_append out tail), extracted (chunk_append out tail)) = tagged_parts [104, 233]"
  by (rule byte_pieces_read_the_message) (simp_all add: utf8_encode_def utf8_encode_char_def scalar_value_def)

end
