(* ===== verification/FsPolicy.thy ===== *)
theory FsPolicy
  imports PyPath
begin

text \<open>
  File-system sandbox policies, \<open>pycodex/protocol/permissions.py\<close>: entries that give a path read or
  write access or deny it, how the access of a path is resolved, the metadata directories that stay
  protected below writable roots, and the operations that extend and merge policies. What the code asks
  the system (the current directory, \<open>TMPDIR\<close>, whether a path is a directory, \<open>Path.resolve\<close>) is a
  parameter; parsing from and printing to JSON mappings is left out.
\<close>

section \<open>Policies\<close>

datatype fs_access = FsRead | FsWrite | FsDeny

fun can_read :: "fs_access \<Rightarrow> bool" where
  "can_read a = (a \<noteq> FsDeny)"

fun can_write :: "fs_access \<Rightarrow> bool" where
  "can_write a = (a = FsWrite)"

fun conflict_precedence :: "fs_access \<Rightarrow> nat" where
  "conflict_precedence FsRead = 0"
| "conflict_precedence FsWrite = 1"
| "conflict_precedence FsDeny = 2"

datatype fs_kind = Restricted | Unrestricted | ExternalSandbox

datatype fs_special = SpRoot | SpMinimal | SpProjectRoots "pypath option" | SpTmpdir | SpSlashTmp
  | SpUnknown pystr "pypath option"

datatype fs_path = FsPath pypath | FsGlob pystr | FsSpecial fs_special

record fs_entry =
  en_path :: fs_path
  en_access :: fs_access

record fs_policy =
  fp_kind :: fs_kind
  fp_entries :: "fs_entry list"
  fp_glob_depth :: "int option"

record fs_env =
  fe_cwd :: pypath
  fe_tmpdir :: "pystr option"
  fe_is_dir :: "pypath \<Rightarrow> bool"
  fe_is_file :: "pypath \<Rightarrow> bool"
  fe_resolve :: "pypath \<Rightarrow> pypath"

definition entry :: "fs_path \<Rightarrow> fs_access \<Rightarrow> fs_entry" where
  "entry p a = \<lparr>en_path = p, en_access = a\<rparr>"

definition restricted :: "fs_entry list \<Rightarrow> fs_policy" where
  "restricted es = \<lparr>fp_kind = Restricted, fp_entries = es, fp_glob_depth = None\<rparr>"

definition unrestricted :: fs_policy where
  "unrestricted = \<lparr>fp_kind = Unrestricted, fp_entries = [], fp_glob_depth = None\<rparr>"

definition external_sandbox :: fs_policy where
  "external_sandbox = \<lparr>fp_kind = ExternalSandbox, fp_entries = [], fp_glob_depth = None\<rparr>"

definition PROTECTED_METADATA_PATH_NAMES :: "pystr list" where
  "PROTECTED_METADATA_PATH_NAMES = [lit ''.git'', lit ''.agents'', lit ''.codex'']"

section \<open>Resolving the paths of entries\<close>

definition path_length :: "pypath \<Rightarrow> nat" where
  "path_length p = (if path_root p = [] then 0 else 1) + length (path_parts p)"

definition path_child :: "pypath \<Rightarrow> pystr \<Rightarrow> pypath" where
  "path_child p name = PyPath (path_root p) (path_parts p @ [name])"

definition resolve_base_cwd :: "fs_env \<Rightarrow> pypath \<Rightarrow> pypath" where
  "resolve_base_cwd env cwd = (if path_is_absolute cwd then cwd else path_join (fe_cwd env) cwd)"

definition resolve_against_base :: "fs_env \<Rightarrow> pypath \<Rightarrow> pypath \<Rightarrow> pypath" where
  "resolve_against_base env path base =
     (if path_is_absolute path then path else path_join (resolve_base_cwd env base) path)"

definition resolve_candidate_path :: "fs_env \<Rightarrow> pypath \<Rightarrow> pypath \<Rightarrow> pypath" where
  "resolve_candidate_path env path cwd =
     (if path_is_absolute path then path else path_join (resolve_base_cwd env cwd) path)"

definition absolute_root_path_for_cwd :: "pypath \<Rightarrow> pypath" where
  "absolute_root_path_for_cwd cwd =
     (if path_root cwd \<noteq> [] then PyPath (path_root cwd) [] else PyPath (lit ''/'') [])"

definition slash_tmp :: pypath where
  "slash_tmp = PyPath (lit ''/'') [lit ''tmp'']"

fun resolve_special :: "fs_env \<Rightarrow> fs_special \<Rightarrow> pypath option \<Rightarrow> pypath option" where
  "resolve_special env SpRoot cwd = None"
| "resolve_special env SpMinimal cwd = None"
| "resolve_special env (SpUnknown p s) cwd = None"
| "resolve_special env (SpProjectRoots subpath) cwd =
     (case cwd of None \<Rightarrow> None
      | Some c \<Rightarrow> Some (resolve_against_base env
          (case subpath of None \<Rightarrow> PyPath [] [] | Some s \<Rightarrow> s) (resolve_base_cwd env c)))"
| "resolve_special env SpTmpdir cwd =
     (case fe_tmpdir env of None \<Rightarrow> None
      | Some raw \<Rightarrow> if raw \<noteq> [] \<and> path_is_absolute (path_of raw) then Some (path_of raw) else None)"
| "resolve_special env SpSlashTmp cwd = (if fe_is_dir env slash_tmp then Some slash_tmp else None)"

fun resolve_file_system_path :: "fs_env \<Rightarrow> fs_path \<Rightarrow> pypath option \<Rightarrow> pypath option" where
  "resolve_file_system_path env (FsPath p) cwd = Some p"
| "resolve_file_system_path env (FsGlob g) cwd = None"
| "resolve_file_system_path env (FsSpecial v) cwd = resolve_special env v cwd"

definition resolve_entry_path :: "fs_env \<Rightarrow> fs_path \<Rightarrow> pypath \<Rightarrow> pypath option" where
  "resolve_entry_path env path cwd =
     (if path = FsSpecial SpRoot then Some (absolute_root_path_for_cwd cwd)
      else resolve_file_system_path env path (Some cwd))"

definition resolved_entries :: "fs_env \<Rightarrow> fs_policy \<Rightarrow> pypath \<Rightarrow> (pypath \<times> fs_access) list" where
  "resolved_entries env policy cwd = concat (map
     (\<lambda>e. case resolve_entry_path env (en_path e) cwd of None \<Rightarrow> [] | Some p \<Rightarrow> [(p, en_access e)])
     (fp_entries policy))"

section \<open>The access of a path\<close>

text \<open>\<open>max(xs, key=key)\<close>: the first of the greatest.\<close>

fun max_key :: "('a \<Rightarrow> 'b :: linorder) \<Rightarrow> 'a \<Rightarrow> 'a list \<Rightarrow> 'a" where
  "max_key key best [] = best"
| "max_key key best (x # xs) = max_key key (if key best < key x then x else best) xs"

text \<open>Lengths and precedences as one number: a precedence is below three.\<close>

definition specificity :: "pypath \<times> fs_access \<Rightarrow> nat" where
  "specificity e = 3 * path_length (fst e) + conflict_precedence (snd e)"

definition resolve_access_with_cwd :: "fs_env \<Rightarrow> fs_policy \<Rightarrow> pypath \<Rightarrow> pypath \<Rightarrow> fs_access" where
  "resolve_access_with_cwd env policy path cwd =
     (if fp_kind policy \<noteq> Restricted then FsWrite
      else let target = resolve_candidate_path env path cwd in
        case filter (\<lambda>e. path_is_relative_to target (fst e)) (resolved_entries env policy cwd) of
          [] \<Rightarrow> FsDeny
        | e # es \<Rightarrow> snd (max_key specificity e es))"

definition can_read_path_with_cwd :: "fs_env \<Rightarrow> fs_policy \<Rightarrow> pypath \<Rightarrow> pypath \<Rightarrow> bool" where
  "can_read_path_with_cwd env policy path cwd = can_read (resolve_access_with_cwd env policy path cwd)"

definition has_denied_read_restrictions :: "fs_policy \<Rightarrow> bool" where
  "has_denied_read_restrictions policy \<longleftrightarrow> fp_kind policy = Restricted
     \<and> list_ex (\<lambda>e. en_access e = FsDeny) (fp_entries policy)"

definition has_root_access :: "fs_policy \<Rightarrow> (fs_access \<Rightarrow> bool) \<Rightarrow> bool" where
  "has_root_access policy pred \<longleftrightarrow> fp_kind policy = Restricted
     \<and> list_ex (\<lambda>e. en_path e = FsSpecial SpRoot \<and> pred (en_access e)) (fp_entries policy)"

definition has_full_disk_read_access :: "fs_policy \<Rightarrow> bool" where
  "has_full_disk_read_access policy =
     (if fp_kind policy \<noteq> Restricted then True
      else has_root_access policy can_read \<and> \<not> has_denied_read_restrictions policy)"

fun special_path_matches_absolute_path :: "fs_special \<Rightarrow> pypath \<Rightarrow> bool" where
  "special_path_matches_absolute_path SpRoot path = (path = absolute_root_path_for_cwd path)"
| "special_path_matches_absolute_path SpSlashTmp path = (path = slash_tmp)"
| "special_path_matches_absolute_path _ path = False"

fun paths_share_target :: "fs_path \<Rightarrow> fs_path \<Rightarrow> bool" where
  "paths_share_target (FsPath p) (FsPath q) = (p = q)"
| "paths_share_target (FsSpecial v) (FsSpecial w) = (v = w)"
| "paths_share_target (FsPath p) (FsSpecial w) = special_path_matches_absolute_path w p"
| "paths_share_target (FsSpecial v) (FsPath q) = special_path_matches_absolute_path v q"
| "paths_share_target (FsGlob g) (FsGlob g') = (g = g')"
| "paths_share_target _ _ = False"

definition has_same_target_write_override :: "fs_policy \<Rightarrow> fs_entry \<Rightarrow> bool" where
  "has_same_target_write_override policy e \<longleftrightarrow>
     list_ex (\<lambda>c. can_write (en_access c)
       \<and> conflict_precedence (en_access c) > conflict_precedence (en_access e)
       \<and> paths_share_target (en_path c) (en_path e)) (fp_entries policy)"

definition narrows_write :: "fs_policy \<Rightarrow> fs_entry \<Rightarrow> bool" where
  "narrows_write policy e =
     (if can_write (en_access e) then False
      else case en_path e of
        FsGlob _ \<Rightarrow> True
      | FsSpecial SpRoot \<Rightarrow> en_access e = FsDeny
      | FsSpecial SpMinimal \<Rightarrow> False
      | FsSpecial (SpUnknown _ _) \<Rightarrow> False
      | _ \<Rightarrow> \<not> has_same_target_write_override policy e)"

definition has_write_narrowing_entries :: "fs_policy \<Rightarrow> bool" where
  "has_write_narrowing_entries policy \<longleftrightarrow> fp_kind policy = Restricted
     \<and> list_ex (narrows_write policy) (fp_entries policy)"

definition has_full_disk_write_access :: "fs_policy \<Rightarrow> bool" where
  "has_full_disk_write_access policy =
     (if fp_kind policy \<noteq> Restricted then True
      else has_root_access policy can_write \<and> \<not> has_write_narrowing_entries policy)"

definition include_platform_defaults :: "fs_policy \<Rightarrow> bool" where
  "include_platform_defaults policy \<longleftrightarrow> \<not> has_full_disk_read_access policy \<and> fp_kind policy = Restricted
     \<and> list_ex (\<lambda>e. en_path e = FsSpecial SpMinimal \<and> can_read (en_access e)) (fp_entries policy)"

section \<open>Protected metadata\<close>

text \<open>The first writable root that has the target in a metadata directory directly below it.\<close>

fun metadata_child :: "(pypath \<times> fs_access) list \<Rightarrow> pypath \<Rightarrow> (pypath \<times> pystr) option" where
  "metadata_child [] target = None"
| "metadata_child ((root, access) # es) target =
     (if \<not> can_write access then metadata_child es target
      else if \<not> path_is_relative_to target root then metadata_child es target
      else case drop (length (path_parts root)) (path_parts target) of
        [] \<Rightarrow> metadata_child es target
      | name # _ \<Rightarrow>
          if name \<in> set PROTECTED_METADATA_PATH_NAMES then Some (path_child root name, name)
          else metadata_child es target)"

definition metadata_child_of_writable_root ::
    "fs_env \<Rightarrow> fs_policy \<Rightarrow> pypath \<Rightarrow> pypath \<Rightarrow> (pypath \<times> pystr) option" where
  "metadata_child_of_writable_root env policy target cwd =
     metadata_child (resolved_entries env policy cwd) target"

definition has_explicit_write_entry_for_metadata_path ::
    "fs_env \<Rightarrow> fs_policy \<Rightarrow> pypath \<Rightarrow> pypath \<Rightarrow> pypath \<Rightarrow> bool" where
  "has_explicit_write_entry_for_metadata_path env policy protected target cwd \<longleftrightarrow>
     list_ex (\<lambda>(p, a). can_write a \<and> path_is_relative_to target p \<and> path_is_relative_to p protected)
       (resolved_entries env policy cwd)"

definition is_metadata_write_denied :: "fs_env \<Rightarrow> fs_policy \<Rightarrow> pypath \<Rightarrow> pypath \<Rightarrow> bool" where
  "is_metadata_write_denied env policy path cwd =
     (if fp_kind policy \<noteq> Restricted then False
      else let target = resolve_candidate_path env path cwd in
        case metadata_child_of_writable_root env policy target cwd of
          None \<Rightarrow> False
        | Some (protected, _) \<Rightarrow>
            \<not> has_explicit_write_entry_for_metadata_path env policy protected target cwd)"

definition can_write_path_with_cwd :: "fs_env \<Rightarrow> fs_policy \<Rightarrow> pypath \<Rightarrow> pypath \<Rightarrow> bool" where
  "can_write_path_with_cwd env policy path cwd =
     (if \<not> can_write (resolve_access_with_cwd env policy path cwd) then False
      else if has_full_disk_write_access policy then True
      else \<not> is_metadata_write_denied env policy path cwd)"

definition forbidden_agent_metadata_write :: "fs_env \<Rightarrow> pypath \<Rightarrow> pypath \<Rightarrow> fs_policy \<Rightarrow> pystr option" where
  "forbidden_agent_metadata_write env path cwd policy =
     (if fp_kind policy \<noteq> Restricted then None
      else let target = resolve_candidate_path env path cwd in
        case metadata_child_of_writable_root env policy target cwd of
          None \<Rightarrow> None
        | Some (protected, name) \<Rightarrow>
            if has_explicit_write_entry_for_metadata_path env policy protected target cwd then None
            else if \<not> can_write_path_with_cwd env policy target cwd then Some name
            else None)"

section \<open>Extending and merging policies\<close>

definition preserve_deny_read_restrictions_from :: "fs_policy \<Rightarrow> fs_policy \<Rightarrow> fs_policy" where
  "preserve_deny_read_restrictions_from self existing =
     (let denies = filter (\<lambda>e. en_access e = FsDeny) (fp_entries existing);
          policy = (if fp_kind self = Unrestricted \<and> denies \<noteq> []
                    then restricted [entry (FsSpecial SpRoot) FsWrite] else self)
      in if fp_kind policy \<noteq> Restricted then policy
         else policy\<lparr>fp_entries := fold (\<lambda>e es. if e \<notin> set es then es @ [e] else es) denies (fp_entries policy),
                     fp_glob_depth := (case fp_glob_depth policy of None \<Rightarrow> fp_glob_depth existing | d \<Rightarrow> d)\<rparr>)"

definition GLOB_PREFIX :: pystr where
  "GLOB_PREFIX = lit ''codex-project-roots://''"

definition parse_project_roots_glob_pattern :: "pystr \<Rightarrow> pypath option" where
  "parse_project_roots_glob_pattern pattern =
     (if starts_with pattern GLOB_PREFIX then Some (path_of (drop (length GLOB_PREFIX) pattern)) else None)"

definition resolve_project_roots_glob_pattern :: "fs_env \<Rightarrow> pypath \<Rightarrow> pypath \<Rightarrow> pystr" where
  "resolve_project_roots_glob_pattern env subpath root = path_str (resolve_against_base env subpath root)"

definition materialize_entry_with_cwd :: "fs_env \<Rightarrow> pypath option \<Rightarrow> fs_entry \<Rightarrow> fs_entry" where
  "materialize_entry_with_cwd env cwd_root e =
     (case en_path e of
        FsSpecial (SpProjectRoots s) \<Rightarrow>
          (case resolve_file_system_path env (en_path e) cwd_root of
             None \<Rightarrow> e | Some p \<Rightarrow> entry (FsPath p) (en_access e))
      | FsGlob g \<Rightarrow>
          (case (cwd_root, parse_project_roots_glob_pattern g) of
             (Some root, Some sub) \<Rightarrow>
               entry (FsGlob (resolve_project_roots_glob_pattern env sub root)) (en_access e)
           | _ \<Rightarrow> e)
      | _ \<Rightarrow> e)"

definition materialize_project_roots_with_cwd :: "fs_env \<Rightarrow> fs_policy \<Rightarrow> pypath \<Rightarrow> fs_policy" where
  "materialize_project_roots_with_cwd env policy cwd =
     policy\<lparr>fp_entries := map (materialize_entry_with_cwd env (if path_is_absolute cwd then Some cwd else None))
       (fp_entries policy)\<rparr>"

definition materialize_entry_with_roots :: "fs_env \<Rightarrow> pypath list \<Rightarrow> fs_entry \<Rightarrow> fs_entry list" where
  "materialize_entry_with_roots env roots e =
     (case en_path e of
        FsSpecial (SpProjectRoots s) \<Rightarrow>
          map (\<lambda>r. entry (FsPath (resolve_against_base env (case s of None \<Rightarrow> PyPath [] [] | Some p \<Rightarrow> p) r))
            (en_access e)) roots
      | FsGlob g \<Rightarrow>
          (case parse_project_roots_glob_pattern g of
             Some sub \<Rightarrow>
               map (\<lambda>r. entry (FsGlob (resolve_project_roots_glob_pattern env sub r)) (en_access e)) roots
           | None \<Rightarrow> [e])
      | _ \<Rightarrow> [e])"

definition materialize_project_roots_with_workspace_roots ::
    "fs_env \<Rightarrow> fs_policy \<Rightarrow> pypath list \<Rightarrow> fs_policy" where
  "materialize_project_roots_with_workspace_roots env policy roots =
     policy\<lparr>fp_entries := concat (map (materialize_entry_with_roots env roots) (fp_entries policy))\<rparr>"

definition with_materialized_project_roots_for_workspace_roots ::
    "fs_env \<Rightarrow> fs_policy \<Rightarrow> pypath list \<Rightarrow> fs_policy" where
  "with_materialized_project_roots_for_workspace_roots env policy roots =
     policy\<lparr>fp_entries := fold (\<lambda>e es. if e \<notin> set es then es @ [e] else es)
       (fp_entries (materialize_project_roots_with_workspace_roots env policy roots)) (fp_entries policy)\<rparr>"

definition with_additional_readable_roots :: "fs_env \<Rightarrow> fs_policy \<Rightarrow> pypath \<Rightarrow> pypath list \<Rightarrow> fs_policy" where
  "with_additional_readable_roots env policy cwd roots =
     (if has_full_disk_read_access policy then policy
      else policy\<lparr>fp_entries := fp_entries policy @
        map (\<lambda>p. entry (FsPath p) FsRead) (filter (\<lambda>p. \<not> can_read_path_with_cwd env policy p cwd) roots)\<rparr>)"

definition with_additional_writable_roots :: "fs_env \<Rightarrow> fs_policy \<Rightarrow> pypath \<Rightarrow> pypath list \<Rightarrow> fs_policy" where
  "with_additional_writable_roots env policy cwd roots =
     policy\<lparr>fp_entries := fp_entries policy @
       map (\<lambda>p. entry (FsPath p) FsWrite) (filter (\<lambda>p. \<not> can_write_path_with_cwd env policy p cwd) roots)\<rparr>"

definition dedup_paths :: "(pypath \<Rightarrow> pypath) \<Rightarrow> pypath list \<Rightarrow> pypath list" where
  "dedup_paths norm paths =
     fold (\<lambda>p ds. if path_str (norm p) \<in> path_str ` set ds then ds else ds @ [norm p]) paths []"

definition default_read_only_subpaths_for_writable_root :: "fs_env \<Rightarrow> pypath \<Rightarrow> bool \<Rightarrow> pypath list" where
  "default_read_only_subpaths_for_writable_root env root protect_missing_dot_codex =
     (let git = path_child root (lit ''.git''); agents = path_child root (lit ''.agents'');
          codex = path_child root (lit ''.codex'')
      in dedup_paths (\<lambda>p. p)
        ((if fe_is_dir env git \<or> fe_is_file env git then [git] else []) @
         (if fe_is_dir env agents then [agents] else []) @
         (if protect_missing_dot_codex \<or> fe_is_dir env codex then [codex] else [])))"

definition append_default_read_only_path_if_no_explicit_rule :: "pypath \<Rightarrow> fs_entry list \<Rightarrow> fs_entry list" where
  "append_default_read_only_path_if_no_explicit_rule path entries =
     (if list_ex (\<lambda>e. paths_share_target (en_path e) (FsPath path)) entries then entries
      else entries @ [entry (FsPath path) FsRead])"

definition with_additional_legacy_workspace_writable_roots ::
    "fs_env \<Rightarrow> fs_policy \<Rightarrow> pypath list \<Rightarrow> fs_policy" where
  "with_additional_legacy_workspace_writable_roots env policy roots =
     (if fp_kind policy \<noteq> Restricted then policy
      else policy\<lparr>fp_entries := fold (\<lambda>p entries.
        let entries = (if list_ex (\<lambda>e. can_write (en_access e) \<and> en_path e = FsPath p) entries then entries
                       else entries @ [entry (FsPath p) FsWrite])
        in fold append_default_read_only_path_if_no_explicit_rule
             (default_read_only_subpaths_for_writable_root env p False) entries)
        roots (fp_entries policy)\<rparr>)"

definition workspace_write :: "fs_env \<Rightarrow> pypath list \<Rightarrow> bool \<Rightarrow> bool \<Rightarrow> fs_policy" where
  "workspace_write env writable_roots exclude_tmpdir_env_var exclude_slash_tmp =
     restricted (fold append_default_read_only_path_if_no_explicit_rule
       (concat (map (\<lambda>r. default_read_only_subpaths_for_writable_root env r False) writable_roots))
       ([entry (FsSpecial SpRoot) FsRead, entry (FsSpecial (SpProjectRoots None)) FsWrite] @
        (if exclude_slash_tmp then [] else [entry (FsSpecial SpSlashTmp) FsWrite]) @
        (if exclude_tmpdir_env_var then [] else [entry (FsSpecial SpTmpdir) FsWrite]) @
        map (\<lambda>p. entry (FsPath p) FsWrite) writable_roots @
        map (\<lambda>n. entry (FsSpecial (SpProjectRoots (Some (path_of n)))) FsRead) PROTECTED_METADATA_PATH_NAMES))"

section \<open>Roots\<close>

definition get_readable_roots_with_cwd :: "fs_env \<Rightarrow> fs_policy \<Rightarrow> pypath \<Rightarrow> pypath list" where
  "get_readable_roots_with_cwd env policy cwd =
     (if has_full_disk_read_access policy then []
      else dedup_paths (fe_resolve env) (map fst (filter
        (\<lambda>(p, a). can_read a \<and> can_read_path_with_cwd env policy p cwd) (resolved_entries env policy cwd))))"

definition get_unreadable_roots_with_cwd :: "fs_env \<Rightarrow> fs_policy \<Rightarrow> pypath \<Rightarrow> pypath list" where
  "get_unreadable_roots_with_cwd env policy cwd =
     (if fp_kind policy \<noteq> Restricted then []
      else dedup_paths (fe_resolve env) (map fst (filter
        (\<lambda>(p, a). a = FsDeny \<and> \<not> can_read_path_with_cwd env policy p cwd
           \<and> p \<noteq> absolute_root_path_for_cwd cwd) (resolved_entries env policy cwd))))"

record writable_root =
  wr_root :: pypath
  wr_read_only_subpaths :: "pypath list"
  wr_protected_metadata_names :: "pystr list"

definition protected_metadata_names_for_writable_root ::
    "fs_env \<Rightarrow> fs_policy \<Rightarrow> pypath \<Rightarrow> pypath list \<Rightarrow> pypath \<Rightarrow> pystr list" where
  "protected_metadata_names_for_writable_root env policy root raw_writable_roots cwd =
     filter (\<lambda>name. list_all (\<lambda>r. \<not> can_write_path_with_cwd env policy (path_child r name) cwd)
       (root # raw_writable_roots)) PROTECTED_METADATA_PATH_NAMES"

definition writable_root_of ::
    "fs_env \<Rightarrow> fs_policy \<Rightarrow> pypath \<Rightarrow> pypath list \<Rightarrow> pypath \<Rightarrow> writable_root" where
  "writable_root_of env policy cwd writable_entries root =
     (let entries = resolved_entries env policy cwd;
          raw = filter (\<lambda>p. fe_resolve env p = root) writable_entries;
          protect_missing = fe_resolve env (resolve_base_cwd env cwd) = root;
          defaults = filter (\<lambda>p. \<not> list_ex (\<lambda>(q, _). q = p) entries)
            (default_read_only_subpaths_for_writable_root env root protect_missing);
          narrowed = filter (\<lambda>p. p \<noteq> root \<and> path_is_relative_to p root)
            (map (\<lambda>(p, _). fe_resolve env p) (filter
              (\<lambda>(p, a). \<not> (can_write a \<or> can_write_path_with_cwd env policy p cwd)) entries))
      in \<lparr>wr_root = root, wr_read_only_subpaths = dedup_paths (\<lambda>p. p) (defaults @ narrowed),
          wr_protected_metadata_names = protected_metadata_names_for_writable_root env policy root raw cwd\<rparr>)"

definition get_writable_roots_with_cwd :: "fs_env \<Rightarrow> fs_policy \<Rightarrow> pypath \<Rightarrow> writable_root list" where
  "get_writable_roots_with_cwd env policy cwd =
     (if has_full_disk_write_access policy then []
      else let writable_entries = map fst (filter
             (\<lambda>(p, a). can_write a \<and> can_write_path_with_cwd env policy p cwd) (resolved_entries env policy cwd))
        in map (writable_root_of env policy cwd writable_entries)
             (dedup_paths (fe_resolve env) writable_entries))"

section \<open>The most specific entry decides\<close>

lemma max_key_in: "max_key key b xs \<in> set (b # xs)"
  by (induction key b xs rule: max_key.induct) auto

lemma max_key_ge: "x \<in> set (b # xs) \<Longrightarrow> key x \<le> key (max_key key b xs)"
proof (induction key b xs arbitrary: x rule: max_key.induct)
  case (2 key best y ys)
  let ?w = "if key best < key y then y else best"
  have "key x \<le> key ?w \<or> x \<in> set ys" using "2.prems" by auto
  moreover have "key ?w \<le> key (max_key key ?w ys)" "x \<in> set ys \<Longrightarrow> key x \<le> key (max_key key ?w ys)"
    using "2.IH" by simp_all
  ultimately show ?case by (auto simp del: if_split)
qed simp

lemma conflict_precedence_inj: "conflict_precedence a = conflict_precedence b \<longleftrightarrow> a = b"
  by (cases a; cases b) simp_all

lemma conflict_precedence_bound: "conflict_precedence a \<le> 2"
  by (cases a) simp_all

lemma specificity_le:
  "specificity (q, b) \<le> specificity (p, a) \<longleftrightarrow>
     path_length q < path_length p \<or> path_length q = path_length p \<and> conflict_precedence b \<le> conflict_precedence a"
  using conflict_precedence_bound [of a] conflict_precedence_bound [of b] by (auto simp: specificity_def)

text \<open>The entries that apply to a target, and one of them that no other outranks.\<close>

definition applies :: "fs_env \<Rightarrow> fs_policy \<Rightarrow> pypath \<Rightarrow> pypath \<Rightarrow> pypath \<times> fs_access \<Rightarrow> bool" where
  "applies env policy cwd target e \<longleftrightarrow>
     e \<in> set (resolved_entries env policy cwd) \<and> path_is_relative_to target (fst e)"

definition decides :: "fs_env \<Rightarrow> fs_policy \<Rightarrow> pypath \<Rightarrow> pypath \<Rightarrow> pypath \<times> fs_access \<Rightarrow> bool" where
  "decides env policy cwd target e \<longleftrightarrow> applies env policy cwd target e
     \<and> (\<forall>e'. applies env policy cwd target e' \<longrightarrow> specificity e' \<le> specificity e)"

lemma decides_access:
  assumes "fp_kind policy = Restricted" "decides env policy cwd (resolve_candidate_path env path cwd) e"
  shows "resolve_access_with_cwd env policy path cwd = snd e"
proof -
  let ?t = "resolve_candidate_path env path cwd"
  let ?m = "filter (\<lambda>e. path_is_relative_to ?t (fst e)) (resolved_entries env policy cwd)"
  have set_m: "set ?m = {e. applies env policy cwd ?t e}" by (auto simp: applies_def)
  have "e \<in> set ?m" using assms(2) unfolding set_m decides_def by blast
  then obtain b bs where m: "?m = b # bs" by (cases ?m) auto
  let ?x = "max_key specificity b bs"
  have "?x \<in> set ?m" using max_key_in [of specificity b bs] unfolding m .
  then have "applies env policy cwd ?t ?x" unfolding set_m by simp
  then have "specificity ?x \<le> specificity e" using assms(2) unfolding decides_def by blast
  moreover have "specificity e \<le> specificity ?x"
    using max_key_ge [of e b bs specificity] \<open>e \<in> set ?m\<close> m by simp
  ultimately have "specificity (fst ?x, snd ?x) = specificity (fst e, snd e)" by simp
  then have "snd ?x = snd e"
    using specificity_le [of "fst ?x" "snd ?x" "fst e" "snd e"] specificity_le [of "fst e" "snd e" "fst ?x" "snd ?x"]
    by (auto simp: conflict_precedence_inj [symmetric])
  then show ?thesis using assms(1) m by (simp add: resolve_access_with_cwd_def Let_def)
qed

lemma access_cases:
  assumes "fp_kind policy = Restricted"
  obtains (none) "\<And>e. \<not> applies env policy cwd (resolve_candidate_path env path cwd) e"
      "resolve_access_with_cwd env policy path cwd = FsDeny"
    | (some) p where "decides env policy cwd (resolve_candidate_path env path cwd)
        (p, resolve_access_with_cwd env policy path cwd)"
proof -
  let ?t = "resolve_candidate_path env path cwd"
  let ?m = "filter (\<lambda>e. path_is_relative_to ?t (fst e)) (resolved_entries env policy cwd)"
  have set_m: "set ?m = {e. applies env policy cwd ?t e}" by (auto simp: applies_def)
  show thesis
  proof (cases ?m)
    case Nil
    then have "{e. applies env policy cwd ?t e} = {}" unfolding set_m [symmetric] by simp
    then have "\<not> applies env policy cwd ?t e" for e by blast
    moreover have "resolve_access_with_cwd env policy path cwd = FsDeny"
      using assms Nil by (simp add: resolve_access_with_cwd_def Let_def)
    ultimately show thesis by (rule none)
  next
    case (Cons b bs)
    let ?x = "max_key specificity b bs"
    have "e \<in> set (b # bs) \<longleftrightarrow> applies env policy cwd ?t e" for e
      unfolding Cons [symmetric] set_m by simp
    then have "decides env policy cwd ?t ?x"
      using max_key_in [of specificity b bs] max_key_ge [of _ b bs specificity]
      unfolding decides_def by blast
    moreover from decides_access [OF assms this]
    have "?x = (fst ?x, resolve_access_with_cwd env policy path cwd)" by simp
    ultimately show thesis using some by metis
  qed
qed


section \<open>Full access to the disk\<close>

lemma resolved_iff:
  "(p, a) \<in> set (resolved_entries env policy cwd) \<longleftrightarrow>
     (\<exists>e \<in> set (fp_entries policy). resolve_entry_path env (en_path e) cwd = Some p \<and> en_access e = a)"
  by (auto simp: resolved_entries_def split: option.splits) (metis list.set_intros(1) option.simps(5))

lemma relative_root: "path_is_relative_to target p \<Longrightarrow> path_root p = path_root target"
  by (simp add: path_is_relative_to_def)

text \<open>Entries that share a target stand for the same path.\<close>

lemma shared_target_resolves:
  assumes "paths_share_target c e" "resolve_entry_path env e cwd = Some p"
    and "path_root p = path_root cwd" "path_root cwd \<noteq> []" "fe_is_dir env slash_tmp" "e \<noteq> FsSpecial SpRoot"
  shows "resolve_entry_path env c cwd = Some p"
proof (cases "c = e")
  case False
  then consider (special) q w where "c = FsPath q" "e = FsSpecial w" | (path) v q where "c = FsSpecial v" "e = FsPath q"
    using assms(1) by (cases c; cases e) auto
  then show ?thesis
  proof cases
    case special
    with assms show ?thesis
      by (cases w) (auto simp: resolve_entry_path_def absolute_root_path_for_cwd_def split: if_splits)
  next
    case path
    with assms show ?thesis
      by (cases v) (auto simp: resolve_entry_path_def absolute_root_path_for_cwd_def split: if_splits)
  qed
qed (use assms in simp)

lemma full_disk_write_lemma:
  assumes "has_full_disk_write_access policy" "path_root cwd = lit ''/''" "fe_is_dir env slash_tmp"
    and "path_root (resolve_candidate_path env path cwd) = lit ''/''"
  shows "resolve_access_with_cwd env policy path cwd = FsWrite"
proof (cases "fp_kind policy = Restricted")
  case True
  let ?t = "resolve_candidate_path env path cwd" and ?root = "PyPath (lit ''/'') []"
  have root: "(?root, FsWrite) \<in> set (resolved_entries env policy cwd)"
    using assms(1,2) True
    by (auto simp: has_full_disk_write_access_def has_root_access_def resolved_iff list_ex_iff
        resolve_entry_path_def absolute_root_path_for_cwd_def intro!: bexI)
  then have app_root: "applies env policy cwd ?t (?root, FsWrite)"
    using assms(4) by (simp add: applies_def path_is_relative_to_def)
  from True show ?thesis
  proof (cases rule: access_cases [where env = env and cwd = cwd and path = path])
    case none
    with app_root show ?thesis by blast
  next
    case (some p)
    define a where "a = resolve_access_with_cwd env policy path cwd"
    have app: "applies env policy cwd ?t (p, a)" and best: "\<And>e'. applies env policy cwd ?t e' \<Longrightarrow> specificity e' \<le> specificity (p, a)"
      using some unfolding decides_def a_def by blast+
    have pr: "path_root p = path_root cwd" using app assms(2,4) relative_root by (auto simp: applies_def simp del: lit.simps)
    obtain e where e: "e \<in> set (fp_entries policy)" "resolve_entry_path env (en_path e) cwd = Some p" "en_access e = a"
      using app by (auto simp: applies_def resolved_iff)
    have no_narrow: "\<not> narrows_write policy e"
      using assms(1) True e(1) by (auto simp: has_full_disk_write_access_def has_write_narrowing_entries_def list_ex_iff)
    show ?thesis
    proof (rule ccontr)
      assume "resolve_access_with_cwd env policy path cwd \<noteq> FsWrite"
      then have aw: "a \<noteq> FsWrite" by (simp add: a_def)
      have write_at_p: "conflict_precedence FsWrite \<le> conflict_precedence a"
        if "applies env policy cwd ?t (p, FsWrite)"
        using best [OF that] by (simp add: specificity_le)
      show False
      proof (cases "en_path e = FsSpecial SpRoot")
        case True
        then have "p = ?root" "a = FsRead"
          using aw e no_narrow assms(2)
          by (auto simp: narrows_write_def resolve_entry_path_def absolute_root_path_for_cwd_def) (cases a; simp)
        with write_at_p app_root show False by simp
      next
        case False
        then have "has_same_target_write_override policy e"
          using no_narrow aw e
          by (auto simp: narrows_write_def resolve_entry_path_def split: fs_path.splits fs_special.splits)
        then obtain c where c: "c \<in> set (fp_entries policy)" "en_access c = FsWrite"
          "conflict_precedence (en_access c) > conflict_precedence a" "paths_share_target (en_path c) (en_path e)"
          using e(3) by (auto simp: has_same_target_write_override_def list_ex_iff)
        have "resolve_entry_path env (en_path c) cwd = Some p"
          by (rule shared_target_resolves [OF c(4) e(2) pr _ assms(3) False]) (simp add: assms(2))
        then have "applies env policy cwd ?t (p, FsWrite)"
          using c(1,2) app by (auto simp: applies_def resolved_iff)
        with write_at_p c(2,3) show False by simp
      qed
    qed
  qed
qed (simp add: resolve_access_with_cwd_def)

text \<open>
  Full write access to the disk is what it says: whatever read-only, denying or symbolic entries a
  policy has beside its writable root, if the code finds that none narrows it, then every absolute path
  and every path relative to the working directory resolves to write access and may be written.
\<close>

theorem full_disk_write_is_full:
  assumes "has_full_disk_write_access policy" "path_root cwd = lit ''/''" "fe_is_dir env slash_tmp"
    and "path_root path = [] \<or> path_root path = lit ''/''"
  shows "resolve_access_with_cwd env policy path cwd = FsWrite \<and> can_write_path_with_cwd env policy path cwd"
proof -
  have "path_root (resolve_candidate_path env path cwd) = lit ''/''"
    using assms(2,4) by (auto simp: resolve_candidate_path_def resolve_base_cwd_def path_is_absolute_def path_join_def)
  then have "resolve_access_with_cwd env policy path cwd = FsWrite"
    by (rule full_disk_write_lemma [OF assms(1-3)])
  with assms(1) show ?thesis by (simp add: can_write_path_with_cwd_def)
qed

section \<open>Denials are kept\<close>

lemma fold_add_set:
  "set (fold (\<lambda>e es. if e \<notin> set es then es @ [e] else es) ds es) = set es \<union> set ds"
  by (induction ds arbitrary: es) auto

lemma preserve_entries:
  assumes "fp_kind self = Restricted"
  shows "fp_kind (preserve_deny_read_restrictions_from self existing) = Restricted"
    "set (fp_entries (preserve_deny_read_restrictions_from self existing)) =
       set (fp_entries self) \<union> {e \<in> set (fp_entries existing). en_access e = FsDeny}"
  using assms by (auto simp: preserve_deny_read_restrictions_from_def Let_def fold_add_set)

lemma applies_mono:
  "set (fp_entries policy) \<subseteq> set (fp_entries policy') \<Longrightarrow> applies env policy cwd t e \<Longrightarrow> applies env policy' cwd t e"
  by (cases e) (auto simp: applies_def resolved_iff)

lemma preserve_applies:
  assumes "fp_kind self = Restricted"
  shows "applies env (preserve_deny_read_restrictions_from self existing) cwd t (p, a) \<longleftrightarrow>
    applies env self cwd t (p, a) \<or> a = FsDeny \<and> applies env existing cwd t (p, FsDeny)"
  by (auto simp: applies_def resolved_iff preserve_entries(2) [OF assms])

text \<open>
  Taking over the denials of another policy only denies: no path gets an access it did not have, and
  a path the other policy has an entry to deny for is denied, whatever the policy itself grants for it.
\<close>

theorem preserving_denials_only_denies:
  assumes "fp_kind self = Restricted"
  shows "(resolve_access_with_cwd env (preserve_deny_read_restrictions_from self existing) path cwd
        = resolve_access_with_cwd env self path cwd
      \<or> resolve_access_with_cwd env (preserve_deny_read_restrictions_from self existing) path cwd = FsDeny)
    \<and> ((resolve_candidate_path env path cwd, FsDeny) \<in> set (resolved_entries env existing cwd) \<longrightarrow>
        resolve_access_with_cwd env (preserve_deny_read_restrictions_from self existing) path cwd = FsDeny)"
proof -
  let ?new = "preserve_deny_read_restrictions_from self existing" and ?t = "resolve_candidate_path env path cwd"
  define a where "a = resolve_access_with_cwd env ?new path cwd"
  note new = preserve_entries(1) [OF assms, of existing]
  have same: "a = resolve_access_with_cwd env self path cwd \<or> a = FsDeny"
    using new
  proof (cases rule: access_cases [where env = env and cwd = cwd and path = path])
    case (some p)
    then have app: "applies env ?new cwd ?t (p, a)"
      and best: "\<And>e'. applies env ?new cwd ?t e' \<Longrightarrow> specificity e' \<le> specificity (p, a)"
      unfolding decides_def a_def by blast+
    show ?thesis
    proof (cases "applies env self cwd ?t (p, a)")
      case True
      have "decides env self cwd ?t (p, a)"
        using True best preserve_applies [OF assms] unfolding decides_def by force
      then show ?thesis using decides_access [OF assms] by force
    next
      case False
      with app show ?thesis by (simp add: preserve_applies [OF assms])
    qed
  qed (simp add: a_def)
  have "a = FsDeny" if "(?t, FsDeny) \<in> set (resolved_entries env existing cwd)"
  proof -
    have "path_length q \<le> path_length ?t" if "path_is_relative_to ?t q" for q
      using that by (auto simp: path_is_relative_to_def path_length_def dest: starts_with_length)
    then have "specificity (q, b) \<le> specificity (?t, FsDeny)" if "path_is_relative_to ?t q" for q b
      using that conflict_precedence_bound [of b] le_neq_implies_less by (auto simp only: specificity_le conflict_precedence.simps)
    moreover have "applies env ?new cwd ?t (?t, FsDeny)"
      using \<open>(?t, FsDeny) \<in> _\<close> by (simp add: preserve_applies [OF assms]) (simp add: applies_def)
    ultimately have "decides env ?new cwd ?t (?t, FsDeny)"
      by (auto simp: decides_def applies_def)
    then show ?thesis using decides_access [OF new] by (force simp: a_def)
  qed
  with same show ?thesis unfolding a_def by blast
qed

section \<open>Metadata stays protected\<close>

lemma metadata_child_step:
  "metadata_child ((r, access) # es) target = metadata_child es target
     \<or> access = FsWrite \<and> (\<exists>n \<in> set PROTECTED_METADATA_PATH_NAMES.
         metadata_child ((r, access) # es) target = Some (path_child r n, n))"
  by (auto split: list.splits)

lemma metadata_child_finds:
  assumes "(root, FsWrite) \<in> set es" "path_root target = path_root root"
    "path_parts target = path_parts root @ name # rest" "name \<in> set PROTECTED_METADATA_PATH_NAMES"
  shows "\<exists>r n. metadata_child es target = Some (path_child r n, n) \<and> (r, FsWrite) \<in> set es
    \<and> n \<in> set PROTECTED_METADATA_PATH_NAMES"
  using assms(1)
proof (induction es)
  case (Cons e es)
  obtain r access where e: "e = (r, access)" by (cases e)
  show ?case
  proof (cases "(root, FsWrite) \<in> set es")
    case True
    with Cons.IH metadata_child_step [of r access es target] show ?thesis by (auto simp: e simp del: metadata_child.simps)
  next
    case False
    with Cons.prems have "e = (root, FsWrite)" by simp
    then show ?thesis using assms(2-4) by (auto simp: path_is_relative_to_def)
  qed
qed simp

text \<open>
  Under a restricted policy that does not give the whole disk, nothing directly or deeper below
  \<open>.git\<close>, \<open>.agents\<close> or \<open>.codex\<close> of a writable root may be written, unless an entry that grants writing
  lies itself within such a metadata directory of a writable root and covers the path.
\<close>

theorem metadata_needs_an_explicit_entry:
  assumes "fp_kind policy = Restricted" "\<not> has_full_disk_write_access policy"
    and "can_write_path_with_cwd env policy path cwd"
    and "(root, FsWrite) \<in> set (resolved_entries env policy cwd)"
    and "path_root (resolve_candidate_path env path cwd) = path_root root"
    and "path_parts (resolve_candidate_path env path cwd) = path_parts root @ name # rest"
    and "name \<in> set PROTECTED_METADATA_PATH_NAMES"
  shows "\<exists>p r n. (p, FsWrite) \<in> set (resolved_entries env policy cwd)
    \<and> path_is_relative_to (resolve_candidate_path env path cwd) p
    \<and> (r, FsWrite) \<in> set (resolved_entries env policy cwd) \<and> n \<in> set PROTECTED_METADATA_PATH_NAMES
    \<and> path_is_relative_to p (path_child r n)"
proof -
  from metadata_child_finds [OF assms(4-7)] obtain r n where
    rn: "metadata_child_of_writable_root env policy (resolve_candidate_path env path cwd) cwd = Some (path_child r n, n)"
    "(r, FsWrite) \<in> set (resolved_entries env policy cwd)" "n \<in> set PROTECTED_METADATA_PATH_NAMES"
    by (auto simp: metadata_child_of_writable_root_def)
  have "\<not> is_metadata_write_denied env policy path cwd"
    using assms(2,3) by (auto simp: can_write_path_with_cwd_def split: if_splits)
  with rn(1) assms(1) have "has_explicit_write_entry_for_metadata_path env policy (path_child r n)
      (resolve_candidate_path env path cwd) cwd"
    by (simp add: is_metadata_write_denied_def Let_def)
  with rn(2,3) show ?thesis by (fastforce simp: has_explicit_write_entry_for_metadata_path_def list_ex_iff)
qed

section \<open>A policy for a workspace\<close>

definition sample_fs :: fs_env where
  "sample_fs = \<lparr>fe_cwd = path_of (lit ''/w''), fe_tmpdir = None, fe_is_dir = (\<lambda>_. True),
     fe_is_file = (\<lambda>_. False), fe_resolve = (\<lambda>p. p)\<rparr>"

definition sample_work :: pypath where
  "sample_work = path_of (lit ''/w'')"

definition sample_policy :: fs_policy where
  "sample_policy = restricted [entry (FsSpecial SpRoot) FsRead, entry (FsPath (path_of (lit ''/w''))) FsWrite,
     entry (FsPath (path_of (lit ''/w/.git/hooks''))) FsWrite]"


lemma full_disk_write_is_full_witness:
  "can_write_path_with_cwd sample_fs
     (restricted [entry (FsSpecial SpRoot) FsWrite, entry (FsPath slash_tmp) FsRead, entry (FsSpecial SpSlashTmp) FsWrite])
     (path_of (lit ''/tmp/x'')) sample_work"
proof -
  have "has_full_disk_write_access (restricted [entry (FsSpecial SpRoot) FsWrite,
      entry (FsPath slash_tmp) FsRead, entry (FsSpecial SpSlashTmp) FsWrite])"
    "path_root sample_work = lit ''/''" "path_root (path_of (lit ''/tmp/x'')) = lit ''/''"
    by code_simp+
  moreover have "fe_is_dir sample_fs slash_tmp" by (simp add: sample_fs_def)
  ultimately show ?thesis using full_disk_write_is_full by blast
qed

lemma preserving_denials_only_denies_witness:
  "resolve_access_with_cwd sample_fs (preserve_deny_read_restrictions_from sample_policy
     (restricted [entry (FsPath (path_of (lit ''/w/key''))) FsDeny])) (path_of (lit ''key'')) sample_work = FsDeny"
proof -
  have "(resolve_candidate_path sample_fs (path_of (lit ''key'')) sample_work, FsDeny) \<in>
      set (resolved_entries sample_fs (restricted [entry (FsPath (path_of (lit ''/w/key''))) FsDeny]) sample_work)"
    by code_simp
  moreover have "fp_kind sample_policy = Restricted" by (simp add: sample_policy_def restricted_def)
  ultimately show ?thesis using preserving_denials_only_denies by blast
qed

lemma metadata_needs_an_explicit_entry_witness:
  "\<exists>p. (p, FsWrite) \<in> set (resolved_entries sample_fs sample_policy sample_work)
    \<and> path_is_relative_to (path_of (lit ''/w/.git/hooks/x'')) p
    \<and> path_is_relative_to p (path_of (lit ''/w/.git''))"
proof -
  let ?path = "path_of (lit ''/w/.git/hooks/x'')"
  have c: "fp_kind sample_policy = Restricted" "\<not> has_full_disk_write_access sample_policy"
    "can_write_path_with_cwd sample_fs sample_policy ?path sample_work"
    "(path_of (lit ''/w''), FsWrite) \<in> set (resolved_entries sample_fs sample_policy sample_work)"
    "resolve_candidate_path sample_fs ?path sample_work = ?path"
    "path_root ?path = path_root (path_of (lit ''/w''))"
    "path_parts ?path = path_parts (path_of (lit ''/w'')) @ lit ''.git'' # [lit ''hooks'', lit ''x'']"
    "lit ''.git'' \<in> set PROTECTED_METADATA_PATH_NAMES"
    by code_simp+
  note ex = metadata_needs_an_explicit_entry [OF c(1-4), unfolded c(5), OF c(6-8)]
  have r: "resolved_entries sample_fs sample_policy sample_work =
      [(path_of (lit ''/''), FsRead), (path_of (lit ''/w''), FsWrite), (path_of (lit ''/w/.git/hooks''), FsWrite)]"
    by code_simp
  have "\<not> path_is_relative_to (path_of (lit ''/w'')) (path_child q n)"
    if "n \<in> set PROTECTED_METADATA_PATH_NAMES" "q = path_of (lit ''/w'') \<or> q = path_of (lit ''/w/.git/hooks'')" for q n
    using that by (auto simp: path_of_def path_split_root_def path_is_relative_to_def path_child_def)
  with ex r have "\<exists>p r n. p = path_of (lit ''/w/.git/hooks'')" by blast
  have "path_is_relative_to (path_of (lit ''/w/.git/hooks'')) (path_of (lit ''/w/.git''))"
    "path_is_relative_to ?path (path_of (lit ''/w/.git/hooks''))" by code_simp+
  with ex r show ?thesis by (auto simp del: lit.simps)
qed

text \<open>A parent component hides a metadata directory from the check: the target is not normalised.\<close>

lemma parent_component_hides_metadata:
  "\<not> can_write_path_with_cwd sample_fs sample_policy (path_of (lit ''/w/.git/config'')) sample_work
    \<and> can_write_path_with_cwd sample_fs sample_policy (path_of (lit ''/w/src/../.git/config'')) sample_work
    \<and> can_write_path_with_cwd sample_fs sample_policy (path_of (lit ''/w/../etc/passwd'')) sample_work"
  by code_simp

end
