(* ===== verification/PatchSafety.thy ===== *)
theory PatchSafety
  imports FsPolicy PatchVerify
begin

text \<open>
  May a patch be applied without asking, \<open>pycodex/core/safety.py\<close>: the approval policies of the user
  (\<open>AskForApproval\<close>, \<open>GranularApprovalConfig\<close>), the sandbox of the platform
  (\<open>core/sandbox_tags.py\<close>) and the assessment of a verified patch against a file-system policy.
\<close>

section \<open>Approval policies and sandboxes\<close>

record granular_config =
  gc_sandbox_approval :: bool
  gc_rules :: bool
  gc_mcp_elicitations :: bool
  gc_skill_approval :: bool
  gc_request_permissions :: bool

datatype approval_policy = UnlessTrusted | OnFailure | OnRequest | Never | Granular granular_config

text \<open>\<open>PermissionProfile.type\<close>, the only part of a profile these decisions read.\<close>

datatype profile_type = ManagedProfile | DisabledProfile | ExternalProfile

datatype sandbox_type = SandboxNone | MacosSeatbelt | LinuxSeccomp | WindowsRestrictedToken

text \<open>\<open>sys.platform\<close>\<close>

datatype platform = Darwin | Linux | Win32 | OtherPlatform

definition get_platform_sandbox :: "platform \<Rightarrow> bool \<Rightarrow> sandbox_type option" where
  "get_platform_sandbox platform windows_sandbox_enabled =
     (case platform of
        Darwin \<Rightarrow> Some MacosSeatbelt
      | Linux \<Rightarrow> Some LinuxSeccomp
      | Win32 \<Rightarrow> if windows_sandbox_enabled then Some WindowsRestrictedToken else None
      | OtherPlatform \<Rightarrow> None)"

datatype safety_check = AutoApprove sandbox_type | AskUser | Reject pystr

section \<open>Paths a patch writes\<close>

fun normalize_parts :: "pystr list \<Rightarrow> pystr list \<Rightarrow> pystr list" where
  "normalize_parts parts [] = parts"
| "normalize_parts parts (part # rest) =
     (if part = [] \<or> part = lit ''.'' then normalize_parts parts rest
      else if part = lit ''..'' then normalize_parts (butlast parts) rest
      else normalize_parts (parts @ [part]) rest)"

definition normalize_path :: "pypath \<Rightarrow> pypath" where
  "normalize_path p = PyPath (path_root p) (normalize_parts [] (path_parts p))"

definition is_path_writable :: "fs_env \<Rightarrow> fs_policy \<Rightarrow> pypath \<Rightarrow> pypath \<Rightarrow> bool" where
  "is_path_writable env policy cwd path =
     can_write_path_with_cwd env policy (normalize_path (path_join cwd path)) cwd"

fun change_writable :: "fs_env \<Rightarrow> fs_policy \<Rightarrow> pypath \<Rightarrow> pypath \<times> file_change \<Rightarrow> bool" where
  "change_writable env policy cwd (path, ChangeUpdate _ mv _ _ _) =
     (is_path_writable env policy cwd path
      \<and> (case mv of None \<Rightarrow> True | Some m \<Rightarrow> is_path_writable env policy cwd m))"
| "change_writable env policy cwd (path, _) = is_path_writable env policy cwd path"

definition is_write_patch_constrained_to_writable_paths ::
    "fs_env \<Rightarrow> apply_patch_action \<Rightarrow> fs_policy \<Rightarrow> pypath \<Rightarrow> bool" where
  "is_write_patch_constrained_to_writable_paths env action policy cwd =
     list_all (change_writable env policy cwd) (action_changes action)"

section \<open>The assessment\<close>

definition PATCH_REJECTED_OUTSIDE_PROJECT_REASON :: pystr where
  "PATCH_REJECTED_OUTSIDE_PROJECT_REASON = lit ''writing outside of the project; rejected by user approval settings''"

definition PATCH_REJECTED_READ_ONLY_REASON :: pystr where
  "PATCH_REJECTED_READ_ONLY_REASON = lit ''writing is blocked by read-only sandbox; rejected by user approval settings''"

definition patch_rejection_reason :: "fs_env \<Rightarrow> profile_type \<Rightarrow> fs_policy \<Rightarrow> pypath \<Rightarrow> pystr" where
  "patch_rejection_reason env profile policy cwd =
     (if profile = ManagedProfile \<and> \<not> has_full_disk_write_access policy
         \<and> get_writable_roots_with_cwd env policy cwd = []
      then PATCH_REJECTED_READ_ONLY_REASON else PATCH_REJECTED_OUTSIDE_PROJECT_REASON)"

definition rejects_sandbox_approval :: "approval_policy \<Rightarrow> bool" where
  "rejects_sandbox_approval policy =
     (case policy of Never \<Rightarrow> True | Granular g \<Rightarrow> \<not> gc_sandbox_approval g | _ \<Rightarrow> False)"

definition assess_patch_safety ::
    "fs_env \<Rightarrow> platform \<Rightarrow> apply_patch_action \<Rightarrow> approval_policy \<Rightarrow> profile_type \<Rightarrow> fs_policy
      \<Rightarrow> pypath \<Rightarrow> bool \<Rightarrow> safety_check" where
  "assess_patch_safety env platform action policy profile fs cwd windows_sandbox_enabled =
     (if action_changes action = [] then Reject (lit ''empty patch'')
      else if policy = UnlessTrusted then AskUser
      else if is_write_patch_constrained_to_writable_paths env action fs cwd \<or> policy = OnFailure then
        (if profile \<in> {DisabledProfile, ExternalProfile} then AutoApprove SandboxNone
         else case get_platform_sandbox platform windows_sandbox_enabled of
           Some sandbox \<Rightarrow> AutoApprove sandbox
         | None \<Rightarrow> if rejects_sandbox_approval policy then Reject (patch_rejection_reason env profile fs cwd)
                   else AskUser)
      else if rejects_sandbox_approval policy then Reject (patch_rejection_reason env profile fs cwd)
      else AskUser)"

section \<open>Properties\<close>

lemma change_writable_iff:
  "change_writable env policy cwd (path, change) \<longleftrightarrow>
     is_path_writable env policy cwd path
     \<and> (\<forall>m. change_move_path change = Some m \<longrightarrow> is_path_writable env policy cwd m)"
  by (cases change) (auto split: option.splits)


definition sample_patch_action :: apply_patch_action where
  "sample_patch_action = \<lparr>action_changes = [(path_of (lit ''a''), ChangeUpdate [] (Some (path_of (lit ''src/../b''))) None None None)],
     action_cwd = sample_work, action_patch = []\<rparr>"


end
