(* ===== verification/ShellBash.thy ===== *)
theory ShellBash
  imports PyShlex
begin

text \<open>
  Reading shell command lines, \<open>pycodex/shell_command/shell_detect.py\<close> and \<open>bash.py\<close>: which shell a
  program name stands for, and the word-only commands of a script given to \<open>bash -lc\<close>. The specification
  is a printer of command lines: words plain or in single quotes, joined by connectors.
\<close>

section \<open>Shell detection\<close>

datatype shell_type = ZshShell | BashShell | PowerShellShell | ShShell | CmdShell

definition rstrip_chars :: "int set \<Rightarrow> pystr \<Rightarrow> pystr" where
  "rstrip_chars cs s = rev (dropWhile (\<lambda>c. c \<in> cs) (rev s))"

definition after_last :: "int \<Rightarrow> pystr \<Rightarrow> pystr" where
  "after_last c s = rev (takeWhile (\<lambda>x. x \<noteq> c) (rev s))"

definition before_last :: "int \<Rightarrow> pystr \<Rightarrow> pystr" where
  "before_last c s = rev (drop 1 (dropWhile (\<lambda>x. x \<noteq> c) (rev s)))"

definition file_stem :: "pystr \<Rightarrow> pystr" where
  "file_stem s =
     (let normalized = rstrip_chars {47} (map (\<lambda>c. if c = 92 then 47 else c) s);
          base = after_last 47 normalized
      in if 46 \<notin> set base then base else before_last 46 base)"

lemma length_rstrip_chars: "length (rstrip_chars cs s) \<le> length s"
  using length_dropWhile_le [of "\<lambda>c. c \<in> cs" "rev s"] by (simp add: rstrip_chars_def)

lemma length_after_last: "length (after_last c s) \<le> length s"
  using length_takeWhile_le [of "\<lambda>x. x \<noteq> c" "rev s"] by (simp add: after_last_def)

lemma after_last_absent: "c \<notin> set (after_last c s)"
  by (auto simp: after_last_def dest: set_takeWhileD)

lemma length_before_last: "c \<in> set s \<Longrightarrow> length (before_last c s) < length s"
proof -
  assume "c \<in> set s"
  then have "dropWhile (\<lambda>x. x \<noteq> c) (rev s) \<noteq> []" by (simp add: dropWhile_eq_Nil_conv)
  then have "length (drop 1 (dropWhile (\<lambda>x. x \<noteq> c) (rev s))) < length (dropWhile (\<lambda>x. x \<noteq> c) (rev s))"
    by (cases "dropWhile (\<lambda>x. x \<noteq> c) (rev s)") auto
  then show ?thesis
    using length_dropWhile_le [of "\<lambda>x. x \<noteq> c" "rev s"] by (simp add: before_last_def)
qed

lemma dropWhile_same_length: "length (dropWhile p xs) = length xs \<Longrightarrow> dropWhile p xs = xs"
  using length_dropWhile_le [of p "tl xs"] by (cases xs) (auto split: if_splits)

lemma rstrip_chars_id: "length (rstrip_chars cs s) = length s \<Longrightarrow> rstrip_chars cs s = s"
  using dropWhile_same_length [of "\<lambda>c. c \<in> cs" "rev s"] by (simp add: rstrip_chars_def)

lemma after_last_id: "length (after_last c s) = length s \<Longrightarrow> after_last c s = s"
  unfolding after_last_def by (metis length_rev rev_rev_ident take_all_iff takeWhile_eq_take order_refl)

text \<open>A file stem other than the name itself is shorter, so the detection ends.\<close>

lemma file_stem_shorter: "file_stem s \<noteq> s \<Longrightarrow> length (file_stem s) < length s"
proof -
  let ?m = "map (\<lambda>c. if c = 92 then 47 else c) s"
  let ?n = "rstrip_chars {47} ?m" and ?b = "after_last 47 (rstrip_chars {47} ?m)"
  assume ne: "file_stem s \<noteq> s"
  have le: "length ?n \<le> length s" "length ?b \<le> length ?n"
    using length_rstrip_chars [of "{47}" ?m] length_after_last by simp_all
  show ?thesis
  proof (cases "46 \<in> set ?b")
    case True
    then show ?thesis
      using length_before_last [OF True] le by (simp add: file_stem_def Let_def)
  next
    case False
    have "length ?b \<noteq> length s"
    proof
      assume len: "length ?b = length s"
      then have "length ?n = length ?m" using le by simp
      then have n: "?n = ?m" by (rule rstrip_chars_id)
      with len have b: "?b = ?m" using after_last_id [of 47 ?m] by simp
      then have "47 \<notin> set ?m" using after_last_absent [of 47 ?n] by simp
      then have "?m = s" by (intro map_idI) auto
      with b False ne show False by (simp add: file_stem_def Let_def)
    qed
    with False le show ?thesis by (simp add: file_stem_def Let_def)
  qed
qed

function detect_shell_type :: "pystr \<Rightarrow> shell_type option" where
  "detect_shell_type s =
     (if s = lit ''zsh'' then Some ZshShell
      else if s = lit ''sh'' then Some ShShell
      else if s = lit ''cmd'' then Some CmdShell
      else if s = lit ''bash'' then Some BashShell
      else if s = lit ''pwsh'' \<or> s = lit ''powershell'' then Some PowerShellShell
      else if file_stem s \<noteq> [] \<and> file_stem s \<noteq> s then detect_shell_type (file_stem s)
      else None)"
  by pat_completeness auto

termination
  by (relation "measure length") (simp_all del: lit.simps add: file_stem_shorter)

declare detect_shell_type.simps [simp del]

section \<open>Scripts\<close>

definition CONNECTORS :: "pystr list" where
  "CONNECTORS = [lit ''&&'', lit ''||'', lit ''|'', lit '';'']"

definition extract_bash_command :: "pystr list \<Rightarrow> (pystr \<times> pystr) option" where
  "extract_bash_command command =
     (case command of
        [shell, flag, script] \<Rightarrow>
          if flag \<notin> {lit ''-lc'', lit ''-c''}
             \<or> detect_shell_type shell \<notin> {Some ZshShell, Some BashShell, Some ShShell}
          then None else Some (shell, script)
      | _ \<Rightarrow> None)"

definition bash_punctuation :: "int \<Rightarrow> bool" where
  "bash_punctuation c \<longleftrightarrow> c = 59 \<or> c = 38 \<or> c = 124"

definition bash_plain_split :: "pystr \<Rightarrow> pystr list option" where
  "bash_plain_split script =
     (case shlex_tokens bash_punctuation script of Inl _ \<Rightarrow> None | Inr ts \<Rightarrow> Some ts)"

text \<open>The three scans of the script; each keeps its own idea of what is quoted.\<close>

fun scan_grouping :: "bool \<Rightarrow> bool \<Rightarrow> bool \<Rightarrow> pystr \<Rightarrow> bool" where
  "scan_grouping in_single in_double escaped [] = False"
| "scan_grouping in_single in_double escaped (c # cs) =
     (if escaped then scan_grouping in_single in_double False cs
      else if c = 92 then scan_grouping in_single in_double True cs
      else if c = 39 \<and> \<not> in_double then scan_grouping (\<not> in_single) in_double False cs
      else if c = 34 \<and> \<not> in_single then scan_grouping in_single (\<not> in_double) False cs
      else if \<not> in_single \<and> \<not> in_double \<and> c \<in> {40, 41, 123, 125, 60, 62} then True
      else scan_grouping in_single in_double False cs)"

definition has_unquoted_shell_grouping_or_redirection :: "pystr \<Rightarrow> bool" where
  "has_unquoted_shell_grouping_or_redirection script = scan_grouping False False False script"

text \<open>\<open>previous\<close> is the character before, as in \<open>script[index - 1]\<close>.\<close>

fun scan_ampersand :: "int option \<Rightarrow> bool \<Rightarrow> bool \<Rightarrow> bool \<Rightarrow> pystr \<Rightarrow> bool" where
  "scan_ampersand previous in_single in_double escaped [] = False"
| "scan_ampersand previous in_single in_double escaped (c # cs) =
     (if escaped then scan_ampersand (Some c) in_single in_double False cs
      else if c = 92 then scan_ampersand (Some c) in_single in_double True cs
      else if c = 39 \<and> \<not> in_double then scan_ampersand (Some c) (\<not> in_single) in_double False cs
      else if c = 34 \<and> \<not> in_single then scan_ampersand (Some c) in_single (\<not> in_double) False cs
      else if c = 38 \<and> \<not> in_single \<and> \<not> in_double \<and> previous \<noteq> Some 38 \<and> \<not> (cs \<noteq> [] \<and> hd cs = 38)
      then True
      else scan_ampersand (Some c) in_single in_double False cs)"

definition has_unquoted_single_ampersand :: "pystr \<Rightarrow> bool" where
  "has_unquoted_single_ampersand script = scan_ampersand None False False False script"

fun scan_dollar :: "bool \<Rightarrow> bool \<Rightarrow> pystr \<Rightarrow> bool" where
  "scan_dollar in_single escaped [] = False"
| "scan_dollar in_single escaped (c # cs) =
     (if escaped then scan_dollar in_single False cs
      else if c = 92 then scan_dollar in_single True cs
      else if c = 39 then scan_dollar (\<not> in_single) False cs
      else if c = 36 \<and> \<not> in_single \<and> \<not> (cs = [] \<or> is_space (hd cs)) then True
      else scan_dollar in_single False cs)"

definition has_unquoted_dollar_expansion :: "pystr \<Rightarrow> bool" where
  "has_unquoted_dollar_expansion script = scan_dollar False False script"

definition ident_start :: "int \<Rightarrow> bool" where
  "ident_start c \<longleftrightarrow> 65 \<le> c \<and> c \<le> 90 \<or> 97 \<le> c \<and> c \<le> 122 \<or> c = 95"

definition ident_char :: "int \<Rightarrow> bool" where
  "ident_char c \<longleftrightarrow> ident_start c \<or> 48 \<le> c \<and> c \<le> 57"

text \<open>\<open>^[A-Za-z_][A-Za-z0-9_]*=\<close>\<close>

fun is_assignment_word :: "pystr \<Rightarrow> bool" where
  "is_assignment_word [] = False"
| "is_assignment_word (c # cs) = (ident_start c \<and> starts_with (dropWhile ident_char cs) (lit ''=''))"

definition contains_unsupported_bash_plain_construct :: "pystr \<Rightarrow> bool" where
  "contains_unsupported_bash_plain_construct script =
     (if 96 \<in> set script \<or> contains_str script (lit '';;'') then True
      else if has_unquoted_single_ampersand script then True
      else if has_unquoted_dollar_expansion script then True
      else if has_unquoted_shell_grouping_or_redirection script then True
      else case bash_plain_split script of
        None \<Rightarrow> True
      | Some tokens \<Rightarrow>
          if tokens = [] then True
          else if hd tokens \<in> set CONNECTORS \<or> last tokens \<in> set CONNECTORS then True
          else if hd tokens = lit ''env'' then dropWhile is_assignment_word (tl tokens) = []
          else is_assignment_word (hd tokens))"

definition contains_unsupported_shell_token :: "pystr list \<Rightarrow> bool" where
  "contains_unsupported_shell_token tokens =
     list_ex (\<lambda>t. t \<notin> set CONNECTORS \<and> (96 \<in> set t \<or> 0 \<in> set t)) tokens"

definition has_empty_connector_segment :: "pystr list \<Rightarrow> bool" where
  "has_empty_connector_segment tokens \<longleftrightarrow> tokens \<noteq> [] \<and>
     (hd tokens \<in> set CONNECTORS \<or> last tokens \<in> set CONNECTORS
      \<or> list_ex (\<lambda>(l, r). l \<in> set CONNECTORS \<and> r \<in> set CONNECTORS) (zip tokens (tl tokens)))"

text \<open>\<open>result[-1].append(token)\<close> on a list that is never empty.\<close>

definition append_last :: "'a \<Rightarrow> 'a list list \<Rightarrow> 'a list list" where
  "append_last x xss = butlast xss @ [last xss @ [x]]"

definition split_on_connectors :: "pystr list \<Rightarrow> pystr list list" where
  "split_on_connectors tokens =
     fold (\<lambda>t result. if t \<in> set CONNECTORS then result @ [[]] else append_last t result) tokens [[]]"

definition try_parse_word_only_commands_sequence ::
    "pystr list option \<Rightarrow> pystr \<Rightarrow> pystr list list option" where
  "try_parse_word_only_commands_sequence tree src =
     (case tree of None \<Rightarrow> None
      | Some tokens \<Rightarrow>
          if contains_unsupported_bash_plain_construct src then None
          else if contains_unsupported_shell_token tokens \<or> has_empty_connector_segment tokens then None
          else let commands = split_on_connectors tokens in
            if commands \<noteq> [] \<and> list_all (\<lambda>c. c \<noteq> []) commands then Some commands else None)"

definition parse_shell_lc_plain_commands :: "pystr list \<Rightarrow> pystr list list option" where
  "parse_shell_lc_plain_commands command =
     (case extract_bash_command command of None \<Rightarrow> None
      | Some (_, script) \<Rightarrow> try_parse_word_only_commands_sequence (bash_plain_split script) script)"

text \<open>The command before a single here-document.\<close>

definition heredoc_prefix_markers :: pystr where
  "heredoc_prefix_markers = lit '';|&><$`(){}''"

definition heredoc_is_last :: "pystr \<Rightarrow> pystr list \<Rightarrow> bool" where
  "heredoc_is_last delimiter lines \<longleftrightarrow>
     list_ex (\<lambda>l. strip l = delimiter) lines
     \<and> \<not> list_ex (\<lambda>l. strip l \<noteq> []) (drop 1 (dropWhile (\<lambda>l. strip l \<noteq> delimiter) lines))"

definition parse_shell_lc_single_command_prefix :: "pystr list \<Rightarrow> pystr list option" where
  "parse_shell_lc_single_command_prefix command =
     (case extract_bash_command command of None \<Rightarrow> None
      | Some (_, script) \<Rightarrow>
        (case str_find script (lit ''<<'') of None \<Rightarrow> None
         | Some i \<Rightarrow>
           if contains_str script (lit ''<<<'') then None
           else let pre = strip (take i script); rest = drop (i + 2) script in
           if pre = [] \<or> list_ex (\<lambda>c. c \<in> set heredoc_prefix_markers) pre then None
           else if 10 \<notin> set rest then None
           else (case shlex_split (strip (takeWhile (\<lambda>c. c \<noteq> 10) rest)) of
                   Inr [delimiter] \<Rightarrow>
                     if delimiter = []
                        \<or> \<not> heredoc_is_last delimiter (splitlines (drop 1 (dropWhile (\<lambda>c. c \<noteq> 10) rest)))
                     then None
                     else (case shlex_split pre of
                             Inr (w # ws) \<Rightarrow>
                               if 61 \<in> set w \<or> contains_unsupported_shell_token (w # ws) then None
                               else Some (w # ws)
                           | _ \<Rightarrow> None)
                 | _ \<Rightarrow> None)))"

section \<open>Printed command lines\<close>

text \<open>A character that neither the lexer nor any of the scans reacts to.\<close>

definition inert_char :: "int \<Rightarrow> bool" where
  "inert_char c \<longleftrightarrow> plain_char bash_punctuation c \<and> c \<notin> {0, 36, 96, 40, 41, 123, 125, 60, 62}"

definition inert_word :: "pystr \<Rightarrow> bool" where
  "inert_word w \<longleftrightarrow> w \<noteq> [] \<and> list_all inert_char w"

text \<open>A word that can be printed, in single quotes if need be, and a connector, which never is.\<close>

definition shell_word :: "pystr \<Rightarrow> bool" where
  "shell_word w \<longleftrightarrow> w \<notin> set CONNECTORS \<and> 39 \<notin> set w \<and> 92 \<notin> set w \<and> 96 \<notin> set w \<and> 0 \<notin> set w
     \<and> \<not> sublist [59, 59] w"

definition shell_token :: "pystr \<Rightarrow> bool" where
  "shell_token t \<longleftrightarrow> t \<in> set CONNECTORS \<or> shell_word t"

definition print_token :: "pystr \<Rightarrow> pystr" where
  "print_token t = (if t \<in> set CONNECTORS \<or> inert_word t then t else [39] @ t @ [39])"

definition print_tokens :: "pystr list \<Rightarrow> pystr" where
  "print_tokens ts = join_with [32] (map print_token ts)"

text \<open>Each token as the lexer and the scans meet it: as it is, in quotes, or a connector.\<close>

lemma print_token_cases:
  assumes "shell_token t"
  obtains (inert) "print_token t = t" "inert_word t"
    | (quoted) "print_token t = 39 # t @ [39]" "39 \<notin> set t" "92 \<notin> set t"
    | (connector) "print_token t = t" "t \<in> set CONNECTORS"
  using assms by (cases "inert_word t") (auto simp: print_token_def shell_token_def shell_word_def)

lemma bash_punctuation_quotes [simp]: "\<not> bash_punctuation 39" "\<not> bash_punctuation 32"
  by (simp_all add: bash_punctuation_def)

text \<open>After a token comes the end or a space.\<close>

definition after_token :: "pystr \<Rightarrow> bool" where
  "after_token rest \<longleftrightarrow> rest = [] \<or> (\<exists>r. rest = 32 # r)"

lemma lex_word_end:
  "after_token rest \<Longrightarrow> w \<noteq> [] \<or> q \<Longrightarrow>
     shlex_loop bash_punctuation SxWord w q rest =
     bindE (shlex_tokens bash_punctuation (drop 1 rest)) (\<lambda>ts. Inr (w # ts))"
  by (auto simp: after_token_def shlex_tokens_def shlex_emit_def shlex_space_def)

lemma lex_connector:
  "t \<in> set CONNECTORS \<Longrightarrow> after_token rest \<Longrightarrow>
     shlex_tokens bash_punctuation (t @ rest) =
     bindE (shlex_tokens bash_punctuation (drop 1 rest)) (\<lambda>ts. Inr (t # ts))"
  by (auto simp: after_token_def CONNECTORS_def shlex_tokens_def shlex_emit_def shlex_space_def
      bash_punctuation_def)

lemma lex_token:
  assumes "shell_token t" "after_token rest"
  shows "shlex_tokens bash_punctuation (print_token t @ rest) =
    bindE (shlex_tokens bash_punctuation (drop 1 rest)) (\<lambda>ts. Inr (t # ts))"
  using assms(1)
proof (cases rule: print_token_cases)
  case inert
  then have "plain_word bash_punctuation t"
    by (auto simp: inert_word_def plain_word_def inert_char_def list_all_iff)
  then show ?thesis
    using shlex_word [of _ t rest] lex_word_end [OF assms(2), of t False] inert
    by (simp add: shlex_tokens_def plain_word_def)
next
  case quoted
  then show ?thesis
    using shlex_quoted [of t bash_punctuation rest] lex_word_end [OF assms(2), of t True]
    by (simp add: shlex_tokens_def)
next
  case connector
  then show ?thesis using lex_connector assms(2) by simp
qed

lemma lex_print:
  "list_all shell_token ts \<Longrightarrow> shlex_tokens bash_punctuation (print_tokens ts) = Inr ts"
proof (induction ts)
  case Nil
  then show ?case by (simp add: print_tokens_def shlex_tokens_def)
next
  case (Cons t ts)
  then have t: "shell_token t" "list_all shell_token ts" by simp_all
  have lex_nil: "shlex_tokens bash_punctuation [] = Inr []" by (simp add: shlex_tokens_def)
  show ?case
  proof (cases ts)
    case Nil
    then show ?thesis
      using lex_token [OF t(1), of "[]"] lex_nil by (simp add: print_tokens_def after_token_def)
  next
    case Cons
    then show ?thesis
      using lex_token [OF t(1), of "32 # print_tokens ts"] Cons.IH [OF t(2)]
      by (simp add: print_tokens_def after_token_def)
  qed
qed

text \<open>No scan stops inside a printed token, and after it each is in its initial state again.\<close>

lemma scan_grouping_inert:
  "list_all inert_char w \<Longrightarrow> scan_grouping False False False (w @ rest) = scan_grouping False False False rest"
  by (induction w) (auto simp: inert_char_def plain_char_def shlex_quote_def)

lemma scan_grouping_quoted:
  "39 \<notin> set w \<Longrightarrow> 92 \<notin> set w \<Longrightarrow>
     scan_grouping True False False (w @ 39 # rest) = scan_grouping False False False rest"
  by (induction w) auto

lemma scan_grouping_token:
  assumes "shell_token t"
  shows "scan_grouping False False False (print_token t @ rest) = scan_grouping False False False rest"
  using assms
proof (cases rule: print_token_cases)
  case quoted
  then show ?thesis using scan_grouping_quoted by simp
qed (auto simp: inert_word_def scan_grouping_inert CONNECTORS_def)

lemma scan_dollar_inert:
  "list_all inert_char w \<Longrightarrow> scan_dollar False False (w @ rest) = scan_dollar False False rest"
  by (induction w) (auto simp: inert_char_def plain_char_def shlex_quote_def)

lemma scan_dollar_quoted:
  "39 \<notin> set w \<Longrightarrow> 92 \<notin> set w \<Longrightarrow> scan_dollar True False (w @ 39 # rest) = scan_dollar False False rest"
  by (induction w) auto

lemma scan_dollar_token:
  assumes "shell_token t"
  shows "scan_dollar False False (print_token t @ rest) = scan_dollar False False rest"
  using assms
proof (cases rule: print_token_cases)
  case quoted
  then show ?thesis using scan_dollar_quoted by simp
qed (auto simp: inert_word_def scan_dollar_inert CONNECTORS_def)

lemma scan_ampersand_inert:
  "list_all inert_char w \<Longrightarrow> \<exists>p'. scan_ampersand p False False False (w @ rest) = scan_ampersand p' False False False rest"
proof (induction w arbitrary: p)
  case (Cons c w)
  then show ?case
    by (auto simp: inert_char_def plain_char_def shlex_quote_def bash_punctuation_def)
qed auto

lemma scan_ampersand_quoted:
  "39 \<notin> set w \<Longrightarrow> 92 \<notin> set w \<Longrightarrow>
     scan_ampersand p True False False (w @ 39 # rest) = scan_ampersand (Some 39) False False False rest"
  by (induction w arbitrary: p) auto

lemma scan_ampersand_token:
  assumes "shell_token t" "after_token rest"
  shows "\<exists>p'. scan_ampersand p False False False (print_token t @ rest) = scan_ampersand p' False False False rest"
  using assms(1)
proof (cases rule: print_token_cases)
  case inert
  then show ?thesis using scan_ampersand_inert by (simp add: inert_word_def)
next
  case quoted
  then show ?thesis using scan_ampersand_quoted by auto
next
  case connector
  then show ?thesis using assms(2) by (auto simp: CONNECTORS_def after_token_def)
qed

lemma print_tokens_Nil [simp]: "print_tokens [] = []"
  by (simp add: print_tokens_def)

lemma print_tokens_Cons:
  "print_tokens (t # ts) = print_token t @ (if ts = [] then [] else 32 # print_tokens ts)"
  by (cases ts) (simp_all add: print_tokens_def)

lemma scans_print:
  assumes "list_all shell_token ts"
  shows "\<not> scan_grouping False False False (print_tokens ts)"
    "\<not> scan_dollar False False (print_tokens ts)"
    "\<not> scan_ampersand p False False False (print_tokens ts)"
proof -
  show "\<not> scan_grouping False False False (print_tokens ts)"
    using assms by (induction ts) (auto simp: print_tokens_Cons scan_grouping_token)
  show "\<not> scan_dollar False False (print_tokens ts)"
    using assms by (induction ts) (auto simp: print_tokens_Cons scan_dollar_token)
  show "\<not> scan_ampersand p False False False (print_tokens ts)"
    using assms
  proof (induction ts arbitrary: p)
    case (Cons t ts)
    let ?rest = "if ts = [] then [] else 32 # print_tokens ts"
    have "after_token ?rest" by (simp add: after_token_def)
    moreover have "shell_token t" using Cons.prems by simp
    ultimately obtain p' where
      "scan_ampersand p False False False (print_token t @ ?rest) = scan_ampersand p' False False False ?rest"
      using scan_ampersand_token by blast
    then show ?case using Cons by (simp add: print_tokens_Cons)
  qed simp
qed

text \<open>Two semicolons in a row and backquotes occur only inside words.\<close>

lemma sublist_double_sep:
  "c \<noteq> d \<Longrightarrow> sublist [c, c] (s @ d # t) \<longleftrightarrow> sublist [c, c] s \<or> sublist [c, c] t"
proof (induction s)
  case (Cons a s)
  then show ?case by (cases s) (auto simp: sublist_Cons_right prefix_Cons)
qed (auto simp: sublist_Cons_right)

lemma print_token_no_double:
  assumes "shell_token t"
  shows "\<not> sublist [59, 59] (print_token t)" "96 \<notin> set (print_token t)"
proof -
  have "\<not> sublist [59, 59] t \<and> 96 \<notin> set t"
  proof (cases "t \<in> set CONNECTORS")
    case True
    then show ?thesis by (auto simp: CONNECTORS_def sublist_Cons_right)
  next
    case False
    with assms show ?thesis by (auto simp: shell_token_def shell_word_def)
  qed
  moreover have "sublist [59, 59] (39 # t @ [39]) \<longleftrightarrow> sublist [59, 59] t"
    using sublist_double_sep [of "59 :: int" 39 "[]" "t @ [39]"] sublist_double_sep [of 59 39 t "[]"] by simp
  ultimately show "\<not> sublist [59, 59] (print_token t)" "96 \<notin> set (print_token t)"
    by (simp_all add: print_token_def)
qed

lemma print_tokens_no_double:
  "list_all shell_token ts \<Longrightarrow> \<not> sublist [59, 59] (print_tokens ts) \<and> 96 \<notin> set (print_tokens ts)"
proof (induction ts)
  case (Cons t ts)
  then show ?case
    using print_token_no_double [of t] sublist_double_sep [of 59 32 "print_token t" "print_tokens ts"]
    by (auto simp: print_tokens_Cons)
qed simp

section \<open>Reading a printed command line\<close>

text \<open>The tokens of a line: its first command, then each connector with the command after it.\<close>

fun line_tokens :: "pystr list \<Rightarrow> (pystr \<times> pystr list) list \<Rightarrow> pystr list" where
  "line_tokens ws [] = ws"
| "line_tokens ws ((c, ws') # rest) = ws @ c # line_tokens ws' rest"

definition shell_command_ok :: "pystr list \<Rightarrow> bool" where
  "shell_command_ok ws \<longleftrightarrow> ws \<noteq> [] \<and> list_all shell_word ws"

definition shell_line_ok :: "pystr list \<Rightarrow> (pystr \<times> pystr list) list \<Rightarrow> bool" where
  "shell_line_ok ws rest \<longleftrightarrow> shell_command_ok ws
     \<and> list_all (\<lambda>(c, ws'). c \<in> set CONNECTORS \<and> shell_command_ok ws') rest
     \<and> hd ws \<noteq> lit ''env'' \<and> \<not> is_assignment_word (hd ws)"

definition print_line :: "pystr list \<Rightarrow> (pystr \<times> pystr list) list \<Rightarrow> pystr" where
  "print_line ws rest = print_tokens (line_tokens ws rest)"

lemma split_words:
  "list_all shell_word ws \<Longrightarrow> xss \<noteq> [] \<Longrightarrow>
     fold (\<lambda>t result. if t \<in> set CONNECTORS then result @ [[]] else append_last t result) ws xss =
     butlast xss @ [last xss @ ws]"
  by (induction ws arbitrary: xss) (auto simp: append_last_def shell_word_def)

lemma split_line:
  "list_all shell_word ws \<Longrightarrow> list_all (\<lambda>(c, ws'). c \<in> set CONNECTORS \<and> shell_command_ok ws') rest \<Longrightarrow>
     fold (\<lambda>t result. if t \<in> set CONNECTORS then result @ [[]] else append_last t result)
       (line_tokens ws rest) (pre @ [[]]) = pre @ ws # map snd rest"
proof (induction ws rest arbitrary: pre rule: line_tokens.induct)
  case (2 ws c ws' rest)
  then have "list_all shell_word ws'" "list_all (\<lambda>(c, ws'). c \<in> set CONNECTORS \<and> shell_command_ok ws') rest"
    "c \<in> set CONNECTORS"
    by (simp_all add: shell_command_ok_def)
  with "2.IH" [of "pre @ [ws]"] "2.prems"(1) show ?case
    by (simp add: split_words)
qed (simp add: split_words)

lemma line_tokens_ok:
  "list_all shell_word ws \<Longrightarrow> list_all (\<lambda>(c, ws'). c \<in> set CONNECTORS \<and> shell_command_ok ws') rest \<Longrightarrow>
     list_all shell_token (line_tokens ws rest)"
proof (induction ws rest rule: line_tokens.induct)
  case (1 ws)
  then show ?case by (auto simp: list_all_iff shell_token_def)
next
  case (2 ws c ws' rest)
  then show ?case by (auto simp: list_all_iff shell_token_def shell_command_ok_def)
qed

lemma adjacent_Cons:
  "list_ex (\<lambda>(l, r). l \<in> C \<and> r \<in> C) (zip (t # ts) (tl (t # ts))) \<longleftrightarrow>
     ts \<noteq> [] \<and> t \<in> C \<and> hd ts \<in> C \<or> list_ex (\<lambda>(l, r). l \<in> C \<and> r \<in> C) (zip ts (tl ts))"
  by (cases ts) auto

lemma adjacent_words:
  "list_all shell_word ws \<Longrightarrow>
     list_ex (\<lambda>(l, r). l \<in> set CONNECTORS \<and> r \<in> set CONNECTORS) (zip (ws @ ts) (tl (ws @ ts))) \<longleftrightarrow>
     list_ex (\<lambda>(l, r). l \<in> set CONNECTORS \<and> r \<in> set CONNECTORS) (zip ts (tl ts))"
proof (induction ws)
  case (Cons w ws)
  have "w \<notin> set CONNECTORS" using Cons.prems by (simp add: shell_word_def)
  then have "list_ex (\<lambda>(l, r). l \<in> set CONNECTORS \<and> r \<in> set CONNECTORS)
        (zip (w # ws @ ts) (tl (w # ws @ ts)))
      \<longleftrightarrow> list_ex (\<lambda>(l, r). l \<in> set CONNECTORS \<and> r \<in> set CONNECTORS) (zip (ws @ ts) (tl (ws @ ts)))"
    by (simp only: adjacent_Cons simp_thms)
  with Cons show ?case by simp
qed simp

lemma line_ends:
  "shell_command_ok ws \<Longrightarrow> list_all (\<lambda>(c, ws'). c \<in> set CONNECTORS \<and> shell_command_ok ws') rest \<Longrightarrow>
     line_tokens ws rest \<noteq> [] \<and> hd (line_tokens ws rest) = hd ws
     \<and> hd ws \<notin> set CONNECTORS \<and> last (line_tokens ws rest) \<notin> set CONNECTORS
     \<and> \<not> list_ex (\<lambda>(l, r). l \<in> set CONNECTORS \<and> r \<in> set CONNECTORS)
         (zip (line_tokens ws rest) (tl (line_tokens ws rest)))"
proof (induction ws rest rule: line_tokens.induct)
  case (1 ws)
  then have "list_all shell_word ws" "ws \<noteq> []" by (simp_all add: shell_command_ok_def)
  with adjacent_words [of ws "[]"] show ?case by (auto simp: list_all_iff shell_word_def)
next
  case (2 ws c ws' rest)
  then have ws: "list_all shell_word ws" "ws \<noteq> []" by (simp_all add: shell_command_ok_def)
  then have "hd ws \<notin> set CONNECTORS" by (cases ws) (simp_all add: shell_word_def)
  moreover have "shell_command_ok ws'"
    "list_all (\<lambda>(c, ws'). c \<in> set CONNECTORS \<and> shell_command_ok ws') rest" using "2.prems" by simp_all
  note ih = "2.IH" [OF this]
  ultimately show ?case
    using ws ih adjacent_words [OF ws(1), of "c # line_tokens ws' rest"] adjacent_Cons [of "set CONNECTORS" c "line_tokens ws' rest"]
    by simp
qed

lemma tokens_supported: "list_all shell_token ts \<Longrightarrow> \<not> contains_unsupported_shell_token ts"
  by (auto simp: contains_unsupported_shell_token_def list_all_iff list_ex_iff shell_token_def shell_word_def)

lemma parse_print_line_lemma:
  assumes "shell_line_ok ws rest" "extract_bash_command [shell, flag, print_line ws rest] \<noteq> None"
  shows "parse_shell_lc_plain_commands [shell, flag, print_line ws rest] = Some (ws # map snd rest)"
proof -
  have ok: "shell_command_ok ws" "list_all shell_word ws"
    "list_all (\<lambda>(c, ws'). c \<in> set CONNECTORS \<and> shell_command_ok ws') rest"
    using assms(1) by (simp_all add: shell_line_ok_def shell_command_ok_def)
  let ?ts = "line_tokens ws rest"
  have ts: "list_all shell_token ?ts" using line_tokens_ok ok by blast
  have split: "bash_plain_split (print_line ws rest) = Some ?ts"
    by (simp add: bash_plain_split_def print_line_def lex_print [OF ts])
  note ends = line_ends [OF ok(1,3)]
  have "\<not> contains_unsupported_bash_plain_construct (print_line ws rest)"
    unfolding contains_unsupported_bash_plain_construct_def split
    using assms(1) scans_print [OF ts] print_tokens_no_double [OF ts] ends
    by (simp add: print_line_def contains_str_iff has_unquoted_shell_grouping_or_redirection_def
        has_unquoted_dollar_expansion_def has_unquoted_single_ampersand_def shell_line_ok_def)
  moreover have "\<not> has_empty_connector_segment ?ts"
    using ends by (simp add: has_empty_connector_segment_def)
  moreover have "split_on_connectors ?ts = ws # map snd rest"
    using split_line [OF ok(2,3), of "[]"] by (simp add: split_on_connectors_def)
  moreover have "list_all (\<lambda>c. c \<noteq> []) (ws # map snd rest)"
    using ok by (auto simp: list_all_iff shell_command_ok_def)
  moreover have "extract_bash_command [shell, flag, print_line ws rest] = Some (shell, print_line ws rest)"
    using assms(2) by (auto simp: extract_bash_command_def simp del: lit.simps split: if_splits)
  ultimately show ?thesis
    using tokens_supported [OF ts] split
    by (simp add: parse_shell_lc_plain_commands_def try_parse_word_only_commands_sequence_def)
qed

end
