(* ===== verification/CommandSafety.thy ===== *)
theory CommandSafety
  imports ShellBash ExecPolicy
begin

text \<open>
  Which commands are known to be safe and which might be dangerous,
  \<open>pycodex/shell_command/command_safety\<close>: \<open>is_safe_command.py\<close>, \<open>windows_safe_commands.py\<close>,
  \<open>powershell_parser.py\<close> and \<open>is_dangerous_command\<close>. The host is a parameter: whether it is Windows,
  Python's Unicode tables and \<open>urllib.parse.urlparse\<close>, which gives the scheme and the network location
  of a URL or raises \<open>ValueError\<close>.
\<close>

record shell_env =
  se_nt :: bool
  se_lower :: "pystr \<Rightarrow> pystr"
  se_isdigit :: "int \<Rightarrow> bool"
  se_isalpha :: "int \<Rightarrow> bool"
  se_urlparse :: "pystr \<Rightarrow> (pystr, pystr \<times> pystr) result"

definition lits :: "string list \<Rightarrow> pystr list" where
  "lits = map lit"

section \<open>Names of executables\<close>

text \<open>\<open>PureWindowsPath(raw).name\<close>: the last component after the drive and the root.\<close>

definition windows_tail :: "pystr \<Rightarrow> pystr" where
  "windows_tail raw =
     (let n = map (\<lambda>c. if c = 47 then 92 else c) raw in
      if starts_with n [92, 92] then
        let start = (if length n \<ge> 8 \<and> take 4 n = [92, 92, 63, 92] \<and> n ! 7 = 92
                        \<and> map (\<lambda>c. if 97 \<le> c \<and> c \<le> 122 then c - 32 else c) (take 3 (drop 4 n)) = lit ''UNC''
                     then 8 else 2)
        in drop 1 (dropWhile (\<lambda>c. c \<noteq> 92) (drop 1 (dropWhile (\<lambda>c. c \<noteq> 92) (drop start n))))
      else if starts_with n [92] then drop 1 n
      else if length n \<ge> 2 \<and> n ! 1 = 58 then
        (if length n \<ge> 3 \<and> n ! 2 = 92 then drop 3 n else drop 2 n)
      else n)"

definition windows_name :: "pystr \<Rightarrow> pystr" where
  "windows_name raw =
     (let parts = filter (\<lambda>p. p \<noteq> [] \<and> p \<noteq> lit ''.'') (split_on 92 (windows_tail raw))
      in if parts = [] then [] else last parts)"

definition basename :: "pystr \<Rightarrow> pystr option" where
  "basename raw =
     (let raw = rstrip_chars {47, 92} raw in
      if raw = [] then None
      else if 92 \<in> set raw then Some (windows_name raw)
      else Some (path_name (path_of raw)))"

definition executable_name_lookup_key :: "shell_env \<Rightarrow> pystr \<Rightarrow> pystr option" where
  "executable_name_lookup_key env raw =
     (if raw = [] then None
      else case basename raw of None \<Rightarrow> None
        | Some name \<Rightarrow>
            if se_nt env then
              let name = se_lower env name in
              (case find (ends_with name) (lits [''.exe'', ''.cmd'', ''.bat'', ''.com'']) of
                 Some ext \<Rightarrow> Some (take (length name - length ext) name)
               | None \<Rightarrow> Some name)
            else Some name)"

section \<open>Git\<close>

definition is_git_global_option_with_value :: "pystr \<Rightarrow> bool" where
  "is_git_global_option_with_value arg \<longleftrightarrow> arg \<in> set (lits
     [''-C'', ''-c'', ''--config-env'', ''--exec-path'', ''--git-dir'', ''--namespace'',
      ''--super-prefix'', ''--work-tree''])"

definition is_git_global_option_with_inline_value :: "pystr \<Rightarrow> bool" where
  "is_git_global_option_with_inline_value arg \<longleftrightarrow>
     list_ex (starts_with arg) (lits [''--config-env='', ''--exec-path='', ''--git-dir='',
       ''--namespace='', ''--super-prefix='', ''--work-tree=''])
     \<or> (starts_with arg (lit ''-C'') \<or> starts_with arg (lit ''-c'')) \<and> length arg > 2"

fun find_git_subcommand_from ::
    "nat \<Rightarrow> bool \<Rightarrow> pystr list \<Rightarrow> pystr list \<Rightarrow> (nat \<times> pystr) option" where
  "find_git_subcommand_from index skip_next subcommands [] = None"
| "find_git_subcommand_from index skip_next subcommands (arg # args) =
     (if skip_next then find_git_subcommand_from (index + 1) False subcommands args
      else if is_git_global_option_with_inline_value arg
      then find_git_subcommand_from (index + 1) False subcommands args
      else if is_git_global_option_with_value arg
      then find_git_subcommand_from (index + 1) True subcommands args
      else if arg = lit ''--'' \<or> starts_with arg (lit ''-'')
      then find_git_subcommand_from (index + 1) False subcommands args
      else if arg \<in> set subcommands then Some (index, arg) else None)"

definition find_git_subcommand ::
    "shell_env \<Rightarrow> pystr list \<Rightarrow> pystr list \<Rightarrow> (nat \<times> pystr) option" where
  "find_git_subcommand env command subcommands =
     (if command = [] \<or> executable_name_lookup_key env (hd command) \<noteq> Some (lit ''git'') then None
      else find_git_subcommand_from 1 False subcommands (tl command))"

datatype option_pattern = Exact pystr | ShortInline pystr | OptPrefix pystr

fun matches_pattern :: "pystr \<Rightarrow> option_pattern \<Rightarrow> bool" where
  "matches_pattern arg (Exact opt) \<longleftrightarrow> arg = opt"
| "matches_pattern arg (ShortInline opt) \<longleftrightarrow> starts_with arg opt \<and> length arg > length opt"
| "matches_pattern arg (OptPrefix opt) \<longleftrightarrow> starts_with arg opt"

definition git_matches_option_pattern :: "pystr \<Rightarrow> option_pattern list \<Rightarrow> bool" where
  "git_matches_option_pattern arg patterns \<longleftrightarrow> list_ex (matches_pattern arg) patterns"

definition UNSAFE_GIT_GLOBAL_OPTIONS :: "option_pattern list" where
  "UNSAFE_GIT_GLOBAL_OPTIONS =
     [Exact (lit ''-C''), ShortInline (lit ''-C''), Exact (lit ''-c''), ShortInline (lit ''-c''),
      Exact (lit ''-p''), Exact (lit ''--config-env''), OptPrefix (lit ''--config-env=''),
      Exact (lit ''--exec-path''), OptPrefix (lit ''--exec-path=''), Exact (lit ''--git-dir''),
      OptPrefix (lit ''--git-dir=''), Exact (lit ''--namespace''), OptPrefix (lit ''--namespace=''),
      Exact (lit ''--paginate''), Exact (lit ''--super-prefix''), OptPrefix (lit ''--super-prefix=''),
      Exact (lit ''--work-tree''), OptPrefix (lit ''--work-tree='')]"

definition UNSAFE_GIT_SUBCOMMAND_OPTIONS :: "option_pattern list" where
  "UNSAFE_GIT_SUBCOMMAND_OPTIONS =
     [Exact (lit ''--output''), OptPrefix (lit ''--output=''), Exact (lit ''--ext-diff''),
      Exact (lit ''--textconv''), Exact (lit ''--exec''), OptPrefix (lit ''--exec='')]"

definition git_has_unsafe_global_option :: "pystr list \<Rightarrow> bool" where
  "git_has_unsafe_global_option global_args \<longleftrightarrow>
     list_ex (\<lambda>arg. git_matches_option_pattern arg UNSAFE_GIT_GLOBAL_OPTIONS) global_args"

definition git_subcommand_args_are_read_only :: "pystr list \<Rightarrow> bool" where
  "git_subcommand_args_are_read_only args \<longleftrightarrow>
     \<not> list_ex (\<lambda>arg. git_matches_option_pattern arg UNSAFE_GIT_SUBCOMMAND_OPTIONS) args"

definition branch_flags :: "pystr list" where
  "branch_flags = lits [''--list'', ''-l'', ''--show-current'', ''-a'', ''--all'', ''-r'',
     ''--remotes'', ''-v'', ''-vv'', ''--verbose'']"

fun branch_loop :: "bool \<Rightarrow> pystr list \<Rightarrow> bool" where
  "branch_loop saw [] = saw"
| "branch_loop saw (arg # args) =
     (if arg \<in> set branch_flags \<or> starts_with arg (lit ''--format='') then branch_loop True args else False)"

definition git_branch_is_read_only :: "pystr list \<Rightarrow> bool" where
  "git_branch_is_read_only branch_args = (if branch_args = [] then True else branch_loop False branch_args)"

definition is_safe_git_command :: "shell_env \<Rightarrow> pystr list \<Rightarrow> bool" where
  "is_safe_git_command env command =
     (case find_git_subcommand env command (lits [''status'', ''log'', ''diff'', ''show'', ''branch'']) of
        None \<Rightarrow> False
      | Some (i, subcommand) \<Rightarrow>
          if git_has_unsafe_global_option (drop 1 (take i command)) then False
          else let subcommand_args = drop (i + 1) command in
            if subcommand \<in> set (lits [''status'', ''log'', ''diff'', ''show''])
            then git_subcommand_args_are_read_only subcommand_args
            else if subcommand = lit ''branch''
            then git_subcommand_args_are_read_only subcommand_args \<and> git_branch_is_read_only subcommand_args
            else False)"

section \<open>Commands that only read\<close>

definition SAFE_EXEC_COMMANDS :: "pystr list" where
  "SAFE_EXEC_COMMANDS = lits
     [''cat'', ''cd'', ''cut'', ''echo'', ''expr'', ''false'', ''grep'', ''head'', ''id'', ''ls'', ''nl'',
      ''paste'', ''pwd'', ''rev'', ''seq'', ''stat'', ''tail'', ''tr'', ''true'', ''uname'', ''uniq'', ''wc'',
      ''which'', ''whoami'']"

definition UNSAFE_FIND_OPTIONS :: "pystr list" where
  "UNSAFE_FIND_OPTIONS = lits [''-exec'', ''-execdir'', ''-ok'', ''-okdir'', ''-delete'', ''-fls'',
     ''-fprint'', ''-fprint0'', ''-fprintf'']"

definition is_unsafe_base64_arg :: "pystr \<Rightarrow> bool" where
  "is_unsafe_base64_arg arg \<longleftrightarrow> arg \<in> {lit ''-o'', lit ''--output''} \<or> starts_with arg (lit ''--output='')
     \<or> starts_with arg (lit ''-o'') \<and> arg \<noteq> lit ''-o''"

definition is_unsafe_ripgrep_arg :: "shell_env \<Rightarrow> pystr \<Rightarrow> bool" where
  "is_unsafe_ripgrep_arg env arg =
     (let arg_lc = se_lower env arg in
      arg_lc \<in> {lit ''--search-zip'', lit ''-z''}
      \<or> list_ex (\<lambda>opt. arg_lc = opt \<or> starts_with arg_lc (opt @ lit ''='')) (lits [''--pre'', ''--hostname-bin'']))"

definition is_safe_ripgrep :: "shell_env \<Rightarrow> pystr list \<Rightarrow> bool" where
  "is_safe_ripgrep env command \<longleftrightarrow> \<not> list_ex (is_unsafe_ripgrep_arg env) (drop 1 command)"

definition isdigit :: "shell_env \<Rightarrow> pystr \<Rightarrow> bool" where
  "isdigit env s \<longleftrightarrow> s \<noteq> [] \<and> list_all (se_isdigit env) s"

definition is_valid_sed_n_arg :: "shell_env \<Rightarrow> pystr \<Rightarrow> bool" where
  "is_valid_sed_n_arg env arg =
     (if \<not> ends_with arg (lit ''p'') then False
      else case split_on 44 (butlast arg) of
        [a] \<Rightarrow> isdigit env a
      | [a, b] \<Rightarrow> isdigit env a \<and> isdigit env b
      | _ \<Rightarrow> False)"

definition is_safe_to_call_with_exec :: "shell_env \<Rightarrow> pystr list \<Rightarrow> bool" where
  "is_safe_to_call_with_exec env command =
     (if command = [] then False
      else case executable_name_lookup_key env (hd command) of
        None \<Rightarrow> False
      | Some lookup \<Rightarrow>
          if \<not> se_nt env \<and> lookup \<in> {lit ''numfmt'', lit ''tac''} then True
          else if lookup \<in> set SAFE_EXEC_COMMANDS then True
          else if lookup = lit ''base64'' then \<not> list_ex is_unsafe_base64_arg (drop 1 command)
          else if lookup = lit ''find'' then \<not> list_ex (\<lambda>arg. arg \<in> set UNSAFE_FIND_OPTIONS) command
          else if lookup = lit ''rg'' then is_safe_ripgrep env command
          else if lookup = lit ''git'' then is_safe_git_command env command
          else if lookup = lit ''sed'' then
            length command \<le> 4 \<and> length command \<ge> 3 \<and> command ! 1 = lit ''-n''
            \<and> is_valid_sed_n_arg env (command ! 2)
          else False)"

section \<open>PowerShell scripts\<close>

definition powershell_punctuation :: "int \<Rightarrow> bool" where
  "powershell_punctuation c \<longleftrightarrow> c \<in> {124, 59, 38, 40, 41, 123, 125, 91, 93, 44}"

text \<open>The scan for variables; a backquote hides the next character, two single quotes stand for one.\<close>

fun scan_dynamic :: "shell_env \<Rightarrow> bool \<Rightarrow> bool \<Rightarrow> pystr \<Rightarrow> bool" where
  "scan_dynamic env in_single in_double [] = False"
| "scan_dynamic env in_single in_double (c # cs) =
     (if c = 96 then scan_dynamic env in_single in_double (drop 1 cs)
      else if c = 39 \<and> \<not> in_double then
        (if in_single \<and> cs \<noteq> [] \<and> hd cs = 39 then scan_dynamic env in_single in_double (drop 1 cs)
         else scan_dynamic env (\<not> in_single) in_double cs)
      else if c = 34 \<and> \<not> in_single then scan_dynamic env in_single (\<not> in_double) cs
      else if c = 36 \<and> \<not> in_single \<and> cs \<noteq> [] \<and> (hd cs = 123 \<or> hd cs = 95 \<or> se_isalpha env (hd cs)) then True
      else scan_dynamic env in_single in_double cs)"

definition powershell_script_has_unsupported_construct :: "shell_env \<Rightarrow> pystr \<Rightarrow> bool" where
  "powershell_script_has_unsupported_construct env script \<longleftrightarrow>
     list_ex (contains_str script) (lits [''>'', ''<'', ''$('', ''@('', ''--%''])
     \<or> scan_dynamic env False False script"

definition powershell_split :: "pystr \<Rightarrow> pystr list option" where
  "powershell_split script =
     (case shlex_tokens powershell_punctuation script of Inl _ \<Rightarrow> None | Inr ts \<Rightarrow> Some ts)"

text \<open>\<open>None\<close> stands for the early return of the empty list.\<close>

fun powershell_segments :: "pystr list \<Rightarrow> pystr list \<Rightarrow> pystr list list option" where
  "powershell_segments current [] = Some (if current \<noteq> [] then [current] else [])"
| "powershell_segments current (t # ts) =
     (if t \<in> {lit ''|'', lit '';''} then
        map_option (\<lambda>rest. if current \<noteq> [] then current # rest else rest) (powershell_segments [] ts)
      else if t \<in> set (lits [''&'', ''&&'', ''||'', ''>'', ''>>'', ''2>'', ''2>>'']) then None
      else if t \<in> set (lits [''('', '')'', ''{'', ''}'', ''['', '']'', '','']) then powershell_segments current ts
      else powershell_segments (current @ [t]) ts)"

definition split_powershell_commands :: "pystr list \<Rightarrow> pystr list list" where
  "split_powershell_commands tokens =
     (case powershell_segments [] tokens of None \<Rightarrow> [] | Some commands \<Rightarrow> commands)"

definition parse_powershell_script :: "shell_env \<Rightarrow> pystr \<Rightarrow> pystr list list option" where
  "parse_powershell_script env script =
     (if powershell_script_has_unsupported_construct env script then None
      else case powershell_split script of None \<Rightarrow> None
        | Some tokens \<Rightarrow>
            let commands = split_powershell_commands tokens in if commands = [] then None else Some commands)"

definition quote_argument :: "pystr \<Rightarrow> pystr" where
  "quote_argument arg =
     (if arg = [] then [39, 39]
      else if list_all (\<lambda>c. \<not> is_space c) arg then arg
      else [39] @ concat (map (\<lambda>c. if c = 39 then [39, 39] else [c]) arg) @ [39])"

definition join_arguments_as_script :: "pystr list \<Rightarrow> pystr" where
  "join_arguments_as_script args =
     (case args of [] \<Rightarrow> [] | a # rest \<Rightarrow> strip (join_with [32] (a # map quote_argument rest)))"

definition after_colon :: "pystr \<Rightarrow> pystr" where
  "after_colon arg = drop 1 (dropWhile (\<lambda>c. c \<noteq> 58) arg)"

fun parse_powershell_invocation :: "shell_env \<Rightarrow> pystr list \<Rightarrow> pystr list list option" where
  "parse_powershell_invocation env [] = None"
| "parse_powershell_invocation env (arg # args) =
     (let lower = se_lower env arg in
      if lower \<in> set (lits [''-command'', ''/command'', ''-c'']) then
        (case args of [script] \<Rightarrow> parse_powershell_script env script | _ \<Rightarrow> None)
      else if starts_with lower (lit ''-command:'') \<or> starts_with lower (lit ''/command:'') then
        (if args \<noteq> [] \<or> 58 \<notin> set arg then None else parse_powershell_script env (after_colon arg))
      else if lower \<in> set (lits [''-nologo'', ''-noprofile'', ''-noninteractive'', ''-mta'', ''-sta'']) then
        parse_powershell_invocation env args
      else if lower \<in> set (lits [''-encodedcommand'', ''-ec'', ''-file'', ''/file'', ''-windowstyle'',
        ''-executionpolicy'', ''-workingdirectory'']) then None
      else if starts_with lower (lit ''-'') then None
      else parse_powershell_script env (join_arguments_as_script (arg # args)))"

definition POWERSHELL_NAMES :: "pystr list" where
  "POWERSHELL_NAMES = lits [''powershell'', ''powershell.exe'', ''pwsh'', ''pwsh.exe'']"

text \<open>\<open>Path(exe).name\<close> is a Windows path on Windows.\<close>

definition host_path_name :: "shell_env \<Rightarrow> pystr \<Rightarrow> pystr" where
  "host_path_name env exe = (if se_nt env then windows_name exe else path_name (path_of exe))"

definition try_parse_powershell_command_sequence :: "shell_env \<Rightarrow> pystr list \<Rightarrow> pystr list list option" where
  "try_parse_powershell_command_sequence env command =
     (case command of [] \<Rightarrow> None
      | exe # rest \<Rightarrow>
          if se_lower env (host_path_name env exe) \<notin> set POWERSHELL_NAMES then None
          else parse_powershell_invocation env rest)"

definition side_effect_commands :: "pystr list" where
  "side_effect_commands = lits [''set-content'', ''add-content'', ''out-file'', ''new-item'', ''remove-item'',
     ''move-item'', ''copy-item'', ''rename-item'', ''start-process'', ''stop-process'']"

definition SAFE_POWERSHELL_COMMANDS :: "pystr list" where
  "SAFE_POWERSHELL_COMMANDS = lits
     [''echo'', ''write-output'', ''write-host'', ''dir'', ''ls'', ''get-childitem'', ''gci'', ''cat'', ''type'',
      ''gc'', ''get-content'', ''select-string'', ''sls'', ''findstr'', ''measure-object'', ''measure'',
      ''get-location'', ''gl'', ''pwd'', ''test-path'', ''tp'', ''resolve-path'', ''rvpa'', ''select-object'',
      ''select'', ''get-item'']"

definition powershell_inner :: "shell_env \<Rightarrow> pystr \<Rightarrow> pystr" where
  "powershell_inner env word =
     se_lower env (dropWhile (\<lambda>c. c = 45) (rstrip_chars {40, 41} (dropWhile (\<lambda>c. c \<in> {40, 41}) word)))"

definition is_safe_powershell_words_any_platform :: "shell_env \<Rightarrow> pystr list \<Rightarrow> bool" where
  "is_safe_powershell_words_any_platform env words =
     (if words = [] then False
      else if list_ex (\<lambda>w. powershell_inner env w \<in> set side_effect_commands) words then False
      else let command = powershell_inner env (hd words) in
        if command \<in> set SAFE_POWERSHELL_COMMANDS then True
        else if command = lit ''git'' then is_safe_git_command env words
        else if command = lit ''rg'' then is_safe_ripgrep env words
        else False)"

definition is_safe_powershell_words :: "shell_env \<Rightarrow> pystr list \<Rightarrow> bool" where
  "is_safe_powershell_words env command =
     (if \<not> se_nt env then False else is_safe_powershell_words_any_platform env command)"

definition is_safe_command_windows :: "shell_env \<Rightarrow> pystr list \<Rightarrow> bool" where
  "is_safe_command_windows env command =
     (case try_parse_powershell_command_sequence env command of
        None \<Rightarrow> False | Some commands \<Rightarrow> list_all (is_safe_powershell_words env) commands)"

section \<open>Known to be safe\<close>

definition normalize_zsh :: "pystr list \<Rightarrow> pystr list" where
  "normalize_zsh command = map (\<lambda>item. if item = lit ''zsh'' then lit ''bash'' else item) command"

definition is_known_safe_command :: "shell_env \<Rightarrow> pystr list \<Rightarrow> bool" where
  "is_known_safe_command env command =
     (let normalized = normalize_zsh command in
      if is_safe_command_windows env normalized then True
      else if is_safe_to_call_with_exec env normalized then True
      else case parse_shell_lc_plain_commands normalized of
        None \<Rightarrow> False
      | Some plain_commands \<Rightarrow> plain_commands \<noteq> [] \<and> list_all (is_safe_to_call_with_exec env) plain_commands)"

section \<open>Might be dangerous\<close>

fun is_dangerous_to_call_with_exec :: "pystr list \<Rightarrow> bool" where
  "is_dangerous_to_call_with_exec [] = False"
| "is_dangerous_to_call_with_exec (c # args) =
     (if c = lit ''rm'' then args \<noteq> [] \<and> hd args \<in> {lit ''-f'', lit ''-rf''}
      else if c = lit ''sudo'' then is_dangerous_to_call_with_exec args
      else False)"

text \<open>\<open>any(f(x) for x in xs)\<close> where \<open>f\<close> may raise.\<close>

fun anyE :: "('a \<Rightarrow> ('e, bool) result) \<Rightarrow> 'a list \<Rightarrow> ('e, bool) result" where
  "anyE f [] = Inr False"
| "anyE f (x # xs) = bindE (f x) (\<lambda>b. if b then Inr True else anyE f xs)"

definition orE :: "('e, bool) result \<Rightarrow> ('e, bool) result \<Rightarrow> ('e, bool) result" where
  "orE a b = bindE a (\<lambda>x. if x then Inr True else b)"

lemma orE_simps [simp]: "orE (Inr True) b = Inr True" "orE (Inr False) b = b"
  by (simp_all add: orE_def)

definition url_left :: "int \<Rightarrow> bool" where
  "url_left c \<longleftrightarrow> c \<in> {34, 39, 40} \<or> is_space c"

definition url_right :: "int \<Rightarrow> bool" where
  "url_right c \<longleftrightarrow> c \<in> {59, 41, 34, 39} \<or> is_space c"

definition looks_like_url :: "shell_env \<Rightarrow> pystr \<Rightarrow> (pystr, bool) result" where
  "looks_like_url env token =
     (let start = (case (str_find token (lit ''https://''), str_find token (lit ''http://'')) of
                     (None, None) \<Rightarrow> 0 | (Some i, None) \<Rightarrow> i | (None, Some j) \<Rightarrow> j | (Some i, Some j) \<Rightarrow> min i j);
          candidate = rev (dropWhile url_right (rev (dropWhile url_left (drop start token))))
      in bindE (se_urlparse env candidate) (\<lambda>(scheme, netloc).
           Inr (scheme \<in> {lit ''http'', lit ''https''} \<and> netloc \<noteq> [])))"

definition args_have_url :: "shell_env \<Rightarrow> pystr list \<Rightarrow> (pystr, bool) result" where
  "args_have_url env args = anyE (looks_like_url env) args"

definition executable_basename :: "shell_env \<Rightarrow> pystr \<Rightarrow> pystr option" where
  "executable_basename env exe = map_option (se_lower env) (basename exe)"

definition browser_names :: "pystr list" where
  "browser_names = lits [''chrome'', ''chrome.exe'', ''msedge'', ''msedge.exe'', ''firefox'', ''firefox.exe'',
     ''iexplore'', ''iexplore.exe'']"

text \<open>The text of a PowerShell token cut at its segment separators, and the segments of a token list.\<close>

definition segment_separator :: "int \<Rightarrow> bool" where
  "segment_separator c \<longleftrightarrow> c \<in> {59, 124, 38, 10, 13, 9}"

definition push_piece :: "pystr \<Rightarrow> pystr list list \<Rightarrow> pystr list list" where
  "push_piece current segments = (if strip current \<noteq> [] then append_last (strip current) segments else segments)"

fun segment_chars :: "pystr \<Rightarrow> pystr list list \<Rightarrow> pystr \<Rightarrow> pystr list list" where
  "segment_chars current segments [] = push_piece current segments"
| "segment_chars current segments (c # cs) =
     (if segment_separator c then
        let segments = push_piece current segments
        in segment_chars [] (if last segments \<noteq> [] then segments @ [[]] else segments) cs
      else segment_chars (current @ [c]) segments cs)"

definition soft_separator :: "int \<Rightarrow> bool" where
  "soft_separator c \<longleftrightarrow> c \<in> {123, 125, 40, 41, 91, 93, 44, 59}"

fun split_soft :: "pystr \<Rightarrow> pystr list" where
  "split_soft [] = [[]]"
| "split_soft (c # cs) =
     (if soft_separator c then [] # split_soft cs
      else case split_soft cs of [] \<Rightarrow> [[c]] | p # ps \<Rightarrow> (c # p) # ps)"

definition delete_cmdlets :: "pystr list" where
  "delete_cmdlets = lits [''remove-item'', ''ri'', ''rm'', ''del'', ''erase'', ''rd'', ''rmdir'']"

definition has_force_delete_cmdlet :: "shell_env \<Rightarrow> pystr list \<Rightarrow> bool" where
  "has_force_delete_cmdlet env tokens =
     list_ex (\<lambda>segment.
       let atoms = concat (map (\<lambda>t. map strip (filter (\<lambda>p. strip p \<noteq> []) (split_soft t))) segment) in
       list_ex (\<lambda>a. se_lower env a \<in> set delete_cmdlets) atoms
       \<and> list_ex (\<lambda>a. se_lower env a = lit ''-force'' \<or> starts_with (se_lower env a) (lit ''-force:'')) atoms)
     (fold (\<lambda>t segments. segment_chars [] segments t) tokens [[]])"

definition strip_quotes :: "pystr \<Rightarrow> pystr" where
  "strip_quotes s = rstrip_chars {39, 34} (dropWhile (\<lambda>c. c \<in> {39, 34}) s)"

definition is_dangerous_powershell_words :: "shell_env \<Rightarrow> pystr list \<Rightarrow> (pystr, bool) result" where
  "is_dangerous_powershell_words env words =
     (let tokens_lc = map (\<lambda>t. se_lower env (strip_quotes t)) words in
      bindE (args_have_url env words) (\<lambda>has_url.
        let starts = list_ex (\<lambda>t. t \<in> set (lits [''start-process'', ''start'', ''saps'', ''invoke-item'', ''ii''])
              \<or> contains_str t (lit ''start-process'') \<or> contains_str t (lit ''invoke-item'')) tokens_lc;
            shell_execute = list_ex (\<lambda>t. contains_str t (lit ''shellexecute'')
              \<or> contains_str t (lit ''shell.application'')) tokens_lc;
            launches = tokens_lc \<noteq> [] \<and>
              (hd tokens_lc = lit ''rundll32''
                 \<and> list_ex (\<lambda>t. contains_str t (lit ''url.dll,fileprotocolhandler'')) tokens_lc
               \<or> hd tokens_lc = lit ''mshta'' \<or> hd tokens_lc \<in> set browser_names
               \<or> hd tokens_lc \<in> {lit ''explorer'', lit ''explorer.exe''})
        in Inr (has_url \<and> (starts \<or> shell_execute \<or> launches) \<or> has_force_delete_cmdlet env tokens_lc)))"

definition danger_split :: "pystr \<Rightarrow> pystr list" where
  "danger_split script =
     (case shlex_tokens powershell_punctuation script of Inl _ \<Rightarrow> [script] | Inr ts \<Rightarrow> ts)"

fun parse_powershell_invocation_for_danger :: "shell_env \<Rightarrow> pystr list \<Rightarrow> pystr list option" where
  "parse_powershell_invocation_for_danger env [] = None"
| "parse_powershell_invocation_for_danger env (arg # args) =
     (let lower = se_lower env arg in
      if lower \<in> set (lits [''-command'', ''/command'', ''-c'']) then
        (case args of [script] \<Rightarrow> Some (danger_split script) | _ \<Rightarrow> None)
      else if starts_with lower (lit ''-command:'') \<or> starts_with lower (lit ''/command:'') then
        (if args \<noteq> [] \<or> 58 \<notin> set arg then None else Some (danger_split (after_colon arg)))
      else if starts_with lower (lit ''-'') then parse_powershell_invocation_for_danger env args
      else Some (arg # args))"

definition is_dangerous_powershell :: "shell_env \<Rightarrow> pystr list \<Rightarrow> (pystr, bool) result" where
  "is_dangerous_powershell env command =
     (case command of [] \<Rightarrow> Inr False
      | exe # args \<Rightarrow>
          if executable_basename env exe \<notin> Some ` set POWERSHELL_NAMES then Inr False
          else case parse_powershell_invocation_for_danger env args of
            None \<Rightarrow> Inr False | Some parsed \<Rightarrow> is_dangerous_powershell_words env parsed)"

fun split_embedded :: "pystr \<Rightarrow> pystr \<Rightarrow> pystr list" where
  "split_embedded current [] = (if current \<noteq> [] then [current] else [])"
| "split_embedded current (c # cs) =
     (if c = 38 \<or> c = 124 then
        (if current \<noteq> [] then [current] else []) @
        (if cs \<noteq> [] \<and> hd cs = c then [c, c] # split_embedded [] (drop 1 cs) else [c] # split_embedded [] cs)
      else split_embedded (current @ [c]) cs)"

definition split_embedded_cmd_operators :: "pystr \<Rightarrow> pystr list" where
  "split_embedded_cmd_operators token =
     map strip (filter (\<lambda>p. strip p \<noteq> []) (split_embedded [] token))"

definition cmd_flag :: "shell_env \<Rightarrow> string \<Rightarrow> pystr list \<Rightarrow> bool" where
  "cmd_flag env flag args = list_ex (\<lambda>a. se_lower env a = lit flag) args"

definition cmd_segment_is_dangerous :: "shell_env \<Rightarrow> pystr list \<Rightarrow> (pystr, bool) result" where
  "cmd_segment_is_dangerous env segment =
     (if segment = [] then Inr False
      else let command = se_lower env (hd segment) in
      orE (if command = lit ''start'' then args_have_url env segment else Inr False)
        (Inr (command \<in> {lit ''del'', lit ''erase''} \<and> cmd_flag env ''/f'' segment
           \<or> command \<in> {lit ''rd'', lit ''rmdir''} \<and> cmd_flag env ''/s'' segment \<and> cmd_flag env ''/q'' segment)))"

fun cmd_remaining :: "shell_env \<Rightarrow> pystr list \<Rightarrow> pystr list option" where
  "cmd_remaining env [] = Some []"
| "cmd_remaining env (arg # args) =
     (let lower = se_lower env arg in
      if lower \<in> set (lits [''/c'', ''/r'', ''-c'']) then Some args
      else if starts_with lower (lit ''/'') then cmd_remaining env args
      else None)"

fun cmd_segments :: "pystr list \<Rightarrow> pystr list \<Rightarrow> pystr list list" where
  "cmd_segments segment [] = (if segment \<noteq> [] then [segment] else [])"
| "cmd_segments segment (t # ts) =
     (if t \<in> set (lits [''&'', ''&&'', ''|'', ''||'']) then
        (if segment \<noteq> [] then segment # cmd_segments [] ts else cmd_segments segment ts)
      else cmd_segments (segment @ [t]) ts)"

definition is_dangerous_cmd :: "shell_env \<Rightarrow> pystr list \<Rightarrow> (pystr, bool) result" where
  "is_dangerous_cmd env command =
     (case command of [] \<Rightarrow> Inr False
      | exe # args \<Rightarrow>
          if executable_basename env exe \<notin> {Some (lit ''cmd''), Some (lit ''cmd.exe'')} then Inr False
          else case cmd_remaining env args of None \<Rightarrow> Inr False
            | Some [] \<Rightarrow> Inr False
            | Some remaining \<Rightarrow>
                let cmd_tokens = (case remaining of
                        [one] \<Rightarrow> (case shlex_split one of Inl _ \<Rightarrow> [one] | Inr ts \<Rightarrow> ts)
                      | _ \<Rightarrow> remaining);
                    tokens = concat (map split_embedded_cmd_operators cmd_tokens)
                in anyE (cmd_segment_is_dangerous env) (cmd_segments [] tokens))"

definition is_direct_gui_launch :: "shell_env \<Rightarrow> pystr list \<Rightarrow> (pystr, bool) result" where
  "is_direct_gui_launch env command =
     (case command of [] \<Rightarrow> Inr False
      | exe # args \<Rightarrow>
          let base = executable_basename env exe in
          orE (if base \<in> Some ` set (lits [''explorer'', ''explorer.exe'', ''mshta'', ''mshta.exe''])
               then args_have_url env args else Inr False)
         (orE (if base \<in> Some ` set (lits [''rundll32'', ''rundll32.exe''])
                 \<and> list_ex (\<lambda>t. contains_str (se_lower env t) (lit ''url.dll,fileprotocolhandler'')) args
               then args_have_url env args else Inr False)
              (if base \<in> Some ` set browser_names then args_have_url env args else Inr False)))"

definition is_dangerous_command_windows :: "shell_env \<Rightarrow> pystr list \<Rightarrow> (pystr, bool) result" where
  "is_dangerous_command_windows env command =
     orE (is_dangerous_powershell env command)
       (orE (is_dangerous_cmd env command) (is_direct_gui_launch env command))"

definition command_might_be_dangerous :: "shell_env \<Rightarrow> pystr list \<Rightarrow> (pystr, bool) result" where
  "command_might_be_dangerous env command =
     orE (is_dangerous_command_windows env command)
       (Inr (is_dangerous_to_call_with_exec command
         \<or> (case parse_shell_lc_plain_commands command of None \<Rightarrow> False
            | Some plain_commands \<Rightarrow> list_ex is_dangerous_to_call_with_exec plain_commands)))"

section \<open>What a safe git command looks like\<close>

lemma git_value_options_unsafe:
  "is_git_global_option_with_value arg \<or> is_git_global_option_with_inline_value arg \<Longrightarrow>
     git_matches_option_pattern arg UNSAFE_GIT_GLOBAL_OPTIONS"
  unfolding git_matches_option_pattern_def UNSAFE_GIT_GLOBAL_OPTIONS_def
    is_git_global_option_with_value_def is_git_global_option_with_inline_value_def lits_def
  by (simp del: lit.simps add: numeral_2_eq_2) blast

text \<open>An argument the scan passes over without looking at the next one.\<close>

definition harmless_global :: "pystr \<Rightarrow> bool" where
  "harmless_global arg \<longleftrightarrow>
     starts_with arg (lit ''-'') \<and> \<not> git_matches_option_pattern arg UNSAFE_GIT_GLOBAL_OPTIONS"

lemma git_scan_finds:
  "find_git_subcommand_from i skip subs args = Some (k, sub) \<Longrightarrow>
     \<exists>pre post. args = pre @ sub # post \<and> k = i + length pre \<and> sub \<in> set subs
       \<and> (\<not> skip \<and> \<not> git_has_unsafe_global_option pre \<longrightarrow> list_all harmless_global pre)"
proof (induction i skip subs args rule: find_git_subcommand_from.induct)
  case (2 i skip subs arg args)
  let ?cont = "\<lambda>skip'. find_git_subcommand_from (i + 1) skip' subs args = Some (k, sub)"
  have step: ?case if "\<exists>pre post. args = pre @ sub # post \<and> k = i + 1 + length pre \<and> sub \<in> set subs
       \<and> (\<not> skip' \<and> \<not> git_has_unsafe_global_option pre \<longrightarrow> list_all harmless_global pre)"
    "\<not> skip \<Longrightarrow> \<not> git_matches_option_pattern arg UNSAFE_GIT_GLOBAL_OPTIONS \<Longrightarrow>
       \<not> skip' \<and> starts_with arg (lit ''-'')" for skip'
  proof -
    from that(1) obtain pre post where p: "args = pre @ sub # post" "k = i + 1 + length pre" "sub \<in> set subs"
      "\<not> skip' \<and> \<not> git_has_unsafe_global_option pre \<longrightarrow> list_all harmless_global pre" by blast
    with that(2) show ?thesis
      by - (rule exI [of _ "arg # pre"], rule exI [of _ post],
        auto simp: git_has_unsafe_global_option_def harmless_global_def list_all_iff simp del: lit.simps)
  qed
  show ?case
  proof (cases "skip \<or> is_git_global_option_with_inline_value arg \<or> is_git_global_option_with_value arg
      \<or> arg = lit ''--'' \<or> starts_with arg (lit ''-'')")
    case False
    with "2.prems" show ?thesis
      by - (rule exI [of _ "[]"], rule exI [of _ args],
        auto simp: git_has_unsafe_global_option_def simp del: lit.simps split: if_splits)
  next
    case True
    then consider "skip" | "\<not> skip" "is_git_global_option_with_inline_value arg"
      | "\<not> skip" "\<not> is_git_global_option_with_inline_value arg" "is_git_global_option_with_value arg"
      | "\<not> skip" "\<not> is_git_global_option_with_inline_value arg" "\<not> is_git_global_option_with_value arg"
        "arg = lit ''--'' \<or> starts_with arg (lit ''-'')"
      by blast
    then show ?thesis
    proof cases
      case 1
      with "2.IH"(1) "2.prems" show ?thesis by (intro step [of False]) auto
    next
      case 2
      with "2.IH"(2) "2.prems" git_value_options_unsafe [of arg] show ?thesis
        by (intro step [of False]) auto
    next
      case 3
      with "2.IH"(3) "2.prems" git_value_options_unsafe [of arg] show ?thesis
        by (intro step [of True]) auto
    next
      case 4
      then have "starts_with arg (lit ''-'')" by auto
      with 4 "2.IH"(4) "2.prems" show ?thesis by (intro step [of False]) (auto simp del: lit.simps)
    qed
  qed
qed simp

lemma git_scan_passes:
  "list_all harmless_global pre \<Longrightarrow> sub \<in> set subs \<Longrightarrow> \<not> starts_with sub (lit ''-'') \<Longrightarrow>
     find_git_subcommand_from i False subs (pre @ sub # post) = Some (i + length pre, sub)"
proof (induction pre arbitrary: i)
  case Nil
  then have "\<not> is_git_global_option_with_inline_value sub" "\<not> is_git_global_option_with_value sub"
    by (auto simp: is_git_global_option_with_value_def is_git_global_option_with_inline_value_def lits_def starts_with_iff)
  with Nil show ?case by (auto simp del: lit.simps) auto
next
  case (Cons a pre)
  then have "\<not> is_git_global_option_with_inline_value a" "\<not> is_git_global_option_with_value a"
    "starts_with a (lit ''-'')"
    using git_value_options_unsafe [of a] by (auto simp: harmless_global_def simp del: lit.simps)
  with Cons show ?case by (simp del: lit.simps)
qed

definition branch_flag :: "pystr \<Rightarrow> bool" where
  "branch_flag arg \<longleftrightarrow> arg \<in> set branch_flags \<or> starts_with arg (lit ''--format='')"

lemma branch_loop_iff: "branch_loop saw args \<longleftrightarrow> list_all branch_flag args \<and> (saw \<or> args \<noteq> [])"
  by (induction saw args rule: branch_loop.induct) (auto simp: branch_flag_def simp del: lit.simps)

definition read_only_arg :: "pystr \<Rightarrow> bool" where
  "read_only_arg arg \<longleftrightarrow> \<not> git_matches_option_pattern arg UNSAFE_GIT_SUBCOMMAND_OPTIONS"

lemma git_safe_iff_lemma:
  assumes "executable_name_lookup_key env git = Some (lit ''git'')"
  shows "is_safe_git_command env (git # args) \<longleftrightarrow>
    (\<exists>pre sub post. args = pre @ sub # post \<and> list_all harmless_global pre
       \<and> sub \<in> set (lits [''status'', ''log'', ''diff'', ''show'', ''branch''])
       \<and> list_all read_only_arg post \<and> (sub = lit ''branch'' \<longrightarrow> list_all branch_flag post))"
    (is "_ \<longleftrightarrow> ?rhs")
proof -
  let ?subs = "lits [''status'', ''log'', ''diff'', ''show'', ''branch'']"
  have ro: "git_subcommand_args_are_read_only post \<longleftrightarrow> list_all read_only_arg post" for post
    by (auto simp: git_subcommand_args_are_read_only_def read_only_arg_def list_ex_iff list_all_iff)
  have br: "git_branch_is_read_only post \<longleftrightarrow> list_all branch_flag post" for post
    by (simp add: git_branch_is_read_only_def branch_loop_iff)
  have safe: "is_safe_git_command env (git # args) \<longleftrightarrow>
      (case find_git_subcommand_from 1 False ?subs args of None \<Rightarrow> False
       | Some (i, sub) \<Rightarrow> \<not> git_has_unsafe_global_option (take (i - 1) args)
           \<and> list_all read_only_arg (drop i args)
           \<and> (sub = lit ''branch'' \<longrightarrow> list_all branch_flag (drop i args)) \<and> sub \<in> set ?subs)"
  proof (cases "find_git_subcommand_from 1 False ?subs args")
    case (Some r)
    then obtain i sub where r: "r = (i, sub)" "i \<ge> 1" by (cases r) (auto dest: git_scan_finds)
    then show ?thesis
      using assms Some
      by (cases i) (auto simp: is_safe_git_command_def find_git_subcommand_def Let_def ro br lits_def lit_inject simp del: lit.simps)
  qed (use assms in \<open>simp add: is_safe_git_command_def find_git_subcommand_def del: lit.simps\<close>)
  have sub: "\<not> starts_with sub (lit ''-'')" if "sub \<in> set ?subs" for sub
    using that by (auto simp: lits_def)
  show ?thesis
  proof
    assume "is_safe_git_command env (git # args)"
    then obtain i sub where f: "find_git_subcommand_from 1 False ?subs args = Some (i, sub)"
      "\<not> git_has_unsafe_global_option (take (i - 1) args)" "list_all read_only_arg (drop i args)"
      "sub = lit ''branch'' \<longrightarrow> list_all branch_flag (drop i args)" "sub \<in> set ?subs"
      unfolding safe by (auto split: option.splits)
    with git_scan_finds [OF f(1)] show ?rhs by fastforce
  next
    assume ?rhs
    then obtain pre s post where p: "args = pre @ s # post" "list_all harmless_global pre"
      "s \<in> set ?subs" "list_all read_only_arg post" "s = lit ''branch'' \<longrightarrow> list_all branch_flag post"
      by blast
    have "\<not> git_has_unsafe_global_option pre"
      using p(2) by (auto simp: git_has_unsafe_global_option_def harmless_global_def list_all_iff list_ex_iff)
    with git_scan_passes [OF p(2,3) sub [OF p(3)], of 1 post] p show "is_safe_git_command env (git # args)"
      unfolding safe by simp
  qed
qed

section \<open>No safe command is dangerous\<close>

definition SAFE_LOOKUPS :: "pystr list" where
  "SAFE_LOOKUPS = SAFE_EXEC_COMMANDS @ lits [''numfmt'', ''tac'', ''base64'', ''find'', ''rg'', ''git'', ''sed'']"

text \<open>\<open>str.lower\<close> leaves lower-case letters, digits and dots as they are.\<close>

definition lower_keeps :: "shell_env \<Rightarrow> bool" where
  "lower_keeps env \<longleftrightarrow>
     (\<forall>w. list_all (\<lambda>c. 97 \<le> c \<and> c \<le> 122 \<or> 48 \<le> c \<and> c \<le> 57 \<or> c = 46) w \<longrightarrow> se_lower env w = w)"

lemma safe_lookup_names:
  "set SAFE_EXEC_COMMANDS \<subseteq> set SAFE_LOOKUPS" "lit ''numfmt'' \<in> set SAFE_LOOKUPS" "lit ''tac'' \<in> set SAFE_LOOKUPS"
  "lit ''base64'' \<in> set SAFE_LOOKUPS" "lit ''find'' \<in> set SAFE_LOOKUPS" "lit ''rg'' \<in> set SAFE_LOOKUPS"
  "lit ''git'' \<in> set SAFE_LOOKUPS" "lit ''sed'' \<in> set SAFE_LOOKUPS"
  by (auto simp: SAFE_LOOKUPS_def lits_def simp del: lit.simps)

lemma safe_lookup:
  assumes "is_safe_to_call_with_exec env command"
  obtains c args w where "command = c # args" "executable_name_lookup_key env c = Some w" "w \<in> set SAFE_LOOKUPS"
proof -
  from assms obtain c args where c: "command = c # args"
    by (cases command) (simp_all add: is_safe_to_call_with_exec_def)
  from assms obtain w where w: "executable_name_lookup_key env c = Some w"
    by (cases "executable_name_lookup_key env c") (simp_all add: is_safe_to_call_with_exec_def c)
  have "w \<in> set SAFE_LOOKUPS"
  proof (rule ccontr)
    assume "w \<notin> set SAFE_LOOKUPS"
    then have "w \<notin> set SAFE_EXEC_COMMANDS" "w \<noteq> lit ''numfmt''" "w \<noteq> lit ''tac''" "w \<noteq> lit ''base64''"
      "w \<noteq> lit ''find''" "w \<noteq> lit ''rg''" "w \<noteq> lit ''git''" "w \<noteq> lit ''sed''"
      using safe_lookup_names by blast+
    then have "\<not> is_safe_to_call_with_exec env command"
      by (simp add: is_safe_to_call_with_exec_def c w del: lit.simps)
    with assms show False by simp
  qed
  with c w that show thesis by blast
qed

lemma lookup_posix:
  "\<not> se_nt env \<Longrightarrow> executable_name_lookup_key env c = (if c = [] then None else basename c)"
  by (auto simp: executable_name_lookup_key_def split: option.splits)

lemma basename_rm: "basename (lit ''rm'') = Some (lit ''rm'')" by code_simp

lemma basename_sudo: "basename (lit ''sudo'') = Some (lit ''sudo'')" by code_simp

text \<open>The names the checks for dangerous commands look for.\<close>

definition DANGER_NAMES :: "pystr list" where
  "DANGER_NAMES = POWERSHELL_NAMES @ browser_names @ lits [''cmd'', ''cmd.exe'', ''explorer'', ''explorer.exe'',
     ''mshta'', ''mshta.exe'', ''rundll32'', ''rundll32.exe'', ''rm'', ''sudo'']"

lemma safe_names_disjoint: "list_all (\<lambda>w. w \<notin> set DANGER_NAMES) SAFE_LOOKUPS"
  by code_simp

lemma safe_names_lower:
  "list_all (list_all (\<lambda>c. 97 \<le> c \<and> c \<le> 122 \<or> 48 \<le> c \<and> c \<le> 57 \<or> c = 46)) SAFE_LOOKUPS"
  by code_simp

lemma windows_harmless:
  assumes "\<And>b. executable_basename env c = Some b \<Longrightarrow> b \<notin> set DANGER_NAMES"
  shows "is_dangerous_command_windows env (c # args) = Inr False"
proof -
  have "executable_basename env c \<notin> Some ` set DANGER_NAMES" using assms by auto
  then show ?thesis
    by (auto simp: is_dangerous_command_windows_def is_dangerous_powershell_def is_dangerous_cmd_def
        is_direct_gui_launch_def DANGER_NAMES_def lits_def Let_def image_Un simp del: lit.simps)
qed

lemma safe_not_dangerous_lemma:
  assumes "is_safe_to_call_with_exec env command" "\<not> se_nt env" "lower_keeps env"
  shows "is_dangerous_command_windows env command = Inr False" "\<not> is_dangerous_to_call_with_exec command"
proof -
  obtain c args w where c: "command = c # args" "basename c = Some w" "w \<in> set SAFE_LOOKUPS"
    using safe_lookup [OF assms(1)] lookup_posix [OF assms(2)] by (metis option.distinct(1))
  have w: "w \<notin> set DANGER_NAMES" using safe_names_disjoint c(3) by (auto simp: list_all_iff)
  have "se_lower env w = w"
    using assms(3) safe_names_lower c(3) by (auto simp: lower_keeps_def list_all_iff)
  with w c(2) show "is_dangerous_command_windows env command = Inr False"
    unfolding c(1) by (intro windows_harmless) (simp add: executable_basename_def)
  have "lit ''rm'' \<in> set DANGER_NAMES" "lit ''sudo'' \<in> set DANGER_NAMES"
    by (simp_all add: DANGER_NAMES_def lits_def del: lit.simps)
  then show "\<not> is_dangerous_to_call_with_exec command"
    using w c(2) basename_rm basename_sudo by (auto simp: c(1) simp del: lit.simps)
qed

section \<open>Printed command lines\<close>

lemma parse_powershell_script_ne: "parse_powershell_script env s = Some cs \<Longrightarrow> cs \<noteq> []"
  by (auto simp: parse_powershell_script_def Let_def split: if_splits option.splits)

lemma parse_powershell_invocation_ne: "parse_powershell_invocation env args = Some cs \<Longrightarrow> cs \<noteq> []"
  by (induction env args rule: parse_powershell_invocation.induct)
    (auto simp: Let_def simp del: lit.simps split: if_splits list.splits dest: parse_powershell_script_ne)

text \<open>Only on Windows is a PowerShell command known to be safe.\<close>

lemma windows_safe_posix: "\<not> se_nt env \<Longrightarrow> \<not> is_safe_command_windows env command"
proof
  assume env: "\<not> se_nt env" "is_safe_command_windows env command"
  then obtain cs where "try_parse_powershell_command_sequence env command = Some cs"
    "list_all (is_safe_powershell_words env) cs"
    by (auto simp: is_safe_command_windows_def split: option.splits)
  moreover from this have "cs \<noteq> []"
    by (auto simp: try_parse_powershell_command_sequence_def split: list.splits if_splits
        dest: parse_powershell_invocation_ne)
  ultimately show False using env(1) by (cases cs) (auto simp: is_safe_powershell_words_def)
qed

definition SHELLS :: "pystr list" where
  "SHELLS = lits [''bash'', ''sh'', ''zsh'']"

lemma shells_facts:
  "list_all (\<lambda>s. basename s = Some s \<and> s \<noteq> [] \<and> s \<notin> set SAFE_LOOKUPS \<and> s \<notin> set DANGER_NAMES
     \<and> list_all (\<lambda>c. 97 \<le> c \<and> c \<le> 122 \<or> 48 \<le> c \<and> c \<le> 57 \<or> c = 46) s
     \<and> detect_shell_type s \<in> set [Some ZshShell, Some BashShell, Some ShShell]) SHELLS"
  by code_simp

lemma extract_shell:
  "s \<in> set SHELLS \<Longrightarrow> flag \<in> {lit ''-lc'', lit ''-c''} \<Longrightarrow>
     extract_bash_command [s, flag, script] = Some (s, script)"
  using shells_facts by (auto simp: extract_bash_command_def list_all_iff simp del: lit.simps)

lemma shell_line_dangerous:
  assumes "s \<in> set SHELLS" "flag \<in> {lit ''-lc'', lit ''-c''}" "lower_keeps env" "shell_line_ok ws rest"
  shows "command_might_be_dangerous env [s, flag, print_line ws rest]
    = Inr (list_ex is_dangerous_to_call_with_exec (ws # map snd rest))"
proof -
  have s: "basename s = Some s" "s \<notin> set DANGER_NAMES" "se_lower env s = s"
    using shells_facts assms(1,3) by (auto simp: list_all_iff lower_keeps_def)
  have win: "is_dangerous_command_windows env [s, flag, print_line ws rest] = Inr False"
    by (rule windows_harmless) (use s in \<open>simp add: executable_basename_def\<close>)
  have "lit ''rm'' \<in> set DANGER_NAMES" "lit ''sudo'' \<in> set DANGER_NAMES"
    by (simp_all add: DANGER_NAMES_def lits_def del: lit.simps)
  then have "\<not> is_dangerous_to_call_with_exec [s, flag, print_line ws rest]"
    using s(2) by (auto simp del: lit.simps)
  moreover have "parse_shell_lc_plain_commands [s, flag, print_line ws rest] = Some (ws # map snd rest)"
    by (rule parse_print_line_lemma [OF assms(4)]) (simp add: extract_shell [OF assms(1,2)] del: lit.simps)
  ultimately show ?thesis by (simp add: command_might_be_dangerous_def win)
qed

lemma shell_line_safe:
  assumes "s \<in> set SHELLS" "flag \<in> {lit ''-lc'', lit ''-c''}" "\<not> se_nt env" "shell_line_ok ws rest"
    "print_line ws rest \<noteq> lit ''zsh''"
  shows "is_known_safe_command env [s, flag, print_line ws rest]
    \<longleftrightarrow> list_all (is_safe_to_call_with_exec env) (ws # map snd rest)"
proof -
  define s' where "s' = (if s = lit ''zsh'' then lit ''bash'' else s)"
  have s': "s' \<in> set SHELLS" using assms(1) by (auto simp: s'_def SHELLS_def lits_def simp del: lit.simps)
  have norm: "normalize_zsh [s, flag, print_line ws rest] = [s', flag, print_line ws rest]"
    using assms(2,5) by (auto simp: normalize_zsh_def s'_def lit_inject simp del: lit.simps)
  have facts: "basename s' = Some s'" "s' \<noteq> []" "s' \<notin> set SAFE_LOOKUPS"
    using shells_facts s' by (auto simp: list_all_iff)
  have "\<not> is_safe_to_call_with_exec env [s', flag, print_line ws rest]"
  proof
    assume "is_safe_to_call_with_exec env [s', flag, print_line ws rest]"
    then show False by (rule safe_lookup) (use facts lookup_posix [OF assms(3)] in auto)
  qed
  moreover have "parse_shell_lc_plain_commands [s', flag, print_line ws rest] = Some (ws # map snd rest)"
    by (rule parse_print_line_lemma [OF assms(4)]) (simp add: extract_shell [OF s' assms(2)] del: lit.simps)
  ultimately show ?thesis
    using windows_safe_posix [OF assms(3)] by (simp add: is_known_safe_command_def norm)
qed

section \<open>Properties\<close>

text \<open>A POSIX host on which \<open>str.lower\<close> lowers the ASCII letters and no URL has a network location.\<close>

definition ascii_lower :: "pystr \<Rightarrow> pystr" where
  "ascii_lower s = map (\<lambda>c. if 65 \<le> c \<and> c \<le> 90 then c + 32 else c) s"

definition sample_env :: shell_env where
  "sample_env = \<lparr>se_nt = False, se_lower = ascii_lower, se_isdigit = (\<lambda>c. 48 \<le> c \<and> c \<le> 57),
     se_isalpha = ident_start, se_urlparse = (\<lambda>_. Inr ([], []))\<rparr>"

lemma sample_env_lower: "lower_keeps sample_env"
  unfolding lower_keeps_def sample_env_def ascii_lower_def
  by (auto simp: list_all_iff intro!: map_idI)



text \<open>
  C23: Reading inverts printing: a shell that is handed a printed line is understood to run exactly the
  commands that were printed, word for word.
\<close>

theorem shell_parse_inverts_print:
  assumes "shell_line_ok ws rest" "s \<in> set SHELLS" "flag \<in> {lit ''-lc'', lit ''-c''}"
  shows "parse_shell_lc_plain_commands [s, flag, print_line ws rest] = Some (ws # map snd rest)"
  by (rule parse_print_line_lemma [OF assms(1)]) (simp add: extract_shell [OF assms(2,3)] del: lit.simps)

lemma shell_parse_inverts_print_witness:
  "parse_shell_lc_plain_commands [lit ''sh'', lit ''-c'', print_line [lit ''echo'', lit ''$x > y''] [(lit ''|'', [lit ''wc''])]]
    = Some [[lit ''echo'', lit ''$x > y''], [lit ''wc'']]"
proof -
  have "shell_line_ok [lit ''echo'', lit ''$x > y''] [(lit ''|'', [lit ''wc''])]"
    by (simp add: shell_line_ok_def shell_command_ok_def shell_word_def CONNECTORS_def sublist_Cons_right
        ident_char_def ident_start_def)
  then show ?thesis
    using shell_parse_inverts_print [of "[lit ''echo'', lit ''$x > y'']" "[(lit ''|'', [lit ''wc''])]"
        "lit ''sh''" "lit ''-c''"]
    by (simp add: SHELLS_def lits_def del: lit.simps)
qed

text \<open>
  The two judgements never contradict each other: on a POSIX host, a command that may be called
  without asking is not dangerous under any of the checks, and none of them raises on it.
\<close>

theorem safe_command_is_never_dangerous:
  assumes "is_safe_to_call_with_exec env command" "\<not> se_nt env" "lower_keeps env"
  shows "is_dangerous_command_windows env command = Inr False \<and> \<not> is_dangerous_to_call_with_exec command"
  using safe_not_dangerous_lemma [OF assms] by simp

lemma safe_command_is_never_dangerous_witness:
  "is_dangerous_command_windows sample_env [lit ''/bin/ls'', lit ''https://x''] = Inr False
    \<and> \<not> is_dangerous_to_call_with_exec [lit ''/bin/ls'', lit ''https://x'']"
proof -
  have "is_safe_to_call_with_exec sample_env [lit ''/bin/ls'', lit ''https://x'']" by code_simp
  then show ?thesis
    by (rule safe_command_is_never_dangerous) (simp_all add: sample_env_lower, simp add: sample_env_def)
qed

text \<open>
  A git command is safe exactly when it consists of global options that neither take a value nor
  change what is run, then one of five subcommands, then arguments that neither write a file nor start
  a program and, for \<open>branch\<close>, only list.
\<close>

theorem safe_git_commands:
  assumes "executable_name_lookup_key env git = Some (lit ''git'')"
  shows "is_safe_git_command env (git # args) \<longleftrightarrow>
    (\<exists>pre sub post. args = pre @ sub # post \<and> list_all harmless_global pre
       \<and> sub \<in> set (lits [''status'', ''log'', ''diff'', ''show'', ''branch''])
       \<and> list_all read_only_arg post \<and> (sub = lit ''branch'' \<longrightarrow> list_all branch_flag post))"
  by (rule git_safe_iff_lemma [OF assms])

lemma safe_git_commands_witness:
  "\<exists>pre sub post. [lit ''--no-pager'', lit ''log'', lit ''-p''] = pre @ sub # post \<and> list_all harmless_global pre"
proof -
  have "executable_name_lookup_key sample_env (lit ''/usr/bin/git'') = Some (lit ''git'')"
    "is_safe_git_command sample_env (lit ''/usr/bin/git'' # [lit ''--no-pager'', lit ''log'', lit ''-p''])"
    by code_simp+
  then show ?thesis
    using safe_git_commands [of sample_env "lit ''/usr/bin/git''" "[lit ''--no-pager'', lit ''log'', lit ''-p'']"]
    by blast
qed

section \<open>Scripts the reading of a shell line gets wrong\<close>

text \<open>
  A line feed ends a command for a shell but is white space to the lexer, so the second line hides
  among the arguments of the first.
\<close>

lemma line_feed_hides_a_command:
  "is_known_safe_command sample_env [lit ''bash'', lit ''-lc'', lit ''ls'' @ [10] @ lit ''rm -rf /'']
    \<and> command_might_be_dangerous sample_env [lit ''bash'', lit ''-lc'', lit ''ls'' @ [10] @ lit ''rm -rf /'']
      = Inr False"
  by code_simp

text \<open>A backslash in single quotes is a character for a shell and the lexer, but an escape for the scans.\<close>

lemma quoted_backslash_hides_a_redirection:
  "is_known_safe_command sample_env
     [lit ''bash'', lit ''-lc'', lit ''echo '' @ [39, 92, 39] @ lit '' > /etc/passwd'']"
  by code_simp

text \<open>A quoted connector is an argument for a shell but separates commands here.\<close>

lemma quoted_connector_splits_a_command:
  "\<not> is_safe_to_call_with_exec sample_env [lit ''find'', lit ''.'', lit '';'', lit ''ls'', lit ''-delete'']
    \<and> is_known_safe_command sample_env
        [lit ''bash'', lit ''-lc'', lit ''find . '' @ [39] @ lit '';'' @ [39] @ lit '' ls -delete'']"
  by code_simp

text \<open>The check for dangerous commands raises when \<open>urlparse\<close> does.\<close>

lemma invalid_url_raises:
  "command_might_be_dangerous (sample_env\<lparr>se_urlparse := (\<lambda>_. Inl (lit ''Invalid IPv6 URL''))\<rparr>)
     [lit ''firefox'', lit ''http://[x''] = Inl (lit ''Invalid IPv6 URL'')"
  by code_simp

end
