(* ===== verification/ExecApproval.thy ===== *)
theory ExecApproval
  imports PatchSafety CommandSafety
begin

text \<open>
  Whether a command needs the user's approval, \<open>pycodex/core/exec_policy.py\<close>: the commands of a shell
  call, the decision for one that no rule matches, the rules that match, and the requirement that
  results from all of them. Powershell wrappers are \<open>shell_command/powershell.py\<close>. A matched rule is
  the mapping the policy manager passes on, or an object with a decision of its own.
\<close>

section \<open>The commands of a call\<close>

datatype command_origin = GenericOrigin | PowershellOrigin

record exec_commands =
  ec_commands :: "pystr list list"
  ec_used_complex_parsing :: bool
  ec_origin :: command_origin

record exec_host =
  eh_shell :: shell_env
  eh_fs :: fs_env

definition is_powershellish :: "shell_env \<Rightarrow> pystr \<Rightarrow> bool" where
  "is_powershellish env path =
     (let normalized = rstrip_chars {47} (map (\<lambda>c. if c = 92 then 47 else c) path);
          name = se_lower env (after_last 47 normalized);
          name = (if ends_with name (lit ''.exe'') then take (length name - 4) name else name)
      in name \<in> {lit ''powershell'', lit ''pwsh''})"

definition POWERSHELL_FLAGS :: "pystr list" where
  "POWERSHELL_FLAGS = lits [''-nologo'', ''-noprofile'', ''-command'', ''-c'']"

fun powershell_script :: "shell_env \<Rightarrow> pystr list \<Rightarrow> pystr option" where
  "powershell_script env (flag # script # rest) =
     (let flag_lc = se_lower env flag in
      if flag_lc \<notin> set POWERSHELL_FLAGS then None
      else if flag_lc \<in> {lit ''-command'', lit ''-c''} then Some script
      else powershell_script env (script # rest))"
| "powershell_script env _ = None"

definition extract_powershell_command :: "shell_env \<Rightarrow> pystr list \<Rightarrow> (pystr \<times> pystr) option" where
  "extract_powershell_command env command =
     (if length command < 3 \<or> \<not> is_powershellish env (hd command) then None
      else map_option (\<lambda>script. (hd command, script)) (powershell_script env (tl command)))"

definition UTF8_OUTPUT_PREFIX :: pystr where
  "UTF8_OUTPUT_PREFIX = lit ''[Console]::OutputEncoding=[System.Text.Encoding]::UTF8;'' @ [10]"

definition prefix_powershell_script_with_utf8 :: "shell_env \<Rightarrow> pystr list \<Rightarrow> pystr list" where
  "prefix_powershell_script_with_utf8 env command =
     (case extract_powershell_command env command of None \<Rightarrow> command
      | Some (_, script) \<Rightarrow> butlast command @
          [if starts_with (lstrip script) UTF8_OUTPUT_PREFIX then script else UTF8_OUTPUT_PREFIX @ script])"

definition parse_powershell_command_into_plain_commands :: "shell_env \<Rightarrow> pystr list \<Rightarrow> pystr list list option" where
  "parse_powershell_command_into_plain_commands env command =
     (case extract_powershell_command env command of None \<Rightarrow> None
      | Some (_, script) \<Rightarrow>
          (case parse_powershell_script env script of None \<Rightarrow> None
           | Some commands \<Rightarrow>
               if commands = [] \<or> list_ex (\<lambda>c. c = []) commands then None else Some commands))"

definition has_nonempty_commands :: "pystr list list option \<Rightarrow> bool" where
  "has_nonempty_commands commands =
     (case commands of None \<Rightarrow> False | Some cs \<Rightarrow> cs \<noteq> [] \<and> list_all (\<lambda>c. c \<noteq> []) cs)"

definition commands_for_exec_policy :: "shell_env \<Rightarrow> pystr list \<Rightarrow> exec_commands" where
  "commands_for_exec_policy env argv =
     (let plain = parse_shell_lc_plain_commands argv;
          powershell = parse_powershell_command_into_plain_commands env argv
      in if has_nonempty_commands plain then
           \<lparr>ec_commands = the plain, ec_used_complex_parsing = False, ec_origin = GenericOrigin\<rparr>
         else if se_nt env \<and> has_nonempty_commands powershell then
           \<lparr>ec_commands = the powershell, ec_used_complex_parsing = False, ec_origin = PowershellOrigin\<rparr>
         else case parse_shell_lc_single_command_prefix argv of
           Some single \<Rightarrow> \<lparr>ec_commands = [single], ec_used_complex_parsing = True, ec_origin = GenericOrigin\<rparr>
         | None \<Rightarrow> \<lparr>ec_commands = [argv], ec_used_complex_parsing = False, ec_origin = GenericOrigin\<rparr>)"

section \<open>The decision for a command no rule matches\<close>

datatype sandbox_permissions = UseDefault | RequireEscalated | WithAdditionalPermissions

definition requests_sandbox_override :: "sandbox_permissions \<Rightarrow> bool" where
  "requests_sandbox_override p \<longleftrightarrow> p \<noteq> UseDefault"

record exec_request =
  er_command :: "pystr list"
  er_approval_policy :: approval_policy
  er_profile :: profile_type
  er_fs_policy :: fs_policy
  er_sandbox_cwd :: pypath
  er_sandbox_permissions :: sandbox_permissions
  er_prefix_rule :: "pystr list option"

definition profile_is_managed_read_only :: "fs_env \<Rightarrow> profile_type \<Rightarrow> fs_policy \<Rightarrow> pypath \<Rightarrow> bool" where
  "profile_is_managed_read_only env profile fs cwd \<longleftrightarrow> profile = ManagedProfile \<and> fp_kind fs = Restricted
     \<and> \<not> has_full_disk_write_access fs \<and> get_writable_roots_with_cwd env fs cwd = []"

definition known_safe :: "shell_env \<Rightarrow> command_origin \<Rightarrow> pystr list \<Rightarrow> bool" where
  "known_safe env origin argv = (case origin of PowershellOrigin \<Rightarrow> is_safe_powershell_words env argv
     | GenericOrigin \<Rightarrow> is_known_safe_command env argv)"

definition known_dangerous :: "shell_env \<Rightarrow> command_origin \<Rightarrow> pystr list \<Rightarrow> (pystr, bool) result" where
  "known_dangerous env origin argv = (case origin of PowershellOrigin \<Rightarrow> is_dangerous_powershell_words env argv
     | GenericOrigin \<Rightarrow> command_might_be_dangerous env argv)"

definition render_decision_for_unmatched_command ::
    "exec_host \<Rightarrow> exec_request \<Rightarrow> bool \<Rightarrow> command_origin \<Rightarrow> pystr list \<Rightarrow> (pystr, decision) result" where
  "render_decision_for_unmatched_command h request used_complex_parsing origin argv =
     (let policy = er_approval_policy request;
          lacks_protections = se_nt (eh_shell h) \<and> profile_is_managed_read_only (eh_fs h)
            (er_profile request) (er_fs_policy request) (er_sandbox_cwd request)
      in if known_safe (eh_shell h) origin argv \<and> \<not> used_complex_parsing
            \<and> (policy = UnlessTrusted \<or> lacks_protections)
         then Inr Allow
         else bindE (known_dangerous (eh_shell h) origin argv) (\<lambda>dangerous. Inr
           (if dangerous \<or> lacks_protections then
              (if policy = Never then
                 (if er_profile request \<in> {DisabledProfile, ExternalProfile} then Allow else Forbid)
               else Prompt)
            else if policy = Never \<or> policy = OnFailure then Allow
            else if policy = UnlessTrusted then Prompt
            else if fp_kind (er_fs_policy request) \<in> {Unrestricted, ExternalSandbox} then Allow
            else if requests_sandbox_override (er_sandbox_permissions request) then Prompt
            else Allow)))"

section \<open>Rules that match\<close>

text \<open>The prefix a rule matched, its decision (if the text names one) and its justification.\<close>

datatype matched_rule =
    PrefixMatched "pystr list" "decision option" "pystr option"
  | OtherRule "decision option" "pystr list option"

fun policy_match_decision :: "matched_rule \<Rightarrow> decision option" where
  "policy_match_decision (PrefixMatched p d j) = d"
| "policy_match_decision (OtherRule d c) = d"

fun is_policy_match :: "matched_rule \<Rightarrow> bool" where
  "is_policy_match (PrefixMatched p d j) = True"
| "is_policy_match (OtherRule d c) = False"

definition rule_pattern :: "prefix_rule \<Rightarrow> pattern_token list" where
  "rule_pattern rule = Single (pr_first rule) # pr_rest rule"

definition rule_pattern_matched_prefix :: "pattern_token list \<Rightarrow> pystr list \<Rightarrow> pystr list option" where
  "rule_pattern_matched_prefix pattern command =
     (if length command < length pattern then None
      else if list_all (\<lambda>(p, t). token_matches p t) (zip pattern command)
      then Some (take (length pattern) command) else None)"

definition exec_policy_prefix_rule_match :: "prefix_rule \<Rightarrow> pystr list \<Rightarrow> matched_rule option" where
  "exec_policy_prefix_rule_match rule command = map_option
     (\<lambda>p. PrefixMatched p (Some (pr_decision rule))
        (case pr_justification rule of Some j \<Rightarrow> if j = [] then None else Some j | None \<Rightarrow> None))
     (rule_pattern_matched_prefix (rule_pattern rule) command)"

text \<open>Each match once, in the order of the commands and, for each, of the rules.\<close>

definition match_exec_policy_rules_for_command :: "shell_env \<Rightarrow> pystr list \<Rightarrow> prefix_rule list \<Rightarrow> matched_rule list" where
  "match_exec_policy_rules_for_command env command rules =
     fold (\<lambda>c matches. fold (\<lambda>rule matches.
         case exec_policy_prefix_rule_match rule c of
           None \<Rightarrow> matches
         | Some m \<Rightarrow> if m \<in> set matches then matches else matches @ [m]) rules matches)
       (ec_commands (commands_for_exec_policy env command)) []"

section \<open>The requirement\<close>

datatype requirement =
    Skip bool "pystr list option"
  | NeedsApproval "pystr option" "pystr list option"
  | ForbiddenReq pystr

definition PROMPT_CONFLICT_REASON :: pystr where
  "PROMPT_CONFLICT_REASON = lit ''approval required by policy, but AskForApproval is set to Never''"

definition REJECT_SANDBOX_APPROVAL_REASON :: pystr where
  "REJECT_SANDBOX_APPROVAL_REASON =
     lit ''approval required by policy, but AskForApproval::Granular.sandbox_approval is false''"

definition REJECT_RULES_APPROVAL_REASON :: pystr where
  "REJECT_RULES_APPROVAL_REASON =
     lit ''approval required by policy rule, but AskForApproval::Granular.rules is false''"

definition prompt_is_rejected_by_policy :: "approval_policy \<Rightarrow> bool \<Rightarrow> pystr option" where
  "prompt_is_rejected_by_policy policy prompt_is_rule =
     (case policy of
        Never \<Rightarrow> Some PROMPT_CONFLICT_REASON
      | Granular g \<Rightarrow>
          if prompt_is_rule then (if gc_rules g then None else Some REJECT_RULES_APPROVAL_REASON)
          else if gc_sandbox_approval g then None else Some REJECT_SANDBOX_APPROVAL_REASON
      | _ \<Rightarrow> None)"

definition BANNED_PREFIX_SUGGESTIONS :: "pystr list list" where
  "BANNED_PREFIX_SUGGESTIONS = map lits
     [[''python3''], [''python3'', ''-''], [''python3'', ''-c''], [''python''], [''python'', ''-''],
      [''python'', ''-c''], [''py''], [''py'', ''-3''], [''pythonw''], [''pyw''], [''pypy''], [''pypy3''],
      [''git''], [''bash''], [''bash'', ''-lc''], [''sh''], [''sh'', ''-c''], [''sh'', ''-lc''], [''zsh''],
      [''zsh'', ''-lc''], [''/bin/zsh''], [''/bin/zsh'', ''-lc''], [''/bin/bash''], [''/bin/bash'', ''-lc''],
      [''pwsh''], [''pwsh'', ''-Command''], [''pwsh'', ''-c''], [''powershell''],
      [''powershell'', ''-Command''], [''powershell'', ''-c''], [''powershell.exe''],
      [''powershell.exe'', ''-Command''], [''powershell.exe'', ''-c''], [''env''], [''sudo''], [''node''],
      [''node'', ''-e''], [''perl''], [''perl'', ''-e''], [''ruby''], [''ruby'', ''-e''], [''php''],
      [''php'', ''-r''], [''lua''], [''lua'', ''-e''], [''osascript'']]"

definition prefix_rule_would_approve_all_commands :: "pystr list \<Rightarrow> pystr list list \<Rightarrow> bool" where
  "prefix_rule_would_approve_all_commands prefix' commands \<longleftrightarrow>
     prefix' \<noteq> [] \<and> list_all (\<lambda>c. starts_with c prefix') commands"

definition derive_requested_amendment ::
    "pystr list option \<Rightarrow> matched_rule list \<Rightarrow> pystr list list \<Rightarrow> pystr list option" where
  "derive_requested_amendment prefix_rule matched commands =
     (case prefix_rule of None \<Rightarrow> None
      | Some p \<Rightarrow>
          if p = [] \<or> p \<in> set BANNED_PREFIX_SUGGESTIONS \<or> list_ex is_policy_match matched
             \<or> \<not> prefix_rule_would_approve_all_commands p commands
          then None else Some p)"

definition render_command :: "pystr list \<Rightarrow> pystr" where
  "render_command command = join_with [32] command"

definition longest_match :: "decision \<Rightarrow> matched_rule list \<Rightarrow> (pystr list \<times> pystr option) option" where
  "longest_match d matched =
     (case concat (map (\<lambda>r. case r of PrefixMatched p (Some d') j \<Rightarrow> if d' = d then [(p, j)] else [] | _ \<Rightarrow> []) matched) of
        [] \<Rightarrow> None | m # ms \<Rightarrow> Some (max_key (\<lambda>(p, j). length p) m ms))"

definition derive_prompt_reason :: "pystr list \<Rightarrow> matched_rule list \<Rightarrow> pystr option" where
  "derive_prompt_reason command matched =
     map_option (\<lambda>(p, j). [96] @ render_command command @ [96] @
       (case j of Some why \<Rightarrow> if why \<noteq> [] then lit '' requires approval: '' @ why else lit '' requires approval by policy''
        | None \<Rightarrow> lit '' requires approval by policy''))
     (longest_match Prompt matched)"

definition derive_forbidden_reason :: "pystr list \<Rightarrow> matched_rule list \<Rightarrow> pystr" where
  "derive_forbidden_reason command matched =
     [96] @ render_command command @ [96] @
     (case longest_match Forbid matched of
        None \<Rightarrow> lit '' rejected: blocked by policy''
      | Some (p, Some why) \<Rightarrow>
          if why \<noteq> [] then lit '' rejected: '' @ why
          else lit '' rejected: policy forbids commands starting with '' @ [96] @ render_command p @ [96]
      | Some (p, None) \<Rightarrow>
          lit '' rejected: policy forbids commands starting with '' @ [96] @ render_command p @ [96])"

fun first_amendment_for_decision :: "pystr list list \<Rightarrow> decision list \<Rightarrow> decision \<Rightarrow> pystr list option" where
  "first_amendment_for_decision (c # cs) (d # ds) decision =
     (if d = decision then Some c else first_amendment_for_decision cs ds decision)"
| "first_amendment_for_decision _ _ decision = None"

definition allows_command :: "matched_rule list \<Rightarrow> pystr list \<Rightarrow> bool" where
  "allows_command matched command =
     list_ex (\<lambda>r. case r of PrefixMatched p (Some Allow) j \<Rightarrow> p \<noteq> [] \<and> starts_with command p | _ \<Rightarrow> False) matched"

definition all_commands_explicitly_allowed :: "pystr list list \<Rightarrow> matched_rule list \<Rightarrow> bool" where
  "all_commands_explicitly_allowed commands matched \<longleftrightarrow>
     commands \<noteq> [] \<and> matched \<noteq> [] \<and> list_all (allows_command matched) commands"

definition amendment_for_allow_rules :: "matched_rule list \<Rightarrow> pystr list option" where
  "amendment_for_allow_rules matched =
     (if list_ex is_policy_match matched then None
      else case concat (map (\<lambda>r. case r of OtherRule (Some Allow) (Some c) \<Rightarrow> if c \<noteq> [] then [c] else [] | _ \<Rightarrow> []) matched) of
        [] \<Rightarrow> None | c # _ \<Rightarrow> Some c)"

definition create_exec_approval_requirement ::
    "exec_host \<Rightarrow> exec_request \<Rightarrow> matched_rule list \<Rightarrow> (pystr, requirement) result" where
  "create_exec_approval_requirement h request matched =
     (let parsed = commands_for_exec_policy (eh_shell h) (er_command request);
          amendable = \<not> ec_used_complex_parsing parsed in
      bindE (mapE (render_decision_for_unmatched_command h request (ec_used_complex_parsing parsed) (ec_origin parsed))
               (ec_commands parsed)) (\<lambda>fallback_decisions.
        let policy_decisions = List.map_filter policy_match_decision matched;
            decision = strongest_decision (fallback_decisions @ policy_decisions);
            requested = (if amendable
              then derive_requested_amendment (er_prefix_rule request) matched (ec_commands parsed) else None)
        in Inr (case decision of
             Forbid \<Rightarrow> ForbiddenReq (derive_forbidden_reason (er_command request) matched)
           | Prompt \<Rightarrow>
               (case prompt_is_rejected_by_policy (er_approval_policy request)
                       (list_ex (\<lambda>r. policy_match_decision r = Some Prompt) matched) of
                  Some reason \<Rightarrow> ForbiddenReq reason
                | None \<Rightarrow> NeedsApproval (derive_prompt_reason (er_command request) matched)
                    (if requested = None \<and> amendable
                     then first_amendment_for_decision (ec_commands parsed) fallback_decisions Prompt
                     else requested))
           | Allow \<Rightarrow> Skip (all_commands_explicitly_allowed (ec_commands parsed) matched)
               (if amendable then amendment_for_allow_rules matched else None))))"

text \<open>The manager adds the matches of its own rules.\<close>

definition manager_requirement ::
    "exec_host \<Rightarrow> prefix_rule list \<Rightarrow> exec_request \<Rightarrow> matched_rule list \<Rightarrow> (pystr, requirement) result" where
  "manager_requirement h rules request matched =
     create_exec_approval_requirement h request
       (matched @ match_exec_policy_rules_for_command (eh_shell h) (er_command request) rules)"

section \<open>Facts about the requirement\<close>

lemma render_decision_Allow_lemma:
  assumes "render_decision_for_unmatched_command h request complex origin argv = Inr Allow" "\<not> se_nt (eh_shell h)"
  shows "known_safe (eh_shell h) origin argv \<and> \<not> complex \<and> er_approval_policy request = UnlessTrusted
    \<or> known_dangerous (eh_shell h) origin argv = Inr True \<and> er_approval_policy request = Never
        \<and> er_profile request \<in> {DisabledProfile, ExternalProfile}
    \<or> known_dangerous (eh_shell h) origin argv = Inr False \<and> er_approval_policy request \<noteq> UnlessTrusted
        \<and> (er_approval_policy request \<in> {Never, OnFailure} \<or> fp_kind (er_fs_policy request) \<noteq> Restricted
           \<or> er_sandbox_permissions request = UseDefault)"
  using assms
  by (auto simp: render_decision_for_unmatched_command_def Let_def result_iff requests_sandbox_override_def
      split: if_splits)

text \<open>The decisions an assessment takes the strongest of.\<close>

definition arises :: "exec_host \<Rightarrow> exec_request \<Rightarrow> matched_rule list \<Rightarrow> decision \<Rightarrow> bool" where
  "arises h request matched d \<longleftrightarrow>
     (\<exists>c \<in> set (ec_commands (commands_for_exec_policy (eh_shell h) (er_command request))).
        render_decision_for_unmatched_command h request
          (ec_used_complex_parsing (commands_for_exec_policy (eh_shell h) (er_command request)))
          (ec_origin (commands_for_exec_policy (eh_shell h) (er_command request))) c = Inr d)
     \<or> (\<exists>r \<in> set matched. policy_match_decision r = Some d)"

fun requirement_kind :: "requirement \<Rightarrow> decision" where
  "requirement_kind (Skip b a) = Allow"
| "requirement_kind (NeedsApproval r a) = Prompt"
| "requirement_kind (ForbiddenReq r) = Forbid"

lemma commands_for_exec_policy_ne: "ec_commands (commands_for_exec_policy env argv) \<noteq> []"
  by (auto simp: commands_for_exec_policy_def Let_def has_nonempty_commands_def split: option.splits)

lemma mapE_image:
  assumes "mapE f xs = Inr ys"
  shows "y \<in> set ys \<longleftrightarrow> (\<exists>x \<in> set xs. f x = Inr y)"
  using assms by (induction xs arbitrary: ys) (auto simp: result_iff)

lemma requirement_Inr:
  assumes "create_exec_approval_requirement h request matched = Inr req"
  obtains fallback d where
    "mapE (render_decision_for_unmatched_command h request
        (ec_used_complex_parsing (commands_for_exec_policy (eh_shell h) (er_command request)))
        (ec_origin (commands_for_exec_policy (eh_shell h) (er_command request))))
      (ec_commands (commands_for_exec_policy (eh_shell h) (er_command request))) = Inr fallback"
    "d = strongest_decision (fallback @ List.map_filter policy_match_decision matched)"
    "arises h request matched d" "\<And>d'. arises h request matched d' \<Longrightarrow> d' \<le> d"
proof -
  let ?p = "commands_for_exec_policy (eh_shell h) (er_command request)"
  let ?f = "render_decision_for_unmatched_command h request (ec_used_complex_parsing ?p) (ec_origin ?p)"
  from assms obtain fallback where m: "mapE ?f (ec_commands ?p) = Inr fallback"
    by (auto simp: create_exec_approval_requirement_def Let_def result_iff simp del: mapE_eq_Inr)
  let ?ds = "fallback @ List.map_filter policy_match_decision matched"
  have dec: "arises h request matched d \<longleftrightarrow> d \<in> set ?ds" for d
    by (auto simp: arises_def mapE_image [OF m] in_map_filter)
  have "length fallback = length (ec_commands ?p)" using m list_all2_lengthD by (fastforce simp: mapE_eq_Inr)
  then have "?ds \<noteq> []" using commands_for_exec_policy_ne [of "eh_shell h" "er_command request"] by auto
  from strongest_decision_in [OF this] strongest_decision_ge dec that [OF m refl] show ?thesis by blast
qed

lemma requirement_of_strongest:
  assumes "create_exec_approval_requirement h request matched = Inr req"
  shows "\<exists>d. arises h request matched d \<and> (\<forall>d'. arises h request matched d' \<longrightarrow> d' \<le> d)
    \<and> (case d of Forbid \<Rightarrow> req = ForbiddenReq (derive_forbidden_reason (er_command request) matched)
       | Prompt \<Rightarrow> (case prompt_is_rejected_by_policy (er_approval_policy request)
             (list_ex (\<lambda>r. policy_match_decision r = Some Prompt) matched) of
           Some reason \<Rightarrow> req = ForbiddenReq reason
         | None \<Rightarrow> \<exists>a. req = NeedsApproval (derive_prompt_reason (er_command request) matched) a)
       | Allow \<Rightarrow> \<exists>a. req = Skip (all_commands_explicitly_allowed
           (ec_commands (commands_for_exec_policy (eh_shell h) (er_command request))) matched) a)"
proof -
  from requirement_Inr [OF assms] obtain fallback d where d:
    "mapE (render_decision_for_unmatched_command h request
        (ec_used_complex_parsing (commands_for_exec_policy (eh_shell h) (er_command request)))
        (ec_origin (commands_for_exec_policy (eh_shell h) (er_command request))))
      (ec_commands (commands_for_exec_policy (eh_shell h) (er_command request))) = Inr fallback"
    "d = strongest_decision (fallback @ List.map_filter policy_match_decision matched)"
    "arises h request matched d" "\<And>d'. arises h request matched d' \<Longrightarrow> d' \<le> d" by blast
  have "case d of Forbid \<Rightarrow> req = ForbiddenReq (derive_forbidden_reason (er_command request) matched)
       | Prompt \<Rightarrow> (case prompt_is_rejected_by_policy (er_approval_policy request)
             (list_ex (\<lambda>r. policy_match_decision r = Some Prompt) matched) of
           Some reason \<Rightarrow> req = ForbiddenReq reason
         | None \<Rightarrow> \<exists>a. req = NeedsApproval (derive_prompt_reason (er_command request) matched) a)
       | Allow \<Rightarrow> \<exists>a. req = Skip (all_commands_explicitly_allowed
           (ec_commands (commands_for_exec_policy (eh_shell h) (er_command request))) matched) a"
    using assms unfolding create_exec_approval_requirement_def Let_def d(1) bindE_Inr d(2) [symmetric]
    by (auto split: decision.splits option.splits)
  with d(3,4) show ?thesis by blast
qed

lemma skip_arises:
  assumes "create_exec_approval_requirement h request matched = Inr (Skip bypass amendment)"
  shows "(arises h request matched d \<longleftrightarrow> d = Allow)
    \<and> bypass = all_commands_explicitly_allowed
          (ec_commands (commands_for_exec_policy (eh_shell h) (er_command request))) matched"
  using requirement_of_strongest [OF assms]
proof (elim exE conjE)
  fix d0
  assume d0: "arises h request matched d0" "\<forall>d'. arises h request matched d' \<longrightarrow> d' \<le> d0"
    "case d0 of Allow \<Rightarrow> \<exists>a. Skip bypass amendment = Skip (all_commands_explicitly_allowed
          (ec_commands (commands_for_exec_policy (eh_shell h) (er_command request))) matched) a
      | Prompt \<Rightarrow> (case prompt_is_rejected_by_policy (er_approval_policy request)
             (list_ex (\<lambda>r. policy_match_decision r = Some Prompt) matched) of
           None \<Rightarrow> \<exists>a. Skip bypass amendment = NeedsApproval (derive_prompt_reason (er_command request) matched) a
         | Some reason \<Rightarrow> Skip bypass amendment = ForbiddenReq reason)
      | Forbid \<Rightarrow> Skip bypass amendment = ForbiddenReq (derive_forbidden_reason (er_command request) matched)"
  have "d0 = Allow" using d0(3) by (cases d0) (auto split: option.splits)
  moreover have "d = Allow" if "d \<le> Allow" using that by (cases d) (simp_all add: less_eq_decision_def)
  ultimately show ?thesis using d0 by auto
qed

lemma forbid_arises:
  assumes "create_exec_approval_requirement h request matched = Inr req" "arises h request matched Forbid"
  shows "req = ForbiddenReq (derive_forbidden_reason (er_command request) matched)"
  using requirement_of_strongest [OF assms(1)] assms(2) by (auto dest!: spec [of _ Forbid])

section \<open>Rules and the commands they match\<close>

lemma zip_take_shorter: "zip xs (take (length xs) ys) = zip xs ys"
  by (induction xs arbitrary: ys) (auto simp: take_Cons' zip_Cons1 split: list.splits)

lemma matched_prefix_iff: "rule_pattern_matched_prefix (rule_pattern rule) command = matches_prefix rule command"
  by (cases command) (auto simp: rule_pattern_matched_prefix_def rule_pattern_def matches_prefix_def Let_def
      zip_take_shorter)

lemma match_rules_iff:
  "m \<in> set (match_exec_policy_rules_for_command env command rules) \<longleftrightarrow>
     (\<exists>c \<in> set (ec_commands (commands_for_exec_policy env command)). \<exists>rule \<in> set rules.
        exec_policy_prefix_rule_match rule c = Some m)"
proof -
  have inner: "m \<in> set (fold (\<lambda>rule matches. case exec_policy_prefix_rule_match rule c of None \<Rightarrow> matches
         | Some m \<Rightarrow> if m \<in> set matches then matches else matches @ [m]) rules ms) \<longleftrightarrow>
      m \<in> set ms \<or> (\<exists>rule \<in> set rules. exec_policy_prefix_rule_match rule c = Some m)" for c ms
    by (induction rules arbitrary: ms) (auto split: option.splits)
  have "m \<in> set (fold (\<lambda>c matches. fold (\<lambda>rule matches. case exec_policy_prefix_rule_match rule c of None \<Rightarrow> matches
         | Some m \<Rightarrow> if m \<in> set matches then matches else matches @ [m]) rules matches) cs ms) \<longleftrightarrow>
      m \<in> set ms \<or> (\<exists>c \<in> set cs. \<exists>rule \<in> set rules. exec_policy_prefix_rule_match rule c = Some m)" for cs ms
    by (induction cs arbitrary: ms) (auto simp: inner)
  then show ?thesis by (simp add: match_exec_policy_rules_for_command_def)
qed

lemma prefix_rule_match_Some:
  "exec_policy_prefix_rule_match rule c = Some m \<longleftrightarrow>
     (\<exists>p j. m = PrefixMatched p (Some (pr_decision rule)) j \<and> matches_prefix rule c = Some p
        \<and> j = (case pr_justification rule of None \<Rightarrow> None | Some j \<Rightarrow> if j = [] then None else Some j))"
  by (auto simp: exec_policy_prefix_rule_match_def matched_prefix_iff)

lemma matching_rule_arises:
  assumes "rule \<in> set rules" "c \<in> set (ec_commands (commands_for_exec_policy (eh_shell h) (er_command request)))"
    "matches_prefix rule c \<noteq> None"
  shows "arises h request (matched @ match_exec_policy_rules_for_command (eh_shell h) (er_command request) rules)
    (pr_decision rule)"
proof -
  from assms(3) obtain m where "exec_policy_prefix_rule_match rule c = Some m" "policy_match_decision m = Some (pr_decision rule)"
    by (auto simp: prefix_rule_match_Some)
  moreover from this(1) assms(1,2)
  have "m \<in> set (matched @ match_exec_policy_rules_for_command (eh_shell h) (er_command request) rules)"
    by (auto simp: match_rules_iff)
  ultimately show ?thesis unfolding arises_def by blast
qed

lemma manager_Inl:
  assumes "manager_requirement h rules request matched = Inl e"
  shows "\<exists>c \<in> set (ec_commands (commands_for_exec_policy (eh_shell h) (er_command request))).
    known_dangerous (eh_shell h) (ec_origin (commands_for_exec_policy (eh_shell h) (er_command request))) c = Inl e"
proof -
  let ?p = "commands_for_exec_policy (eh_shell h) (er_command request)"
  from assms have "mapE (render_decision_for_unmatched_command h request (ec_used_complex_parsing ?p) (ec_origin ?p))
      (ec_commands ?p) = Inl e"
    by (simp add: manager_requirement_def create_exec_approval_requirement_def Let_def bindE_eq_Inl del: mapE_eq_Inr)
  from mapE_Inl [OF this] show ?thesis
    by (auto simp: render_decision_for_unmatched_command_def Let_def bindE_eq_Inl split: if_splits)
qed

text \<open>A rule that accepts a command also accepts one that starts with the prefix it matched.\<close>

lemma matches_prefix_mono:
  "matches_prefix rule c = Some p \<Longrightarrow> starts_with c' p \<Longrightarrow> matches_prefix rule c' = Some p"
  by (auto simp: matches_prefix_Some starts_with_iff)

lemma explicitly_allowed_rule:
  assumes "all_commands_explicitly_allowed cs (match_exec_policy_rules_for_command env argv rules)" "c \<in> set cs"
  shows "\<exists>rule \<in> set rules. pr_decision rule = Allow \<and> matches_prefix rule c \<noteq> None"
proof -
  from assms obtain r where r: "r \<in> set (match_exec_policy_rules_for_command env argv rules)"
    and c: "case r of PrefixMatched p (Some Allow) j \<Rightarrow> p \<noteq> [] \<and> starts_with c p | _ \<Rightarrow> False"
    by (auto simp: all_commands_explicitly_allowed_def allows_command_def list_all_iff list_ex_iff)
  from r obtain c' rule p where "rule \<in> set rules" "matches_prefix rule c' = Some p"
    "\<exists>j. r = PrefixMatched p (Some (pr_decision rule)) j"
    unfolding match_rules_iff prefix_rule_match_Some by blast
  with c matches_prefix_mono [of rule c' p c] show ?thesis
    by (cases "pr_decision rule") auto
qed

section \<open>Properties\<close>


text \<open>
  C6: A command runs without asking only for a reason: on a POSIX host, when the requirement is to skip
  approval, every rule that names a decision allows, and each command found in the call is either known
  to be safe (under \<open>UnlessTrusted\<close>), or dangerous under a disabled or external profile whose user never
  wants to be asked, or not dangerous under a policy that leaves it to the sandbox; the sandbox is
  bypassed only if each command starts with a prefix that an allowing rule matched.
\<close>

theorem skipping_approval_is_justified:
  assumes "create_exec_approval_requirement h request matched = Inr (Skip bypass amendment)"
    and "\<not> se_nt (eh_shell h)"
  defines "p \<equiv> commands_for_exec_policy (eh_shell h) (er_command request)"
  shows "(\<forall>r \<in> set matched. policy_match_decision r = None \<or> policy_match_decision r = Some Allow)
    \<and> bypass = all_commands_explicitly_allowed (ec_commands p) matched
    \<and> (\<forall>c \<in> set (ec_commands p).
        known_safe (eh_shell h) (ec_origin p) c \<and> \<not> ec_used_complex_parsing p
          \<and> er_approval_policy request = UnlessTrusted
      \<or> known_dangerous (eh_shell h) (ec_origin p) c = Inr True \<and> er_approval_policy request = Never
          \<and> er_profile request \<in> {DisabledProfile, ExternalProfile}
      \<or> known_dangerous (eh_shell h) (ec_origin p) c = Inr False \<and> er_approval_policy request \<noteq> UnlessTrusted
          \<and> (er_approval_policy request \<in> {Never, OnFailure} \<or> fp_kind (er_fs_policy request) \<noteq> Restricted
             \<or> er_sandbox_permissions request = UseDefault))"
proof (intro conjI ballI)
  note skip = skip_arises [OF assms(1), folded p_def]
  show "policy_match_decision r = None \<or> policy_match_decision r = Some Allow" if "r \<in> set matched" for r
    using that skip by (cases "policy_match_decision r") (auto simp: arises_def)
  show "bypass = all_commands_explicitly_allowed (ec_commands p) matched" using skip by simp
  fix c assume c: "c \<in> set (ec_commands p)"
  from requirement_Inr [OF assms(1), folded p_def] obtain fallback where
    "mapE (render_decision_for_unmatched_command h request (ec_used_complex_parsing p) (ec_origin p))
      (ec_commands p) = Inr fallback" by blast
  then obtain d where "render_decision_for_unmatched_command h request (ec_used_complex_parsing p) (ec_origin p) c = Inr d"
    using c by (auto simp: mapE_eq_Inr list_all2_conv_all_nth in_set_conv_nth)
  moreover from this have "d = Allow" using skip c unfolding arises_def p_def by blast
  ultimately show "known_safe (eh_shell h) (ec_origin p) c \<and> \<not> ec_used_complex_parsing p
          \<and> er_approval_policy request = UnlessTrusted
      \<or> known_dangerous (eh_shell h) (ec_origin p) c = Inr True \<and> er_approval_policy request = Never
          \<and> er_profile request \<in> {DisabledProfile, ExternalProfile}
      \<or> known_dangerous (eh_shell h) (ec_origin p) c = Inr False \<and> er_approval_policy request \<noteq> UnlessTrusted
          \<and> (er_approval_policy request \<in> {Never, OnFailure} \<or> fp_kind (er_fs_policy request) \<noteq> Restricted
             \<or> er_sandbox_permissions request = UseDefault)"
    using render_decision_Allow_lemma [OF _ assms(2)] by blast
qed

text \<open>
  C19: The sandbox is bypassed only by the manager's own allow rules: a call skips approval and sandbox
  at once only if every command found in it is matched by a rule that allows it, and no rule of the
  manager that matches one of the commands has another decision.
\<close>

theorem bypassing_the_sandbox_needs_allow_rules:
  assumes "manager_requirement h rules request [] = Inr (Skip True amendment)"
    and "c \<in> set (ec_commands (commands_for_exec_policy (eh_shell h) (er_command request)))"
  shows "(\<exists>rule \<in> set rules. pr_decision rule = Allow \<and> matches_prefix rule c \<noteq> None)
    \<and> (\<forall>rule \<in> set rules. matches_prefix rule c \<noteq> None \<longrightarrow> pr_decision rule = Allow)"
proof
  note skip = skip_arises [OF assms(1) [unfolded manager_requirement_def append_Nil]]
  show "\<exists>rule \<in> set rules. pr_decision rule = Allow \<and> matches_prefix rule c \<noteq> None"
    using skip explicitly_allowed_rule assms(2) by blast
  show "\<forall>rule \<in> set rules. matches_prefix rule c \<noteq> None \<longrightarrow> pr_decision rule = Allow"
    using skip matching_rule_arises [OF _ assms(2), of _ rules "[]"] by auto
qed

text \<open>
  The user is asked only where the approval policy lets them be: a requirement to ask is never
  issued under \<open>Never\<close>, and under a granular policy only if it admits approvals of rules (when a rule
  prompts) or of sandbox escapes (when none does); and nothing forbids the call.
\<close>

theorem asking_respects_the_approval_policy:
  assumes "create_exec_approval_requirement h request matched = Inr (NeedsApproval reason amendment)"
  shows "\<not> arises h request matched Forbid \<and> arises h request matched Prompt
    \<and> (case er_approval_policy request of Never \<Rightarrow> False
       | Granular g \<Rightarrow> if \<exists>r \<in> set matched. policy_match_decision r = Some Prompt then gc_rules g
           else gc_sandbox_approval g
       | _ \<Rightarrow> True)"
proof -
  from requirement_of_strongest [OF assms] obtain d where
    "arises h request matched d" and le: "\<forall>d'. arises h request matched d' \<longrightarrow> d' \<le> d" and
    "d = Prompt \<and> prompt_is_rejected_by_policy (er_approval_policy request)
             (list_ex (\<lambda>r. policy_match_decision r = Some Prompt) matched) = None"
    by (elim exE conjE, rename_tac d, case_tac d) (auto split: option.splits)
  moreover have "\<not> Forbid \<le> Prompt" by simp
  ultimately show ?thesis
    by (auto simp: prompt_is_rejected_by_policy_def list_ex_iff split: approval_policy.splits if_splits)
qed

definition sample_exec_host :: exec_host where
  "sample_exec_host = \<lparr>eh_shell = sample_env, eh_fs = sample_fs\<rparr>"

definition sample_request :: "pystr list \<Rightarrow> approval_policy \<Rightarrow> exec_request" where
  "sample_request command policy = \<lparr>er_command = command, er_approval_policy = policy,
     er_profile = ManagedProfile, er_fs_policy = sample_policy, er_sandbox_cwd = sample_work,
     er_sandbox_permissions = UseDefault, er_prefix_rule = None\<rparr>"

definition simple_rule :: "string list \<Rightarrow> decision \<Rightarrow> prefix_rule" where
  "simple_rule ws d = \<lparr>pr_first = lit (hd ws), pr_rest = map (Single \<circ> lit) (tl ws), pr_decision = d,
     pr_justification = None\<rparr>"

definition push_line :: pystr where
  "push_line = print_line [lit ''ls''] [(lit '';'', [lit ''git'', lit ''push''])]"


lemma skipping_approval_is_justified_witness:
  "known_dangerous sample_env GenericOrigin [lit ''make''] = Inr False"
proof -
  have skip: "create_exec_approval_requirement sample_exec_host (sample_request [lit ''make''] OnRequest) []
      = Inr (Skip False None)"
    "commands_for_exec_policy sample_env [lit ''make''] =
      \<lparr>ec_commands = [[lit ''make'']], ec_used_complex_parsing = False, ec_origin = GenericOrigin\<rparr>"
    by code_simp+
  have "\<not> se_nt (eh_shell sample_exec_host)" by (simp add: sample_exec_host_def sample_env_def)
  from skipping_approval_is_justified [OF skip(1) this] skip(2) show ?thesis
    by (simp add: sample_exec_host_def sample_request_def del: lit.simps)
qed

lemma bypassing_the_sandbox_needs_allow_rules_witness:
  "\<exists>rule \<in> set [simple_rule [''make''] Allow]. pr_decision rule = Allow \<and> matches_prefix rule [lit ''make''] \<noteq> None"
proof -
  have "manager_requirement sample_exec_host [simple_rule [''make''] Allow] (sample_request [lit ''make''] OnRequest) []
      = Inr (Skip True None)"
    "[lit ''make''] \<in> set (ec_commands (commands_for_exec_policy (eh_shell sample_exec_host)
      (er_command (sample_request [lit ''make''] OnRequest))))"
    by code_simp+
  from bypassing_the_sandbox_needs_allow_rules [OF this] show ?thesis by blast
qed

lemma asking_respects_the_approval_policy_witness:
  "arises sample_exec_host (sample_request [lit ''touch'', lit ''x''] UnlessTrusted) [] Prompt"
proof -
  have "create_exec_approval_requirement sample_exec_host (sample_request [lit ''touch'', lit ''x''] UnlessTrusted) []
      = Inr (NeedsApproval None (Some [lit ''touch'', lit ''x'']))"
    by code_simp
  from asking_respects_the_approval_policy [OF this] show ?thesis by blast
qed

text \<open>
  The decision for an unmatched command is taken for matched commands too, so a rule that allows a command
  does not silence its prompt: with the rule that the requirement proposes, the same requirement results.
\<close>

lemma allow_rule_leaves_the_prompt:
  "manager_requirement sample_exec_host [] (sample_request [lit ''touch'', lit ''x''] UnlessTrusted) []
     = Inr (NeedsApproval None (Some [lit ''touch'', lit ''x'']))
   \<and> manager_requirement sample_exec_host [simple_rule [''touch'', ''x''] Allow]
       (sample_request [lit ''touch'', lit ''x''] UnlessTrusted) []
     = Inr (NeedsApproval None (Some [lit ''touch'', lit ''x'']))"
  by code_simp

end
