(* ===== verification/CommandSummary.thy ===== *)
theory CommandSummary
  imports ExecApproval
begin

text \<open>
  The summaries of commands shown to the user (\<open>shell_command/parse_command.py\<close>): a call is read as a list of
  reads, listings, searches and other commands, from which what merely formats is left out; and the form of a
  command under which its approval is remembered (\<open>core/command_canonicalization.py\<close>).
\<close>

section \<open>Printing tokens\<close>

definition unsafe_char :: "int \<Rightarrow> bool" where
  "unsafe_char c \<longleftrightarrow> \<not> (48 \<le> c \<and> c \<le> 57 \<or> 65 \<le> c \<and> c \<le> 90 \<or> 97 \<le> c \<and> c \<le> 122 \<or> c = 95 \<or> c \<in> set (lit ''@%+=:,./-''))"

text \<open>\<open>s.replace("'", "'\"'\"'")\<close> and \<open>shlex.quote\<close>.\<close>

definition escape_quotes :: "pystr \<Rightarrow> pystr" where
  "escape_quotes s = concat (map (\<lambda>c. if c = 39 then [39, 34, 39, 34, 39] else [c]) s)"

definition quoted :: "pystr \<Rightarrow> pystr" where
  "quoted s = [39] @ escape_quotes s @ [39]"

definition shlex_quoted :: "pystr \<Rightarrow> pystr" where
  "shlex_quoted s = (if s \<noteq> [] \<and> \<not> list_ex unsafe_char s then s else quoted s)"

definition display_quote_token :: "pystr \<Rightarrow> pystr" where
  "display_quote_token token =
     (if shlex_quoted token = token \<and> (starts_with token (lit ''--'') \<and> 61 \<in> set token \<or> 44 \<in> set token)
      then quoted token else shlex_quoted token)"

definition NUL_TEXT :: pystr where
  "NUL_TEXT = lit ''<command included NUL byte>''"

definition shlex_join :: "pystr list \<Rightarrow> pystr" where
  "shlex_join tokens =
     (if list_ex (\<lambda>t. 0 \<in> set t) tokens then NUL_TEXT else join_with [32] (map display_quote_token tokens))"

definition try_split :: "pystr \<Rightarrow> pystr list option" where
  "try_split s = (case shlex_split s of Inl _ \<Rightarrow> None | Inr ts \<Rightarrow> Some ts)"

section \<open>Summaries\<close>

datatype parsed_command =
    ReadCommand (pc_cmd: pystr) pystr pypath
  | ListFiles (pc_cmd: pystr) "pystr option"
  | SearchCommand (pc_cmd: pystr) "pystr option" "pystr option"
  | UnknownCommand (pc_cmd: pystr)

fun is_unknown :: "parsed_command \<Rightarrow> bool" where
  "is_unknown (UnknownCommand _) = True"
| "is_unknown _ = False"

section \<open>Paths and operands\<close>

definition is_digits :: "shell_env \<Rightarrow> pystr \<Rightarrow> bool" where
  "is_digits env s \<longleftrightarrow> s \<noteq> [] \<and> list_all (se_isdigit env) s"

definition is_flag :: "pystr \<Rightarrow> bool" where
  "is_flag arg \<longleftrightarrow> starts_with arg (lit ''-'')"

definition non_flags :: "pystr list \<Rightarrow> pystr list" where
  "non_flags args = filter (\<lambda>a. \<not> is_flag a) args"

definition first_of :: "'a list \<Rightarrow> 'a option" where
  "first_of xs = (case xs of [] \<Rightarrow> None | x # _ \<Rightarrow> Some x)"

definition second_of :: "'a list \<Rightarrow> 'a option" where
  "second_of xs = (case xs of _ # y # _ \<Rightarrow> Some y | _ \<Rightarrow> None)"

definition short_display_path :: "pystr \<Rightarrow> pystr" where
  "short_display_path path =
     (let trimmed = rstrip_chars {47} (map (\<lambda>c. if c = 92 then 47 else c) path) in
      case filter (\<lambda>p. p \<noteq> [] \<and> p \<notin> set (lits [''build'', ''dist'', ''node_modules'', ''src''])) (rev (split_on 47 trimmed)) of
        [] \<Rightarrow> trimmed | part # _ \<Rightarrow> part)"

definition trim_at_connector :: "pystr list \<Rightarrow> pystr list" where
  "trim_at_connector tokens = takeWhile (\<lambda>t. t \<notin> set CONNECTORS) tokens"

definition contains_connectors :: "pystr list \<Rightarrow> bool" where
  "contains_connectors tokens = list_ex (\<lambda>t. t \<in> set CONNECTORS) tokens"

text \<open>The parts between the connectors, without empty ones.\<close>

definition connected_parts :: "pystr list \<Rightarrow> pystr list list" where
  "connected_parts tokens = filter (\<lambda>c. c \<noteq> []) (split_on_connectors tokens)"

definition is_long_assignment :: "pystr \<Rightarrow> bool" where
  "is_long_assignment arg \<longleftrightarrow> starts_with arg (lit ''--'') \<and> 61 \<in> set arg"

fun skip_flag_values :: "pystr list \<Rightarrow> pystr list \<Rightarrow> pystr list" where
  "skip_flag_values flags [] = []"
| "skip_flag_values flags (arg # args) =
     (if arg = lit ''--'' then args
      else if is_long_assignment arg then skip_flag_values flags args
      else if arg \<in> set flags then skip_flag_values flags (drop 1 args)
      else arg # skip_flag_values flags args)"

fun positional_operands :: "pystr list \<Rightarrow> pystr list \<Rightarrow> pystr list" where
  "positional_operands flags [] = []"
| "positional_operands flags (arg # args) =
     (if arg = lit ''--'' then args
      else if is_long_assignment arg then positional_operands flags args
      else if arg \<in> set flags then positional_operands flags (drop 1 args)
      else if is_flag arg then positional_operands flags args
      else arg # positional_operands flags args)"

definition first_non_flag_operand :: "string list \<Rightarrow> pystr list \<Rightarrow> pystr option" where
  "first_non_flag_operand flags args = first_of (positional_operands (lits flags) args)"

definition single_non_flag_operand :: "string list \<Rightarrow> pystr list \<Rightarrow> pystr option" where
  "single_non_flag_operand flags args =
     (case positional_operands (lits flags) args of [one] \<Rightarrow> Some one | _ \<Rightarrow> None)"

definition is_abs_like :: "shell_env \<Rightarrow> pystr \<Rightarrow> bool" where
  "is_abs_like env path \<longleftrightarrow> path_is_absolute (path_of path)
     \<or> length path \<ge> 3 \<and> path ! 1 = 58 \<and> path ! 2 = 92 \<and> se_isalpha env (path ! 0)
     \<or> starts_with path [92, 92]"

definition join_paths :: "shell_env \<Rightarrow> pystr option \<Rightarrow> pystr \<Rightarrow> pystr" where
  "join_paths env base rel =
     (if is_abs_like env rel then rel
      else case base of
        None \<Rightarrow> rel
      | Some b \<Rightarrow> if b = [] then rel else path_str (path_join (path_of b) (path_of rel)))"

fun cd_target :: "pystr option \<Rightarrow> pystr list \<Rightarrow> pystr option" where
  "cd_target target [] = target"
| "cd_target target (arg # args) =
     (if arg = lit ''--'' then first_of args
      else if is_flag arg then cd_target target args
      else cd_target (Some arg) args)"

definition is_pathish :: "pystr \<Rightarrow> bool" where
  "is_pathish v \<longleftrightarrow> v = lit ''.'' \<or> v = lit ''..'' \<or> starts_with v (lit ''./'') \<or> starts_with v (lit ''../'')
     \<or> 47 \<in> set v \<or> 92 \<in> set v"

section \<open>The commands known to the summary\<close>

definition is_valid_sed_n_arg :: "shell_env \<Rightarrow> pystr option \<Rightarrow> bool" where
  "is_valid_sed_n_arg env arg =
     (case arg of
        None \<Rightarrow> False
      | Some a \<Rightarrow> ends_with a (lit ''p'') \<and>
          (case split_on 44 (butlast a) of
             [x] \<Rightarrow> is_digits env x
           | [x, y] \<Rightarrow> is_digits env x \<and> is_digits env y
           | _ \<Rightarrow> False))"

fun sed_range_script :: "shell_env \<Rightarrow> pystr list \<Rightarrow> bool" where
  "sed_range_script env [] = False"
| "sed_range_script env (arg # args) =
     (if arg \<in> set (lits [''-e'', ''--expression''])
      then is_valid_sed_n_arg env (first_of args) \<or> sed_range_script env (drop 1 args)
      else if arg \<in> set (lits [''-f'', ''--file'']) then sed_range_script env (drop 1 args)
      else sed_range_script env args)"

definition sed_read_path :: "shell_env \<Rightarrow> pystr list \<Rightarrow> pystr option" where
  "sed_read_path env all_args =
     (let args = trim_at_connector all_args in
      if lit ''-n'' \<notin> set args then None
      else if \<not> sed_range_script env args \<and> \<not> list_ex (\<lambda>a. \<not> is_flag a \<and> is_valid_sed_n_arg env (Some a)) args then None
      else case non_flags (skip_flag_values (lits [''-e'', ''-f'', ''--expression'', ''--file'']) args) of
        [] \<Rightarrow> None
      | a # rest \<Rightarrow> if is_valid_sed_n_arg env (Some a) then first_of rest else Some a)"

fun grep_loop :: "pystr option \<Rightarrow> pystr list \<Rightarrow> pystr list \<Rightarrow> pystr option \<times> pystr list" where
  "grep_loop pattern operands [] = (pattern, operands)"
| "grep_loop pattern operands (arg # args) =
     (if arg = lit ''--'' then (pattern, operands @ args)
      else if arg \<in> set (lits [''-e'', ''--regexp'', ''-f'', ''--file''])
      then grep_loop (if pattern = None then first_of args else pattern) operands (drop 1 args)
      else if arg \<in> set (lits [''-m'', ''--max-count'', ''-C'', ''--context'', ''-A'', ''--after-context'', ''-B'', ''--before-context''])
      then grep_loop pattern operands (drop 1 args)
      else if is_flag arg then grep_loop pattern operands args
      else grep_loop pattern (operands @ [arg]) args)"

definition parse_grep_like :: "pystr list \<Rightarrow> pystr list \<Rightarrow> parsed_command" where
  "parse_grep_like main_cmd args =
     (let (pattern, operands) = grep_loop None [] (trim_at_connector args)
      in SearchCommand (shlex_join main_cmd)
           (if pattern \<noteq> None then pattern else first_of operands)
           (map_option short_display_path (if pattern \<noteq> None then first_of operands else second_of operands)))"

definition awk_data_file_operand :: "pystr list \<Rightarrow> pystr option" where
  "awk_data_file_operand all_args =
     (let args = trim_at_connector all_args;
          operands = non_flags (skip_flag_values (lits [''-F'', ''-v'', ''-f'', ''--field-separator'', ''--assign'', ''--file'']) args)
      in if list_ex (\<lambda>a. a \<in> set (lits [''-f'', ''--file''])) args then first_of operands else second_of operands)"

fun python_script :: "pystr list \<Rightarrow> pystr option" where
  "python_script [] = None"
| "python_script (arg # args) = (if arg = lit ''-c'' \<and> args \<noteq> [] then Some (hd args) else python_script args)"

definition python_walks_files :: "pystr list \<Rightarrow> bool" where
  "python_walks_files args =
     (case python_script (trim_at_connector args) of
        None \<Rightarrow> False
      | Some script \<Rightarrow> list_ex (contains_str script)
          (lits [''os.walk'', ''os.listdir'', ''os.scandir'', ''glob.glob'', ''glob.iglob'', ''pathlib.Path'', ''.rglob('']))"

definition is_python_command :: "pystr \<Rightarrow> bool" where
  "is_python_command cmd \<longleftrightarrow> cmd \<in> set (lits [''python'', ''python2'', ''python3''])
     \<or> starts_with cmd (lit ''python2.'') \<or> starts_with cmd (lit ''python3.'')"

definition parse_fd_query_and_path :: "pystr list \<Rightarrow> pystr option \<times> pystr option" where
  "parse_fd_query_and_path args =
     (case non_flags (skip_flag_values
         (lits [''-t'', ''--type'', ''-e'', ''--extension'', ''-E'', ''--exclude'', ''--search-path'']) (trim_at_connector args)) of
        [] \<Rightarrow> (None, None)
      | [one] \<Rightarrow> if is_pathish one then (None, Some (short_display_path one)) else (Some one, None)
      | query # path # _ \<Rightarrow> (Some query, Some (short_display_path path)))"

fun find_query :: "pystr list \<Rightarrow> pystr option" where
  "find_query [] = None"
| "find_query (arg # args) =
     (if arg \<in> set (lits [''-name'', ''-iname'', ''-path'', ''-regex'']) \<and> args \<noteq> [] then Some (hd args) else find_query args)"

definition parse_find_query_and_path :: "pystr list \<Rightarrow> pystr option \<times> pystr option" where
  "parse_find_query_and_path tail =
     (let args = trim_at_connector tail in
      (find_query args,
       map_option short_display_path (first_of (filter (\<lambda>a. \<not> is_flag a \<and> a \<notin> set (lits [''!'', ''('', '')''])) args))))"

definition read_or_unknown :: "pystr \<Rightarrow> pystr option \<Rightarrow> parsed_command" where
  "read_or_unknown cmd path =
     (case path of None \<Rightarrow> UnknownCommand cmd | Some p \<Rightarrow> ReadCommand cmd (short_display_path p) (path_of p))"

definition list_or_search :: "pystr \<Rightarrow> pystr option \<times> pystr option \<Rightarrow> parsed_command" where
  "list_or_search cmd query_path =
     (case query_path of (None, path) \<Rightarrow> ListFiles cmd path | (Some q, path) \<Rightarrow> SearchCommand cmd (Some q) path)"

text \<open>A count for \<open>head\<close>, and for \<open>tail\<close>, which also takes one with a plus sign.\<close>

definition valid_count :: "shell_env \<Rightarrow> bool \<Rightarrow> pystr \<Rightarrow> bool" where
  "valid_count env is_tail v = is_digits env (if is_tail \<and> starts_with v (lit ''+'') then drop 1 v else v)"

definition head_or_tail_read :: "shell_env \<Rightarrow> bool \<Rightarrow> pystr list \<Rightarrow> pystr list \<Rightarrow> parsed_command" where
  "head_or_tail_read env is_tail main_cmd tail =
     (let cmd = shlex_join main_cmd;
          counted = (case tail of
              [] \<Rightarrow> None
            | first # rest \<Rightarrow>
                if first = lit ''-n'' \<and> rest \<noteq> [] then (if valid_count env is_tail (hd rest) then Some (drop 2 tail) else None)
                else if starts_with first (lit ''-n'') \<and> valid_count env is_tail (drop 2 first) then Some tail
                else None);
          path = (case counted of None \<Rightarrow> None | Some candidates \<Rightarrow> first_of (non_flags candidates))
      in case path of
           Some p \<Rightarrow> ReadCommand cmd (short_display_path p) (path_of p)
         | None \<Rightarrow> (case tail of
             [one] \<Rightarrow> if is_flag one then UnknownCommand cmd else ReadCommand cmd (short_display_path one) (path_of one)
           | _ \<Rightarrow> UnknownCommand cmd))"

definition summarize_main_tokens :: "shell_env \<Rightarrow> pystr list \<Rightarrow> parsed_command" where
  "summarize_main_tokens env main_cmd =
     (case main_cmd of
        [] \<Rightarrow> UnknownCommand []
      | head # tail \<Rightarrow>
          (let cmd = shlex_join main_cmd;
               listing = (\<lambda>flags args. ListFiles cmd (map_option short_display_path (first_non_flag_operand flags args)));
               reading = (\<lambda>flags. read_or_unknown cmd (single_non_flag_operand flags tail));
               candidates = (\<lambda>flags. non_flags (skip_flag_values (lits flags) (trim_at_connector tail)));
               searching = (\<lambda>operands. SearchCommand cmd (first_of operands) (map_option short_display_path (second_of operands)))
           in
           if head = lit ''ls'' then
             listing [''-I'', ''-w'', ''--block-size'', ''--format'', ''--time-style'', ''--color'', ''--quoting-style''] tail
           else if head \<in> set (lits [''eza'', ''exa'']) then
             listing [''-I'', ''--ignore-glob'', ''--color'', ''--sort'', ''--time-style'', ''--time''] tail
           else if head = lit ''tree'' then listing [''-L'', ''-P'', ''-I'', ''--charset'', ''--filelimit'', ''--sort''] tail
           else if head = lit ''du'' then
             listing [''-d'', ''--max-depth'', ''-B'', ''--block-size'', ''--exclude'', ''--time-style''] tail
           else if head \<in> set (lits [''rg'', ''rga'', ''ripgrep-all'']) then
             (let operands = candidates [''-g'', ''--glob'', ''--iglob'', ''-t'', ''--type'', ''--type-add'', ''--type-not'',
                ''-m'', ''--max-count'', ''-A'', ''-B'', ''-C'', ''--context'', ''--max-depth'']
              in if lit ''--files'' \<in> set (trim_at_connector tail)
                 then ListFiles cmd (map_option short_display_path (first_of operands)) else searching operands)
           else if head = lit ''git'' then
             (case tail of
                sub # args \<Rightarrow>
                  if sub = lit ''grep'' then parse_grep_like main_cmd args
                  else if sub = lit ''ls-files'' then listing [''--exclude'', ''--exclude-from'', ''--pathspec-from-file''] args
                  else UnknownCommand cmd
              | [] \<Rightarrow> UnknownCommand cmd)
           else if head = lit ''fd'' then list_or_search cmd (parse_fd_query_and_path tail)
           else if head = lit ''find'' then list_or_search cmd (parse_find_query_and_path tail)
           else if head \<in> set (lits [''grep'', ''egrep'', ''fgrep'']) then parse_grep_like main_cmd tail
           else if head \<in> set (lits [''ag'', ''ack'', ''pt'']) then
             searching (candidates [''-G'', ''-g'', ''--file-search-regex'', ''--ignore-dir'', ''--ignore-file'', ''--path-to-ignore''])
           else if head = lit ''cat'' then reading []
           else if head \<in> set (lits [''bat'', ''batcat'']) then
             reading [''--theme'', ''--language'', ''--style'', ''--terminal-width'', ''--tabs'', ''--line-range'', ''--map-syntax'']
           else if head = lit ''less'' then
             reading [''-p'', ''-P'', ''-x'', ''-y'', ''-z'', ''-j'', ''--pattern'', ''--prompt'', ''--tabs'', ''--shift'', ''--jump-target'']
           else if head = lit ''more'' then reading []
           else if head = lit ''head'' then head_or_tail_read env False main_cmd tail
           else if head = lit ''tail'' then head_or_tail_read env True main_cmd tail
           else if head = lit ''awk'' then read_or_unknown cmd (awk_data_file_operand tail)
           else if head = lit ''nl'' then
             read_or_unknown cmd (first_of (non_flags (skip_flag_values (lits [''-s'', ''-w'', ''-v'', ''-i'', ''-b'']) tail)))
           else if head = lit ''sed'' then read_or_unknown cmd (sed_read_path env tail)
           else if is_python_command head \<and> python_walks_files tail then ListFiles cmd None
           else UnknownCommand cmd))"

section \<open>What is left out\<close>

fun xargs_operands :: "pystr list \<Rightarrow> pystr list" where
  "xargs_operands [] = []"
| "xargs_operands (token # tokens) =
     (if token = lit ''--'' then tokens
      else if \<not> is_flag token then token # tokens
      else if token \<in> set (lits [''-E'', ''-e'', ''-I'', ''-L'', ''-n'', ''-P'', ''-s'']) then xargs_operands (drop 1 tokens)
      else xargs_operands tokens)"

definition xargs_subcommand :: "pystr list \<Rightarrow> pystr list option" where
  "xargs_subcommand tokens =
     (if tokens = [] \<or> hd tokens \<noteq> lit ''xargs'' \<or> xargs_operands (tl tokens) = [] then None
      else Some (xargs_operands (tl tokens)))"

definition xargs_has_in_place_flag :: "pystr list \<Rightarrow> bool" where
  "xargs_has_in_place_flag tokens = list_ex (\<lambda>t. starts_with t (lit ''-i'') \<or> starts_with t (lit ''-pi'')) tokens"

fun xargs_is_mutating_subcommand :: "pystr list \<Rightarrow> bool" where
  "xargs_is_mutating_subcommand [] = False"
| "xargs_is_mutating_subcommand (head # tail) =
     (if head \<in> set (lits [''perl'', ''ruby'']) then xargs_has_in_place_flag tail
      else if head = lit ''sed'' then xargs_has_in_place_flag tail \<or> lit ''--in-place'' \<in> set tail
      else if head = lit ''rg'' then lit ''--replace'' \<in> set tail
      else False)"

definition is_mutating_xargs_command :: "pystr list \<Rightarrow> bool" where
  "is_mutating_xargs_command tokens =
     (case xargs_subcommand tokens of None \<Rightarrow> False | Some sub \<Rightarrow> xargs_is_mutating_subcommand sub)"

text \<open>\<open>head\<close> and \<open>tail\<close> without a file.\<close>

definition reads_no_file :: "shell_env \<Rightarrow> bool \<Rightarrow> pystr list \<Rightarrow> bool" where
  "reads_no_file env is_tail args =
     (case args of
        [] \<Rightarrow> True
      | [a] \<Rightarrow> is_flag a
      | [a, n] \<Rightarrow> a \<in> set (lits [''-n'', ''-c'']) \<and> valid_count env is_tail n
      | _ \<Rightarrow> False)"

definition is_small_formatting_command :: "shell_env \<Rightarrow> pystr list \<Rightarrow> bool" where
  "is_small_formatting_command env tokens =
     (case tokens of
        [] \<Rightarrow> False
      | cmd # args \<Rightarrow>
          if cmd \<in> set (lits [''wc'', ''tr'', ''cut'', ''sort'', ''uniq'', ''tee'', ''column'', ''yes'', ''printf'']) then True
          else if cmd = lit ''xargs'' then \<not> is_mutating_xargs_command tokens
          else if cmd = lit ''awk'' then awk_data_file_operand args = None
          else if cmd = lit ''head'' then reads_no_file env False args
          else if cmd = lit ''tail'' then reads_no_file env True args
          else if cmd = lit ''sed'' then sed_read_path env args = None
          else False)"

text \<open>The list without the first element that has a property.\<close>

definition remove_first :: "('a \<Rightarrow> bool) \<Rightarrow> 'a list \<Rightarrow> 'a list" where
  "remove_first P xs = takeWhile (\<lambda>x. \<not> P x) xs @ drop 1 (dropWhile (\<lambda>x. \<not> P x) xs)"

text \<open>An unknown command whose text splits into tokens with a property.\<close>

definition unknown_with :: "(pystr list \<Rightarrow> bool) \<Rightarrow> parsed_command \<Rightarrow> bool" where
  "unknown_with P item \<longleftrightarrow> is_unknown item
     \<and> (case try_split (pc_cmd item) of None \<Rightarrow> False | Some tokens \<Rightarrow> tokens \<noteq> [] \<and> P tokens)"

definition simplify_once :: "parsed_command list \<Rightarrow> parsed_command list option" where
  "simplify_once commands =
     (let is_cd = unknown_with (\<lambda>ts. hd ts = lit ''cd'');
          is_true = (\<lambda>item. is_unknown item \<and> pc_cmd item = lit ''true'');
          is_nl = unknown_with (\<lambda>ts. hd ts = lit ''nl'' \<and> list_all is_flag (tl ts))
      in if length commands \<le> 1 then None
         else if unknown_with (\<lambda>ts. hd ts = lit ''echo'') (hd commands) then Some (tl commands)
         else if list_ex is_cd (butlast commands) then Some (remove_first is_cd (butlast commands) @ [last commands])
         else if list_ex is_true commands then Some (remove_first is_true commands)
         else if list_ex is_nl commands then Some (remove_first is_nl commands)
         else None)"

lemma length_remove_first: "list_ex P xs \<Longrightarrow> Suc (length (remove_first P xs)) = length xs"
  by (induction xs) (auto simp: remove_first_def)

lemma simplify_once_shorter: "simplify_once commands = Some simpler \<Longrightarrow> length simpler < length commands"
  using length_remove_first [of _ commands] length_remove_first [of _ "butlast commands"]
  by (auto simp: simplify_once_def Let_def split: if_splits) (metis Suc_n_not_le_n length_remove_first nat_le_linear not_less)+

function simplify_commands :: "parsed_command list \<Rightarrow> parsed_command list" where
  "simplify_commands commands =
     (case simplify_once commands of None \<Rightarrow> commands | Some simpler \<Rightarrow> simplify_commands simpler)"
  by pat_completeness auto

termination
  by (relation "measure length") (simp_all add: simplify_once_shorter)

declare simplify_commands.simps [simp del]

section \<open>Reading a call\<close>

definition apply_cwd_to_read :: "shell_env \<Rightarrow> pystr option \<Rightarrow> parsed_command \<Rightarrow> parsed_command" where
  "apply_cwd_to_read env cwd parsed =
     (case parsed of
        ReadCommand cmd name path \<Rightarrow>
          if cwd = None then parsed else ReadCommand cmd name (path_of (join_paths env cwd (path_str path)))
      | _ \<Rightarrow> parsed)"

text \<open>The loop over the commands, with the directory the line has changed to.\<close>

fun summarize_all :: "shell_env \<Rightarrow> pystr option \<Rightarrow> pystr list list \<Rightarrow> parsed_command list" where
  "summarize_all env cwd [] = []"
| "summarize_all env cwd (tokens # rest) =
     (if tokens \<noteq> [] \<and> hd tokens = lit ''cd'' then
        summarize_all env
          (case cd_target None (tl tokens) of
             None \<Rightarrow> cwd
           | Some target \<Rightarrow> Some (if cwd = None then target else join_paths env cwd target)) rest
      else apply_cwd_to_read env cwd (summarize_main_tokens env tokens) # summarize_all env cwd rest)"

definition adjacent :: "'a \<Rightarrow> 'a \<Rightarrow> 'a list \<Rightarrow> bool" where
  "adjacent a b ts = list_ex (\<lambda>(x, y). x = a \<and> y = b) (zip ts (drop 1 ts))"

definition with_shell_script_command :: "pystr \<Rightarrow> pystr list \<Rightarrow> bool \<Rightarrow> parsed_command \<Rightarrow> parsed_command" where
  "with_shell_script_command script script_tokens had_connectors command =
     (case command of
        ReadCommand cmd name path \<Rightarrow>
          if had_connectors then
            (if lit ''|'' \<in> set script_tokens \<and> adjacent (lit ''sed'') (lit ''-n'') script_tokens
             then ReadCommand script name path else command)
          else ReadCommand (shlex_join script_tokens) name path
      | ListFiles cmd path \<Rightarrow> if had_connectors then command else ListFiles (shlex_join script_tokens) path
      | SearchCommand cmd query path \<Rightarrow>
          if had_connectors then command else SearchCommand (shlex_join script_tokens) query path
      | UnknownCommand cmd \<Rightarrow> UnknownCommand (if had_connectors then script else shlex_join script_tokens))"

definition summarize_line :: "shell_env \<Rightarrow> pystr \<Rightarrow> pystr list list \<Rightarrow> parsed_command list" where
  "summarize_line env script all_commands =
     (let script_tokens = (case try_split script of None \<Rightarrow> [script] | Some [] \<Rightarrow> [script] | Some ts \<Rightarrow> ts);
          filtered = filter (\<lambda>c. \<not> is_small_formatting_command env c) all_commands;
          summaries = summarize_all env None filtered;
          commands = (if length summaries > 1
            then simplify_commands (filter (\<lambda>i. \<not> (is_unknown i \<and> pc_cmd i = lit ''true'')) summaries) else summaries)
      in if filtered = [] then [UnknownCommand script]
         else (case commands of
             [one] \<Rightarrow> [with_shell_script_command script script_tokens
               (length all_commands > 1 \<or> contains_connectors script_tokens) one]
           | _ \<Rightarrow> commands))"

definition parse_shell_lc_commands :: "shell_env \<Rightarrow> pystr list \<Rightarrow> parsed_command list option" where
  "parse_shell_lc_commands env original =
     (case extract_bash_command original of
        None \<Rightarrow> None
      | Some (_, script) \<Rightarrow>
          (case try_parse_word_only_commands_sequence (bash_plain_split script) script of
             None \<Rightarrow> Some [UnknownCommand script]
           | Some all_commands \<Rightarrow>
               Some (if all_commands = [] then [UnknownCommand script] else summarize_line env script all_commands)))"

definition normalize_tokens :: "pystr list \<Rightarrow> pystr list" where
  "normalize_tokens cmd =
     (if length cmd \<ge> 2 \<and> hd cmd \<in> set (lits [''yes'', ''y'', ''no'', ''n'']) \<and> cmd ! 1 = lit ''|'' then drop 2 cmd
      else if length cmd = 3 \<and> hd cmd \<in> set (lits [''bash'', ''zsh'']) \<and> cmd ! 1 \<in> set (lits [''-c'', ''-lc''])
      then (case try_split (cmd ! 2) of None \<Rightarrow> cmd | Some [] \<Rightarrow> cmd | Some ts \<Rightarrow> ts)
      else cmd)"

definition parse_command_impl :: "shell_env \<Rightarrow> pystr list \<Rightarrow> parsed_command list" where
  "parse_command_impl env command =
     (case parse_shell_lc_commands env command of
        Some commands \<Rightarrow> commands
      | None \<Rightarrow>
          (case extract_powershell_command env command of
             Some (_, script) \<Rightarrow> [UnknownCommand script]
           | None \<Rightarrow>
               (let normalized = normalize_tokens command in
                simplify_commands (summarize_all env None
                  (if contains_connectors normalized then connected_parts normalized else [normalized])))))"

fun dedupe :: "'a list \<Rightarrow> 'a list" where
  "dedupe (x # y # xs) = (if x = y then dedupe (y # xs) else x # dedupe (y # xs))"
| "dedupe xs = xs"

definition single_unknown_for_command :: "shell_env \<Rightarrow> pystr list \<Rightarrow> parsed_command" where
  "single_unknown_for_command env command =
     (case extract_bash_command command of
        Some (_, script) \<Rightarrow> UnknownCommand script
      | None \<Rightarrow> (case extract_powershell_command env command of
          Some (_, script) \<Rightarrow> UnknownCommand script
        | None \<Rightarrow> UnknownCommand (shlex_join command)))"

definition parse_command :: "shell_env \<Rightarrow> pystr list \<Rightarrow> parsed_command list" where
  "parse_command env command =
     (let deduped = dedupe (parse_command_impl env command) in
      if length deduped > 1 \<and> list_ex is_unknown deduped then [single_unknown_for_command env command] else deduped)"

section \<open>The remembered form of a command\<close>

definition canonicalize_command_for_approval :: "shell_env \<Rightarrow> pystr list \<Rightarrow> pystr list" where
  "canonicalize_command_for_approval env command =
     (let canonical_script =
        (case extract_bash_command command of
           Some (_, script) \<Rightarrow> [lit ''__codex_shell_script__'', if length command > 1 then command ! 1 else [], script]
         | None \<Rightarrow> (case extract_powershell_command env command of
             Some (_, script) \<Rightarrow> [lit ''__codex_powershell_script__'', script]
           | None \<Rightarrow> command))
      in case parse_shell_lc_plain_commands command of Some [c] \<Rightarrow> c | _ \<Rightarrow> canonical_script)"

section \<open>What is printed is read back\<close>

lemma quote_body:
  "shlex_loop no_punctuation (SxQuote 39) token q (escape_quotes s @ 39 # rest) = shlex_loop no_punctuation SxWord (token @ s) True rest"
proof (induction s arbitrary: token q)
  case Nil
  then show ?case by (simp add: escape_quotes_def)
next
  case (Cons c s)
  then show ?case by (cases "c = 39") (simp_all add: escape_quotes_def shlex_space_def shlex_quote_def)
qed

lemma quoted_word:
  "shlex_loop no_punctuation SxStart [] False (quoted s @ rest) = shlex_loop no_punctuation SxWord s True rest"
  using quote_body [of "[]" False s rest]
  by (simp add: quoted_def shlex_space_def shlex_quote_def no_punctuation_def)

lemma display_quote_cases: "(display_quote_token t = t \<and> plain_word no_punctuation t) \<or> display_quote_token t = quoted t"
proof (cases "t \<noteq> [] \<and> \<not> list_ex unsafe_char t")
  case True
  then have "plain_word no_punctuation t"
    by (auto simp: plain_word_def plain_char_def no_punctuation_def list_all_iff list_ex_iff unsafe_char_def shlex_space_def
        shlex_quote_def)
  then show ?thesis using True by (auto simp: display_quote_token_def shlex_quoted_def)
next
  case False
  then show ?thesis by (auto simp: display_quote_token_def shlex_quoted_def)
qed

lemma display_token_read:
  assumes "rest = [] \<or> (\<exists>r. rest = 32 # r)"
  shows "shlex_split (display_quote_token t @ rest) = bindE (shlex_split (drop 1 rest)) (\<lambda>ts. Inr (t # ts))"
proof (cases "display_quote_token t = t \<and> plain_word no_punctuation t")
  case True
  then show ?thesis using assms shlex_tokens_word [of no_punctuation t] shlex_tokens_space [of no_punctuation t]
    by (auto simp: shlex_split_def shlex_tokens_def)
next
  case False
  then have "display_quote_token t = quoted t" using display_quote_cases by blast
  then show ?thesis using assms quoted_word [of t]
    by (auto simp: shlex_split_def shlex_tokens_def shlex_emit_def shlex_space_def)
qed

text \<open>The printed text of a command, as the user sees it, splits into exactly the tokens of the command.\<close>

lemma displayed_text_is_the_command:
  assumes "\<not> list_ex (\<lambda>t. 0 \<in> set t) tokens"
  shows "shlex_split (shlex_join tokens) = Inr tokens"
proof -
  have "shlex_split (join_with [32] (map display_quote_token ts)) = Inr ts" for ts
  proof (induction ts)
    case Nil
    then show ?case by (simp add: shlex_split_def shlex_tokens_def)
  next
    case (Cons t ts)
    then show ?case using display_token_read [of "[]" t] display_token_read [of "32 # join_with [32] (map display_quote_token ts)" t]
      by (cases ts) (simp_all add: shlex_split_def shlex_tokens_def)
  qed
  then show ?thesis using assms by (simp add: shlex_join_def)
qed

lemma NUL_text_split: "shlex_split NUL_TEXT = Inr (lits [''<command'', ''included'', ''NUL'', ''byte>''])"
  by (simp add: NUL_TEXT_def lits_def) code_simp

text \<open>So the text of a command says what its first token is.\<close>

lemma unknown_with_join:
  assumes "unknown_with P (UnknownCommand (shlex_join tokens))"
  shows "(tokens \<noteq> [] \<and> P tokens) \<or> P (lits [''<command'', ''included'', ''NUL'', ''byte>''])"
proof (cases "list_ex (\<lambda>t. 0 \<in> set t) tokens")
  case True
  then show ?thesis using assms NUL_text_split by (simp add: unknown_with_def try_split_def shlex_join_def)
next
  case False
  then show ?thesis using assms displayed_text_is_the_command by (simp add: unknown_with_def try_split_def)
qed

section \<open>Nothing else is left out\<close>

lemma pc_cmd_if: "pc_cmd x = c \<Longrightarrow> pc_cmd y = c \<Longrightarrow> pc_cmd (if b then x else y) = c"
  by simp

lemma pc_cmd_summarize [simp]: "pc_cmd (summarize_main_tokens env tokens) = shlex_join tokens"
proof (cases tokens)
  case Nil
  then show ?thesis by (simp add: summarize_main_tokens_def shlex_join_def)
next
  case (Cons head tail)
  have leaves: "pc_cmd (parse_grep_like c args) = shlex_join c" "pc_cmd (read_or_unknown x path) = x"
      "pc_cmd (list_or_search x qp) = x" "pc_cmd (head_or_tail_read env is_tail c args) = shlex_join c"
    for c args x path qp is_tail
    by (simp_all add: parse_grep_like_def read_or_unknown_def list_or_search_def head_or_tail_read_def Let_def
        split: prod.splits option.splits list.splits)
  show ?thesis
  proof (cases tail)
    case Nil
    show ?thesis
      unfolding Cons Nil summarize_main_tokens_def Let_def list.case
      by (intro pc_cmd_if; simp only: leaves parsed_command.sel)
  next
    case (Cons sub args)
    show ?thesis
      unfolding \<open>tokens = head # tail\<close> Cons summarize_main_tokens_def Let_def list.case
      by (intro pc_cmd_if; simp only: leaves parsed_command.sel)
  qed
qed

lemma unknown_apply_cwd [simp]:
  "is_unknown (apply_cwd_to_read env cwd item) = is_unknown item" "pc_cmd (apply_cwd_to_read env cwd item) = pc_cmd item"
  by (cases item; simp add: apply_cwd_to_read_def)+

lemma set_dedupe [simp]: "set (dedupe xs) = set xs"
  by (induction xs rule: dedupe.induct) auto

definition removable :: "parsed_command \<Rightarrow> bool" where
  "removable item \<longleftrightarrow> unknown_with (\<lambda>ts. hd ts = lit ''echo'') item \<or> unknown_with (\<lambda>ts. hd ts = lit ''cd'') item
     \<or> is_unknown item \<and> pc_cmd item = lit ''true'' \<or> unknown_with (\<lambda>ts. hd ts = lit ''nl'' \<and> list_all is_flag (tl ts)) item"

lemma remove_first_keeps: "x \<in> set xs \<Longrightarrow> \<not> P x \<Longrightarrow> x \<in> set (remove_first P xs)"
  by (induction xs) (auto simp: remove_first_def)

lemma simplify_once_keeps:
  assumes "simplify_once commands = Some simpler" "x \<in> set commands" "\<not> removable x"
  shows "x \<in> set simpler"
proof -
  have "commands \<noteq> []" using assms(2) by auto
  then have cs: "commands = butlast commands @ [last commands]" "commands = hd commands # tl commands" by simp_all
  have "x \<in> set (butlast commands) \<or> x = last commands" using assms(2) by (subst (asm) cs(1)) auto
  then have removed: "x \<in> set (remove_first P (butlast commands) @ [last commands])" if "\<not> P x" for P
    using remove_first_keeps [of x "butlast commands" P] that by auto
  have "x = hd commands \<or> x \<in> set (tl commands)" using assms(2) by (subst (asm) cs(2)) auto
  then show ?thesis using assms(1,3) removed remove_first_keeps [OF assms(2)]
    unfolding simplify_once_def Let_def removable_def by (auto split: if_splits)
qed

lemma simplify_commands_keeps: "x \<in> set commands \<Longrightarrow> \<not> removable x \<Longrightarrow> x \<in> set (simplify_commands commands)"
proof (induction commands rule: simplify_commands.induct)
  case (1 commands)
  then show ?case
    by (subst simplify_commands.simps) (auto split: option.splits dest: simplify_once_keeps)
qed

text \<open>The commands that may be missing from the summary of a line.\<close>

definition is_left_out :: "shell_env \<Rightarrow> pystr list \<Rightarrow> bool" where
  "is_left_out env c \<longleftrightarrow> is_small_formatting_command env c
     \<or> c \<noteq> [] \<and> (hd c = lit ''cd'' \<or> hd c = lit ''echo'' \<or> c = [lit ''true''] \<or> hd c = lit ''nl'' \<and> list_all is_flag (tl c))"

lemma removable_is_left_out:
  assumes "removable (apply_cwd_to_read env cwd (summarize_main_tokens env c))"
  shows "is_left_out env c"
proof -
  let ?item = "apply_cwd_to_read env cwd (summarize_main_tokens env c)"
  have "is_unknown ?item" using assms by (auto simp: removable_def unknown_with_def)
  then have item: "?item = UnknownCommand (shlex_join c)"
    using unknown_apply_cwd(2) [of env cwd "summarize_main_tokens env c"] by (cases ?item) auto
  have first: "hd (lits [''<command'', ''included'', ''NUL'', ''byte>'']) = lit ''<command''" by (simp add: lits_def del: lit.simps)
  have no: "lit ''<command'' \<noteq> lit ''echo''" "lit ''<command'' \<noteq> lit ''cd''" "lit ''<command'' \<noteq> lit ''nl''"
    by (simp_all only: lit_inject) simp_all
  consider "unknown_with (\<lambda>ts. hd ts = lit ''echo'') (UnknownCommand (shlex_join c))"
    | "unknown_with (\<lambda>ts. hd ts = lit ''cd'') (UnknownCommand (shlex_join c))"
    | "shlex_join c = lit ''true''"
    | "unknown_with (\<lambda>ts. hd ts = lit ''nl'' \<and> list_all is_flag (tl ts)) (UnknownCommand (shlex_join c))"
    using assms unfolding item removable_def by auto
  then show ?thesis
  proof cases
    case 1
    from unknown_with_join [OF this] show ?thesis using first no(1) by (auto simp: is_left_out_def simp del: lit.simps)
  next
    case 2
    from unknown_with_join [OF this] show ?thesis using first no(2) by (auto simp: is_left_out_def simp del: lit.simps)
  next
    case 3
    have "\<not> list_ex (\<lambda>t. 0 \<in> set t) c"
    proof
      assume "list_ex (\<lambda>t. 0 \<in> set t) c"
      then have "NUL_TEXT = lit ''true''" using 3 by (simp add: shlex_join_def)
      then show False by (simp add: NUL_TEXT_def)
    qed
    then have "Inr c = shlex_split (lit ''true'')" using displayed_text_is_the_command [of c] 3 by simp
    also have "\<dots> = Inr [lit ''true'']" by code_simp
    finally show ?thesis by (simp add: is_left_out_def del: lit.simps)
  next
    case 4
    from unknown_with_join [OF this] show ?thesis using first no(3) by (auto simp: is_left_out_def simp del: lit.simps)
  qed
qed

lemma summarize_all_has:
  assumes "c \<in> set cs" "\<not> (c \<noteq> [] \<and> hd c = lit ''cd'')"
  shows "\<exists>cwd. apply_cwd_to_read env cwd (summarize_main_tokens env c) \<in> set (summarize_all env w cs)"
  using assms
proof (induction cs arbitrary: w)
  case Nil
  then show ?case by simp
next
  case (Cons c' cs)
  show ?case
  proof (cases "c = c'")
    case True
    then show ?thesis using Cons.prems(2) by (auto simp del: lit.simps)
  next
    case False
    then have "c \<in> set cs" using Cons.prems(1) by simp
    then show ?thesis using Cons.IH [OF _ Cons.prems(2)] by (simp del: lit.simps) (metis (no_types))
  qed
qed

lemma with_shell_script_cases:
  "with_shell_script_command script tokens b item = item \<or> pc_cmd (with_shell_script_command script tokens b item) = script
    \<or> pc_cmd (with_shell_script_command script tokens b item) = shlex_join tokens"
  by (cases item) (auto simp: with_shell_script_command_def simp del: lit.simps)


section \<open>Samples\<close>

definition removing_line :: "pystr list" where
  "removing_line = lits [''bash'', ''-lc'', ''ls && rm x'']"

lemma removing_line_read:
  "extract_bash_command removing_line = Some (lit ''bash'', lit ''ls && rm x'')"
  "try_parse_word_only_commands_sequence (bash_plain_split (lit ''ls && rm x'')) (lit ''ls && rm x'') =
     Some [[lit ''ls''], [lit ''rm'', lit ''x'']]"
  by (code_simp, code_simp)


text \<open>
  An edit in place is taken for formatting: the summary of a line that lists and then edits a file says that it
  lists. The remembered form of a call leaves out which shell it names.
\<close>

lemma edit_in_place_is_left_out:
  "parse_command sample_env (lits [''bash'', ''-lc'', ''ls && sed -i s/a/b/ f'']) = [ListFiles (lit ''ls'') None]"
  by code_simp

lemma remembered_form_leaves_out_the_shell:
  "canonicalize_command_for_approval sample_env (lits [''/tmp/evil/bash'', ''-lc'', ''ls'']) = [lit ''ls'']"
  by code_simp

end
