(* ===== verification/Readiness.thy ===== *)
theory Readiness
  imports Prelude "HOL-Library.Word"
begin

text \<open>
  \<open>pycodex/utils/readiness\<close>: a flag that becomes ready when a subscriber hands its token back, or when
  it is looked at while nobody has subscribed. Calls of tasks interleave where they await the lock; the
  section that holds the lock does not await anything and is one step. A token id is a signed number of
  32 bits that wraps around.
\<close>

section \<open>Token ids\<close>

definition i32_wrap :: "int \<Rightarrow> int" where
  "i32_wrap value' = (value' + 2 ^ 31) mod 2 ^ 32 - 2 ^ 31"

definition is_i32 :: "int \<Rightarrow> bool" where
  "is_i32 v \<longleftrightarrow> - (2 ^ 31) \<le> v \<and> v < 2 ^ 31"

text \<open>The loop of \<open>subscribe\<close> for an unused id; it does not return when every id is in use.\<close>

partial_function (option) next_token :: "int \<Rightarrow> int set \<Rightarrow> (int \<times> int) option" where
  "next_token next_id tokens =
     (if next_id \<noteq> 0 \<and> next_id \<notin> tokens then Some (next_id, i32_wrap (next_id + 1))
      else next_token (i32_wrap (next_id + 1)) tokens)"

section \<open>The flag\<close>

datatype readiness_error = TokenLockFailed | FlagAlreadyReady

record readiness_flag =
  rf_ready :: bool
  rf_next_id :: int
  rf_tokens :: "int set"
  rf_locked :: bool
  rf_event :: bool

definition readiness_flag_new :: readiness_flag where
  "readiness_flag_new = \<lparr>rf_ready = False, rf_next_id = 1, rf_tokens = {}, rf_locked = False, rf_event = False\<rparr>"

definition is_ready :: "readiness_flag \<Rightarrow> bool \<times> readiness_flag" where
  "is_ready f =
     (if rf_ready f then (True, f)
      else if \<not> rf_locked f \<and> rf_tokens f = {} then (True, f\<lparr>rf_ready := True, rf_event := True\<rparr>)
      else (rf_ready f, f))"

datatype readiness_call = Subscribe | MarkReady int | WaitReady

datatype outcome = GotToken int | Marked bool | Woken | RaisedError readiness_error

datatype call_state = Idle | Waiting readiness_call | Holding readiness_call | Sleeping | Returned outcome

text \<open>A call up to where it first awaits.\<close>

fun begin_call :: "readiness_call \<Rightarrow> readiness_flag \<Rightarrow> call_state \<times> readiness_flag" where
  "begin_call Subscribe f =
     (if rf_ready f then Returned (RaisedError FlagAlreadyReady) else Waiting Subscribe, f)"
| "begin_call (MarkReady t) f = (if rf_ready f \<or> t = 0 then Returned (Marked False) else Waiting (MarkReady t), f)"
| "begin_call WaitReady f = (case is_ready f of (b, f') \<Rightarrow> (if b then Returned Woken else Sleeping, f'))"

text \<open>The section with the lock, which it releases.\<close>

fun locked_section :: "readiness_call \<Rightarrow> readiness_flag \<Rightarrow> (outcome \<times> readiness_flag) option" where
  "locked_section Subscribe f =
     (if rf_ready f then Some (RaisedError FlagAlreadyReady, f\<lparr>rf_locked := False\<rparr>)
      else map_option (\<lambda>(t, n). (GotToken t,
          f\<lparr>rf_next_id := n, rf_tokens := insert t (rf_tokens f), rf_locked := False\<rparr>))
        (next_token (rf_next_id f) (rf_tokens f)))"
| "locked_section (MarkReady t) f =
     (if t \<notin> rf_tokens f then Some (Marked False, f\<lparr>rf_locked := False\<rparr>)
      else Some (Marked True, f\<lparr>rf_ready := True, rf_tokens := {}, rf_locked := False, rf_event := True\<rparr>))"
| "locked_section WaitReady f = None"

section \<open>Interleaved calls\<close>

record readiness_sys =
  rs_flag :: readiness_flag
  rs_calls :: "nat \<Rightarrow> call_state"

definition readiness_init :: readiness_sys where
  "readiness_init = \<lparr>rs_flag = readiness_flag_new, rs_calls = (\<lambda>_. Idle)\<rparr>"

text \<open>
  A task calls, gets the free lock, gives up on it after the timeout, runs its section, or is woken by the
  event; and anyone may look at the flag.
\<close>

inductive readiness_step :: "readiness_sys \<Rightarrow> readiness_sys \<Rightarrow> bool" where
  call: "rs_calls s i = Idle \<Longrightarrow> begin_call c (rs_flag s) = (st, f) \<Longrightarrow>
    readiness_step s (s\<lparr>rs_flag := f, rs_calls := (rs_calls s)(i := st)\<rparr>)"
| acquire: "rs_calls s i = Waiting c \<Longrightarrow> \<not> rf_locked (rs_flag s) \<Longrightarrow>
    readiness_step s (s\<lparr>rs_flag := (rs_flag s)\<lparr>rf_locked := True\<rparr>, rs_calls := (rs_calls s)(i := Holding c)\<rparr>)"
| timeout: "rs_calls s i = Waiting c \<Longrightarrow>
    readiness_step s (s\<lparr>rs_calls := (rs_calls s)(i := Returned (RaisedError TokenLockFailed))\<rparr>)"
| run: "rs_calls s i = Holding c \<Longrightarrow> locked_section c (rs_flag s) = Some (r, f) \<Longrightarrow>
    readiness_step s (s\<lparr>rs_flag := f, rs_calls := (rs_calls s)(i := Returned r)\<rparr>)"
| wake: "rs_calls s i = Sleeping \<Longrightarrow> rf_event (rs_flag s) \<Longrightarrow>
    readiness_step s (s\<lparr>rs_calls := (rs_calls s)(i := Returned Woken)\<rparr>)"
| look: "is_ready (rs_flag s) = (b, f) \<Longrightarrow> readiness_step s (s\<lparr>rs_flag := f\<rparr>)"

definition readiness_reachable :: "readiness_sys \<Rightarrow> bool" where
  "readiness_reachable s \<longleftrightarrow> readiness_step\<^sup>*\<^sup>* readiness_init s"

section \<open>Facts about token ids\<close>

lemma i32_wrap_range: "is_i32 (i32_wrap v)"
  by (simp add: is_i32_def i32_wrap_def)

lemma i32_wrap_id: "is_i32 v \<Longrightarrow> i32_wrap v = v"
  by (simp add: is_i32_def i32_wrap_def)

text \<open>It is the number a machine word of 32 bits holds.\<close>

lemma i32_wrap_word: "i32_wrap v = sint (word_of_int v :: 32 word)"
  by (simp add: i32_wrap_def sint_sbintrunc' signed_take_bit_eq_take_bit_shift take_bit_eq_mod)

lemma i32_wrap_wrap: "i32_wrap (i32_wrap v + k) = i32_wrap (v + k)"
proof -
  have "(i32_wrap v + k + 2 ^ 31) mod 2 ^ 32 = ((v + 2 ^ 31) mod 2 ^ 32 + k) mod 2 ^ 32"
    by (simp add: i32_wrap_def)
  also have "\<dots> = (v + k + 2 ^ 31) mod 2 ^ 32" by (simp add: mod_simps algebra_simps)
  finally show ?thesis by (simp add: i32_wrap_def)
qed

lemma next_token_fresh:
  assumes "next_token next_id tokens = Some (t, n)" "is_i32 next_id"
  shows "t \<noteq> 0 \<and> t \<notin> tokens \<and> is_i32 t \<and> is_i32 n"
proof -
  let ?P = "\<lambda>next_id tokens r. is_i32 next_id \<longrightarrow>
    fst r \<noteq> 0 \<and> fst r \<notin> tokens \<and> is_i32 (fst r) \<and> is_i32 (snd r)"
  have "?P next_id tokens (t, n)"
  proof (rule next_token.raw_induct [where P = ?P, OF _ assms(1)])
    fix f next_id tokens r
    assume "\<And>next_id tokens r. f next_id tokens = Some r \<Longrightarrow> ?P next_id tokens r"
      and "(if next_id \<noteq> 0 \<and> next_id \<notin> tokens then Some (next_id, i32_wrap (next_id + 1))
        else f (i32_wrap (next_id + 1)) tokens) = Some r"
    then show "?P next_id tokens r" by (auto simp: i32_wrap_range split: if_splits)
  qed
  with assms(2) show ?thesis by simp
qed

text \<open>The search returns within as many rounds as there are ids up to a free one.\<close>

lemma next_token_returns:
  "i32_wrap (next_id + int k) \<noteq> 0 \<Longrightarrow> i32_wrap (next_id + int k) \<notin> tokens \<Longrightarrow> is_i32 next_id \<Longrightarrow>
     \<exists>r. next_token next_id tokens = Some r"
proof (induction k arbitrary: next_id)
  case 0
  then show ?case by (subst next_token.simps) (simp add: i32_wrap_id)
next
  case (Suc k)
  have "i32_wrap (i32_wrap (next_id + 1) + int k) = i32_wrap (next_id + int (Suc k))"
    using i32_wrap_wrap [of "next_id + 1" "int k"] by (simp add: algebra_simps)
  with Suc.IH [of "i32_wrap (next_id + 1)"] Suc.prems i32_wrap_range show ?case
    by (subst next_token.simps) simp
qed

lemma i32_values: "{v. is_i32 v} = {- (2 ^ 31) ..< 2 ^ 31}"
  by (auto simp: is_i32_def)

lemma next_token_total:
  assumes "finite tokens" "card tokens < 2 ^ 32 - 1" "is_i32 next_id"
  shows "\<exists>t n. next_token next_id tokens = Some (t, n)"
proof -
  have "card ({v. is_i32 v} - {0}) = 2 ^ 32 - 1"
    by (simp add: i32_values)
  then have "\<not> {v. is_i32 v} - {0} \<subseteq> tokens" using assms(1,2) card_mono [of tokens "{v. is_i32 v} - {0}"] by linarith
  then obtain v where v: "is_i32 v" "v \<noteq> 0" "v \<notin> tokens" by blast
  define k where "k = nat ((v - next_id) mod 2 ^ 32)"
  have "(next_id + 2 ^ 31 + (v - next_id) mod 2 ^ 32) mod 2 ^ 32 = (v + 2 ^ 31) mod 2 ^ 32"
    by (subst mod_add_right_eq) (simp add: algebra_simps)
  then have "i32_wrap (next_id + int k) = i32_wrap v"
    by (simp add: k_def i32_wrap_def algebra_simps)
  then show ?thesis using next_token_returns [of next_id k tokens] v assms(3) by (simp add: i32_wrap_id)
qed

section \<open>The invariant\<close>

definition holds_lock :: "readiness_sys \<Rightarrow> nat \<Rightarrow> bool" where
  "holds_lock s i \<longleftrightarrow> (\<exists>c. rs_calls s i = Holding c)"

definition got_token :: "readiness_sys \<Rightarrow> nat \<Rightarrow> int \<Rightarrow> bool" where
  "got_token s i t \<longleftrightarrow> rs_calls s i = Returned (GotToken t)"

definition marked :: "readiness_sys \<Rightarrow> nat \<Rightarrow> bool" where
  "marked s i \<longleftrightarrow> rs_calls s i = Returned (Marked True)"

definition woken :: "readiness_sys \<Rightarrow> nat \<Rightarrow> bool" where
  "woken s i \<longleftrightarrow> rs_calls s i = Returned Woken"

lemmas call_status = holds_lock_def got_token_def marked_def woken_def

text \<open>The invariant of a flag and of the calls that hold its lock, got a token, marked it or were woken.\<close>

definition flag_inv ::
    "readiness_flag \<Rightarrow> (nat \<Rightarrow> bool) \<Rightarrow> (nat \<Rightarrow> int \<Rightarrow> bool) \<Rightarrow> (nat \<Rightarrow> bool) \<Rightarrow> (nat \<Rightarrow> bool) \<Rightarrow> bool" where
  "flag_inv f H G M W \<longleftrightarrow>
     rf_event f = rf_ready f
     \<and> (rf_locked f \<longleftrightarrow> (\<exists>i. H i)) \<and> (\<forall>i j. H i \<longrightarrow> H j \<longrightarrow> i = j)
     \<and> is_i32 (rf_next_id f)
     \<and> (if rf_ready f then rf_tokens f = {} else rf_tokens f = {t. \<exists>i. G i t})
     \<and> (\<forall>i t. G i t \<longrightarrow> t \<noteq> 0 \<and> is_i32 t) \<and> (\<forall>i j t. G i t \<longrightarrow> G j t \<longrightarrow> i = j)
     \<and> (\<forall>i. M i \<longrightarrow> rf_ready f) \<and> (\<forall>i j. M i \<longrightarrow> M j \<longrightarrow> i = j)
     \<and> (rf_ready f \<longrightarrow> (\<exists>i t. G i t) \<longrightarrow> (\<exists>j. M j))
     \<and> (\<forall>i. W i \<longrightarrow> rf_ready f)"

definition readiness_inv :: "readiness_sys \<Rightarrow> bool" where
  "readiness_inv s = flag_inv (rs_flag s) (holds_lock s) (got_token s) (marked s) (woken s)"

lemma readiness_inv_init: "readiness_inv readiness_init"
  by (simp add: readiness_inv_def flag_inv_def readiness_init_def readiness_flag_new_def call_status is_i32_def)

text \<open>How the operations change what the invariant speaks of.\<close>

lemma flag_inv_is_ready:
  assumes "flag_inv f H G M W" "is_ready f = (b, f')"
  shows "flag_inv f' H G M W \<and> b = rf_ready f'"
proof -
  have "\<not> (\<exists>i t. G i t)" if "\<not> rf_ready f" "rf_tokens f = {}" using assms(1) that by (auto simp: flag_inv_def)
  then show ?thesis using assms by (auto simp: flag_inv_def is_ready_def split: if_splits)
qed

lemma flag_inv_woken:
  "flag_inv f H G M W \<Longrightarrow> (\<And>j. W' j \<Longrightarrow> W j \<or> rf_ready f) \<Longrightarrow> flag_inv f H G M W'"
  unfolding flag_inv_def by blast

lemma flag_inv_acquire:
  "flag_inv f H G M W \<Longrightarrow> \<not> rf_locked f \<Longrightarrow> flag_inv (f\<lparr>rf_locked := True\<rparr>) (\<lambda>j. j = i) G M W"
  unfolding flag_inv_def by simp

lemma flag_inv_release:
  "flag_inv f H G M W \<Longrightarrow> flag_inv (f\<lparr>rf_locked := False\<rparr>) (\<lambda>j. False) G M W"
  unfolding flag_inv_def by simp

lemma flag_inv_token:
  assumes "flag_inv f H G M W" "\<not> rf_ready f" "next_token (rf_next_id f) (rf_tokens f) = Some (t, n)"
  shows "flag_inv (f\<lparr>rf_next_id := n, rf_tokens := insert t (rf_tokens f), rf_locked := False\<rparr>) (\<lambda>j. False)
    (\<lambda>j u. G j u \<or> j = i \<and> u = t) M W"
proof -
  have "is_i32 (rf_next_id f)" using assms(1) by (simp add: flag_inv_def)
  note fresh = next_token_fresh [OF assms(3) this]
  moreover have "\<not> G j t" for j using fresh assms(1,2) by (auto simp: flag_inv_def)
  ultimately show ?thesis using assms(1,2) unfolding flag_inv_def by auto
qed

lemma flag_inv_mark:
  assumes "flag_inv f H G M W" "t \<in> rf_tokens f"
  shows "flag_inv (f\<lparr>rf_ready := True, rf_tokens := {}, rf_locked := False, rf_event := True\<rparr>) (\<lambda>j. False)
    G (\<lambda>j. M j \<or> j = i) W"
proof -
  have "\<not> rf_ready f" using assms by (auto simp: flag_inv_def)
  then have "\<not> M j" for j using assms(1) by (simp add: flag_inv_def)
  then show ?thesis using assms(1) unfolding flag_inv_def by simp
qed

lemma locked_section_inv:
  assumes "flag_inv f H G M W" "locked_section c f = Some (r, f')"
  shows "flag_inv f' (\<lambda>j. False) (\<lambda>j u. G j u \<or> j = i \<and> r = GotToken u) (\<lambda>j. M j \<or> j = i \<and> r = Marked True) W
    \<and> r \<noteq> Woken"
proof (cases c)
  case Subscribe
  show ?thesis
  proof (cases "rf_ready f")
    case True
    with assms Subscribe flag_inv_release [OF assms(1)] show ?thesis by auto
  next
    case False
    with assms(2) Subscribe obtain t n where "next_token (rf_next_id f) (rf_tokens f) = Some (t, n)" "r = GotToken t"
      "f' = f\<lparr>rf_next_id := n, rf_tokens := insert t (rf_tokens f), rf_locked := False\<rparr>" by auto
    with flag_inv_token [OF assms(1) False this(1), of i] show ?thesis by (simp add: eq_commute)
  qed
next
  case (MarkReady t)
  with assms flag_inv_mark [OF assms(1), of t i] flag_inv_release [OF assms(1)] show ?thesis
    by (auto split: if_splits)
qed (use assms(2) in simp)

text \<open>What a new state of one call changes in the status of the calls.\<close>

lemma call_status_update:
  assumes "\<not> got_token s i t" "\<not> marked s i" "\<not> woken s i"
  shows "got_token (s\<lparr>rs_flag := f, rs_calls := (rs_calls s)(i := st)\<rparr>) j t \<longleftrightarrow>
      got_token s j t \<or> j = i \<and> st = Returned (GotToken t)"
    "marked (s\<lparr>rs_flag := f, rs_calls := (rs_calls s)(i := st)\<rparr>) j \<longleftrightarrow> marked s j \<or> j = i \<and> st = Returned (Marked True)"
    "woken (s\<lparr>rs_flag := f, rs_calls := (rs_calls s)(i := st)\<rparr>) j \<longleftrightarrow> woken s j \<or> j = i \<and> st = Returned Woken"
    "holds_lock (s\<lparr>rs_flag := f, rs_calls := (rs_calls s)(i := st)\<rparr>) j \<longleftrightarrow>
      (if j = i then \<exists>c. st = Holding c else holds_lock s j)"
  using assms by (auto simp: call_status)

text \<open>A call that has not returned gets a new state; only the parts of its status that change are named.\<close>

lemma readiness_inv_update:
  assumes "\<And>r. rs_calls s i \<noteq> Returned r"
    and "flag_inv f (\<lambda>j. if j = i then \<exists>c. st = Holding c else holds_lock s j)
      (\<lambda>j t. got_token s j t \<or> j = i \<and> st = Returned (GotToken t))
      (\<lambda>j. marked s j \<or> j = i \<and> st = Returned (Marked True)) (woken s)"
    and "st = Returned Woken \<longrightarrow> rf_ready f"
  shows "readiness_inv (s\<lparr>rs_flag := f, rs_calls := (rs_calls s)(i := st)\<rparr>)"
proof -
  have none: "\<not> got_token s i t" "\<not> marked s i" "\<not> woken s i" for t
    using assms(1) by (auto simp: call_status)
  have "flag_inv f (\<lambda>j. if j = i then \<exists>c. st = Holding c else holds_lock s j)
      (\<lambda>j t. got_token s j t \<or> j = i \<and> st = Returned (GotToken t))
      (\<lambda>j. marked s j \<or> j = i \<and> st = Returned (Marked True)) (\<lambda>j. woken s j \<or> j = i \<and> st = Returned Woken)"
    by (rule flag_inv_woken [OF assms(2)]) (use assms(3) in auto)
  then show ?thesis
    unfolding readiness_inv_def fun_eq_iff [symmetric]
    by (simp add: call_status_update [OF none, abs_def] cong: if_cong)
qed

lemma harmless_update:
  assumes "flag_inv f (holds_lock s) (got_token s) (marked s) (woken s)" "\<And>r. rs_calls s i \<noteq> Returned r"
    and "\<not> holds_lock s i" "\<And>c. st \<noteq> Holding c" "\<And>t. st \<noteq> Returned (GotToken t)" "st \<noteq> Returned (Marked True)"
    and "st = Returned Woken \<longrightarrow> rf_ready f"
  shows "readiness_inv (s\<lparr>rs_flag := f, rs_calls := (rs_calls s)(i := st)\<rparr>)"
proof -
  have "(\<lambda>j. if j = i then \<exists>c. st = Holding c else holds_lock s j) = holds_lock s"
    using assms(3,4) by auto
  with assms show ?thesis by (intro readiness_inv_update) auto
qed

lemma readiness_inv_step:
  assumes "readiness_step s s'" "readiness_inv s"
  shows "readiness_inv s'"
  using assms(1)
proof cases
  case (call i c st f)
  have "flag_inv f (holds_lock s) (got_token s) (marked s) (woken s) \<and> (st = Returned Woken \<longrightarrow> rf_ready f)
      \<and> (\<forall>c. st \<noteq> Holding c) \<and> (\<forall>t. st \<noteq> Returned (GotToken t)) \<and> st \<noteq> Returned (Marked True)"
    using call(3) assms(2) flag_inv_is_ready [of "rs_flag s"]
    by (cases c) (auto simp: readiness_inv_def split: prod.splits if_splits)
  then show ?thesis
    unfolding call(1) by (intro harmless_update) (use call(2) in \<open>auto simp: call_status\<close>)
next
  case (acquire i c)
  have "\<not> holds_lock s j" for j using assms(2) acquire(3) by (auto simp: readiness_inv_def flag_inv_def)
  then have "(\<lambda>j. if j = i then \<exists>c'. Holding c = Holding c' else holds_lock s j) = (\<lambda>j. j = i)" by auto
  moreover have "flag_inv ((rs_flag s)\<lparr>rf_locked := True\<rparr>) (\<lambda>j. j = i) (got_token s) (marked s) (woken s)"
    using flag_inv_acquire assms(2) acquire(3) by (simp add: readiness_inv_def)
  ultimately show ?thesis
    unfolding acquire(1) by (intro readiness_inv_update) (use acquire(2) in simp_all)
next
  case (timeout i c)
  have "readiness_inv (s\<lparr>rs_flag := rs_flag s, rs_calls := (rs_calls s)(i := Returned (RaisedError TokenLockFailed))\<rparr>)"
    by (intro harmless_update) (use timeout(2) assms(2) in \<open>auto simp: call_status readiness_inv_def\<close>)
  then show ?thesis by (simp add: timeout(1))
next
  case (run i c r f)
  have "holds_lock s j \<longrightarrow> j = i" for j
    using assms(2) run(2) by (auto simp: readiness_inv_def flag_inv_def call_status)
  then have "(\<lambda>j. if j = i then \<exists>c'. Returned r = Holding c' else holds_lock s j) = (\<lambda>j. False)" by auto
  with locked_section_inv [OF assms(2) [unfolded readiness_inv_def] run(3), of i] show ?thesis
    unfolding run(1) by (intro readiness_inv_update) (use run(2) in simp_all)
next
  case (wake i)
  have "rf_ready (rs_flag s)" using wake(3) assms(2) by (simp add: readiness_inv_def flag_inv_def)
  then have "readiness_inv (s\<lparr>rs_flag := rs_flag s, rs_calls := (rs_calls s)(i := Returned Woken)\<rparr>)"
    by (intro harmless_update) (use wake(2) assms(2) in \<open>auto simp: call_status readiness_inv_def\<close>)
  then show ?thesis by (simp add: wake(1))
next
  case (look b f)
  have "holds_lock (s\<lparr>rs_flag := f\<rparr>) = holds_lock s" "got_token (s\<lparr>rs_flag := f\<rparr>) = got_token s"
    "marked (s\<lparr>rs_flag := f\<rparr>) = marked s" "woken (s\<lparr>rs_flag := f\<rparr>) = woken s"
    by (auto simp: call_status fun_eq_iff)
  with flag_inv_is_ready [OF assms(2) [unfolded readiness_inv_def] look(2)] show ?thesis
    by (simp add: look(1) readiness_inv_def)
qed

lemma readiness_reachable_inv: "readiness_reachable s \<Longrightarrow> readiness_inv s"
  unfolding readiness_reachable_def
  by (induction rule: rtranclp_induct) (auto intro: readiness_inv_init readiness_inv_step)

lemma readiness_reachable_calls:
  "readiness_reachable s \<Longrightarrow> finite {i. rs_calls s i \<noteq> Idle}
     \<and> (\<forall>i. rs_calls s i \<noteq> Waiting WaitReady \<and> rs_calls s i \<noteq> Holding WaitReady)"
  unfolding readiness_reachable_def
proof (induction rule: rtranclp_induct)
  case base
  then show ?case by (simp add: readiness_init_def)
next
  case (step s s')
  have "begin_call c f = (st, f') \<Longrightarrow> st \<noteq> Waiting WaitReady \<and> st \<noteq> Holding WaitReady" for c f st f'
    by (cases c) (auto split: prod.splits if_splits)
  with step.hyps(2) step.IH obtain i st where st: "rs_calls s' = (rs_calls s)(i := st)"
    "st \<noteq> Waiting WaitReady" "st \<noteq> Holding WaitReady"
  proof cases
    case (look b f)
    then show thesis using that [of 0 "rs_calls s 0"] step.IH by simp
  qed (use step.IH in force)+
  have "{j. rs_calls s' j \<noteq> Idle} \<subseteq> insert i {j. rs_calls s j \<noteq> Idle}" using st(1) by auto
  then have "finite {j. rs_calls s' j \<noteq> Idle}" using step.IH finite_subset by blast
  then show ?case using st step.IH by simp
qed

lemma readiness_stays:
  assumes "readiness_step s s'" "rf_ready (rs_flag s)"
  shows "rf_ready (rs_flag s')"
  using assms(1)
proof cases
  case (call i c st f)
  then show ?thesis using assms(2) by (cases c) (auto simp: is_ready_def split: prod.splits if_splits)
next
  case (run i c r f)
  then show ?thesis using assms(2) by (cases c) (auto split: if_splits)
qed (use assms(2) in \<open>auto simp: is_ready_def split: if_splits\<close>)

text \<open>From an unlocked flag on, a look or a subscriber's token is enough.\<close>

lemma unlocked_can_be_ready:
  assumes "readiness_reachable s" "\<not> rf_locked (rs_flag s)"
  shows "\<exists>s'. readiness_step\<^sup>*\<^sup>* s s' \<and> rf_ready (rs_flag s')"
proof (cases "rf_ready (rs_flag s) \<or> rf_tokens (rs_flag s) = {}")
  case True
  obtain b f where f: "is_ready (rs_flag s) = (b, f)" by (cases "is_ready (rs_flag s)")
  then have "rf_ready f" using True assms(2) by (auto simp: is_ready_def split: if_splits)
  with readiness_step.look [OF f] show ?thesis by (intro exI [of _ "s\<lparr>rs_flag := f\<rparr>"]) auto
next
  case False
  then obtain t where t: "t \<in> rf_tokens (rs_flag s)" and nr: "\<not> rf_ready (rs_flag s)" by auto
  then have "t \<noteq> 0" using readiness_reachable_inv [OF assms(1)] by (auto simp: readiness_inv_def flag_inv_def)
  obtain i where i: "rs_calls s i = Idle"
    using readiness_reachable_calls [OF assms(1)] ex_new_if_finite [OF infinite_UNIV_nat] by blast
  define s1 where "s1 = s\<lparr>rs_calls := (rs_calls s)(i := Waiting (MarkReady t))\<rparr>"
  define s2 where "s2 = s1\<lparr>rs_flag := (rs_flag s1)\<lparr>rf_locked := True\<rparr>, rs_calls := (rs_calls s1)(i := Holding (MarkReady t))\<rparr>"
  define f where "f = (rs_flag s2)\<lparr>rf_ready := True, rf_tokens := {}, rf_locked := False, rf_event := True\<rparr>"
  have "readiness_step s s1"
    using readiness_step.call [of s i "MarkReady t", OF i] nr \<open>t \<noteq> 0\<close> by (simp add: s1_def)
  moreover have "readiness_step s1 s2"
    unfolding s2_def by (rule readiness_step.acquire) (use assms(2) in \<open>simp_all add: s1_def\<close>)
  moreover have "readiness_step s2 (s2\<lparr>rs_flag := f, rs_calls := (rs_calls s2)(i := Returned (Marked True))\<rparr>)"
  proof (rule readiness_step.run)
    show "rs_calls s2 i = Holding (MarkReady t)" by (simp add: s2_def)
    have "t \<in> rf_tokens (rs_flag s2)" using t by (simp add: s2_def s1_def)
    then show "locked_section (MarkReady t) (rs_flag s2) = Some (Marked True, f)" by (simp add: f_def)
  qed
  ultimately show ?thesis
    by (intro exI [of _ "s2\<lparr>rs_flag := f, rs_calls := (rs_calls s2)(i := Returned (Marked True))\<rparr>"])
      (auto simp: f_def intro: rtranclp.rtrancl_into_rtrancl)
qed

lemma subscribe_returns_lemma:
  "finite (rf_tokens f) \<Longrightarrow> card (rf_tokens f) < 2 ^ 32 - 1 \<Longrightarrow> is_i32 (rf_next_id f) \<Longrightarrow>
     \<exists>r f'. locked_section Subscribe f = Some (r, f')"
  using next_token_total [of "rf_tokens f" "rf_next_id f"] by auto

lemma inv_tokens_finite: "readiness_inv s \<Longrightarrow> finite (rf_tokens (rs_flag s)) \<and> is_i32 (rf_next_id (rs_flag s))"
proof -
  assume inv: "readiness_inv s"
  then have "rf_tokens (rs_flag s) \<subseteq> {v. is_i32 v}"
    by (auto simp: readiness_inv_def flag_inv_def split: if_splits)
  then show ?thesis using inv finite_subset by (auto simp: i32_values readiness_inv_def flag_inv_def)
qed

lemma locked_section_releases: "locked_section c f = Some (r, f') \<Longrightarrow> \<not> rf_locked f'"
  by (cases c) (auto split: if_splits)

section \<open>Properties\<close>


text \<open>
  C31: The flag can always still become ready: from every reachable state in which not all ids are in use,
  some continuation of the calls ends with a ready flag, whoever holds the lock or sleeps.
\<close>

theorem readiness_stays_possible:
  assumes "readiness_reachable s" "card (rf_tokens (rs_flag s)) < 2 ^ 32 - 1"
  shows "\<exists>s'. readiness_step\<^sup>*\<^sup>* s s' \<and> rf_ready (rs_flag s')"
proof (cases "rf_locked (rs_flag s)")
  case False
  then show ?thesis by (rule unlocked_can_be_ready [OF assms(1)])
next
  case True
  then have "\<exists>i. holds_lock s i"
    using readiness_reachable_inv [OF assms(1)] by (simp add: readiness_inv_def flag_inv_def)
  then obtain i c where i: "rs_calls s i = Holding c" by (auto simp: holds_lock_def)
  then have "c \<noteq> WaitReady" using readiness_reachable_calls [OF assms(1)] by auto
  obtain r f where r: "locked_section c (rs_flag s) = Some (r, f)"
    using \<open>c \<noteq> WaitReady\<close> subscribe_returns_lemma [OF _ assms(2)]
      inv_tokens_finite [OF readiness_reachable_inv [OF assms(1)]]
  proof (cases c)
    case (MarkReady t)
    then show thesis using that by (cases "t \<in> rf_tokens (rs_flag s)") auto
  qed blast+
  define s1 where "s1 = s\<lparr>rs_flag := f, rs_calls := (rs_calls s)(i := Returned r)\<rparr>"
  have step: "readiness_step s s1" unfolding s1_def by (rule readiness_step.run [OF i r])
  then have "readiness_reachable s1" using assms(1) by (simp add: readiness_reachable_def)
  moreover have "\<not> rf_locked (rs_flag s1)" using locked_section_releases [OF r] by (simp add: s1_def)
  ultimately show ?thesis using unlocked_can_be_ready step by (meson converse_rtranclp_into_rtranclp)
qed

text \<open>
  C33: The search for an unused id ends: with fewer tokens outstanding than there are nonzero ids, a
  subscription that holds the lock returns, and on a flag that is not ready it returns a token that is
  neither zero nor outstanding; wrapping is that of a machine word of 32 bits.
\<close>

theorem subscribing_terminates:
  assumes "finite (rf_tokens f)" "card (rf_tokens f) < 2 ^ 32 - 1" "is_i32 (rf_next_id f)" "\<not> rf_ready f"
  shows "\<exists>t f'. locked_section Subscribe f = Some (GotToken t, f') \<and> t \<noteq> 0 \<and> t \<notin> rf_tokens f
    \<and> rf_tokens f' = insert t (rf_tokens f) \<and> \<not> rf_locked f' \<and> is_i32 (rf_next_id f')
    \<and> i32_wrap (t + 1) = sint (word_of_int (t + 1) :: 32 word)"
proof -
  from next_token_total [OF assms(1-3)] obtain t n where t: "next_token (rf_next_id f) (rf_tokens f) = Some (t, n)"
    by blast
  from next_token_fresh [OF this assms(3)] t assms(4) show ?thesis by (simp add: i32_wrap_word)
qed

section \<open>Runs\<close>

definition subscribed_flag :: readiness_flag where
  "subscribed_flag = \<lparr>rf_ready = False, rf_next_id = 2, rf_tokens = {1}, rf_locked = False, rf_event = False\<rparr>"

definition subscribed_sys :: readiness_sys where
  "subscribed_sys = \<lparr>rs_flag = subscribed_flag, rs_calls = (\<lambda>_. Idle)(0 := Returned (GotToken 1))\<rparr>"

lemma run_of_call:
  assumes "readiness_reachable s" "rs_calls s i = Idle" "begin_call c (rs_flag s) = (Waiting c, rs_flag s)"
    and "\<not> rf_locked (rs_flag s)" "locked_section c ((rs_flag s)\<lparr>rf_locked := True\<rparr>) = Some (r, f)"
  shows "readiness_reachable (s\<lparr>rs_flag := f, rs_calls := (rs_calls s)(i := Returned r)\<rparr>)"
proof -
  define s1 where "s1 = s\<lparr>rs_calls := (rs_calls s)(i := Waiting c)\<rparr>"
  define s2 where "s2 = s1\<lparr>rs_flag := (rs_flag s1)\<lparr>rf_locked := True\<rparr>, rs_calls := (rs_calls s1)(i := Holding c)\<rparr>"
  have "readiness_step s s1" using readiness_step.call [OF assms(2,3)] by (simp add: s1_def)
  moreover have "readiness_step s1 s2"
    unfolding s2_def by (rule readiness_step.acquire) (use assms(4) in \<open>simp_all add: s1_def\<close>)
  moreover have "readiness_step s2 (s2\<lparr>rs_flag := f, rs_calls := (rs_calls s2)(i := Returned r)\<rparr>)"
    by (rule readiness_step.run [of _ i c]) (use assms(5) in \<open>simp_all add: s2_def s1_def\<close>)
  ultimately have "readiness_step\<^sup>*\<^sup>* s (s2\<lparr>rs_flag := f, rs_calls := (rs_calls s2)(i := Returned r)\<rparr>)"
    by (auto intro: rtranclp.rtrancl_into_rtrancl)
  with assms(1) show ?thesis by (simp add: readiness_reachable_def s2_def s1_def)
qed

lemma first_token: "next_token 1 {} = Some (1, 2)"
  by (subst next_token.simps) (simp add: i32_wrap_def)

lemma subscribed_reachable: "readiness_reachable subscribed_sys"
proof -
  have "readiness_reachable readiness_init" by (simp add: readiness_reachable_def)
  from run_of_call [OF this, of 0 Subscribe "GotToken 1" subscribed_flag] show ?thesis
    by (simp add: readiness_init_def readiness_flag_new_def first_token subscribed_flag_def subscribed_sys_def)
qed


lemma readiness_stays_possible_witness:
  "\<exists>s'. readiness_step\<^sup>*\<^sup>* subscribed_sys s' \<and> rf_ready (rs_flag s')"
  by (rule readiness_stays_possible [OF subscribed_reachable])
    (simp add: subscribed_sys_def subscribed_flag_def)

lemma subscribing_terminates_witness:
  "\<exists>t f'. locked_section Subscribe subscribed_flag = Some (GotToken t, f') \<and> t \<noteq> 0 \<and> t \<notin> {1}"
proof -
  have "\<exists>t f'. locked_section Subscribe subscribed_flag = Some (GotToken t, f') \<and> t \<noteq> 0 \<and> t \<notin> rf_tokens subscribed_flag
      \<and> rf_tokens f' = insert t (rf_tokens subscribed_flag) \<and> \<not> rf_locked f' \<and> is_i32 (rf_next_id f')
      \<and> i32_wrap (t + 1) = sint (word_of_int (t + 1) :: 32 word)"
    by (rule subscribing_terminates) (simp_all add: subscribed_flag_def is_i32_def)
  then show ?thesis by (auto simp: subscribed_flag_def)
qed

text \<open>
  A waiter can go to sleep although nobody has subscribed: while a call that marks an unknown token holds
  the lock the flag cannot be looked at, and that call returns without waking anyone.
\<close>

lemma waiter_can_sleep_without_subscribers:
  "\<exists>s. readiness_reachable s \<and> rs_calls s 1 = Sleeping \<and> rf_tokens (rs_flag s) = {} \<and> \<not> rf_locked (rs_flag s)
     \<and> \<not> rf_event (rs_flag s) \<and> (\<forall>i. i \<noteq> 1 \<longrightarrow> rs_calls s i = Idle \<or> rs_calls s i = Returned (Marked False))"
proof -
  let ?new = readiness_flag_new
  define s1 where "s1 = readiness_init\<lparr>rs_calls := (\<lambda>_. Idle)(0 := Waiting (MarkReady 7))\<rparr>"
  define s2 where "s2 = s1\<lparr>rs_flag := ?new\<lparr>rf_locked := True\<rparr>, rs_calls := (rs_calls s1)(0 := Holding (MarkReady 7))\<rparr>"
  define s3 where "s3 = s2\<lparr>rs_calls := (rs_calls s2)(1 := Sleeping)\<rparr>"
  define s4 where "s4 = s3\<lparr>rs_flag := ?new\<lparr>rf_locked := False\<rparr>, rs_calls := (rs_calls s3)(0 := Returned (Marked False))\<rparr>"
  have "readiness_step readiness_init s1"
    using readiness_step.call [of readiness_init 0 "MarkReady 7" "Waiting (MarkReady 7)" ?new]
    by (simp add: s1_def readiness_init_def readiness_flag_new_def)
  moreover have "readiness_step s1 s2"
    using readiness_step.acquire [of s1 0 "MarkReady 7"]
    by (simp add: s2_def s1_def readiness_init_def readiness_flag_new_def)
  moreover have "readiness_step s2 s3"
    using readiness_step.call [of s2 1 WaitReady Sleeping "?new\<lparr>rf_locked := True\<rparr>"]
    by (simp add: s3_def s2_def s1_def readiness_init_def readiness_flag_new_def is_ready_def)
  moreover have "readiness_step s3 s4"
    using readiness_step.run [of s3 0 "MarkReady 7" "Marked False" "?new\<lparr>rf_locked := False\<rparr>"]
    by (simp add: s4_def s3_def s2_def s1_def readiness_flag_new_def)
  ultimately have "readiness_reachable s4"
    unfolding readiness_reachable_def by (auto intro: rtranclp.rtrancl_into_rtrancl)
  then show ?thesis
    by (intro exI [of _ s4]) (simp add: s4_def s3_def s2_def s1_def readiness_init_def readiness_flag_new_def)
qed

end
