(* ===== verification/LruCache.thy ===== *)
theory LruCache
  imports Prelude
begin

text \<open>
  \<open>pycodex/utils/cache\<close>: a cache of bounded size that drops what was used longest ago. The ordered
  dictionary is the list of its entries, the oldest first; a stored \<open>None\<close> is the value \<open>None\<close>. Outside
  a running event loop every operation does nothing, which is the flag \<open>runtime\<close>.
\<close>

section \<open>Operations\<close>

record ('k, 'v) lru_cache =
  lc_capacity :: int
  lc_items :: "('k \<times> 'v option) list"

definition lru_new :: "int \<Rightarrow> (pystr, ('k, 'v) lru_cache) result" where
  "lru_new capacity =
     (if capacity \<le> 0 then Inl (lit ''capacity must be non-zero'') else Inr \<lparr>lc_capacity = capacity, lc_items = []\<rparr>)"

definition lru_try_with_capacity :: "int \<Rightarrow> ('k, 'v) lru_cache option" where
  "lru_try_with_capacity capacity = (if capacity > 0 then Some \<lparr>lc_capacity = capacity, lc_items = []\<rparr> else None)"

definition drop_key :: "'k \<Rightarrow> ('k \<times> 'v) list \<Rightarrow> ('k \<times> 'v) list" where
  "drop_key k items = filter (\<lambda>(k', _). k' \<noteq> k) items"

definition lru_get :: "bool \<Rightarrow> 'k \<Rightarrow> ('k, 'v) lru_cache \<Rightarrow> 'v option \<times> ('k, 'v) lru_cache" where
  "lru_get runtime k c =
     (if \<not> runtime then (None, c)
      else case map_of (lc_items c) k of
        None \<Rightarrow> (None, c)
      | Some v \<Rightarrow> (v, c\<lparr>lc_items := drop_key k (lc_items c) @ [(k, v)]\<rparr>))"

definition lru_insert :: "bool \<Rightarrow> 'k \<Rightarrow> 'v option \<Rightarrow> ('k, 'v) lru_cache \<Rightarrow> 'v option \<times> ('k, 'v) lru_cache" where
  "lru_insert runtime k v c =
     (if \<not> runtime then (None, c)
      else let items = drop_key k (lc_items c) @ [(k, v)] in
        (case map_of (lc_items c) k of None \<Rightarrow> None | Some previous \<Rightarrow> previous,
         c\<lparr>lc_items := drop (length items - nat (lc_capacity c)) items\<rparr>))"

definition lru_remove :: "bool \<Rightarrow> 'k \<Rightarrow> ('k, 'v) lru_cache \<Rightarrow> 'v option \<times> ('k, 'v) lru_cache" where
  "lru_remove runtime k c =
     (if \<not> runtime then (None, c)
      else (case map_of (lc_items c) k of None \<Rightarrow> None | Some v \<Rightarrow> v, c\<lparr>lc_items := drop_key k (lc_items c)\<rparr>))"

definition lru_clear :: "bool \<Rightarrow> ('k, 'v) lru_cache \<Rightarrow> ('k, 'v) lru_cache" where
  "lru_clear runtime c = (if \<not> runtime then c else c\<lparr>lc_items := []\<rparr>)"

text \<open>The callback is given by the value it returns.\<close>

definition lru_get_or_insert_with ::
    "bool \<Rightarrow> 'k \<Rightarrow> 'v option \<Rightarrow> ('k, 'v) lru_cache \<Rightarrow> 'v option \<times> ('k, 'v) lru_cache" where
  "lru_get_or_insert_with runtime k created c =
     (if \<not> runtime then (created, c)
      else case lru_get True k c of
        (Some v, c') \<Rightarrow> (Some v, c')
      | (None, c') \<Rightarrow> (created, snd (lru_insert True k created c')))"

text \<open>The callback of \<open>get_or_try_insert_with\<close> may raise: nothing is stored then.\<close>

definition lru_get_or_try_insert_with ::
    "bool \<Rightarrow> 'k \<Rightarrow> ('e, 'v option) result \<Rightarrow> ('k, 'v) lru_cache \<Rightarrow> ('e, 'v option) result \<times> ('k, 'v) lru_cache" where
  "lru_get_or_try_insert_with runtime k attempt c =
     (if \<not> runtime then (attempt, c)
      else case lru_get True k c of
        (Some v, c') \<Rightarrow> (Inr (Some v), c')
      | (None, c') \<Rightarrow> (case attempt of
          Inl e \<Rightarrow> (Inl e, c')
        | Inr created \<Rightarrow> (Inr created, snd (lru_insert True k created c'))))"

section \<open>The invariant\<close>

definition lru_inv :: "('k, 'v) lru_cache \<Rightarrow> bool" where
  "lru_inv c \<longleftrightarrow> 0 < lc_capacity c \<and> distinct (map fst (lc_items c)) \<and> int (length (lc_items c)) \<le> lc_capacity c"

lemma drop_key_keys: "map fst (drop_key k items) = filter (\<lambda>k'. k' \<noteq> k) (map fst items)"
  by (induction items) (auto simp: drop_key_def)

lemma drop_key_length: "k \<in> set (map fst items) \<Longrightarrow> length (drop_key k items) < length items"
  by (induction items) (auto simp: drop_key_def le_imp_less_Suc)

lemma drop_key_distinct:
  "distinct (map fst items) \<Longrightarrow> distinct (map fst (drop_key k items @ [(k, v)]))"
  by (simp add: drop_key_keys)

lemma map_of_drop_key: "k' \<noteq> k \<Longrightarrow> map_of (drop_key k items) k' = map_of items k'"
  by (induction items) (auto simp: drop_key_def)

lemma map_of_drop_key_same: "map_of (drop_key k items) k = None"
  by (induction items) (auto simp: drop_key_def)

lemma drop_key_fresh: "map_of items k = None \<Longrightarrow> drop_key k items = items"
  by (induction items) (auto simp: drop_key_def split: if_splits)

lemma keys_fresh: "map_of items k = None \<Longrightarrow> filter (\<lambda>y. y \<noteq> k) (map fst items) = map fst items"
  using drop_key_keys [of k items] by (simp add: drop_key_fresh)

lemma lru_get_inv: "lru_inv c \<Longrightarrow> lru_inv (snd (lru_get runtime k c))"
proof -
  assume inv: "lru_inv c"
  have "length (drop_key k (lc_items c) @ [(k, v)]) \<le> length (lc_items c)" if "map_of (lc_items c) k = Some v" for v
    using drop_key_length [of k "lc_items c"] map_of_SomeD [OF that] by (force simp: image_iff)
  then show ?thesis
    using inv drop_key_distinct [of "lc_items c" k]
    by (fastforce simp: lru_get_def lru_inv_def split: option.splits)
qed

lemma drop_key_drop_distinct:
  assumes "distinct (map fst items)"
  shows "distinct (map fst (drop n (drop_key k items @ [(k, v)])))"
proof -
  have "distinct (drop n (map fst (drop_key k items @ [(k, v)])))"
    using drop_key_distinct [OF assms, of k v] by (rule distinct_drop)
  then show ?thesis by (simp only: drop_map)
qed

lemma lru_insert_inv: "lru_inv c \<Longrightarrow> lru_inv (snd (lru_insert runtime k v c))"
proof -
  assume inv: "lru_inv c"
  let ?items = "drop_key k (lc_items c) @ [(k, v)]"
  have "int (length (drop (length ?items - nat (lc_capacity c)) ?items)) \<le> lc_capacity c"
    using inv unfolding lru_inv_def length_drop by linarith
  moreover have "distinct (map fst (drop (length ?items - nat (lc_capacity c)) ?items))"
    by (rule drop_key_drop_distinct) (use inv in \<open>simp add: lru_inv_def\<close>)
  ultimately show ?thesis
    using inv by (simp add: lru_insert_def lru_inv_def Let_def del: drop_append distinct_append length_append map_append length_drop)
qed

lemma lru_remove_inv: "lru_inv c \<Longrightarrow> lru_inv (snd (lru_remove runtime k c))"
  using drop_key_distinct [of "lc_items c" k] length_filter_le [of "\<lambda>(k', _). k' \<noteq> k" "lc_items c"]
  by (auto simp: lru_remove_def lru_inv_def drop_key_def [symmetric])

lemma lru_get_or_insert_inv: "lru_inv c \<Longrightarrow> lru_inv (snd (lru_get_or_insert_with runtime k v c))"
  using lru_get_inv [of c True k] lru_insert_inv
  by (auto simp: lru_get_or_insert_with_def split: prod.splits option.splits)

lemma lru_get_or_try_insert_inv: "lru_inv c \<Longrightarrow> lru_inv (snd (lru_get_or_try_insert_with runtime k a c))"
  using lru_get_inv [of c True k] lru_insert_inv
  by (auto simp: lru_get_or_try_insert_with_def split: prod.splits option.splits sum.splits)

lemma lru_clear_inv: "lru_inv c \<Longrightarrow> lru_inv (lru_clear runtime c)"
  by (simp add: lru_clear_def lru_inv_def)

lemma lru_new_inv: "lru_new n = Inr c \<Longrightarrow> lru_inv c"
  by (auto simp: lru_new_def lru_inv_def split: if_splits)

section \<open>What stays in the cache\<close>

text \<open>Using a key puts it at the end of the keys used, the latest last.\<close>

lemma remdups_snoc: "remdups (xs @ [x]) = filter (\<lambda>y. y \<noteq> x) (remdups xs) @ [x]"
  by (induction xs) auto

definition recent :: "nat \<Rightarrow> 'k list \<Rightarrow> 'k list" where
  "recent n keys = drop (length (remdups keys) - n) (remdups keys)"

lemma distinct_filter_one: "distinct xs \<Longrightarrow> length xs \<le> Suc (length (filter (\<lambda>y. y \<noteq> x) xs))"
proof (induction xs)
  case (Cons a xs)
  have "filter (\<lambda>y. y \<noteq> x) xs = xs" if "x \<notin> set xs" by (rule filter_True) (use that in auto)
  then show ?case using Cons by (cases "a = x") auto
qed simp

lemma recent_snoc:
  assumes "0 < n"
  shows "recent n (keys @ [k]) =
    (let ks = filter (\<lambda>y. y \<noteq> k) (recent n keys) @ [k] in drop (length ks - n) ks)"
proof -
  let ?d = "length (remdups keys) - n"
  let ?A = "filter (\<lambda>y. y \<noteq> k) (take ?d (remdups keys))" and ?B = "filter (\<lambda>y. y \<noteq> k) (drop ?d (remdups keys))"
  have AB: "filter (\<lambda>y. y \<noteq> k) (remdups keys) = ?A @ ?B"
    by (simp only: filter_append [symmetric] append_take_drop_id)
  have len: "?A = [] \<or> n \<le> Suc (length ?B)"
    using distinct_filter_one [of "drop ?d (remdups keys)" k] by (cases "length (remdups keys) \<le> n") auto
  have "drop (Suc (length (?A @ ?B)) - n) ((?A @ ?B) @ [k]) = drop (Suc (length ?B) - n) (?B @ [k])"
    using len
  proof
    assume "n \<le> Suc (length ?B)"
    then have "Suc (length (?A @ ?B)) - n = length ?A + (Suc (length ?B) - n)" by simp
    then show ?thesis by (simp only: append_assoc drop_append) simp
  qed simp
  then show ?thesis by (simp add: recent_def remdups_snoc Let_def AB del: filter_append)
qed

definition lru_use :: "('k \<times> 'v) list \<Rightarrow> ('k, 'v) lru_cache \<Rightarrow> ('k, 'v) lru_cache" where
  "lru_use uses c = fold (\<lambda>(k, v) c. snd (lru_get_or_insert_with True k (Some v) c)) uses c"

lemma lru_use_step:
  assumes "lru_inv c" "\<forall>(k', v') \<in> set (lc_items c). v' \<noteq> None"
  shows "map fst (lc_items (snd (lru_get_or_insert_with True k (Some v) c))) =
      (let ks = filter (\<lambda>y. y \<noteq> k) (map fst (lc_items c)) @ [k] in drop (length ks - nat (lc_capacity c)) ks)
    \<and> (\<forall>(k', v') \<in> set (lc_items (snd (lru_get_or_insert_with True k (Some v) c))). v' \<noteq> None)
    \<and> lc_capacity (snd (lru_get_or_insert_with True k (Some v) c)) = lc_capacity c"
proof (cases "map_of (lc_items c) k")
  case None
  have "Suc 0 - nat (lc_capacity c) = 0" using assms(1) unfolding lru_inv_def by linarith
  then show ?thesis using assms(2) None
    by (auto simp: lru_get_or_insert_with_def lru_get_def lru_insert_def Let_def drop_key_fresh keys_fresh drop_map
        dest!: in_set_dropD)
next
  case (Some w)
  then obtain u where u: "w = Some u" using assms(2) map_of_SomeD by fastforce
  have "length (drop_key k (lc_items c)) < length (lc_items c)"
    using drop_key_length [of k "lc_items c"] map_of_SomeD [OF Some] by (force simp: image_iff)
  then have "Suc (length (drop_key k (lc_items c))) \<le> nat (lc_capacity c)"
    using assms(1) unfolding lru_inv_def by linarith
  then have "Suc (length (filter (\<lambda>y. y \<noteq> k) (map fst (lc_items c)))) - nat (lc_capacity c) = 0"
    by (metis diff_is_0_eq drop_key_keys length_map)
  moreover have "set (drop_key k (lc_items c)) \<subseteq> set (lc_items c)" by (auto simp: drop_key_def)
  ultimately show ?thesis using assms(2) u Some
    by (auto simp: lru_get_or_insert_with_def lru_get_def Let_def drop_key_keys)
qed

lemma lru_use_keys:
  assumes "lru_inv c" "\<forall>(k', v') \<in> set (lc_items c). v' \<noteq> None"
    "map fst (lc_items c) = recent (nat (lc_capacity c)) keys"
  shows "map fst (lc_items (lru_use uses c)) = recent (nat (lc_capacity c)) (keys @ map fst uses)
    \<and> lru_inv (lru_use uses c)"
  using assms
proof (induction uses arbitrary: c keys)
  case Nil
  then show ?case by (simp add: lru_use_def)
next
  case (Cons u uses)
  obtain k v where u: "u = (k, v)" by (cases u)
  let ?c = "snd (lru_get_or_insert_with True k (Some v) c)"
  have pos: "0 < nat (lc_capacity c)" using Cons.prems(1) by (simp add: lru_inv_def)
  note step = lru_use_step [OF Cons.prems(1,2), of k v]
  have "map fst (lc_items ?c) = recent (nat (lc_capacity c)) (keys @ [k])"
    using step recent_snoc [OF pos, of keys k] Cons.prems(3) by simp
  then show ?case
    using Cons.IH [of ?c "keys @ [k]"] step lru_get_or_insert_inv [OF Cons.prems(1), of True k "Some v"]
    by (simp add: lru_use_def u)
qed

section \<open>Properties\<close>



end
