(* ===== verification/AgentPath.thy ===== *)
theory AgentPath
  imports PyJson
begin

text \<open>
  \<open>pycodex/protocol/agent_path.py\<close>: the absolute path that names an agent, \<open>/root/a/b\<close>, and the messages agents
  send each other in an assistant message (\<open>InterAgentCommunication\<close> of \<open>protocol/protocol.py\<close>). An
  \<open>AgentPath\<close> is a checked string; a \<open>ValueError\<close> is the \<open>Inl\<close> of its message.
\<close>

section \<open>Agent paths\<close>

type_synonym agent_path = pystr

definition AGENT_ROOT :: agent_path where
  "AGENT_ROOT = lit ''/root''"

definition AGENT_MORPHEUS :: agent_path where
  "AGENT_MORPHEUS = lit ''/morpheus''"

definition ROOT_SEGMENT :: pystr where
  "ROOT_SEGMENT = lit ''root''"

definition agent_name_char :: "int \<Rightarrow> bool" where
  "agent_name_char c \<longleftrightarrow> 97 \<le> c \<and> c \<le> 122 \<or> 48 \<le> c \<and> c \<le> 57 \<or> c = 95"

definition validate_agent_name :: "pystr \<Rightarrow> (pystr, unit) result" where
  "validate_agent_name name =
     (if name = [] then Inl (lit ''agent_name must not be empty'')
      else if name = ROOT_SEGMENT then Inl (lit ''agent_name `root` is reserved'')
      else if name = lit ''.'' \<or> name = lit ''..'' then Inl (lit ''agent_name `'' @ name @ lit ''` is reserved'')
      else if 47 \<in> set name then Inl (lit ''agent_name must not contain `/`'')
      else if \<not> list_all agent_name_char name
        then Inl (lit ''agent_name must use only lowercase letters, digits, and underscores'')
      else Inr ())"

fun validate_agent_names :: "pystr list \<Rightarrow> (pystr, unit) result" where
  "validate_agent_names [] = Inr ()"
| "validate_agent_names (n # ns) = bindE (validate_agent_name n) (\<lambda>_. validate_agent_names ns)"

definition absolute_path_message :: pystr where
  "absolute_path_message = lit ''absolute agent paths must start with `/root` or be `/morpheus`''"

definition validate_absolute_path :: "pystr \<Rightarrow> (pystr, unit) result" where
  "validate_absolute_path path =
     (if path = AGENT_MORPHEUS then Inr ()
      else if \<not> starts_with path (lit ''/'') then Inl absolute_path_message
      else let stripped = drop 1 path in
        if stripped = [] then Inl (lit ''absolute agent path must not be empty'')
        else let segments = split_on 47 stripped in
          if hd segments \<noteq> ROOT_SEGMENT then Inl absolute_path_message
          else if ends_with stripped (lit ''/'') then Inl (lit ''absolute agent path must not end with `/`'')
          else validate_agent_names (tl segments))"

definition validate_relative_reference :: "pystr \<Rightarrow> (pystr, unit) result" where
  "validate_relative_reference reference =
     (if ends_with reference (lit ''/'') then Inl (lit ''relative agent path must not end with `/`'')
      else validate_agent_names (split_on 47 reference))"

definition agent_path_from :: "pystr \<Rightarrow> (pystr, agent_path) result" where
  "agent_path_from path = bindE (validate_absolute_path path) (\<lambda>_. Inr path)"

definition agent_is_root :: "agent_path \<Rightarrow> bool" where
  "agent_is_root p \<longleftrightarrow> p = AGENT_ROOT"

definition agent_path_name :: "agent_path \<Rightarrow> pystr" where
  "agent_path_name p =
     (if agent_is_root p then ROOT_SEGMENT
      else let segment = last (split_on 47 p) in if segment = [] then ROOT_SEGMENT else segment)"

definition agent_path_join :: "agent_path \<Rightarrow> pystr \<Rightarrow> (pystr, agent_path) result" where
  "agent_path_join p agent_name =
     bindE (validate_agent_name agent_name) (\<lambda>_. agent_path_from (p @ lit ''/'' @ agent_name))"

definition agent_path_resolve :: "agent_path \<Rightarrow> pystr \<Rightarrow> (pystr, agent_path) result" where
  "agent_path_resolve p reference =
     (if reference = [] then Inl (lit ''agent path must not be empty'')
      else if reference = AGENT_ROOT then Inr AGENT_ROOT
      else if starts_with reference (lit ''/'') then agent_path_from reference
      else bindE (validate_relative_reference reference) (\<lambda>_. agent_path_from (p @ lit ''/'' @ reference)))"

section \<open>Messages between agents\<close>

record inter_agent_communication =
  ia_author :: agent_path
  ia_recipient :: agent_path
  ia_other_recipients :: "agent_path list"
  ia_content :: pystr
  ia_trigger_turn :: bool

text \<open>Every exception of reading a message is caught where it is read, so reading gives \<open>None\<close> for them.\<close>

definition read_str :: "json \<Rightarrow> string \<Rightarrow> pystr option" where
  "read_str j key = (case json_get j key of Some (JStr s) \<Rightarrow> Some s | _ \<Rightarrow> None)"

definition read_agent_path :: "pystr \<Rightarrow> agent_path option" where
  "read_agent_path s = (case agent_path_from s of Inr p \<Rightarrow> Some p | Inl _ \<Rightarrow> None)"

text \<open>\<open>str\<close> of any other JSON value does not start with a slash.\<close>

fun read_recipients :: "json list \<Rightarrow> agent_path list option" where
  "read_recipients [] = Some []"
| "read_recipients (JStr s # rs) =
     Option.bind (read_agent_path s) (\<lambda>p. map_option (\<lambda>ps. p # ps) (read_recipients rs))"
| "read_recipients (_ # rs) = None"

definition inter_agent_from_mapping :: "json \<Rightarrow> inter_agent_communication option" where
  "inter_agent_from_mapping j =
     Option.bind (case json_get j ''other_recipients'' of None \<Rightarrow> Some [] | Some (JArr rs) \<Rightarrow> read_recipients rs | _ \<Rightarrow> None) (\<lambda>others.
     Option.bind (Option.bind (read_str j ''author'') read_agent_path) (\<lambda>author.
     Option.bind (Option.bind (read_str j ''recipient'') read_agent_path) (\<lambda>recipient.
     Option.bind (read_str j ''content'') (\<lambda>content.
     case json_get j ''trigger_turn'' of
       Some (JBool trigger) \<Rightarrow> Some \<lparr>ia_author = author, ia_recipient = recipient, ia_other_recipients = others,
         ia_content = content, ia_trigger_turn = trigger\<rparr>
     | _ \<Rightarrow> None))))"

definition inter_agent_to_mapping :: "inter_agent_communication \<Rightarrow> json" where
  "inter_agent_to_mapping m = jobj
     [(''author'', JStr (ia_author m)), (''recipient'', JStr (ia_recipient m)),
      (''other_recipients'', JArr (map JStr (ia_other_recipients m))), (''content'', JStr (ia_content m)),
      (''trigger_turn'', JBool (ia_trigger_turn m))]"

section \<open>What a path is\<close>

text \<open>The absolute path of an agent below the root, by the names on the way.\<close>

definition agent_path_of :: "pystr list \<Rightarrow> agent_path" where
  "agent_path_of names = join_with (lit ''/'') ([] # ROOT_SEGMENT # names)"

abbreviation valid_agent_name :: "pystr \<Rightarrow> bool" where
  "valid_agent_name n \<equiv> validate_agent_name n = Inr ()"

lemma validate_agent_names_iff: "validate_agent_names ns = Inr () \<longleftrightarrow> list_all valid_agent_name ns"
  by (induction ns) (auto simp: result_iff)

lemma valid_agent_name_chars: "valid_agent_name n \<Longrightarrow> n \<noteq> [] \<and> 47 \<notin> set n"
  by (auto simp: validate_agent_name_def split: if_splits)

lemma root_segment_chars: "ROOT_SEGMENT \<noteq> [] \<and> 47 \<notin> set ROOT_SEGMENT"
  by (simp add: ROOT_SEGMENT_def)

lemma names_chars: "list_all valid_agent_name ns \<Longrightarrow> \<forall>n \<in> set (ROOT_SEGMENT # ns). n \<noteq> [] \<and> 47 \<notin> set n"
  using valid_agent_name_chars root_segment_chars by (auto simp: list_all_iff)

lemma split_on_snoc: "split_on c (s @ [c]) = split_on c s @ [[]]"
  by (induction s) (auto split: list.split)

lemma last_split_nonempty: "last (split_on 47 s) \<noteq> [] \<Longrightarrow> \<not> ends_with s (lit ''/'')"
proof
  assume ne: "last (split_on 47 s) \<noteq> []" and "ends_with s (lit ''/'')"
  then obtain t where "s = t @ [47]" by (auto simp: ends_with_iff suffix_def)
  with ne show False by (simp add: split_on_snoc)
qed

lemma agent_path_of_Cons: "agent_path_of names = 47 # join_with [47] (ROOT_SEGMENT # names)"
  by (simp add: agent_path_of_def)

lemma split_root_names: "list_all valid_agent_name names \<Longrightarrow>
    split_on 47 (join_with [47] (ROOT_SEGMENT # names)) = ROOT_SEGMENT # names"
  using names_chars [of names] by (intro split_on_join) auto

lemma last_names: "list_all valid_agent_name names \<Longrightarrow> last (ROOT_SEGMENT # names) \<noteq> []"
  using names_chars [of names] last_in_set [of "ROOT_SEGMENT # names"] by auto

lemma agent_path_of_valid:
  assumes "list_all valid_agent_name names"
  shows "validate_absolute_path (agent_path_of names) = Inr ()"
proof -
  let ?s = "join_with [47] (ROOT_SEGMENT # names)"
  note split = split_root_names [OF assms]
  have "?s \<noteq> []" using split root_segment_chars by (cases "?s = []") auto
  moreover have "\<not> ends_with ?s (lit ''/'')" by (rule last_split_nonempty) (use split last_names [OF assms] in simp)
  ultimately show ?thesis
    using assms unfolding validate_absolute_path_def agent_path_of_Cons Let_def
    by (simp add: split validate_agent_names_iff starts_with_def del: join_with.simps)
qed

lemma morpheus_valid: "validate_absolute_path AGENT_MORPHEUS = Inr ()"
  by (simp add: validate_absolute_path_def)

lemma validate_absolute_path_iff:
  "validate_absolute_path p = Inr () \<longleftrightarrow>
     p = AGENT_MORPHEUS \<or> (\<exists>names. list_all valid_agent_name names \<and> p = agent_path_of names)"
proof
  assume v: "validate_absolute_path p = Inr ()"
  show "p = AGENT_MORPHEUS \<or> (\<exists>names. list_all valid_agent_name names \<and> p = agent_path_of names)"
  proof (cases "p = AGENT_MORPHEUS")
    case False
    with v obtain s where s: "p = 47 # s" "hd (split_on 47 s) = ROOT_SEGMENT"
      "validate_agent_names (tl (split_on 47 s)) = Inr ()"
      by (cases p) (auto simp: validate_absolute_path_def Let_def starts_with_def split: if_splits)
    obtain ns where ns: "split_on 47 s = ROOT_SEGMENT # ns"
      using s(2) join_split_on [of 47 s] root_segment_chars by (cases "split_on 47 s") auto
    have "p = agent_path_of ns" using s(1) join_split_on [of 47 s] by (simp add: ns agent_path_of_Cons)
    then show ?thesis using s(3) ns by (auto simp: validate_agent_names_iff)
  qed simp
qed (use agent_path_of_valid morpheus_valid in blast)

lemma agent_path_from_iff: "agent_path_from s = Inr p \<longleftrightarrow> p = s \<and>
    (s = AGENT_MORPHEUS \<or> (\<exists>names. list_all valid_agent_name names \<and> s = agent_path_of names))"
  by (auto simp: agent_path_from_def result_iff validate_absolute_path_iff [symmetric])

lemma join_with_append: "xs \<noteq> [] \<Longrightarrow> ys \<noteq> [] \<Longrightarrow> join_with sep (xs @ ys) = join_with sep xs @ sep @ join_with sep ys"
  by (induction sep xs rule: join_with.induct) (auto simp: join_with_Cons)

lemma agent_path_of_append: "ms \<noteq> [] \<Longrightarrow> agent_path_of (names @ ms) = agent_path_of names @ 47 # join_with [47] ms"
  using join_with_append [of "[] # ROOT_SEGMENT # names" ms "[47]"] by (simp add: agent_path_of_def)

lemma validate_relative_reference_iff:
  "validate_relative_reference r = Inr () \<longleftrightarrow> (\<exists>ms. ms \<noteq> [] \<and> list_all valid_agent_name ms \<and> r = join_with [47] ms)"
proof
  assume "validate_relative_reference r = Inr ()"
  then have "list_all valid_agent_name (split_on 47 r)"
    by (simp add: validate_relative_reference_def validate_agent_names_iff split: if_splits)
  moreover have "split_on 47 r \<noteq> []" by (cases r) (auto split: list.split)
  ultimately show "\<exists>ms. ms \<noteq> [] \<and> list_all valid_agent_name ms \<and> r = join_with [47] ms"
    using join_split_on [of 47 r] by metis
next
  assume "\<exists>ms. ms \<noteq> [] \<and> list_all valid_agent_name ms \<and> r = join_with [47] ms"
  then obtain ms where ms: "ms \<noteq> []" "list_all valid_agent_name ms" "r = join_with [47] ms" by blast
  have split: "split_on 47 r = ms" unfolding ms(3) by (rule split_on_join) (use ms names_chars [of ms] in auto)
  have "\<not> ends_with r (lit ''/'')"
    by (rule last_split_nonempty) (use split ms last_names [of ms] in simp)
  with split ms show "validate_relative_reference r = Inr ()"
    by (simp add: validate_relative_reference_def validate_agent_names_iff)
qed

lemma relative_not_absolute:
  assumes "ms \<noteq> []" "list_all valid_agent_name ms"
  shows "join_with [47] ms \<noteq> []" and "\<not> starts_with (join_with [47] ms) [47]"
proof -
  obtain m ms' where m: "ms = m # ms'" using assms(1) by (cases ms) auto
  then have "m \<noteq> [] \<and> 47 \<notin> set m" using assms(2) valid_agent_name_chars by simp
  then obtain c m' where "m = c # m'" "c \<noteq> 47" by (cases m) auto
  with m show "join_with [47] ms \<noteq> []" "\<not> starts_with (join_with [47] ms) [47]"
    by (cases ms'; simp add: starts_with_def)+
qed

lemma absolute_starts: "agent_path_of names \<noteq> []" "starts_with (agent_path_of names) [47]"
    "AGENT_MORPHEUS \<noteq> []" "starts_with AGENT_MORPHEUS [47]" "AGENT_ROOT = agent_path_of []"
    "AGENT_ROOT \<noteq> AGENT_MORPHEUS"
  by (simp_all add: agent_path_of_Cons starts_with_def AGENT_MORPHEUS_def AGENT_ROOT_def ROOT_SEGMENT_def)

lemma agent_path_resolve_iff:
  assumes "list_all valid_agent_name names"
  shows "agent_path_resolve (agent_path_of names) r = Inr q \<longleftrightarrow>
      r = AGENT_MORPHEUS \<and> q = r
    \<or> (\<exists>ms. list_all valid_agent_name ms
        \<and> (r = agent_path_of ms \<and> q = r \<or> ms \<noteq> [] \<and> r = join_with [47] ms \<and> q = agent_path_of (names @ ms)))"
proof (cases "starts_with r [47]")
  case True
  then have "r \<noteq> []" by (auto simp: starts_with_def)
  moreover have "r \<noteq> join_with [47] ms" if "ms \<noteq> []" "list_all valid_agent_name ms" for ms
    using relative_not_absolute(2) [OF that] True by blast
  ultimately show ?thesis
    using True absolute_starts(5) by (auto simp: agent_path_resolve_def agent_path_from_iff)
next
  case False
  have "agent_path_from (agent_path_of names @ 47 # join_with [47] ms) = Inr (agent_path_of (names @ ms))"
    if "ms \<noteq> []" "list_all valid_agent_name ms" for ms
    using that assms by (auto simp: agent_path_from_iff agent_path_of_append intro: exI [of _ "names @ ms"])
  note below_self = this
  have "r \<noteq> AGENT_ROOT" "r \<noteq> AGENT_MORPHEUS" "r \<noteq> agent_path_of ms" for ms
    using False absolute_starts(2) [of "[]"] absolute_starts(2) [of ms] absolute_starts(4,5) by auto
  moreover have "agent_path_resolve (agent_path_of names) r = Inr q \<longleftrightarrow>
      (\<exists>ms. ms \<noteq> [] \<and> list_all valid_agent_name ms \<and> r = join_with [47] ms \<and> q = agent_path_of (names @ ms))"
  proof (cases "r = []")
    case True
    then show ?thesis using relative_not_absolute(1) by (fastforce simp: agent_path_resolve_def)
  next
    case nonempty: False
    with calculation(1) False have "agent_path_resolve (agent_path_of names) r = Inr q \<longleftrightarrow>
        validate_relative_reference r = Inr () \<and> agent_path_from (agent_path_of names @ 47 # r) = Inr q"
      by (simp add: agent_path_resolve_def bindE_eq_Inr)
    then show ?thesis using below_self by (auto simp: validate_relative_reference_iff)
  qed
  ultimately show ?thesis by blast
qed

lemma agent_path_name_of:
  assumes "list_all valid_agent_name names"
  shows "agent_path_name (agent_path_of names) = last (ROOT_SEGMENT # names)"
proof (cases "names = []")
  case True
  then show ?thesis by (simp add: agent_path_name_def agent_is_root_def absolute_starts(5))
next
  case False
  have split: "split_on 47 (agent_path_of names) = [] # ROOT_SEGMENT # names"
    using split_root_names [OF assms] by (simp add: agent_path_of_Cons del: join_with.simps)
  moreover have "split_on 47 AGENT_ROOT = [[], ROOT_SEGMENT]"
    using split_root_names [of "[]"] by (simp add: absolute_starts(5) agent_path_of_Cons del: join_with.simps)
  ultimately have "\<not> agent_is_root (agent_path_of names)" using False by (auto simp: agent_is_root_def)
  then show ?thesis
    using split last_names [OF assms] False by (auto simp: agent_path_name_def Let_def)
qed

section \<open>Properties\<close>

text \<open>
  C39: An agent path is \<open>/morpheus\<close> or the root followed by valid names, and the operations keep it so. From the
  agent at names \<open>ns\<close>, \<open>join\<close> gives the path one valid name further down and fails for any other name;
  \<open>resolve\<close> accepts exactly the absolute paths and the relative references made of valid names, and gives the
  named path, in the second case the path that walks these names from the agent on; the name of a path is its
  last one.
\<close>

theorem agent_path_operations_are_typed:
  assumes "list_all valid_agent_name names"
  shows "agent_path_from (agent_path_of names) = Inr (agent_path_of names)
    \<and> agent_path_name (agent_path_of names) = last (ROOT_SEGMENT # names)
    \<and> (agent_path_join (agent_path_of names) n = Inr q \<longleftrightarrow> valid_agent_name n \<and> q = agent_path_of (names @ [n]))
    \<and> (agent_path_resolve (agent_path_of names) r = Inr q \<longleftrightarrow>
        r = AGENT_MORPHEUS \<and> q = r
      \<or> (\<exists>ms. list_all valid_agent_name ms
          \<and> (r = agent_path_of ms \<and> q = r \<or> ms \<noteq> [] \<and> r = join_with [47] ms \<and> q = agent_path_of (names @ ms))))"
proof (intro conjI)
  show "agent_path_from (agent_path_of names) = Inr (agent_path_of names)"
    using agent_path_of_valid [OF assms] by (simp add: agent_path_from_def)
  show "agent_path_join (agent_path_of names) n = Inr q \<longleftrightarrow> valid_agent_name n \<and> q = agent_path_of (names @ [n])"
    using agent_path_of_valid [of "names @ [n]"] assms
    by (auto simp: agent_path_join_def bindE_eq_Inr agent_path_from_def agent_path_of_append)
qed (rule agent_path_name_of [OF assms], rule agent_path_resolve_iff [OF assms])

lemma agent_path_operations_are_typed_witness:
  "agent_path_resolve (lit ''/root/a1'') (lit ''b/c_d'') = Inr (lit ''/root/a1/b/c_d'')"
proof -
  have "list_all valid_agent_name [lit ''a1'']" "list_all valid_agent_name [lit ''b'', lit ''c_d'']"
    "lit ''b/c_d'' = join_with [47] [lit ''b'', lit ''c_d'']" by code_simp+
  then have "agent_path_resolve (agent_path_of [lit ''a1'']) (lit ''b/c_d'')
      = Inr (agent_path_of ([lit ''a1''] @ [lit ''b'', lit ''c_d'']))"
    using agent_path_operations_are_typed [of "[lit ''a1'']"] by blast
  then show ?thesis by (simp add: agent_path_of_def ROOT_SEGMENT_def)
qed

text \<open>
  A message between agents survives being sent: whatever valid paths it names and whatever its content is,
  reading the JSON object it is written as gives the message back.
\<close>

theorem agent_message_reads_back:
  assumes "list_all (\<lambda>p. validate_absolute_path p = Inr ()) (ia_author m # ia_recipient m # ia_other_recipients m)"
  shows "inter_agent_from_mapping (inter_agent_to_mapping m) = Some m"
proof -
  have path: "read_agent_path p = Some p" if "validate_absolute_path p = Inr ()" for p
    using that by (simp add: read_agent_path_def agent_path_from_def)
  have "read_recipients (map JStr ps) = Some ps" if "list_all (\<lambda>p. validate_absolute_path p = Inr ()) ps" for ps
    using that by (induction ps) (simp_all add: path)
  then show ?thesis
    using assms path by (simp add: inter_agent_from_mapping_def inter_agent_to_mapping_def jobj_def read_str_def lit_inject
        del: lit.simps)
qed

lemma agent_message_reads_back_witness:
  "inter_agent_from_mapping (inter_agent_to_mapping
     \<lparr>ia_author = lit ''/root'', ia_recipient = lit ''/root/a'', ia_other_recipients = [lit ''/morpheus''],
      ia_content = lit ''hi'', ia_trigger_turn = True\<rparr>) \<noteq> None"
  by (subst agent_message_reads_back) code_simp+

end
