(* ===== verification/Truncation.thy ===== *)
theory Truncation
  imports Utf8Stream
begin

text \<open>
  Cutting the middle out of long texts, \<open>pycodex/utils/string/truncate.py\<close> (with the helpers of
  \<open>pycodex/utils/string/__init__.py\<close>), and the truncation of tool outputs built on it,
  \<open>pycodex/utils/output_truncation\<close>. A text is measured by its UTF-8 bytes, or by tokens of four bytes.
  \<open>str.encode\<close> raises on lone surrogates, and a negative limit raises \<open>ValueError\<close>; both are values here.
\<close>

section \<open>Lengths\<close>

datatype trunc_exn = EncodeError | NegativeError pystr

definition char_bytes :: "int \<Rightarrow> nat" where
  "char_bytes c = length (utf8_encode_char c)"

definition byte_len :: "pystr \<Rightarrow> nat" where
  "byte_len s = length (utf8_encode s)"

definition encode_len :: "pystr \<Rightarrow> (trunc_exn, nat) result" where
  "encode_len s = (if list_all scalar_value s then Inr (byte_len s) else Inl EncodeError)"

definition ensure_usize :: "int \<Rightarrow> string \<Rightarrow> (trunc_exn, nat) result" where
  "ensure_usize n label = (if n < 0 then Inl (NegativeError (lit label @ lit '' must be non-negative'')) else Inr (nat n))"

definition APPROX_BYTES_PER_TOKEN :: nat where
  "APPROX_BYTES_PER_TOKEN = 4"

definition approx_tokens_from_byte_count :: "nat \<Rightarrow> nat" where
  "approx_tokens_from_byte_count n = (n + APPROX_BYTES_PER_TOKEN - 1) div APPROX_BYTES_PER_TOKEN"

definition approx_token_count :: "pystr \<Rightarrow> (trunc_exn, nat) result" where
  "approx_token_count s = bindE (encode_len s) (\<lambda>n. Inr (approx_tokens_from_byte_count n))"

definition approx_bytes_for_tokens :: "int \<Rightarrow> (trunc_exn, nat) result" where
  "approx_bytes_for_tokens tokens =
     bindE (ensure_usize tokens ''tokens'') (\<lambda>n. Inr (n * APPROX_BYTES_PER_TOKEN))"

section \<open>Cutting the middle\<close>

text \<open>
  The loop of \<open>_split_string\<close>: the index and the byte index of the next character, and the end of the
  prefix, the start of the suffix, the characters removed and whether the suffix has started.
\<close>

record split_state =
  sp_prefix_end :: nat
  sp_suffix_start :: nat
  sp_removed :: nat
  sp_started :: bool

fun split_loop :: "nat \<Rightarrow> nat \<Rightarrow> nat \<Rightarrow> nat \<Rightarrow> split_state \<Rightarrow> pystr \<Rightarrow> split_state" where
  "split_loop beginning tail_start index byte_index st [] = st"
| "split_loop beginning tail_start index byte_index st (c # cs) =
     (let char_end = byte_index + char_bytes c;
          st' = (if char_end \<le> beginning then st\<lparr>sp_prefix_end := index + 1\<rparr>
                 else if tail_start \<le> byte_index then
                   (if sp_started st then st else st\<lparr>sp_suffix_start := index, sp_started := True\<rparr>)
                 else st\<lparr>sp_removed := sp_removed st + 1\<rparr>)
      in split_loop beginning tail_start (index + 1) char_end st' cs)"

definition split_string :: "pystr \<Rightarrow> nat \<Rightarrow> nat \<Rightarrow> nat \<times> pystr \<times> pystr" where
  "split_string s beginning_bytes end_bytes =
     (if s = [] then (0, [], [])
      else let st = split_loop beginning_bytes (byte_len s - end_bytes) 0 0
                      \<lparr>sp_prefix_end = 0, sp_suffix_start = length s, sp_removed = 0, sp_started = False\<rparr> s
        in (sp_removed st, take (sp_prefix_end st) s, drop (max (sp_suffix_start st) (sp_prefix_end st)) s))"

definition split_budget :: "nat \<Rightarrow> nat \<times> nat" where
  "split_budget budget = (budget div 2, budget - budget div 2)"

definition format_truncation_marker :: "bool \<Rightarrow> nat \<Rightarrow> pystr" where
  "format_truncation_marker use_tokens removed =
     [8230] @ str_of_nat removed @ (if use_tokens then lit '' tokens'' else lit '' chars'') @ lit '' truncated'' @ [8230]"

definition removed_units :: "bool \<Rightarrow> nat \<Rightarrow> nat \<Rightarrow> nat" where
  "removed_units use_tokens removed_bytes removed_chars =
     (if use_tokens then approx_tokens_from_byte_count removed_bytes else removed_chars)"

definition truncate_with_byte_estimate :: "pystr \<Rightarrow> nat \<Rightarrow> bool \<Rightarrow> (trunc_exn, pystr) result" where
  "truncate_with_byte_estimate s max_bytes use_tokens =
     (if s = [] then Inr []
      else bindE (encode_len s) (\<lambda>n.
        if max_bytes = 0 then Inr (format_truncation_marker use_tokens (removed_units use_tokens n (length s)))
        else if n \<le> max_bytes then Inr s
        else let (left_budget, right_budget) = split_budget max_bytes;
                 (removed, left, right) = split_string s left_budget right_budget
          in Inr (left @ format_truncation_marker use_tokens (removed_units use_tokens (n - max_bytes) removed) @ right)))"

definition truncate_middle_chars :: "pystr \<Rightarrow> int \<Rightarrow> (trunc_exn, pystr) result" where
  "truncate_middle_chars s max_bytes =
     bindE (ensure_usize max_bytes ''max_bytes'') (\<lambda>n. truncate_with_byte_estimate s n False)"

definition truncate_middle_with_token_budget :: "pystr \<Rightarrow> int \<Rightarrow> (trunc_exn, pystr \<times> nat option) result" where
  "truncate_middle_with_token_budget s max_tokens =
     bindE (ensure_usize max_tokens ''max_tokens'') (\<lambda>tokens.
       if s = [] then Inr ([], None)
       else bindE (if tokens > 0 then encode_len s else Inr 0) (\<lambda>n.
         if tokens > 0 \<and> n \<le> tokens * APPROX_BYTES_PER_TOKEN then Inr (s, None)
         else bindE (truncate_with_byte_estimate s (tokens * APPROX_BYTES_PER_TOKEN) True) (\<lambda>truncated.
           bindE (approx_token_count s) (\<lambda>total.
             Inr (if truncated = s then (truncated, None) else (truncated, Some total))))))"

text \<open>\<open>bytes.decode("utf-8", errors="ignore")\<close>: bytes that decode to nothing are left out.\<close>

fun utf8_decode_ignore :: "int list \<Rightarrow> pystr" where
  "utf8_decode_ignore [] = []"
| "utf8_decode_ignore (b # bs) =
     (case utf8_next (b # bs) of
        Utf8Char c n \<Rightarrow> c # utf8_decode_ignore (drop (n - 1) bs)
      | Utf8Invalid n \<Rightarrow> utf8_decode_ignore (drop (n - 1) bs)
      | Utf8Incomplete \<Rightarrow> [])"

definition take_bytes_at_char_boundary :: "pystr \<Rightarrow> int \<Rightarrow> (trunc_exn, pystr) result" where
  "take_bytes_at_char_boundary s max_bytes =
     bindE (ensure_usize max_bytes ''max_bytes'') (\<lambda>m. bindE (encode_len s) (\<lambda>n.
       Inr (if n \<le> m then s else utf8_decode_ignore (take m (utf8_encode s)))))"

section \<open>What is kept\<close>

text \<open>The number of characters that fit into a budget, and that start before a byte index.\<close>

fun fitting :: "int \<Rightarrow> pystr \<Rightarrow> nat" where
  "fitting budget [] = 0"
| "fitting budget (c # cs) =
     (if int (char_bytes c) \<le> budget then Suc (fitting (budget - int (char_bytes c)) cs) else 0)"

fun below :: "int \<Rightarrow> pystr \<Rightarrow> nat" where
  "below t [] = 0"
| "below t (c # cs) = (if t \<le> 0 then 0 else Suc (below (t - int (char_bytes c)) cs))"

lemma char_bytes_pos: "0 < char_bytes c"
  by (simp add: char_bytes_def)

lemma char_bytes_le: "char_bytes c \<le> 4"
  by (simp add: char_bytes_def utf8_encode_char_def)

lemma byte_len_simps [simp]:
  "byte_len [] = 0" "byte_len (c # cs) = char_bytes c + byte_len cs"
  by (simp_all add: byte_len_def utf8_encode_def char_bytes_def)

lemma byte_len_append [simp]: "byte_len (s @ t) = byte_len s + byte_len t"
  by (induction s) auto

lemma byte_len_take_drop: "byte_len (take n s) + byte_len (drop n s) = byte_len s"
  by (metis append_take_drop_id byte_len_append)

lemma byte_len_zero [simp]: "byte_len s = 0 \<longleftrightarrow> s = []"
  using char_bytes_pos by (cases s) auto

lemma fitting_neg: "b < 0 \<Longrightarrow> fitting b s = 0"
  by (cases s) auto

lemma fitting_length: "fitting b s \<le> length s"
  by (induction b s rule: fitting.induct) auto

lemma fitting_bytes: "0 \<le> b \<Longrightarrow> int (byte_len (take (fitting b s) s)) \<le> b"
  by (induction b s rule: fitting.induct) auto

lemma fitting_next:
  "fitting b s < length s \<Longrightarrow> b < int (byte_len (take (Suc (fitting b s)) s))"
  by (induction b s rule: fitting.induct) (auto split: if_splits)

lemma below_length: "below t s \<le> length s"
  by (induction t s rule: below.induct) auto

lemma below_bytes: "t \<le> int (byte_len s) \<Longrightarrow> t \<le> int (byte_len (take (below t s) s))"
  by (induction t s rule: below.induct) auto

lemma below_prev: "0 < below t s \<Longrightarrow> int (byte_len (take (below t s - 1) s)) < t"
proof (induction t s rule: below.induct)
  case (2 t c cs)
  show ?case
  proof (cases "below (t - int (char_bytes c)) cs = 0")
    case False
    with 2 show ?thesis by (auto simp: gr0_conv_Suc split: if_splits)
  qed (use 2 in \<open>auto split: if_splits\<close>)
qed simp

lemma fitting_below: "b < t \<Longrightarrow> fitting b s \<le> below t s"
proof (induction b s arbitrary: t rule: fitting.induct)
  case (2 b c cs)
  then show ?case
    by (cases "int (char_bytes c) \<le> b") (simp_all add: "2.IH" [of "t - int (char_bytes c)"])
qed simp

text \<open>The loop once a character did not fit, and the whole loop.\<close>

lemma split_loop_tail:
  assumes "beginning < byte_index" "sp_started st \<longrightarrow> tail_start \<le> byte_index"
  shows "split_loop beginning tail_start index byte_index st s =
    (let n = below (int tail_start - int byte_index) s in
     if sp_started st then st\<lparr>sp_removed := sp_removed st + n\<rparr>
     else st\<lparr>sp_suffix_start := (if n < length s then index + n else sp_suffix_start st),
             sp_removed := sp_removed st + n, sp_started := n < length s\<rparr>)"
  using assms
proof (induction s arbitrary: index byte_index st)
  case (Cons c cs)
  have later: "beginning < byte_index + char_bytes c" using Cons.prems(1) by simp
  show ?case
  proof (cases "tail_start \<le> byte_index")
    case True
    have zero: "below (int tail_start - int (byte_index + char_bytes c)) cs = 0"
      using True by (cases cs) auto
    show ?thesis
      using Cons.IH [OF later] True zero Cons.prems later by (auto simp: Let_def)
  next
    case False
    then have "\<not> sp_started st" using Cons.prems(2) by simp
    then show ?thesis
      using Cons.IH [OF later, of "st\<lparr>sp_removed := sp_removed st + 1\<rparr>" "index + 1"] False later
      by (auto simp: Let_def algebra_simps)
  qed
qed simp

lemma split_loop_spec:
  assumes "byte_index \<le> beginning" "beginning < tail_start" "\<not> sp_started st"
    and "sp_suffix_start st = index + length s"
  shows "split_loop beginning tail_start index byte_index st s =
    (let k = fitting (int beginning - int byte_index) s; n = below (int tail_start - int byte_index) s in
     \<lparr>sp_prefix_end = (if k = 0 then sp_prefix_end st else index + k), sp_suffix_start = index + n,
      sp_removed = sp_removed st + (n - k), sp_started = n < length s\<rparr>)"
  using assms
proof (induction s arbitrary: index byte_index st)
  case (Cons c cs)
  show ?case
  proof (cases "byte_index + char_bytes c \<le> beginning")
    case True
    then have "\<not> tail_start \<le> byte_index + char_bytes c" using Cons.prems(2) by simp
    then show ?thesis
      using Cons.IH [of "byte_index + char_bytes c" "st\<lparr>sp_prefix_end := index + 1\<rparr>" "index + 1"] Cons.prems True
      by (simp add: Let_def algebra_simps)
  next
    case False
    have early: "\<not> tail_start \<le> byte_index" using Cons.prems by simp
    then have n: "below (int tail_start - int byte_index) (c # cs)
        = Suc (below (int tail_start - int (byte_index + char_bytes c)) cs)"
      by (simp add: algebra_simps)
    have "below (int tail_start - int (byte_index + char_bytes c)) cs \<le> length cs" by (rule below_length)
    with False n show ?thesis
      using split_loop_tail [of beginning "byte_index + char_bytes c" "st\<lparr>sp_removed := sp_removed st + 1\<rparr>"
          tail_start "index + 1" cs] Cons.prems
      by (cases st) (auto simp: Let_def)
  qed
next
  case Nil
  then show ?case by (cases st) simp
qed

lemma split_string_spec:
  assumes "l + r < byte_len s"
  shows "split_string s l r =
    (let k = fitting (int l) s; n = below (int (byte_len s) - int r) s in (n - k, take k s, drop n s))"
proof -
  have "s \<noteq> []" using assms by auto
  moreover have "int (byte_len s - r) = int (byte_len s) - int r" using assms by simp
  moreover have "fitting (int l) s \<le> below (int (byte_len s) - int r) s"
    by (rule fitting_below) (use assms in simp)
  ultimately show ?thesis
    using split_loop_spec [of 0 l "byte_len s - r"] assms
    by (simp add: split_string_def Let_def max_def)
qed

text \<open>What cutting the middle keeps: the longest two ends that fit into the two halves of the budget.\<close>

lemma two_ends:
  assumes "l + r < byte_len s"
  shows "\<exists>left middle right. s = left @ middle @ right \<and> middle \<noteq> []
    \<and> split_string s l r = (length middle, left, right)
    \<and> byte_len left \<le> l \<and> l < byte_len (left @ [hd middle])
    \<and> byte_len right \<le> r \<and> r < byte_len (last middle # right)"
proof -
  define k n where "k = fitting (int l) s" and "n = below (int (byte_len s) - int r) s"
  have "k \<le> n" using fitting_below [of "int l" "int (byte_len s) - int r" s] assms by (simp add: k_def n_def)
  let ?left = "take k s" and ?middle = "drop k (take n s)" and ?right = "drop n s"
  have whole: "s = ?left @ ?middle @ ?right"
    using \<open>k \<le> n\<close> by (metis append_take_drop_id append.assoc take_take min_def)
  have left: "byte_len ?left \<le> l" using fitting_bytes [of "int l" s] by (simp add: k_def)
  have right: "byte_len ?right \<le> r"
    using byte_len_take_drop [of n s] below_bytes [of "int (byte_len s) - int r" s] by (simp add: n_def)
  have ne: "?middle \<noteq> []"
  proof
    assume "?middle = []"
    then show False using arg_cong [OF whole, of byte_len] left right assms by simp
  qed
  then have kn: "k < n" "n \<le> length s" using below_length [of _ s] by (auto simp: n_def)
  have "l < byte_len (take (Suc k) s)" using fitting_next [of "int l" s] kn by (simp add: k_def)
  moreover have "take (Suc k) s = ?left @ [hd ?middle]"
    using kn by (simp add: take_Suc_conv_app_nth hd_drop_conv_nth)
  moreover have "int (byte_len (take (n - 1) s)) < int (byte_len s) - int r"
    using below_prev [of "int (byte_len s) - int r" s] kn by (simp add: n_def)
  then have "r < byte_len (drop (n - 1) s)" using byte_len_take_drop [of "n - 1" s] by simp
  moreover have "last ?middle = s ! (n - 1)" using kn ne by (simp add: last_conv_nth)
  then have "drop (n - 1) s = last ?middle # ?right"
    using kn Cons_nth_drop_Suc [of "n - 1" s] by simp
  moreover have "split_string s l r = (length ?middle, ?left, ?right)"
    using split_string_spec [OF assms] kn by (simp add: k_def n_def Let_def)
  ultimately show ?thesis
    using whole ne left right
    by - (rule exI [of _ ?left], rule exI [of _ ?middle], rule exI [of _ ?right], simp)
qed

lemma truncation_keeps_ends_lemma:
  assumes "max_bytes < byte_len s" "0 < max_bytes" "list_all scalar_value s"
  shows "\<exists>left middle right. s = left @ middle @ right \<and> middle \<noteq> []
    \<and> truncate_with_byte_estimate s max_bytes use_tokens = Inr (left @ format_truncation_marker use_tokens
          (removed_units use_tokens (byte_len s - max_bytes) (length middle)) @ right)
    \<and> byte_len left \<le> max_bytes div 2 \<and> max_bytes div 2 < byte_len (left @ [hd middle])
    \<and> byte_len right \<le> max_bytes - max_bytes div 2 \<and> max_bytes - max_bytes div 2 < byte_len (last middle # right)"
proof -
  have "max_bytes div 2 + (max_bytes - max_bytes div 2) < byte_len s" using assms(1) by simp
  from two_ends [OF this] obtain left middle right where e: "s = left @ middle @ right" "middle \<noteq> []"
    "split_string s (max_bytes div 2) (max_bytes - max_bytes div 2) = (length middle, left, right)"
    "byte_len left \<le> max_bytes div 2" "max_bytes div 2 < byte_len (left @ [hd middle])"
    "byte_len right \<le> max_bytes - max_bytes div 2" "max_bytes - max_bytes div 2 < byte_len (last middle # right)"
    by blast
  have "s \<noteq> []" using assms(1) by auto
  then have "truncate_with_byte_estimate s max_bytes use_tokens = Inr (left @ format_truncation_marker use_tokens
      (removed_units use_tokens (byte_len s - max_bytes) (length middle)) @ right)"
    using assms by (simp add: truncate_with_byte_estimate_def encode_len_def split_budget_def e(3))
  with e show ?thesis by blast
qed

lemma truncate_with_byte_estimate_small:
  "byte_len s \<le> n \<Longrightarrow> list_all scalar_value s \<Longrightarrow> s = [] \<or> 0 < n \<Longrightarrow>
     truncate_with_byte_estimate s n use_tokens = Inr s"
  by (auto simp: truncate_with_byte_estimate_def encode_len_def)

lemma truncate_with_byte_estimate_fails:
  "truncate_with_byte_estimate s n use_tokens = Inl e \<longleftrightarrow> e = EncodeError \<and> \<not> list_all scalar_value s"
  by (auto simp: truncate_with_byte_estimate_def encode_len_def bindE_eq_Inl split_budget_def case_prod_beta
      split: if_splits)

lemma byte_len_ascii: "list_all (\<lambda>c. c < 128) s \<Longrightarrow> byte_len s = length s"
  by (induction s) (auto simp: char_bytes_def utf8_encode_char_def)

lemma byte_len_marker:
  "byte_len (format_truncation_marker use_tokens n) = length (str_of_nat n) + (if use_tokens then 23 else 22)"
proof -
  have "byte_len (str_of_nat n) = length (str_of_nat n)"
    using str_of_nat_digits [of _ n] by (intro byte_len_ascii) (fastforce simp: list_all_iff)
  moreover have "byte_len (lit '' chars'') = 6" "byte_len (lit '' tokens'') = 7"
    "byte_len (lit '' truncated'') = 10" "char_bytes 8230 = 3"
    by code_simp+
  ultimately show ?thesis by (simp add: format_truncation_marker_def del: lit.simps)
qed

lemma str_of_nat_mono: "m \<le> n \<Longrightarrow> length (str_of_nat m) \<le> length (str_of_nat n)"
proof (induction n arbitrary: m rule: str_of_nat.induct)
  case (1 n)
  show ?case
  proof (cases "n < 10 \<or> m < 10")
    case True
    then have "m < 10" using "1.prems" by auto
    then have "length (str_of_nat m) = 1" by (subst str_of_nat.simps) simp
    then show ?thesis by (simp add: Suc_leI)
  next
    case False
    then have "length (str_of_nat (m div 10)) \<le> length (str_of_nat (n div 10))"
      using "1.IH" [of "m div 10"] "1.prems" by (simp add: div_le_mono)
    then show ?thesis using False by (subst (1 2) str_of_nat.simps) simp
  qed
qed

section \<open>Properties\<close>

text \<open>
  C28: Cutting a text in the middle keeps its two ends: a text that exceeds the budget is the ends, each
  the longest that fits into its half of the budget (whole characters, measured in UTF-8 bytes), around
  a marker that names exactly the number of characters taken out; a text within the budget is unchanged.
\<close>

theorem truncation_keeps_both_ends:
  assumes "0 < max_bytes" "list_all scalar_value s"
  shows "if byte_len s \<le> max_bytes then truncate_middle_chars s (int max_bytes) = Inr s
    else \<exists>left middle right. s = left @ middle @ right \<and> middle \<noteq> []
      \<and> truncate_middle_chars s (int max_bytes) = Inr (left @ format_truncation_marker False (length middle) @ right)
      \<and> byte_len left \<le> max_bytes div 2 \<and> max_bytes div 2 < byte_len (left @ [hd middle])
      \<and> byte_len right \<le> max_bytes - max_bytes div 2 \<and> max_bytes - max_bytes div 2 < byte_len (last middle # right)"
  using truncation_keeps_ends_lemma [of max_bytes s False] assms
  by (simp add: truncate_middle_chars_def ensure_usize_def truncate_with_byte_estimate_small removed_units_def)

lemma truncation_keeps_both_ends_witness:
  "\<exists>left middle right. lit ''abcdefgh'' = left @ middle @ right
    \<and> truncate_middle_chars (lit ''abcdefgh'') 5 = Inr (left @ format_truncation_marker False (length middle) @ right)"
proof -
  have "list_all scalar_value (lit ''abcdefgh'')" "\<not> byte_len (lit ''abcdefgh'') \<le> 5" by code_simp+
  with truncation_keeps_both_ends [of 5 "lit ''abcdefgh''"] show ?thesis by (simp del: lit.simps byte_len_simps) blast
qed

text \<open>
  A truncated text is short: it takes no more bytes than the budget and the marker, whose only part
  that grows is the number of digits of the length of the text; truncation raises exactly for a
  negative budget and for a text with a lone surrogate.
\<close>

theorem truncated_text_is_short:
  "case truncate_middle_chars s max_bytes of
     Inr out \<Rightarrow> 0 \<le> max_bytes \<and> int (byte_len out) \<le> max_bytes + 22 + int (length (str_of_nat (length s)))
   | Inl e \<Rightarrow> max_bytes < 0 \<or> s \<noteq> [] \<and> \<not> list_all scalar_value s"
proof (cases "max_bytes < 0 \<or> \<not> list_all scalar_value s")
  case True
  show ?thesis
  proof (cases "max_bytes < 0")
    case neg: True
    then show ?thesis by (simp add: truncate_middle_chars_def ensure_usize_def)
  next
    case pos: False
    then have sur: "\<not> list_all scalar_value s" using True by simp
    then have "truncate_middle_chars s max_bytes = Inl EncodeError"
      using pos truncate_with_byte_estimate_fails by (simp add: truncate_middle_chars_def ensure_usize_def)
    moreover have "s \<noteq> []" using sur by auto
    ultimately show ?thesis using sur by simp
  qed
next
  case False
  define n where "n = nat max_bytes"
  have n: "max_bytes = int n" using False by (simp add: n_def)
  have "\<exists>out. truncate_middle_chars s (int n) = Inr out
    \<and> byte_len out \<le> n + 22 + length (str_of_nat (length s))"
  proof (cases "byte_len s \<le> n \<or> n = 0")
    case True
    then show ?thesis
      using False byte_len_marker [of False "length s"]
      by (auto simp: truncate_middle_chars_def ensure_usize_def truncate_with_byte_estimate_def encode_len_def
          removed_units_def)
  next
    case cut: False
    then have "n < byte_len s" "0 < n" by auto
    from truncation_keeps_ends_lemma [OF this, of False] False obtain left middle right where
      "s = left @ middle @ right" "byte_len left \<le> n div 2" "byte_len right \<le> n - n div 2"
      "truncate_middle_chars s (int n) = Inr (left @ format_truncation_marker False (length middle) @ right)"
      by (auto simp: truncate_middle_chars_def ensure_usize_def removed_units_def)
    moreover from this have "length (str_of_nat (length middle)) \<le> length (str_of_nat (length s))"
      by (intro str_of_nat_mono) simp
    ultimately show ?thesis by (auto simp: byte_len_marker)
  qed
  then show ?thesis by (auto simp: n)
qed

lemma decode_ignore_encode:
  "list_all scalar_value s \<Longrightarrow> utf8_decode_ignore (take m (utf8_encode s)) = take (fitting (int m) s) s"
proof (induction s arbitrary: m)
  case (Cons c s)
  have enc: "utf8_encode (c # s) = utf8_encode_char c @ utf8_encode s" by (simp add: utf8_encode_def)
  obtain b bs where b: "utf8_encode_char c = b # bs" by (cases "utf8_encode_char c") auto
  then have len: "char_bytes c = Suc (length bs)" by (simp add: char_bytes_def)
  show ?case
  proof (cases "char_bytes c \<le> m")
    case True
    then have "take m (utf8_encode (c # s)) = utf8_encode_char c @ take (m - char_bytes c) (utf8_encode s)"
      by (simp add: enc char_bytes_def)
    then have "take m (utf8_encode (c # s)) = b # bs @ take (m - char_bytes c) (utf8_encode s)" by (simp add: b)
    moreover have "utf8_next (b # bs @ take (m - char_bytes c) (utf8_encode s)) = Utf8Char c (Suc (length bs))"
      using utf8_next_encode [of c "take (m - char_bytes c) (utf8_encode s)"] Cons.prems b by simp
    ultimately show ?thesis
      using True Cons.IH [of "m - char_bytes c"] Cons.prems by (simp add: of_nat_diff)
  next
    case False
    then have "take m (utf8_encode (c # s)) = take m (utf8_encode_char c)"
      by (simp add: enc char_bytes_def)
    then have t: "take m (utf8_encode (c # s)) = take m (b # bs)" by (simp add: b)
    have "strict_prefix (take m (b # bs)) (b # bs)" using False len
      by (simp add: strict_prefix_def take_is_prefix)
    then have "utf8_next (take m (b # bs)) = Utf8Incomplete"
      using utf8_next_incomplete [of c] Cons.prems b by simp
    then show ?thesis using False t by (cases "take m (b # bs)") simp_all
  qed
qed (simp add: utf8_encode_def)

text \<open>
  Taking bytes at a character boundary gives the longest beginning of the text that fits: decoding
  the cut bytes leaves out exactly the character the cut runs through.
\<close>

theorem taken_bytes_are_the_longest_prefix:
  assumes "take_bytes_at_char_boundary s max_bytes = Inr p"
  shows "prefix p s \<and> int (byte_len p) \<le> max_bytes
    \<and> (p = s \<or> max_bytes < int (byte_len (take (Suc (length p)) s)))"
proof -
  from assms have m: "0 \<le> max_bytes" "list_all scalar_value s"
    "p = (if int (byte_len s) \<le> max_bytes then s else utf8_decode_ignore (take (nat max_bytes) (utf8_encode s)))"
    by (auto simp: take_bytes_at_char_boundary_def ensure_usize_def encode_len_def nat_le_iff split: if_splits)
  show ?thesis
  proof (cases "int (byte_len s) \<le> max_bytes")
    case False
    then have p: "p = take (fitting max_bytes s) s"
      using m decode_ignore_encode [OF m(2), of "nat max_bytes"] by simp
    have "length p = fitting max_bytes s" using p fitting_length [of max_bytes s] by simp
    moreover have "length p < length s \<or> p = s" using p by auto
    ultimately show ?thesis
      using fitting_bytes [OF m(1), of s] fitting_next [of max_bytes s] p by (auto simp: take_is_prefix)
  qed (use m in simp)
qed

lemma taken_bytes_are_the_longest_prefix_witness:
  "prefix [97, 8364] [97, 8364, 8364] \<and> byte_len [97, 8364] = 4 \<and> 6 < byte_len [97, 8364, 8364]"
proof -
  have "take_bytes_at_char_boundary [97, 8364, 8364] 6 = Inr [97, 8364]" by code_simp
  from taken_bytes_are_the_longest_prefix [OF this] show ?thesis
    by (simp add: char_bytes_def utf8_encode_char_def)
qed

text \<open>
  Truncating to a token budget reports the tokens of the whole text exactly when it changes the
  text, and leaves a text within the budget alone.
\<close>

theorem token_truncation_reports_changes:
  assumes "truncate_middle_with_token_budget s max_tokens = Inr (out, count)"
  shows "(count = None \<longleftrightarrow> out = s) \<and> (\<forall>n. count = Some n \<longrightarrow> approx_token_count s = Inr n)
    \<and> (0 < max_tokens \<and> int (byte_len s) \<le> 4 * max_tokens \<longrightarrow> out = s)"
proof (cases "s = []")
  case False
  from assms have m: "0 \<le> max_tokens" "list_all scalar_value s"
    using False
    by (auto simp: truncate_middle_with_token_budget_def ensure_usize_def encode_len_def approx_token_count_def
        bindE_eq_Inr split: if_splits)
  have "int (byte_len s) \<le> 4 * max_tokens \<longleftrightarrow> byte_len s \<le> nat max_tokens * APPROX_BYTES_PER_TOKEN"
    using m(1) by (simp add: APPROX_BYTES_PER_TOKEN_def) linarith
  then show ?thesis
    using assms False m
    by (auto simp: truncate_middle_with_token_budget_def ensure_usize_def encode_len_def approx_token_count_def
        result_iff split: if_splits)
qed (use assms in \<open>auto simp: truncate_middle_with_token_budget_def ensure_usize_def split: if_splits\<close>)

lemma token_truncation_reports_changes_witness:
  "approx_token_count (lit ''abcdefghi'') = Inr 3"
proof -
  have "truncate_middle_with_token_budget (lit ''abcdefghi'') 1
      = Inr (lit ''ab'' @ [8230] @ lit ''2 tokens truncated'' @ [8230] @ lit ''hi'', Some 3)"
    by code_simp
  from token_truncation_reports_changes [OF this] show ?thesis by blast
qed

end
