(* ===== verification/OutputTruncation.thy ===== *)
theory OutputTruncation
  imports Truncation
begin

text \<open>
  The outputs of tools and how they are truncated before they enter the conversation: the content types
  of \<open>pycodex/protocol/models.py\<close> and \<open>pycodex/utils/output_truncation\<close>. The runtime checks of the
  dataclasses are the types here: a content item has one of three shapes, a body one of two.
\<close>

section \<open>Outputs\<close>

datatype image_detail = AutoDetail | LowDetail | HighDetail | OriginalDetail

datatype output_item = OutText pystr | OutImage pystr "image_detail option" | OutEncrypted pystr

datatype output_body = TextBody pystr | ItemsBody "output_item list"

record output_payload =
  op_body :: output_body
  op_success :: "bool option"

definition payload_from_text :: "pystr \<Rightarrow> bool option \<Rightarrow> output_payload" where
  "payload_from_text content success = \<lparr>op_body = TextBody content, op_success = success\<rparr>"

definition payload_from_content_items :: "output_item list \<Rightarrow> bool option \<Rightarrow> output_payload" where
  "payload_from_content_items items success = \<lparr>op_body = ItemsBody items, op_success = success\<rparr>"

fun output_texts :: "output_item list \<Rightarrow> pystr list" where
  "output_texts [] = []"
| "output_texts (OutText t # items) = t # output_texts items"
| "output_texts (_ # items) = output_texts items"

definition function_call_output_content_items_to_text :: "output_item list \<Rightarrow> pystr option" where
  "function_call_output_content_items_to_text items =
     (let segments = filter (\<lambda>t. strip t \<noteq> []) (output_texts items)
      in if segments = [] then None else Some (join_with [10] segments))"

definition payload_to_text :: "output_payload \<Rightarrow> pystr option" where
  "payload_to_text p = (case op_body p of TextBody t \<Rightarrow> Some t
     | ItemsBody items \<Rightarrow> function_call_output_content_items_to_text items)"

section \<open>Truncating them\<close>

datatype truncation_mode = BytesMode | TokensMode

record truncation_policy =
  tp_mode :: truncation_mode
  tp_limit :: int

definition policy_byte_budget :: "truncation_policy \<Rightarrow> (trunc_exn, nat) result" where
  "policy_byte_budget policy = (case tp_mode policy of
     BytesMode \<Rightarrow> Inr (nat (max (tp_limit policy) 0))
   | TokensMode \<Rightarrow> approx_bytes_for_tokens (tp_limit policy))"

definition policy_budget_for_mode :: "truncation_policy \<Rightarrow> nat" where
  "policy_budget_for_mode policy = nat (max (tp_limit policy) 0)"

definition truncate_text :: "pystr \<Rightarrow> truncation_policy \<Rightarrow> (trunc_exn, pystr) result" where
  "truncate_text content policy = (case tp_mode policy of
     BytesMode \<Rightarrow> truncate_middle_chars content (tp_limit policy)
   | TokensMode \<Rightarrow> bindE (truncate_middle_with_token_budget content (tp_limit policy)) (\<lambda>(t, _). Inr t))"

definition formatted_truncate_text :: "pystr \<Rightarrow> truncation_policy \<Rightarrow> (trunc_exn, pystr) result" where
  "formatted_truncate_text content policy =
     bindE (encode_len content) (\<lambda>n. bindE (policy_byte_budget policy) (\<lambda>budget.
       if n \<le> budget then Inr content
       else bindE (truncate_text content policy) (\<lambda>truncated.
         let lines = length (splitlines content) in
         Inr (lit ''Total output lines: '' @ str_of_nat (if lines = 0 then 1 else lines) @ [10, 10] @ truncated))))"

definition text_cost :: "truncation_mode \<Rightarrow> pystr \<Rightarrow> (trunc_exn, nat) result" where
  "text_cost m t = (case m of BytesMode \<Rightarrow> encode_len t | TokensMode \<Rightarrow> approx_token_count t)"

text \<open>The loop over the items, with the budget that remains and the number of texts left out.\<close>

fun truncate_items_loop ::
    "truncation_mode \<Rightarrow> output_item list \<Rightarrow> nat \<Rightarrow> nat \<Rightarrow> output_item list \<Rightarrow> (trunc_exn, output_item list \<times> nat) result" where
  "truncate_items_loop m out remaining omitted [] = Inr (out, omitted)"
| "truncate_items_loop m out remaining omitted (OutText t # items) =
     (if remaining = 0 then truncate_items_loop m out 0 (omitted + 1) items
      else bindE (text_cost m t) (\<lambda>cost.
        if cost \<le> remaining then truncate_items_loop m (out @ [OutText t]) (remaining - cost) omitted items
        else bindE (truncate_text t \<lparr>tp_mode = m, tp_limit = int remaining\<rparr>) (\<lambda>snippet.
          if snippet \<noteq> [] then truncate_items_loop m (out @ [OutText snippet]) 0 omitted items
          else truncate_items_loop m out 0 (omitted + 1) items)))"
| "truncate_items_loop m out remaining omitted (OutImage u d # items) =
     truncate_items_loop m (out @ [OutImage u d]) remaining omitted items"
| "truncate_items_loop m out remaining omitted (OutEncrypted e # items) =
     truncate_items_loop m (out @ [OutEncrypted e]) remaining omitted items"

definition omitted_line :: "nat \<Rightarrow> output_item list" where
  "omitted_line n = (if n > 0 then [OutText (lit ''[omitted '' @ str_of_nat n @ lit '' text items ...]'')] else [])"

definition truncate_function_output_items_with_policy ::
    "output_item list \<Rightarrow> truncation_policy \<Rightarrow> (trunc_exn, output_item list) result" where
  "truncate_function_output_items_with_policy items policy =
     bindE (truncate_items_loop (tp_mode policy) [] (policy_budget_for_mode policy) 0 items) (\<lambda>(out, omitted).
       Inr (out @ omitted_line omitted))"

definition truncate_function_output_payload :: "output_payload \<Rightarrow> truncation_policy \<Rightarrow> (trunc_exn, output_payload) result" where
  "truncate_function_output_payload p policy =
     (case op_body p of
        ItemsBody items \<Rightarrow> bindE (truncate_function_output_items_with_policy items policy) (\<lambda>out.
          Inr (payload_from_content_items out (op_success p)))
      | TextBody t \<Rightarrow> bindE (truncate_text t policy) (\<lambda>out. Inr (payload_from_text out (op_success p))))"

fun is_text :: "output_item \<Rightarrow> bool" where
  "is_text (OutText t) = True"
| "is_text _ = False"

definition formatted_truncate_text_content_items_with_policy ::
    "output_item list \<Rightarrow> truncation_policy \<Rightarrow> (trunc_exn, output_item list \<times> nat option) result" where
  "formatted_truncate_text_content_items_with_policy items policy =
     (let segments = output_texts items; combined = join_with [10] segments in
      if segments = [] then Inr (items, None)
      else bindE (encode_len combined) (\<lambda>n. bindE (policy_byte_budget policy) (\<lambda>budget.
        if n \<le> budget then Inr (items, None)
        else bindE (formatted_truncate_text combined policy) (\<lambda>text.
          bindE (approx_token_count combined) (\<lambda>count.
            Inr (OutText text # filter (\<lambda>i. \<not> is_text i) items, Some count))))))"

definition approx_tokens_from_byte_count_i64 :: "int \<Rightarrow> nat" where
  "approx_tokens_from_byte_count_i64 n = (if n \<le> 0 then 0 else approx_tokens_from_byte_count (nat n))"

section \<open>Facts\<close>

lemma truncate_text_nonempty:
  assumes "truncate_text t policy = Inr out" "t \<noteq> []"
  shows "out \<noteq> []"
proof -
  have "truncate_with_byte_estimate t n use_tokens = Inr out \<Longrightarrow> out \<noteq> []" for n use_tokens
    using assms(2)
    by (auto simp: truncate_with_byte_estimate_def result_iff format_truncation_marker_def split_budget_def
        case_prod_beta split: if_splits)
  then show ?thesis
    using assms
    by (auto simp: truncate_text_def truncate_middle_chars_def truncate_middle_with_token_budget_def result_iff
        split: truncation_mode.splits if_splits)
qed

definition unit_cost :: "truncation_mode \<Rightarrow> pystr \<Rightarrow> nat" where
  "unit_cost m t = (case m of BytesMode \<Rightarrow> byte_len t | TokensMode \<Rightarrow> approx_tokens_from_byte_count (byte_len t))"

lemma text_cost_Inr: "text_cost m t = Inr n \<Longrightarrow> n = unit_cost m t"
  by (cases m) (auto simp: text_cost_def unit_cost_def approx_token_count_def encode_len_def split: if_splits)

lemma unit_cost_nonempty: "0 < unit_cost m t \<Longrightarrow> t \<noteq> []"
  by (cases m) (auto simp: unit_cost_def approx_tokens_from_byte_count_def APPROX_BYTES_PER_TOKEN_def)

lemma output_texts_append [simp]: "output_texts (xs @ ys) = output_texts xs @ output_texts ys"
  by (induction xs rule: output_texts.induct) auto

lemma loop_spent:
  "truncate_items_loop m out 0 omitted items =
     Inr (out @ filter (\<lambda>i. \<not> is_text i) items, omitted + length (output_texts items))"
  by (induction items arbitrary: out omitted rule: output_texts.induct) auto

text \<open>
  How a list of texts is cut to a budget: the first texts whole, then at most one shortened to what is
  left of the budget, then a number of texts left out.
\<close>

definition texts_cut :: "truncation_mode \<Rightarrow> nat \<Rightarrow> pystr list \<Rightarrow> pystr list \<Rightarrow> pystr list \<Rightarrow> nat \<Rightarrow> bool" where
  "texts_cut m budget texts whole short omitted \<longleftrightarrow>
     whole = take (length whole) texts \<and> length whole + length short + omitted = length texts
     \<and> sum_list (map (unit_cost m) whole) \<le> budget \<and> length short \<le> 1
     \<and> (short = [] \<longrightarrow> omitted = 0 \<or> sum_list (map (unit_cost m) whole) = budget)
     \<and> (\<forall>x. short = [x] \<longrightarrow> length whole < length texts
          \<and> budget < sum_list (map (unit_cost m) whole) + unit_cost m (texts ! length whole)
          \<and> truncate_text (texts ! length whole)
              \<lparr>tp_mode = m, tp_limit = int (budget - sum_list (map (unit_cost m) whole))\<rparr> = Inr x)"

lemma texts_cut_Cons:
  "texts_cut m (budget - unit_cost m t) texts whole short omitted \<Longrightarrow> unit_cost m t \<le> budget \<Longrightarrow>
     texts_cut m budget (t # texts) (t # whole) short omitted"
  unfolding texts_cut_def by auto

lemma loop_cuts:
  "truncate_items_loop m out budget omitted items = Inr (res, omitted') \<Longrightarrow>
     \<exists>added whole short n. res = out @ added \<and> omitted' = omitted + n
       \<and> filter (\<lambda>i. \<not> is_text i) added = filter (\<lambda>i. \<not> is_text i) items
       \<and> output_texts added = whole @ short \<and> texts_cut m budget (output_texts items) whole short n"
proof (induction m out budget omitted items rule: truncate_items_loop.induct)
  case (1 m out remaining omitted)
  then show ?case by (intro exI [of _ "[]"] exI [of _ "0 :: nat"]) (simp add: texts_cut_def)
next
  case (2 m out remaining omitted t items)
  let ?nt = "filter (\<lambda>i. \<not> is_text i)"
  have none: "output_texts (?nt xs) = []" for xs by (induction xs rule: output_texts.induct) auto
  show ?case
  proof (cases "remaining = 0")
    case True
    with "2.prems" loop_spent show ?thesis
      by (intro exI [of _ "?nt items"] exI [of _ "[]"] exI [of _ "Suc (length (output_texts items))"])
        (auto simp: none texts_cut_def)
  next
    case False
    with "2.prems" obtain cost where cost: "text_cost m t = Inr cost" by (auto simp: result_iff)
    note c = text_cost_Inr [OF this]
    show ?thesis
    proof (cases "cost \<le> remaining")
      case True
      with "2.IH"(2) [OF False cost True] "2.prems" False cost obtain added whole short n where
        r: "res = (out @ [OutText t]) @ added" "omitted' = omitted + n" "?nt added = ?nt items"
        "output_texts added = whole @ short" "texts_cut m (remaining - cost) (output_texts items) whole short n"
        by auto
      with texts_cut_Cons [of m remaining t] c True show ?thesis
        by (intro exI [of _ "OutText t # added"] exI [of _ "t # whole"] exI [of _ short] exI [of _ n]) auto
    next
      case long: False
      then have "t \<noteq> []" using unit_cost_nonempty [of m t] c by simp
      with long "2.prems" False cost obtain snippet where s: "snippet \<noteq> []"
        "truncate_text t \<lparr>tp_mode = m, tp_limit = int remaining\<rparr> = Inr snippet"
        "truncate_items_loop m (out @ [OutText snippet]) 0 omitted items = Inr (res, omitted')"
        using truncate_text_nonempty by (fastforce simp: result_iff)
      with loop_spent long c show ?thesis
        by (intro exI [of _ "OutText snippet # ?nt items"] exI [of _ "[]"] exI [of _ "[snippet]"]
            exI [of _ "length (output_texts items)"]) (auto simp: none texts_cut_def)
    qed
  qed
next
  case (3 m out remaining omitted u d items)
  then obtain added whole short n where "res = (out @ [OutImage u d]) @ added" "omitted' = omitted + n"
    "filter (\<lambda>i. \<not> is_text i) added = filter (\<lambda>i. \<not> is_text i) items"
    "output_texts added = whole @ short" "texts_cut m remaining (output_texts items) whole short n" by auto
  then show ?case by (intro exI [of _ "OutImage u d # added"] exI [of _ whole] exI [of _ short] exI [of _ n]) simp
next
  case (4 m out remaining omitted e items)
  then obtain added whole short n where "res = (out @ [OutEncrypted e]) @ added" "omitted' = omitted + n"
    "filter (\<lambda>i. \<not> is_text i) added = filter (\<lambda>i. \<not> is_text i) items"
    "output_texts added = whole @ short" "texts_cut m remaining (output_texts items) whole short n" by auto
  then show ?case by (intro exI [of _ "OutEncrypted e # added"] exI [of _ whole] exI [of _ short] exI [of _ n]) simp
qed

lemma text_cost_total: "list_all scalar_value t \<Longrightarrow> \<exists>n. text_cost m t = Inr n"
  by (cases m) (auto simp: text_cost_def approx_token_count_def encode_len_def)

lemma truncate_text_total:
  assumes "list_all scalar_value t" "0 \<le> tp_limit policy"
  shows "\<exists>out. truncate_text t policy = Inr out"
proof -
  have total: "\<exists>out. truncate_with_byte_estimate t n use_tokens = Inr out" for n use_tokens
    using truncate_with_byte_estimate_fails [of t n use_tokens] assms(1)
    by (cases "truncate_with_byte_estimate t n use_tokens") auto
  then obtain out where "truncate_with_byte_estimate t (nat (tp_limit policy) * APPROX_BYTES_PER_TOKEN) True = Inr out"
    by blast
  then have "\<exists>r. truncate_middle_with_token_budget t (tp_limit policy) = Inr r"
    using assms by (cases "tp_limit policy = 0")
      (auto simp: truncate_middle_with_token_budget_def ensure_usize_def encode_len_def approx_token_count_def)
  with total assms show ?thesis
    by (auto simp: truncate_text_def truncate_middle_chars_def ensure_usize_def split: truncation_mode.splits)
qed

lemma loop_total:
  "list_all (list_all scalar_value) (output_texts items) \<Longrightarrow>
     \<exists>r. truncate_items_loop m out budget omitted items = Inr r"
proof (induction items arbitrary: out budget omitted)
  case (Cons i items)
  show ?case
  proof (cases i)
    case (OutText t)
    then have t: "list_all scalar_value t" "list_all (list_all scalar_value) (output_texts items)"
      using Cons.prems by auto
    obtain cost where "text_cost m t = Inr cost" using text_cost_total t by blast
    moreover obtain snippet where "truncate_text t \<lparr>tp_mode = m, tp_limit = int budget\<rparr> = Inr snippet"
      using truncate_text_total [OF t(1), of "\<lparr>tp_mode = m, tp_limit = int budget\<rparr>"] by auto
    ultimately show ?thesis using Cons.IH [OF t(2)] OutText by simp
  qed (use Cons in auto)
qed simp

section \<open>Properties\<close>

text \<open>
  C29: Truncating the items of an output keeps every image and every encrypted item, in order; of the
  texts it keeps the first ones whole as long as their cost fits the limit, shortens at most one more to
  exactly what is left of it, and replaces the rest by one line that counts them.
\<close>

theorem truncated_items_fit_the_limit:
  assumes "truncate_function_output_items_with_policy items policy = Inr out"
  shows "filter (\<lambda>i. \<not> is_text i) out = filter (\<lambda>i. \<not> is_text i) items
    \<and> (\<exists>whole short n. output_texts out = whole @ short @ output_texts (omitted_line n)
        \<and> texts_cut (tp_mode policy) (nat (tp_limit policy)) (output_texts items) whole short n)"
proof -
  from assms obtain res omitted where
    r: "truncate_items_loop (tp_mode policy) [] (nat (tp_limit policy)) 0 items = Inr (res, omitted)"
    "out = res @ omitted_line omitted"
    by (auto simp: truncate_function_output_items_with_policy_def policy_budget_for_mode_def result_iff max_def
        split: if_splits)
  have "filter (\<lambda>i. \<not> is_text i) (omitted_line omitted) = []" by (simp add: omitted_line_def)
  moreover from loop_cuts [OF r(1)] obtain added whole short n where a: "res = added" "omitted = n"
    "filter (\<lambda>i. \<not> is_text i) added = filter (\<lambda>i. \<not> is_text i) items" "output_texts added = whole @ short"
    "texts_cut (tp_mode policy) (nat (tp_limit policy)) (output_texts items) whole short n" by auto
  ultimately show ?thesis
    using r(2) by (intro conjI exI [of _ whole] exI [of _ short] exI [of _ n]) simp_all
qed

lemma truncated_items_fit_the_limit_witness:
  "\<exists>whole short n. output_texts [OutText (lit ''ab''), OutImage (lit ''u'') None, OutText ([8230] @ lit ''4 chars truncated'' @ [8230] @ lit ''f''),
       OutText (lit ''[omitted 1 text items ...]'')] = whole @ short @ output_texts (omitted_line n)
    \<and> texts_cut BytesMode 3 [lit ''ab'', lit ''bcdef'', lit ''x''] whole short n"
proof -
  have "truncate_function_output_items_with_policy
      [OutText (lit ''ab''), OutImage (lit ''u'') None, OutText (lit ''bcdef''), OutText (lit ''x'')]
      \<lparr>tp_mode = BytesMode, tp_limit = 3\<rparr>
    = Inr [OutText (lit ''ab''), OutImage (lit ''u'') None, OutText ([8230] @ lit ''4 chars truncated'' @ [8230] @ lit ''f''),
       OutText (lit ''[omitted 1 text items ...]'')]"
    by code_simp
  from truncated_items_fit_the_limit [OF this] show ?thesis by (simp del: lit.simps)
qed

text \<open>
  Truncating an output always returns: whatever the mode and the limit are, negative limits included,
  a structured output of texts without lone surrogates is truncated, and so is a plain text unless the
  limit is negative.
\<close>

theorem output_truncation_returns:
  assumes "case op_body p of TextBody t \<Rightarrow> list_all scalar_value t \<and> 0 \<le> tp_limit policy
    | ItemsBody items \<Rightarrow> list_all (list_all scalar_value) (output_texts items)"
  shows "\<exists>p'. truncate_function_output_payload p policy = Inr p' \<and> op_success p' = op_success p"
proof (cases "op_body p")
  case (TextBody t)
  with assms truncate_text_total [of t policy] show ?thesis
    by (auto simp: truncate_function_output_payload_def payload_from_text_def)
next
  case (ItemsBody items)
  with assms loop_total [of items "tp_mode policy" "[]" "policy_budget_for_mode policy" 0] show ?thesis
    by (auto simp: truncate_function_output_payload_def truncate_function_output_items_with_policy_def
        payload_from_content_items_def)
qed

lemma output_truncation_returns_witness:
  "\<exists>p'. truncate_function_output_payload (payload_from_content_items [OutText (lit ''ab'')] None)
     \<lparr>tp_mode = TokensMode, tp_limit = -1\<rparr> = Inr p' \<and> op_success p' = None"
proof -
  have "list_all (list_all scalar_value) (output_texts [OutText (lit ''ab'')])" by code_simp
  then show ?thesis
    using output_truncation_returns [where p = "payload_from_content_items [OutText (lit ''ab'')] None"
        and policy = "\<lparr>tp_mode = TokensMode, tp_limit = -1\<rparr>"]
    by (simp add: payload_from_content_items_def del: lit.simps)
qed

end
