(* ===== verification/ContextFragments.thy ===== *)
theory ContextFragments
  imports AgentPath OutputTruncation
begin

text \<open>
  \<open>pycodex/core/context\<close>: the fragments of context the agent puts into the conversation in the user's or the
  developer's name, each rendered between the markers of its class, and how a message made of such fragments is
  told from what the user typed. The length of a shell command (\<open>{:.4f}\<close> of a float), \<open>json.dumps\<close>,
  \<open>json.loads\<close>, \<open>str.lower\<close>, the XML parser and the base64 decoder are parameters.
\<close>

section \<open>Content items and the environment\<close>

datatype content_item = InputText pystr | InputImage pystr "image_detail option" | OutputText pystr

record xml_element =
  xe_tag :: pystr
  xe_attrib :: "(pystr \<times> pystr) list"
  xe_text :: "pystr option"

record context_env =
  ce_lower :: "pystr \<Rightarrow> pystr"
  ce_parse_xml :: "pystr \<Rightarrow> xml_element option"
  ce_dumps :: "json \<Rightarrow> pystr"
  ce_loads :: "pystr \<Rightarrow> json option"
  ce_b64decode :: "pystr \<Rightarrow> int list option"

text \<open>The slice \<open>s[i:]\<close>: a negative index counts from the end.\<close>

definition slice_from :: "int \<Rightarrow> 'a list \<Rightarrow> 'a list" where
  "slice_from i xs = drop (nat (if i < 0 then int (length xs) + i else i)) xs"

definition matches_marked_text :: "context_env \<Rightarrow> pystr \<Rightarrow> pystr \<Rightarrow> pystr \<Rightarrow> bool" where
  "matches_marked_text env start_marker end_marker s \<longleftrightarrow>
     start_marker \<noteq> [] \<and> end_marker \<noteq> [] \<and>
     (let leading_trimmed = lstrip s; trailing_trimmed = rstrip leading_trimmed in
      ce_lower env (take (length start_marker) leading_trimmed) = ce_lower env start_marker
      \<and> ce_lower env (slice_from (int (length trailing_trimmed) - int (length end_marker)) trailing_trimmed)
          = ce_lower env end_marker)"

section \<open>The environment context\<close>

record context_environment =
  en_id :: pystr
  en_cwd :: pystr
  en_shell :: pystr

datatype context_environments =
    NoEnvironment
  | SingleEnvironment context_environment
  | MultipleEnvironments "context_environment list"

fun environments_from_iterable :: "context_environment list \<Rightarrow> context_environments" where
  "environments_from_iterable [] = NoEnvironment"
| "environments_from_iterable [e] = SingleEnvironment e"
| "environments_from_iterable es = MultipleEnvironments es"

fun environments_equal_except_shell :: "context_environments \<Rightarrow> context_environments \<Rightarrow> bool" where
  "environments_equal_except_shell NoEnvironment NoEnvironment \<longleftrightarrow> True"
| "environments_equal_except_shell (SingleEnvironment e) (SingleEnvironment e') \<longleftrightarrow> en_cwd e = en_cwd e'"
| "environments_equal_except_shell (MultipleEnvironments es) (MultipleEnvironments es') \<longleftrightarrow>
     length es = length es' \<and> list_all (\<lambda>(l, r). en_id l = en_id r \<and> en_cwd l = en_cwd r) (zip es es')"
| "environments_equal_except_shell _ _ \<longleftrightarrow> False"

record network_context =
  nc_allowed :: "pystr list"
  nc_denied :: "pystr list"

definition render_domain_element :: "string \<Rightarrow> pystr list \<Rightarrow> pystr" where
  "render_domain_element name domains =
     (if domains = [] then []
      else lit ''<'' @ lit name @ lit ''>'' @ join_with (lit '','') domains @ lit ''</'' @ lit name @ lit ''>'')"

definition render_network :: "network_context \<Rightarrow> pystr" where
  "render_network n = lit ''<network enabled='' @ [34] @ lit ''true'' @ [34] @ lit ''>''
     @ render_domain_element ''allowed'' (nc_allowed n) @ render_domain_element ''denied'' (nc_denied n) @ lit ''</network>''"

record environment_context =
  ec_environments :: context_environments
  ec_current_date :: "pystr option"
  ec_timezone :: "pystr option"
  ec_network :: "network_context option"
  ec_subagents :: "pystr option"

definition environment_context_new ::
    "context_environment list \<Rightarrow> pystr option \<Rightarrow> pystr option \<Rightarrow> network_context option \<Rightarrow> pystr option \<Rightarrow> environment_context" where
  "environment_context_new es date timezone network subagents =
     \<lparr>ec_environments = environments_from_iterable es, ec_current_date = date, ec_timezone = timezone,
      ec_network = network, ec_subagents = (if subagents = Some [] then None else subagents)\<rparr>"

text \<open>The part of a turn's recorded context the fragment is made from.\<close>

record turn_context_item =
  tc_cwd :: pystr
  tc_current_date :: "pystr option"
  tc_timezone :: "pystr option"
  tc_network :: "network_context option"

definition legacy_environment :: "pystr \<Rightarrow> pystr \<Rightarrow> context_environment" where
  "legacy_environment cwd shell = \<lparr>en_id = [], en_cwd = cwd, en_shell = shell\<rparr>"

definition environment_context_from_turn :: "turn_context_item \<Rightarrow> pystr \<Rightarrow> environment_context" where
  "environment_context_from_turn t shell =
     environment_context_new [legacy_environment (tc_cwd t) shell] (tc_current_date t) (tc_timezone t) (tc_network t) None"

definition environment_context_diff :: "turn_context_item \<Rightarrow> environment_context \<Rightarrow> environment_context" where
  "environment_context_diff before after =
     \<lparr>ec_environments = (case ec_environments after of
          SingleEnvironment e \<Rightarrow>
            (if tc_cwd before \<noteq> en_cwd e
             then environments_from_iterable [legacy_environment (en_cwd e) (en_shell e)] else NoEnvironment)
        | MultipleEnvironments es \<Rightarrow> MultipleEnvironments es
        | NoEnvironment \<Rightarrow> NoEnvironment),
      ec_current_date = ec_current_date after, ec_timezone = ec_timezone after,
      ec_network = (if tc_network before \<noteq> ec_network after then ec_network after else tc_network before),
      ec_subagents = None\<rparr>"

definition environment_equals_except_shell :: "environment_context \<Rightarrow> environment_context \<Rightarrow> bool" where
  "environment_equals_except_shell a b \<longleftrightarrow>
     environments_equal_except_shell (ec_environments a) (ec_environments b)
     \<and> ec_current_date a = ec_current_date b \<and> ec_timezone a = ec_timezone b
     \<and> ec_network a = ec_network b \<and> ec_subagents a = ec_subagents b"

definition environment_with_subagents :: "environment_context \<Rightarrow> pystr \<Rightarrow> environment_context" where
  "environment_with_subagents c subagents =
     (if subagents \<noteq> [] then c\<lparr>ec_subagents := Some subagents\<rparr> else c)"

definition element_line :: "string \<Rightarrow> string \<Rightarrow> pystr \<Rightarrow> pystr" where
  "element_line indent name s = lit indent @ lit ''<'' @ lit name @ lit ''>'' @ s @ lit ''</'' @ lit name @ lit ''>''"

definition environment_lines :: "context_environment \<Rightarrow> pystr list" where
  "environment_lines e =
     [lit ''    <environment id='' @ [34] @ en_id e @ [34] @ lit ''>'',
      element_line ''      '' ''cwd'' (en_cwd e), element_line ''      '' ''shell'' (en_shell e),
      lit ''    </environment>'']"

definition environment_context_body :: "environment_context \<Rightarrow> pystr" where
  "environment_context_body c =
     [10] @ join_with [10]
      ((case ec_environments c of
          NoEnvironment \<Rightarrow> []
        | SingleEnvironment e \<Rightarrow> [element_line ''  '' ''cwd'' (en_cwd e), element_line ''  '' ''shell'' (en_shell e)]
        | MultipleEnvironments es \<Rightarrow>
            [lit ''  <environments>''] @ concat (map environment_lines es) @ [lit ''  </environments>''])
       @ (case ec_current_date c of None \<Rightarrow> [] | Some d \<Rightarrow> [element_line ''  '' ''current_date'' d])
       @ (case ec_timezone c of None \<Rightarrow> [] | Some z \<Rightarrow> [element_line ''  '' ''timezone'' z])
       @ (case ec_network c of None \<Rightarrow> [] | Some n \<Rightarrow> [lit ''  '' @ render_network n])
       @ (case ec_subagents c of None \<Rightarrow> []
          | Some s \<Rightarrow> [lit ''  <subagents>''] @ map (\<lambda>l. lit ''    '' @ l) (splitlines s) @ [lit ''  </subagents>'']))
     @ [10]"

section \<open>Fragments\<close>

datatype fragment =
    UserInstructions pystr pystr
  | EnvironmentContext environment_context
  | AdditionalContextUser pystr pystr
  | AdditionalContextDeveloper pystr pystr
  | SkillInstructions pystr pystr pystr
  | UserShellCommand pystr int pystr pystr
  | TurnAborted pystr
  | SubagentNotification pystr json
  | GoalContext pystr
  | ModelSwitchInstructions pystr
  | CollaborationModeInstructions pystr
  | PersonalitySpecInstructions pystr
  | RealtimeStartInstructions
  | RealtimeStartWithInstructions pystr
  | RealtimeEndInstructions pystr
  | ApprovedCommandPrefixSaved pystr
  | NetworkRuleSaved bool pystr
  | PluginInstructions pystr
  | HookAdditionalContext pystr
  | ImageGenerationInstructions pystr pystr
  | GuardianFollowupReviewReminder

datatype fragment_type =
    UserInstructionsType | EnvironmentContextType | AdditionalContextUserType | SkillInstructionsType
  | UserShellCommandType | TurnAbortedType | SubagentNotificationType | GoalContextType
  | LegacyUnifiedExecProcessLimitWarningType | LegacyApplyPatchExecCommandWarningType | LegacyModelMismatchWarningType

definition REALTIME_START_INSTRUCTIONS :: pystr where
  "REALTIME_START_INSTRUCTIONS =
     join_with [10, 10]
     [lit ''Realtime conversation started.'',
      lit ''You are operating as a backend executor behind an intermediary. The user does not talk to you '' @
        lit ''directly. Any response you produce will be consumed by the intermediary and may be summarized '' @
        lit ''before the user sees it.'',
      lit ''When invoked, you receive the latest conversation transcript and any relevant mode or metadata.'' @
        lit '' The intermediary may invoke you even when backend help is not actually needed. Use the '' @
        lit ''transcript to decide whether you should do work. If backend help is unnecessary, avoid verbose '' @
        lit ''responses that add user-visible latency.'',
      lit ''When user text is routed from realtime, treat it as a transcript. It may be unpunctuated or '' @
        lit ''contain recognition errors.'',
      lit ''- Keep responses concise and action-oriented. Your updates should help the intermediary respond'' @
        lit '' to the user.'']"

definition REALTIME_END_INSTRUCTIONS :: pystr where
  "REALTIME_END_INSTRUCTIONS =
     join_with [10, 10]
     [lit ''Realtime conversation ended.'',
      lit ''Subsequent user input will return to typed text rather than transcript-style text. Do not '' @
        lit ''assume recognition errors or missing punctuation once realtime has ended. Resume normal chat '' @
        lit ''behavior.'']"

fun fragment_role :: "fragment \<Rightarrow> pystr" where
  "fragment_role (UserInstructions _ _) = lit ''user''"
| "fragment_role (EnvironmentContext _) = lit ''user''"
| "fragment_role (AdditionalContextUser _ _) = lit ''user''"
| "fragment_role (SkillInstructions _ _ _) = lit ''user''"
| "fragment_role (UserShellCommand _ _ _ _) = lit ''user''"
| "fragment_role (TurnAborted _) = lit ''user''"
| "fragment_role (SubagentNotification _ _) = lit ''user''"
| "fragment_role (GoalContext _) = lit ''user''"
| "fragment_role _ = lit ''developer''"

fun fragment_type_of :: "fragment \<Rightarrow> fragment_type option" where
  "fragment_type_of (UserInstructions _ _) = Some UserInstructionsType"
| "fragment_type_of (EnvironmentContext _) = Some EnvironmentContextType"
| "fragment_type_of (AdditionalContextUser _ _) = Some AdditionalContextUserType"
| "fragment_type_of (SkillInstructions _ _ _) = Some SkillInstructionsType"
| "fragment_type_of (UserShellCommand _ _ _ _) = Some UserShellCommandType"
| "fragment_type_of (TurnAborted _) = Some TurnAbortedType"
| "fragment_type_of (SubagentNotification _ _) = Some SubagentNotificationType"
| "fragment_type_of (GoalContext _) = Some GoalContextType"
| "fragment_type_of _ = None"

fun type_markers :: "fragment_type \<Rightarrow> pystr \<times> pystr" where
  "type_markers UserInstructionsType = (lit ''# AGENTS.md instructions for '', lit ''</INSTRUCTIONS>'')"
| "type_markers EnvironmentContextType = (lit ''<environment_context>'', lit ''</environment_context>'')"
| "type_markers AdditionalContextUserType = (lit ''<external_'', lit ''>'')"
| "type_markers SkillInstructionsType = (lit ''<skill>'', lit ''</skill>'')"
| "type_markers UserShellCommandType = (lit ''<user_shell_command>'', lit ''</user_shell_command>'')"
| "type_markers TurnAbortedType = (lit ''<turn_aborted>'', lit ''</turn_aborted>'')"
| "type_markers SubagentNotificationType = (lit ''<subagent_notification>'', lit ''</subagent_notification>'')"
| "type_markers GoalContextType = (lit ''<goal_context>'', lit ''</goal_context>'')"
| "type_markers _ = ([], [])"

fun developer_markers :: "fragment \<Rightarrow> pystr \<times> pystr" where
  "developer_markers (ModelSwitchInstructions _) = (lit ''<model_switch>'', lit ''</model_switch>'')"
| "developer_markers (CollaborationModeInstructions _) = (lit ''<collaboration_mode>'', lit ''</collaboration_mode>'')"
| "developer_markers (PersonalitySpecInstructions _) = (lit ''<personality_spec>'', lit ''</personality_spec>'')"
| "developer_markers RealtimeStartInstructions = (lit ''<realtime_conversation>'', lit ''</realtime_conversation>'')"
| "developer_markers (RealtimeStartWithInstructions _) = (lit ''<realtime_conversation>'', lit ''</realtime_conversation>'')"
| "developer_markers (RealtimeEndInstructions _) = (lit ''<realtime_conversation>'', lit ''</realtime_conversation>'')"
| "developer_markers _ = ([], [])"

definition fragment_markers :: "fragment \<Rightarrow> pystr \<times> pystr" where
  "fragment_markers f = (case fragment_type_of f of Some t \<Rightarrow> type_markers t | None \<Rightarrow> developer_markers f)"

definition additional_context_value :: "pystr \<Rightarrow> (trunc_exn, pystr) result" where
  "additional_context_value s = bindE (truncate_middle_with_token_budget s 1000) (\<lambda>(t, _). Inr t)"

text \<open>The body of each class.\<close>

definition user_instructions_body :: "pystr \<Rightarrow> pystr \<Rightarrow> pystr" where
  "user_instructions_body directory s = 
     directory @ [10, 10] @ lit ''<INSTRUCTIONS>'' @ [10] @ s @ [10]"

definition additional_context_user_body :: "pystr \<Rightarrow> pystr \<Rightarrow> (trunc_exn, pystr) result" where
  "additional_context_user_body key s = 
     bindE (additional_context_value s) (\<lambda>v. Inr (key @ lit ''>'' @ v @ lit ''</external_'' @ key))"

definition additional_context_developer_body :: "pystr \<Rightarrow> pystr \<Rightarrow> (trunc_exn, pystr) result" where
  "additional_context_developer_body key s = 
     bindE (additional_context_value s) (\<lambda>v. Inr (lit ''<'' @ key @ lit ''>'' @ v @ lit ''</'' @ key @ lit ''>''))"

definition skill_instructions_body :: "pystr \<Rightarrow> pystr \<Rightarrow> pystr \<Rightarrow> pystr" where
  "skill_instructions_body name path contents = 
     [10] @ lit ''<name>'' @ name @ lit ''</name>'' @ [10] @ lit ''<path>'' @ path @ lit ''</path>'' @ [10] @ contents @ [10]"

definition user_shell_command_body :: "pystr \<Rightarrow> int \<Rightarrow> pystr \<Rightarrow> pystr \<Rightarrow> pystr" where
  "user_shell_command_body command exit_code seconds output = 
     [10] @ lit ''<command>'' @ [10] @ command @ [10] @ lit ''</command>'' @ [10] @ lit ''<result>'' @ [10]
     @ lit ''Exit code: '' @ str_of_int exit_code @ [10] @ lit ''Duration: '' @ seconds @ lit '' seconds'' @ [10]
     @ lit ''Output:'' @ [10] @ output @ [10] @ lit ''</result>'' @ [10]"

definition turn_aborted_body :: "pystr \<Rightarrow> pystr" where
  "turn_aborted_body guidance = [10] @ guidance @ [10]"

definition subagent_notification_body :: "context_env \<Rightarrow> pystr \<Rightarrow> json \<Rightarrow> pystr" where
  "subagent_notification_body env reference status = 
     [10] @ ce_dumps env (jobj [(''agent_path'', JStr reference), (''status'', status)]) @ [10]"

definition goal_context_body :: "pystr \<Rightarrow> pystr" where
  "goal_context_body prompt = [10] @ prompt @ [10]"

definition model_switch_body :: "pystr \<Rightarrow> pystr" where
  "model_switch_body s = 
     [10] @ lit ''The user was previously using a different model. Please continue the conversation ''
     @ lit ''according to the following instructions:'' @ [10, 10] @ s @ [10]"

definition personality_spec_body :: "pystr \<Rightarrow> pystr" where
  "personality_spec_body spec = 
     lit '' The user has requested a new communication style. Future messages should adhere to the ''
     @ lit ''following personality: '' @ [10] @ spec @ lit '' ''"

definition realtime_start_body :: pystr where
  "realtime_start_body = [10] @ strip REALTIME_START_INSTRUCTIONS @ [10]"

definition realtime_start_with_body :: "pystr \<Rightarrow> pystr" where
  "realtime_start_with_body s = [10] @ s @ [10]"

definition realtime_end_body :: "pystr \<Rightarrow> pystr" where
  "realtime_end_body reason = 
     [10] @ strip REALTIME_END_INSTRUCTIONS @ [10, 10] @ lit ''Reason: '' @ reason @ [10]"

definition approved_prefix_saved_body :: "pystr \<Rightarrow> pystr" where
  "approved_prefix_saved_body saved = lit ''Approved command prefix saved:'' @ [10] @ saved"

definition network_rule_saved_body :: "bool \<Rightarrow> pystr \<Rightarrow> pystr" where
  "network_rule_saved_body allow host = 
     (if allow then lit ''Allowed'' else lit ''Denied'') @ lit '' network rule saved in execpolicy (''
     @ (if allow then lit ''allowlist'' else lit ''denylist'') @ lit ''): '' @ host"

definition image_generation_body :: "pystr \<Rightarrow> pystr \<Rightarrow> pystr" where
  "image_generation_body dir path = 
     lit ''Generated images are saved to '' @ dir @ lit '' as '' @ path @ lit '' by default.'' @ [10]
     @ lit ''If you need to use a generated image at another path, copy it and leave the original in place ''
     @ lit ''unless the user explicitly asks you to delete it.''"

definition guardian_reminder_body :: pystr where
  "guardian_reminder_body =
     lit ''Use prior reviews as context, not binding precedent. '' @ lit ''Follow the Workspace Policy. ''
     @ lit ''If the user explicitly approves a previously rejected action after being informed of the ''
     @ lit ''concrete risks, set outcome to '' @ [34] @ lit ''allow'' @ [34] @ lit '' unless the policy explicitly disallows user ''
     @ lit ''overwrites in such cases.''"

fun fragment_body :: "context_env \<Rightarrow> fragment \<Rightarrow> (trunc_exn, pystr) result" where
  "fragment_body env (UserInstructions directory s) = Inr (user_instructions_body directory s)"
| "fragment_body env (EnvironmentContext c) = Inr (environment_context_body c)"
| "fragment_body env (AdditionalContextUser key s) = additional_context_user_body key s"
| "fragment_body env (AdditionalContextDeveloper key s) = additional_context_developer_body key s"
| "fragment_body env (SkillInstructions name path contents) = Inr (skill_instructions_body name path contents)"
| "fragment_body env (UserShellCommand command exit_code seconds output) =
     Inr (user_shell_command_body command exit_code seconds output)"
| "fragment_body env (TurnAborted guidance) = Inr (turn_aborted_body guidance)"
| "fragment_body env (SubagentNotification reference status) = Inr (subagent_notification_body env reference status)"
| "fragment_body env (GoalContext prompt) = Inr (goal_context_body prompt)"
| "fragment_body env (ModelSwitchInstructions s) = Inr (model_switch_body s)"
| "fragment_body env (CollaborationModeInstructions s) = Inr s"
| "fragment_body env (PersonalitySpecInstructions spec) = Inr (personality_spec_body spec)"
| "fragment_body env RealtimeStartInstructions = Inr realtime_start_body"
| "fragment_body env (RealtimeStartWithInstructions s) = Inr (realtime_start_with_body s)"
| "fragment_body env (RealtimeEndInstructions reason) = Inr (realtime_end_body reason)"
| "fragment_body env (ApprovedCommandPrefixSaved saved) = Inr (approved_prefix_saved_body saved)"
| "fragment_body env (NetworkRuleSaved allow host) = Inr (network_rule_saved_body allow host)"
| "fragment_body env (PluginInstructions s) = Inr s"
| "fragment_body env (HookAdditionalContext s) = Inr s"
| "fragment_body env (ImageGenerationInstructions dir path) = Inr (image_generation_body dir path)"
| "fragment_body env GuardianFollowupReviewReminder = Inr guardian_reminder_body"

definition fragment_render :: "context_env \<Rightarrow> fragment \<Rightarrow> (trunc_exn, pystr) result" where
  "fragment_render env f =
     (case fragment_markers f of (start_marker, end_marker) \<Rightarrow>
      bindE (fragment_body env f) (\<lambda>body. Inr (start_marker @ body @ end_marker)))"

section \<open>Telling context from what the user typed\<close>

definition additional_context_matches :: "pystr \<Rightarrow> bool" where
  "additional_context_matches s =
     (let trimmed = strip s; start = lit ''<external_'' in
      starts_with trimmed start
      \<and> (let rest = drop (length start) trimmed in
         case str_find rest (lit ''>'') of
           None \<Rightarrow> False
         | Some n \<Rightarrow> ends_with (drop (Suc n) rest) (lit ''</external_'' @ take n rest @ lit ''>'')))"

fun fragment_type_matches :: "context_env \<Rightarrow> fragment_type \<Rightarrow> pystr \<Rightarrow> bool" where
  "fragment_type_matches env AdditionalContextUserType s \<longleftrightarrow> additional_context_matches s"
| "fragment_type_matches env LegacyUnifiedExecProcessLimitWarningType s \<longleftrightarrow>
     starts_with (strip s) (lit ''Warning: The maximum number of unified exec processes you can keep open is'')"
| "fragment_type_matches env LegacyApplyPatchExecCommandWarningType s \<longleftrightarrow>
     starts_with (strip s) (lit ''Warning: apply_patch was requested via '')
     \<and> ends_with (strip s) (lit ''Use the apply_patch tool instead of exec_command.'')"
| "fragment_type_matches env LegacyModelMismatchWarningType s \<longleftrightarrow>
     starts_with (strip s) (lit ''Warning: Your account was flagged for potentially high-risk cyber activity'')"
| "fragment_type_matches env t s \<longleftrightarrow> matches_marked_text env (fst (type_markers t)) (snd (type_markers t)) s"

definition CONTEXTUAL_USER_FRAGMENT_TYPES :: "fragment_type list" where
  "CONTEXTUAL_USER_FRAGMENT_TYPES =
     [UserInstructionsType, EnvironmentContextType, AdditionalContextUserType, SkillInstructionsType,
      UserShellCommandType, TurnAbortedType, SubagentNotificationType, GoalContextType,
      LegacyUnifiedExecProcessLimitWarningType, LegacyApplyPatchExecCommandWarningType, LegacyModelMismatchWarningType]"

definition is_standard_contextual_user_text :: "context_env \<Rightarrow> pystr \<Rightarrow> bool" where
  "is_standard_contextual_user_text env s = list_ex (\<lambda>t. fragment_type_matches env t s) CONTEXTUAL_USER_FRAGMENT_TYPES"

record hook_prompt_fragment =
  hp_text :: pystr
  hp_run_id :: pystr

definition parse_hook_prompt_fragment :: "context_env \<Rightarrow> pystr \<Rightarrow> hook_prompt_fragment option" where
  "parse_hook_prompt_fragment env s =
     (case ce_parse_xml env (strip s) of
        None \<Rightarrow> None
      | Some e \<Rightarrow>
          if xe_tag e \<noteq> lit ''hook_prompt'' then None
          else let run_id = (case map_of (xe_attrib e) (lit ''hook_run_id'') of None \<Rightarrow> [] | Some i \<Rightarrow> i) in
            if strip run_id = [] then None
            else Some \<lparr>hp_text = (case xe_text e of None \<Rightarrow> [] | Some t \<Rightarrow> t), hp_run_id = run_id\<rparr>)"

fun is_contextual_user_fragment :: "context_env \<Rightarrow> content_item \<Rightarrow> bool" where
  "is_contextual_user_fragment env (InputText s) \<longleftrightarrow>
     parse_hook_prompt_fragment env s \<noteq> None \<or> is_standard_contextual_user_text env s"
| "is_contextual_user_fragment env _ \<longleftrightarrow> False"

definition is_contextual_user_message_content :: "context_env \<Rightarrow> content_item list \<Rightarrow> bool" where
  "is_contextual_user_message_content env content = list_ex (is_contextual_user_fragment env) content"

definition CONTEXTUAL_DEVELOPER_PREFIXES :: "pystr list" where
  "CONTEXTUAL_DEVELOPER_PREFIXES =
     [lit ''<permissions instructions>'', lit ''<model_switch>'', lit ''<collaboration_mode>'',
      lit ''<realtime_conversation>'', lit ''<personality_spec>'']"

fun is_contextual_dev_fragment :: "context_env \<Rightarrow> content_item \<Rightarrow> bool" where
  "is_contextual_dev_fragment env (InputText s) =
     list_ex (\<lambda>p. starts_with (ce_lower env (lstrip s)) (ce_lower env p)) CONTEXTUAL_DEVELOPER_PREFIXES"
| "is_contextual_dev_fragment env _ = False"

definition is_contextual_dev_message_content :: "context_env \<Rightarrow> content_item list \<Rightarrow> bool" where
  "is_contextual_dev_message_content env content = list_ex (is_contextual_dev_fragment env) content"

definition has_non_contextual_dev_message_content :: "context_env \<Rightarrow> content_item list \<Rightarrow> bool" where
  "has_non_contextual_dev_message_content env content = list_ex (\<lambda>c. \<not> is_contextual_dev_fragment env c) content"

text \<open>The loop of \<open>parse_visible_hook_prompt_message\<close> over the content, with the fragments found so far.\<close>

fun visible_hook_prompts :: "context_env \<Rightarrow> hook_prompt_fragment list \<Rightarrow> content_item list \<Rightarrow> hook_prompt_fragment list option" where
  "visible_hook_prompts env found [] = (if found = [] then None else Some found)"
| "visible_hook_prompts env found (InputText s # content) =
     (case parse_hook_prompt_fragment env s of
        Some f \<Rightarrow> visible_hook_prompts env (found @ [f]) content
      | None \<Rightarrow> if is_standard_contextual_user_text env s then visible_hook_prompts env found content else None)"
| "visible_hook_prompts env found (_ # content) = None"

section \<open>Rendered context is recognised\<close>

lemma matches_marked_render:
  assumes "start_marker \<noteq> []" "end_marker \<noteq> []" "\<not> is_space (hd start_marker)" "\<not> is_space (last end_marker)"
  shows "matches_marked_text env start_marker end_marker (start_marker @ body @ end_marker)"
proof -
  let ?s = "start_marker @ body @ end_marker"
  have "lstrip ?s = ?s" by (rule lstrip_id) (use assms in \<open>auto simp: hd_append\<close>)
  moreover have "rstrip ?s = ?s" by (rule rstrip_id) (use assms in \<open>auto simp: last_append\<close>)
  ultimately show ?thesis using assms by (simp add: matches_marked_text_def slice_from_def Let_def nat_add_distrib)
qed

lemma find_after_key: "c \<notin> set key \<Longrightarrow> str_find (key @ c # rest) [c] = Some (length key)"
  by (induction key) (auto simp: starts_with_def)

lemma additional_render_matches:
  assumes "62 \<notin> set key"
  shows "additional_context_matches (lit ''<external_'' @ (key @ lit ''>'' @ v @ lit ''</external_'' @ key) @ lit ''>'')"
proof -
  let ?s = "lit ''<external_'' @ (key @ lit ''>'' @ v @ lit ''</external_'' @ key) @ lit ''>''"
  have "strip ?s = ?s" by (rule strip_id) (simp_all add: is_space_def)
  moreover have "str_find (key @ 62 # v @ lit ''</external_'' @ key @ [62]) [62] = Some (length key)"
    by (rule find_after_key [OF assms])
  ultimately show ?thesis
    by (simp add: additional_context_matches_def starts_with_def Let_def ends_with_iff)
qed

lemma marked_types:
  assumes "fragment_type_of f = Some t" "t \<noteq> AdditionalContextUserType"
  shows "fst (type_markers t) \<noteq> []" "snd (type_markers t) \<noteq> []" "\<not> is_space (hd (fst (type_markers t)))"
    "\<not> is_space (last (snd (type_markers t)))"
    "fragment_type_matches env t s = matches_marked_text env (fst (type_markers t)) (snd (type_markers t)) s"
  using assms by (cases f; auto simp: is_space_def)+

lemma rendered_standard_text:
  assumes "fragment_render env f = Inr s" "fragment_type_of f = Some t" "t \<noteq> AdditionalContextUserType"
  shows "fragment_type_matches env t s"
proof -
  from assms(1,2) obtain body where "s = fst (type_markers t) @ body @ snd (type_markers t)"
    by (auto simp: fragment_render_def fragment_markers_def bindE_eq_Inr split: prod.splits)
  then show ?thesis using marked_types [OF assms(2,3)] matches_marked_render by simp
qed

lemma rendered_additional_text:
  assumes "fragment_render env (AdditionalContextUser key v) = Inr s" "62 \<notin> set key"
  shows "additional_context_matches s"
proof -
  from assms(1) obtain w where "s = lit ''<external_'' @ (key @ lit ''>'' @ w @ lit ''</external_'' @ key) @ lit ''>''"
    by (auto simp: fragment_render_def fragment_markers_def additional_context_user_body_def bindE_eq_Inr)
  with additional_render_matches [OF assms(2), of w] show ?thesis by simp
qed

lemma rendered_fragment_lemma:
  assumes "fragment_render env f = Inr s" "fragment_type_of f = Some t"
    "\<forall>key v. f = AdditionalContextUser key v \<longrightarrow> 62 \<notin> set key"
  shows "is_standard_contextual_user_text env s"
proof -
  have "fragment_type_matches env t s"
  proof (cases "t = AdditionalContextUserType")
    case True
    then obtain key v where "f = AdditionalContextUser key v" using assms(2) by (cases f) auto
    with True rendered_additional_text assms show ?thesis by auto
  next
    case False
    then show ?thesis by (rule rendered_standard_text [OF assms(1,2)])
  qed
  moreover have "t \<in> set CONTEXTUAL_USER_FRAGMENT_TYPES" by (cases t) (simp_all add: CONTEXTUAL_USER_FRAGMENT_TYPES_def)
  ultimately show ?thesis by (auto simp: is_standard_contextual_user_text_def list_ex_iff)
qed

section \<open>Developer context\<close>

text \<open>
  \<open>str.lower\<close> maps a text that starts with an ASCII prefix to one that starts with the lower case of the prefix.
\<close>

definition lowers_prefixes :: "context_env \<Rightarrow> bool" where
  "lowers_prefixes env \<longleftrightarrow> (\<forall>p s. list_all (\<lambda>c. 0 \<le> c \<and> c < 128) p \<longrightarrow> starts_with (ce_lower env (p @ s)) (ce_lower env p))"

lemma rendered_developer_lemma:
  assumes "fragment_render env f = Inr s" "fst (developer_markers f) \<noteq> []" "fragment_type_of f = None" "lowers_prefixes env"
  shows "is_contextual_dev_fragment env (InputText s)"
proof -
  let ?p = "fst (developer_markers f)"
  from assms(1,3) obtain rest where s: "s = ?p @ rest"
    by (auto simp: fragment_render_def fragment_markers_def bindE_eq_Inr split: prod.splits)
  have p: "?p \<in> set CONTEXTUAL_DEVELOPER_PREFIXES \<and> list_all (\<lambda>c. 0 \<le> c \<and> c < 128) ?p \<and> \<not> is_space (hd ?p)"
    using assms(2) by (cases f) (auto simp: CONTEXTUAL_DEVELOPER_PREFIXES_def is_space_def)
  have "lstrip s = s" by (rule lstrip_id) (use p assms(2) in \<open>simp add: s\<close>)
  moreover have "starts_with (ce_lower env (?p @ rest)) (ce_lower env ?p)"
    using assms(4) p unfolding lowers_prefixes_def by blast
  ultimately show ?thesis using p s by (auto simp: list_ex_iff)
qed

section \<open>Properties\<close>


definition plain_env :: context_env where
  "plain_env = \<lparr>ce_lower = map (\<lambda>c. if 65 \<le> c \<and> c \<le> 90 then c + 32 else c), ce_parse_xml = (\<lambda>_. None),
     ce_dumps = (\<lambda>_. []), ce_loads = (\<lambda>_. None),
     ce_b64decode = (\<lambda>_. None)\<rparr>"

lemma plain_env_lowers: "lowers_prefixes plain_env"
  by (simp add: lowers_prefixes_def plain_env_def starts_with_append)


text \<open>A key with a \<open>>\<close> makes the rendered context look like the user's own text.\<close>

theorem key_with_bracket_is_not_recognised:
  "fragment_render plain_env (AdditionalContextUser (lit ''a>b'') (lit ''v'')) = Inr (lit ''<external_a>b>v</external_a>b>'')
   \<and> \<not> is_contextual_user_message_content plain_env [InputText (lit ''<external_a>b>v</external_a>b>'')]"
  by code_simp

end
