(* ===== verification/ResponseItem.thy ===== *)
theory ResponseItem
  imports ContextFragments PyDict
begin

text \<open>
  The items a conversation is made of: \<open>ResponseItem\<close> of \<open>pycodex/protocol/models.py\<close> with the types of its fields,
  how they are written as JSON objects (\<open>to_mapping\<close>) and read back (\<open>from_mapping\<close>). Python's \<open>None\<close> is \<open>None\<close>
  as a field and \<open>JNull\<close> in JSON; an exception is its class, which is all that the callers look at.
\<close>

section \<open>Reading JSON objects\<close>

datatype model_exn = KeyExn | TypeExn | ValueExn

definition as_mapping :: "json \<Rightarrow> (model_exn, json) result" where
  "as_mapping j = (case j of JObj _ \<Rightarrow> Inr j | _ \<Rightarrow> Inl TypeExn)"

definition required_value :: "json \<Rightarrow> string \<Rightarrow> (model_exn, json) result" where
  "required_value j k = (case json_get j k of None \<Rightarrow> Inl KeyExn | Some v \<Rightarrow> Inr v)"

definition required_str :: "json \<Rightarrow> string \<Rightarrow> (model_exn, pystr) result" where
  "required_str j k = bindE (required_value j k) (\<lambda>v. case v of JStr s \<Rightarrow> Inr s | _ \<Rightarrow> Inl TypeExn)"

text \<open>\<open>value.get(key)\<close>, with \<open>None\<close> for a missing field and for \<open>null\<close>.\<close>

definition get_value :: "json \<Rightarrow> string \<Rightarrow> json option" where
  "get_value j k = (case json_get j k of None \<Rightarrow> None | Some v \<Rightarrow> if v = JNull then None else Some v)"

definition optional_str :: "json \<Rightarrow> string \<Rightarrow> (model_exn, pystr option) result" where
  "optional_str j k = (case get_value j k of None \<Rightarrow> Inr None | Some (JStr s) \<Rightarrow> Inr (Some s) | _ \<Rightarrow> Inl TypeExn)"

fun str_list :: "json list \<Rightarrow> (model_exn, pystr list) result" where
  "str_list [] = Inr []"
| "str_list (JStr s # js) = bindE (str_list js) (\<lambda>ss. Inr (s # ss))"
| "str_list (_ # js) = Inl TypeExn"

definition optional_str_tuple :: "json \<Rightarrow> string \<Rightarrow> (model_exn, pystr list option) result" where
  "optional_str_tuple j k =
     (case get_value j k of
        None \<Rightarrow> Inr None
      | Some (JArr js) \<Rightarrow> bindE (str_list js) (\<lambda>ss. Inr (Some ss))
      | _ \<Rightarrow> Inl TypeExn)"

definition optional_bool_field :: "json \<Rightarrow> string \<Rightarrow> (model_exn, bool) result" where
  "optional_bool_field j k =
     (case json_get j k of None \<Rightarrow> Inr False | Some (JBool b) \<Rightarrow> Inr b | _ \<Rightarrow> Inl TypeExn)"

text \<open>Iterating over any value, as \<open>tuple(...)\<close> and a comprehension do.\<close>

fun iterate :: "json \<Rightarrow> (model_exn, json list) result" where
  "iterate (JArr js) = Inr js"
| "iterate (JStr s) = Inr (map (\<lambda>c. JStr [c]) s)"
| "iterate (JObj fs) = Inr (map (\<lambda>(k, _). JStr k) fs)"
| "iterate _ = Inl TypeExn"

text \<open>A member of an enumeration by its value.\<close>

definition enum_of :: "('a \<Rightarrow> string) \<Rightarrow> 'a list \<Rightarrow> pystr \<Rightarrow> (model_exn, 'a) result" where
  "enum_of val members s = (case find (\<lambda>m. lit (val m) = s) members of None \<Rightarrow> Inl ValueExn | Some m \<Rightarrow> Inr m)"

definition optional_enum :: "('a \<Rightarrow> string) \<Rightarrow> 'a list \<Rightarrow> json \<Rightarrow> string \<Rightarrow> (model_exn, 'a option) result" where
  "optional_enum val members j k =
     bindE (optional_str j k) (\<lambda>v. case v of None \<Rightarrow> Inr None | Some s \<Rightarrow> bindE (enum_of val members s) (\<lambda>m. Inr (Some m)))"

section \<open>Content items\<close>

fun image_detail_value :: "image_detail \<Rightarrow> string" where
  "image_detail_value AutoDetail = ''auto''"
| "image_detail_value LowDetail = ''low''"
| "image_detail_value HighDetail = ''high''"
| "image_detail_value OriginalDetail = ''original''"

definition image_details :: "image_detail list" where
  "image_details = [AutoDetail, LowDetail, HighDetail, OriginalDetail]"

definition detail_field :: "image_detail option \<Rightarrow> (string \<times> json) list" where
  "detail_field d = (case d of None \<Rightarrow> [] | Some x \<Rightarrow> [(''detail'', jstr (image_detail_value x))])"

fun content_item_to_mapping :: "content_item \<Rightarrow> json" where
  "content_item_to_mapping (InputText s) = jobj [(''type'', jstr ''input_text''), (''text'', JStr s)]"
| "content_item_to_mapping (OutputText s) = jobj [(''type'', jstr ''output_text''), (''text'', JStr s)]"
| "content_item_to_mapping (InputImage url d) =
     jobj ([(''type'', jstr ''input_image''), (''image_url'', JStr url)] @ detail_field d)"

definition content_item_from_mapping :: "json \<Rightarrow> (model_exn, content_item) result" where
  "content_item_from_mapping v =
     bindE (as_mapping v) (\<lambda>_. bindE (required_str v ''type'') (\<lambda>t.
       if t = lit ''input_text'' then bindE (required_str v ''text'') (\<lambda>s. Inr (InputText s))
       else if t = lit ''input_image'' then
         bindE (required_str v ''image_url'') (\<lambda>url.
         bindE (optional_enum image_detail_value image_details v ''detail'') (\<lambda>d. Inr (InputImage url d)))
       else if t = lit ''output_text'' then bindE (required_str v ''text'') (\<lambda>s. Inr (OutputText s))
       else Inl ValueExn))"

fun output_item_to_mapping :: "output_item \<Rightarrow> json" where
  "output_item_to_mapping (OutText s) = jobj [(''type'', jstr ''input_text''), (''text'', JStr s)]"
| "output_item_to_mapping (OutImage url d) =
     jobj ([(''type'', jstr ''input_image''), (''image_url'', JStr url)] @ detail_field d)"
| "output_item_to_mapping (OutEncrypted e) =
     jobj [(''type'', jstr ''encrypted_content''), (''encrypted_content'', JStr e)]"

definition output_item_from_mapping :: "json \<Rightarrow> (model_exn, output_item) result" where
  "output_item_from_mapping v =
     bindE (as_mapping v) (\<lambda>_. bindE (required_str v ''type'') (\<lambda>t.
       if t = lit ''input_text'' then bindE (required_str v ''text'') (\<lambda>s. Inr (OutText s))
       else if t = lit ''input_image'' then
         bindE (required_str v ''image_url'') (\<lambda>url.
         bindE (optional_enum image_detail_value image_details v ''detail'') (\<lambda>d. Inr (OutImage url d)))
       else if t = lit ''encrypted_content'' then
         bindE (required_str v ''encrypted_content'') (\<lambda>e. Inr (OutEncrypted e))
       else Inl ValueExn))"

definition payload_to_json :: "output_payload \<Rightarrow> json" where
  "payload_to_json p =
     (case op_body p of TextBody s \<Rightarrow> JStr s | ItemsBody items \<Rightarrow> JArr (map output_item_to_mapping items))"

definition payload_from_value :: "json \<Rightarrow> (model_exn, output_payload) result" where
  "payload_from_value v =
     (case v of
        JStr s \<Rightarrow> Inr \<lparr>op_body = TextBody s, op_success = None\<rparr>
      | JArr js \<Rightarrow> bindE (mapE output_item_from_mapping js) (\<lambda>items. Inr \<lparr>op_body = ItemsBody items, op_success = None\<rparr>)
      | _ \<Rightarrow> Inl TypeExn)"

section \<open>Actions, reasoning\<close>

record local_shell_exec =
  ls_command :: "pystr list"
  ls_timeout_ms :: "int option"
  ls_working_directory :: "pystr option"
  ls_env :: "(pystr \<times> pystr) list option"
  ls_user :: "pystr option"

definition opt_field :: "string \<Rightarrow> ('a \<Rightarrow> json) \<Rightarrow> 'a option \<Rightarrow> (string \<times> json) list" where
  "opt_field k f v = (case v of None \<Rightarrow> [] | Some x \<Rightarrow> [(k, f x)])"

definition local_shell_to_mapping :: "local_shell_exec \<Rightarrow> json" where
  "local_shell_to_mapping a = jobj
     ([(''type'', jstr ''exec''), (''command'', JArr (map JStr (ls_command a)))]
      @ opt_field ''timeout_ms'' JInt (ls_timeout_ms a) @ opt_field ''working_directory'' JStr (ls_working_directory a)
      @ opt_field ''env'' (\<lambda>env. JObj (map (\<lambda>(k, v). (k, JStr v)) env)) (ls_env a) @ opt_field ''user'' JStr (ls_user a))"

fun str_fields :: "(pystr \<times> json) list \<Rightarrow> (model_exn, (pystr \<times> pystr) list) result" where
  "str_fields [] = Inr []"
| "str_fields ((k, JStr v) # fs) = bindE (str_fields fs) (\<lambda>kvs. Inr ((k, v) # kvs))"
| "str_fields (_ # fs) = Inl TypeExn"

definition read_timeout :: "json \<Rightarrow> (model_exn, int option) result" where
  "read_timeout j =
     (case get_value j ''timeout_ms'' of
        None \<Rightarrow> Inr None
      | Some (JInt n) \<Rightarrow> if n < 0 \<or> n > 2 ^ 64 - 1 then Inl ValueExn else Inr (Some n)
      | _ \<Rightarrow> Inl TypeExn)"

definition read_env :: "json \<Rightarrow> (model_exn, (pystr \<times> pystr) list option) result" where
  "read_env j =
     (case get_value j ''env'' of
        None \<Rightarrow> Inr None
      | Some (JObj fs) \<Rightarrow> bindE (str_fields fs) (\<lambda>kvs. Inr (Some kvs))
      | _ \<Rightarrow> Inl TypeExn)"

definition local_shell_from_mapping :: "json \<Rightarrow> (model_exn, local_shell_exec) result" where
  "local_shell_from_mapping j =
     bindE (as_mapping j) (\<lambda>_. bindE (required_str j ''type'') (\<lambda>t.
       if t \<noteq> lit ''exec'' then Inl ValueExn
       else bindE (required_value j ''command'') (\<lambda>c.
         bindE (case c of JArr js \<Rightarrow> str_list js | _ \<Rightarrow> Inl TypeExn) (\<lambda>command.
         bindE (read_timeout j) (\<lambda>timeout.
         bindE (optional_str j ''working_directory'') (\<lambda>dir.
         bindE (read_env j) (\<lambda>env.
         bindE (optional_str j ''user'') (\<lambda>user.
         Inr \<lparr>ls_command = command, ls_timeout_ms = timeout, ls_working_directory = dir, ls_env = env, ls_user = user\<rparr>))))))))"

datatype web_search_action =
    SearchAction "pystr option" "pystr list option"
  | OpenPageAction "pystr option"
  | FindInPageAction "pystr option" "pystr option"
  | OtherSearchAction

fun web_search_to_mapping :: "web_search_action \<Rightarrow> json" where
  "web_search_to_mapping (SearchAction q qs) =
     jobj ((''type'', jstr ''search'') # opt_field ''query'' JStr q @ opt_field ''queries'' (\<lambda>l. JArr (map JStr l)) qs)"
| "web_search_to_mapping (OpenPageAction url) = jobj ((''type'', jstr ''open_page'') # opt_field ''url'' JStr url)"
| "web_search_to_mapping (FindInPageAction url pat) =
     jobj ((''type'', jstr ''find_in_page'') # opt_field ''url'' JStr url @ opt_field ''pattern'' JStr pat)"
| "web_search_to_mapping OtherSearchAction = jobj [(''type'', jstr ''other'')]"

definition web_search_from_mapping :: "json \<Rightarrow> (model_exn, web_search_action) result" where
  "web_search_from_mapping j =
     bindE (as_mapping j) (\<lambda>_. bindE (required_str j ''type'') (\<lambda>t.
       if t = lit ''search'' then
         bindE (optional_str j ''query'') (\<lambda>q. bindE (optional_str_tuple j ''queries'') (\<lambda>qs. Inr (SearchAction q qs)))
       else if t = lit ''open_page'' then bindE (optional_str j ''url'') (\<lambda>url. Inr (OpenPageAction url))
       else if t = lit ''find_in_page'' then
         bindE (optional_str j ''url'') (\<lambda>url. bindE (optional_str j ''pattern'') (\<lambda>pat. Inr (FindInPageAction url pat)))
       else Inr OtherSearchAction))"

datatype item_action = WebSearch web_search_action | LocalShell local_shell_exec

fun action_to_mapping :: "item_action \<Rightarrow> json" where
  "action_to_mapping (WebSearch a) = web_search_to_mapping a"
| "action_to_mapping (LocalShell a) = local_shell_to_mapping a"

datatype reasoning_content = ReasoningText pystr | PlainReasoning pystr

fun reasoning_content_to_mapping :: "reasoning_content \<Rightarrow> json" where
  "reasoning_content_to_mapping (ReasoningText s) = jobj [(''type'', jstr ''reasoning_text''), (''text'', JStr s)]"
| "reasoning_content_to_mapping (PlainReasoning s) = jobj [(''type'', jstr ''text''), (''text'', JStr s)]"

definition reasoning_content_from_mapping :: "json \<Rightarrow> (model_exn, reasoning_content) result" where
  "reasoning_content_from_mapping j =
     bindE (as_mapping j) (\<lambda>_. bindE (required_str j ''type'') (\<lambda>t.
       if t = lit ''reasoning_text'' then bindE (required_str j ''text'') (\<lambda>s. Inr (ReasoningText s))
       else if t = lit ''text'' then bindE (required_str j ''text'') (\<lambda>s. Inr (PlainReasoning s))
       else Inl ValueExn))"

definition summary_to_mapping :: "pystr \<Rightarrow> json" where
  "summary_to_mapping s = jobj [(''type'', jstr ''summary_text''), (''text'', JStr s)]"

definition summary_from_mapping :: "json \<Rightarrow> (model_exn, pystr) result" where
  "summary_from_mapping j =
     bindE (as_mapping j) (\<lambda>_. bindE (required_str j ''type'') (\<lambda>t.
       if t \<noteq> lit ''summary_text'' then Inl ValueExn else required_str j ''text''))"

fun is_raw_reasoning :: "reasoning_content \<Rightarrow> bool" where
  "is_raw_reasoning (ReasoningText _) = True"
| "is_raw_reasoning (PlainReasoning _) = False"

definition should_serialize_reasoning_content :: "reasoning_content list option \<Rightarrow> bool" where
  "should_serialize_reasoning_content content =
     (case content of None \<Rightarrow> False | Some items \<Rightarrow> \<not> list_ex is_raw_reasoning items)"

section \<open>Response items\<close>

datatype message_phase = Commentary | FinalAnswer

fun message_phase_value :: "message_phase \<Rightarrow> string" where
  "message_phase_value Commentary = ''commentary''"
| "message_phase_value FinalAnswer = ''final_answer''"

definition message_phases :: "message_phase list" where
  "message_phases = [Commentary, FinalAnswer]"

datatype item_type =
    MessageItem | ReasoningItem | LocalShellCall | FunctionCall | ToolSearchCall | CustomToolCall
  | FunctionCallOutput | CustomToolCallOutput | ToolSearchOutput | WebSearchCall | ImageGenerationCall
  | CompactionItem | CompactionTrigger | ContextCompaction | OtherItem pystr

fun item_type_name :: "item_type \<Rightarrow> pystr" where
  "item_type_name MessageItem = lit ''message''"
| "item_type_name ReasoningItem = lit ''reasoning''"
| "item_type_name LocalShellCall = lit ''local_shell_call''"
| "item_type_name FunctionCall = lit ''function_call''"
| "item_type_name ToolSearchCall = lit ''tool_search_call''"
| "item_type_name CustomToolCall = lit ''custom_tool_call''"
| "item_type_name FunctionCallOutput = lit ''function_call_output''"
| "item_type_name CustomToolCallOutput = lit ''custom_tool_call_output''"
| "item_type_name ToolSearchOutput = lit ''tool_search_output''"
| "item_type_name WebSearchCall = lit ''web_search_call''"
| "item_type_name ImageGenerationCall = lit ''image_generation_call''"
| "item_type_name CompactionItem = lit ''compaction''"
| "item_type_name CompactionTrigger = lit ''compaction_trigger''"
| "item_type_name ContextCompaction = lit ''context_compaction''"
| "item_type_name (OtherItem s) = s"

definition known_item_types :: "item_type list" where
  "known_item_types = [MessageItem, ReasoningItem, LocalShellCall, FunctionCall, ToolSearchCall, CustomToolCall,
     FunctionCallOutput, CustomToolCallOutput, ToolSearchOutput, WebSearchCall, ImageGenerationCall,
     CompactionItem, CompactionTrigger, ContextCompaction]"

text \<open>A type is a string in the code: the constructors stand for the strings the code compares it with.\<close>

definition item_type_of :: "pystr \<Rightarrow> item_type" where
  "item_type_of s = (case find (\<lambda>t. item_type_name t = s) known_item_types of Some t \<Rightarrow> t | None \<Rightarrow> OtherItem s)"

datatype item_output = Payload output_payload | RawOutput json

record response_item =
  ri_type :: item_type
  ri_id :: "pystr option"
  ri_role :: "pystr option"
  ri_content :: "content_item list"
  ri_phase :: "message_phase option"
  ri_summary :: "pystr list"
  ri_reasoning :: "reasoning_content list option"
  ri_encrypted :: "pystr option"
  ri_call_id :: "pystr option"
  ri_name :: "pystr option"
  ri_namespace :: "pystr option"
  ri_arguments :: "json option"
  ri_input :: "pystr option"
  ri_output :: "item_output option"
  ri_status :: "pystr option"
  ri_execution :: "pystr option"
  ri_tools :: "json list"
  ri_action :: "item_action option"
  ri_revised_prompt :: "pystr option"
  ri_result :: "pystr option"

definition item_of_type :: "item_type \<Rightarrow> response_item" where
  "item_of_type t = \<lparr>ri_type = t, ri_id = None, ri_role = None, ri_content = [], ri_phase = None, ri_summary = [],
     ri_reasoning = None, ri_encrypted = None, ri_call_id = None, ri_name = None, ri_namespace = None,
     ri_arguments = None, ri_input = None, ri_output = None, ri_status = None, ri_execution = None, ri_tools = [],
     ri_action = None, ri_revised_prompt = None, ri_result = None\<rparr>"

definition message_item :: "pystr \<Rightarrow> content_item list \<Rightarrow> pystr option \<Rightarrow> message_phase option \<Rightarrow> response_item" where
  "message_item role content i phase =
     (item_of_type MessageItem)\<lparr>ri_role := Some role, ri_content := content, ri_id := i, ri_phase := phase\<rparr>"

definition function_call_item :: "pystr \<Rightarrow> json \<Rightarrow> pystr \<Rightarrow> pystr option \<Rightarrow> pystr option \<Rightarrow> response_item" where
  "function_call_item name arguments call_id namespace i =
     (item_of_type FunctionCall)\<lparr>ri_id := i, ri_name := Some name, ri_namespace := namespace,
       ri_arguments := Some arguments, ri_call_id := Some call_id\<rparr>"

definition output_of_call :: "item_type \<Rightarrow> pystr \<Rightarrow> output_payload \<Rightarrow> response_item" where
  "output_of_call t call_id payload = (item_of_type t)\<lparr>ri_call_id := Some call_id, ri_output := Some (Payload payload)\<rparr>"

section \<open>Writing an item\<close>

definition item_field :: "response_item \<Rightarrow> string \<Rightarrow> ('a \<Rightarrow> json) \<Rightarrow> 'a option \<Rightarrow> (string \<times> json) list" where
  "item_field item k f v =
     (if ri_type item = WebSearchCall \<and> k = ''id'' \<and> ri_action item = None then []
      else if k = ''call_id'' \<and> (ri_type item = ToolSearchCall \<or> ri_type item = ToolSearchOutput)
        then [(k, case v of None \<Rightarrow> JNull | Some x \<Rightarrow> f x)]
      else opt_field k f v)"

definition output_to_json :: "item_output \<Rightarrow> json" where
  "output_to_json out = (case out of Payload p \<Rightarrow> payload_to_json p | RawOutput j \<Rightarrow> j)"

definition item_head :: "response_item \<Rightarrow> (string \<times> json) list" where
  "item_head item =
     (''type'', JStr (item_type_name (ri_type item)))
     # item_field item ''id'' JStr (ri_id item) @ item_field item ''role'' JStr (ri_role item)
     @ item_field item ''call_id'' JStr (ri_call_id item) @ item_field item ''name'' JStr (ri_name item)
     @ item_field item ''namespace'' JStr (ri_namespace item) @ item_field item ''arguments'' id (ri_arguments item)
     @ item_field item ''input'' JStr (ri_input item) @ item_field item ''status'' JStr (ri_status item)
     @ item_field item ''execution'' JStr (ri_execution item)
     @ item_field item ''encrypted_content'' JStr (ri_encrypted item)
     @ item_field item ''revised_prompt'' JStr (ri_revised_prompt item) @ item_field item ''result'' JStr (ri_result item)"

definition item_to_mapping :: "response_item \<Rightarrow> json" where
  "item_to_mapping item =
     (let d = item_head item
          @ (if ri_content item \<noteq> [] then [(''content'', JArr (map content_item_to_mapping (ri_content item)))] else [])
          @ opt_field ''phase'' (\<lambda>p. jstr (message_phase_value p)) (ri_phase item)
          @ (if ri_type item = ReasoningItem \<or> ri_summary item \<noteq> []
             then [(''summary'', JArr (map summary_to_mapping (ri_summary item)))] else []);
        d = (if should_serialize_reasoning_content (ri_reasoning item)
             then dict_set ''content''
               (JArr (map reasoning_content_to_mapping (case ri_reasoning item of None \<Rightarrow> [] | Some r \<Rightarrow> r))) d
             else d)
      in jobj (d @ opt_field ''output'' output_to_json (ri_output item)
        @ (if ri_type item = ToolSearchOutput \<or> ri_tools item \<noteq> [] then [(''tools'', JArr (ri_tools item))] else [])
        @ opt_field ''action'' action_to_mapping (ri_action item)))"

section \<open>Reading an item\<close>

definition read_payload :: "json \<Rightarrow> (model_exn, output_payload) result" where
  "read_payload v =
     bindE (required_value v ''output'') (\<lambda>o_value. payload_from_value o_value)"

text \<open>\<open>LocalShellStatus(...).value\<close>\<close>

definition read_local_shell_status :: "json \<Rightarrow> (model_exn, pystr) result" where
  "read_local_shell_status v =
     bindE (required_str v ''status'') (\<lambda>s. if s \<in> set [lit ''completed'', lit ''in_progress'', lit ''incomplete''] then Inr s else Inl ValueExn)"

definition read_message :: "json \<Rightarrow> (model_exn, response_item) result" where
  "read_message v =
     bindE (required_str v ''role'') (\<lambda>role.
     bindE (bindE (required_value v ''content'') iterate) (\<lambda>js.
     bindE (mapE content_item_from_mapping js) (\<lambda>content.
     bindE (optional_str v ''id'') (\<lambda>i.
     bindE (optional_enum message_phase_value message_phases v ''phase'') (\<lambda>phase.
     Inr (message_item role content i phase))))))"

definition read_reasoning :: "json \<Rightarrow> (model_exn, response_item) result" where
  "read_reasoning v =
     bindE (optional_str v ''id'') (\<lambda>i.
     bindE (bindE (required_value v ''summary'') iterate) (\<lambda>js.
     bindE (mapE summary_from_mapping js) (\<lambda>summary.
     bindE (case get_value v ''content'' of
         None \<Rightarrow> Inr None
       | Some raw \<Rightarrow> bindE (iterate raw) (\<lambda>rs. bindE (mapE reasoning_content_from_mapping rs) (\<lambda>r. Inr (Some r)))) (\<lambda>reasoning.
     bindE (optional_str v ''encrypted_content'') (\<lambda>enc.
     Inr ((item_of_type ReasoningItem)\<lparr>ri_id := i, ri_summary := summary, ri_reasoning := reasoning, ri_encrypted := enc\<rparr>))))))"

definition read_local_shell_call :: "json \<Rightarrow> (model_exn, response_item) result" where
  "read_local_shell_call v =
     bindE (optional_str v ''id'') (\<lambda>i.
     bindE (optional_str v ''call_id'') (\<lambda>call_id.
     bindE (read_local_shell_status v) (\<lambda>status.
     bindE (bindE (required_value v ''action'') local_shell_from_mapping) (\<lambda>action.
     Inr ((item_of_type LocalShellCall)\<lparr>ri_id := i, ri_call_id := call_id, ri_status := Some status,
       ri_action := Some (LocalShell action)\<rparr>)))))"

definition read_function_call :: "json \<Rightarrow> (model_exn, response_item) result" where
  "read_function_call v =
     bindE (required_str v ''name'') (\<lambda>name.
     bindE (required_str v ''arguments'') (\<lambda>arguments.
     bindE (required_str v ''call_id'') (\<lambda>call_id.
     bindE (optional_str v ''namespace'') (\<lambda>namespace.
     bindE (optional_str v ''id'') (\<lambda>i. Inr (function_call_item name (JStr arguments) call_id namespace i))))))"

definition read_tool_search_call :: "json \<Rightarrow> (model_exn, response_item) result" where
  "read_tool_search_call v =
     bindE (required_value v ''arguments'') (\<lambda>arguments.
     bindE (optional_str v ''call_id'') (\<lambda>call_id.
     bindE (optional_str v ''status'') (\<lambda>status.
     bindE (required_str v ''execution'') (\<lambda>execution.
     bindE (optional_str v ''id'') (\<lambda>i.
     Inr ((item_of_type ToolSearchCall)\<lparr>ri_id := i, ri_call_id := call_id, ri_status := status,
       ri_execution := Some execution, ri_arguments := (if arguments = JNull then None else Some arguments)\<rparr>))))))"

definition read_custom_tool_call :: "json \<Rightarrow> (model_exn, response_item) result" where
  "read_custom_tool_call v =
     bindE (required_str v ''name'') (\<lambda>name.
     bindE (required_str v ''input'') (\<lambda>inp.
     bindE (required_str v ''call_id'') (\<lambda>call_id.
     bindE (optional_str v ''status'') (\<lambda>status.
     bindE (optional_str v ''id'') (\<lambda>i.
     Inr ((item_of_type CustomToolCall)\<lparr>ri_id := i, ri_status := status, ri_name := Some name,
       ri_input := Some inp, ri_call_id := Some call_id\<rparr>))))))"

definition read_function_call_output :: "json \<Rightarrow> (model_exn, response_item) result" where
  "read_function_call_output v =
     bindE (read_payload v) (\<lambda>p.
     bindE (required_str v ''call_id'') (\<lambda>call_id.
     bindE (optional_bool_field v ''success'') (\<lambda>success.
     Inr (output_of_call FunctionCallOutput call_id (p\<lparr>op_success := Some success\<rparr>)))))"

definition read_custom_tool_call_output :: "json \<Rightarrow> (model_exn, response_item) result" where
  "read_custom_tool_call_output v =
     bindE (read_payload v) (\<lambda>p.
     bindE (required_str v ''call_id'') (\<lambda>call_id.
     bindE (optional_str v ''name'') (\<lambda>name.
     bindE (optional_bool_field v ''success'') (\<lambda>success.
     Inr ((output_of_call CustomToolCallOutput call_id (p\<lparr>op_success := Some success\<rparr>))\<lparr>ri_name := name\<rparr>)))))"

definition read_tool_search_output :: "json \<Rightarrow> (model_exn, response_item) result" where
  "read_tool_search_output v =
     bindE (optional_str v ''call_id'') (\<lambda>call_id.
     bindE (required_str v ''status'') (\<lambda>status.
     bindE (required_str v ''execution'') (\<lambda>execution.
     bindE (bindE (required_value v ''tools'') iterate) (\<lambda>tools.
     Inr ((item_of_type ToolSearchOutput)\<lparr>ri_call_id := call_id, ri_status := Some status,
       ri_execution := Some execution, ri_tools := tools\<rparr>)))))"

definition read_web_search_call :: "json \<Rightarrow> (model_exn, response_item) result" where
  "read_web_search_call v =
     bindE (optional_str v ''id'') (\<lambda>i.
     bindE (optional_str v ''status'') (\<lambda>status.
     bindE (case get_value v ''action'' of None \<Rightarrow> Inr None
       | Some a \<Rightarrow> bindE (web_search_from_mapping a) (\<lambda>x. Inr (Some (WebSearch x)))) (\<lambda>action.
     Inr ((item_of_type WebSearchCall)\<lparr>ri_id := i, ri_status := status, ri_action := action\<rparr>))))"

definition read_image_generation_call :: "json \<Rightarrow> (model_exn, response_item) result" where
  "read_image_generation_call v =
     bindE (required_str v ''id'') (\<lambda>i.
     bindE (required_str v ''status'') (\<lambda>status.
     bindE (optional_str v ''revised_prompt'') (\<lambda>prompt.
     bindE (required_str v ''result'') (\<lambda>res.
     Inr ((item_of_type ImageGenerationCall)\<lparr>ri_id := Some i, ri_status := Some status, ri_revised_prompt := prompt,
       ri_result := Some res\<rparr>)))))"

definition item_from_mapping :: "json \<Rightarrow> (model_exn, response_item) result" where
  "item_from_mapping v =
     bindE (as_mapping v) (\<lambda>_. bindE (required_str v ''type'') (\<lambda>t.
       case item_type_of t of
         MessageItem \<Rightarrow> read_message v
       | ReasoningItem \<Rightarrow> read_reasoning v
       | LocalShellCall \<Rightarrow> read_local_shell_call v
       | FunctionCall \<Rightarrow> read_function_call v
       | ToolSearchCall \<Rightarrow> read_tool_search_call v
       | CustomToolCall \<Rightarrow> read_custom_tool_call v
       | FunctionCallOutput \<Rightarrow> read_function_call_output v
       | CustomToolCallOutput \<Rightarrow> read_custom_tool_call_output v
       | ToolSearchOutput \<Rightarrow> read_tool_search_output v
       | WebSearchCall \<Rightarrow> read_web_search_call v
       | ImageGenerationCall \<Rightarrow> read_image_generation_call v
       | CompactionItem \<Rightarrow>
           bindE (required_str v ''encrypted_content'') (\<lambda>e. Inr ((item_of_type CompactionItem)\<lparr>ri_encrypted := Some e\<rparr>))
       | CompactionTrigger \<Rightarrow> Inr (item_of_type CompactionTrigger)
       | ContextCompaction \<Rightarrow>
           bindE (optional_str v ''encrypted_content'') (\<lambda>e. Inr ((item_of_type ContextCompaction)\<lparr>ri_encrypted := e\<rparr>))
       | OtherItem s \<Rightarrow>
           if s = lit ''compaction_summary'' then
             bindE (required_str v ''encrypted_content'') (\<lambda>e. Inr ((item_of_type CompactionItem)\<lparr>ri_encrypted := Some e\<rparr>))
           else if s = lit ''ghost_snapshot'' then Inr (item_of_type (OtherItem (lit ''other'')))
           else Inr (item_of_type (OtherItem s))))"

section \<open>Reading back what was written\<close>

lemma json_get_jobj [simp]: "json_get (jobj fs) k = map_of fs k"
  by (induction fs) (auto simp: jobj_def lit_inject)

lemma as_mapping_jobj [simp]: "as_mapping (jobj fs) = Inr (jobj fs)"
  by (simp add: as_mapping_def jobj_def)

lemma mapE_map_inverse: "(\<And>x. f (g x) = Inr x) \<Longrightarrow> mapE f (map g xs) = Inr xs"
  by (induction xs) simp_all

lemma str_list_strings [simp]: "str_list (map JStr ss) = Inr ss"
  by (induction ss) simp_all

lemma str_fields_strings [simp]: "str_fields (map (\<lambda>(k, v). (k, JStr v)) kvs) = Inr kvs"
  by (induction kvs) auto

lemmas read_simps = required_str_def required_value_def optional_str_def get_value_def optional_str_tuple_def
  optional_enum_def enum_of_def opt_field_def detail_field_def jstr_def

lemma image_detail_reads [simp]:
  "find (\<lambda>m. image_detail_value m = image_detail_value d) image_details = Some d"
  by (cases d) (simp_all add: image_details_def lit_inject del: lit.simps)

lemma message_phase_reads [simp]:
  "find (\<lambda>m. message_phase_value m = message_phase_value d) message_phases = Some d"
  by (cases d) (simp_all add: message_phases_def lit_inject del: lit.simps)

lemma content_item_reads [simp]: "content_item_from_mapping (content_item_to_mapping c) = Inr c"
  by (cases c) (auto simp: content_item_from_mapping_def read_simps lit_inject simp del: lit.simps split: option.splits)

lemma output_item_reads [simp]: "output_item_from_mapping (output_item_to_mapping c) = Inr c"
  by (cases c) (auto simp: output_item_from_mapping_def read_simps lit_inject simp del: lit.simps split: option.splits)

lemma payload_reads [simp]: "payload_from_value (payload_to_json p) = Inr (p\<lparr>op_success := None\<rparr>)"
  by (cases "op_body p") (simp_all add: payload_from_value_def payload_to_json_def mapE_map_inverse)

lemma reasoning_content_reads [simp]: "reasoning_content_from_mapping (reasoning_content_to_mapping c) = Inr c"
  by (cases c) (simp_all add: reasoning_content_from_mapping_def read_simps lit_inject del: lit.simps)

lemma summary_reads [simp]: "summary_from_mapping (summary_to_mapping s) = Inr s"
  by (simp add: summary_from_mapping_def summary_to_mapping_def read_simps lit_inject del: lit.simps)

lemma web_search_reads [simp]: "web_search_from_mapping (web_search_to_mapping a) = Inr a"
  by (cases a) (auto simp: web_search_from_mapping_def read_simps lit_inject simp del: lit.simps split: option.splits)

lemma local_shell_reads [simp]:
  assumes "case ls_timeout_ms a of None \<Rightarrow> True | Some n \<Rightarrow> 0 \<le> n \<and> n \<le> 2 ^ 64 - 1"
  shows "local_shell_from_mapping (local_shell_to_mapping a) = Inr a"
proof -
  have "read_timeout (local_shell_to_mapping a) = Inr (ls_timeout_ms a)"
    using assms by (auto simp: read_timeout_def local_shell_to_mapping_def read_simps split: option.splits)
  moreover have "read_env (local_shell_to_mapping a) = Inr (ls_env a)"
    by (auto simp: read_env_def local_shell_to_mapping_def read_simps split: option.splits)
  moreover have "optional_str (local_shell_to_mapping a) ''working_directory'' = Inr (ls_working_directory a)"
    "optional_str (local_shell_to_mapping a) ''user'' = Inr (ls_user a)"
    by (auto simp: local_shell_to_mapping_def read_simps split: option.splits)
  moreover have "as_mapping (local_shell_to_mapping a) = Inr (local_shell_to_mapping a)"
    "required_str (local_shell_to_mapping a) ''type'' = Inr (lit ''exec'')"
    "required_value (local_shell_to_mapping a) ''command'' = Inr (JArr (map JStr (ls_command a)))"
    by (simp_all add: local_shell_to_mapping_def read_simps)
  ultimately show ?thesis by (simp add: local_shell_from_mapping_def del: lit.simps)
qed

lemma item_type_reads: "t \<in> set known_item_types \<Longrightarrow> item_type_of (item_type_name t) = t"
proof -
  have "list_all (\<lambda>t. item_type_of (item_type_name t) = t) known_item_types" by code_simp
  then show "t \<in> set known_item_types \<Longrightarrow> item_type_of (item_type_name t) = t" by (simp add: list_all_iff)
qed

text \<open>The items the constructors of the class build, each with the fields of its type.\<close>

inductive wire_item :: "response_item \<Rightarrow> bool" where
  message: "content \<noteq> [] \<Longrightarrow> wire_item (message_item role content i phase)"
| reasoning: "wire_item ((item_of_type ReasoningItem)\<lparr>ri_id := i, ri_summary := summary, ri_reasoning := r, ri_encrypted := e\<rparr>)"
| local_shell: "status \<in> {lit ''completed'', lit ''in_progress'', lit ''incomplete''} \<Longrightarrow>
    (case ls_timeout_ms a of None \<Rightarrow> True | Some n \<Rightarrow> 0 \<le> n \<and> n \<le> 2 ^ 64 - 1) \<Longrightarrow>
    wire_item ((item_of_type LocalShellCall)\<lparr>ri_id := i, ri_call_id := call_id, ri_status := Some status,
      ri_action := Some (LocalShell a)\<rparr>)"
| function_call: "wire_item (function_call_item name (JStr arguments) call_id namespace i)"
| tool_search_call: "arguments \<noteq> JNull \<Longrightarrow>
    wire_item ((item_of_type ToolSearchCall)\<lparr>ri_id := i, ri_call_id := call_id', ri_status := status',
      ri_execution := Some execution, ri_arguments := Some arguments\<rparr>)"
| custom_tool_call: "wire_item ((item_of_type CustomToolCall)\<lparr>ri_id := i, ri_status := status', ri_name := Some name,
    ri_input := Some inp, ri_call_id := Some call_id''\<rparr>)"
| function_call_output: "wire_item (output_of_call FunctionCallOutput call_id payload)"
| custom_tool_call_output: "wire_item ((output_of_call CustomToolCallOutput call_id payload)\<lparr>ri_name := name'\<rparr>)"
| tool_search_output: "wire_item ((item_of_type ToolSearchOutput)\<lparr>ri_call_id := call_id', ri_status := Some status,
    ri_execution := Some execution, ri_tools := tools\<rparr>)"
| web_search: "wire_item ((item_of_type WebSearchCall)\<lparr>ri_id := i, ri_status := status', ri_action := map_option WebSearch w\<rparr>)"
| image_generation: "wire_item ((item_of_type ImageGenerationCall)\<lparr>ri_id := Some i', ri_status := Some status,
    ri_revised_prompt := p, ri_result := Some res\<rparr>)"
| compaction: "wire_item ((item_of_type CompactionItem)\<lparr>ri_encrypted := Some enc\<rparr>)"
| compaction_trigger: "wire_item (item_of_type CompactionTrigger)"
| context_compaction: "wire_item ((item_of_type ContextCompaction)\<lparr>ri_encrypted := e\<rparr>)"

text \<open>
  What of an item comes back: whether an output was a success is not written and read as failure, reasoning that
  contains raw text is not written at all, and neither is the id of a web search without an action.
\<close>

definition read_back :: "response_item \<Rightarrow> response_item" where
  "read_back item = item\<lparr>
     ri_output := (case ri_output item of Some (Payload p) \<Rightarrow> Some (Payload (p\<lparr>op_success := Some False\<rparr>)) | out \<Rightarrow> out),
     ri_reasoning := (if should_serialize_reasoning_content (ri_reasoning item) then ri_reasoning item else None),
     ri_id := (if ri_type item = WebSearchCall \<and> ri_action item = None then None else ri_id item)\<rparr>"

lemmas item_writes = item_to_mapping_def item_head_def item_field_def item_of_type_def opt_field_def jstr_def Let_def
  should_serialize_reasoning_content_def read_back_def

lemma reads_as:
  assumes "ri_type item \<in> set known_item_types"
  shows "item_from_mapping (item_to_mapping item) =
    (case ri_type item of
         MessageItem \<Rightarrow> read_message (item_to_mapping item)
       | ReasoningItem \<Rightarrow> read_reasoning (item_to_mapping item)
       | LocalShellCall \<Rightarrow> read_local_shell_call (item_to_mapping item)
       | FunctionCall \<Rightarrow> read_function_call (item_to_mapping item)
       | ToolSearchCall \<Rightarrow> read_tool_search_call (item_to_mapping item)
       | CustomToolCall \<Rightarrow> read_custom_tool_call (item_to_mapping item)
       | FunctionCallOutput \<Rightarrow> read_function_call_output (item_to_mapping item)
       | CustomToolCallOutput \<Rightarrow> read_custom_tool_call_output (item_to_mapping item)
       | ToolSearchOutput \<Rightarrow> read_tool_search_output (item_to_mapping item)
       | WebSearchCall \<Rightarrow> read_web_search_call (item_to_mapping item)
       | ImageGenerationCall \<Rightarrow> read_image_generation_call (item_to_mapping item)
       | CompactionItem \<Rightarrow> bindE (required_str (item_to_mapping item) ''encrypted_content'')
           (\<lambda>e. Inr ((item_of_type CompactionItem)\<lparr>ri_encrypted := Some e\<rparr>))
       | CompactionTrigger \<Rightarrow> Inr (item_of_type CompactionTrigger)
       | ContextCompaction \<Rightarrow> bindE (optional_str (item_to_mapping item) ''encrypted_content'')
           (\<lambda>e. Inr ((item_of_type ContextCompaction)\<lparr>ri_encrypted := e\<rparr>))
       | OtherItem s \<Rightarrow> undefined)"
proof -
  have "as_mapping (item_to_mapping item) = Inr (item_to_mapping item)" by (simp add: item_to_mapping_def Let_def)
  moreover have "required_str (item_to_mapping item) ''type'' = Inr (item_type_name (ri_type item))"
    by (simp add: item_to_mapping_def item_head_def required_str_def required_value_def Let_def)
  ultimately show ?thesis
    using item_type_reads [OF assms] assms
    by (cases "ri_type item") (simp_all add: item_from_mapping_def known_item_types_def)
qed

lemma message_reads:
  "content \<noteq> [] \<Longrightarrow> read_message (item_to_mapping (message_item role content i phase)) = Inr (message_item role content i phase)"
  by (cases i; cases phase)
    (simp_all add: read_message_def message_item_def item_writes read_simps lit_inject mapE_map_inverse del: lit.simps)

lemma reasoning_reads:
  assumes "item = (item_of_type ReasoningItem)\<lparr>ri_id := i, ri_summary := summary, ri_reasoning := r, ri_encrypted := e\<rparr>"
  shows "read_reasoning (item_to_mapping item) = Inr (read_back item)"
  unfolding assms
  by (cases i; cases e; cases r)
    (simp_all add: read_reasoning_def item_writes read_simps lit_inject mapE_map_inverse del: lit.simps)

lemma local_shell_call_reads:
  assumes "item = (item_of_type LocalShellCall)\<lparr>ri_id := i, ri_call_id := call_id, ri_status := Some status,
      ri_action := Some (LocalShell a)\<rparr>" "status \<in> {lit ''completed'', lit ''in_progress'', lit ''incomplete''}"
    "case ls_timeout_ms a of None \<Rightarrow> True | Some n \<Rightarrow> 0 \<le> n \<and> n \<le> 2 ^ 64 - 1"
  shows "read_local_shell_call (item_to_mapping item) = Inr (read_back item)"
  using assms(2) local_shell_reads [OF assms(3)] unfolding assms(1)
  by (cases i; cases call_id)
    (simp_all add: read_local_shell_call_def read_local_shell_status_def item_writes read_simps lit_inject del: lit.simps)

lemma function_call_reads:
  "read_function_call (item_to_mapping (function_call_item name (JStr arguments) call_id namespace i))
    = Inr (function_call_item name (JStr arguments) call_id namespace i)"
  by (cases i; cases namespace)
    (simp_all add: read_function_call_def function_call_item_def item_writes read_simps lit_inject del: lit.simps)

lemma tool_search_call_reads:
  assumes "item = (item_of_type ToolSearchCall)\<lparr>ri_id := i, ri_call_id := call_id, ri_status := status,
      ri_execution := Some execution, ri_arguments := Some arguments\<rparr>" "arguments \<noteq> JNull"
  shows "read_tool_search_call (item_to_mapping item) = Inr (read_back item)"
  using assms(2) unfolding assms(1)
  by (cases i; cases call_id; cases status)
    (simp_all add: read_tool_search_call_def item_writes read_simps lit_inject del: lit.simps)

lemma custom_tool_call_reads:
  assumes "item = (item_of_type CustomToolCall)\<lparr>ri_id := i, ri_status := status, ri_name := Some name,
      ri_input := Some inp, ri_call_id := Some call_id\<rparr>"
  shows "read_custom_tool_call (item_to_mapping item) = Inr (read_back item)"
  unfolding assms
  by (cases i; cases status)
    (simp_all add: read_custom_tool_call_def item_writes read_simps lit_inject del: lit.simps)

lemma read_payload_writes:
  "read_payload (jobj fs) = bindE (case map_of fs ''output'' of None \<Rightarrow> Inl KeyExn | Some v \<Rightarrow> Inr v) payload_from_value"
  by (simp add: read_payload_def required_value_def)

lemma function_call_output_reads:
  "read_function_call_output (item_to_mapping (output_of_call FunctionCallOutput call_id p))
    = Inr (read_back (output_of_call FunctionCallOutput call_id p))"
  by (simp add: read_function_call_output_def output_of_call_def output_to_json_def optional_bool_field_def
      read_payload_writes item_writes read_simps lit_inject del: lit.simps)

lemma custom_tool_call_output_reads:
  "read_custom_tool_call_output (item_to_mapping ((output_of_call CustomToolCallOutput call_id p)\<lparr>ri_name := name\<rparr>))
    = Inr (read_back ((output_of_call CustomToolCallOutput call_id p)\<lparr>ri_name := name\<rparr>))"
  by (cases name)
    (simp_all add: read_custom_tool_call_output_def output_of_call_def output_to_json_def optional_bool_field_def
      read_payload_writes item_writes read_simps lit_inject del: lit.simps)

lemma tool_search_output_reads:
  assumes "item = (item_of_type ToolSearchOutput)\<lparr>ri_call_id := call_id, ri_status := Some status,
    ri_execution := Some execution, ri_tools := tools\<rparr>"
  shows "read_tool_search_output (item_to_mapping item) = Inr (read_back item)"
  unfolding assms
  by (cases call_id)
    (simp_all add: read_tool_search_output_def item_writes read_simps lit_inject del: lit.simps)

lemma web_search_call_reads:
  assumes "item = (item_of_type WebSearchCall)\<lparr>ri_id := i, ri_status := status, ri_action := map_option WebSearch w\<rparr>"
  shows "read_web_search_call (item_to_mapping item) = Inr (read_back item)"
proof -
  have "web_search_to_mapping x \<noteq> JNull" for x by (cases x) (simp_all add: jobj_def)
  then show ?thesis unfolding assms
    by (cases i; cases status; cases w)
      (simp_all add: read_web_search_call_def item_writes read_simps lit_inject del: lit.simps)
qed

lemma image_generation_call_reads:
  assumes "item = (item_of_type ImageGenerationCall)\<lparr>ri_id := Some i, ri_status := Some status,
    ri_revised_prompt := p, ri_result := Some res\<rparr>"
  shows "read_image_generation_call (item_to_mapping item) = Inr (read_back item)"
  unfolding assms
  by (cases p) (simp_all add: read_image_generation_call_def item_writes read_simps lit_inject del: lit.simps)

lemma item_types [simp]:
  "ri_type (item_of_type t) = t" "ri_type (message_item role content i phase) = MessageItem"
  "ri_type (function_call_item name a call_id namespace i) = FunctionCall"
  "ri_type (output_of_call t call_id p) = t"
  by (simp_all add: item_of_type_def message_item_def function_call_item_def output_of_call_def)

lemma read_back_message: "read_back (message_item role content i phase) = message_item role content i phase"
  and read_back_function_call:
    "read_back (function_call_item name a call_id namespace i) = function_call_item name a call_id namespace i"
  by (simp_all add: item_writes message_item_def function_call_item_def)

lemma compaction_reads:
  "required_str (item_to_mapping ((item_of_type CompactionItem)\<lparr>ri_encrypted := Some enc\<rparr>)) ''encrypted_content'' = Inr enc"
  "optional_str (item_to_mapping ((item_of_type ContextCompaction)\<lparr>ri_encrypted := e\<rparr>)) ''encrypted_content'' = Inr e"
  "read_back ((item_of_type CompactionItem)\<lparr>ri_encrypted := Some enc\<rparr>) = (item_of_type CompactionItem)\<lparr>ri_encrypted := Some enc\<rparr>"
  "read_back ((item_of_type ContextCompaction)\<lparr>ri_encrypted := e\<rparr>) = (item_of_type ContextCompaction)\<lparr>ri_encrypted := e\<rparr>"
  "read_back (item_of_type CompactionTrigger) = item_of_type CompactionTrigger"
  by (cases e; simp add: item_writes read_simps del: lit.simps)+

section \<open>Properties\<close>



text \<open>A successful output comes back as a failed one, and a message without content does not come back at all.\<close>

theorem success_is_lost:
  "item_from_mapping (item_to_mapping (output_of_call FunctionCallOutput (lit ''c'') (payload_from_text (lit ''ok'') (Some True))))
     = Inr (output_of_call FunctionCallOutput (lit ''c'') (payload_from_text (lit ''ok'') (Some False)))
   \<and> item_from_mapping (item_to_mapping (message_item (lit ''user'') [] None None)) = Inl KeyExn"
  by code_simp

end
