(* ===== verification/History.thy ===== *)
theory History
  imports ResponseItem
begin

text \<open>
  \<open>pycodex/core/context_manager/normalize.py\<close>: putting a conversation in the form the model accepts. Every call
  has an output, every output a call, and images go where the model cannot see them. The history is the list of
  its items.
\<close>

section \<open>Outputs that are missing\<close>

definition aborted_output :: "item_type \<Rightarrow> pystr \<Rightarrow> response_item" where
  "aborted_output t call_id = output_of_call t call_id (payload_from_text (lit ''aborted'') None)"

definition client_search_output :: "pystr \<Rightarrow> response_item" where
  "client_search_output call_id =
     (item_of_type ToolSearchOutput)\<lparr>ri_call_id := Some call_id, ri_status := Some (lit ''completed''),
       ri_execution := Some (lit ''client''), ri_tools := []\<rparr>"

definition has_item :: "item_type \<Rightarrow> pystr \<Rightarrow> response_item list \<Rightarrow> bool" where
  "has_item t call_id items = list_ex (\<lambda>c. ri_type c = t \<and> ri_call_id c = Some call_id) items"

definition missing_output :: "response_item list \<Rightarrow> response_item \<Rightarrow> response_item option" where
  "missing_output items item =
     (case ri_call_id item of
        None \<Rightarrow> None
      | Some c \<Rightarrow>
          if ri_type item = FunctionCall then
            (if has_item FunctionCallOutput c items then None else Some (aborted_output FunctionCallOutput c))
          else if ri_type item = ToolSearchCall then
            (if has_item ToolSearchOutput c items then None else Some (client_search_output c))
          else if ri_type item = CustomToolCall then
            (if has_item CustomToolCallOutput c items then None else Some (aborted_output CustomToolCallOutput c))
          else if ri_type item = LocalShellCall then
            (if has_item FunctionCallOutput c items then None else Some (aborted_output FunctionCallOutput c))
          else None)"

fun missing_from :: "response_item list \<Rightarrow> nat \<Rightarrow> response_item list \<Rightarrow> (nat \<times> response_item) list" where
  "missing_from items i [] = []"
| "missing_from items i (item # rest) =
     (case missing_output items item of None \<Rightarrow> [] | Some out \<Rightarrow> [(i, out)]) @ missing_from items (Suc i) rest"

text \<open>\<open>items.insert(i, x)\<close>\<close>

definition insert_at :: "nat \<Rightarrow> 'a \<Rightarrow> 'a list \<Rightarrow> 'a list" where
  "insert_at i x xs = take i xs @ x # drop i xs"

definition ensure_call_outputs_present :: "response_item list \<Rightarrow> response_item list" where
  "ensure_call_outputs_present items =
     fold (\<lambda>(i, out) xs. insert_at (Suc i) out xs) (rev (missing_from items 0 items)) items"

section \<open>Outputs without a call\<close>

definition call_ids :: "item_type \<Rightarrow> response_item list \<Rightarrow> pystr list" where
  "call_ids t items = List.map_filter (\<lambda>i. if ri_type i = t then ri_call_id i else None) items"

definition output_is_kept :: "response_item list \<Rightarrow> response_item \<Rightarrow> bool" where
  "output_is_kept items item =
     (if ri_type item = FunctionCallOutput then
        (case ri_call_id item of None \<Rightarrow> False
         | Some c \<Rightarrow> c \<in> set (call_ids FunctionCall items) \<or> c \<in> set (call_ids LocalShellCall items))
      else if ri_type item = CustomToolCallOutput then
        (case ri_call_id item of None \<Rightarrow> False | Some c \<Rightarrow> c \<in> set (call_ids CustomToolCall items))
      else if ri_type item = ToolSearchOutput then
        ri_execution item = Some (lit ''server'')
        \<or> (case ri_call_id item of None \<Rightarrow> True | Some c \<Rightarrow> c \<in> set (call_ids ToolSearchCall items))
      else True)"

definition remove_orphan_outputs :: "response_item list \<Rightarrow> response_item list" where
  "remove_orphan_outputs items = filter (output_is_kept items) items"

definition normalize_call_outputs :: "response_item list \<Rightarrow> response_item list" where
  "normalize_call_outputs items = remove_orphan_outputs (ensure_call_outputs_present items)"

section \<open>Images\<close>

definition IMAGE_CONTENT_OMITTED_PLACEHOLDER :: pystr where
  "IMAGE_CONTENT_OMITTED_PLACEHOLDER = lit ''image content omitted because you do not support image input''"

definition input_modalities_support_images :: "pystr list option \<Rightarrow> bool" where
  "input_modalities_support_images modalities =
     (case modalities of None \<Rightarrow> False | Some ms \<Rightarrow> list_ex (\<lambda>m. m = lit ''image'') ms)"

fun strip_message_content_image :: "content_item \<Rightarrow> content_item" where
  "strip_message_content_image (InputImage _ _) = InputText IMAGE_CONTENT_OMITTED_PLACEHOLDER"
| "strip_message_content_image c = c"

fun replace_image :: "pystr \<Rightarrow> output_item \<Rightarrow> output_item" where
  "replace_image placeholder (OutImage _ _) = OutText placeholder"
| "replace_image placeholder item = item"

definition strip_function_output_images :: "output_payload \<Rightarrow> output_payload" where
  "strip_function_output_images p =
     (case op_body p of
        TextBody _ \<Rightarrow> p
      | ItemsBody items \<Rightarrow>
          payload_from_content_items (map (replace_image IMAGE_CONTENT_OMITTED_PLACEHOLDER) items) (op_success p))"

definition strip_images_from_item :: "response_item \<Rightarrow> response_item" where
  "strip_images_from_item item =
     (if ri_type item = MessageItem then item\<lparr>ri_content := map strip_message_content_image (ri_content item)\<rparr>
      else if ri_type item = FunctionCallOutput \<or> ri_type item = CustomToolCallOutput then
        (case ri_output item of
           Some (Payload p) \<Rightarrow> item\<lparr>ri_output := Some (Payload (strip_function_output_images p))\<rparr>
         | _ \<Rightarrow> item)
      else if ri_type item = ImageGenerationCall then item\<lparr>ri_result := Some []\<rparr>
      else item)"

definition strip_images_when_unsupported :: "pystr list option \<Rightarrow> response_item list \<Rightarrow> response_item list" where
  "strip_images_when_unsupported modalities items =
     (if input_modalities_support_images modalities then items else map strip_images_from_item items)"

section \<open>The counterpart of an item\<close>

text \<open>Also tells whether one was found.\<close>

fun remove_first_matching :: "item_type \<Rightarrow> pystr \<Rightarrow> response_item list \<Rightarrow> bool \<times> response_item list" where
  "remove_first_matching t c [] = (False, [])"
| "remove_first_matching t c (item # items) =
     (if ri_type item = t \<and> ri_call_id item = Some c then (True, items)
      else (case remove_first_matching t c items of (found, rest) \<Rightarrow> (found, item # rest)))"

definition remove_corresponding_for :: "response_item list \<Rightarrow> response_item \<Rightarrow> response_item list" where
  "remove_corresponding_for items item =
     (case ri_call_id item of
        None \<Rightarrow> items
      | Some c \<Rightarrow>
          (case ri_type item of
             FunctionCall \<Rightarrow> snd (remove_first_matching FunctionCallOutput c items)
           | FunctionCallOutput \<Rightarrow>
               (case remove_first_matching FunctionCall c items of
                  (True, rest) \<Rightarrow> rest
                | (False, rest) \<Rightarrow> snd (remove_first_matching LocalShellCall c rest))
           | ToolSearchCall \<Rightarrow> snd (remove_first_matching ToolSearchOutput c items)
           | ToolSearchOutput \<Rightarrow> snd (remove_first_matching ToolSearchCall c items)
           | CustomToolCall \<Rightarrow> snd (remove_first_matching CustomToolCallOutput c items)
           | CustomToolCallOutput \<Rightarrow> snd (remove_first_matching CustomToolCall c items)
           | LocalShellCall \<Rightarrow> snd (remove_first_matching FunctionCallOutput c items)
           | _ \<Rightarrow> items))"

section \<open>Calls and outputs by kind\<close>

datatype pair_kind = FunctionKind | SearchKind | CustomKind

fun call_kind :: "item_type \<Rightarrow> pair_kind option" where
  "call_kind FunctionCall = Some FunctionKind"
| "call_kind LocalShellCall = Some FunctionKind"
| "call_kind ToolSearchCall = Some SearchKind"
| "call_kind CustomToolCall = Some CustomKind"
| "call_kind _ = None"

fun output_kind :: "item_type \<Rightarrow> pair_kind option" where
  "output_kind FunctionCallOutput = Some FunctionKind"
| "output_kind ToolSearchOutput = Some SearchKind"
| "output_kind CustomToolCallOutput = Some CustomKind"
| "output_kind _ = None"

definition key_of :: "(item_type \<Rightarrow> pair_kind option) \<Rightarrow> response_item \<Rightarrow> (pair_kind \<times> pystr) option" where
  "key_of kind item = (case (kind (ri_type item), ri_call_id item) of (Some k, Some c) \<Rightarrow> Some (k, c) | _ \<Rightarrow> None)"

definition keys_of :: "(item_type \<Rightarrow> pair_kind option) \<Rightarrow> response_item list \<Rightarrow> (pair_kind \<times> pystr) list" where
  "keys_of kind items = List.map_filter (key_of kind) items"

text \<open>Outputs that need no call: those of searches the server ran or that carry no id.\<close>

definition free_output :: "response_item \<Rightarrow> bool" where
  "free_output item \<longleftrightarrow> ri_type item = ToolSearchOutput \<and> (ri_execution item = Some (lit ''server'') \<or> ri_call_id item = None)"

definition calls_answered :: "response_item list \<Rightarrow> bool" where
  "calls_answered items \<longleftrightarrow> set (keys_of call_kind items) \<subseteq> set (keys_of output_kind items)"

definition outputs_justified :: "response_item list \<Rightarrow> bool" where
  "outputs_justified items \<longleftrightarrow> (\<forall>item \<in> set items. output_kind (ri_type item) \<noteq> None \<and> \<not> free_output item \<longrightarrow>
     (case key_of output_kind item of None \<Rightarrow> False | Some k \<Rightarrow> k \<in> set (keys_of call_kind items)))"

section \<open>The missing outputs stand after their calls\<close>

definition with_missing :: "response_item list \<Rightarrow> response_item \<Rightarrow> response_item list" where
  "with_missing items item = item # (case missing_output items item of None \<Rightarrow> [] | Some out \<Rightarrow> [out])"

lemma insert_missing:
  "length pre = i \<Longrightarrow> fold (\<lambda>(i, out) xs. insert_at (Suc i) out xs) (rev (missing_from items i xs)) (pre @ xs)
    = pre @ concat (map (with_missing items) xs)"
proof (induction xs arbitrary: pre i)
  case (Cons x xs)
  from Cons.IH [of "pre @ [x]" "Suc i"] Cons.prems show ?case
    by (auto simp: with_missing_def insert_at_def split: option.splits)
qed simp

lemma ensure_concat: "ensure_call_outputs_present items = concat (map (with_missing items) items)"
  using insert_missing [of "[]" 0 items items] by (simp add: ensure_call_outputs_present_def)

lemma keys_of_append [simp]: "keys_of kind (xs @ ys) = keys_of kind xs @ keys_of kind ys"
  and keys_of_Cons: "keys_of kind (x # xs) = (case key_of kind x of None \<Rightarrow> [] | Some k \<Rightarrow> [k]) @ keys_of kind xs"
  and keys_of_Nil [simp]: "keys_of kind [] = []"
  by (simp_all add: keys_of_def List.map_filter_def split: option.splits)

lemma keys_of_set: "k \<in> set (keys_of kind items) \<longleftrightarrow> (\<exists>item \<in> set items. key_of kind item = Some k)"
  by (auto simp: keys_of_def List.map_filter_def image_iff)

lemma key_of_item: "key_of kind item = Some (k, c) \<longleftrightarrow> kind (ri_type item) = Some k \<and> ri_call_id item = Some c"
  by (auto simp: key_of_def split: option.splits)

lemma output_key_type:
  "output_kind t = Some FunctionKind \<longleftrightarrow> t = FunctionCallOutput" "output_kind t = Some SearchKind \<longleftrightarrow> t = ToolSearchOutput"
  "output_kind t = Some CustomKind \<longleftrightarrow> t = CustomToolCallOutput"
  by (cases t; simp)+

lemma call_key_type:
  "call_kind t = Some FunctionKind \<longleftrightarrow> t = FunctionCall \<or> t = LocalShellCall" "call_kind t = Some SearchKind \<longleftrightarrow> t = ToolSearchCall"
  "call_kind t = Some CustomKind \<longleftrightarrow> t = CustomToolCall"
  by (cases t; simp)+

lemma has_output:
  "has_item FunctionCallOutput c items \<longleftrightarrow> (FunctionKind, c) \<in> set (keys_of output_kind items)"
  "has_item ToolSearchOutput c items \<longleftrightarrow> (SearchKind, c) \<in> set (keys_of output_kind items)"
  "has_item CustomToolCallOutput c items \<longleftrightarrow> (CustomKind, c) \<in> set (keys_of output_kind items)"
  by (auto simp: has_item_def list_ex_iff keys_of_set key_of_item output_key_type)

lemma new_items [simp]:
  "ri_type (aborted_output t c) = t" "ri_call_id (aborted_output t c) = Some c"
  "ri_type (client_search_output c) = ToolSearchOutput" "ri_call_id (client_search_output c) = Some c"
  by (simp_all add: aborted_output_def client_search_output_def output_of_call_def)

text \<open>What is added for a call is the output with its key, and it is added exactly when there is none.\<close>

lemma missing_output_iff:
  "missing_output items item = None \<longleftrightarrow>
     (case key_of call_kind item of None \<Rightarrow> True | Some k \<Rightarrow> k \<in> set (keys_of output_kind items))"
proof (cases "ri_call_id item")
  case (Some c)
  then show ?thesis
    by (cases "ri_type item")
      (simp_all add: missing_output_def key_of_def has_output)
qed (simp add: missing_output_def key_of_def split: option.splits)

lemma missing_output_key:
  "missing_output items item = Some out \<Longrightarrow>
     key_of output_kind out = key_of call_kind item \<and> key_of call_kind item \<noteq> None \<and> key_of call_kind out = None"
  by (auto simp: missing_output_def key_of_def split: option.splits if_splits)

lemma call_id_keys:
  "c \<in> set (call_ids FunctionCall items) \<or> c \<in> set (call_ids LocalShellCall items) \<longleftrightarrow> (FunctionKind, c) \<in> set (keys_of call_kind items)"
  "c \<in> set (call_ids ToolSearchCall items) \<longleftrightarrow> (SearchKind, c) \<in> set (keys_of call_kind items)"
  "c \<in> set (call_ids CustomToolCall items) \<longleftrightarrow> (CustomKind, c) \<in> set (keys_of call_kind items)"
  by (auto simp: call_ids_def List.map_filter_def keys_of_set key_of_item call_key_type image_iff split: if_splits)

definition justified_by :: "response_item list \<Rightarrow> response_item \<Rightarrow> bool" where
  "justified_by items item \<longleftrightarrow> output_kind (ri_type item) = None \<or> free_output item
     \<or> (case key_of output_kind item of None \<Rightarrow> False | Some k \<Rightarrow> k \<in> set (keys_of call_kind items))"

lemma output_is_kept_iff: "output_is_kept items item \<longleftrightarrow> justified_by items item"
  by (cases "ri_type item"; cases "ri_call_id item")
    (auto simp: output_is_kept_def justified_by_def free_output_def key_of_def call_id_keys)

lemma outputs_justified_iff: "outputs_justified items \<longleftrightarrow> (\<forall>item \<in> set items. justified_by items item)"
  by (auto simp: outputs_justified_def justified_by_def)

lemma justified_by_cong: "set (keys_of call_kind xs) = set (keys_of call_kind ys) \<Longrightarrow> justified_by xs = justified_by ys"
  by (rule ext) (simp add: justified_by_def split: option.split)

lemma ensure_calls: "keys_of call_kind (concat (map (with_missing items) xs)) = keys_of call_kind xs"
  by (induction xs) (auto simp: with_missing_def keys_of_Cons missing_output_key split: option.splits)

lemma ensure_answers: "k \<in> set (keys_of call_kind items) \<Longrightarrow> k \<in> set (keys_of output_kind (ensure_call_outputs_present items))"
proof -
  assume "k \<in> set (keys_of call_kind items)"
  then obtain item where item: "item \<in> set items" "key_of call_kind item = Some k" by (auto simp: keys_of_set)
  show ?thesis
  proof (cases "missing_output items item")
    case None
    with item obtain x where "x \<in> set items" "key_of output_kind x = Some k" by (auto simp: missing_output_iff keys_of_set)
    then show ?thesis by (auto simp: ensure_concat keys_of_set with_missing_def intro!: bexI [of _ x])
  next
    case (Some out)
    then have "key_of output_kind out = Some k" using missing_output_key item by metis
    moreover have "out \<in> set (ensure_call_outputs_present items)"
      using Some item by (auto simp: ensure_concat with_missing_def intro!: bexI [of _ item])
    ultimately show ?thesis by (auto simp: keys_of_set)
  qed
qed

lemma remove_orphans_calls: "keys_of call_kind (remove_orphan_outputs items) = keys_of call_kind items"
proof -
  have "key_of call_kind x = None" if "\<not> output_is_kept ys x" for x ys
    using that by (cases "ri_type x") (simp_all add: output_is_kept_iff justified_by_def key_of_def)
  then have "keys_of call_kind (filter (output_is_kept ys) xs) = keys_of call_kind xs" for xs ys
    by (induction xs) (auto simp: keys_of_Cons)
  then show ?thesis by (simp add: remove_orphan_outputs_def)
qed

lemma normalize_calls: "keys_of call_kind (normalize_call_outputs items) = keys_of call_kind items"
  by (simp add: normalize_call_outputs_def remove_orphans_calls ensure_concat ensure_calls)

lemma normalize_answered: "calls_answered (normalize_call_outputs items)"
  unfolding calls_answered_def
proof
  fix k
  assume "k \<in> set (keys_of call_kind (normalize_call_outputs items))"
  then have k: "k \<in> set (keys_of call_kind items)" by (simp add: normalize_calls)
  from ensure_answers [OF k] obtain out where out: "out \<in> set (ensure_call_outputs_present items)" "key_of output_kind out = Some k"
    by (auto simp: keys_of_set)
  have "output_is_kept (ensure_call_outputs_present items) out"
    using out k by (simp add: output_is_kept_iff justified_by_def ensure_concat ensure_calls)
  with out show "k \<in> set (keys_of output_kind (normalize_call_outputs items))"
    by (auto simp: normalize_call_outputs_def remove_orphan_outputs_def keys_of_set)
qed

lemma normalize_justified: "outputs_justified (normalize_call_outputs items)"
proof -
  have "justified_by (normalize_call_outputs items) = justified_by (ensure_call_outputs_present items)"
    by (rule justified_by_cong) (simp add: normalize_calls ensure_concat ensure_calls)
  then show ?thesis
    by (simp add: outputs_justified_iff) (simp add: normalize_call_outputs_def remove_orphan_outputs_def output_is_kept_iff)
qed

lemma normalize_paired_id:
  assumes "calls_answered items" "outputs_justified items"
  shows "normalize_call_outputs items = items"
proof -
  have "missing_output items item = None" if "item \<in> set items" for item
  proof (cases "key_of call_kind item")
    case (Some k)
    with that have "k \<in> set (keys_of call_kind items)" by (auto simp: keys_of_set)
    with assms(1) have "k \<in> set (keys_of output_kind items)" by (auto simp: calls_answered_def)
    with Some show ?thesis by (simp add: missing_output_iff)
  qed (simp add: missing_output_iff)
  then have "with_missing items item = [item]" if "item \<in> set items" for item using that by (simp add: with_missing_def)
  then have "ensure_call_outputs_present items = concat (map (\<lambda>i. [i]) items)"
    unfolding ensure_concat by (metis (no_types, lifting) map_cong)
  then have "ensure_call_outputs_present items = items" by simp
  then show ?thesis
    using assms(2) by (simp add: normalize_call_outputs_def remove_orphan_outputs_def output_is_kept_iff outputs_justified_iff filter_id_conv)
qed

lemma normalize_keeps_others:
  "filter (\<lambda>i. output_kind (ri_type i) = None) (normalize_call_outputs items) = filter (\<lambda>i. output_kind (ri_type i) = None) items"
proof -
  have "output_kind (ri_type out) \<noteq> None" if "missing_output ys x = Some out" for x ys out
    using missing_output_key [OF that] by (auto simp: key_of_def split: option.splits)
  then have "filter (\<lambda>i. output_kind (ri_type i) = None) (concat (map (with_missing ys) xs)) = filter (\<lambda>i. output_kind (ri_type i) = None) xs" for xs ys
    by (induction xs) (auto simp: with_missing_def split: option.splits)
  moreover have "filter (\<lambda>i. output_kind (ri_type i) = None) (filter (output_is_kept ys) xs)
      = filter (\<lambda>i. output_kind (ri_type i) = None) xs" for xs ys
    by (induction xs) (auto simp: output_is_kept_iff justified_by_def)
  ultimately show ?thesis by (simp add: normalize_call_outputs_def remove_orphan_outputs_def ensure_concat)
qed

section \<open>Images are gone\<close>

definition shows_image :: "response_item \<Rightarrow> bool" where
  "shows_image item \<longleftrightarrow>
     ri_type item = MessageItem \<and> list_ex (\<lambda>c. case c of InputImage _ _ \<Rightarrow> True | _ \<Rightarrow> False) (ri_content item)
     \<or> (ri_type item = FunctionCallOutput \<or> ri_type item = CustomToolCallOutput)
        \<and> (case ri_output item of
             Some (Payload p) \<Rightarrow> (case op_body p of ItemsBody items \<Rightarrow> list_ex (\<lambda>i. case i of OutImage _ _ \<Rightarrow> True | _ \<Rightarrow> False) items
                                   | TextBody _ \<Rightarrow> False)
           | _ \<Rightarrow> False)
     \<or> ri_type item = ImageGenerationCall \<and> ri_result item \<noteq> Some []"

lemma strip_keeps [simp]:
  "ri_type (strip_images_from_item i) = ri_type i" "ri_call_id (strip_images_from_item i) = ri_call_id i"
  "ri_execution (strip_images_from_item i) = ri_execution i"
  by (simp_all add: strip_images_from_item_def split: option.splits item_output.splits)

lemma strip_shows_no_image: "\<not> shows_image (strip_images_from_item item)"
proof -
  have "\<not> (case strip_message_content_image c of InputImage _ _ \<Rightarrow> True | _ \<Rightarrow> False)" for c by (cases c) simp_all
  moreover have "\<not> (case replace_image p i of OutImage _ _ \<Rightarrow> True | _ \<Rightarrow> False)" for p i by (cases i) simp_all
  ultimately show ?thesis
    by (auto simp: strip_images_from_item_def shows_image_def list_ex_iff strip_function_output_images_def
        payload_from_content_items_def split: option.splits item_output.splits output_body.splits)
qed

lemma strip_key [simp]: "key_of kind (strip_images_from_item i) = key_of kind i"
  by (simp add: key_of_def)

lemma strip_keys: "keys_of kind (map strip_images_from_item items) = keys_of kind items"
  by (induction items) (simp_all add: keys_of_Cons)

lemma strip_paired:
  "calls_answered (strip_images_when_unsupported m items) = calls_answered items"
  "outputs_justified (strip_images_when_unsupported m items) = outputs_justified items"
proof -
  have "justified_by (map strip_images_from_item items) = justified_by items"
    by (rule justified_by_cong) (simp add: strip_keys)
  moreover have "justified_by ys (strip_images_from_item i) = justified_by ys i" for ys i
    by (simp add: justified_by_def free_output_def)
  ultimately show "outputs_justified (strip_images_when_unsupported m items) = outputs_justified items"
    by (simp add: strip_images_when_unsupported_def outputs_justified_iff)
qed (simp add: strip_images_when_unsupported_def calls_answered_def strip_keys)

section \<open>Removing an item and its counterpart\<close>

definition well_paired :: "response_item list \<Rightarrow> bool" where
  "well_paired items \<longleftrightarrow> calls_answered items \<and> outputs_justified items
     \<and> distinct (keys_of call_kind items) \<and> distinct (keys_of output_kind items)"

lemma remove_first_subset: "remove_first_matching t c items = (found, rest) \<Longrightarrow> set rest \<subseteq> set items"
  by (induction items arbitrary: found rest) (auto split: if_splits prod.splits)

lemma remove_first_other:
  "remove_first_matching t c items = (found, rest) \<Longrightarrow> kind t = None \<Longrightarrow> keys_of kind rest = keys_of kind items"
  by (induction items arbitrary: found rest) (auto simp: keys_of_Cons key_of_def split: if_splits prod.splits)

lemma remove_first_keys:
  assumes "remove_first_matching t c items = (found, rest)" "kind t = Some k" "distinct (keys_of kind items)"
  shows "if found then keys_of kind rest = filter (\<lambda>x. x \<noteq> (k, c)) (keys_of kind items) else rest = items"
  using assms
proof (induction items arbitrary: found rest)
  case (Cons x items)
  show ?case
  proof (cases "ri_type x = t \<and> ri_call_id x = Some c")
    case True
    then have key: "key_of kind x = Some (k, c)" using Cons.prems(2) by (simp add: key_of_def)
    then have "(k, c) \<notin> set (keys_of kind items)" using Cons.prems(3) by (simp add: keys_of_Cons)
    then have "filter (\<lambda>x. x \<noteq> (k, c)) (keys_of kind items) = keys_of kind items"
      by (intro filter_True) auto
    then show ?thesis using True Cons.prems(1) key by (auto simp: keys_of_Cons)
  next
    case False
    then obtain rest' where r: "remove_first_matching t c items = (found, rest')" "rest = x # rest'"
      using Cons.prems(1) by (auto split: prod.splits)
    have "distinct (keys_of kind items)" using Cons.prems(3) by (auto simp: keys_of_Cons)
    note IH = Cons.IH [OF r(1) Cons.prems(2) this]
    show ?thesis
    proof (cases found)
      case found: True
      have "(k, c) \<in> set (keys_of kind items)"
        using r(1) found Cons.prems(2)
        by (induction items arbitrary: rest') (auto simp: keys_of_Cons key_of_def split: if_splits prod.splits)
      then have "key_of kind x \<noteq> Some (k, c)" using Cons.prems(3) by (auto simp: keys_of_Cons split: option.splits)
      then show ?thesis using IH found r(2) by (auto simp: keys_of_Cons split: option.splits)
    qed (use IH r(2) in simp)
  qed
qed simp

lemma remove_first_found:
  "fst (remove_first_matching t c items) \<longleftrightarrow> has_item t c items"
  by (induction items) (auto simp: has_item_def split: prod.splits)

lemma key_of_types:
  "key_of call_kind item = Some (k, c) \<Longrightarrow> ri_call_id item = Some c
     \<and> (ri_type item = FunctionCall \<and> k = FunctionKind \<or> ri_type item = LocalShellCall \<and> k = FunctionKind
       \<or> ri_type item = ToolSearchCall \<and> k = SearchKind \<or> ri_type item = CustomToolCall \<and> k = CustomKind)"
  "key_of output_kind item = Some (k, c) \<Longrightarrow> ri_call_id item = Some c
     \<and> (ri_type item = FunctionCallOutput \<and> k = FunctionKind \<or> ri_type item = ToolSearchOutput \<and> k = SearchKind
       \<or> ri_type item = CustomToolCallOutput \<and> k = CustomKind)"
  by (cases "ri_type item"; auto simp: key_of_item)+

text \<open>Removing a call takes the output with its key out, and removing an output the call.\<close>

definition drops :: "(item_type \<Rightarrow> pair_kind option) \<Rightarrow> (item_type \<Rightarrow> pair_kind option) \<Rightarrow> pair_kind \<times> pystr \<Rightarrow>
    response_item list \<Rightarrow> response_item list \<Rightarrow> bool" where
  "drops kind other key items rest \<longleftrightarrow> set rest \<subseteq> set items \<and> keys_of other rest = keys_of other items
     \<and> keys_of kind rest = filter (\<lambda>x. x \<noteq> key) (keys_of kind items)"

lemma remove_first_drops:
  assumes "kind t = Some k" "other t = None" "distinct (keys_of kind items)"
    "has_item t c items \<or> (k, c) \<notin> set (keys_of kind items)"
  shows "drops kind other (k, c) items (snd (remove_first_matching t c items))"
proof -
  obtain found rest where r: "remove_first_matching t c items = (found, rest)" by fastforce
  have "filter (\<lambda>x. x \<noteq> (k, c)) (keys_of kind items) = keys_of kind items" if "\<not> found"
    using assms(4) that remove_first_found [of t c items] r by (intro filter_True) auto
  then show ?thesis
    using remove_first_subset [OF r] remove_first_other [where kind = other, OF r assms(2)] remove_first_keys [OF r assms(1,3)] r
    by (auto simp: drops_def split: if_splits)
qed

lemma has_call:
  "has_item FunctionCall c items \<or> has_item LocalShellCall c items \<longleftrightarrow> (FunctionKind, c) \<in> set (keys_of call_kind items)"
  "has_item ToolSearchCall c items \<longleftrightarrow> (SearchKind, c) \<in> set (keys_of call_kind items)"
  "has_item CustomToolCall c items \<longleftrightarrow> (CustomKind, c) \<in> set (keys_of call_kind items)"
  by (auto simp: has_item_def list_ex_iff keys_of_set key_of_item call_key_type)

lemma remove_for_call:
  assumes "key_of call_kind item = Some (k, c)" "distinct (keys_of output_kind items)"
  shows "drops output_kind call_kind (k, c) items (remove_corresponding_for items item)"
  using key_of_types(1) [OF assms(1)]
proof (elim conjE disjE)
qed (auto simp: remove_corresponding_for_def has_output assms(2) intro!: remove_first_drops)

lemma remove_for_output:
  assumes "key_of output_kind item = Some (k, c)" "distinct (keys_of call_kind items)"
  shows "drops call_kind output_kind (k, c) items (remove_corresponding_for items item)"
proof -
  obtain found rest where f: "remove_first_matching FunctionCall c items = (found, rest)" by fastforce
  have fun_kind: "drops call_kind output_kind (FunctionKind, c) items
      (if found then rest else snd (remove_first_matching LocalShellCall c rest))"
  proof (cases found)
    case True
    then have "has_item FunctionCall c items" using remove_first_found [of FunctionCall c items] f by simp
    then show ?thesis
      using remove_first_drops [of call_kind FunctionCall FunctionKind output_kind items c] f assms(2) True by simp
  next
    case False
    then have "rest = items" using remove_first_keys [OF f, of call_kind FunctionKind] assms(2) by simp
    moreover have "\<not> has_item FunctionCall c items" using remove_first_found [of FunctionCall c items] f False by simp
    ultimately show ?thesis
      using remove_first_drops [of call_kind LocalShellCall FunctionKind output_kind items c] assms(2) has_call(1) [of c items] False
      by auto
  qed
  from key_of_types(2) [OF assms(1)] show ?thesis
  proof (elim conjE disjE)
    assume "ri_call_id item = Some c" "ri_type item = FunctionCallOutput" "k = FunctionKind"
    with fun_kind f show ?thesis by (cases found) (simp_all add: remove_corresponding_for_def)
  qed (auto simp: remove_corresponding_for_def has_call assms(2) intro!: remove_first_drops)
qed

lemma remove_for_neither:
  "key_of call_kind item = None \<Longrightarrow> key_of output_kind item = None \<Longrightarrow> remove_corresponding_for items item = items"
  by (cases "ri_type item"; cases "ri_call_id item") (simp_all add: key_of_def remove_corresponding_for_def)

lemma justified_keys: "justified_by ys x \<Longrightarrow> (\<And>k. key_of output_kind x = Some k \<Longrightarrow> k \<in> set (keys_of call_kind ys) \<Longrightarrow> k \<in> set (keys_of call_kind zs))
    \<Longrightarrow> justified_by zs x"
  by (auto simp: justified_by_def split: option.splits)

lemma remove_keeps_paired:
  assumes "well_paired (xs @ item # ys)"
  shows "well_paired (remove_corresponding_for (xs @ ys) item)"
proof -
  let ?items = "xs @ item # ys" and ?rest = "xs @ ys"
  let ?r = "remove_corresponding_for ?rest item"
  note paired = assms [unfolded well_paired_def calls_answered_def outputs_justified_iff]
  have both: "key_of call_kind item = None \<or> key_of output_kind item = None"
    by (cases "ri_type item") (simp_all add: key_of_def)
  have keys: "set (keys_of kind ?items) = (case key_of kind item of None \<Rightarrow> {} | Some k \<Rightarrow> {k}) \<union> set (keys_of kind ?rest)" for kind
    by (auto simp: keys_of_Cons split: option.splits)
  have dist: "distinct (keys_of kind ?rest) \<and> (\<forall>k. key_of kind item = Some k \<longrightarrow> k \<notin> set (keys_of kind ?rest))"
    if "distinct (keys_of kind ?items)" for kind
    using that by (auto simp: keys_of_Cons split: option.splits)
  consider (call) k where "key_of call_kind item = Some k" | (out) k where "key_of output_kind item = Some k"
    | (neither) "key_of call_kind item = None" "key_of output_kind item = None" by fastforce
  then show ?thesis
  proof cases
    case (call k)
    then have d: "drops output_kind call_kind k ?rest ?r" using remove_for_call dist paired by (metis prod.collapse)
    have none: "key_of output_kind item = None" using both call by simp
    have "justified_by ?r x" if x: "x \<in> set ?r" for x
    proof (rule justified_keys [of ?items])
      show "justified_by ?items x" using paired d x by (auto simp: drops_def)
      fix k' assume k': "key_of output_kind x = Some k'" "k' \<in> set (keys_of call_kind ?items)"
      then have "k' \<in> set (keys_of output_kind ?r)" using x by (auto simp: keys_of_set)
      then have "k' \<noteq> k" using d by (auto simp: drops_def)
      then show "k' \<in> set (keys_of call_kind ?r)" using k' keys [of call_kind] call d by (auto simp: drops_def)
    qed
    then show ?thesis
      using d paired keys [of call_kind] keys [of output_kind] dist [of call_kind] dist [of output_kind] call none
      by (auto simp: well_paired_def calls_answered_def outputs_justified_iff drops_def)
  next
    case (out k)
    then have d: "drops call_kind output_kind k ?rest ?r" using remove_for_output dist paired by (metis prod.collapse)
    have none: "key_of call_kind item = None" using both out by simp
    have "justified_by ?r x" if x: "x \<in> set ?r" for x
    proof (rule justified_keys [of ?items])
      show "justified_by ?items x" using paired d x by (auto simp: drops_def)
      fix k' assume k': "key_of output_kind x = Some k'" "k' \<in> set (keys_of call_kind ?items)"
      then have "k' \<in> set (keys_of output_kind ?rest)" using x d by (auto simp: keys_of_set drops_def)
      then have "k' \<noteq> k" using out paired dist [of output_kind] by auto
      then show "k' \<in> set (keys_of call_kind ?r)" using k' keys [of call_kind] none d by (auto simp: drops_def)
    qed
    then show ?thesis
      using d paired keys [of call_kind] keys [of output_kind] dist [of call_kind] dist [of output_kind] out none
      by (auto simp: well_paired_def calls_answered_def outputs_justified_iff drops_def)
  next
    case neither
    then have "keys_of kind ?items = keys_of kind ?rest" if "kind \<in> {call_kind, output_kind}" for kind
      using that by (auto simp: keys_of_Cons)
    then have "keys_of call_kind ?items = keys_of call_kind ?rest" "keys_of output_kind ?items = keys_of output_kind ?rest"
      by blast+
    moreover from this have "justified_by ?items = justified_by ?rest" by (intro justified_by_cong) simp
    ultimately show ?thesis
      using paired by (auto simp: well_paired_def calls_answered_def outputs_justified_iff remove_for_neither [OF neither])
  qed
qed

end
