(* ===== verification/TokenEstimate.thy ===== *)
theory TokenEstimate
  imports History
begin

text \<open>
  How many tokens a history takes, as \<open>pycodex/core/context_manager/history.py\<close> estimates it without asking the
  model: from the bytes of the JSON of an item, with images and encrypted content counted by their size instead of
  their encoding, in saturating 64-bit arithmetic. The token counters the server reports are those of
  \<open>protocol/protocol.py\<close>.
\<close>

section \<open>Saturating arithmetic\<close>

definition I64_MAX :: int where
  "I64_MAX = 2 ^ 63 - 1"

definition clamp_i64 :: "int \<Rightarrow> int" where
  "clamp_i64 n = min (max n 0) I64_MAX"

definition saturating_add_i64 :: "int \<Rightarrow> int \<Rightarrow> int" where
  "saturating_add_i64 a b = min (clamp_i64 a + clamp_i64 b) I64_MAX"

definition saturating_mul_i64 :: "int \<Rightarrow> int \<Rightarrow> int" where
  "saturating_mul_i64 a b = min (clamp_i64 a * clamp_i64 b) I64_MAX"

section \<open>Images\<close>

definition estimate_reasoning_length :: "int \<Rightarrow> int" where
  "estimate_reasoning_length encoded_len = max (max encoded_len 0 * 3 div 4 - 650) 0"

definition RESIZED_IMAGE_BYTES_ESTIMATE :: int where
  "RESIZED_IMAGE_BYTES_ESTIMATE = 7373"

definition ORIGINAL_IMAGE_PATCH_SIZE :: int where
  "ORIGINAL_IMAGE_PATCH_SIZE = 32"

definition ORIGINAL_IMAGE_MAX_PATCHES :: int where
  "ORIGINAL_IMAGE_MAX_PATCHES = 10000"

definition parse_base64_image_data_url :: "context_env \<Rightarrow> pystr \<Rightarrow> pystr option" where
  "parse_base64_image_data_url env url =
     (if ce_lower env (take 5 url) \<noteq> lit ''data:'' then None
      else case str_find url (lit '','') of
        None \<Rightarrow> None
      | Some comma \<Rightarrow>
          let metadata = take comma url; payload = drop (Suc comma) url;
              parts = split_on 59 (drop 5 metadata) in
          if ce_lower env (take 6 (hd parts)) \<noteq> lit ''image/'' then None
          else if \<not> list_ex (\<lambda>part. ce_lower env part = lit ''base64'') (tl parts) then None
          else Some payload)"

definition estimate_encrypted_output_length :: "int \<Rightarrow> int" where
  "estimate_encrypted_output_length encoded_len =
     max encoded_len 0 * 9 div 16 + (if max encoded_len 0 * 9 mod 16 \<noteq> 0 then 1 else 0)"

text \<open>\<open>int.from_bytes\<close> and slices of bytes.\<close>

definition big_endian :: "int list \<Rightarrow> int" where
  "big_endian bs = foldl (\<lambda>n b. n * 256 + b) 0 bs"

definition little_endian :: "int list \<Rightarrow> int" where
  "little_endian bs = big_endian (rev bs)"

definition slice :: "nat \<Rightarrow> nat \<Rightarrow> 'a list \<Rightarrow> 'a list" where
  "slice i j xs = take (j - i) (drop i xs)"

definition png_dimensions :: "int list \<Rightarrow> (int \<times> int) option" where
  "png_dimensions bs =
     (if length bs < 24 \<or> take 8 bs \<noteq> [137, 80, 78, 71, 13, 10, 26, 10] \<or> slice 12 16 bs \<noteq> lit ''IHDR'' then None
      else Some (big_endian (slice 16 20 bs), big_endian (slice 20 24 bs)))"

definition webp_chunk_dimensions :: "int list \<Rightarrow> int list \<Rightarrow> (int \<times> int) option" where
  "webp_chunk_dimensions chunk_type chunk =
     (if chunk_type = lit ''VP8X'' \<and> 10 \<le> length chunk
      then Some (little_endian (slice 4 7 chunk) + 1, little_endian (slice 7 10 chunk) + 1)
      else if chunk_type = lit ''VP8L'' \<and> 5 \<le> length chunk \<and> chunk ! 0 = 47
      then let bits = little_endian (slice 1 5 chunk) in
        Some (bits mod 16384 + 1, bits div 16384 mod 16384 + 1)
      else if chunk_type = lit ''VP8 '' \<and> 10 \<le> length chunk \<and> slice 3 6 chunk = [157, 1, 42]
      then Some (little_endian (slice 6 8 chunk) mod 16384, little_endian (slice 8 10 chunk) mod 16384)
      else None)"

text \<open>The loop over the chunks: every chunk moves the offset on by at least its header.\<close>

function webp_chunks :: "int list \<Rightarrow> nat \<Rightarrow> (int \<times> int) option" where
  "webp_chunks bs offset =
     (if \<not> offset + 8 \<le> length bs then None
      else let chunk_size = nat (little_endian (slice (offset + 4) (offset + 8) bs));
               data_start = offset + 8; data_end = data_start + chunk_size in
        if data_end > length bs then None
        else case webp_chunk_dimensions (slice offset (offset + 4) bs) (slice data_start data_end bs) of
          Some d \<Rightarrow> Some d
        | None \<Rightarrow> webp_chunks bs (data_end + chunk_size mod 2))"
  by pat_completeness auto

termination
  by (relation "measure (\<lambda>(bs, offset). length bs + 1 - offset)") auto

declare webp_chunks.simps [simp del]

definition webp_dimensions :: "int list \<Rightarrow> (int \<times> int) option" where
  "webp_dimensions bs =
     (if length bs < 20 \<or> take 4 bs \<noteq> lit ''RIFF'' \<or> slice 8 12 bs \<noteq> lit ''WEBP'' then None else webp_chunks bs 12)"

definition estimate_original_image_bytes :: "context_env \<Rightarrow> pystr \<Rightarrow> int option" where
  "estimate_original_image_bytes env url =
     (case parse_base64_image_data_url env url of
        None \<Rightarrow> None
      | Some payload \<Rightarrow>
          (case ce_b64decode env payload of
             None \<Rightarrow> None
           | Some bs \<Rightarrow>
               (case (case png_dimensions bs of None \<Rightarrow> webp_dimensions bs | Some d \<Rightarrow> Some d) of
                  None \<Rightarrow> None
                | Some (width, height) \<Rightarrow>
                    if width \<le> 0 \<or> height \<le> 0 then None
                    else let patches_wide = (width + ORIGINAL_IMAGE_PATCH_SIZE - 1) div ORIGINAL_IMAGE_PATCH_SIZE;
                             patches_high = (height + ORIGINAL_IMAGE_PATCH_SIZE - 1) div ORIGINAL_IMAGE_PATCH_SIZE
                      in Some (saturating_mul_i64 (min (patches_wide * patches_high) ORIGINAL_IMAGE_MAX_PATCHES) 4))))"

text \<open>An image adds its payload to the bytes that do not count and its replacement to those that do.\<close>

definition accumulate_image :: "context_env \<Rightarrow> pystr \<Rightarrow> image_detail option \<Rightarrow> int \<times> int \<Rightarrow> (trunc_exn, int \<times> int) result" where
  "accumulate_image env url detail acc =
     (case parse_base64_image_data_url env url of
        None \<Rightarrow> Inr acc
      | Some payload \<Rightarrow>
          bindE (encode_len payload) (\<lambda>n.
            let replacement = (if detail = Some OriginalDetail then estimate_original_image_bytes env url else None) in
            Inr (saturating_add_i64 (fst acc) (int n),
                 saturating_add_i64 (snd acc)
                   (case replacement of None \<Rightarrow> RESIZED_IMAGE_BYTES_ESTIMATE | Some r \<Rightarrow> r))))"

fun message_images :: "context_env \<Rightarrow> content_item list \<Rightarrow> int \<times> int \<Rightarrow> (trunc_exn, int \<times> int) result" where
  "message_images env [] acc = Inr acc"
| "message_images env (InputImage url d # items) acc = bindE (accumulate_image env url d acc) (message_images env items)"
| "message_images env (_ # items) acc = message_images env items acc"

fun output_images :: "context_env \<Rightarrow> output_item list \<Rightarrow> int \<times> int \<Rightarrow> (trunc_exn, int \<times> int) result" where
  "output_images env [] acc = Inr acc"
| "output_images env (OutImage url d # items) acc = bindE (accumulate_image env url d acc) (output_images env items)"
| "output_images env (_ # items) acc = output_images env items acc"

definition output_content_items :: "response_item \<Rightarrow> output_item list option" where
  "output_content_items item =
     (case ri_output item of
        Some (Payload p) \<Rightarrow> (case op_body p of ItemsBody items \<Rightarrow> Some items | TextBody _ \<Rightarrow> None)
      | _ \<Rightarrow> None)"

definition image_estimate_adjustment :: "context_env \<Rightarrow> response_item \<Rightarrow> (trunc_exn, int \<times> int) result" where
  "image_estimate_adjustment env item =
     (if ri_type item = MessageItem then message_images env (ri_content item) (0, 0)
      else if ri_type item = FunctionCallOutput \<or> ri_type item = CustomToolCallOutput then
        (case output_content_items item of None \<Rightarrow> Inr (0, 0) | Some items \<Rightarrow> output_images env items (0, 0))
      else Inr (0, 0))"

fun encrypted_outputs :: "output_item list \<Rightarrow> int \<times> int \<Rightarrow> (trunc_exn, int \<times> int) result" where
  "encrypted_outputs [] acc = Inr acc"
| "encrypted_outputs (OutEncrypted e # items) acc =
     bindE (encode_len e) (\<lambda>n. encrypted_outputs items
       (saturating_add_i64 (fst acc) (int n), saturating_add_i64 (snd acc) (estimate_encrypted_output_length (int n))))"
| "encrypted_outputs (_ # items) acc = encrypted_outputs items acc"

definition encrypted_estimate_adjustment :: "response_item \<Rightarrow> (trunc_exn, int \<times> int) result" where
  "encrypted_estimate_adjustment item =
     (if ri_type item \<noteq> FunctionCallOutput then Inr (0, 0)
      else case output_content_items item of None \<Rightarrow> Inr (0, 0) | Some items \<Rightarrow> encrypted_outputs items (0, 0))"

section \<open>Items and histories\<close>

definition estimate_response_item_model_visible_bytes :: "context_env \<Rightarrow> response_item \<Rightarrow> (trunc_exn, int) result" where
  "estimate_response_item_model_visible_bytes env item =
     (if ri_type item \<in> {ReasoningItem, CompactionItem, ContextCompaction} \<and> ri_encrypted item \<noteq> None
      then Inr (estimate_reasoning_length (int (length (the (ri_encrypted item)))))
      else bindE (encode_len (ce_dumps env (item_to_mapping item))) (\<lambda>raw.
        bindE (image_estimate_adjustment env item) (\<lambda>(image_payload, image_replacement).
        bindE (encrypted_estimate_adjustment item) (\<lambda>(encrypted_payload, encrypted_replacement).
        Inr (max (int raw - image_payload + image_replacement - encrypted_payload + encrypted_replacement) 0)))))"

definition estimate_item_token_count :: "context_env \<Rightarrow> response_item \<Rightarrow> (trunc_exn, int) result" where
  "estimate_item_token_count env item =
     bindE (estimate_response_item_model_visible_bytes env item) (\<lambda>n.
       Inr (clamp_i64 (int (approx_tokens_from_byte_count (nat n)))))"

text \<open>The loops that add up an estimate over the items of a history.\<close>

fun add_estimates :: "(response_item \<Rightarrow> (trunc_exn, int) result) \<Rightarrow> int \<Rightarrow> response_item list \<Rightarrow> (trunc_exn, int) result" where
  "add_estimates f acc [] = Inr acc"
| "add_estimates f acc (item # items) = bindE (f item) (\<lambda>n. add_estimates f (saturating_add_i64 acc n) items)"

section \<open>Counters of the server\<close>

record token_usage =
  tu_input :: int
  tu_cached_input :: int
  tu_output :: int
  tu_reasoning_output :: int
  tu_total :: int

definition zero_usage :: token_usage where
  "zero_usage = \<lparr>tu_input = 0, tu_cached_input = 0, tu_output = 0, tu_reasoning_output = 0, tu_total = 0\<rparr>"

definition usage_cached_input :: "token_usage \<Rightarrow> int" where
  "usage_cached_input u = max (tu_cached_input u) 0"

definition usage_non_cached_input :: "token_usage \<Rightarrow> int" where
  "usage_non_cached_input u = max (tu_input u - usage_cached_input u) 0"

definition usage_blended_total :: "token_usage \<Rightarrow> int" where
  "usage_blended_total u = max (usage_non_cached_input u + max (tu_output u) 0) 0"

definition usage_add :: "token_usage \<Rightarrow> token_usage \<Rightarrow> token_usage" where
  "usage_add a b =
     \<lparr>tu_input = tu_input a + tu_input b, tu_cached_input = tu_cached_input a + tu_cached_input b,
      tu_output = tu_output a + tu_output b, tu_reasoning_output = tu_reasoning_output a + tu_reasoning_output b,
      tu_total = tu_total a + tu_total b\<rparr>"

record token_usage_info =
  ti_total :: token_usage
  ti_last :: token_usage
  ti_window :: "int option"

definition usage_new_or_append ::
    "token_usage_info option \<Rightarrow> token_usage option \<Rightarrow> int option \<Rightarrow> token_usage_info option" where
  "usage_new_or_append info latest window =
     (if info = None \<and> latest = None then None
      else
        let current = (case info of None \<Rightarrow> \<lparr>ti_total = zero_usage, ti_last = zero_usage, ti_window = window\<rparr> | Some i \<Rightarrow> i);
            current = (case latest of None \<Rightarrow> current
              | Some u \<Rightarrow> \<lparr>ti_total = usage_add (ti_total current) u, ti_last = u, ti_window = ti_window current\<rparr>)
        in Some (case window of None \<Rightarrow> current | Some w \<Rightarrow> current\<lparr>ti_window := Some w\<rparr>))"

definition usage_full_context_window :: "int \<Rightarrow> token_usage_info" where
  "usage_full_context_window w =
     \<lparr>ti_total = zero_usage\<lparr>tu_total := w\<rparr>, ti_last = zero_usage\<lparr>tu_total := w\<rparr>, ti_window = Some w\<rparr>"

definition usage_fill_to_context_window :: "token_usage_info \<Rightarrow> int \<Rightarrow> token_usage_info" where
  "usage_fill_to_context_window info w =
     (let delta = max (w - tu_total (ti_total info)) 0 in
      \<lparr>ti_total = zero_usage\<lparr>tu_total := w\<rparr>, ti_last = zero_usage\<lparr>tu_total := delta\<rparr>, ti_window = Some w\<rparr>)"

end
