(* ===== verification/ContextManager.thy ===== *)
theory ContextManager
  imports TokenEstimate
begin

text \<open>
  \<open>pycodex/core/context_manager/history.py\<close>: the transcript of a thread and the operations on it, with the parsing
  of turn items of \<open>core/event_mapping.py\<close> it relies on. A method that changes the manager returns it changed; an
  exception leaves it as it was.
\<close>

section \<open>Recording items\<close>

datatype history_exn = TruncationFailed trunc_exn | ModelFailed model_exn

definition lift_trunc :: "(trunc_exn, 'a) result \<Rightarrow> (history_exn, 'a) result" where
  "lift_trunc r = (case r of Inl e \<Rightarrow> Inl (TruncationFailed e) | Inr a \<Rightarrow> Inr a)"

definition lift_model :: "(model_exn, 'a) result \<Rightarrow> (history_exn, 'a) result" where
  "lift_model r = (case r of Inl e \<Rightarrow> Inl (ModelFailed e) | Inr a \<Rightarrow> Inr a)"

definition is_api_message :: "response_item \<Rightarrow> bool" where
  "is_api_message item \<longleftrightarrow>
     (if ri_type item = MessageItem then ri_role item \<noteq> Some (lit ''system'')
      else ri_type item \<in> {FunctionCallOutput, FunctionCall, ToolSearchCall, ToolSearchOutput, CustomToolCall,
        CustomToolCallOutput, LocalShellCall, ReasoningItem, WebSearchCall, ImageGenerationCall, CompactionItem,
        ContextCompaction})"

definition is_model_generated_item :: "response_item \<Rightarrow> bool" where
  "is_model_generated_item item \<longleftrightarrow>
     (if ri_type item = MessageItem then ri_role item = Some (lit ''assistant'')
      else ri_type item \<in> {ReasoningItem, FunctionCall, ToolSearchCall, WebSearchCall, ImageGenerationCall,
        CustomToolCall, LocalShellCall, CompactionItem, ContextCompaction})"

definition is_codex_generated_item :: "response_item \<Rightarrow> bool" where
  "is_codex_generated_item item \<longleftrightarrow>
     (if ri_type item = MessageItem then ri_role item = Some (lit ''developer'')
      else ri_type item \<in> {FunctionCallOutput, ToolSearchOutput, CustomToolCallOutput})"

text \<open>
  \<open>math.ceil(limit * 1.2)\<close> in binary floating point with a mantissa of 53 bits: the integer and the product are
  rounded to the nearest, ties to even, and \<open>1.2\<close> is \<open>5404319552844595 / 2 ^ 52\<close>.
\<close>

fun bit_length :: "nat \<Rightarrow> nat" where
  "bit_length n = (if n = 0 then 0 else Suc (bit_length (n div 2)))"

declare bit_length.simps [simp del]

definition round_to_double :: "nat \<Rightarrow> nat" where
  "round_to_double n =
     (let k = bit_length n - 53; q = n div 2 ^ k; r = n mod 2 ^ k in
      (if 2 * r > 2 ^ k \<or> 2 * r = 2 ^ k \<and> odd q then q + 1 else q) * 2 ^ k)"

definition scaled_limit :: "int \<Rightarrow> int" where
  "scaled_limit limit =
     (if limit \<le> 0 then 1
      else max 1 (int ((round_to_double (round_to_double (nat limit) * 5404319552844595) + 2 ^ 52 - 1) div 2 ^ 52)))"

definition default_truncation_policy :: truncation_policy where
  "default_truncation_policy = \<lparr>tp_mode = TokensMode, tp_limit = 10000\<rparr>"

definition scaled_truncation_policy :: "truncation_policy \<Rightarrow> (history_exn, truncation_policy) result" where
  "scaled_truncation_policy policy =
     (let limit = scaled_limit (tp_limit policy) in
      if limit > I64_MAX then Inl (ModelFailed ValueExn) else Inr (policy\<lparr>tp_limit := limit\<rparr>))"

definition process_history_item :: "truncation_policy \<Rightarrow> response_item \<Rightarrow> (history_exn, response_item) result" where
  "process_history_item policy item =
     (if ri_type item \<noteq> FunctionCallOutput \<and> ri_type item \<noteq> CustomToolCallOutput then Inr item
      else case ri_output item of
        None \<Rightarrow> Inr item
      | Some out \<Rightarrow>
          bindE (scaled_truncation_policy policy) (\<lambda>scaled.
          bindE (case out of Payload p \<Rightarrow> Inr p | RawOutput j \<Rightarrow> lift_model (payload_from_value j)) (\<lambda>p.
          bindE (lift_trunc (truncate_function_output_payload p scaled)) (\<lambda>p'.
          Inr (item\<lparr>ri_output := Some (Payload p')\<rparr>)))))"

definition process_history_items :: "truncation_policy option \<Rightarrow> response_item list \<Rightarrow> (history_exn, response_item list) result" where
  "process_history_items policy items =
     mapE (process_history_item (case policy of None \<Rightarrow> default_truncation_policy | Some p \<Rightarrow> p)) (filter is_api_message items)"

section \<open>Turns\<close>

text \<open>\<open>InterAgentCommunication.from_message_content\<close>\<close>

definition inter_agent_message :: "context_env \<Rightarrow> content_item list \<Rightarrow> inter_agent_communication option" where
  "inter_agent_message env content =
     (case content of
        [InputText s] \<Rightarrow> Option.bind (ce_loads env s) inter_agent_from_mapping
      | [OutputText s] \<Rightarrow> Option.bind (ce_loads env s) inter_agent_from_mapping
      | _ \<Rightarrow> None)"

definition is_user_turn_boundary :: "context_env \<Rightarrow> response_item \<Rightarrow> bool" where
  "is_user_turn_boundary env item =
     (if ri_type item \<noteq> MessageItem then False
      else if ri_role item = Some (lit ''user'') then \<not> is_contextual_user_message_content env (ri_content item)
      else if ri_role item = Some (lit ''assistant'') then inter_agent_message env (ri_content item) \<noteq> None
      else False)"

text \<open>The positions in a list where a predicate holds, and the last of them.\<close>

definition positions :: "('a \<Rightarrow> bool) \<Rightarrow> 'a list \<Rightarrow> nat list" where
  "positions P xs = filter (\<lambda>i. P (xs ! i)) [0..<length xs]"

definition user_message_positions :: "context_env \<Rightarrow> response_item list \<Rightarrow> nat list" where
  "user_message_positions env items = positions (is_user_turn_boundary env) items"

definition last_index_matching :: "('a \<Rightarrow> bool) \<Rightarrow> 'a list \<Rightarrow> nat option" where
  "last_index_matching P xs = find (\<lambda>i. P (xs ! i)) (rev [0..<length xs])"

section \<open>The manager\<close>

record context_manager =
  cm_items :: "response_item list"
  cm_version :: int
  cm_token_info :: "token_usage_info option"
  cm_reference :: "turn_context_item option"

definition context_manager_new :: context_manager where
  "context_manager_new = \<lparr>cm_items = [], cm_version = 0, cm_token_info = None, cm_reference = None\<rparr>"

definition from_items :: "response_item list \<Rightarrow> context_manager" where
  "from_items items = context_manager_new\<lparr>cm_items := items\<rparr>"

definition record_items :: "truncation_policy option \<Rightarrow> response_item list \<Rightarrow> context_manager \<Rightarrow> (history_exn, context_manager) result" where
  "record_items policy items m =
     bindE (process_history_items policy items) (\<lambda>processed. Inr (m\<lparr>cm_items := cm_items m @ processed\<rparr>))"

definition into_raw_items :: "context_manager \<Rightarrow> response_item list \<times> context_manager" where
  "into_raw_items m = (cm_items m, m\<lparr>cm_items := []\<rparr>)"

definition set_token_info :: "token_usage_info option \<Rightarrow> context_manager \<Rightarrow> context_manager" where
  "set_token_info info m = m\<lparr>cm_token_info := info\<rparr>"

definition set_token_usage_full :: "int \<Rightarrow> context_manager \<Rightarrow> context_manager" where
  "set_token_usage_full window m =
     (let w = clamp_i64 window in
      m\<lparr>cm_token_info := Some (case cm_token_info m of
          None \<Rightarrow> usage_full_context_window w
        | Some info \<Rightarrow> usage_fill_to_context_window info w)\<rparr>)"

definition update_token_info :: "token_usage \<Rightarrow> int option \<Rightarrow> context_manager \<Rightarrow> context_manager" where
  "update_token_info usage window m =
     m\<lparr>cm_token_info := usage_new_or_append (cm_token_info m) (Some usage) window\<rparr>"

definition set_reference_context_item :: "turn_context_item option \<Rightarrow> context_manager \<Rightarrow> context_manager" where
  "set_reference_context_item item m = m\<lparr>cm_reference := item\<rparr>"

definition replace_items :: "response_item list \<Rightarrow> context_manager \<Rightarrow> context_manager" where
  "replace_items items m = m\<lparr>cm_items := items, cm_version := saturating_add_i64 (cm_version m) 1\<rparr>"

definition normalize_history :: "pystr list option \<Rightarrow> context_manager \<Rightarrow> context_manager" where
  "normalize_history modalities m =
     m\<lparr>cm_items := strip_images_when_unsupported modalities (normalize_call_outputs (cm_items m))\<rparr>"

definition for_prompt :: "pystr list option \<Rightarrow> context_manager \<Rightarrow> response_item list" where
  "for_prompt modalities m = strip_images_when_unsupported modalities (normalize_call_outputs (cm_items m))"

definition remove_first_item :: "context_manager \<Rightarrow> context_manager" where
  "remove_first_item m =
     (case cm_items m of [] \<Rightarrow> m | removed # rest \<Rightarrow> m\<lparr>cm_items := remove_corresponding_for rest removed\<rparr>)"

definition remove_last_item :: "context_manager \<Rightarrow> bool \<times> context_manager" where
  "remove_last_item m =
     (if cm_items m = [] then (False, m)
      else (True, m\<lparr>cm_items := remove_corresponding_for (butlast (cm_items m)) (last (cm_items m)),
        cm_version := saturating_add_i64 (cm_version m) 1\<rparr>))"

text \<open>
  The loop of \<open>trim_pre_turn_context_updates\<close>: the cut and whether the reference context is forgotten; the
  items below the cut are looked at from the cut down.
\<close>

fun trim_updates :: "context_env \<Rightarrow> response_item list \<Rightarrow> nat \<Rightarrow> nat \<Rightarrow> bool \<Rightarrow> nat \<times> bool" where
  "trim_updates env items first 0 forget = (0, forget)"
| "trim_updates env items first (Suc cut_idx) forget =
     (if \<not> first < Suc cut_idx then (Suc cut_idx, forget)
      else let item = items ! cut_idx in
        if ri_type item = MessageItem \<and> ri_role item = Some (lit ''developer'')
           \<and> is_contextual_dev_message_content env (ri_content item)
        then trim_updates env items first cut_idx
          (forget \<or> has_non_contextual_dev_message_content env (ri_content item))
        else if ri_type item = MessageItem \<and> ri_role item = Some (lit ''user'')
           \<and> is_contextual_user_message_content env (ri_content item)
        then trim_updates env items first cut_idx forget
        else (Suc cut_idx, forget))"

definition trim_pre_turn_context_updates ::
    "context_env \<Rightarrow> response_item list \<Rightarrow> int \<Rightarrow> int \<Rightarrow> context_manager \<Rightarrow> nat \<times> context_manager" where
  "trim_pre_turn_context_updates env items first cut_idx m =
     (let clip = (\<lambda>i. nat (max 0 (min i (int (length items)))));
          (cut', forget) = trim_updates env items (clip first) (clip cut_idx) False
      in (cut', if forget then m\<lparr>cm_reference := None\<rparr> else m))"

definition drop_last_n_user_turns :: "context_env \<Rightarrow> int \<Rightarrow> context_manager \<Rightarrow> context_manager" where
  "drop_last_n_user_turns env num_turns m =
     (if num_turns \<le> 0 then m
      else let snapshot = cm_items m; user_positions = user_message_positions env snapshot in
        if user_positions = [] then replace_items snapshot m
        else let first = user_positions ! 0;
                 cut_idx = (if num_turns \<ge> int (length user_positions) then first
                   else user_positions ! nat (int (length user_positions) - num_turns));
                 (cut', m') = trim_pre_turn_context_updates env snapshot (int first) (int cut_idx) m
          in replace_items (take cut' snapshot) m')"

definition has_output_image :: "output_item list \<Rightarrow> bool" where
  "has_output_image items = list_ex (\<lambda>i. case i of OutImage _ _ \<Rightarrow> True | _ \<Rightarrow> False) items"

definition replace_last_turn_images :: "context_env \<Rightarrow> pystr \<Rightarrow> context_manager \<Rightarrow> bool \<times> context_manager" where
  "replace_last_turn_images env placeholder m =
     (case last_index_matching (\<lambda>i. ri_type i = FunctionCallOutput \<or> is_user_turn_boundary env i) (cm_items m) of
        None \<Rightarrow> (False, m)
      | Some index \<Rightarrow>
          let item = cm_items m ! index in
          if ri_type item \<noteq> FunctionCallOutput then (False, m)
          else case ri_output item of
            Some (Payload p) \<Rightarrow>
              (case op_body p of
                 TextBody _ \<Rightarrow> (False, m)
               | ItemsBody items \<Rightarrow>
                   if \<not> has_output_image items then (False, m)
                   else (True, m\<lparr>
                     cm_items := (cm_items m)[index := item\<lparr>ri_output := Some (Payload
                       (payload_from_content_items (map (replace_image placeholder) items) (op_success p)))\<rparr>],
                     cm_version := saturating_add_i64 (cm_version m) 1\<rparr>))
          | _ \<Rightarrow> (False, m))"

section \<open>Estimates\<close>

definition estimate_token_count_with_base_instructions :: "context_env \<Rightarrow> pystr \<Rightarrow> context_manager \<Rightarrow> (trunc_exn, int) result" where
  "estimate_token_count_with_base_instructions env base m =
     bindE (approx_token_count base) (\<lambda>n.
     bindE (add_estimates (estimate_item_token_count env) 0 (cm_items m)) (\<lambda>items_tokens.
     Inr (saturating_add_i64 (clamp_i64 (int n)) items_tokens)))"

definition get_non_last_reasoning_items_tokens :: "context_env \<Rightarrow> context_manager \<Rightarrow> (trunc_exn, int) result" where
  "get_non_last_reasoning_items_tokens env m =
     (case last_index_matching (is_user_turn_boundary env) (cm_items m) of
        None \<Rightarrow> Inr 0
      | Some index \<Rightarrow> add_estimates (estimate_item_token_count env) 0
          (filter (\<lambda>i. ri_type i = ReasoningItem \<and> ri_encrypted i \<noteq> None) (take index (cm_items m))))"

definition items_after_last_model_generated_item :: "context_manager \<Rightarrow> response_item list" where
  "items_after_last_model_generated_item m =
     (case last_index_matching is_model_generated_item (cm_items m) of
        None \<Rightarrow> []
      | Some index \<Rightarrow> drop (Suc index) (cm_items m))"

definition get_total_token_usage :: "context_env \<Rightarrow> bool \<Rightarrow> context_manager \<Rightarrow> (trunc_exn, int) result" where
  "get_total_token_usage env server_reasoning_included m =
     (let last_tokens = (case cm_token_info m of None \<Rightarrow> 0 | Some info \<Rightarrow> tu_total (ti_last info)) in
      bindE (add_estimates (estimate_item_token_count env) 0 (items_after_last_model_generated_item m)) (\<lambda>tail.
      if server_reasoning_included then Inr (saturating_add_i64 last_tokens tail)
      else bindE (get_non_last_reasoning_items_tokens env m) (\<lambda>reasoning.
        Inr (saturating_add_i64 (saturating_add_i64 last_tokens reasoning) tail))))"

record usage_breakdown =
  ub_last_response_tokens :: int
  ub_all_history_bytes :: int
  ub_tail_tokens :: int
  ub_tail_bytes :: int

definition get_total_token_usage_breakdown :: "context_env \<Rightarrow> context_manager \<Rightarrow> (trunc_exn, usage_breakdown) result" where
  "get_total_token_usage_breakdown env m =
     (let last_usage = (case cm_token_info m of None \<Rightarrow> zero_usage | Some info \<Rightarrow> ti_last info);
          tail = items_after_last_model_generated_item m in
      bindE (add_estimates (estimate_response_item_model_visible_bytes env) 0 (cm_items m)) (\<lambda>all_bytes.
      bindE (add_estimates (estimate_item_token_count env) 0 tail) (\<lambda>tail_tokens.
      bindE (add_estimates (estimate_response_item_model_visible_bytes env) 0 tail) (\<lambda>tail_bytes.
      Inr \<lparr>ub_last_response_tokens = tu_total last_usage, ub_all_history_bytes = all_bytes,
        ub_tail_tokens = tail_tokens, ub_tail_bytes = tail_bytes\<rparr>))))"

section \<open>Positions\<close>

lemma positions_take: "k \<le> length xs \<Longrightarrow> positions P (take k xs) = filter (\<lambda>i. i < k) (positions P xs)"
proof -
  assume k: "k \<le> length xs"
  have "positions P (take k xs) = filter (\<lambda>i. P (xs ! i)) [0..<k]"
    using k by (auto simp: positions_def intro!: filter_cong)
  also have "[0..<k] = filter (\<lambda>i. i < k) [0..<length xs]"
  proof -
    have "[0..<length xs] = [0..<k] @ [k..<length xs]" using k by (metis le0 le_add_diff_inverse upt_add_eq_append)
    then show ?thesis by simp
  qed
  finally show ?thesis by (simp add: positions_def conj_commute)
qed

lemma positions_sorted: "sorted_wrt (<) (positions P xs)"
  by (simp add: positions_def sorted_wrt_filter)

lemma positions_set: "i \<in> set (positions P xs) \<longleftrightarrow> i < length xs \<and> P (xs ! i)"
  by (auto simp: positions_def)

lemma filter_less_nth:
  assumes "sorted_wrt (<) ps" "k < length ps" "c \<le> ps ! k" "\<forall>p \<in> set ps. p < ps ! k \<longrightarrow> p < (c::nat)"
  shows "filter (\<lambda>p. p < c) ps = take k ps"
proof -
  have low: "p < c" if "p \<in> set (take k ps)" for p
  proof -
    from that obtain j where "j < k" "p = ps ! j" using assms(2) by (auto simp: in_set_conv_nth)
    then show ?thesis using assms(2,4) sorted_wrt_nth_less [OF assms(1), of j k] by (metis less_trans nth_mem)
  qed
  have high: "\<not> p < c" if "p \<in> set (drop k ps)" for p
  proof -
    from that obtain j where j: "j < length ps - k" "p = ps ! (k + j)" by (auto simp: in_set_conv_nth)
    then have "k + j < length ps" using assms(2) by simp
    then show ?thesis using j assms(3) sorted_wrt_nth_less [OF assms(1), of k "k + j"] by (cases j) auto
  qed
  have "filter (\<lambda>p. p < c) (take k ps @ drop k ps) = take k ps"
    using low high by (simp only: filter_append) (simp add: filter_id_conv filter_empty_conv)
  then show ?thesis by simp
qed

section \<open>Dropping turns\<close>

definition context_update :: "context_env \<Rightarrow> response_item \<Rightarrow> bool" where
  "context_update env item \<longleftrightarrow> ri_type item = MessageItem \<and>
     (ri_role item = Some (lit ''developer'') \<and> is_contextual_dev_message_content env (ri_content item)
      \<or> ri_role item = Some (lit ''user'') \<and> is_contextual_user_message_content env (ri_content item))"

lemma context_update_no_boundary: "context_update env item \<Longrightarrow> \<not> is_user_turn_boundary env item"
  by (auto simp: context_update_def is_user_turn_boundary_def lit_inject simp del: lit.simps)

text \<open>The cut that trimming gives does not depend on what it forgets.\<close>

fun trimmed_cut :: "context_env \<Rightarrow> response_item list \<Rightarrow> nat \<Rightarrow> nat \<Rightarrow> nat" where
  "trimmed_cut env items first 0 = 0"
| "trimmed_cut env items first (Suc n) =
     (if first < Suc n \<and> context_update env (items ! n) then trimmed_cut env items first n else Suc n)"

lemma trim_updates_cut: "fst (trim_updates env items first n forget) = trimmed_cut env items first n"
  by (induction n arbitrary: forget) (auto simp: context_update_def Let_def)

lemma trimmed_cut_bounds:
  "trimmed_cut env items first n \<le> n \<and> min first n \<le> trimmed_cut env items first n
    \<and> (\<forall>i. trimmed_cut env items first n \<le> i \<and> i < n \<longrightarrow> \<not> is_user_turn_boundary env (items ! i))"
  by (induction n) (auto simp: less_Suc_eq context_update_no_boundary)

lemma trimmed_cut_take: "n \<le> k \<Longrightarrow> trimmed_cut env (take k items) first n = trimmed_cut env items first n"
  by (induction n) auto

definition turn_cut :: "context_env \<Rightarrow> int \<Rightarrow> response_item list \<Rightarrow> nat" where
  "turn_cut env n items =
     (let ps = user_message_positions env items in
      if ps = [] then length items else trimmed_cut env items (ps ! 0) (ps ! (length ps - nat n)))"

lemma positions_bound: "k < length (user_message_positions env items) \<Longrightarrow> user_message_positions env items ! k < length items"
  using nth_mem [of k "user_message_positions env items"] by (simp add: user_message_positions_def positions_set)

lemma trim_pre_turn:
  assumes "a < length items" "b < length items"
  shows "fst (trim_pre_turn_context_updates env items (int a) (int b) m) = trimmed_cut env items a b"
    and "cm_version (snd (trim_pre_turn_context_updates env items i j m)) = cm_version m"
proof -
  obtain c f where t: "trim_updates env items a b False = (c, f)" by fastforce
  then have "c = trimmed_cut env items a b" using trim_updates_cut [of env items a b False] by simp
  then show "fst (trim_pre_turn_context_updates env items (int a) (int b) m) = trimmed_cut env items a b"
    using assms t by (simp add: trim_pre_turn_context_updates_def min_def)
  show "cm_version (snd (trim_pre_turn_context_updates env items i j m)) = cm_version m"
    by (simp add: trim_pre_turn_context_updates_def Let_def split: prod.splits)
qed

lemma drop_turns_items:
  assumes "0 < n"
  shows "cm_items (drop_last_n_user_turns env n m) = take (turn_cut env n (cm_items m)) (cm_items m)
    \<and> cm_version (drop_last_n_user_turns env n m) = saturating_add_i64 (cm_version m) 1"
proof (cases "user_message_positions env (cm_items m) = []")
  case True
  then show ?thesis using assms by (simp add: drop_last_n_user_turns_def turn_cut_def Let_def replace_items_def)
next
  case False
  let ?ps = "user_message_positions env (cm_items m)"
  define cut' where "cut' = ?ps ! (length ?ps - nat n)"
  have cut: "(if n \<ge> int (length ?ps) then ?ps ! 0 else ?ps ! nat (int (length ?ps) - n)) = cut'"
    using assms by (auto simp: nat_diff_distrib cut'_def)
  have bounds: "?ps ! 0 < length (cm_items m)" "cut' < length (cm_items m)"
    using False assms unfolding cut'_def by (auto intro!: positions_bound)
  obtain c m' where t: "trim_pre_turn_context_updates env (cm_items m) (int (?ps ! 0)) (int cut') m = (c, m')" by fastforce
  then have "c = turn_cut env n (cm_items m)"
    using trim_pre_turn(1) [OF bounds, where env = env and m = m] False by (auto simp: turn_cut_def Let_def cut'_def)
  moreover have "cm_version m' = cm_version m"
    using t trim_pre_turn(2) [OF bounds, where env = env and m = m] by (metis snd_conv)
  ultimately have "c = turn_cut env n (cm_items m)" "cm_version m' = cm_version m" by blast+
  then show ?thesis
    using False assms t cut by (simp add: drop_last_n_user_turns_def Let_def replace_items_def del: nat_0_iff)
qed

lemma boundary_below_cut:
  assumes "p \<in> set (user_message_positions env items)" "p < cut'"
  shows "p < trimmed_cut env items first cut'"
proof -
  have "is_user_turn_boundary env (items ! p)" using assms(1) by (simp add: user_message_positions_def positions_set)
  then show ?thesis using assms(2) trimmed_cut_bounds [of env items first cut'] not_le by blast
qed

lemma turn_cut_nonempty:
  assumes "0 < n" "user_message_positions env items \<noteq> []"
  shows "turn_cut env n items = trimmed_cut env items (user_message_positions env items ! 0)
      (user_message_positions env items ! (length (user_message_positions env items) - nat n))"
    and "length (user_message_positions env items) - nat n < length (user_message_positions env items)"
    and "turn_cut env n items \<le> length items"
proof -
  let ?ps = "user_message_positions env items"
  show cut': "turn_cut env n items = trimmed_cut env items (?ps ! 0) (?ps ! (length ?ps - nat n))"
    using assms by (simp add: turn_cut_def Let_def)
  show k: "length ?ps - nat n < length ?ps" using assms by simp
  show "turn_cut env n items \<le> length items"
    using cut' positions_bound [OF k] trimmed_cut_bounds [of env items "?ps ! 0" "?ps ! (length ?ps - nat n)"] by simp
qed

lemma positions_after_drop:
  assumes "0 < n"
  shows "user_message_positions env (take (turn_cut env n items) items)
    = take (length (user_message_positions env items) - nat n) (user_message_positions env items)"
proof (cases "user_message_positions env items = []")
  case True
  then show ?thesis by (simp add: turn_cut_def)
next
  case False
  let ?ps = "user_message_positions env items"
  note cut = turn_cut_nonempty [OF assms False]
  have "filter (\<lambda>p. p < turn_cut env n items) ?ps = take (length ?ps - nat n) ?ps"
  proof (rule filter_less_nth [OF _ cut(2)])
    show "sorted_wrt (<) ?ps" by (simp add: user_message_positions_def positions_sorted)
    show "turn_cut env n items \<le> ?ps ! (length ?ps - nat n)" unfolding cut(1) using trimmed_cut_bounds by blast
    show "\<forall>p \<in> set ?ps. p < ?ps ! (length ?ps - nat n) \<longrightarrow> p < turn_cut env n items"
      unfolding cut(1) using boundary_below_cut by blast
  qed
  then show ?thesis using positions_take [OF cut(3)] by (simp add: user_message_positions_def)
qed

lemma drop_turns_twice:
  assumes "0 < a" "0 < b"
  shows "take (turn_cut env b (take (turn_cut env a items) items)) (take (turn_cut env a items) items)
    = take (turn_cut env (a + b) items) items"
proof (cases "user_message_positions env items = []")
  case True
  then show ?thesis by (simp add: turn_cut_def)
next
  case False
  let ?ps = "user_message_positions env items" and ?rest = "take (turn_cut env a items) items"
  let ?k = "length ?ps - nat a" and ?l = "length ?ps - nat (a + b)"
  note cut = turn_cut_nonempty [OF assms(1) False] and cut2 = turn_cut_nonempty [of "a + b", OF _ False]
  have after: "user_message_positions env ?rest = take ?k ?ps" by (rule positions_after_drop [OF assms(1)])
  have l: "?l = ?k - nat b" using assms by (simp add: nat_add_distrib)
  show ?thesis
  proof (cases "?k = 0")
    case True
    then have "turn_cut env (a + b) items = turn_cut env a items" using cut(1) cut2(1) assms l by simp
    moreover have "turn_cut env b ?rest = length ?rest" using after True by (simp add: turn_cut_def [of env b] Let_def)
    ultimately show ?thesis using cut(3) by (simp add: min_def)
  next
    case k: False
    have kl: "?l < ?k" unfolding l using k assms(2) by simp
    have "?ps ! ?l \<in> set ?ps" using cut(2) kl by simp
    moreover have "?ps ! ?l < ?ps ! ?k"
      using sorted_wrt_nth_less [OF positions_sorted kl] cut(2) by (simp add: user_message_positions_def)
    ultimately have below: "?ps ! ?l < turn_cut env a items" unfolding cut(1) by (rule boundary_below_cut)
    have "turn_cut env b ?rest = trimmed_cut env ?rest (take ?k ?ps ! 0) (take ?k ?ps ! ?l)"
      using turn_cut_nonempty(1) [OF assms(2), of env ?rest] after k False l cut(2) by (simp add: min_def)
    also have "\<dots> = trimmed_cut env items (?ps ! 0) (?ps ! ?l)"
      using k kl below by (simp add: trimmed_cut_take)
    also have "\<dots> = turn_cut env (a + b) items" using cut2(1) assms by simp
    finally have same: "turn_cut env b ?rest = turn_cut env (a + b) items" .
    have "turn_cut env (a + b) items \<le> ?ps ! ?l"
      using cut2(1) assms trimmed_cut_bounds [of env items "?ps ! 0" "?ps ! ?l"] by simp
    then show ?thesis using same below by (simp add: min_def)
  qed
qed

section \<open>Estimates\<close>

lemma clamp_range [simp]: "0 \<le> clamp_i64 n" "clamp_i64 n \<le> I64_MAX" "0 \<le> n \<Longrightarrow> n \<le> I64_MAX \<Longrightarrow> clamp_i64 n = n"
  by (auto simp: clamp_i64_def I64_MAX_def)

lemma add_estimates_sum:
  assumes "add_estimates f acc items = Inr n" "\<And>i k. f i = Inr k \<Longrightarrow> 0 \<le> k" "0 \<le> acc" "acc \<le> I64_MAX"
  shows "\<exists>ns. mapE f items = Inr ns \<and> n = min (acc + sum_list ns) I64_MAX \<and> (\<forall>k \<in> set ns. 0 \<le> k)"
  using assms(1,3,4)
proof (induction items arbitrary: acc)
  case (Cons item items)
  from Cons.prems(1) obtain k where k: "f item = Inr k" "add_estimates f (saturating_add_i64 acc k) items = Inr n"
    by (auto simp: bindE_eq_Inr)
  have k0: "0 \<le> k" using assms(2) k(1) by blast
  have acc: "saturating_add_i64 acc k = min (acc + k) I64_MAX"
    using Cons.prems(2,3) k0 by (auto simp: saturating_add_i64_def clamp_i64_def min_def max_def)
  have "0 \<le> saturating_add_i64 acc k" "saturating_add_i64 acc k \<le> I64_MAX" using acc Cons.prems(2,3) k0 by auto
  from Cons.IH [OF k(2) this] obtain ns where
    ns: "mapE f items = Inr ns" "n = min (min (acc + k) I64_MAX + sum_list ns) I64_MAX" "\<forall>k \<in> set ns. 0 \<le> k"
    unfolding acc by blast
  moreover have "0 \<le> sum_list ns" using ns(3) by (simp add: sum_list_nonneg)
  ultimately show ?case using k(1) k0 by (intro exI [of _ "k # ns"]) auto
qed auto

lemma item_tokens_nonneg: "estimate_item_token_count env item = Inr n \<Longrightarrow> 0 \<le> n"
  by (auto simp: estimate_item_token_count_def bindE_eq_Inr)

lemma original_image_bounds: "estimate_original_image_bytes env url = Some n \<Longrightarrow> 4 \<le> n \<and> n \<le> 40000"
proof -
  assume "estimate_original_image_bytes env url = Some n"
  then obtain w h :: int where wh: "0 < w" "0 < h"
    "n = saturating_mul_i64 (min ((31 + w) div 32 * ((31 + h) div 32)) 10000) 4"
    by (auto simp: estimate_original_image_bytes_def ORIGINAL_IMAGE_PATCH_SIZE_def ORIGINAL_IMAGE_MAX_PATCHES_def Let_def
        not_le split: option.splits if_splits prod.splits)
  have "1 \<le> (31 + w) div 32" "1 \<le> (31 + h) div 32" using wh(1,2) by (auto simp: pos_imp_zdiv_pos_iff int_one_le_iff_zero_less)
  then have "1 \<le> (31 + w) div 32 * ((31 + h) div 32)" by (metis mult_mono' mult_1 zero_le_one)
  then show ?thesis
    by (auto simp: wh(3) saturating_mul_i64_def clamp_i64_def I64_MAX_def min_def max_def)
qed

section \<open>Properties\<close>


text \<open>
  Taking the first or the last item out of a well-paired history, in which no call id is used twice, takes its
  counterpart out as well: the history stays well paired.
\<close>

theorem removing_an_end_keeps_the_pairs:
  assumes "well_paired (cm_items m)"
  shows "well_paired (cm_items (remove_first_item m)) \<and> well_paired (cm_items (snd (remove_last_item m)))"
proof (cases "cm_items m = []")
  case False
  have "well_paired (cm_items (remove_first_item m))"
    using assms remove_keeps_paired [of "[]"] by (auto simp: remove_first_item_def split: list.split)
  moreover have "well_paired (remove_corresponding_for (butlast (cm_items m)) (last (cm_items m)))"
    using assms remove_keeps_paired [of "butlast (cm_items m)" "last (cm_items m)" "[]"] False by simp
  ultimately show ?thesis using False by (simp add: remove_last_item_def)
qed (use assms in \<open>simp add: remove_first_item_def remove_last_item_def\<close>)

text \<open>
  Dropping the last user turns keeps a beginning of the history that holds exactly the other user turns, in their
  places, and counts as one new version; dropping turns in two goes is dropping them in one.
\<close>

theorem dropping_turns_keeps_the_others:
  assumes "0 < a" "0 < b"
  shows "prefix (cm_items (drop_last_n_user_turns env a m)) (cm_items m)
    \<and> user_message_positions env (cm_items (drop_last_n_user_turns env a m))
      = take (length (user_message_positions env (cm_items m)) - nat a) (user_message_positions env (cm_items m))
    \<and> cm_version (drop_last_n_user_turns env a m) = saturating_add_i64 (cm_version m) 1
    \<and> cm_items (drop_last_n_user_turns env b (drop_last_n_user_turns env a m)) = cm_items (drop_last_n_user_turns env (a + b) m)"
  using assms by (simp add: drop_turns_items positions_after_drop drop_turns_twice take_is_prefix del: take_take)

text \<open>
  The estimate of a history never leaves the range of a 64-bit counter: it is the sum of the estimates of the base
  instructions and of the items, cut off at the largest value, and none of them is negative.
\<close>

theorem estimate_is_the_saturated_sum:
  assumes "estimate_token_count_with_base_instructions env base m = Inr n"
  shows "0 \<le> n \<and> n \<le> I64_MAX \<and> (\<exists>b ns. approx_token_count base = Inr b
    \<and> mapE (estimate_item_token_count env) (cm_items m) = Inr ns \<and> n = min (int b + sum_list ns) I64_MAX)"
proof -
  from assms obtain b k where b: "approx_token_count base = Inr b"
    "add_estimates (estimate_item_token_count env) 0 (cm_items m) = Inr k" "n = saturating_add_i64 (clamp_i64 (int b)) k"
    by (auto simp: estimate_token_count_with_base_instructions_def bindE_eq_Inr)
  have "\<exists>ns. mapE (estimate_item_token_count env) (cm_items m) = Inr ns \<and> k = min (0 + sum_list ns) I64_MAX \<and> (\<forall>k \<in> set ns. 0 \<le> k)"
    by (rule add_estimates_sum [OF b(2)]) (auto dest: item_tokens_nonneg simp: I64_MAX_def)
  then obtain ns where
    ns: "mapE (estimate_item_token_count env) (cm_items m) = Inr ns" "k = min (sum_list ns) I64_MAX" "\<forall>k \<in> set ns. 0 \<le> k"
    by auto
  have "0 \<le> sum_list ns" using ns(3) by (simp add: sum_list_nonneg)
  then have "n = min (int b + sum_list ns) I64_MAX"
    using b(3) ns(2) by (auto simp: saturating_add_i64_def clamp_i64_def I64_MAX_def min_def max_def)
  then show ?thesis using b(1) ns(1) \<open>0 \<le> sum_list ns\<close> by (auto simp: I64_MAX_def)
qed

section \<open>A small conversation\<close>

definition sample_call :: response_item where
  "sample_call = function_call_item (lit ''shell'') (JStr (lit ''{}'')) (lit ''c1'') None None"

definition sample_output :: response_item where
  "sample_output = output_of_call FunctionCallOutput (lit ''c1'') (payload_from_text (lit ''ok'') (Some True))"

definition sample_user :: "string \<Rightarrow> response_item" where
  "sample_user s = message_item (lit ''user'') [InputText (lit s)] None None"

definition sample_manager :: context_manager where
  "sample_manager = from_items [sample_call, sample_output]"

definition sample_turns :: context_manager where
  "sample_turns = from_items [sample_user ''one'', sample_call, sample_output,
     message_item (lit ''developer'') [InputText (lit ''<model_switch>x</model_switch>'')] None None, sample_user ''two'']"

lemma removing_an_end_keeps_the_pairs_witness:
  "well_paired (cm_items (remove_first_item sample_manager)) \<and> cm_items (remove_first_item sample_manager) = []"
proof -
  have "well_paired (cm_items sample_manager)" by code_simp
  moreover have "cm_items (remove_first_item sample_manager) = []" by code_simp
  ultimately show ?thesis using removing_an_end_keeps_the_pairs [of sample_manager] by blast
qed

lemma dropping_turns_keeps_the_others_witness:
  "user_message_positions plain_env (cm_items (drop_last_n_user_turns plain_env 1 sample_turns)) = [0]
   \<and> cm_items (drop_last_n_user_turns plain_env 1 sample_turns) = [sample_user ''one'', sample_call, sample_output]"
proof -
  have "user_message_positions plain_env (cm_items sample_turns) = [0, 4]" by code_simp
  moreover have "cm_items (drop_last_n_user_turns plain_env 1 sample_turns) = [sample_user ''one'', sample_call, sample_output]"
    by code_simp
  ultimately show ?thesis using dropping_turns_keeps_the_others [of 1 1 plain_env sample_turns] by simp
qed

lemma estimate_is_the_saturated_sum_witness:
  "\<exists>b ns. approx_token_count (lit ''be brief'') = Inr b
     \<and> mapE (estimate_item_token_count plain_env) (cm_items sample_manager) = Inr ns \<and> 2 = min (int b + sum_list ns) I64_MAX"
proof -
  have "estimate_token_count_with_base_instructions plain_env (lit ''be brief'') sample_manager = Inr 2" by code_simp
  from estimate_is_the_saturated_sum [OF this] show ?thesis by blast
qed

end
