(* ===== verification/RolloutTruncation.thy ===== *)
theory RolloutTruncation
  imports ContextManager
begin

text \<open>
  \<open>pycodex/core/thread_rollout_truncation.py\<close>: finding the turns in the recorded rollout of a thread and cutting it
  there. A rollout only grows: rolling turns back is itself recorded, so the positions of the turns that are still
  alive are found by replaying it. Of the events only the rollback matters; reading events from JSON is not modelled.
\<close>

section \<open>Rollout items\<close>

definition USIZE_MAX :: int where
  "USIZE_MAX = (2 ^ 63 - 1) * 2 + 1"

definition ensure_usize_value :: "int \<Rightarrow> (model_exn, int) result" where
  "ensure_usize_value n = (if n < 0 then Inl ValueExn else if n > USIZE_MAX then Inl ValueExn else Inr n)"

definition saturating_num_turns :: "int \<Rightarrow> int" where
  "saturating_num_turns n = (if n < 0 \<or> n > USIZE_MAX then USIZE_MAX else n)"

datatype rollout_payload = ItemPayload response_item | JsonPayload json

datatype rollout_event = ThreadRolledBack int | OtherEvent

datatype rollout_item = ResponseRollout rollout_payload | EventRollout rollout_event | OtherRollout

definition rollout_response_item :: "rollout_payload \<Rightarrow> response_item option" where
  "rollout_response_item p =
     (case p of
        ItemPayload i \<Rightarrow> Some i
      | JsonPayload j \<Rightarrow> (case item_from_mapping j of Inr i \<Rightarrow> Some i | Inl _ \<Rightarrow> None))"

definition rollout_turn_boundary :: "context_env \<Rightarrow> response_item \<Rightarrow> bool" where
  "rollout_turn_boundary env item =
     (if ri_type item \<noteq> MessageItem then False
      else if ri_role item = Some (lit ''user'') then \<not> is_contextual_user_message_content env (ri_content item)
      else if ri_role item = Some (lit ''assistant'') then inter_agent_message env (ri_content item) \<noteq> None
      else False)"

definition is_real_user_message_boundary :: "context_env \<Rightarrow> response_item \<Rightarrow> bool" where
  "is_real_user_message_boundary env item \<longleftrightarrow> ri_type item = MessageItem \<and> ri_role item = Some (lit ''user'')
     \<and> \<not> is_contextual_user_message_content env (ri_content item)"

definition is_trigger_turn_boundary :: "context_env \<Rightarrow> response_item \<Rightarrow> bool" where
  "is_trigger_turn_boundary env item =
     (if ri_type item \<noteq> MessageItem \<or> ri_role item \<noteq> Some (lit ''assistant'') then False
      else case inter_agent_message env (ri_content item) of None \<Rightarrow> False | Some c \<Rightarrow> ia_trigger_turn c)"

definition rollout_item_is_user_turn_boundary :: "context_env \<Rightarrow> rollout_item \<Rightarrow> bool" where
  "rollout_item_is_user_turn_boundary env item =
     (case item of
        ResponseRollout p \<Rightarrow> (case rollout_response_item p of None \<Rightarrow> False | Some i \<Rightarrow> rollout_turn_boundary env i)
      | _ \<Rightarrow> False)"

text \<open>\<open>del xs[i:]\<close>: a negative index counts from the end.\<close>

definition del_from :: "int \<Rightarrow> 'a list \<Rightarrow> 'a list" where
  "del_from i xs = take (nat (if i < 0 then int (length xs) + i else i)) xs"

section \<open>Positions of turns\<close>

fun user_positions_loop :: "context_env \<Rightarrow> nat \<Rightarrow> nat list \<Rightarrow> rollout_item list \<Rightarrow> nat list" where
  "user_positions_loop env i ps [] = ps"
| "user_positions_loop env i ps (ResponseRollout p # items) =
     user_positions_loop env (Suc i)
       (case rollout_response_item p of
          None \<Rightarrow> ps
        | Some item \<Rightarrow> if is_real_user_message_boundary env item then ps @ [i] else ps) items"
| "user_positions_loop env i ps (EventRollout (ThreadRolledBack n) # items) =
     user_positions_loop env (Suc i) (del_from (int (length ps) - saturating_num_turns n) ps) items"
| "user_positions_loop env i ps (EventRollout OtherEvent # items) = user_positions_loop env (Suc i) ps items"
| "user_positions_loop env i ps (OtherRollout # items) = user_positions_loop env (Suc i) ps items"

definition user_message_positions_in_rollout :: "context_env \<Rightarrow> rollout_item list \<Rightarrow> nat list" where
  "user_message_positions_in_rollout env items = user_positions_loop env 0 [] items"

definition fork_rollback :: "int \<Rightarrow> nat list \<Rightarrow> nat list \<Rightarrow> nat list \<times> nat list" where
  "fork_rollback n rs fs =
     (if n = 0 \<or> rs = [] then (rs, fs)
      else let start = (if int (length rs) \<ge> n then rs ! nat (int (length rs) - n) else rs ! 0) in
        (del_from (int (length rs) - n) rs, filter (\<lambda>p. p < start) fs))"

fun fork_positions_loop :: "context_env \<Rightarrow> nat \<Rightarrow> nat list \<Rightarrow> nat list \<Rightarrow> rollout_item list \<Rightarrow> nat list" where
  "fork_positions_loop env i rs fs [] = fs"
| "fork_positions_loop env i rs fs (ResponseRollout p # items) =
     (case rollout_response_item p of
        None \<Rightarrow> fork_positions_loop env (Suc i) rs fs items
      | Some item \<Rightarrow> fork_positions_loop env (Suc i)
          (if rollout_turn_boundary env item then rs @ [i] else rs)
          (if is_real_user_message_boundary env item \<or> is_trigger_turn_boundary env item then fs @ [i] else fs) items)"
| "fork_positions_loop env i rs fs (EventRollout (ThreadRolledBack n) # items) =
     (case fork_rollback (saturating_num_turns n) rs fs of (rs', fs') \<Rightarrow> fork_positions_loop env (Suc i) rs' fs' items)"
| "fork_positions_loop env i rs fs (EventRollout OtherEvent # items) = fork_positions_loop env (Suc i) rs fs items"
| "fork_positions_loop env i rs fs (OtherRollout # items) = fork_positions_loop env (Suc i) rs fs items"

definition fork_turn_positions_in_rollout :: "context_env \<Rightarrow> rollout_item list \<Rightarrow> nat list" where
  "fork_turn_positions_in_rollout env items = fork_positions_loop env 0 [] [] items"

section \<open>Cutting a rollout\<close>

definition truncate_rollout_before_nth_user_message_from_start ::
    "context_env \<Rightarrow> rollout_item list \<Rightarrow> int \<Rightarrow> (model_exn, rollout_item list) result" where
  "truncate_rollout_before_nth_user_message_from_start env items n_from_start =
     bindE (ensure_usize_value n_from_start) (\<lambda>n.
       if n = USIZE_MAX then Inr items
       else let ps = user_message_positions_in_rollout env items in
         if int (length ps) \<le> n then Inr items else Inr (take (ps ! nat n) items))"

definition truncate_rollout_to_last_n_fork_turns ::
    "context_env \<Rightarrow> rollout_item list \<Rightarrow> int \<Rightarrow> (model_exn, rollout_item list) result" where
  "truncate_rollout_to_last_n_fork_turns env items n_from_end =
     bindE (ensure_usize_value n_from_end) (\<lambda>n.
       if n = 0 then Inr []
       else let fs = fork_turn_positions_in_rollout env items in
         if fs = [] then Inr []
         else Inr (drop (if int (length fs) \<ge> n then fs ! nat (int (length fs) - n) else fs ! 0) items))"

section \<open>The turns that are alive\<close>

text \<open>What a rollback means: the last turns go, all of them if there are fewer.\<close>

fun live_turns :: "(response_item \<Rightarrow> bool) \<Rightarrow> nat \<Rightarrow> nat list \<Rightarrow> rollout_item list \<Rightarrow> nat list" where
  "live_turns turn i ps [] = ps"
| "live_turns turn i ps (ResponseRollout p # items) =
     live_turns turn (Suc i)
       (case rollout_response_item p of None \<Rightarrow> ps | Some item \<Rightarrow> if turn item then ps @ [i] else ps) items"
| "live_turns turn i ps (EventRollout (ThreadRolledBack n) # items) =
     live_turns turn (Suc i) (take (length ps - nat (saturating_num_turns n)) ps) items"
| "live_turns turn i ps (_ # items) = live_turns turn (Suc i) ps items"

text \<open>No rollback takes back more turns than are alive, or it takes back at least twice as many.\<close>

fun rollbacks_in_range :: "(response_item \<Rightarrow> bool) \<Rightarrow> nat \<Rightarrow> nat list \<Rightarrow> rollout_item list \<Rightarrow> bool" where
  "rollbacks_in_range turn i ps [] = True"
| "rollbacks_in_range turn i ps (ResponseRollout p # items) =
     rollbacks_in_range turn (Suc i)
       (case rollout_response_item p of None \<Rightarrow> ps | Some item \<Rightarrow> if turn item then ps @ [i] else ps) items"
| "rollbacks_in_range turn i ps (EventRollout (ThreadRolledBack n) # items) =
     ((saturating_num_turns n \<le> int (length ps) \<or> 2 * int (length ps) \<le> saturating_num_turns n)
      \<and> rollbacks_in_range turn (Suc i) (take (length ps - nat (saturating_num_turns n)) ps) items)"
| "rollbacks_in_range turn i ps (_ # items) = rollbacks_in_range turn (Suc i) ps items"

lemma saturating_nonneg: "0 \<le> saturating_num_turns n"
  by (simp add: saturating_num_turns_def USIZE_MAX_def)

lemma del_from_in_range:
  assumes "n \<le> int (length ps) \<or> 2 * int (length ps) \<le> n" "0 \<le> n"
  shows "del_from (int (length ps) - n) ps = take (length ps - nat n) ps"
  using assms by (auto simp: del_from_def nat_diff_distrib)

lemma user_positions_live:
  "rollbacks_in_range (is_real_user_message_boundary env) i ps items \<Longrightarrow>
     user_positions_loop env i ps items = live_turns (is_real_user_message_boundary env) i ps items"
  by (induction "is_real_user_message_boundary env" i ps items rule: rollbacks_in_range.induct)
    (simp_all add: del_from_in_range saturating_nonneg)

section \<open>Points to fork at\<close>

definition fork_point :: "context_env \<Rightarrow> response_item \<Rightarrow> bool" where
  "fork_point env item \<longleftrightarrow> is_real_user_message_boundary env item \<or> is_trigger_turn_boundary env item"

definition fork_point_at :: "context_env \<Rightarrow> rollout_item list \<Rightarrow> nat \<Rightarrow> bool" where
  "fork_point_at env items p \<longleftrightarrow>
     (case items ! p of
        ResponseRollout r \<Rightarrow> (case rollout_response_item r of None \<Rightarrow> False | Some item \<Rightarrow> fork_point env item)
      | _ \<Rightarrow> False)"

lemma fork_point_boundary: "fork_point env item \<Longrightarrow> rollout_turn_boundary env item"
  by (auto simp: fork_point_def is_real_user_message_boundary_def is_trigger_turn_boundary_def rollout_turn_boundary_def
      lit_inject simp del: lit.simps split: if_splits option.splits)

lemma sorted_append_next: "sorted_wrt (<) rs \<Longrightarrow> \<forall>p \<in> set rs. p < i \<Longrightarrow> sorted_wrt (<) (rs @ [i::nat])"
  by (simp add: sorted_wrt_append)

lemma fork_rollback_live:
  assumes "n \<le> int (length rs) \<or> 2 * int (length rs) \<le> n" "0 \<le> n" "sorted_wrt (<) rs"
  shows "fork_rollback n rs (filter P rs) = (take (length rs - nat n) rs, filter P (take (length rs - nat n) rs))"
proof (cases "n = 0 \<or> rs = []")
  case False
  let ?k = "length rs - nat n"
  let ?start = "if int (length rs) \<ge> n then rs ! nat (int (length rs) - n) else rs ! 0"
  have start: "?start = rs ! ?k" using assms(2) by (auto simp: nat_diff_distrib)
  have k: "?k < length rs" using False assms(2) by auto
  have "filter (\<lambda>p. p < rs ! ?k) rs = take ?k rs" by (rule filter_less_nth [OF assms(3) k]) auto
  moreover have "filter (\<lambda>p. p < rs ! ?k) (filter P rs) = filter P (filter (\<lambda>p. p < rs ! ?k) rs)"
    by (simp add: conj_commute)
  ultimately have "filter (\<lambda>p. p < rs ! ?k) (filter P rs) = filter P (take ?k rs)" by (simp only:)
  then show ?thesis
    using False del_from_in_range [OF assms(1,2)] unfolding fork_rollback_def Let_def start by simp
qed (auto simp: fork_rollback_def)

lemma fork_positions_live:
  assumes "rollbacks_in_range (rollout_turn_boundary env) i rs items" "sorted_wrt (<) rs" "\<forall>p \<in> set rs. p < i"
    "whole = pre @ items" "length pre = i" "fs = filter (fork_point_at env whole) rs"
  shows "fork_positions_loop env i rs fs items
    = filter (fork_point_at env whole) (live_turns (rollout_turn_boundary env) i rs items)"
  using assms
proof (induction env i rs fs items arbitrary: pre rule: fork_positions_loop.induct)
  case (2 env i rs fs p items)
  have at: "whole ! i = ResponseRollout p" using "2.prems"(4,5) by (metis nth_append_length)
  show ?case
  proof (cases "rollout_response_item p")
    case None
    then show ?thesis
      using "2.IH"(1) [OF None, of "pre @ [ResponseRollout p]"] "2.prems" by (simp add: less_Suc_eq)
  next
    case (Some item)
    have "fork_point_at env whole i = fork_point env item" using at Some by (simp add: fork_point_at_def)
    then have fs: "(if is_real_user_message_boundary env item \<or> is_trigger_turn_boundary env item then fs @ [i] else fs)
        = filter (fork_point_at env whole) (if rollout_turn_boundary env item then rs @ [i] else rs)"
      using fork_point_boundary [of env item] "2.prems"(6) by (auto simp: fork_point_def)
    show ?thesis
      using "2.IH"(2) [OF Some, of "pre @ [ResponseRollout p]"] "2.prems"(1-5) Some fs
      by (auto simp: sorted_append_next less_Suc_eq)
  qed
next
  case (3 env i rs fs n items)
  let ?n = "saturating_num_turns n"
  have r: "fork_rollback ?n rs fs = (take (length rs - nat ?n) rs, filter (fork_point_at env whole) (take (length rs - nat ?n) rs))"
    using "3.prems"(1,2) saturating_nonneg unfolding "3.prems"(6) by (intro fork_rollback_live) auto
  show ?case
    using "3.IH" [OF r [symmetric], of "pre @ [EventRollout (ThreadRolledBack n)]"] "3.prems" r
    by (auto simp: sorted_wrt_take less_Suc_eq dest: in_set_takeD)
next
  case (4 env i rs fs items)
  then show ?case using "4.IH" [of "pre @ [EventRollout OtherEvent]"] by (simp add: less_Suc_eq)
next
  case (5 env i rs fs items)
  then show ?case using "5.IH" [of "pre @ [OtherRollout]"] by (simp add: less_Suc_eq)
qed simp

section \<open>Properties\<close>


definition sample_rollout :: "int \<Rightarrow> rollout_item list" where
  "sample_rollout n = [ResponseRollout (ItemPayload (sample_user ''one'')), OtherRollout,
     ResponseRollout (ItemPayload (sample_user ''two'')), EventRollout (ThreadRolledBack n)]"


text \<open>Rolling back three of two turns leaves one of them: the negative index counts from the end.\<close>

theorem rolling_back_too_much_leaves_a_turn:
  "user_message_positions_in_rollout plain_env (sample_rollout 3) = [0]
   \<and> live_turns (is_real_user_message_boundary plain_env) 0 [] (sample_rollout 3) = []
   \<and> user_message_positions_in_rollout plain_env (sample_rollout 4) = []"
  by code_simp

end
