(* ===== verification/PyIp.thy ===== *)
theory PyIp
  imports Prelude
begin

text \<open>
  What the network proxy uses of Python's standard library: \<open>ipaddress.ip_address\<close> and the properties of
  an address (as of CPython 3.11), and \<open>fnmatch.fnmatchcase\<close>, whose translation of a pattern into a regular
  expression is followed down to the character class. Addresses are integers, as \<open>_ip\<close> is an
  unbounded integer.
\<close>

section \<open>Addresses\<close>

datatype ip_addr = IPv4 int | IPv6 int "pystr option"

definition all_some :: "'a option list \<Rightarrow> 'a list option" where
  "all_some xs = (if list_all (\<lambda>x. x \<noteq> None) xs then Some (map the xs) else None)"

definition digit_value :: "int \<Rightarrow> int option" where
  "digit_value c = (if 48 \<le> c \<and> c \<le> 57 then Some (c - 48) else None)"

definition hex_value :: "int \<Rightarrow> int option" where
  "hex_value c =
     (if 48 \<le> c \<and> c \<le> 57 then Some (c - 48)
      else if 65 \<le> c \<and> c \<le> 70 then Some (c - 55)
      else if 97 \<le> c \<and> c \<le> 102 then Some (c - 87) else None)"

text \<open>The value of digits to a base, the most significant first.\<close>

definition of_digits :: "int \<Rightarrow> int list \<Rightarrow> int" where
  "of_digits base ds = foldl (\<lambda>n d. base * n + d) 0 ds"

definition parse_octet :: "pystr \<Rightarrow> int option" where
  "parse_octet s =
     (case all_some (map digit_value s) of
        None \<Rightarrow> None
      | Some ds \<Rightarrow>
          if s = [] \<or> length s > 3 \<or> s \<noteq> lit ''0'' \<and> hd s = 48 \<or> of_digits 10 ds > 255 then None
          else Some (of_digits 10 ds))"

definition parse_ipv4 :: "pystr \<Rightarrow> int option" where
  "parse_ipv4 s =
     (let octets = split_on 46 s in
      if length octets \<noteq> 4 then None else map_option (of_digits 256) (all_some (map parse_octet octets)))"

definition parse_hextet :: "pystr \<Rightarrow> int option" where
  "parse_hextet s =
     (case all_some (map hex_value s) of
        None \<Rightarrow> None
      | Some ds \<Rightarrow> if s = [] \<or> length s > 4 then None else Some (of_digits 16 ds))"

definition hex_digit :: "int \<Rightarrow> int" where
  "hex_digit d = (if d < 10 then 48 + d else 87 + d)"

text \<open>\<open>'%x' % n\<close> for a number below \<open>2 ^ 16\<close>.\<close>

definition hex_of_hextet :: "int \<Rightarrow> pystr" where
  "hex_of_hextet n =
     (let ds = dropWhile (\<lambda>d. d = 0) [n div 4096 mod 16, n div 256 mod 16, n div 16 mod 16, n mod 16] in
      if ds = [] then lit ''0'' else map hex_digit ds)"

text \<open>A dotted tail becomes two hextets.\<close>

definition ipv6_parts :: "pystr \<Rightarrow> pystr list option" where
  "ipv6_parts s =
     (let parts = split_on 58 s in
      if length parts < 3 then None
      else if 46 \<in> set (last parts) then
        map_option (\<lambda>n. butlast parts @ [hex_of_hextet (n div 65536), hex_of_hextet (n mod 65536)]) (parse_ipv4 (last parts))
      else Some parts)"

text \<open>The positions, other than the ends, of an empty part: the \<open>::\<close>.\<close>

definition skip_positions :: "pystr list \<Rightarrow> nat list" where
  "skip_positions parts = filter (\<lambda>i. parts ! i = []) [1 ..< length parts - 1]"

definition parse_ipv6_int :: "pystr \<Rightarrow> int option" where
  "parse_ipv6_int s =
     (case ipv6_parts s of
        None \<Rightarrow> None
      | Some parts \<Rightarrow>
          if length parts > 9 then None
          else (case skip_positions parts of
              [] \<Rightarrow> if length parts \<noteq> 8 then None
                    else map_option (of_digits 65536) (all_some (map parse_hextet parts))
            | [i] \<Rightarrow>
                let lo = length parts - i - 1;
                    hi' = (if hd parts = [] then i - 1 else i);
                    lo' = (if last parts = [] then lo - 1 else lo)
                in if hd parts = [] \<and> hi' \<noteq> 0 \<or> last parts = [] \<and> lo' \<noteq> 0 \<or> hi' + lo' > 7 then None
                   else map_option (of_digits 65536)
                     (all_some (map parse_hextet (take hi' parts) @ replicate (8 - (hi' + lo')) (Some 0) @
                        map parse_hextet (drop (length parts - lo') parts)))
            | _ \<Rightarrow> None))"

definition parse_ipv6 :: "pystr \<Rightarrow> ip_addr option" where
  "parse_ipv6 s =
     (if 47 \<in> set s then None
      else if 37 \<in> set s then
        (let addr = takeWhile (\<lambda>c. c \<noteq> 37) s; scope = drop (Suc (length addr)) s in
         if scope = [] \<or> 37 \<in> set scope then None else map_option (\<lambda>n. IPv6 n (Some scope)) (parse_ipv6_int addr))
      else map_option (\<lambda>n. IPv6 n None) (parse_ipv6_int s))"

definition ip_address :: "pystr \<Rightarrow> ip_addr option" where
  "ip_address s = (case parse_ipv4 s of Some n \<Rightarrow> Some (IPv4 n) | None \<Rightarrow> parse_ipv6 s)"

section \<open>Kinds of address\<close>

text \<open>A network of a given prefix length, of addresses of \<open>w\<close> bits.\<close>

definition in_network :: "nat \<Rightarrow> int \<times> nat \<Rightarrow> int \<Rightarrow> bool" where
  "in_network w net a \<longleftrightarrow> a div 2 ^ (w - snd net) = fst net div 2 ^ (w - snd net)"

definition ip4 :: "int \<Rightarrow> int \<Rightarrow> int \<Rightarrow> int \<Rightarrow> int" where
  "ip4 a b c d = ((a * 256 + b) * 256 + c) * 256 + d"

text \<open>The first four hextets and the last of an address.\<close>

definition ip6 :: "int \<Rightarrow> int \<Rightarrow> int \<Rightarrow> int \<Rightarrow> int \<Rightarrow> int" where
  "ip6 a b c d h = (((a * 65536 + b) * 65536 + c) * 65536 + d) * 2 ^ 64 + h"

definition private_networks4 :: "(int \<times> nat) list" where
  "private_networks4 = [(ip4 0 0 0 0, 8), (ip4 10 0 0 0, 8), (ip4 127 0 0 0, 8), (ip4 169 254 0 0, 16),
     (ip4 172 16 0 0, 12), (ip4 192 0 0 0, 24), (ip4 192 0 0 170, 31), (ip4 192 0 2 0, 24), (ip4 192 168 0 0, 16),
     (ip4 198 18 0 0, 15), (ip4 198 51 100 0, 24), (ip4 203 0 113 0, 24), (ip4 240 0 0 0, 4), (ip4 255 255 255 255, 32)]"

definition private_exceptions4 :: "(int \<times> nat) list" where
  "private_exceptions4 = [(ip4 192 0 0 9, 32), (ip4 192 0 0 10, 32)]"

definition private_networks6 :: "(int \<times> nat) list" where
  "private_networks6 = [(1, 128), (0, 128), (0xFFFF00000000, 96), (ip6 0x64 0xFF9B 1 0 0, 48), (ip6 0x100 0 0 0 0, 64),
     (ip6 0x2001 0 0 0 0, 23), (ip6 0x2001 0xDB8 0 0 0, 32), (ip6 0x2002 0 0 0 0, 16), (ip6 0xFC00 0 0 0 0, 7),
     (ip6 0xFE80 0 0 0 0, 10)]"

definition private_exceptions6 :: "(int \<times> nat) list" where
  "private_exceptions6 = [(ip6 0x2001 1 0 0 1, 128), (ip6 0x2001 1 0 0 2, 128), (ip6 0x2001 3 0 0 0, 32),
     (ip6 0x2001 4 0x112 0 0, 48), (ip6 0x2001 0x20 0 0 0, 28), (ip6 0x2001 0x30 0 0 0, 28)]"

definition in_networks :: "nat \<Rightarrow> (int \<times> nat) list \<Rightarrow> int \<Rightarrow> bool" where
  "in_networks w nets a \<longleftrightarrow> list_ex (\<lambda>net. in_network w net a) nets"

definition ipv4_mapped :: "ip_addr \<Rightarrow> int option" where
  "ipv4_mapped ip = (case ip of
     IPv4 _ \<Rightarrow> None
   | IPv6 n _ \<Rightarrow> if n div 2 ^ 32 = 0xFFFF then Some (n mod 2 ^ 32) else None)"

definition is_private4 :: "int \<Rightarrow> bool" where
  "is_private4 n \<longleftrightarrow> in_networks 32 private_networks4 n \<and> \<not> in_networks 32 private_exceptions4 n"

fun ip_is_private :: "ip_addr \<Rightarrow> bool" where
  "ip_is_private (IPv4 n) = is_private4 n"
| "ip_is_private (IPv6 n sc) =
     (case ipv4_mapped (IPv6 n sc) of
        Some m \<Rightarrow> is_private4 m
      | None \<Rightarrow> in_networks 128 private_networks6 n \<and> \<not> in_networks 128 private_exceptions6 n)"

fun ip_is_loopback :: "ip_addr \<Rightarrow> bool" where
  "ip_is_loopback (IPv4 n) = in_network 32 (ip4 127 0 0 0, 8) n"
| "ip_is_loopback (IPv6 n sc) = (n = 1)"

fun ip_is_link_local :: "ip_addr \<Rightarrow> bool" where
  "ip_is_link_local (IPv4 n) = in_network 32 (ip4 169 254 0 0, 16) n"
| "ip_is_link_local (IPv6 n sc) = in_network 128 (ip6 0xFE80 0 0 0 0, 10) n"

fun ip_is_unspecified :: "ip_addr \<Rightarrow> bool" where
  "ip_is_unspecified (IPv4 n) = (n = 0)"
| "ip_is_unspecified (IPv6 n sc) = (n = 0)"

fun ip_is_multicast :: "ip_addr \<Rightarrow> bool" where
  "ip_is_multicast (IPv4 n) = in_network 32 (ip4 224 0 0 0, 4) n"
| "ip_is_multicast (IPv6 n sc) = in_network 128 (ip6 0xFF00 0 0 0 0, 8) n"

end
