(* ===== verification/PyFnmatch.thy ===== *)
theory PyFnmatch
  imports Prelude
begin

text \<open>
  \<open>fnmatch.fnmatchcase\<close> of Python's standard library (as of CPython 3.11). The regular expression it builds
  is a list of elements, each for one character but for the stars; a character class is the text between the
  brackets as \<open>fnmatch.translate\<close> rewrites it, each character with the mark whether it is escaped.
\<close>

section \<open>Character classes\<close>

datatype glob_elem = Star | AnyChar | NoChar | OneChar int | CharClass bool "(bool \<times> int) list"

fun index_from :: "nat \<Rightarrow> 'a \<Rightarrow> 'a list \<Rightarrow> nat option" where
  "index_from k c [] = None"
| "index_from 0 c (x # xs) = (if x = c then Some 0 else map_option Suc (index_from 0 c xs))"
| "index_from (Suc k) c (x # xs) = map_option Suc (index_from k c xs)"

lemma index_from_less: "index_from k c xs = Some i \<Longrightarrow> i < length xs"
  by (induction k c xs arbitrary: i rule: index_from.induct) (auto split: if_splits)

text \<open>The chunks between the hyphens that make ranges; an empty last chunk is a hyphen of the one before.\<close>

function class_chunks :: "nat \<Rightarrow> pystr \<Rightarrow> pystr list" where
  "class_chunks k s =
     (case index_from k 45 s of
        None \<Rightarrow> [s]
      | Some d \<Rightarrow>
          if drop (Suc d) s = [] then [take d s @ [45]] else take d s # class_chunks 2 (drop (Suc d) s))"
  by auto
termination by (relation "measure (\<lambda>(k, s). length s)") (auto dest: index_from_less)

declare class_chunks.simps [simp del]

text \<open>Ranges that would be empty are removed, the last first.\<close>

fun merge_chunks :: "pystr list \<Rightarrow> pystr list" where
  "merge_chunks [] = []"
| "merge_chunks (c # cs) =
     (case merge_chunks cs of
        [] \<Rightarrow> [c]
      | d # ds \<Rightarrow> if last c > hd d then (butlast c @ tl d) # ds else c # d # ds)"

definition class_text :: "pystr \<Rightarrow> (bool \<times> int) list" where
  "class_text stuff =
     map (\<lambda>(e, c). (e \<or> c = 38 \<or> c = 126 \<or> c = 124, c))
       (if 45 \<notin> set stuff then map (\<lambda>c. (c = 92, c)) stuff
        else join_with [(False, 45)] (map (map (\<lambda>c. (c = 92 \<or> c = 45, c)))
          (merge_chunks (class_chunks (if hd stuff = 33 then 2 else 1) stuff))))"

definition class_elem :: "pystr \<Rightarrow> glob_elem" where
  "class_elem stuff =
     (case class_text stuff of
        [] \<Rightarrow> NoChar
      | (e, c) # rest \<Rightarrow>
          if c = 33 \<and> \<not> e then (if rest = [] then AnyChar else CharClass True rest)
          else CharClass False ((e \<or> c = 94 \<or> c = 91, c) # rest))"

text \<open>How a regular expression reads the text of a class.\<close>

fun class_has :: "(bool \<times> int) list \<Rightarrow> int \<Rightarrow> bool" where
  "class_has [] c = False"
| "class_has [(e, a)] c = (c = a)"
| "class_has [(e, a), (e', b)] c = (c = a \<or> c = b)"
| "class_has ((e, a) # (e', h) # (e'', b) # rest) c =
     (if h = 45 \<and> \<not> e' then a \<le> c \<and> c \<le> b \<or> class_has rest c
      else c = a \<or> class_has ((e', h) # (e'', b) # rest) c)"

section \<open>Patterns\<close>

text \<open>Where the class opened before \<open>s\<close> closes.\<close>

definition class_end :: "pystr \<Rightarrow> nat option" where
  "class_end s =
     (let j = (if starts_with s [33] then 1 else 0); k = (if starts_with (drop j s) [93] then j + 1 else j)
      in index_from k 93 s)"

function glob_elems :: "pystr \<Rightarrow> glob_elem list" where
  "glob_elems [] = []"
| "glob_elems (c # s) =
     (if c = 42 then Star # glob_elems s
      else if c = 63 then AnyChar # glob_elems s
      else if c = 91 then
        (case class_end s of
           None \<Rightarrow> OneChar 91 # glob_elems s
         | Some j \<Rightarrow> class_elem (take j s) # glob_elems (drop (Suc j) s))
      else OneChar c # glob_elems s)"
  by pat_completeness auto
termination by (relation "measure length") auto

fun elem_matches :: "glob_elem \<Rightarrow> int \<Rightarrow> bool" where
  "elem_matches Star c = True"
| "elem_matches AnyChar c = True"
| "elem_matches NoChar c = False"
| "elem_matches (OneChar a) c = (c = a)"
| "elem_matches (CharClass neg cls) c = (class_has cls c \<noteq> neg)"

fun glob_match :: "glob_elem list \<Rightarrow> pystr \<Rightarrow> bool" where
  "glob_match [] s = (s = [])"
| "glob_match (e # es) [] = (e = Star \<and> glob_match es [])"
| "glob_match (e # es) (c # s) =
     (if e = Star then glob_match es (c # s) \<or> glob_match (e # es) s
      else elem_matches e c \<and> glob_match es s)"

definition fnmatchcase :: "pystr \<Rightarrow> pystr \<Rightarrow> bool" where
  "fnmatchcase name pat = glob_match (glob_elems pat) name"

section \<open>Patterns without special characters, and behind a star\<close>

definition plain_text :: "pystr \<Rightarrow> bool" where
  "plain_text s \<longleftrightarrow> set s \<inter> {42, 63, 91} = {}"

lemma glob_match_append: "glob_match (es @ fs) s \<longleftrightarrow> (\<exists>u v. s = u @ v \<and> glob_match es u \<and> glob_match fs v)"
proof (induction es s rule: glob_match.induct)
  case (1 s)
  then show ?case by auto
next
  case (2 e es)
  then show ?case by auto
next
  case (3 e es c s)
  show ?case
  proof (cases "e = Star")
    case True
    have "glob_match ((e # es) @ fs) (c # s) \<longleftrightarrow> glob_match (es @ fs) (c # s) \<or> glob_match ((e # es) @ fs) s"
      using True by simp
    also have "\<dots> \<longleftrightarrow> (\<exists>u v. c # s = u @ v \<and> glob_match es u \<and> glob_match fs v) \<or>
        (\<exists>u v. s = u @ v \<and> glob_match (e # es) u \<and> glob_match fs v)"
      using 3(1,2) True by simp
    also have "\<dots> \<longleftrightarrow> (\<exists>u v. c # s = u @ v \<and> glob_match (e # es) u \<and> glob_match fs v)" (is "?l = ?r")
    proof
      assume ?l
      then show ?r
      proof (elim disjE exE conjE)
        fix u v assume "c # s = u @ v" "glob_match es u" "glob_match fs v"
        moreover have "glob_match (e # es) u" using True \<open>glob_match es u\<close> by (cases u) auto
        ultimately show ?r by blast
      next
        fix u v assume "s = u @ v" "glob_match (e # es) u" "glob_match fs v"
        then have "c # s = (c # u) @ v" "glob_match (e # es) (c # u)" using True by simp_all
        then show ?r using \<open>glob_match fs v\<close> by blast
      qed
    next
      assume ?r
      then obtain u v where uv: "c # s = u @ v" "glob_match (e # es) u" "glob_match fs v" by blast
      show ?l
      proof (cases u)
        case Nil
        then show ?thesis using uv True by (cases v) auto
      next
        case (Cons a u')
        then show ?thesis using uv True by auto
      qed
    qed
    finally show ?thesis by simp
  next
    case False
    then have "glob_match ((e # es) @ fs) (c # s) \<longleftrightarrow> elem_matches e c \<and> glob_match (es @ fs) s" by simp
    also have "\<dots> \<longleftrightarrow> elem_matches e c \<and> (\<exists>u v. s = u @ v \<and> glob_match es u \<and> glob_match fs v)"
      using 3(3) False by auto
    also have "\<dots> \<longleftrightarrow> (\<exists>u v. c # s = u @ v \<and> glob_match (e # es) u \<and> glob_match fs v)"
    proof
      assume "elem_matches e c \<and> (\<exists>u v. s = u @ v \<and> glob_match es u \<and> glob_match fs v)"
      then obtain u v where "elem_matches e c" "s = u @ v" "glob_match es u" "glob_match fs v" by blast
      then have "c # s = (c # u) @ v" "glob_match (e # es) (c # u)" using False by simp_all
      then show "\<exists>u v. c # s = u @ v \<and> glob_match (e # es) u \<and> glob_match fs v" using \<open>glob_match fs v\<close> by blast
    next
      assume "\<exists>u v. c # s = u @ v \<and> glob_match (e # es) u \<and> glob_match fs v"
      then obtain u v where uv: "c # s = u @ v" "glob_match (e # es) u" "glob_match fs v" by blast
      then obtain u' where "u = c # u'" "s = u' @ v" using False by (cases u) auto
      then show "elem_matches e c \<and> (\<exists>u v. s = u @ v \<and> glob_match es u \<and> glob_match fs v)"
        using uv False by auto
    qed
    finally show ?thesis .
  qed
qed

lemma glob_match_star: "glob_match [Star] s"
  by (induction s) simp_all

lemma glob_match_chars: "glob_match (map OneChar t) s \<longleftrightarrow> s = t"
proof (induction t arbitrary: s)
  case (Cons a t)
  then show ?case by (cases s) auto
qed simp

lemma plain_elems: "plain_text s \<Longrightarrow> glob_elems s = map OneChar s"
  by (induction s) (auto simp: plain_text_def)

lemma fnmatch_plain: "plain_text p \<Longrightarrow> fnmatchcase s p \<longleftrightarrow> s = p"
  by (simp add: fnmatchcase_def plain_elems glob_match_chars)

lemma fnmatch_below:
  assumes "plain_text p"
  shows "fnmatchcase s (63 # 42 # p) \<longleftrightarrow> (\<exists>u. u \<noteq> [] \<and> s = u @ p)"
proof -
  have "glob_elems (63 # 42 # p) = [AnyChar] @ [Star] @ map OneChar p"
    using assms by (simp add: plain_elems)
  then have "fnmatchcase s (63 # 42 # p) \<longleftrightarrow> (\<exists>u v. s = u @ v \<and> glob_match [AnyChar] u \<and> (\<exists>w. v = w @ p))"
    by (simp add: fnmatchcase_def glob_match_append glob_match_star glob_match_chars del: append.simps append_Cons)
  also have "\<dots> \<longleftrightarrow> (\<exists>u. u \<noteq> [] \<and> s = u @ p)"
  proof
    assume "\<exists>u v. s = u @ v \<and> glob_match [AnyChar] u \<and> (\<exists>w. v = w @ p)"
    then obtain u w where "s = u @ w @ p" "glob_match [AnyChar] u" by blast
    then show "\<exists>u. u \<noteq> [] \<and> s = u @ p" by (intro exI [of _ "u @ w"]) (cases u; simp)
  next
    assume "\<exists>u. u \<noteq> [] \<and> s = u @ p"
    then obtain c u where "s = [c] @ u @ p" by (metis append_Cons append_Nil neq_Nil_conv append_assoc)
    then show "\<exists>u v. s = u @ v \<and> glob_match [AnyChar] u \<and> (\<exists>w. v = w @ p)"
      by (intro exI [of _ "[c]"] exI [of _ "u @ p"]) simp
  qed
  finally show ?thesis .
qed

end
