(* ===== verification/NetHost.thy ===== *)
theory NetHost
  imports PyIp PyFnmatch
begin

text \<open>
  \<open>network_proxy/policy.py\<close>: hosts and their normal form, which addresses are not public, and the patterns
  of the domain lists. A raised \<open>ValueError\<close> is one of \<open>net_exn\<close>, which keeps what its message names.
\<close>

section \<open>Errors and the environment\<close>

datatype net_exn = HostEmpty | GlobalWildcard | BadGlob pystr

text \<open>An answer of the name resolution: a tuple with its address text, a text, or something else.\<close>

datatype dns_answer = AddrTuple pystr | AddrText pystr | OtherAnswer

text \<open>
  What the code asks of its surroundings: the case of strings; the name resolution of a host and a port
  (\<open>None\<close> when it raises or times out) and of it the address texts read from its answers; whether the system
  is macOS; the canonical form of an existing path; regular expressions (\<open>None\<close> for an invalid one), URLs
  (path and query) and query strings; environment variables and secret files.
\<close>

record net_env =
  ne_lower :: "pystr \<Rightarrow> pystr"
  ne_upper :: "pystr \<Rightarrow> pystr"
  ne_lookup :: "pystr \<Rightarrow> int \<Rightarrow> dns_answer list option"
  ne_darwin :: bool
  ne_canonical :: "pystr \<Rightarrow> pystr option"
  ne_fullmatch :: "pystr \<Rightarrow> pystr \<Rightarrow> bool option"
  ne_urlparse :: "pystr \<Rightarrow> (pystr \<times> pystr) option"
  ne_parse_qsl :: "pystr \<Rightarrow> (pystr \<times> pystr) list"
  ne_env_var :: "pystr \<Rightarrow> pystr option"
  ne_secret_file :: "pystr \<Rightarrow> pystr option"

section \<open>Hosts\<close>

definition drop_final_dots :: "pystr \<Rightarrow> pystr" where
  "drop_final_dots s = rev (dropWhile (\<lambda>c. c = 46) (rev s))"

text \<open>\<open>s.split(sep, 1)\<close>, for a separator that is in \<open>s\<close>.\<close>

definition split_once :: "pystr \<Rightarrow> pystr \<Rightarrow> (pystr \<times> pystr) option" where
  "split_once s sep = map_option (\<lambda>i. (take i s, drop (i + length sep) s)) (str_find s sep)"

text \<open>The address with its scope, if what stands before the delimiter is an address.\<close>

definition scoped_literal :: "pystr \<Rightarrow> pystr \<Rightarrow> pystr option" where
  "scoped_literal host delimiter =
     (case split_once host delimiter of
        None \<Rightarrow> None
      | Some (ip, scope) \<Rightarrow> if ip_address ip = None then None else Some (ip @ lit ''%'' @ scope))"

definition normalize_ip_literal :: "pystr \<Rightarrow> pystr option" where
  "normalize_ip_literal host =
     (case scoped_literal host (lit ''%25'') of
        Some h \<Rightarrow> Some h
      | None \<Rightarrow>
          if ip_address host \<noteq> None then Some host
          else (case scoped_literal host (lit ''%25'') of
              Some h \<Rightarrow> Some h
            | None \<Rightarrow> scoped_literal host (lit ''%'')))"

definition normalize_dns_host_or_ip_literal :: "net_env \<Rightarrow> pystr \<Rightarrow> pystr" where
  "normalize_dns_host_or_ip_literal env host =
     (let h = drop_final_dots (ne_lower env host) in
      case normalize_ip_literal h of None \<Rightarrow> h | Some n \<Rightarrow> n)"

definition normalize_host :: "net_env \<Rightarrow> pystr \<Rightarrow> pystr" where
  "normalize_host env host =
     (let h = strip host in
      if starts_with h [91] \<and> 93 \<in> set h then
        normalize_dns_host_or_ip_literal env (takeWhile (\<lambda>c. c \<noteq> 93) (drop 1 h))
      else if count_list h 58 = 1 then
        normalize_dns_host_or_ip_literal env (takeWhile (\<lambda>c. c \<noteq> 58) h)
      else normalize_dns_host_or_ip_literal env h)"

definition host_parse :: "net_env \<Rightarrow> pystr \<Rightarrow> (net_exn, pystr) result" where
  "host_parse env s = (let h = normalize_host env s in if h = [] then Inl HostEmpty else Inr h)"

definition unscoped_ip_literal :: "pystr \<Rightarrow> pystr option" where
  "unscoped_ip_literal host =
     (case split_once host (lit ''%'') of
        None \<Rightarrow> None
      | Some (ip, _) \<Rightarrow> if ip_address ip = None then None else Some ip)"

text \<open>\<open>is_loopback_host\<close> of a parsed host.\<close>

definition is_loopback_host :: "pystr \<Rightarrow> bool" where
  "is_loopback_host host =
     (let v = (case unscoped_ip_literal host of None \<Rightarrow> host | Some ip \<Rightarrow> ip) in
      v = lit ''localhost'' \<or> (case ip_address v of None \<Rightarrow> False | Some ip \<Rightarrow> ip_is_loopback ip))"

text \<open>\<open>_is_loopback_host\<close>, of the host of a bind address.\<close>

definition is_loopback_bind_host :: "net_env \<Rightarrow> pystr \<Rightarrow> bool" where
  "is_loopback_bind_host env host =
     (case ip_address (takeWhile (\<lambda>c. c \<noteq> 37) host) of
        Some ip \<Rightarrow> ip_is_loopback ip
      | None \<Rightarrow> ne_lower env host = lit ''localhost'')"

section \<open>Addresses that are not public\<close>

definition extra_networks4 :: "(int \<times> nat) list" where
  "extra_networks4 = [(ip4 0 0 0 0, 8), (ip4 100 64 0 0, 10), (ip4 192 0 0 0, 24), (ip4 192 0 2 0, 24), (ip4 198 18 0 0, 15),
     (ip4 198 51 100 0, 24), (ip4 203 0 113 0, 24), (ip4 240 0 0 0, 4)]"

definition is_non_public_ipv4 :: "int \<Rightarrow> bool" where
  "is_non_public_ipv4 n =
     (ip_is_loopback (IPv4 n) \<or> ip_is_private (IPv4 n) \<or> ip_is_link_local (IPv4 n) \<or> ip_is_unspecified (IPv4 n)
      \<or> ip_is_multicast (IPv4 n) \<or> n = ip4 255 255 255 255 \<or> in_networks 32 extra_networks4 n)"

fun is_non_public_ip :: "ip_addr \<Rightarrow> bool" where
  "is_non_public_ip (IPv4 n) = is_non_public_ipv4 n"
| "is_non_public_ip (IPv6 n sc) =
     (case ipv4_mapped (IPv6 n sc) of
        Some m \<Rightarrow> is_non_public_ipv4 m
      | None \<Rightarrow>
          ip_is_loopback (IPv6 n sc) \<or> ip_is_unspecified (IPv6 n sc) \<or> ip_is_multicast (IPv6 n sc)
          \<or> ip_is_private (IPv6 n sc) \<or> ip_is_link_local (IPv6 n sc))"

section \<open>Domain patterns\<close>

datatype pattern_kind = ExactKind | SubdomainWildcardKind | DoubleWildcardKind

record domain_pattern =
  dp_kind :: pattern_kind
  dp_suffix :: pystr

definition normalize_pattern :: "net_env \<Rightarrow> pystr \<Rightarrow> pystr" where
  "normalize_pattern env raw =
     (let p = strip raw in
      if p = lit ''*'' then lit ''*''
      else if starts_with p (lit ''**.'') then lit ''**.'' @ normalize_host env (drop 3 p)
      else if starts_with p (lit ''*.'') then lit ''*.'' @ normalize_host env (drop 2 p)
      else normalize_host env p)"

definition domain_pattern_parse :: "pystr \<Rightarrow> domain_pattern" where
  "domain_pattern_parse s =
     (let p = strip s in
      if p = [] then \<lparr>dp_kind = ExactKind, dp_suffix = []\<rparr>
      else if starts_with p (lit ''**.'') then \<lparr>dp_kind = DoubleWildcardKind, dp_suffix = strip (drop 3 p)\<rparr>
      else if starts_with p (lit ''*.'') then \<lparr>dp_kind = SubdomainWildcardKind, dp_suffix = strip (drop 2 p)\<rparr>
      else \<lparr>dp_kind = ExactKind, dp_suffix = p\<rparr>)"

definition parse_for_constraints :: "net_env \<Rightarrow> pystr \<Rightarrow> domain_pattern" where
  "parse_for_constraints env s =
     (let p = normalize_host env s in
      if starts_with p (lit ''**.'') then \<lparr>dp_kind = DoubleWildcardKind, dp_suffix = drop 3 p\<rparr>
      else if starts_with p (lit ''*.'') then \<lparr>dp_kind = SubdomainWildcardKind, dp_suffix = drop 2 p\<rparr>
      else \<lparr>dp_kind = ExactKind, dp_suffix = p\<rparr>)"

definition pattern_allows :: "domain_pattern \<Rightarrow> domain_pattern \<Rightarrow> bool" where
  "pattern_allows p candidate =
     (let below = ends_with (dp_suffix candidate) (lit ''.'' @ dp_suffix p); same = dp_suffix candidate = dp_suffix p in
      case dp_kind p of
        ExactKind \<Rightarrow> dp_kind candidate = ExactKind \<and> same
      | SubdomainWildcardKind \<Rightarrow>
          (case dp_kind candidate of
             ExactKind \<Rightarrow> below
           | SubdomainWildcardKind \<Rightarrow> same \<or> below
           | DoubleWildcardKind \<Rightarrow> False)
      | DoubleWildcardKind \<Rightarrow> same \<or> below)"

definition expand_domain_pattern :: "pystr \<Rightarrow> pystr list" where
  "expand_domain_pattern s =
     (let p = domain_pattern_parse s in
      case dp_kind p of
        ExactKind \<Rightarrow> [dp_suffix p]
      | SubdomainWildcardKind \<Rightarrow> [lit ''?*.'' @ dp_suffix p]
      | DoubleWildcardKind \<Rightarrow> [dp_suffix p, lit ''?*.'' @ dp_suffix p])"

definition is_global_wildcard_domain_pattern :: "net_env \<Rightarrow> pystr \<Rightarrow> bool" where
  "is_global_wildcard_domain_pattern env p \<longleftrightarrow> lit ''*'' \<in> set (expand_domain_pattern (normalize_pattern env p))"

text \<open>\<open>mitm_hook._validate_glob_pattern\<close>: inside a class, after a backslash, the rest.\<close>

fun glob_balanced :: "bool \<Rightarrow> bool \<Rightarrow> pystr \<Rightarrow> bool" where
  "glob_balanced in_class escaped [] = (\<not> in_class)"
| "glob_balanced in_class escaped (c # s) =
     (if escaped then glob_balanced in_class False s
      else if c = 92 then glob_balanced in_class True s
      else if c = 91 then \<not> in_class \<and> glob_balanced True False s
      else if c = 93 then in_class \<and> glob_balanced False False s
      else glob_balanced in_class False s)"

definition validate_glob_pattern :: "pystr \<Rightarrow> (net_exn, unit) result" where
  "validate_glob_pattern p = guardE (glob_balanced False False p) (BadGlob p)"

fun add_candidates :: "pystr list \<Rightarrow> pystr list \<Rightarrow> (net_exn, pystr list) result" where
  "add_candidates expanded [] = Inr expanded"
| "add_candidates expanded (c # cs) =
     (if c \<in> set expanded then add_candidates expanded cs
      else bindE (validate_glob_pattern c) (\<lambda>_. add_candidates (expanded @ [c]) cs))"

fun compile_globset_loop :: "net_env \<Rightarrow> bool \<Rightarrow> pystr list \<Rightarrow> pystr list \<Rightarrow> (net_exn, pystr list) result" where
  "compile_globset_loop env allow_global expanded [] = Inr expanded"
| "compile_globset_loop env allow_global expanded (raw # raws) =
     (if \<not> allow_global \<and> is_global_wildcard_domain_pattern env raw then Inl GlobalWildcard
      else bindE (add_candidates expanded (expand_domain_pattern (normalize_pattern env raw)))
        (\<lambda>expanded'. compile_globset_loop env allow_global expanded' raws))"

definition compile_allowlist_globset :: "net_env \<Rightarrow> pystr list \<Rightarrow> (net_exn, pystr list) result" where
  "compile_allowlist_globset env patterns = compile_globset_loop env True [] patterns"

definition compile_denylist_globset :: "net_env \<Rightarrow> pystr list \<Rightarrow> (net_exn, pystr list) result" where
  "compile_denylist_globset env patterns = compile_globset_loop env False [] patterns"

definition globset_is_match :: "net_env \<Rightarrow> pystr list \<Rightarrow> pystr \<Rightarrow> bool" where
  "globset_is_match env patterns host =
     (let n = normalize_host env host in list_ex (\<lambda>p. fnmatchcase (ne_lower env n) (ne_lower env p)) patterns)"

section \<open>Dotted addresses\<close>

text \<open>
  Which addresses are not public, read off their octets: an octet at a time is divided off, and each network
  test becomes a test of octets.
\<close>

definition is_octet :: "int \<Rightarrow> bool" where
  "is_octet a \<longleftrightarrow> 0 \<le> a \<and> a < 256"

definition octets :: "int \<Rightarrow> int \<Rightarrow> int \<Rightarrow> int \<Rightarrow> bool" where
  "octets a b c d \<longleftrightarrow> is_octet a \<and> is_octet b \<and> is_octet c \<and> is_octet d"

lemma drop_octet: "is_octet d \<Longrightarrow> (x * 256 + d) div 256 = x"
  by (simp add: is_octet_def)

lemma two_digits: "is_octet b \<Longrightarrow> is_octet q \<Longrightarrow> a * 256 + b = p * 256 + q \<longleftrightarrow> a = p \<and> b = q"
  by (metis add_left_cancel drop_octet)

lemma ip4_div:
  assumes "octets a b c d"
  shows "ip4 a b c d div 256 = (a * 256 + b) * 256 + c" "ip4 a b c d div 65536 = a * 256 + b"
    "ip4 a b c d div 131072 = a * 128 + b div 2" "ip4 a b c d div 1048576 = a * 16 + b div 16"
    "ip4 a b c d div 4194304 = a * 4 + b div 64" "ip4 a b c d div 16777216 = a" "ip4 a b c d div 268435456 = a div 16"
proof -
  note assms = assms [unfolded octets_def]
  show "ip4 a b c d div 256 = (a * 256 + b) * 256 + c" using assms by (simp only: ip4_def drop_octet)
  have split: "ip4 a b c d div (256 * (256 * k)) = (a * 256 + b) div k" if "0 < k" for k
  proof -
    have "ip4 a b c d div (256 * (256 * k)) = ip4 a b c d div 256 div 256 div k"
      using that by (simp only: zdiv_zmult2_eq)
    then show ?thesis using assms by (simp only: ip4_def drop_octet)
  qed
  have "(a * 256 + b) div (256 * k) = a div k" if "0 < k" for k
    using that assms by (simp only: zdiv_zmult2_eq drop_octet)
  then have split3: "ip4 a b c d div (256 * (256 * (256 * k))) = a div k" if "0 < k" for k
    using that split [of "256 * k"] by simp
  show "ip4 a b c d div 65536 = a * 256 + b" using split [of 1] by simp
  show "ip4 a b c d div 131072 = a * 128 + b div 2" using split [of 2] by simp
  show "ip4 a b c d div 1048576 = a * 16 + b div 16" using split [of 16] by simp
  show "ip4 a b c d div 4194304 = a * 4 + b div 64" using split [of 64] by simp
  show "ip4 a b c d div 16777216 = a" using split3 [of 1] by simp
  show "ip4 a b c d div 268435456 = a div 16" using split3 [of 16] by simp
qed

lemma octet_blocks:
  assumes "is_octet b"
  shows "b div 64 = 1 \<longleftrightarrow> 64 \<le> b \<and> b < 128" "b div 16 = 1 \<longleftrightarrow> 16 \<le> b \<and> b < 32" "b div 2 = 9 \<longleftrightarrow> b \<in> {18, 19}"
    "b div 16 = 14 \<longleftrightarrow> 224 \<le> b \<and> b < 240" "b div 16 = 15 \<longleftrightarrow> 240 \<le> b"
  using assms unfolding is_octet_def by auto

lemma in_net8: "octets a b c d \<Longrightarrow> octets p q r s \<Longrightarrow> in_network 32 (ip4 p q r s, 8) (ip4 a b c d) \<longleftrightarrow> a = p"
  by (simp add: in_network_def ip4_div)

lemma in_net16:
  "octets a b c d \<Longrightarrow> octets p q r s \<Longrightarrow> in_network 32 (ip4 p q r s, 16) (ip4 a b c d) \<longleftrightarrow> a = p \<and> b = q"
  by (simp add: in_network_def ip4_div two_digits octets_def)

lemma ip4_last:
  "octets a b c d \<Longrightarrow> octets p q r s \<Longrightarrow> ip4 a b c d div 256 = ip4 p q r s div 256 \<longleftrightarrow> a = p \<and> b = q \<and> c = r"
  by (simp only: ip4_div two_digits conj_assoc octets_def)

lemma in_net24:
  "octets a b c d \<Longrightarrow> octets p q r s \<Longrightarrow> in_network 32 (ip4 p q r s, 24) (ip4 a b c d) \<longleftrightarrow> a = p \<and> b = q \<and> c = r"
  by (simp add: in_network_def ip4_last)

lemma in_net_longer:
  assumes "octets a b c d" "octets p q r s" "24 \<le> n" "n \<le> 32" "in_network 32 (ip4 p q r s, n) (ip4 a b c d)"
  shows "a = p \<and> b = q \<and> c = r"
proof -
  have "(256::int) = 2 ^ (32 - n) * 2 ^ (n - 24)" using assms(3,4) by (simp flip: power_add)
  then have "x div 256 = x div 2 ^ (32 - n) div 2 ^ (n - 24)" for x :: int by (metis zdiv_zmult2_eq zero_le_numeral zero_le_power)
  then have "ip4 a b c d div 256 = ip4 p q r s div 256" using assms(5) by (simp add: in_network_def)
  then show ?thesis using assms(1,2) by (simp add: ip4_last)
qed

lemma in_net4: "octets a b c d \<Longrightarrow> octets p q r s \<Longrightarrow> in_network 32 (ip4 p q r s, 4) (ip4 a b c d) \<longleftrightarrow> a div 16 = p div 16"
  by (simp add: in_network_def ip4_div)

lemma mixed_digits: "0 \<le> x \<Longrightarrow> x < k \<Longrightarrow> 0 \<le> y \<Longrightarrow> y < k \<Longrightarrow> a * k + x = p * k + y \<longleftrightarrow> a = p \<and> x = y" for k :: int
  by (metis add_left_cancel div_mult_self3 div_pos_pos_trivial less_irrefl add_0 order_le_less_trans add.commute)

lemma in_net_within:
  assumes "octets a b c d" "octets p q r s"
  shows "in_network 32 (ip4 p q r s, 12) (ip4 a b c d) \<longleftrightarrow> a = p \<and> b div 16 = q div 16"
    "in_network 32 (ip4 p q r s, 10) (ip4 a b c d) \<longleftrightarrow> a = p \<and> b div 64 = q div 64"
    "in_network 32 (ip4 p q r s, 15) (ip4 a b c d) \<longleftrightarrow> a = p \<and> b div 2 = q div 2"
  using assms by (auto simp: in_network_def ip4_div mixed_digits octets_def is_octet_def)

text \<open>What is special about an address can be read off its first three octets.\<close>

definition special_ipv4 :: "int \<Rightarrow> int \<Rightarrow> int \<Rightarrow> bool" where
  "special_ipv4 a b c \<longleftrightarrow> a \<in> {0, 10, 127} \<or> a = 100 \<and> 64 \<le> b \<and> b < 128 \<or> a = 169 \<and> b = 254
     \<or> a = 172 \<and> 16 \<le> b \<and> b < 32 \<or> a = 192 \<and> b = 168 \<or> a = 192 \<and> b = 0 \<and> c \<in> {0, 2}
     \<or> a = 198 \<and> b \<in> {18, 19} \<or> a = 198 \<and> b = 51 \<and> c = 100 \<or> a = 203 \<and> b = 0 \<and> c = 113 \<or> 224 \<le> a"

lemmas network_tests = in_net8 in_net16 in_net24 in_net4 in_net_within

lemma extra_octets:
  assumes "octets a b c d"
  shows "in_networks 32 extra_networks4 (ip4 a b c d) \<longleftrightarrow> a = 0 \<or> a = 100 \<and> 64 \<le> b \<and> b < 128
     \<or> a = 192 \<and> b = 0 \<and> c \<in> {0, 2} \<or> a = 198 \<and> b \<in> {18, 19} \<or> a = 198 \<and> b = 51 \<and> c = 100
     \<or> a = 203 \<and> b = 0 \<and> c = 113 \<or> 240 \<le> a"
proof -
  have o: "is_octet a" "is_octet b" using assms by (simp_all add: octets_def)
  have n: "octets p q r s" if "is_octet p" "is_octet q" "is_octet r" "is_octet s" for p q r s
    using that by (simp add: octets_def)
  show ?thesis
    unfolding in_networks_def extra_networks4_def
    by (simp add: network_tests [OF assms n] is_octet_def octet_blocks [OF o(1)] octet_blocks [OF o(2)]) blast
qed

lemma private_octets:
  assumes "octets a b c d"
  shows "is_private4 (ip4 a b c d) \<longrightarrow> special_ipv4 a b c"
    "a \<in> {10, 127} \<or> a = 172 \<and> 16 \<le> b \<and> b < 32 \<or> a = 192 \<and> b = 168 \<longrightarrow> is_private4 (ip4 a b c d)"
proof -
  have o: "is_octet a" "is_octet b" using assms by (simp_all add: octets_def)
  have n: "octets p q r s" if "is_octet p" "is_octet q" "is_octet r" "is_octet s" for p q r s
    using that by (simp add: octets_def)
  note tests = network_tests [OF assms n] is_octet_def octet_blocks [OF o(1)] octet_blocks [OF o(2)]
  have longer: "in_network 32 (ip4 192 0 0 e, k) (ip4 a b c d) \<Longrightarrow> a = 192 \<and> b = 0 \<and> c = 0"
    if "is_octet e" "24 \<le> k" "k \<le> 32" for e k
    using in_net_longer [OF assms n [of 192 0 0 e]] that by (simp add: is_octet_def)
  have all_ones: "in_network 32 (ip4 255 255 255 255, 32) (ip4 a b c d) \<Longrightarrow> a = 255"
    using in_net_longer [OF assms n [of 255 255 255 255], of 32] by (simp add: is_octet_def)
  show "is_private4 (ip4 a b c d) \<longrightarrow> special_ipv4 a b c"
  proof
    assume "is_private4 (ip4 a b c d)"
    then have "in_networks 32 private_networks4 (ip4 a b c d)" by (simp add: is_private4_def)
    then have "a = 0 \<or> a = 10 \<or> a = 127 \<or> a = 169 \<and> b = 254 \<or> a = 172 \<and> 16 \<le> b \<and> b < 32 \<or> a = 192 \<and> b = 0 \<and> c = 0
        \<or> in_network 32 (ip4 192 0 0 170, 31) (ip4 a b c d) \<or> a = 192 \<and> b = 0 \<and> c = 2 \<or> a = 192 \<and> b = 168
        \<or> a = 198 \<and> b \<in> {18, 19} \<or> a = 198 \<and> b = 51 \<and> c = 100 \<or> a = 203 \<and> b = 0 \<and> c = 113 \<or> 240 \<le> a
        \<or> in_network 32 (ip4 255 255 255 255, 32) (ip4 a b c d)"
      unfolding in_networks_def private_networks4_def by (simp add: tests)
    then show "special_ipv4 a b c"
      using longer [of 170 31] all_ones
      by (elim disjE) (simp_all add: special_ipv4_def is_octet_def)
  qed
  show "a \<in> {10, 127} \<or> a = 172 \<and> 16 \<le> b \<and> b < 32 \<or> a = 192 \<and> b = 168 \<longrightarrow> is_private4 (ip4 a b c d)"
  proof
    assume a: "a \<in> {10, 127} \<or> a = 172 \<and> 16 \<le> b \<and> b < 32 \<or> a = 192 \<and> b = 168"
    then have "\<not> in_networks 32 private_exceptions4 (ip4 a b c d)"
      using longer [of 9 32] longer [of 10 32] by (auto simp: in_networks_def private_exceptions4_def is_octet_def)
    moreover have "in_networks 32 private_networks4 (ip4 a b c d)"
      using a unfolding in_networks_def private_networks4_def by (auto simp: tests)
    ultimately show "is_private4 (ip4 a b c d)" by (simp add: is_private4_def)
  qed
qed

lemma non_public_octets:
  assumes "octets a b c d"
  shows "is_non_public_ipv4 (ip4 a b c d) \<longleftrightarrow> special_ipv4 a b c"
proof -
  have o: "is_octet a" "is_octet b" using assms by (simp_all add: octets_def)
  have n: "octets p q r s" if "is_octet p" "is_octet q" "is_octet r" "is_octet s" for p q r s
    using that by (simp add: octets_def)
  note tests = network_tests [OF assms n] is_octet_def octet_blocks [OF o(1)]
  have zero: "ip4 a b c d = 0 \<Longrightarrow> a = 0" using ip4_div(6) [OF assms] by simp
  have ones: "ip4 a b c d = ip4 255 255 255 255 \<Longrightarrow> a = 255"
    using ip4_last [OF assms n [of 255 255 255 255]] by (simp add: is_octet_def)
  have kinds: "ip_is_loopback (IPv4 (ip4 a b c d)) \<longleftrightarrow> a = 127"
    "ip_is_link_local (IPv4 (ip4 a b c d)) \<longleftrightarrow> a = 169 \<and> b = 254"
    "ip_is_multicast (IPv4 (ip4 a b c d)) \<longleftrightarrow> 224 \<le> a \<and> a < 240"
    by (simp_all add: tests)
  have special: "special_ipv4 a b c" if "a = 127 \<or> a = 169 \<and> b = 254 \<or> 224 \<le> a \<or> a = 0 \<or> a = 100 \<and> 64 \<le> b \<and> b < 128
     \<or> a = 192 \<and> b = 0 \<and> c \<in> {0, 2} \<or> a = 198 \<and> b \<in> {18, 19} \<or> a = 198 \<and> b = 51 \<and> c = 100
     \<or> a = 203 \<and> b = 0 \<and> c = 113"
    using that unfolding special_ipv4_def by blast
  have sorted: "special_ipv4 a b c \<longleftrightarrow> (a \<in> {10, 127} \<or> a = 172 \<and> 16 \<le> b \<and> b < 32 \<or> a = 192 \<and> b = 168)
     \<or> a = 169 \<and> b = 254 \<or> 224 \<le> a \<and> a < 240 \<or> (a = 0 \<or> a = 100 \<and> 64 \<le> b \<and> b < 128
     \<or> a = 192 \<and> b = 0 \<and> c \<in> {0, 2} \<or> a = 198 \<and> b \<in> {18, 19} \<or> a = 198 \<and> b = 51 \<and> c = 100
     \<or> a = 203 \<and> b = 0 \<and> c = 113 \<or> 240 \<le> a)"
    unfolding special_ipv4_def by (cases "240 \<le> a") auto
  show ?thesis (is "?l = ?r")
  proof
    assume ?l
    then show ?r
      unfolding is_non_public_ipv4_def kinds extra_octets [OF assms] ip_is_private.simps ip_is_unspecified.simps
      using private_octets(1) [OF assms] by (elim disjE) (rule special, (use zero ones in simp; fail) | simp add: special)+
  next
    assume ?r
    then show ?l
      unfolding is_non_public_ipv4_def kinds extra_octets [OF assms] ip_is_private.simps ip_is_unspecified.simps sorted
      using private_octets(2) [OF assms] by blast
  qed
qed

text \<open>Writing an address with dots and reading it back.\<close>

definition dotted :: "nat list \<Rightarrow> pystr" where
  "dotted ns = join_with (lit ''.'') (map str_of_nat ns)"

lemma all_some_map: "all_some (map f xs) = Some ys \<longleftrightarrow> list_all2 (\<lambda>x y. f x = Some y) xs ys"
proof (induction xs arbitrary: ys)
  case (Cons x xs)
  have "all_some (map f (x # xs)) = (case f x of None \<Rightarrow> None | Some y \<Rightarrow> map_option ((#) y) (all_some (map f xs)))"
    by (auto simp: all_some_def split: option.split)
  then show ?case using Cons.IH by (cases ys) (auto split: option.splits)
qed (auto simp: all_some_def)

lemma str_of_small:
  "n < 10 \<Longrightarrow> str_of_nat n = [48 + int n]"
  "10 \<le> n \<Longrightarrow> n < 100 \<Longrightarrow> str_of_nat n = [48 + int (n div 10), 48 + int (n mod 10)]"
  by (simp_all add: str_of_nat.simps [of n] str_of_nat.simps [of "n div 10"])

lemma str_of_hundreds:
  assumes "100 \<le> n" "n < 1000"
  shows "str_of_nat n = [48 + int (n div 100), 48 + int (n div 10 mod 10), 48 + int (n mod 10)]"
proof -
  have "10 \<le> n div 10" "n div 10 < 100" "n div 10 div 10 = n div 100" using assms by (simp_all flip: div_mult2_eq)
  then show ?thesis using str_of_small(2) [of "n div 10"] assms by (simp add: str_of_nat.simps [of n])
qed

lemma digit_of_small: "d < 10 \<Longrightarrow> digit_value (48 + int d) = Some (int d)"
  by (simp add: digit_value_def)

lemma three_digits:
  assumes "1 \<le> x" "x < 10" "0 \<le> y" "y < 10" "0 \<le> z" "z < 10" "10 * (10 * x + y) + z \<le> 255"
  shows "parse_octet [48 + x, 48 + y, 48 + z] = Some (10 * (10 * x + y) + z)"
proof -
  have "digit_value (48 + d) = Some d" if "0 \<le> d" "d < 10" for d using that by (simp add: digit_value_def)
  then have "all_some (map digit_value [48 + x, 48 + y, 48 + z]) = Some [x, y, z]" using assms by (simp add: all_some_def)
  moreover have "of_digits 10 [x, y, z] = 10 * (10 * x + y) + z" by (simp add: of_digits_def)
  ultimately show ?thesis using assms(1,7) unfolding parse_octet_def by simp
qed

lemma octet_text:
  assumes "n < 256"
  shows "parse_octet (str_of_nat n) = Some (int n)"
proof -
  consider "n < 10" | "10 \<le> n" "n < 100" | "100 \<le> n" by linarith
  then show ?thesis
  proof cases
    case 1
    then show ?thesis by (auto simp: str_of_small parse_octet_def all_some_def digit_of_small of_digits_def)
  next
    case 2
    have "10 * int (n div 10) + int (n mod 10) = int n" by presburger
    then show ?thesis using 2 
      by (auto simp: str_of_small parse_octet_def all_some_def digit_of_small of_digits_def)
  next
    case 3
    define x y z where "x = int (n div 100)" "y = int (n div 10 mod 10)" "z = int (n mod 10)"
    have "10 * (n div 10) + n mod 10 = n" "10 * (n div 100) + n div 10 mod 10 = n div 10"
      using div_mult2_eq [of n 10 10] mult_div_mod_eq [of 10 "n div 10"] by simp_all
    then have "10 * (10 * x + y) + z = int n" unfolding x_y_z_def by (metis of_nat_add of_nat_mult of_nat_numeral)
    moreover have "1 \<le> x" "x < 10" "0 \<le> y" "y < 10" "0 \<le> z" "z < 10" using 3 assms by (simp_all add: x_y_z_def)
    moreover have "str_of_nat n = [48 + x, 48 + y, 48 + z]" using 3 assms by (simp add: str_of_hundreds x_y_z_def)
    moreover have "10 * (10 * x + y) + z \<le> 255" using \<open>10 * (10 * x + y) + z = int n\<close> assms by linarith
    ultimately show ?thesis using three_digits [of x y z] by metis
  qed
qed

lemma dotted_text:
  assumes "a < 256" "b < 256" "c < 256" "d < 256"
  shows "parse_ipv4 (dotted [a, b, c, d]) = Some (ip4 (int a) (int b) (int c) (int d))"
proof -
  have "46 \<notin> set (str_of_nat n)" for n using str_of_nat_digits [of 46 n] by auto
  then have "split_on 46 (dotted [a, b, c, d]) = map str_of_nat [a, b, c, d]"
    unfolding dotted_def by (simp add: split_on_append split_on_no_sep)
  then show ?thesis
    using assms by (simp add: parse_ipv4_def octet_text all_some_def of_digits_def ip4_def)
qed

section \<open>A plain environment\<close>

text \<open>ASCII case, names that resolve to one public address, no secrets: surroundings to evaluate the model in.\<close>

definition plain_net_env :: net_env where
  "plain_net_env = \<lparr>ne_lower = ascii_lower, ne_upper = ascii_upper,
     ne_lookup = (\<lambda>h p. if h = lit ''intern.example.com'' then Some [AddrTuple (lit ''10.0.0.7'')] else Some [AddrTuple (lit ''93.184.216.34'')]),
     ne_darwin = False, ne_canonical = Some, ne_fullmatch = (\<lambda>r s. Some False),
     ne_urlparse = (\<lambda>u. Some (u, [])), ne_parse_qsl = (\<lambda>q. []),
     ne_env_var = (\<lambda>v. if v = lit ''TOKEN'' then Some (lit ''s3cret'') else None), ne_secret_file = (\<lambda>f. None)\<rparr>"

section \<open>What a domain list covers\<close>

text \<open>
  Names and patterns in the form domain lists have: lower case, no white space, port or brackets, no final
  dot; a pattern is a name without special characters, with \<open>*.\<close> or \<open>**.\<close> before it or not.
\<close>

definition tidy :: "net_env \<Rightarrow> pystr \<Rightarrow> bool" where
  "tidy env p \<longleftrightarrow> p \<noteq> [] \<and> last p \<noteq> 46 \<and> list_all (\<lambda>c. c \<notin> {37, 58, 91, 93} \<and> \<not> is_space c) p \<and> ne_lower env p = p"

definition pattern_suffix :: "pystr \<Rightarrow> pystr" where
  "pattern_suffix p =
     (if starts_with p (lit ''**.'') then drop 3 p else if starts_with p (lit ''*.'') then drop 2 p else p)"

definition tidy_pattern :: "net_env \<Rightarrow> pystr \<Rightarrow> bool" where
  "tidy_pattern env p \<longleftrightarrow> tidy env p \<and> tidy env (pattern_suffix p) \<and> tidy env (lit ''?*.'' @ pattern_suffix p)
     \<and> list_all (\<lambda>c. c \<notin> {42, 63, 91}) (pattern_suffix p) \<and> hd (pattern_suffix p) \<noteq> 46"

text \<open>A host that normalisation leaves as it is.\<close>

definition settled :: "net_env \<Rightarrow> pystr \<Rightarrow> bool" where
  "settled env h \<longleftrightarrow> normalize_host env h = h \<and> ne_lower env h = h"

definition below :: "pystr \<Rightarrow> pystr \<Rightarrow> bool" where
  "below s h \<longleftrightarrow> ends_with h (46 # s) \<and> length s + 1 < length h"

definition covers :: "pystr \<Rightarrow> pystr \<Rightarrow> bool" where
  "covers p h \<longleftrightarrow>
     (if starts_with p (lit ''**.'') then h = pattern_suffix p \<or> below (pattern_suffix p) h
      else if starts_with p (lit ''*.'') then below (pattern_suffix p) h
      else h = p)"

lemma below_iff: "below s h \<longleftrightarrow> (\<exists>u. u \<noteq> [] \<and> h = u @ 46 # s)"
  by (auto simp: below_def ends_with_iff)

lemma below_trans: "below s h \<Longrightarrow> below t s \<Longrightarrow> below t h"
  by (auto simp: below_iff)

lemma split_once_absent: "hd sep \<notin> set s \<Longrightarrow> sep \<noteq> [] \<Longrightarrow> split_once s sep = None"
proof -
  assume a: "hd sep \<notin> set s" "sep \<noteq> []"
  have "str_find s sep = None"
  proof (rule ccontr)
    assume "str_find s sep \<noteq> None"
    then obtain i where "starts_with (drop i s) sep" by (auto dest: str_find_Some)
    then have "hd sep \<in> set (drop i s)" using a(2) by (cases sep) (auto simp: starts_with_iff)
    then show False using a(1) by (auto dest: in_set_dropD)
  qed
  then show ?thesis by (simp add: split_once_def)
qed

lemma tidy_normal:
  assumes "tidy env p"
  shows "normalize_host env p = p"
proof -
  have p: "p \<noteq> []" "last p \<noteq> 46" "37 \<notin> set p" "58 \<notin> set p" "91 \<notin> set p" "\<forall>c \<in> set p. \<not> is_space c" "ne_lower env p = p"
    using assms by (auto simp: tidy_def list_all_iff)
  have "strip p = p" using p(1,6) by (intro strip_id) auto
  moreover have "\<not> starts_with p [91]" using p(5) by (auto simp: starts_with_iff)
  moreover have "drop_final_dots p = p" using p(1,2) by (cases p rule: rev_cases) (auto simp: drop_final_dots_def)
  moreover have "scoped_literal p (lit ''%25'') = None" "scoped_literal p (lit ''%'') = None"
    using p(3) by (simp_all add: scoped_literal_def split_once_absent)
  ultimately show ?thesis
    using p(4,7) by (simp add: normalize_host_def normalize_dns_host_or_ip_literal_def normalize_ip_literal_def count_list_0_iff del: lit.simps)
qed

lemma tidy_settled: "tidy env p \<Longrightarrow> settled env p"
  by (simp add: settled_def tidy_normal) (simp add: tidy_def)

lemma tidy_pattern_parts: "tidy_pattern env p \<Longrightarrow> tidy env p \<and> tidy env (pattern_suffix p)
   \<and> tidy env (lit ''?*.'' @ pattern_suffix p) \<and> plain_text (pattern_suffix p) \<and> hd (pattern_suffix p) \<noteq> 46"
  by (auto simp: tidy_pattern_def plain_text_def list_all_iff)

lemma tidy_strip: "tidy env p \<Longrightarrow> strip p = p"
  by (intro strip_id) (auto simp: tidy_def list_all_iff)

lemma expand_tidy:
  assumes "tidy_pattern env p"
  shows "expand_domain_pattern (normalize_pattern env p) =
    (if starts_with p (lit ''**.'') then [pattern_suffix p, lit ''?*.'' @ pattern_suffix p]
     else if starts_with p (lit ''*.'') then [lit ''?*.'' @ pattern_suffix p] else [p])"
proof -
  note t = assms [THEN tidy_pattern_parts]
  have s: "strip p = p" "strip (pattern_suffix p) = pattern_suffix p" "normalize_host env (pattern_suffix p) = pattern_suffix p"
    "normalize_host env p = p" "p \<noteq> []" "p \<noteq> lit ''*''"
    using t by (auto simp: tidy_strip tidy_normal tidy_def pattern_suffix_def plain_text_def)
  have rejoin3: "starts_with p (lit ''**.'') \<Longrightarrow> lit ''**.'' @ drop 3 p = p" and rejoin2: "starts_with p (lit ''*.'') \<Longrightarrow> lit ''*.'' @ drop 2 p = p"
    by (auto simp: starts_with_iff)
  show ?thesis
  proof (cases "starts_with p (lit ''**.'')")
    case True
    then have "normalize_pattern env p = p"
      using s rejoin3 [OF True] by (simp add: normalize_pattern_def pattern_suffix_def Let_def del: lit.simps)
    then show ?thesis using True s by (simp add: expand_domain_pattern_def domain_pattern_parse_def pattern_suffix_def Let_def del: lit.simps)
  next
    case False
    show ?thesis
    proof (cases "starts_with p (lit ''*.'')")
      case True
      then have "normalize_pattern env p = p"
        using False s rejoin2 [OF True] by (simp add: normalize_pattern_def pattern_suffix_def Let_def del: lit.simps)
      then show ?thesis using True False s
        by (simp add: expand_domain_pattern_def domain_pattern_parse_def pattern_suffix_def Let_def del: lit.simps)
    next
      case exact: False
      then have "normalize_pattern env p = p"
        using False s by (simp add: normalize_pattern_def Let_def del: lit.simps)
      then show ?thesis using False exact s by (simp add: expand_domain_pattern_def domain_pattern_parse_def Let_def del: lit.simps)
    qed
  qed
qed

lemma expansion_covers:
  assumes "tidy_pattern env p" "ne_lower env h = h"
  shows "list_ex (\<lambda>g. fnmatchcase (ne_lower env h) (ne_lower env g)) (expand_domain_pattern (normalize_pattern env p)) \<longleftrightarrow> covers p h"
proof -
  note t = assms(1) [THEN tidy_pattern_parts]
  have lower: "ne_lower env (pattern_suffix p) = pattern_suffix p" "ne_lower env (lit ''?*.'' @ pattern_suffix p) = lit ''?*.'' @ pattern_suffix p"
    "ne_lower env p = p" using t by (auto simp: tidy_def)
  have "plain_text (46 # pattern_suffix p)" using t by (simp add: plain_text_def)
  then have star: "fnmatchcase h (lit ''?*.'' @ pattern_suffix p) \<longleftrightarrow> below (pattern_suffix p) h"
    using fnmatch_below [of "46 # pattern_suffix p" h] by (simp add: below_iff)
  have exact: "fnmatchcase h (pattern_suffix p) \<longleftrightarrow> h = pattern_suffix p" using t by (simp add: fnmatch_plain)
  show ?thesis
    unfolding expand_tidy [OF assms(1)] covers_def
    using exact star lower assms(2) by (auto simp: pattern_suffix_def simp del: lit.simps split: if_splits)
qed

lemma add_candidates_set: "add_candidates expanded cs = Inr gs \<Longrightarrow> set gs = set expanded \<union> set cs"
proof (induction cs arbitrary: expanded)
  case (Cons c cs)
  show ?case
  proof (cases "c \<in> set expanded")
    case True
    then show ?thesis using Cons by auto
  next
    case False
    then have "add_candidates (expanded @ [c]) cs = Inr gs" using Cons.prems by (auto simp: bindE_eq_Inr)
    from Cons.IH [OF this] show ?thesis by auto
  qed
qed simp

lemma compile_set:
  "compile_globset_loop env b expanded ps = Inr gs \<Longrightarrow>
     set gs = set expanded \<union> (\<Union>p \<in> set ps. set (expand_domain_pattern (normalize_pattern env p)))"
proof (induction ps arbitrary: expanded)
  case (Cons p ps)
  then obtain e where e: "add_candidates expanded (expand_domain_pattern (normalize_pattern env p)) = Inr e"
    "compile_globset_loop env b e ps = Inr gs" by (auto simp: bindE_eq_Inr split: if_splits)
  show ?case using Cons.IH [OF e(2)] add_candidates_set [OF e(1)] by auto
qed simp

lemma compiled_covers:
  assumes "compile_globset_loop env b [] ps = Inr gs" "list_all (tidy_pattern env) ps" "settled env h"
  shows "globset_is_match env gs h \<longleftrightarrow> list_ex (\<lambda>p. covers p h) ps"
proof -
  have "globset_is_match env gs h \<longleftrightarrow>
      (\<exists>p \<in> set ps. list_ex (\<lambda>g. fnmatchcase (ne_lower env h) (ne_lower env g)) (expand_domain_pattern (normalize_pattern env p)))"
    using compile_set [OF assms(1)] assms(3) by (auto simp: globset_is_match_def settled_def list_ex_iff Let_def)
  also have "\<dots> \<longleftrightarrow> (\<exists>p \<in> set ps. covers p h)"
    using assms(2,3) expansion_covers by (auto simp: list_all_iff settled_def)
  finally show ?thesis by (simp add: list_ex_iff)
qed

lemma tidy_balanced: "list_all (\<lambda>c. c \<notin> {91, 93}) p \<Longrightarrow> glob_balanced False e p"
  by (induction p arbitrary: e) auto

lemma tidy_compiles:
  assumes "list_all (tidy_pattern env) ps"
  shows "\<exists>gs. compile_globset_loop env b expanded ps = Inr gs"
proof -
  have ok: "\<exists>gs. add_candidates ex cs = Inr gs" if "\<forall>c \<in> set cs. glob_balanced False False c" for ex cs
    using that by (induction ex cs rule: add_candidates.induct) (auto simp: validate_glob_pattern_def)
  have good: "\<forall>c \<in> set (expand_domain_pattern (normalize_pattern env p)). glob_balanced False False c"
    and no_wild: "\<not> is_global_wildcard_domain_pattern env p" if "tidy_pattern env p" for p
  proof -
    note t = that [THEN tidy_pattern_parts]
    have "list_all (\<lambda>c. c \<notin> {91, 93}) q" if "tidy env q" for q using that by (auto simp: tidy_def list_all_iff)
    then show "\<forall>c \<in> set (expand_domain_pattern (normalize_pattern env p)). glob_balanced False False c"
      using t unfolding expand_tidy [OF that] by (auto intro!: tidy_balanced split: if_splits)
    have "p \<noteq> lit ''*''" "pattern_suffix p \<noteq> lit ''*''" using t by (auto simp: plain_text_def pattern_suffix_def)
    then show "\<not> is_global_wildcard_domain_pattern env p"
      unfolding is_global_wildcard_domain_pattern_def expand_tidy [OF that] by (auto split: if_splits)
  qed
  show ?thesis using assms
  proof (induction ps arbitrary: expanded)
    case (Cons p ps)
    then have p: "tidy_pattern env p" by simp
    from ok [OF good [OF p]] obtain e where "add_candidates expanded (expand_domain_pattern (normalize_pattern env p)) = Inr e" by blast
    then show ?case using Cons no_wild [OF p] by simp
  qed simp
qed

end
