(* ===== verification/MitmHook.thy ===== *)
theory MitmHook
  imports NetHost PyDict PyJson PyPath
begin

text \<open>
  \<open>network_proxy/mitm_hook.py\<close>: rules for intercepted requests. A hook names a host, what it matches in a
  request, and what it strips from and injects into it; the configuration is validated, compiled, and the
  first hook of a host that matches a request is applied.
\<close>

section \<open>Configuration\<close>

record injected_header_config =
  ih_name :: pystr
  ih_env_var :: "pystr option"
  ih_file :: "pystr option"
  ih_prefix :: "pystr option"

record mitm_hook_match_config =
  mc_methods :: "pystr list"
  mc_path_prefixes :: "pystr list"
  mc_query :: "(pystr, pystr list) pydict"
  mc_headers :: "(pystr, pystr list) pydict"
  mc_body :: "json option"

record mitm_hook_actions_config =
  ac_strip :: "pystr list"
  ac_inject :: "injected_header_config list"

record mitm_hook_config =
  hc_host :: pystr
  hc_matcher :: mitm_hook_match_config
  hc_actions :: mitm_hook_actions_config

text \<open>What is wrong with a hook; the whole message names its position.\<close>

datatype hook_problem =
    HookHostEmpty | HookHostWildcard | EmptyMethod | NoMethods | EmptyPathPrefix | NoPathPrefixes | BodyReserved
  | EmptyGlob | BadHookGlob pystr | EmptyQueryKey | NoQueryValues pystr | BadHeaderName pystr
  | EmptyEnvVarName | EmptySecretFile | RelativeSecretFile pystr | OneSecretExpected
  | MissingEnvVar pystr | UnreadableSecretFile pystr | BadHeaderValue pystr

datatype hook_exn = HooksNeedMitm | InvalidHook nat hook_problem

section \<open>Compiled hooks\<close>

datatype path_matcher = PathPrefix pystr | PathGlob pystr
datatype value_matcher = ExactValue pystr | GlobValue pystr
datatype secret_source = EnvVarSource pystr | FileSource pystr

record resolved_injected_header =
  rh_name :: pystr
  rh_value :: pystr
  rh_source :: secret_source

record mitm_hook_actions =
  ha_strip :: "pystr list"
  ha_inject :: "resolved_injected_header list"

record mitm_hook_matcher =
  hm_methods :: "pystr list"
  hm_paths :: "path_matcher list"
  hm_query :: "(pystr \<times> value_matcher list) list"
  hm_headers :: "(pystr \<times> value_matcher list) list"

record mitm_hook =
  mh_host :: pystr
  mh_matcher :: mitm_hook_matcher
  mh_actions :: mitm_hook_actions

section \<open>The parts of a hook\<close>

definition normalize_hook_host :: "net_env \<Rightarrow> pystr \<Rightarrow> (hook_problem, pystr) result" where
  "normalize_hook_host env host =
     (let n = normalize_host env host in
      if n = [] then Inl HookHostEmpty else if 42 \<in> set n then Inl HookHostWildcard else Inr n)"

definition normalize_method :: "net_env \<Rightarrow> pystr \<Rightarrow> (hook_problem, pystr) result" where
  "normalize_method env m = (let n = ne_upper env (strip m) in if n = [] then Inl EmptyMethod else Inr n)"

definition normalize_methods :: "net_env \<Rightarrow> pystr list \<Rightarrow> (hook_problem, pystr list) result" where
  "normalize_methods env ms = mapE (normalize_method env) ms"

text \<open>The literal, or the glob behind \<open>pattern:\<close>.\<close>

definition parse_matcher_pattern :: "pystr \<Rightarrow> (hook_problem, bool \<times> pystr) result" where
  "parse_matcher_pattern p =
     (if starts_with p (lit ''literal:'') then Inr (False, remove_prefix p (lit ''literal:''))
      else if starts_with p (lit ''pattern:'') then
        (let g = remove_prefix p (lit ''pattern:'') in
         if g = [] then Inl EmptyGlob else if \<not> glob_balanced False False g then Inl (BadHookGlob g) else Inr (True, g))
      else Inr (False, p))"

definition compile_path_matcher :: "pystr \<Rightarrow> (hook_problem, path_matcher) result" where
  "compile_path_matcher p =
     bindE (parse_matcher_pattern p) (\<lambda>(glob, s).
       if glob then Inr (PathGlob s) else if s = [] then Inl EmptyPathPrefix else Inr (PathPrefix s))"

definition compile_path_matchers :: "pystr list \<Rightarrow> (hook_problem, path_matcher list) result" where
  "compile_path_matchers ps = mapE compile_path_matcher ps"

definition compile_value_matcher :: "pystr \<Rightarrow> (hook_problem, value_matcher) result" where
  "compile_value_matcher p = bindE (parse_matcher_pattern p) (\<lambda>(glob, s). Inr (if glob then GlobValue s else ExactValue s))"

definition compile_value_matchers :: "pystr list \<Rightarrow> (hook_problem, value_matcher list) result" where
  "compile_value_matchers ps = mapE compile_value_matcher ps"

definition normalize_query_name :: "pystr \<Rightarrow> (hook_problem, pystr) result" where
  "normalize_query_name n = (if n = [] then Inl EmptyQueryKey else Inr n)"

definition is_header_char :: "int \<Rightarrow> bool" where
  "is_header_char c \<longleftrightarrow> 48 \<le> c \<and> c \<le> 57 \<or> 65 \<le> c \<and> c \<le> 90 \<or> 97 \<le> c \<and> c \<le> 122 \<or> c \<in> set (lit ''!#$%&*+-.^_`|~'') \<or> c = 39"

definition parse_header_name :: "net_env \<Rightarrow> pystr \<Rightarrow> (hook_problem, pystr) result" where
  "parse_header_name env n =
     (if n = [] \<or> \<not> list_all is_header_char n then Inl (BadHeaderName n) else Inr (ne_lower env n))"

definition parse_secret_file :: "pystr \<Rightarrow> (hook_problem, pystr) result" where
  "parse_secret_file p =
     (if strip p = [] then Inl EmptySecretFile
      else if \<not> path_is_absolute (path_of p) then Inl (RelativeSecretFile p)
      else Inr (path_str (path_of p)))"

section \<open>Validation\<close>

definition validate_query_constraint :: "pystr \<times> pystr list \<Rightarrow> (hook_problem, unit) result" where
  "validate_query_constraint c =
     bindE (normalize_query_name (fst c)) (\<lambda>_.
       if snd c = [] then Inl (NoQueryValues (fst c)) else bindE (compile_value_matchers (snd c)) (\<lambda>_. Inr ()))"

definition validate_query_constraints :: "(pystr, pystr list) pydict \<Rightarrow> (hook_problem, unit list) result" where
  "validate_query_constraints q = mapE validate_query_constraint q"

definition validate_header_constraints :: "net_env \<Rightarrow> (pystr, pystr list) pydict \<Rightarrow> (hook_problem, unit list) result" where
  "validate_header_constraints env h =
     mapE (\<lambda>c. bindE (parse_header_name env (fst c)) (\<lambda>_. bindE (compile_value_matchers (snd c)) (\<lambda>_. Inr ()))) h"

definition validate_strip_request_headers :: "net_env \<Rightarrow> pystr list \<Rightarrow> (hook_problem, pystr list) result" where
  "validate_strip_request_headers env ns = mapE (parse_header_name env) ns"

definition validate_injected_header :: "net_env \<Rightarrow> injected_header_config \<Rightarrow> (hook_problem, unit) result" where
  "validate_injected_header env h =
     bindE (parse_header_name env (ih_name h)) (\<lambda>_.
       case (ih_env_var h, ih_file h) of
         (Some v, None) \<Rightarrow> if strip v = [] then Inl EmptyEnvVarName else Inr ()
       | (None, Some f) \<Rightarrow> bindE (parse_secret_file f) (\<lambda>_. Inr ())
       | _ \<Rightarrow> Inl OneSecretExpected)"

definition validate_injected_headers :: "net_env \<Rightarrow> injected_header_config list \<Rightarrow> (hook_problem, unit list) result" where
  "validate_injected_headers env hs = mapE (validate_injected_header env) hs"

definition validate_hook :: "net_env \<Rightarrow> mitm_hook_config \<Rightarrow> (hook_problem, unit) result" where
  "validate_hook env h =
     bindE (normalize_hook_host env (hc_host h)) (\<lambda>_.
     bindE (normalize_methods env (mc_methods (hc_matcher h))) (\<lambda>methods.
     bindE (guardE (methods \<noteq> []) NoMethods) (\<lambda>_.
     bindE (compile_path_matchers (mc_path_prefixes (hc_matcher h))) (\<lambda>paths.
     bindE (guardE (paths \<noteq> []) NoPathPrefixes) (\<lambda>_.
     bindE (guardE (mc_body (hc_matcher h) = None) BodyReserved) (\<lambda>_.
     bindE (validate_query_constraints (mc_query (hc_matcher h))) (\<lambda>_.
     bindE (validate_header_constraints env (mc_headers (hc_matcher h))) (\<lambda>_.
     bindE (validate_strip_request_headers env (ac_strip (hc_actions h))) (\<lambda>_.
     bindE (validate_injected_headers env (ac_inject (hc_actions h))) (\<lambda>_. Inr ()))))))))))"

fun validate_hooks_from :: "net_env \<Rightarrow> nat \<Rightarrow> mitm_hook_config list \<Rightarrow> (hook_exn, unit) result" where
  "validate_hooks_from env i [] = Inr ()"
| "validate_hooks_from env i (h # hs) =
     (case validate_hook env h of Inl p \<Rightarrow> Inl (InvalidHook i p) | Inr _ \<Rightarrow> validate_hooks_from env (Suc i) hs)"

definition validate_mitm_hook_config :: "net_env \<Rightarrow> bool \<Rightarrow> mitm_hook_config list \<Rightarrow> (hook_exn, unit) result" where
  "validate_mitm_hook_config env mitm hooks =
     (if hooks = [] then Inr () else if \<not> mitm then Inl HooksNeedMitm else validate_hooks_from env 0 hooks)"

section \<open>Compilation\<close>

datatype compile_exn = InvalidConfig hook_exn | CompileFailed hook_problem

text \<open>The value of a secret with its prefix, which must not break the line of the header.\<close>

definition injected_header_value ::
    "injected_header_config \<Rightarrow> pystr \<Rightarrow> secret_source \<Rightarrow> pystr \<Rightarrow> (hook_problem, resolved_injected_header) result" where
  "injected_header_value h name source secret =
     (let v = (case ih_prefix h of None \<Rightarrow> [] | Some p \<Rightarrow> p) @ secret in
      if 13 \<in> set v \<or> 10 \<in> set v then Inl (BadHeaderValue (ih_name h))
      else Inr \<lparr>rh_name = name, rh_value = v, rh_source = source\<rparr>)"

definition compile_injected_header :: "net_env \<Rightarrow> injected_header_config \<Rightarrow> (hook_problem, resolved_injected_header) result" where
  "compile_injected_header env h =
     bindE (parse_header_name env (ih_name h)) (\<lambda>name.
       case (ih_env_var h, ih_file h) of
         (Some v, None) \<Rightarrow>
           (case ne_env_var env v of
              None \<Rightarrow> Inl (MissingEnvVar v)
            | Some secret \<Rightarrow> injected_header_value h name (EnvVarSource v) secret)
       | (None, Some f) \<Rightarrow>
           bindE (parse_secret_file f) (\<lambda>path.
             case ne_secret_file env path of
               None \<Rightarrow> Inl (UnreadableSecretFile path)
             | Some contents \<Rightarrow> injected_header_value h name (FileSource path) (strip contents))
       | _ \<Rightarrow> Inl OneSecretExpected)"

definition compile_actions :: "net_env \<Rightarrow> mitm_hook_actions_config \<Rightarrow> (hook_problem, mitm_hook_actions) result" where
  "compile_actions env a =
     bindE (mapE (parse_header_name env) (ac_strip a)) (\<lambda>strips.
     bindE (mapE (compile_injected_header env) (ac_inject a)) (\<lambda>injected.
     Inr \<lparr>ha_strip = strips, ha_inject = injected\<rparr>))"

definition compile_hook :: "net_env \<Rightarrow> mitm_hook_config \<Rightarrow> (hook_problem, mitm_hook) result" where
  "compile_hook env h =
     bindE (normalize_hook_host env (hc_host h)) (\<lambda>host.
     bindE (mapE (\<lambda>(n, vs). bindE (normalize_query_name n) (\<lambda>n'. bindE (compile_value_matchers vs) (\<lambda>ms. Inr (n', ms))))
       (mc_query (hc_matcher h))) (\<lambda>query.
     bindE (mapE (\<lambda>(n, vs). bindE (parse_header_name env n) (\<lambda>n'. bindE (compile_value_matchers vs) (\<lambda>ms. Inr (n', ms))))
       (mc_headers (hc_matcher h))) (\<lambda>headers.
     bindE (compile_actions env (hc_actions h)) (\<lambda>actions.
     bindE (normalize_methods env (mc_methods (hc_matcher h))) (\<lambda>methods.
     bindE (compile_path_matchers (mc_path_prefixes (hc_matcher h))) (\<lambda>paths.
     Inr \<lparr>mh_host = host,
          mh_matcher = \<lparr>hm_methods = methods, hm_paths = paths, hm_query = query, hm_headers = headers\<rparr>,
          mh_actions = actions\<rparr>))))))"

definition add_hook :: "mitm_hook \<Rightarrow> (pystr, mitm_hook list) pydict \<Rightarrow> (pystr, mitm_hook list) pydict" where
  "add_hook hook d =
     dict_set (mh_host hook) ((case dict_get d (mh_host hook) of None \<Rightarrow> [] | Some hs \<Rightarrow> hs) @ [hook]) d"

definition compile_mitm_hooks ::
    "net_env \<Rightarrow> bool \<Rightarrow> mitm_hook_config list \<Rightarrow> (compile_exn, (pystr, mitm_hook list) pydict) result" where
  "compile_mitm_hooks env mitm hooks =
     (case validate_mitm_hook_config env mitm hooks of
        Inl e \<Rightarrow> Inl (InvalidConfig e)
      | Inr _ \<Rightarrow>
          (case mapE (compile_hook env) hooks of
             Inl p \<Rightarrow> Inl (CompileFailed p)
           | Inr compiled \<Rightarrow> Inr (fold add_hook compiled [])))"

section \<open>Matching requests\<close>

text \<open>A request has several values for a header; a failing expression or URL raises, which is \<open>None\<close>.\<close>

record mitm_request =
  rq_method :: pystr
  rq_uri :: pystr
  rq_headers :: "(pystr \<times> pystr list) list"

definition regex_special :: "int \<Rightarrow> bool" where
  "regex_special c \<longleftrightarrow> c \<in> set (lit ''()[]{}?*+-|^$.&~# '') \<or> c = 92 \<or> 9 \<le> c \<and> c \<le> 13"

definition regex_escape :: "int \<Rightarrow> pystr" where
  "regex_escape c = (if regex_special c then [92, c] else [c])"

fun glob_regex_body :: "bool \<Rightarrow> nat \<Rightarrow> pystr \<Rightarrow> pystr option" where
  "glob_regex_body sep skip [] = Some []"
| "glob_regex_body sep (Suc skip) (c # s) = glob_regex_body sep skip s"
| "glob_regex_body sep 0 (c # s) =
     (if c = 42 then map_option ((@) (if sep then lit ''[^/]*'' else lit ''.*'')) (glob_regex_body sep 0 s)
      else if c = 63 then map_option ((@) (if sep then lit ''[^/]'' else lit ''.'')) (glob_regex_body sep 0 s)
      else if c = 91 then
        (case index_from 0 93 s of
           None \<Rightarrow> None
         | Some j \<Rightarrow> map_option ((@) (91 # take (Suc j) s)) (glob_regex_body sep (Suc j) s))
      else if c = 92 \<and> s \<noteq> [] then map_option ((@) (regex_escape (hd s))) (glob_regex_body sep 1 s)
      else map_option ((@) (regex_escape c)) (glob_regex_body sep 0 s))"

definition glob_to_regex :: "bool \<Rightarrow> pystr \<Rightarrow> pystr option" where
  "glob_to_regex sep p = map_option (\<lambda>b. lit ''^'' @ b @ lit ''$'') (glob_regex_body sep 0 p)"

fun path_matches :: "net_env \<Rightarrow> path_matcher \<Rightarrow> pystr \<Rightarrow> bool option" where
  "path_matches env (PathPrefix p) s = Some (starts_with s p)"
| "path_matches env (PathGlob g) s = Option.bind (glob_to_regex True g) (\<lambda>r. ne_fullmatch env r s)"

fun value_matches :: "value_matcher \<Rightarrow> pystr \<Rightarrow> bool" where
  "value_matches (ExactValue v) s = (s = v)"
| "value_matches (GlobValue g) s = fnmatchcase s g"

fun any_path_matches :: "net_env \<Rightarrow> path_matcher list \<Rightarrow> pystr \<Rightarrow> bool option" where
  "any_path_matches env [] s = Some False"
| "any_path_matches env (m # ms) s =
     (case path_matches env m s of
        None \<Rightarrow> None
      | Some b \<Rightarrow> if b then Some True else any_path_matches env ms s)"

text \<open>The values under a name, of a list of names and values.\<close>

definition values_of :: "pystr \<Rightarrow> (pystr \<times> pystr list) list \<Rightarrow> pystr list" where
  "values_of n kvs = concat (map snd (filter (\<lambda>kv. fst kv = n) kvs))"

definition mitm_query_matches :: "net_env \<Rightarrow> (pystr \<times> value_matcher list) list \<Rightarrow> pystr \<Rightarrow> bool" where
  "mitm_query_matches env constraints raw_query =
     (let actual = map (\<lambda>(n, v). (n, [v])) (ne_parse_qsl env raw_query) in
      list_all (\<lambda>(n, allowed). values_of n actual \<noteq> [] \<and> list_ex (\<lambda>v. list_ex (\<lambda>m. value_matches m v) allowed) (values_of n actual))
        constraints)"

definition mitm_headers_match :: "net_env \<Rightarrow> (pystr \<times> value_matcher list) list \<Rightarrow> (pystr \<times> pystr list) list \<Rightarrow> bool" where
  "mitm_headers_match env constraints headers =
     (let actual = map (\<lambda>(n, vs). (ne_lower env n, vs)) headers in
      list_all (\<lambda>(n, allowed). let vs = values_of (ne_lower env n) actual in
          vs \<noteq> [] \<and> (allowed = [] \<or> list_ex (\<lambda>v. list_ex (\<lambda>m. value_matches m v) allowed) vs))
        constraints)"

definition request_path :: "pystr \<Rightarrow> pystr \<Rightarrow> pystr" where
  "request_path parsed_path uri =
     (let before_query = takeWhile (\<lambda>c. c \<noteq> 63) uri in
      if parsed_path \<noteq> [] then parsed_path else if before_query \<noteq> [] then before_query else lit ''/'')"

definition mitm_hook_matches :: "net_env \<Rightarrow> mitm_hook \<Rightarrow> mitm_request \<Rightarrow> bool option" where
  "mitm_hook_matches env hook rq =
     (let m = mh_matcher hook in
      if ne_upper env (rq_method rq) \<notin> set (hm_methods m) then Some False
      else Option.bind (ne_urlparse env (rq_uri rq)) (\<lambda>(path, query).
        Option.bind (any_path_matches env (hm_paths m) (request_path path (rq_uri rq))) (\<lambda>b.
          Some (b \<and> mitm_query_matches env (hm_query m) query \<and> mitm_headers_match env (hm_headers m) (rq_headers rq)))))"

datatype mitm_hook_evaluation = NoHooksForHost | HookedHostNoMatch | HookMatched mitm_hook_actions

fun first_matching_hook :: "net_env \<Rightarrow> mitm_hook list \<Rightarrow> mitm_request \<Rightarrow> mitm_hook_evaluation option" where
  "first_matching_hook env [] rq = Some HookedHostNoMatch"
| "first_matching_hook env (h # hs) rq =
     Option.bind (mitm_hook_matches env h rq) (\<lambda>b. if b then Some (HookMatched (mh_actions h)) else first_matching_hook env hs rq)"

definition evaluate_mitm_hooks ::
    "net_env \<Rightarrow> (pystr, mitm_hook list) pydict \<Rightarrow> pystr \<Rightarrow> mitm_request \<Rightarrow> mitm_hook_evaluation option" where
  "evaluate_mitm_hooks env hooks_by_host host rq =
     (case dict_get hooks_by_host (normalize_host env host) of
        None \<Rightarrow> Some NoHooksForHost
      | Some hs \<Rightarrow> first_matching_hook env hs rq)"

section \<open>Compiled hooks by host\<close>

lemma add_hook_get:
  "dict_get (add_hook k d) h =
     (if mh_host k = h then Some ((case dict_get d h of None \<Rightarrow> [] | Some xs \<Rightarrow> xs) @ [k]) else dict_get d h)"
  by (auto simp: add_hook_def)

lemma add_hooks_get:
  "dict_get (fold add_hook hs d) h =
     (let old = (case dict_get d h of None \<Rightarrow> [] | Some xs \<Rightarrow> xs); new = filter (\<lambda>k. mh_host k = h) hs in
      if dict_get d h = None \<and> new = [] then None else Some (old @ new))"
proof (induction hs arbitrary: d)
  case Nil
  show ?case by (cases "dict_get d h") simp_all
next
  case (Cons k hs)
  show ?case by (cases "mh_host k = h") (auto simp: Cons.IH add_hook_get Let_def split: option.splits)
qed

lemma first_matching_hook_iff:
  "first_matching_hook env hs rq = Some (HookMatched a) \<longleftrightarrow>
     (\<exists>pre h post. hs = pre @ h # post \<and> list_all (\<lambda>k. mitm_hook_matches env k rq = Some False) pre
        \<and> mitm_hook_matches env h rq = Some True \<and> a = mh_actions h)"
proof (induction hs)
  case (Cons h hs)
  show ?case (is "?l \<longleftrightarrow> ?r")
  proof (cases "mitm_hook_matches env h rq")
    case None
    then show ?thesis by (auto simp: Cons_eq_append_conv)
  next
    case (Some b)
    show ?thesis
    proof (cases b)
      case True
      then have "?l \<longleftrightarrow> a = mh_actions h" using Some by auto
      also have "\<dots> \<longleftrightarrow> ?r"
      proof
        assume "a = mh_actions h"
        then show ?r using Some True by (intro exI [of _ "[]"] exI [of _ h] exI [of _ hs]) simp
      qed (use Some True in \<open>auto simp: Cons_eq_append_conv\<close>)
      finally show ?thesis .
    next
      case False
      then have "?l \<longleftrightarrow> first_matching_hook env hs rq = Some (HookMatched a)" using Some by simp
      also have "\<dots> \<longleftrightarrow> ?r" unfolding Cons.IH
      proof
        assume "\<exists>pre k post. hs = pre @ k # post \<and> list_all (\<lambda>k. mitm_hook_matches env k rq = Some False) pre
            \<and> mitm_hook_matches env k rq = Some True \<and> a = mh_actions k"
        then obtain pre k post where "hs = pre @ k # post" "list_all (\<lambda>k. mitm_hook_matches env k rq = Some False) pre"
          "mitm_hook_matches env k rq = Some True" "a = mh_actions k" by blast
        then show ?r using Some False by (intro exI [of _ "h # pre"] exI [of _ k] exI [of _ post]) simp
      next
        assume ?r
        then show "\<exists>pre k post. hs = pre @ k # post \<and> list_all (\<lambda>k. mitm_hook_matches env k rq = Some False) pre
            \<and> mitm_hook_matches env k rq = Some True \<and> a = mh_actions k"
          using Some False by (elim exE conjE) (auto simp: Cons_eq_append_conv, blast?)
      qed
      finally show ?thesis .
    qed
  qed
qed simp

definition clean_header :: "net_env \<Rightarrow> resolved_injected_header \<Rightarrow> bool" where
  "clean_header env h \<longleftrightarrow> 10 \<notin> set (rh_value h) \<and> 13 \<notin> set (rh_value h)
     \<and> (\<exists>n. n \<noteq> [] \<and> list_all is_header_char n \<and> rh_name h = ne_lower env n)"

lemma parse_header_name_ok: "parse_header_name env n = Inr m \<longleftrightarrow> n \<noteq> [] \<and> list_all is_header_char n \<and> m = ne_lower env n"
  by (auto simp: parse_header_name_def)

lemma injected_value_ok:
  "injected_header_value h name source secret = Inr r \<Longrightarrow> rh_name r = name \<and> 10 \<notin> set (rh_value r) \<and> 13 \<notin> set (rh_value r)"
  by (auto simp: injected_header_value_def Let_def split: if_splits)

lemma compiled_header_clean: "compile_injected_header env h = Inr r \<Longrightarrow> clean_header env r"
  by (auto simp: compile_injected_header_def bindE_eq_Inr parse_header_name_ok clean_header_def
      split: option.splits dest!: injected_value_ok)

lemma compiled_hook_parts:
  assumes "compile_hook env c = Inr h"
  shows "normalize_hook_host env (hc_host c) = Inr (mh_host h)" "list_all (clean_header env) (ha_inject (mh_actions h))"
proof -
  show "normalize_hook_host env (hc_host c) = Inr (mh_host h)"
    using assms by (auto simp: compile_hook_def bindE_eq_Inr)
  have "list_all2 (\<lambda>i r. compile_injected_header env i = Inr r) (ac_inject (hc_actions c)) (ha_inject (mh_actions h))"
    using assms by (auto simp: compile_hook_def compile_actions_def bindE_eq_Inr mapE_eq_Inr)
  then show "list_all (clean_header env) (ha_inject (mh_actions h))"
    by (induction rule: list_all2_induct) (auto dest: compiled_header_clean)
qed

text \<open>Whatever can still fail once a hook is valid is a matter of its secrets.\<close>

fun secret_problem :: "hook_problem \<Rightarrow> bool" where
  "secret_problem (MissingEnvVar v) = True"
| "secret_problem (UnreadableSecretFile f) = True"
| "secret_problem (BadHeaderValue n) = True"
| "secret_problem p = False"

lemma mapE_ok: "(\<And>x. x \<in> set xs \<Longrightarrow> \<exists>y. f x = Inr y) \<Longrightarrow> \<exists>ys. mapE f xs = Inr ys"
  by (induction xs) force+

lemma mapE_Inr_all: "mapE f xs = Inr ys \<Longrightarrow> x \<in> set xs \<Longrightarrow> \<exists>y. f x = Inr y"
  by (induction xs arbitrary: ys) (auto simp: bindE_eq_Inr)

lemma valid_header_compiles:
  assumes "validate_injected_header env h = Inr ()" "compile_injected_header env h = Inl p"
  shows "secret_problem p"
  using assms
  by (auto simp: validate_injected_header_def compile_injected_header_def injected_header_value_def Let_def
      bindE_eq_Inr bindE_eq_Inl split: option.splits if_splits)

lemma valid_hook_compiles:
  assumes "validate_hook env c = Inr ()" "compile_hook env c = Inl p"
  shows "secret_problem p"
proof -
  have v: "\<exists>n. normalize_hook_host env (hc_host c) = Inr n" "\<exists>ms. normalize_methods env (mc_methods (hc_matcher c)) = Inr ms"
    "\<exists>ps. compile_path_matchers (mc_path_prefixes (hc_matcher c)) = Inr ps"
    "\<exists>us. mapE validate_query_constraint (mc_query (hc_matcher c)) = Inr us"
    "\<exists>us. validate_header_constraints env (mc_headers (hc_matcher c)) = Inr us"
    "\<exists>ss. mapE (parse_header_name env) (ac_strip (hc_actions c)) = Inr ss"
    "\<exists>us. mapE (validate_injected_header env) (ac_inject (hc_actions c)) = Inr us"
    using assms(1) by (auto simp: validate_hook_def bindE_eq_Inr validate_query_constraints_def
        validate_strip_request_headers_def validate_injected_headers_def)
  have "\<exists>qs. mapE (\<lambda>(n, vs). bindE (normalize_query_name n) (\<lambda>n'. bindE (compile_value_matchers vs) (\<lambda>ms. Inr (n', ms))))
      (mc_query (hc_matcher c)) = Inr qs"
    using v(4) by (intro mapE_ok) (auto dest!: mapE_Inr_all simp: validate_query_constraint_def bindE_eq_Inr split: if_splits)
  moreover have "\<exists>hs. mapE (\<lambda>(n, vs). bindE (parse_header_name env n) (\<lambda>n'. bindE (compile_value_matchers vs) (\<lambda>ms. Inr (n', ms))))
      (mc_headers (hc_matcher c)) = Inr hs"
    using v(5) by (intro mapE_ok) (auto dest!: mapE_Inr_all simp: validate_header_constraints_def bindE_eq_Inr)
  ultimately have "mapE (compile_injected_header env) (ac_inject (hc_actions c)) = Inl p"
    using assms(2) v by (auto simp: compile_hook_def compile_actions_def bindE_eq_Inl)
  then obtain h where "h \<in> set (ac_inject (hc_actions c))" "compile_injected_header env h = Inl p"
    by (auto dest: mapE_Inl)
  moreover have "validate_injected_header env h = Inr ()" using v(7) calculation(1) by (auto dest: mapE_Inr_all)
  ultimately show ?thesis using valid_header_compiles by blast
qed

lemma validate_hooks_all: "validate_hooks_from env i hs = Inr () \<longleftrightarrow> list_all (\<lambda>h. validate_hook env h = Inr ()) hs"
  by (induction hs arbitrary: i) (auto split: sum.split)

lemma compile_mitm_hooks_ok:
  "compile_mitm_hooks env mitm cfgs = Inr d \<longleftrightarrow>
     (\<exists>hooks. validate_mitm_hook_config env mitm cfgs = Inr () \<and> mapE (compile_hook env) cfgs = Inr hooks \<and> d = fold add_hook hooks [])"
  by (auto simp: compile_mitm_hooks_def split: sum.splits)

text \<open>
  C16: A valid hook configuration compiles, unless a secret is missing, unreadable or breaks its line. A request is
  given the actions of the first hook of its host, in the order of the configuration, that matches it; the
  headers injected then have a well-formed name and a value on one line.
\<close>

theorem first_matching_hook_applies:
  assumes "validate_mitm_hook_config env mitm cfgs = Inr ()"
  shows "case compile_mitm_hooks env mitm cfgs of
      Inl e \<Rightarrow> (\<exists>p. e = CompileFailed p \<and> secret_problem p)
    | Inr d \<Rightarrow> (\<exists>hooks. mapE (compile_hook env) cfgs = Inr hooks
        \<and> (evaluate_mitm_hooks env d host rq = Some (HookMatched a) \<longleftrightarrow>
            (\<exists>pre h post. filter (\<lambda>k. mh_host k = normalize_host env host) hooks = pre @ h # post
              \<and> list_all (\<lambda>k. mitm_hook_matches env k rq = Some False) pre
              \<and> mitm_hook_matches env h rq = Some True \<and> a = mh_actions h)))
        \<and> (evaluate_mitm_hooks env d host rq = Some (HookMatched a) \<longrightarrow> list_all (clean_header env) (ha_inject a))"
proof (cases "mapE (compile_hook env) cfgs")
  case (Inl p)
  then obtain c where "c \<in> set cfgs" "compile_hook env c = Inl p" by (auto dest: mapE_Inl)
  moreover have "list_all (\<lambda>h. validate_hook env h = Inr ()) cfgs"
    using assms calculation(1) by (auto simp: validate_mitm_hook_config_def validate_hooks_all split: if_splits)
  ultimately have "secret_problem p" using valid_hook_compiles by (auto simp: list_all_iff)
  then show ?thesis using assms Inl by (simp add: compile_mitm_hooks_def)
next
  case (Inr hooks)
  let ?d = "fold add_hook hooks []" and ?own = "filter (\<lambda>k. mh_host k = normalize_host env host) hooks"
  have get: "dict_get ?d (normalize_host env host) = (if ?own = [] then None else Some ?own)"
    using add_hooks_get [of hooks "[]"] by (simp add: dict_get_def)
  have eval: "evaluate_mitm_hooks env ?d host rq = Some (HookMatched a) \<longleftrightarrow> first_matching_hook env ?own rq = Some (HookMatched a)"
    by (simp add: evaluate_mitm_hooks_def get)
  have clean: "list_all (\<lambda>h. list_all (clean_header env) (ha_inject (mh_actions h))) hooks"
    using Inr unfolding mapE_eq_Inr by (induction rule: list_all2_induct) (auto dest: compiled_hook_parts(2))
  have "list_all (clean_header env) (ha_inject a)" if m: "first_matching_hook env ?own rq = Some (HookMatched a)"
  proof -
    obtain pre h post where h: "?own = pre @ h # post" "a = mh_actions h" using m unfolding first_matching_hook_iff by blast
    then have "h \<in> set ?own" by simp
    then have "h \<in> set hooks" by simp
    then show ?thesis using clean h(2) by (simp add: list_all_iff)
  qed
  then show ?thesis using assms Inr unfolding eval [symmetric]
    by (simp add: compile_mitm_hooks_def eval first_matching_hook_iff)
qed

definition sample_hook :: mitm_hook_config where
  "sample_hook = \<lparr>hc_host = lit ''API.example.com'',
     hc_matcher = \<lparr>mc_methods = [lit ''get''], mc_path_prefixes = [lit ''/v1''], mc_query = [], mc_headers = [], mc_body = None\<rparr>,
     hc_actions = \<lparr>ac_strip = [lit ''Cookie''],
       ac_inject = [\<lparr>ih_name = lit ''Authorization'', ih_env_var = Some (lit ''TOKEN''), ih_file = None, ih_prefix = Some (lit ''Bearer '')\<rparr>]\<rparr>\<rparr>"

definition sample_request :: mitm_request where
  "sample_request = \<lparr>rq_method = lit ''GET'', rq_uri = lit ''/v1/models'', rq_headers = []\<rparr>"

definition sample_actions :: mitm_hook_actions where
  "sample_actions = \<lparr>ha_strip = [lit ''cookie''],
     ha_inject = [\<lparr>rh_name = lit ''authorization'', rh_value = lit ''Bearer s3cret'', rh_source = EnvVarSource (lit ''TOKEN'')\<rparr>]\<rparr>"

theorem first_matching_hook_applies_witness:
  "validate_mitm_hook_config plain_net_env True [sample_hook] = Inr ()
   \<and> (\<exists>d. compile_mitm_hooks plain_net_env True [sample_hook] = Inr d
       \<and> evaluate_mitm_hooks plain_net_env d (lit ''api.example.com'') sample_request = Some (HookMatched sample_actions)
       \<and> list_all (clean_header plain_net_env) (ha_inject sample_actions))"
proof -
  have v: "validate_mitm_hook_config plain_net_env True [sample_hook] = Inr ()" by code_simp
  have c: "(case compile_mitm_hooks plain_net_env True [sample_hook] of Inl _ \<Rightarrow> False
      | Inr d \<Rightarrow> evaluate_mitm_hooks plain_net_env d (lit ''api.example.com'') sample_request = Some (HookMatched sample_actions))"
    by code_simp
  then obtain d where d: "compile_mitm_hooks plain_net_env True [sample_hook] = Inr d"
    "evaluate_mitm_hooks plain_net_env d (lit ''api.example.com'') sample_request = Some (HookMatched sample_actions)"
    by (auto split: sum.splits)
  then show ?thesis
    using first_matching_hook_applies [OF v, of "lit ''api.example.com''" sample_request sample_actions] v by auto
qed

end
