(* ===== verification/NetConfig.thy ===== *)
theory NetConfig
  imports MitmHook "HOL-Library.List_Lexorder"
begin

text \<open>
  \<open>network_proxy/config.py\<close> and \<open>state.py\<close>: the settings of the network proxy, the addresses it listens on,
  and the constraints an administrator puts on the settings. \<open>None\<close> for a domain list is the empty list, as
  every caller reads it.
\<close>

section \<open>Settings\<close>

datatype domain_permission = NonePermission | AllowPermission | DenyPermission

datatype net_mode = FullMode | LimitedMode

definition mode_allows_method :: "net_mode \<Rightarrow> pystr \<Rightarrow> bool" where
  "mode_allows_method mode m \<longleftrightarrow> mode = FullMode \<or> m \<in> {lit ''GET'', lit ''HEAD'', lit ''OPTIONS''}"

record net_config =
  nc_enabled :: bool
  nc_proxy_url :: pystr
  nc_enable_socks5 :: bool
  nc_socks_url :: pystr
  nc_enable_socks5_udp :: bool
  nc_allow_upstream_proxy :: bool
  nc_allow_non_loopback_proxy :: bool
  nc_allow_all_unix_sockets :: bool
  nc_mode :: net_mode
  nc_mitm :: bool
  nc_mitm_hooks :: "mitm_hook_config list"
  nc_allow_unix_sockets :: "pystr list"
  nc_allow_local_binding :: bool
  nc_allowed :: "pystr list"
  nc_denied :: "pystr list"

definition default_config :: net_config where
  "default_config = \<lparr>nc_enabled = False, nc_proxy_url = lit ''http://127.0.0.1:3128'', nc_enable_socks5 = True,
     nc_socks_url = lit ''http://127.0.0.1:8081'', nc_enable_socks5_udp = True, nc_allow_upstream_proxy = True,
     nc_allow_non_loopback_proxy = False, nc_allow_all_unix_sockets = False, nc_mode = FullMode, nc_mitm = False,
     nc_mitm_hooks = [], nc_allow_unix_sockets = [], nc_allow_local_binding = False, nc_allowed = [], nc_denied = []\<rparr>"

definition set_allowed_domains :: "net_env \<Rightarrow> pystr list \<Rightarrow> net_config \<Rightarrow> net_config" where
  "set_allowed_domains env ds c = c\<lparr>nc_allowed := map (normalize_host env) ds\<rparr>"

definition set_denied_domains :: "net_env \<Rightarrow> pystr list \<Rightarrow> net_config \<Rightarrow> net_config" where
  "set_denied_domains env ds c = c\<lparr>nc_denied := map (normalize_host env) ds\<rparr>"

definition allowed_domains :: "net_config \<Rightarrow> pystr list" where
  "allowed_domains c = filter (\<lambda>e. e \<notin> set (nc_denied c)) (nc_allowed c)"

definition denied_domains :: "net_config \<Rightarrow> pystr list" where
  "denied_domains c = nc_denied c"

definition set_allow_unix_sockets :: "pystr list \<Rightarrow> net_config \<Rightarrow> net_config" where
  "set_allow_unix_sockets sockets c = c\<lparr>nc_allow_unix_sockets := sort (remdups sockets)\<rparr>"

definition allow_unix_sockets_effective :: "net_config \<Rightarrow> pystr list" where
  "allow_unix_sockets_effective c = sort (remdups (nc_allow_unix_sockets c))"

definition upsert_domain_permission :: "net_env \<Rightarrow> pystr \<Rightarrow> domain_permission \<Rightarrow> net_config \<Rightarrow> net_config" where
  "upsert_domain_permission env host permission c =
     (let n = normalize_host env host;
          allowed = filter (\<lambda>e. e \<noteq> n) (nc_allowed c);
          denied = filter (\<lambda>e. e \<noteq> n) (nc_denied c)
      in case permission of
           AllowPermission \<Rightarrow> c\<lparr>nc_allowed := allowed @ [n], nc_denied := denied\<rparr>
         | DenyPermission \<Rightarrow> c\<lparr>nc_allowed := allowed, nc_denied := denied @ [n]\<rparr>
         | NonePermission \<Rightarrow> c\<lparr>nc_allowed := allowed, nc_denied := denied\<rparr>)"

fun domain_permission_rank :: "domain_permission \<Rightarrow> nat" where
  "domain_permission_rank NonePermission = 0"
| "domain_permission_rank AllowPermission = 1"
| "domain_permission_rank DenyPermission = 2"

fun effective_entries_loop ::
    "(pystr, domain_permission) pydict \<Rightarrow> (pystr \<times> domain_permission) list \<Rightarrow> (pystr, domain_permission) pydict" where
  "effective_entries_loop effective [] = effective"
| "effective_entries_loop effective ((pattern, permission) # rest) =
     (case dict_get effective pattern of
        None \<Rightarrow> effective_entries_loop (dict_set pattern permission effective) rest
      | Some old \<Rightarrow>
          if domain_permission_rank permission > domain_permission_rank old
          then effective_entries_loop (dict_set pattern permission effective) rest
          else effective_entries_loop effective rest)"

definition effective_domain_entries :: "pystr list \<Rightarrow> pystr list \<Rightarrow> (pystr, domain_permission) pydict" where
  "effective_domain_entries allowed denied =
     effective_entries_loop [] (map (\<lambda>p. (p, AllowPermission)) allowed @ map (\<lambda>p. (p, DenyPermission)) denied)"

text \<open>\<open>_clone_network_proxy_config\<close> sets the domain lists anew: they are normalised once more.\<close>

definition clone_config :: "net_env \<Rightarrow> net_config \<Rightarrow> net_config" where
  "clone_config env c = set_denied_domains env (denied_domains c) (set_allowed_domains env (allowed_domains c) c)"

section \<open>Constraints\<close>

record net_constraints =
  co_enabled :: "bool option"
  co_mode :: "net_mode option"
  co_allow_upstream_proxy :: "bool option"
  co_allow_non_loopback_proxy :: "bool option"
  co_allow_all_unix_sockets :: "bool option"
  co_allowed_domains :: "pystr list option"
  co_denied_domains :: "pystr list option"
  co_allowlist_expansion :: "bool option"
  co_denylist_expansion :: "bool option"
  co_allow_unix_sockets :: "pystr list option"
  co_allow_local_binding :: "bool option"

definition no_constraints :: net_constraints where
  "no_constraints = \<lparr>co_enabled = None, co_mode = None, co_allow_upstream_proxy = None, co_allow_non_loopback_proxy = None,
     co_allow_all_unix_sockets = None, co_allowed_domains = None, co_denied_domains = None, co_allowlist_expansion = None,
     co_denylist_expansion = None, co_allow_unix_sockets = None, co_allow_local_binding = None\<rparr>"

text \<open>\<open>NetworkProxyConstraintError\<close> names the field, the candidate and what is allowed; the other is a plain \<open>ValueError\<close>.\<close>

datatype config_exn = RelativeSocket nat pystr | InvalidValue pystr pystr pystr | InvalidHooks hook_exn

definition is_constraint_error :: "config_exn \<Rightarrow> bool" where
  "is_constraint_error e = (case e of RelativeSocket _ _ \<Rightarrow> False | _ \<Rightarrow> True)"

fun socket_path_problem :: "nat \<Rightarrow> pystr list \<Rightarrow> (config_exn, unit) result" where
  "socket_path_problem i [] = Inr ()"
| "socket_path_problem i (p # ps) =
     (if \<not> path_is_absolute (path_of p) \<and> \<not> starts_with p (lit ''/'') then Inl (RelativeSocket i p)
      else socket_path_problem (Suc i) ps)"

definition validate_unix_socket_allowlist_paths :: "net_config \<Rightarrow> (config_exn, unit) result" where
  "validate_unix_socket_allowlist_paths c = socket_path_problem 0 (allow_unix_sockets_effective c)"

fun validate_non_global_wildcard_domain_patterns ::
    "net_env \<Rightarrow> string \<Rightarrow> pystr list \<Rightarrow> (config_exn, unit) result" where
  "validate_non_global_wildcard_domain_patterns env field [] = Inr ()"
| "validate_non_global_wildcard_domain_patterns env field (p # ps) =
     (if is_global_wildcard_domain_pattern env p
      then Inl (InvalidValue (lit field) (strip p)
        (lit ''exact hosts or scoped wildcards like *.example.com or **.example.com''))
      else validate_non_global_wildcard_domain_patterns env field ps)"

definition network_mode_rank :: "net_mode \<Rightarrow> nat" where
  "network_mode_rank m = (if m = LimitedMode then 0 else 1)"

definition rust_debug_network_mode :: "net_mode \<Rightarrow> pystr" where
  "rust_debug_network_mode m = (if m = LimitedMode then lit ''Limited'' else lit ''Full'')"

definition rust_debug_list :: "pystr list \<Rightarrow> pystr" where
  "rust_debug_list vs = lit ''['' @ join_with (lit '', '') (map (\<lambda>v. [34] @ v @ [34]) vs) @ lit '']''"

definition disabled_by_managed_config :: "string \<Rightarrow> config_exn" where
  "disabled_by_managed_config field = InvalidValue (lit field) (lit ''true'') (lit ''false (disabled by managed config)'')"

definition validate_mode :: "net_config \<Rightarrow> net_constraints \<Rightarrow> (config_exn, unit) result" where
  "validate_mode c k =
     (case co_mode k of
        None \<Rightarrow> Inr ()
      | Some max_mode \<Rightarrow> guardE (network_mode_rank (nc_mode c) \<le> network_mode_rank max_mode)
          (InvalidValue (lit ''network.mode'') (rust_debug_network_mode (nc_mode c))
            (rust_debug_network_mode max_mode @ lit '' or more restrictive'')))"

text \<open>Whether all sockets may be allowed: as the constraint says, or else if it lists none.\<close>

definition all_unix_sockets_allowed :: "net_constraints \<Rightarrow> bool" where
  "all_unix_sockets_allowed k =
     (case co_allow_all_unix_sockets k of Some b \<Rightarrow> b | None \<Rightarrow> co_allow_unix_sockets k = None)"

definition lower_set :: "net_env \<Rightarrow> pystr list \<Rightarrow> pystr set" where
  "lower_set env entries = set (map (ne_lower env) entries)"

text \<open>\<open>sorted(...)\<close> of the entries of a lower-case set that are in none of the others.\<close>

definition sorted_missing :: "net_env \<Rightarrow> pystr list \<Rightarrow> pystr set \<Rightarrow> pystr list" where
  "sorted_missing env required present = sort (remdups (filter (\<lambda>e. e \<notin> present) (map (ne_lower env) required)))"

definition validate_allowed_domains :: "net_env \<Rightarrow> net_config \<Rightarrow> net_constraints \<Rightarrow> (config_exn, unit) result" where
  "validate_allowed_domains env c k =
     (case co_allowed_domains k of
        None \<Rightarrow> Inr ()
      | Some managed \<Rightarrow>
          bindE (validate_non_global_wildcard_domain_patterns env ''network.allowed_domains'' managed) (\<lambda>_.
          let overrides = lower_set env (denied_domains c);
              required = lower_set env managed;
              candidates = lower_set env (allowed_domains c)
          in case co_allowlist_expansion k of
               Some True \<Rightarrow>
                 let missing = sorted_missing env managed (candidates \<union> overrides)
                 in guardE (missing = []) (InvalidValue (lit ''network.allowed_domains'')
                      (lit ''missing managed allowed_domains entries'') (rust_debug_list missing))
             | Some False \<Rightarrow>
                 guardE (candidates = required - overrides) (InvalidValue (lit ''network.allowed_domains'')
                   (rust_debug_list (allowed_domains c)) (lit ''must match managed allowed_domains''))
             | None \<Rightarrow>
                 let patterns = map (parse_for_constraints env) managed;
                     invalid = filter (\<lambda>e. \<not> list_ex (\<lambda>m. pattern_allows m (parse_for_constraints env e)) patterns) (allowed_domains c)
                 in guardE (invalid = []) (InvalidValue (lit ''network.allowed_domains'')
                      (rust_debug_list invalid) (lit ''subset of managed allowed_domains''))))"

definition validate_denied_domains :: "net_env \<Rightarrow> net_config \<Rightarrow> net_constraints \<Rightarrow> (config_exn, unit) result" where
  "validate_denied_domains env c k =
     (case co_denied_domains k of
        None \<Rightarrow> Inr ()
      | Some managed \<Rightarrow>
          bindE (validate_non_global_wildcard_domain_patterns env ''network.denied_domains'' managed) (\<lambda>_.
          let required = lower_set env managed; candidates = lower_set env (denied_domains c)
          in if co_denylist_expansion k = Some False
             then guardE (candidates = required) (InvalidValue (lit ''network.denied_domains'')
               (rust_debug_list (denied_domains c)) (lit ''must match managed denied_domains''))
             else let missing = sorted_missing env managed candidates
               in guardE (missing = []) (InvalidValue (lit ''network.denied_domains'')
                    (lit ''missing managed denied_domains entries'') (rust_debug_list missing))))"

definition validate_unix_sockets :: "net_env \<Rightarrow> net_config \<Rightarrow> net_constraints \<Rightarrow> (config_exn, unit) result" where
  "validate_unix_sockets env c k =
     (case co_allow_unix_sockets k of
        None \<Rightarrow> Inr ()
      | Some managed \<Rightarrow>
          let invalid = filter (\<lambda>e. ne_lower env e \<notin> lower_set env managed) (allow_unix_sockets_effective c)
          in guardE (invalid = []) (InvalidValue (lit ''network.allow_unix_sockets'')
               (rust_debug_list invalid) (lit ''subset of managed allow_unix_sockets'')))"

definition validate_policy_against_constraints ::
    "net_env \<Rightarrow> net_config \<Rightarrow> net_constraints \<Rightarrow> (config_exn, unit) result" where
  "validate_policy_against_constraints env c k =
     bindE (case validate_mitm_hook_config env (nc_mitm c) (nc_mitm_hooks c) of Inl e \<Rightarrow> Inl (InvalidHooks e) | Inr u \<Rightarrow> Inr u) (\<lambda>_.
     bindE (validate_non_global_wildcard_domain_patterns env ''network.denied_domains'' (denied_domains c)) (\<lambda>_.
     bindE (guardE (\<not> (co_enabled k = Some False \<and> nc_enabled c)) (disabled_by_managed_config ''network.enabled'')) (\<lambda>_.
     bindE (validate_mode c k) (\<lambda>_.
     bindE (guardE (\<not> (co_allow_upstream_proxy k = Some False \<and> nc_allow_upstream_proxy c))
       (disabled_by_managed_config ''network.allow_upstream_proxy'')) (\<lambda>_.
     bindE (guardE (\<not> (co_allow_non_loopback_proxy k = Some False \<and> nc_allow_non_loopback_proxy c))
       (disabled_by_managed_config ''network.dangerously_allow_non_loopback_proxy'')) (\<lambda>_.
     bindE (guardE (nc_allow_all_unix_sockets c \<longrightarrow> all_unix_sockets_allowed k)
       (disabled_by_managed_config ''network.dangerously_allow_all_unix_sockets'')) (\<lambda>_.
     bindE (guardE (\<not> (co_allow_local_binding k = Some False \<and> nc_allow_local_binding c))
       (disabled_by_managed_config ''network.allow_local_binding'')) (\<lambda>_.
     bindE (validate_allowed_domains env c k) (\<lambda>_.
     bindE (validate_denied_domains env c k) (\<lambda>_.
     validate_unix_sockets env c k))))))))))"

end
