(* ===== verification/NetRuntime.thy ===== *)
theory NetRuntime
  imports NetConfig
begin

text \<open>
  \<open>network_proxy/runtime.py\<close>, \<open>network_policy.py\<close> and \<open>connect_policy.py\<close>: the state of the running proxy,
  whether a host may be reached, and the decision about a request. Each operation first asks the reloader,
  whose answer is the argument \<open>reload\<close>: a new state, or \<open>None\<close>.
\<close>

section \<open>State\<close>

record blocked_request =
  br_host :: pystr
  br_reason :: pystr
  br_client :: "pystr option"
  br_method :: "pystr option"
  br_mode :: "net_mode option"
  br_protocol :: pystr
  br_decision :: "pystr option"
  br_source :: "pystr option"
  br_port :: "int option"
  br_timestamp :: int

record config_state =
  cs_config :: net_config
  cs_constraints :: net_constraints
  cs_blocked :: "blocked_request list"
  cs_blocked_total :: int

definition MAX_BLOCKED_EVENTS :: nat where "MAX_BLOCKED_EVENTS = 200"

definition build_config_state :: "net_env \<Rightarrow> net_config \<Rightarrow> net_constraints \<Rightarrow> (config_exn, config_state) result" where
  "build_config_state env c k =
     bindE (validate_unix_socket_allowlist_paths c) (\<lambda>_.
     bindE (validate_non_global_wildcard_domain_patterns env ''network.denied_domains'' (denied_domains c)) (\<lambda>_.
     bindE (validate_policy_against_constraints env c k) (\<lambda>_.
     Inr \<lparr>cs_config = clone_config env c, cs_constraints = k, cs_blocked = [], cs_blocked_total = 0\<rparr>)))"

definition replace_preserving_blocked :: "config_state \<Rightarrow> config_state \<Rightarrow> config_state" where
  "replace_preserving_blocked s new = new\<lparr>cs_blocked := cs_blocked s, cs_blocked_total := cs_blocked_total s\<rparr>"

definition maybe_reload :: "config_state option \<Rightarrow> config_state \<Rightarrow> config_state" where
  "maybe_reload reload s = (case reload of None \<Rightarrow> s | Some new \<Rightarrow> replace_preserving_blocked s new)"

definition replace_config_state :: "config_state option \<Rightarrow> config_state \<Rightarrow> config_state \<Rightarrow> config_state" where
  "replace_config_state reload new s = replace_preserving_blocked (maybe_reload reload s) new"

definition force_reload :: "config_state \<Rightarrow> config_state \<Rightarrow> config_state" where
  "force_reload loaded s = replace_preserving_blocked s loaded"

definition current_patterns :: "config_state option \<Rightarrow> config_state \<Rightarrow> config_state \<times> pystr list \<times> pystr list" where
  "current_patterns reload s =
     (let s' = maybe_reload reload s in (s', allowed_domains (cs_config s'), denied_domains (cs_config s')))"

section \<open>Changing the lists and the mode\<close>

datatype op_exn = BadHost net_exn | ConstrainedBy string config_exn | NotCompiled string config_exn | PlainError config_exn

definition update_domain_list ::
    "net_env \<Rightarrow> config_state option \<Rightarrow> pystr \<Rightarrow> domain_permission \<Rightarrow> config_state \<Rightarrow> op_exn option \<times> config_state" where
  "update_domain_list env reload host permission s =
     (case host_parse env host of
        Inl e \<Rightarrow> (Some (BadHost e), s)
      | Inr n \<Rightarrow>
          let s' = maybe_reload reload s;
              previous = clone_config env (cs_config s');
              allow = (permission = AllowPermission);
              target = (if allow then allowed_domains previous else denied_domains previous);
              opposite = (if allow then denied_domains previous else allowed_domains previous)
          in if list_ex (\<lambda>e. normalize_host env e = n) target \<and> \<not> list_ex (\<lambda>e. normalize_host env e = n) opposite
             then (None, s')
             else
               let candidate = upsert_domain_permission env n permission (clone_config env previous)
               in case build_config_state env candidate (cs_constraints s') of
                    Inl e \<Rightarrow>
                      (Some (if is_constraint_error e
                         then ConstrainedBy (if allow then ''network.allowed_domains'' else ''network.denied_domains'') e
                         else NotCompiled (if allow then ''allowlist'' else ''denylist'') e), s')
                  | Inr new \<Rightarrow> (None, replace_preserving_blocked s' new))"

definition add_allowed_domain ::
    "net_env \<Rightarrow> config_state option \<Rightarrow> pystr \<Rightarrow> config_state \<Rightarrow> op_exn option \<times> config_state" where
  "add_allowed_domain env reload host s = update_domain_list env reload host AllowPermission s"

definition add_denied_domain ::
    "net_env \<Rightarrow> config_state option \<Rightarrow> pystr \<Rightarrow> config_state \<Rightarrow> op_exn option \<times> config_state" where
  "add_denied_domain env reload host s = update_domain_list env reload host DenyPermission s"

definition set_network_mode ::
    "net_env \<Rightarrow> config_state option \<Rightarrow> net_mode \<Rightarrow> config_state \<Rightarrow> op_exn option \<times> config_state" where
  "set_network_mode env reload mode s =
     (let s' = maybe_reload reload s;
          candidate = (clone_config env (cs_config s'))\<lparr>nc_mode := mode\<rparr>
      in case build_config_state env candidate (cs_constraints s') of
           Inl e \<Rightarrow> (Some (if is_constraint_error e then ConstrainedBy ''network.mode'' e else PlainError e), s')
         | Inr new \<Rightarrow> (None, replace_preserving_blocked s' new))"

section \<open>The record of blocked requests\<close>

definition record_blocked :: "config_state option \<Rightarrow> blocked_request \<Rightarrow> config_state \<Rightarrow> config_state" where
  "record_blocked reload entry s =
     (let s' = maybe_reload reload s; blocked = cs_blocked s' @ [entry] in
      s'\<lparr>cs_blocked := drop (length blocked - MAX_BLOCKED_EVENTS) blocked,
        cs_blocked_total := min (cs_blocked_total s' + 1) (2 ^ 64 - 1)\<rparr>)"

definition blocked_snapshot :: "config_state option \<Rightarrow> config_state \<Rightarrow> config_state \<times> blocked_request list" where
  "blocked_snapshot reload s = (let s' = maybe_reload reload s in (s', cs_blocked s'))"

definition drain_blocked :: "config_state option \<Rightarrow> config_state \<Rightarrow> config_state \<times> blocked_request list" where
  "drain_blocked reload s = (let s' = maybe_reload reload s in (s'\<lparr>cs_blocked := []\<rparr>, cs_blocked s'))"

section \<open>Whether a host may be reached\<close>

datatype block_reason = DeniedHost | NotAllowedHost | NotAllowedLocalHost

fun reason_text :: "block_reason \<Rightarrow> pystr" where
  "reason_text DeniedHost = lit ''denied''"
| "reason_text NotAllowedHost = lit ''not_allowed''"
| "reason_text NotAllowedLocalHost = lit ''not_allowed_local''"

text \<open>\<open>None\<close> when the host is allowed.\<close>

type_synonym host_block_decision = "block_reason option"

fun socket_addr_ip :: "dns_answer \<Rightarrow> pystr option" where
  "socket_addr_ip (AddrTuple s) = Some s"
| "socket_addr_ip (AddrText s) =
     (if starts_with s [91] \<and> 93 \<in> set s then Some (takeWhile (\<lambda>c. c \<noteq> 93) (drop 1 s))
      else if count_list s 58 = 1 then Some (takeWhile (\<lambda>c. c \<noteq> 58) s)
      else Some s)"
| "socket_addr_ip OtherAnswer = None"

text \<open>A text that is no address makes \<open>ip_address\<close> raise, which counts as not public.\<close>

definition answer_not_public :: "dns_answer \<Rightarrow> bool" where
  "answer_not_public a =
     (case socket_addr_ip a of
        None \<Rightarrow> False
      | Some s \<Rightarrow> (case ip_address s of None \<Rightarrow> True | Some ip \<Rightarrow> is_non_public_ip ip))"

definition host_resolves_to_non_public_ip :: "net_env \<Rightarrow> pystr \<Rightarrow> int \<Rightarrow> bool" where
  "host_resolves_to_non_public_ip env host port =
     (case ip_address host of
        Some ip \<Rightarrow> is_non_public_ip ip
      | None \<Rightarrow> (case ne_lookup env host port of None \<Rightarrow> True | Some answers \<Rightarrow> list_ex answer_not_public answers))"

definition is_explicit_local_allowlisted :: "net_env \<Rightarrow> pystr list \<Rightarrow> pystr \<Rightarrow> bool" where
  "is_explicit_local_allowlisted env allowed host = list_ex (\<lambda>p. normalize_host env p = host) allowed"

definition is_local_literal :: "pystr \<Rightarrow> bool" where
  "is_local_literal host =
     (is_loopback_host host \<or>
      (case ip_address (case unscoped_ip_literal host of Some ip \<Rightarrow> ip | None \<Rightarrow> host) of
         None \<Rightarrow> False | Some ip \<Rightarrow> is_non_public_ip ip))"

definition local_block :: "net_env \<Rightarrow> net_config \<Rightarrow> pystr \<Rightarrow> int \<Rightarrow> bool" where
  "local_block env c host port =
     (\<not> nc_allow_local_binding c \<and>
      (if is_local_literal host then \<not> is_explicit_local_allowlisted env (allowed_domains c) host
       else host_resolves_to_non_public_ip env host port))"

definition host_blocked_by :: "net_env \<Rightarrow> net_config \<Rightarrow> pystr \<Rightarrow> int \<Rightarrow> (net_exn, host_block_decision) result" where
  "host_blocked_by env c host port =
     (case host_parse env host of
        Inl _ \<Rightarrow> Inr (Some NotAllowedHost)
      | Inr h \<Rightarrow>
          bindE (compile_denylist_globset env (denied_domains c)) (\<lambda>deny_set.
          bindE (compile_allowlist_globset env (allowed_domains c)) (\<lambda>allow_set.
          Inr (if globset_is_match env deny_set h then Some DeniedHost
            else if (case unscoped_ip_literal h of None \<Rightarrow> False | Some ip \<Rightarrow> globset_is_match env deny_set ip) then Some DeniedHost
            else if local_block env c h port then Some NotAllowedLocalHost
            else if allowed_domains c = [] \<or> \<not> globset_is_match env allow_set h then Some NotAllowedHost
            else None))))"

definition host_blocked ::
    "net_env \<Rightarrow> config_state option \<Rightarrow> pystr \<Rightarrow> int \<Rightarrow> config_state \<Rightarrow> (net_exn, host_block_decision) result \<times> config_state" where
  "host_blocked env reload host port s =
     (let s' = maybe_reload reload s in (host_blocked_by env (cs_config s') host port, s'))"

definition same_canonical_path :: "net_env \<Rightarrow> pystr \<Rightarrow> pystr \<Rightarrow> bool" where
  "same_canonical_path env p q =
     (case (ne_canonical env p, ne_canonical env q) of
        (Some a, Some b) \<Rightarrow> path_of a = path_of b
      | _ \<Rightarrow> False)"

definition is_unix_socket_allowed :: "net_env \<Rightarrow> config_state option \<Rightarrow> pystr \<Rightarrow> config_state \<Rightarrow> bool \<times> config_state" where
  "is_unix_socket_allowed env reload path s =
     (let s' = maybe_reload reload s; c = cs_config s' in
      (ne_darwin env \<and> path_is_absolute (path_of path) \<and>
        (nc_allow_all_unix_sockets c \<or>
         list_ex (\<lambda>a. path_is_absolute (path_of a) \<and> (path_of a = path_of path \<or> same_canonical_path env a path))
           (allow_unix_sockets_effective c)), s'))"

definition method_allowed :: "config_state option \<Rightarrow> pystr \<Rightarrow> config_state \<Rightarrow> bool \<times> config_state" where
  "method_allowed reload m s = (let s' = maybe_reload reload s in (mode_allows_method (nc_mode (cs_config s')) m, s'))"

text \<open>\<open>TargetCheckedTcpConnector.check_target\<close>: the target of a direct connection.\<close>

definition target_rejected :: "net_env \<Rightarrow> bool \<Rightarrow> bool \<Rightarrow> pystr \<Rightarrow> bool" where
  "target_rejected env allow_local_binding proxied host =
     (\<not> proxied \<and> \<not> allow_local_binding \<and>
      (let n = normalize_host env host in
       case ip_address (case unscoped_ip_literal n of Some ip \<Rightarrow> ip | None \<Rightarrow> n) of
         None \<Rightarrow> False | Some ip \<Rightarrow> is_non_public_ip ip))"

section \<open>Decisions about requests\<close>

datatype network_protocol = HttpProtocol | HttpsConnect | Socks5Tcp | Socks5Udp
datatype network_policy_decision = DenyDecision | AskDecision
datatype network_decision_source = BaselinePolicy | ModeGuard | ProxyState | Decider

record network_policy_request =
  np_protocol :: network_protocol
  np_host :: pystr
  np_port :: int
  np_client :: "pystr option"
  np_method :: "pystr option"
  np_command :: "pystr option"
  np_exec_policy_hint :: "pystr option"

record network_decision =
  nd_allow :: bool
  nd_reason :: "pystr option"
  nd_source :: "network_decision_source option"
  nd_decision :: "network_policy_decision option"

definition decision_allow :: network_decision where
  "decision_allow = \<lparr>nd_allow = True, nd_reason = None, nd_source = None, nd_decision = None\<rparr>"

definition deny_with_source :: "pystr \<Rightarrow> network_decision_source \<Rightarrow> network_decision" where
  "deny_with_source reason source =
     \<lparr>nd_allow = False, nd_reason = Some (if reason = [] then lit ''policy_denied'' else reason),
      nd_source = Some source, nd_decision = Some DenyDecision\<rparr>"

definition ask_with_source :: "pystr \<Rightarrow> network_decision_source \<Rightarrow> network_decision" where
  "ask_with_source reason source =
     \<lparr>nd_allow = False, nd_reason = Some (if reason = [] then lit ''policy_denied'' else reason),
      nd_source = Some source, nd_decision = Some AskDecision\<rparr>"

datatype policy_exn = PolicyRaised net_exn | IncompleteDecision

definition map_decider_decision :: "network_decision \<Rightarrow> (policy_exn, network_decision) result" where
  "map_decider_decision d =
     (if nd_allow d then Inr d
      else if nd_reason d = None \<or> nd_decision d = None then Inl IncompleteDecision
      else Inr \<lparr>nd_allow = False, nd_reason = nd_reason d, nd_source = Some Decider, nd_decision = nd_decision d\<rparr>)"

text \<open>The audit event, without its time and the metadata of the session.\<close>

datatype audit_decision = AuditAllow | AuditOther network_policy_decision

record audit_event =
  ae_domain_scope :: bool
  ae_decision :: audit_decision
  ae_source :: network_decision_source
  ae_reason :: pystr
  ae_protocol :: network_protocol
  ae_address :: pystr
  ae_port :: int
  ae_method :: pystr
  ae_client :: pystr
  ae_override :: bool

definition or_default :: "pystr option \<Rightarrow> pystr \<Rightarrow> pystr" where
  "or_default v d = (case v of None \<Rightarrow> d | Some s \<Rightarrow> if s = [] then d else s)"

definition request_event ::
    "network_policy_request \<Rightarrow> audit_decision \<Rightarrow> network_decision_source \<Rightarrow> pystr \<Rightarrow> bool \<Rightarrow> audit_event" where
  "request_event rq decision source reason policy_override =
     \<lparr>ae_domain_scope = True, ae_decision = decision, ae_source = source, ae_reason = reason, ae_protocol = np_protocol rq,
      ae_address = np_host rq, ae_port = np_port rq, ae_method = or_default (np_method rq) (lit ''none''),
      ae_client = or_default (np_client rq) (lit ''unknown''), ae_override = policy_override\<rparr>"

text \<open>The decision and whether the decider overrode the lists.\<close>

definition decide_host ::
    "(network_policy_request \<Rightarrow> network_decision) option \<Rightarrow> network_policy_request \<Rightarrow> host_block_decision
      \<Rightarrow> (policy_exn, network_decision \<times> bool) result" where
  "decide_host decider rq blocked =
     (case blocked of
        None \<Rightarrow> Inr (decision_allow, False)
      | Some NotAllowedHost \<Rightarrow>
          (case decider of
             None \<Rightarrow> Inr (deny_with_source (reason_text NotAllowedHost) BaselinePolicy, False)
           | Some decide \<Rightarrow> bindE (map_decider_decision (decide rq)) (\<lambda>d. Inr (d, nd_allow d)))
      | Some reason \<Rightarrow> Inr (deny_with_source (reason_text reason) BaselinePolicy, False))"

definition audit_of_decision ::
    "network_policy_request \<Rightarrow> network_decision \<Rightarrow> bool \<Rightarrow> (policy_exn, audit_event) result" where
  "audit_of_decision rq d policy_override =
     (if nd_allow d then
        Inr (request_event rq AuditAllow (if policy_override then Decider else BaselinePolicy)
          (if policy_override then reason_text NotAllowedHost else lit ''allow'') policy_override)
      else case (nd_decision d, nd_source d, nd_reason d) of
        (Some verdict, Some source, Some reason) \<Rightarrow> Inr (request_event rq (AuditOther verdict) source reason policy_override)
      | _ \<Rightarrow> Inl IncompleteDecision)"

definition evaluate_host_policy ::
    "net_env \<Rightarrow> config_state option \<Rightarrow> (network_policy_request \<Rightarrow> network_decision) option \<Rightarrow> network_policy_request \<Rightarrow> config_state
      \<Rightarrow> (policy_exn, network_decision \<times> audit_event) result \<times> config_state" where
  "evaluate_host_policy env reload decider rq s =
     (case host_blocked env reload (np_host rq) (np_port rq) s of
        (Inl e, s') \<Rightarrow> (Inl (PolicyRaised e), s')
      | (Inr blocked, s') \<Rightarrow>
          (bindE (decide_host decider rq blocked) (\<lambda>(d, policy_override).
             bindE (audit_of_decision rq d policy_override) (\<lambda>event. Inr (d, event))), s'))"

section \<open>Which hosts are allowed\<close>

lemma host_parse_eq: "host_parse env host = (if normalize_host env host = [] then Inl HostEmpty else Inr (normalize_host env host))"
  by (simp add: host_parse_def Let_def)

lemma covers_nonempty: "tidy_pattern env p \<Longrightarrow> covers p h \<Longrightarrow> h \<noteq> []"
  using tidy_pattern_parts [of env p] by (auto simp: covers_def tidy_def below_def split: if_splits)

definition tidy_lists :: "net_env \<Rightarrow> net_config \<Rightarrow> bool" where
  "tidy_lists env c \<longleftrightarrow> list_all (tidy_pattern env) (allowed_domains c) \<and> list_all (tidy_pattern env) (denied_domains c)"

text \<open>The host and the address in it are as normalisation leaves them.\<close>

definition settled_host :: "net_env \<Rightarrow> pystr \<Rightarrow> bool" where
  "settled_host env h \<longleftrightarrow> settled env h \<and> (case unscoped_ip_literal h of None \<Rightarrow> True | Some ip \<Rightarrow> settled env ip)"

definition listed :: "pystr list \<Rightarrow> pystr \<Rightarrow> bool" where
  "listed ps h \<longleftrightarrow> list_ex (\<lambda>p. covers p h) ps"

definition denied_host :: "net_config \<Rightarrow> pystr \<Rightarrow> bool" where
  "denied_host c h \<longleftrightarrow> listed (denied_domains c) h
     \<or> (case unscoped_ip_literal h of None \<Rightarrow> False | Some ip \<Rightarrow> listed (denied_domains c) ip)"

lemma host_blocked_tidy:
  assumes "tidy_lists env c" "settled_host env (normalize_host env host)"
  shows "host_blocked_by env c host port = Inr (let h = normalize_host env host in
     if h = [] then Some NotAllowedHost else if denied_host c h then Some DeniedHost
     else if local_block env c h port then Some NotAllowedLocalHost
     else if \<not> listed (allowed_domains c) h then Some NotAllowedHost else None)"
proof -
  let ?h = "normalize_host env host"
  obtain ds where ds: "compile_globset_loop env False [] (denied_domains c) = Inr ds"
    using assms(1) tidy_compiles by (metis tidy_lists_def)
  obtain al where al: "compile_globset_loop env True [] (allowed_domains c) = Inr al"
    using assms(1) tidy_compiles by (metis tidy_lists_def)
  have settled: "settled env ?h" "unscoped_ip_literal ?h = Some ip \<Longrightarrow> settled env ip" for ip
    using assms(2) by (simp_all add: settled_host_def)
  have m: "globset_is_match env ds x \<longleftrightarrow> listed (denied_domains c) x" "globset_is_match env al x \<longleftrightarrow> listed (allowed_domains c) x"
    if "settled env x" for x
    using that assms(1) compiled_covers [OF ds] compiled_covers [OF al] by (simp_all add: tidy_lists_def listed_def)
  have "listed [] x = False" for x by (simp add: listed_def)
  then show ?thesis
    using m settled
    by (auto simp: host_blocked_by_def host_parse_eq compile_denylist_globset_def compile_allowlist_globset_def ds al denied_host_def
        Let_def split: option.split)
qed

text \<open>A dotted address is local exactly when its octets say so.\<close>

lemma dotted_no_percent: "37 \<notin> set (dotted ns)"
proof -
  have "37 \<notin> set (str_of_nat n)" for n using str_of_nat_digits [of 37 n] by auto
  moreover have "c \<in> set (join_with sep xs) \<Longrightarrow> c \<in> set sep \<or> (\<exists>x \<in> set xs. c \<in> set x)" for c :: int and sep xs
    by (induction sep xs rule: join_with.induct) auto
  ultimately show ?thesis by (fastforce simp: dotted_def)
qed

lemma dotted_local_literal:
  assumes "a < 256" "b < 256" "c < 256" "d < 256"
  shows "is_local_literal (dotted [a, b, c, d]) \<longleftrightarrow> special_ipv4 (int a) (int b) (int c)"
proof -
  let ?s = "dotted [a, b, c, d]"
  have o: "octets (int a) (int b) (int c) (int d)" using assms by (simp add: octets_def is_octet_def)
  have "split_once ?s (lit ''%'') = None" using dotted_no_percent by (intro split_once_absent) auto
  then have un: "unscoped_ip_literal ?s = None" by (simp add: unscoped_ip_literal_def)
  have ip: "ip_address ?s = Some (IPv4 (ip4 (int a) (int b) (int c) (int d)))"
    using assms by (simp add: ip_address_def dotted_text)
  have "?s \<noteq> lit ''localhost''" using ip by (auto simp del: lit.simps) (code_simp)
  moreover have "in_network 32 (ip4 127 0 0 0, 8) (ip4 (int a) (int b) (int c) (int d)) \<longleftrightarrow> int a = 127"
    using o in_net8 [of _ _ _ _ 127 0 0 0] by (simp add: octets_def is_octet_def)
  ultimately show ?thesis
    using non_public_octets [OF o]
    by (auto simp: is_local_literal_def is_loopback_host_def un ip special_ipv4_def Let_def)
qed

text \<open>
  C10: With tidy domain lists, the proxy lets a request reach a host exactly if the host is listed as allowed, neither
  it nor the address in it is listed as denied, and, unless local connections are permitted, it is not local: an
  address of the machine or a private network only if the list names it, a name only if it resolves, and to
  public addresses alone. A dotted address is local exactly when its octets are special.
\<close>

theorem allowed_hosts_are_listed_and_public:
  assumes "tidy_lists env c" "settled_host env (normalize_host env host)"
    and "list_all (\<lambda>n. n < 256) [o1, o2, o3, o4]"
  shows "(host_blocked_by env c host port = Inr None \<longleftrightarrow>
      (let h = normalize_host env host in
        h \<noteq> [] \<and> listed (allowed_domains c) h \<and> \<not> denied_host c h
        \<and> (nc_allow_local_binding c
           \<or> (if is_local_literal h then h \<in> set (allowed_domains c)
              else (case ip_address h of
                  Some ip \<Rightarrow> \<not> is_non_public_ip ip
                | None \<Rightarrow> \<exists>answers. ne_lookup env h port = Some answers \<and> \<not> list_ex answer_not_public answers)))))
    \<and> (is_local_literal (dotted [o1, o2, o3, o4]) \<longleftrightarrow> special_ipv4 (int o1) (int o2) (int o3))"
proof -
  have "is_explicit_local_allowlisted env (allowed_domains c) h \<longleftrightarrow> h \<in> set (allowed_domains c)" for h
    using assms(1) tidy_pattern_parts tidy_normal
    by (fastforce simp: tidy_lists_def list_all_iff is_explicit_local_allowlisted_def list_ex_iff)
  then have "local_block env c h port \<longleftrightarrow> \<not> nc_allow_local_binding c
      \<and> (if is_local_literal h then h \<notin> set (allowed_domains c)
         else (case ip_address h of
             Some ip \<Rightarrow> is_non_public_ip ip
           | None \<Rightarrow> \<not> (\<exists>answers. ne_lookup env h port = Some answers \<and> \<not> list_ex answer_not_public answers)))" for h
    by (auto simp: local_block_def host_resolves_to_non_public_ip_def split: option.splits)
  then have "host_blocked_by env c host port = Inr None \<longleftrightarrow>
      (let h = normalize_host env host in
        h \<noteq> [] \<and> listed (allowed_domains c) h \<and> \<not> denied_host c h
        \<and> (nc_allow_local_binding c
           \<or> (if is_local_literal h then h \<in> set (allowed_domains c)
              else (case ip_address h of
                  Some ip \<Rightarrow> \<not> is_non_public_ip ip
                | None \<Rightarrow> \<exists>answers. ne_lookup env h port = Some answers \<and> \<not> list_ex answer_not_public answers))))"
    unfolding host_blocked_tidy [OF assms(1,2)] Let_def by (auto split: option.split)
  then show ?thesis using assms(3) dotted_local_literal by simp
qed

definition sample_config :: net_config where
  "sample_config = default_config\<lparr>nc_allowed := [lit ''**.example.com'', lit ''127.0.0.1''], nc_denied := [lit ''*.evil.example.com'']\<rparr>"

theorem allowed_hosts_are_listed_and_public_witness:
  "tidy_lists plain_net_env sample_config \<and> settled_host plain_net_env (normalize_host plain_net_env (lit ''API.example.com:443''))
   \<and> host_blocked_by plain_net_env sample_config (lit ''API.example.com:443'') 443 = Inr None
   \<and> is_local_literal (dotted [100, 64, 0, 1])"
proof -
  have a: "tidy_lists plain_net_env sample_config" by code_simp
  have b: "settled_host plain_net_env (normalize_host plain_net_env (lit ''API.example.com:443''))" by code_simp
  have h: "normalize_host plain_net_env (lit ''API.example.com:443'') = lit ''api.example.com''" by code_simp
  have l: "listed (allowed_domains sample_config) (lit ''api.example.com'')" "\<not> denied_host sample_config (lit ''api.example.com'')"
    "\<not> is_local_literal (lit ''api.example.com'')" "ip_address (lit ''api.example.com'') = None" by code_simp+
  have "ne_lookup plain_net_env (lit ''api.example.com'') 443 = Some [AddrTuple (lit ''93.184.216.34'')]" by code_simp
  moreover have "\<not> answer_not_public (AddrTuple (lit ''93.184.216.34''))" by code_simp
  moreover have "lit ''api.example.com'' \<noteq> []" by simp
  ultimately show ?thesis
    using allowed_hosts_are_listed_and_public [OF a b, of 100 64 0 1 443] a b h l
    by (simp add: Let_def special_ipv4_def del: lit.simps)
qed

text \<open>
  C11: A decider can admit only hosts that no list mentions: the request is admitted exactly if the lists allow its
  host, or they do not mention it and the decider allows it; denied and local hosts stay blocked whatever the
  decider says. The audit event says what was decided, and marks exactly the hosts the decider admitted.
\<close>

theorem decider_only_admits_unlisted_hosts:
  assumes "evaluate_host_policy env reload decider rq s = (Inr (d, event), s')"
  shows "s' = maybe_reload reload s
    \<and> (\<exists>blocked. host_blocked_by env (cs_config s') (np_host rq) (np_port rq) = Inr blocked
        \<and> (nd_allow d \<longleftrightarrow> blocked = None \<or> blocked = Some NotAllowedHost \<and> (\<exists>decide. decider = Some decide \<and> nd_allow (decide rq)))
        \<and> (ae_override event \<longleftrightarrow> nd_allow d \<and> blocked \<noteq> None)
        \<and> (ae_decision event = AuditAllow \<longleftrightarrow> nd_allow d)
        \<and> (\<not> nd_allow d \<longrightarrow> nd_reason d = Some (ae_reason event) \<and> nd_source d = Some (ae_source event)))"
proof -
  obtain blocked policy_override where steps: "host_blocked_by env (cs_config s') (np_host rq) (np_port rq) = Inr blocked"
    "s' = maybe_reload reload s" "decide_host decider rq blocked = Inr (d, policy_override)"
    "audit_of_decision rq d policy_override = Inr event"
    using assms by (auto simp: evaluate_host_policy_def host_blocked_def Let_def bindE_eq_Inr split: prod.splits sum.splits)
  have kinds: "(nd_allow d \<longleftrightarrow> blocked = None \<or> blocked = Some NotAllowedHost \<and> (\<exists>decide. decider = Some decide \<and> nd_allow (decide rq)))
      \<and> (policy_override \<longleftrightarrow> nd_allow d \<and> blocked \<noteq> None)"
    using steps(3) by (auto simp: decide_host_def decision_allow_def deny_with_source_def map_decider_decision_def bindE_eq_Inr
        split: option.splits block_reason.splits if_splits)
  have "ae_override event = policy_override \<and> (ae_decision event = AuditAllow \<longleftrightarrow> nd_allow d)
      \<and> (\<not> nd_allow d \<longrightarrow> nd_reason d = Some (ae_reason event) \<and> nd_source d = Some (ae_source event))"
    using steps(4) by (auto simp: audit_of_decision_def request_event_def split: if_splits option.splits)
  then show ?thesis using steps(1,2) kinds by blast
qed

definition sample_state :: config_state where
  "sample_state = \<lparr>cs_config = sample_config, cs_constraints = no_constraints, cs_blocked = [], cs_blocked_total = 0\<rparr>"

definition sample_policy_request :: network_policy_request where
  "sample_policy_request = \<lparr>np_protocol = HttpsConnect, np_host = lit ''other.org'', np_port = 443, np_client = None,
     np_method = None, np_command = None, np_exec_policy_hint = None\<rparr>"

theorem decider_only_admits_unlisted_hosts_witness:
  "\<exists>d event. evaluate_host_policy plain_net_env None (Some (\<lambda>_. decision_allow)) sample_policy_request sample_state = (Inr (d, event), sample_state)
     \<and> nd_allow d \<and> ae_override event
     \<and> host_blocked_by plain_net_env sample_config (lit ''other.org'') 443 = Inr (Some NotAllowedHost)"
proof -
  let ?event = "request_event sample_policy_request AuditAllow Decider (lit ''not_allowed'') True"
  have e: "evaluate_host_policy plain_net_env None (Some (\<lambda>_. decision_allow)) sample_policy_request sample_state
      = (Inr (decision_allow, ?event), sample_state)" by code_simp
  have b: "host_blocked_by plain_net_env sample_config (lit ''other.org'') 443 = Inr (Some NotAllowedHost)" by code_simp
  have "ae_override ?event" "nd_allow decision_allow" by code_simp+
  then show ?thesis using decider_only_admits_unlisted_hosts [OF e] e b by blast
qed

section \<open>The managed constraints are kept\<close>

definition normal_lists :: "net_env \<Rightarrow> net_config \<Rightarrow> bool" where
  "normal_lists env c \<longleftrightarrow> list_all (\<lambda>e. normalize_host env e = e) (allowed_domains c) \<and> list_all (\<lambda>e. normalize_host env e = e) (denied_domains c)"

definition config_ok :: "net_env \<Rightarrow> net_config \<Rightarrow> net_constraints \<Rightarrow> bool" where
  "config_ok env c k \<longleftrightarrow> normal_lists env c \<and> validate_unix_socket_allowlist_paths c = Inr ()
     \<and> validate_policy_against_constraints env c k = Inr ()"

definition state_ok :: "net_env \<Rightarrow> config_state \<Rightarrow> bool" where
  "state_ok env s \<longleftrightarrow> config_ok env (cs_config s) (cs_constraints s) \<and> length (cs_blocked s) \<le> MAX_BLOCKED_EVENTS
     \<and> int (length (cs_blocked s)) \<le> cs_blocked_total s \<and> cs_blocked_total s \<le> 2 ^ 64 - 1"

lemma map_normal: "list_all (\<lambda>e. f e = e) xs \<Longrightarrow> map f xs = xs"
  by (induction xs) simp_all

lemma clone_lists:
  assumes "normal_lists env c"
  shows "allowed_domains (clone_config env c) = allowed_domains c" "denied_domains (clone_config env c) = denied_domains c"
  using assms by (simp_all add: normal_lists_def clone_config_def set_denied_domains_def set_allowed_domains_def map_normal)
    (simp_all add: allowed_domains_def denied_domains_def)

lemma clone_fields [simp]:
  "nc_enabled (clone_config env c) = nc_enabled c" "nc_allow_upstream_proxy (clone_config env c) = nc_allow_upstream_proxy c"
  "nc_allow_non_loopback_proxy (clone_config env c) = nc_allow_non_loopback_proxy c"
  "nc_allow_all_unix_sockets (clone_config env c) = nc_allow_all_unix_sockets c" "nc_mode (clone_config env c) = nc_mode c"
  "nc_mitm (clone_config env c) = nc_mitm c" "nc_mitm_hooks (clone_config env c) = nc_mitm_hooks c"
  "nc_allow_unix_sockets (clone_config env c) = nc_allow_unix_sockets c"
  "nc_allow_local_binding (clone_config env c) = nc_allow_local_binding c"
  by (simp_all add: clone_config_def set_denied_domains_def set_allowed_domains_def)

lemma clone_ok:
  assumes "normal_lists env c"
  shows "config_ok env (clone_config env c) k \<longleftrightarrow> config_ok env c k"
  unfolding config_ok_def normal_lists_def validate_unix_socket_allowlist_paths_def allow_unix_sockets_effective_def
      validate_policy_against_constraints_def validate_mode_def validate_allowed_domains_def validate_denied_domains_def
      validate_unix_sockets_def clone_lists [OF assms] clone_fields
  by (rule refl)

lemma built_state:
  assumes "build_config_state env c k = Inr s" "normal_lists env c"
  shows "state_ok env s \<and> cs_constraints s = k \<and> cs_config s = clone_config env c \<and> cs_blocked s = [] \<and> cs_blocked_total s = 0"
  using assms clone_ok [OF assms(2), of k]
  by (auto simp: build_config_state_def bindE_eq_Inr state_ok_def config_ok_def)

lemma replace_ok:
  "state_ok env s \<Longrightarrow> config_ok env (cs_config new) (cs_constraints new) \<Longrightarrow> state_ok env (replace_preserving_blocked s new)"
  by (simp add: state_ok_def replace_preserving_blocked_def)

lemma replace_fields [simp]:
  "cs_config (replace_preserving_blocked s new) = cs_config new" "cs_constraints (replace_preserving_blocked s new) = cs_constraints new"
  by (simp_all add: replace_preserving_blocked_def)

definition reload_ok :: "net_env \<Rightarrow> config_state option \<Rightarrow> bool" where
  "reload_ok env reload = (case reload of None \<Rightarrow> True | Some new \<Rightarrow> config_ok env (cs_config new) (cs_constraints new))"

lemma maybe_reload_ok: "state_ok env s \<Longrightarrow> reload_ok env reload \<Longrightarrow> state_ok env (maybe_reload reload s)"
  by (auto simp: maybe_reload_def reload_ok_def replace_ok split: option.split)

text \<open>Normalising the name of a host twice is enough.\<close>

definition settles :: "net_env \<Rightarrow> pystr \<Rightarrow> bool" where
  "settles env host = (let n = normalize_host env (normalize_host env host) in normalize_host env n = n)"

lemma upsert_normal:
  assumes "normal_lists env c" "settles env host"
  shows "normal_lists env (upsert_domain_permission env (normalize_host env host) p (clone_config env (clone_config env c)))"
proof -
  let ?c = "clone_config env (clone_config env c)" and ?n = "normalize_host env (normalize_host env host)"
  have c: "normal_lists env (clone_config env c)" using assms(1) clone_lists [OF assms(1)] by (simp add: normal_lists_def)
  have lists: "nc_allowed ?c = allowed_domains c" "nc_denied ?c = denied_domains c"
    using clone_lists [OF assms(1)] c
    by (simp_all add: clone_config_def set_denied_domains_def set_allowed_domains_def normal_lists_def map_normal)
  have "normalize_host env ?n = ?n" using assms(2) by (simp add: settles_def Let_def)
  then show ?thesis
    using assms(1) lists
    by (auto simp: upsert_domain_permission_def Let_def normal_lists_def list_all_iff allowed_domains_def denied_domains_def
        split: domain_permission.split)
qed

lemma rebuilt:
  assumes "state_ok env s" "build_config_state env c (cs_constraints s) = Inr new" "normal_lists env c"
  shows "state_ok env (replace_preserving_blocked s new) \<and> cs_constraints new = cs_constraints s"
proof -
  have "state_ok env new" "cs_constraints new = cs_constraints s" using built_state [OF assms(2,3)] by simp_all
  then show ?thesis using replace_ok [OF assms(1), of new] by (auto simp: state_ok_def)
qed

lemma state_normal: "state_ok env s \<Longrightarrow> normal_lists env (cs_config s)"
  by (simp add: state_ok_def config_ok_def)

lemma update_keeps:
  assumes "state_ok env s" "reload_ok env reload" "settles env host"
  shows "state_ok env (snd (update_domain_list env reload host p s))
     \<and> (reload = None \<longrightarrow> cs_constraints (snd (update_domain_list env reload host p s)) = cs_constraints s)"
proof -
  define s' where "s' = maybe_reload reload s"
  have s: "state_ok env s'" using assms(1,2) maybe_reload_ok s'_def by simp
  have k: "reload = None \<Longrightarrow> cs_constraints s' = cs_constraints s" by (simp add: s'_def maybe_reload_def)
  define c where "c = upsert_domain_permission env (normalize_host env host) p (clone_config env (clone_config env (cs_config s')))"
  have c: "normal_lists env c" unfolding c_def using upsert_normal [OF state_normal [OF s] assms(3)] .
  have "state_ok env (snd (update_domain_list env reload host p s))
      \<and> (snd (update_domain_list env reload host p s) = s \<or> cs_constraints (snd (update_domain_list env reload host p s)) = cs_constraints s')"
  proof (cases "build_config_state env c (cs_constraints s')")
    case (Inl e)
    then show ?thesis using s assms(1)
      unfolding update_domain_list_def host_parse_eq s'_def [symmetric] Let_def c_def by simp
  next
    case (Inr new)
    then show ?thesis using s assms(1) rebuilt [OF s Inr c]
      unfolding update_domain_list_def host_parse_eq s'_def [symmetric] Let_def c_def by simp
  qed
  then show ?thesis using k by metis
qed

lemma set_mode_keeps:
  assumes "state_ok env s" "reload_ok env reload"
  shows "state_ok env (snd (set_network_mode env reload mode s))
     \<and> (reload = None \<longrightarrow> cs_constraints (snd (set_network_mode env reload mode s)) = cs_constraints s)"
proof -
  define s' where "s' = maybe_reload reload s"
  have s: "state_ok env s'" using assms(1,2) maybe_reload_ok s'_def by simp
  have k: "reload = None \<Longrightarrow> cs_constraints s' = cs_constraints s" by (simp add: s'_def maybe_reload_def)
  define c where "c = (clone_config env (cs_config s'))\<lparr>nc_mode := mode\<rparr>"
  have c: "normal_lists env c" unfolding c_def
    using state_normal [OF s] clone_lists [OF state_normal [OF s]] by (simp add: normal_lists_def allowed_domains_def denied_domains_def)
  have "state_ok env (snd (set_network_mode env reload mode s)) \<and> cs_constraints (snd (set_network_mode env reload mode s)) = cs_constraints s'"
  proof (cases "build_config_state env c (cs_constraints s')")
    case (Inl e)
    then show ?thesis using s unfolding set_network_mode_def s'_def [symmetric] Let_def c_def by simp
  next
    case (Inr new)
    then show ?thesis using s rebuilt [OF s Inr c] unfolding set_network_mode_def s'_def [symmetric] Let_def c_def by simp
  qed
  then show ?thesis using k by metis
qed

lemma record_keeps:
  "state_ok env s \<Longrightarrow> reload_ok env reload \<Longrightarrow> state_ok env (record_blocked reload entry s)"
  using maybe_reload_ok [of env s reload] by (auto simp: record_blocked_def Let_def state_ok_def MAX_BLOCKED_EVENTS_def)

lemma drain_keeps: "state_ok env s \<Longrightarrow> reload_ok env reload \<Longrightarrow> state_ok env (fst (drain_blocked reload s))"
  using maybe_reload_ok [of env s reload] by (auto simp: drain_blocked_def Let_def state_ok_def)

text \<open>The calls that may change the state, each with what the reloader answers.\<close>

datatype proxy_call =
    AddAllowed pystr
  | AddDenied pystr
  | SetMode net_mode
  | RecordBlocked blocked_request
  | DrainBlocked
  | CheckHost pystr int
  | ReplaceState config_state
  | ForceReload config_state

fun run_call :: "net_env \<Rightarrow> config_state option \<times> proxy_call \<Rightarrow> config_state \<Rightarrow> config_state" where
  "run_call env (reload, AddAllowed host) s = snd (add_allowed_domain env reload host s)"
| "run_call env (reload, AddDenied host) s = snd (add_denied_domain env reload host s)"
| "run_call env (reload, SetMode mode) s = snd (set_network_mode env reload mode s)"
| "run_call env (reload, RecordBlocked entry) s = record_blocked reload entry s"
| "run_call env (reload, DrainBlocked) s = fst (drain_blocked reload s)"
| "run_call env (reload, CheckHost host port) s = snd (host_blocked env reload host port s)"
| "run_call env (reload, ReplaceState new) s = replace_config_state reload new s"
| "run_call env (reload, ForceReload loaded) s = force_reload loaded s"

fun call_ok :: "net_env \<Rightarrow> proxy_call \<Rightarrow> bool" where
  "call_ok env (AddAllowed host) = settles env host"
| "call_ok env (AddDenied host) = settles env host"
| "call_ok env (ReplaceState new) = config_ok env (cs_config new) (cs_constraints new)"
| "call_ok env (ForceReload loaded) = config_ok env (cs_config loaded) (cs_constraints loaded)"
| "call_ok env c = True"

fun keeps_constraints :: "config_state option \<times> proxy_call \<Rightarrow> bool" where
  "keeps_constraints (None, ReplaceState new) = False"
| "keeps_constraints (None, ForceReload loaded) = False"
| "keeps_constraints (None, c) = True"
| "keeps_constraints (Some new, c) = False"

lemma quiet_calls:
  "cs_constraints (record_blocked None entry s) = cs_constraints s" "cs_constraints (fst (drain_blocked None s)) = cs_constraints s"
  "cs_constraints (snd (host_blocked env None host port s)) = cs_constraints s"
  by (simp_all add: record_blocked_def drain_blocked_def host_blocked_def maybe_reload_def Let_def)

lemma call_keeps:
  assumes "state_ok env s" "reload_ok env reload" "call_ok env c"
  shows "state_ok env (run_call env (reload, c) s)
     \<and> (keeps_constraints (reload, c) \<longrightarrow> cs_constraints (run_call env (reload, c) s) = cs_constraints s)"
proof (cases c)
  case (AddAllowed host)
  then show ?thesis using update_keeps [of env s reload host] assms by (cases reload) (simp_all add: add_allowed_domain_def)
next
  case (AddDenied host)
  then show ?thesis using update_keeps [of env s reload host] assms by (cases reload) (simp_all add: add_denied_domain_def)
next
  case (SetMode mode)
  then show ?thesis using set_mode_keeps assms by (cases reload) simp_all
next
  case (RecordBlocked entry)
  then show ?thesis using record_keeps assms by (cases reload) (simp_all add: quiet_calls)
next
  case DrainBlocked
  then show ?thesis using drain_keeps assms by (cases reload) (simp_all add: quiet_calls)
next
  case (CheckHost host port)
  then show ?thesis using maybe_reload_ok [OF assms(1,2)] by (cases reload) (simp_all add: quiet_calls, simp_all add: host_blocked_def Let_def)
next
  case (ReplaceState new)
  then show ?thesis using replace_ok [OF maybe_reload_ok] assms by (cases reload) (simp_all add: replace_config_state_def)
next
  case (ForceReload loaded)
  then show ?thesis using replace_ok assms by (cases reload) (simp_all add: force_reload_def)
qed

lemma calls_keep:
  assumes "state_ok env s" "list_all (\<lambda>(reload, c). reload_ok env reload \<and> call_ok env c) calls"
  shows "state_ok env (fold (run_call env) calls s)
     \<and> (list_all keeps_constraints calls \<longrightarrow> cs_constraints (fold (run_call env) calls s) = cs_constraints s)"
  using assms
proof (induction calls arbitrary: s)
  case (Cons rc calls)
  obtain reload c where rc: "rc = (reload, c)" by (cases rc)
  have k: "state_ok env (run_call env rc s)" "keeps_constraints rc \<Longrightarrow> cs_constraints (run_call env rc s) = cs_constraints s"
    using call_keeps [of env s reload c] Cons.prems rc by simp_all
  then show ?case using Cons.IH [OF k(1)] Cons.prems by auto
qed simp

text \<open>
  C12: However the running proxy is used, its settings keep within the managed constraints they were built with, and
  the record of blocked requests stays short: from a built state, any sequence of changes to the lists and the
  mode, of checks, of recorded and drained requests, of reloads and replacements by valid states leads to a valid
  state; the constraints change only by a reload or replacement; at most 200 requests are kept, no more than were
  counted, and the count stays in 64 bits.
\<close>

theorem managed_constraints_are_kept:
  assumes "build_config_state env c k = Inr s" "normal_lists env c"
    and "list_all (\<lambda>(reload, c). reload_ok env reload \<and> call_ok env c) calls"
  defines "s' \<equiv> fold (run_call env) calls s"
  shows "validate_policy_against_constraints env (cs_config s') (cs_constraints s') = Inr ()
    \<and> (list_all keeps_constraints calls \<longrightarrow> cs_constraints s' = k)
    \<and> length (cs_blocked s') \<le> 200 \<and> int (length (cs_blocked s')) \<le> cs_blocked_total s' \<and> cs_blocked_total s' < 2 ^ 64"
proof -
  have "state_ok env s" "cs_constraints s = k" using built_state [OF assms(1,2)] by simp_all
  with calls_keep [OF _ assms(3)] have "state_ok env s'" "list_all keeps_constraints calls \<longrightarrow> cs_constraints s' = k"
    by (auto simp: s'_def)
  then show ?thesis by (simp add: state_ok_def config_ok_def MAX_BLOCKED_EVENTS_def)
qed

definition sample_constraints :: net_constraints where
  "sample_constraints = no_constraints\<lparr>co_mode := Some LimitedMode, co_allowed_domains := Some [lit ''**.example.com'', lit ''127.0.0.1''],
     co_denied_domains := Some [lit ''*.evil.example.com'']\<rparr>"

definition sample_limited :: net_config where
  "sample_limited = sample_config\<lparr>nc_mode := LimitedMode\<rparr>"

definition sample_managed_state :: config_state where
  "sample_managed_state = \<lparr>cs_config = sample_limited, cs_constraints = sample_constraints, cs_blocked = [], cs_blocked_total = 0\<rparr>"

theorem managed_constraints_are_kept_witness:
  "build_config_state plain_net_env sample_limited sample_constraints = Inr sample_managed_state
   \<and> validate_policy_against_constraints plain_net_env
       (cs_config (fold (run_call plain_net_env) [(None, AddAllowed (lit ''evil.org'')), (None, SetMode FullMode), (None, AddAllowed (lit ''a.example.com''))]
          sample_managed_state))
       sample_constraints = Inr ()"
proof -
  have b: "build_config_state plain_net_env sample_limited sample_constraints = Inr sample_managed_state" by code_simp
  have n: "normal_lists plain_net_env sample_limited" by code_simp
  have "settles plain_net_env (lit ''evil.org'')" "settles plain_net_env (lit ''a.example.com'')" by code_simp+
  then have c: "list_all (\<lambda>(reload, c). reload_ok plain_net_env reload \<and> call_ok plain_net_env c)
      [(None, AddAllowed (lit ''evil.org'')), (None, SetMode FullMode), (None, AddAllowed (lit ''a.example.com''))]"
    by (simp add: reload_ok_def del: lit.simps)
  have "list_all keeps_constraints [(None, AddAllowed (lit ''evil.org'')), (None, SetMode FullMode), (None, AddAllowed (lit ''a.example.com''))]"
    by simp
  then show ?thesis using managed_constraints_are_kept [OF b n c] b by metis
qed

section \<open>Managed lists\<close>

lemma parse_tidy:
  assumes "tidy_pattern env p"
  shows "parse_for_constraints env p =
    \<lparr>dp_kind = (if starts_with p (lit ''**.'') then DoubleWildcardKind
       else if starts_with p (lit ''*.'') then SubdomainWildcardKind else ExactKind), dp_suffix = pattern_suffix p\<rparr>"
  using tidy_pattern_parts [OF assms] tidy_normal [of env p] by (simp add: parse_for_constraints_def pattern_suffix_def Let_def del: lit.simps)

text \<open>What a pattern allows, it covers: a host below the candidate is below the pattern.\<close>

lemma allowed_is_covered:
  assumes "tidy_pattern env m" "tidy_pattern env e" "pattern_allows (parse_for_constraints env m) (parse_for_constraints env e)" "covers e h"
  shows "covers m h"
proof -
  let ?s = "pattern_suffix m" and ?t = "pattern_suffix e"
  have t: "?t \<noteq> []" "hd ?t \<noteq> 46" "?s \<noteq> []"
    using tidy_pattern_parts [OF assms(1)] tidy_pattern_parts [OF assms(2)] by (auto simp: tidy_def)
  have under: "below ?s ?t" if "ends_with ?t (46 # ?s)"
  proof -
    obtain u where u: "?t = u @ 46 # ?s" using \<open>ends_with ?t (46 # ?s)\<close> by (auto simp: ends_with_iff)
    then have "u \<noteq> []" using t(2) by auto
    then show ?thesis using u by (auto simp: below_iff)
  qed
  have exact: "\<not> starts_with e (lit ''**.'') \<Longrightarrow> \<not> starts_with e (lit ''*.'') \<Longrightarrow> ?t = e" "\<not> starts_with m (lit ''**.'') \<Longrightarrow> \<not> starts_with m (lit ''*.'') \<Longrightarrow> ?s = m"
    by (simp_all add: pattern_suffix_def del: lit.simps)
  have allows: "pattern_allows \<lparr>dp_kind = km, dp_suffix = ?s\<rparr> \<lparr>dp_kind = ke, dp_suffix = ?t\<rparr> \<Longrightarrow>
      (case km of ExactKind \<Rightarrow> ke = ExactKind \<and> ?t = ?s
       | SubdomainWildcardKind \<Rightarrow> ke = ExactKind \<and> below ?s ?t \<or> ke = SubdomainWildcardKind \<and> (?t = ?s \<or> below ?s ?t)
       | DoubleWildcardKind \<Rightarrow> ?t = ?s \<or> below ?s ?t)" for km ke
    using under by (auto simp: pattern_allows_def Let_def split: pattern_kind.splits)
  note a = assms(3) [unfolded parse_tidy [OF assms(1)] parse_tidy [OF assms(2)], THEN allows]
  consider "starts_with m (lit ''**.'')" | "\<not> starts_with m (lit ''**.'')" "starts_with m (lit ''*.'')"
    | "\<not> starts_with m (lit ''**.'')" "\<not> starts_with m (lit ''*.'')" by blast
  then show ?thesis
  proof cases
    case 1
    then have "?t = ?s \<or> below ?s ?t" using a by (simp del: lit.simps)
    moreover have "h = ?t \<or> below ?t h" using assms(4) exact(1) by (auto simp: covers_def simp del: lit.simps split: if_splits)
    ultimately show ?thesis using 1 below_trans by (auto simp: covers_def simp del: lit.simps)
  next
    case 2
    then have a': "below ?s ?t \<and> ?t = e \<and> h = e \<or> (?t = ?s \<or> below ?s ?t) \<and> below ?t h"
      using a exact(1) assms(4) by (auto simp: covers_def simp del: lit.simps split: if_splits)
    then have "below ?s h" using below_trans by metis
    then show ?thesis using 2 by (simp add: covers_def del: lit.simps)
  next
    case 3
    then have "?t = ?s" "\<not> starts_with e (lit ''**.'')" "\<not> starts_with e (lit ''*.'')"
      using a by (auto simp del: lit.simps split: if_splits)
    then show ?thesis using 3 exact assms(4) by (simp add: covers_def del: lit.simps)
  qed
qed

lemma lower_set_tidy: "list_all (tidy_pattern env) ps \<Longrightarrow> lower_set env ps = set ps"
  using tidy_pattern_parts by (force simp: lower_set_def tidy_def list_all_iff)

lemma sorted_missing_Nil: "sorted_missing env required present = [] \<longleftrightarrow> lower_set env required \<subseteq> present"
proof -
  have "sorted_missing env required present = [] \<longleftrightarrow> set (sorted_missing env required present) = {}" by (simp only: set_empty)
  also have "\<dots> \<longleftrightarrow> lower_set env required \<subseteq> present" by (auto simp: sorted_missing_def lower_set_def)
  finally show ?thesis .
qed

lemma managed_denials_listed:
  assumes "validate_denied_domains env c k = Inr ()" "co_denied_domains k = Some managed"
    and "list_all (tidy_pattern env) (denied_domains c)" "list_all (tidy_pattern env) managed"
  shows "set managed \<subseteq> set (denied_domains c)"
  using assms lower_set_tidy [OF assms(3)] lower_set_tidy [OF assms(4)]
  by (auto simp: validate_denied_domains_def bindE_eq_Inr guardE_eq_Inr Let_def sorted_missing_Nil split: if_splits)

lemma managed_allowances_cover:
  assumes "validate_allowed_domains env c k = Inr ()" "co_allowed_domains k = Some managed" "co_allowlist_expansion k \<noteq> Some True"
    and "list_all (tidy_pattern env) (allowed_domains c)" "list_all (tidy_pattern env) managed" "listed (allowed_domains c) h"
  shows "listed managed h"
proof -
  obtain e where e: "e \<in> set (allowed_domains c)" "covers e h" using assms(6) by (auto simp: listed_def list_ex_iff)
  show ?thesis
  proof (cases "co_allowlist_expansion k")
    case None
    then have "\<exists>m \<in> set managed. pattern_allows (parse_for_constraints env m) (parse_for_constraints env e)"
      using assms(1,2) e(1) by (auto simp: validate_allowed_domains_def bindE_eq_Inr guardE_eq_Inr Let_def filter_empty_conv list_ex_iff)
    then show ?thesis using allowed_is_covered [of env _ e h] assms(4,5) e by (auto simp: listed_def list_ex_iff list_all_iff)
  next
    case (Some b)
    then have "lower_set env (allowed_domains c) \<subseteq> lower_set env managed"
      using assms(1-3) by (auto simp: validate_allowed_domains_def bindE_eq_Inr guardE_eq_Inr Let_def)
    then show ?thesis using lower_set_tidy [OF assms(4)] lower_set_tidy [OF assms(5)] e by (auto simp: listed_def list_ex_iff)
  qed
qed



section \<open>Observations\<close>

text \<open>
  A pattern with an open bracket passes validation, and makes every check raise; \<open>**\<close> passes the test for
  global wildcards and covers every host.
\<close>

theorem open_bracket_makes_every_check_raise:
  "(\<exists>s. build_config_state plain_net_env (default_config\<lparr>nc_allowed := [lit ''a[b.example.com'']\<rparr>) no_constraints = Inr s
      \<and> host_blocked_by plain_net_env (cs_config s) (lit ''api.example.com'') 443 = Inl (BadGlob (lit ''a[b.example.com'')))"
proof -
  have "(case build_config_state plain_net_env (default_config\<lparr>nc_allowed := [lit ''a[b.example.com'']\<rparr>) no_constraints of
      Inl _ \<Rightarrow> False
    | Inr s \<Rightarrow> host_blocked_by plain_net_env (cs_config s) (lit ''api.example.com'') 443 = Inl (BadGlob (lit ''a[b.example.com'')))"
    by code_simp
  then show ?thesis by (auto split: sum.splits)
qed

theorem double_star_is_no_global_wildcard:
  "\<not> is_global_wildcard_domain_pattern plain_net_env (lit ''**'')
   \<and> host_blocked_by plain_net_env (default_config\<lparr>nc_allowed := [lit ''**'']\<rparr>) (lit ''any.org'') 443 = Inr None
   \<and> validate_policy_against_constraints plain_net_env (default_config\<lparr>nc_allowed := [lit ''**'']\<rparr>)
       (no_constraints\<lparr>co_allowed_domains := Some [lit ''**'']\<rparr>) = Inr ()"
  by code_simp

end
