(* ===== verification/NetBind.thy ===== *)
theory NetBind
  imports NetConfig
begin

text \<open>
  The addresses the network proxy listens on (\<open>network_proxy/config.py\<close>): host and port read from a URL or an
  address text, the host replaced by the loopback address where it may not be used.
\<close>

section \<open>Reading host and port\<close>

text \<open>
  \<open>urlparse\<close> with the host name and the port of its result (\<open>None\<close> where it raises), and \<open>int\<close> of a text.
\<close>

record url_env =
  ue_parse :: "pystr \<Rightarrow> (pystr option \<times> int option option) option"
  ue_int :: "pystr \<Rightarrow> int option"

definition strip_brackets :: "pystr \<Rightarrow> pystr" where
  "strip_brackets s = rev (dropWhile (\<lambda>c. c \<in> {91, 93}) (rev (dropWhile (\<lambda>c. c \<in> {91, 93}) s)))"

text \<open>\<open>s.rsplit(c, 1)\<close>, for a character that is in \<open>s\<close>.\<close>

definition rsplit_once :: "int \<Rightarrow> pystr \<Rightarrow> pystr \<times> pystr" where
  "rsplit_once c s = (rev (drop 1 (dropWhile (\<lambda>x. x \<noteq> c) (rev s))), rev (takeWhile (\<lambda>x. x \<noteq> c) (rev s)))"

definition port_or :: "url_env \<Rightarrow> pystr \<Rightarrow> int \<Rightarrow> int" where
  "port_or u s default_port = (case ue_int u s of None \<Rightarrow> default_port | Some p \<Rightarrow> p)"

definition parse_host_port_fallback :: "url_env \<Rightarrow> pystr \<Rightarrow> int \<Rightarrow> (pystr \<times> int) option" where
  "parse_host_port_fallback u v default_port =
     (let without_scheme = (case split_once v (lit ''://'') of None \<Rightarrow> v | Some (_, r) \<Rightarrow> r);
          before_path = takeWhile (\<lambda>c. c \<noteq> 47) without_scheme;
          host_port = (if 64 \<in> set before_path then snd (rsplit_once 64 before_path) else before_path)
      in if starts_with host_port [91] \<and> 93 \<in> set host_port then
           (let host = takeWhile (\<lambda>c. c \<noteq> 93) (drop 1 host_port); rest = drop (length host + 2) host_port in
            if host = [] then None
            else Some (host, if starts_with rest [58] then port_or u (drop 1 rest) default_port else default_port))
         else if count_list host_port 58 = 1 then
           (let (host, raw_port) = rsplit_once 58 host_port in
            if host = [] then None else Some (host, port_or u raw_port default_port))
         else if host_port = [] then None else Some (host_port, default_port))"

definition is_bare_ipv6 :: "pystr \<Rightarrow> bool" where
  "is_bare_ipv6 s = ((case ip_address s of Some (IPv6 _ _) \<Rightarrow> True | _ \<Rightarrow> False) \<and> \<not> starts_with s [91])"

text \<open>\<open>None\<close> is \<open>ValueError\<close>: no host.\<close>

definition parse_host_port :: "url_env \<Rightarrow> pystr \<Rightarrow> int \<Rightarrow> (pystr \<times> int) option" where
  "parse_host_port u url default_port =
     (let trimmed = strip url in
      if trimmed = [] then None
      else if is_bare_ipv6 trimmed then Some (trimmed, default_port)
      else
        (case ue_parse u (if contains_str trimmed (lit ''://'') then trimmed else lit ''http://'' @ trimmed) of
           Some (Some host, port) \<Rightarrow>
             if host \<noteq> [] then
               Some (strip_brackets host, case port of Some (Some p) \<Rightarrow> p | _ \<Rightarrow> default_port)
             else parse_host_port_fallback u trimmed default_port
         | _ \<Rightarrow> parse_host_port_fallback u trimmed default_port))"

definition format_host_and_port :: "pystr \<Rightarrow> int \<Rightarrow> pystr" where
  "format_host_and_port host port =
     (if 58 \<in> set host then lit ''['' @ host @ lit '']:'' @ str_of_int port else host @ lit '':'' @ str_of_int port)"

definition host_and_port_from_network_addr :: "url_env \<Rightarrow> pystr \<Rightarrow> int \<Rightarrow> pystr" where
  "host_and_port_from_network_addr u v default_port =
     (let trimmed = strip v in
      if trimmed = [] then lit ''<missing>''
      else (case parse_host_port u trimmed default_port of
          None \<Rightarrow> format_host_and_port trimmed default_port
        | Some (host, port) \<Rightarrow> format_host_and_port host port))"

section \<open>Bind addresses\<close>

datatype bind_exn = BadSocketPath config_exn | MissingHost | BadPort

definition loopback_text :: pystr where "loopback_text = lit ''127.0.0.1''"

definition bindable_host :: "net_env \<Rightarrow> pystr \<Rightarrow> pystr" where
  "bindable_host env host =
     (if ne_lower env host = lit ''localhost'' then loopback_text
      else if ip_address (takeWhile (\<lambda>c. c \<noteq> 37) host) = None then loopback_text
      else host)"

definition resolve_addr :: "net_env \<Rightarrow> url_env \<Rightarrow> pystr \<Rightarrow> int \<Rightarrow> (bind_exn, pystr) result" where
  "resolve_addr env u v default_port =
     (case parse_host_port u v default_port of
        None \<Rightarrow> Inl MissingHost
      | Some (host, port) \<Rightarrow> Inr (format_host_and_port (bindable_host env host) port))"

definition split_formatted_host_port :: "url_env \<Rightarrow> pystr \<Rightarrow> (bind_exn, pystr \<times> int) result" where
  "split_formatted_host_port u addr =
     (let (host, raw_port) =
        (if starts_with addr [91] \<and> contains_str addr (lit '']:'')
         then (case split_once (drop 1 addr) (lit '']:'') of Some hp \<Rightarrow> hp | None \<Rightarrow> (drop 1 addr, []))
         else rsplit_once 58 addr)
      in case ue_int u raw_port of None \<Rightarrow> Inl BadPort | Some p \<Rightarrow> Inr (host, p))"

definition loopback_at :: "int \<Rightarrow> pystr" where
  "loopback_at port = loopback_text @ lit '':'' @ str_of_int port"

definition clamp_non_loopback :: "net_env \<Rightarrow> url_env \<Rightarrow> pystr \<Rightarrow> bool \<Rightarrow> (bind_exn, pystr) result" where
  "clamp_non_loopback env u addr allow_non_loopback =
     bindE (split_formatted_host_port u addr) (\<lambda>(host, port).
       Inr (if is_loopback_bind_host env host \<or> allow_non_loopback then addr else loopback_at port))"

definition force_loopback :: "url_env \<Rightarrow> pystr \<Rightarrow> (bind_exn, pystr) result" where
  "force_loopback u addr = bindE (split_formatted_host_port u addr) (\<lambda>(host, port). Inr (loopback_at port))"

definition clamp_bind_addrs ::
    "net_env \<Rightarrow> url_env \<Rightarrow> pystr \<Rightarrow> pystr \<Rightarrow> net_config \<Rightarrow> (bind_exn, pystr \<times> pystr) result" where
  "clamp_bind_addrs env u http_addr socks_addr c =
     bindE (clamp_non_loopback env u http_addr (nc_allow_non_loopback_proxy c)) (\<lambda>http.
     bindE (clamp_non_loopback env u socks_addr (nc_allow_non_loopback_proxy c)) (\<lambda>socks.
       if allow_unix_sockets_effective c = [] \<and> \<not> nc_allow_all_unix_sockets c then Inr (http, socks)
       else bindE (force_loopback u http) (\<lambda>http'. bindE (force_loopback u socks) (\<lambda>socks'. Inr (http', socks')))))"

definition resolve_runtime :: "net_env \<Rightarrow> url_env \<Rightarrow> net_config \<Rightarrow> (bind_exn, pystr \<times> pystr) result" where
  "resolve_runtime env u c =
     bindE (case validate_unix_socket_allowlist_paths c of Inl e \<Rightarrow> Inl (BadSocketPath e) | Inr x \<Rightarrow> Inr x) (\<lambda>_.
     bindE (resolve_addr env u (nc_proxy_url c) 3128) (\<lambda>http.
     bindE (resolve_addr env u (nc_socks_url c) 8081) (\<lambda>socks.
       clamp_bind_addrs env u http socks c)))"

section \<open>Loopback\<close>

lemma rsplit_last: "c \<notin> set t \<Longrightarrow> rsplit_once c (s @ c # t) = (s, t)"
proof -
  assume "c \<notin> set t"
  then have no: "x \<noteq> c" if "x \<in> set (rev t)" for x using that by auto
  have "takeWhile (\<lambda>x. x \<noteq> c) (rev t @ c # rev s) = rev t"
    using takeWhile_append2 [of "rev t" "\<lambda>x. x \<noteq> c" "c # rev s"] no by simp
  moreover have "dropWhile (\<lambda>x. x \<noteq> c) (rev t @ c # rev s) = c # rev s"
    using dropWhile_append2 [of "rev t" "\<lambda>x. x \<noteq> c" "c # rev s"] no by simp
  ultimately show ?thesis by (simp add: rsplit_once_def)
qed

lemma str_of_int_chars: "58 \<notin> set (str_of_int p)"
proof -
  have "58 \<notin> set (str_of_nat n)" for n using str_of_nat_digits [of 58 n] by auto
  then show ?thesis by (simp add: str_of_int_def)
qed

definition reads_ports :: "url_env \<Rightarrow> bool" where
  "reads_ports u \<longleftrightarrow> (\<forall>p. ue_int u (str_of_int p) = Some p)"

lemma split_loopback: "reads_ports u \<Longrightarrow> split_formatted_host_port u (loopback_at p) = Inr (loopback_text, p)"
proof -
  assume "reads_ports u"
  moreover have "\<not> starts_with (loopback_at p) [91]" by (simp add: loopback_at_def loopback_text_def)
  moreover have "rsplit_once 58 (loopback_at p) = (loopback_text, str_of_int p)"
    using rsplit_last [OF str_of_int_chars [of p], of loopback_text] by (simp add: loopback_at_def)
  ultimately show ?thesis by (simp add: split_formatted_host_port_def reads_ports_def)
qed

lemma loopback_text_is_loopback: "is_loopback_bind_host env loopback_text"
proof -
  have "ip_address (takeWhile (\<lambda>c. c \<noteq> 37) loopback_text) = Some (IPv4 2130706433)" "ip_is_loopback (IPv4 2130706433)" by code_simp+
  then show ?thesis by (simp add: is_loopback_bind_host_def)
qed


lemma clamp_loopback:
  assumes "reads_ports u" "clamp_non_loopback env u addr allow = Inr a" "\<not> allow"
  shows "\<exists>h p. split_formatted_host_port u a = Inr (h, p) \<and> is_loopback_bind_host env h"
  using assms split_loopback [OF assms(1)] loopback_text_is_loopback
  by (auto simp: clamp_non_loopback_def bindE_eq_Inr split: if_splits)

text \<open>
  C14: The proxy listens on loopback addresses only, unless the settings say otherwise; and when it gives access to
  Unix sockets it listens on 127.0.0.1 whatever they say.
\<close>

theorem proxy_listens_on_loopback:
  assumes "resolve_runtime env u c = Inr (http, socks)" "reads_ports u"
  shows "(nc_allow_non_loopback_proxy c \<or> (\<forall>addr. addr = http \<or> addr = socks \<longrightarrow>
        (\<exists>h p. split_formatted_host_port u addr = Inr (h, p) \<and> is_loopback_bind_host env h)))
    \<and> (nc_allow_unix_sockets c = [] \<and> \<not> nc_allow_all_unix_sockets c \<or> (\<exists>p q. http = loopback_at p \<and> socks = loopback_at q))"
proof -
  obtain http0 socks0 where "clamp_bind_addrs env u http0 socks0 c = Inr (http, socks)"
    using assms(1) by (auto simp: resolve_runtime_def bindE_eq_Inr)
  then obtain h s where hs: "clamp_non_loopback env u http0 (nc_allow_non_loopback_proxy c) = Inr h"
    "clamp_non_loopback env u socks0 (nc_allow_non_loopback_proxy c) = Inr s"
    "(if allow_unix_sockets_effective c = [] \<and> \<not> nc_allow_all_unix_sockets c then Inr (h, s)
       else bindE (force_loopback u h) (\<lambda>h'. bindE (force_loopback u s) (\<lambda>s'. Inr (h', s')))) = Inr (http, socks)"
    by (auto simp: clamp_bind_addrs_def bindE_eq_Inr)
  have forced: "\<exists>p. b = loopback_at p" if "force_loopback u a = Inr b" for a b
    using that by (auto simp: force_loopback_def bindE_eq_Inr)
  have at: "\<exists>h q. split_formatted_host_port u (loopback_at p) = Inr (h, q) \<and> is_loopback_bind_host env h" for p
    using split_loopback [OF assms(2)] loopback_text_is_loopback by blast
  have nil: "allow_unix_sockets_effective c = [] \<longleftrightarrow> nc_allow_unix_sockets c = []"
    by (metis allow_unix_sockets_effective_def set_empty set_remdups set_sort)
  show ?thesis
  proof (cases "allow_unix_sockets_effective c = [] \<and> \<not> nc_allow_all_unix_sockets c")
    case True
    then have "http = h" "socks = s" using hs(3) by simp_all
    then show ?thesis using clamp_loopback [OF assms(2) hs(1)] clamp_loopback [OF assms(2) hs(2)] True nil by auto
  next
    case False
    then have "force_loopback u h = Inr http" "force_loopback u s = Inr socks"
      using hs(3) by (auto simp: bindE_eq_Inr split: if_splits)
    then obtain p q where "http = loopback_at p" "socks = loopback_at q"
      using forced by meson
    then show ?thesis using at by blast
  qed
qed

text \<open>Decimal texts as numbers, and a URL that names no host.\<close>

definition decimal :: "pystr \<Rightarrow> int option" where
  "decimal s =
     (let neg = starts_with s [45]; ds = (if neg then drop 1 s else s) in
      if ds = [] then None else map_option (\<lambda>n. if neg then - of_digits 10 n else of_digits 10 n) (all_some (map digit_value ds)))"

definition plain_url_env :: url_env where
  "plain_url_env = \<lparr>ue_parse = (\<lambda>s. None), ue_int = decimal\<rparr>"

lemma of_digits_snoc: "of_digits b (ds @ [d]) = b * of_digits b ds + d"
  by (simp add: of_digits_def)

lemma all_some_snoc: "all_some (xs @ [x]) = (case (all_some xs, x) of (Some ys, Some y) \<Rightarrow> Some (ys @ [y]) | _ \<Rightarrow> None)"
  by (auto simp: all_some_def split: option.split)

lemma digits_of_nat: "\<exists>ds. all_some (map digit_value (str_of_nat n)) = Some ds \<and> of_digits 10 ds = int n"
proof (induction n rule: str_of_nat.induct)
  case (1 n)
  show ?case
  proof (cases "n < 10")
    case True
    then show ?thesis by (simp add: str_of_nat.simps [of n] all_some_def digit_value_def of_digits_def)
  next
    case False
    with 1 obtain ds where ds: "all_some (map digit_value (str_of_nat (n div 10))) = Some ds" "of_digits 10 ds = int (n div 10)"
      by blast
    have "digit_value (48 + int (n mod 10)) = Some (int (n mod 10))" by (rule digit_of_small) simp
    then have "all_some (map digit_value (str_of_nat n)) = Some (ds @ [int (n mod 10)])"
      using False ds(1) by (subst str_of_nat.simps) (simp add: all_some_snoc)
    moreover have "of_digits 10 (ds @ [int (n mod 10)]) = int n"
      using ds(2) by (simp only: of_digits_snoc) (metis mult_div_mod_eq of_nat_add of_nat_mult of_nat_numeral)
    ultimately show ?thesis by blast
  qed
qed

lemma str_of_nat_some: "str_of_nat n \<noteq> []"
  by (simp add: str_of_nat.simps [of n] del: str_of_nat.simps)

lemma plain_reads_ports: "reads_ports plain_url_env"
proof -
  have "decimal (str_of_int p) = Some p" for p
  proof -
    let ?s = "str_of_nat (nat \<bar>p\<bar>)"
    obtain ds where ds: "all_some (map digit_value ?s) = Some ds" "of_digits 10 ds = int (nat \<bar>p\<bar>)"
      using digits_of_nat by blast
    obtain x xs where s: "?s = x # xs" using str_of_nat_some by (cases ?s) auto
    then have "x \<noteq> 45" using str_of_nat_digits [of x "nat \<bar>p\<bar>"] by auto
    with s ds show ?thesis
      by (cases "p < 0") (simp_all add: decimal_def str_of_int_def Let_def del: str_of_nat.simps)
  qed
  then show ?thesis by (simp add: reads_ports_def plain_url_env_def)
qed

text \<open>A proxy told to listen on every address.\<close>

definition open_config :: net_config where
  "open_config = default_config\<lparr>nc_proxy_url := lit ''http://0.0.0.0:3128/''\<rparr>"

lemma open_config_resolves:
  "resolve_runtime plain_net_env plain_url_env open_config = Inr (lit ''127.0.0.1:3128'', lit ''127.0.0.1:8081'')"
proof -
  have ports: "str_of_int 3128 = lit ''3128''" "str_of_int 8081 = lit ''8081''"
    by (simp_all add: str_of_int_def str_of_nat.simps)
  have parsed: "parse_host_port plain_url_env (nc_proxy_url open_config) 3128 = Some (lit ''0.0.0.0'', 3128)"
    "parse_host_port plain_url_env (nc_socks_url open_config) 8081 = Some (lit ''127.0.0.1'', 8081)"
    "bindable_host plain_net_env (lit ''0.0.0.0'') = lit ''0.0.0.0''"
    "bindable_host plain_net_env (lit ''127.0.0.1'') = lit ''127.0.0.1''"
    "validate_unix_socket_allowlist_paths open_config = Inr ()"
    "nc_allow_non_loopback_proxy open_config = False" "nc_allow_all_unix_sockets open_config = False"
    "allow_unix_sockets_effective open_config = []" by code_simp+
  have clamped: "split_formatted_host_port plain_url_env (lit ''0.0.0.0:3128'') = Inr (lit ''0.0.0.0'', 3128)"
    "is_loopback_bind_host plain_net_env (lit ''0.0.0.0'') = False"
    "clamp_non_loopback plain_net_env plain_url_env (lit ''127.0.0.1:8081'') False = Inr (lit ''127.0.0.1:8081'')"
    by code_simp+
  have "resolve_addr plain_net_env plain_url_env (nc_proxy_url open_config) 3128 = Inr (lit ''0.0.0.0:3128'')"
    "resolve_addr plain_net_env plain_url_env (nc_socks_url open_config) 8081 = Inr (lit ''127.0.0.1:8081'')"
    using parsed ports by (simp_all add: resolve_addr_def format_host_and_port_def)
  moreover have "clamp_non_loopback plain_net_env plain_url_env (lit ''0.0.0.0:3128'') False = Inr (lit ''127.0.0.1:3128'')"
    using clamped(1,2) ports by (simp add: clamp_non_loopback_def loopback_at_def loopback_text_def bindE_def)
  ultimately show ?thesis
    using parsed clamped(3) by (simp add: resolve_runtime_def clamp_bind_addrs_def bindE_def del: lit.simps)
qed

theorem proxy_listens_on_loopback_witness:
  "resolve_runtime plain_net_env plain_url_env open_config = Inr (lit ''127.0.0.1:3128'', lit ''127.0.0.1:8081'')
   \<and> (\<exists>h p. split_formatted_host_port plain_url_env (lit ''127.0.0.1:3128'') = Inr (h, p) \<and> is_loopback_bind_host plain_net_env h)"
proof -
  have "\<not> nc_allow_non_loopback_proxy open_config" by code_simp
  then show ?thesis
    using proxy_listens_on_loopback [OF open_config_resolves plain_reads_ports] open_config_resolves by blast
qed

end
