(* ===== verification/HeadTail.thy ===== *)
theory HeadTail
  imports Prelude
begin

text \<open>
  The output of a running command is kept in a buffer of bounded size (\<open>core/unified_exec/head_tail_buffer.py\<close>):
  its beginning and its end, with a count of the bytes between them. Bytes are integers, a deque is a list.
\<close>

section \<open>The buffer\<close>

record head_tail =
  ht_max_bytes :: int
  ht_head_budget :: int
  ht_tail_budget :: int
  ht_head :: "int list list"
  ht_tail :: "int list list"
  ht_head_bytes :: int
  ht_tail_bytes :: int
  ht_omitted_bytes :: int

text \<open>\<open>None\<close> is \<open>ValueError\<close>.\<close>

definition head_tail_new :: "int \<Rightarrow> head_tail option" where
  "head_tail_new max_bytes =
     (if max_bytes < 0 then None
      else Some \<lparr>ht_max_bytes = max_bytes, ht_head_budget = max_bytes div 2, ht_tail_budget = max_bytes - max_bytes div 2,
        ht_head = [], ht_tail = [], ht_head_bytes = 0, ht_tail_bytes = 0, ht_omitted_bytes = 0\<rparr>)"

definition retained_bytes :: "head_tail \<Rightarrow> int" where
  "retained_bytes b = ht_head_bytes b + ht_tail_bytes b"

text \<open>The loop over the front chunks: the deque, the bytes in it and the bytes omitted.\<close>

fun trim_loop :: "int \<Rightarrow> int list list \<Rightarrow> int \<Rightarrow> int \<Rightarrow> int list list \<times> int \<times> int" where
  "trim_loop excess [] tail_bytes omitted = ([], tail_bytes, omitted)"
| "trim_loop excess (front # rest) tail_bytes omitted =
     (if excess \<le> 0 then (front # rest, tail_bytes, omitted)
      else if int (length front) \<le> excess
      then trim_loop (excess - int (length front)) rest (tail_bytes - int (length front)) (omitted + int (length front))
      else (drop (nat excess) front # rest, tail_bytes - excess, omitted + excess))"

definition trim_tail_to_budget :: "head_tail \<Rightarrow> head_tail" where
  "trim_tail_to_budget b =
     (let (tail, tail_bytes, omitted) =
        trim_loop (max (ht_tail_bytes b - ht_tail_budget b) 0) (ht_tail b) (ht_tail_bytes b) (ht_omitted_bytes b)
      in b\<lparr>ht_tail := tail, ht_tail_bytes := tail_bytes, ht_omitted_bytes := omitted\<rparr>)"

definition push_to_tail :: "int list \<Rightarrow> head_tail \<Rightarrow> head_tail" where
  "push_to_tail chunk b =
     (let n = int (length chunk) in
      if ht_tail_budget b = 0 then b\<lparr>ht_omitted_bytes := ht_omitted_bytes b + n\<rparr>
      else if ht_tail_budget b \<le> n then
        (let kept = drop (nat (n - ht_tail_budget b)) chunk; dropped = n - int (length kept) in
         b\<lparr>ht_omitted_bytes := ht_omitted_bytes b + (ht_tail_bytes b + dropped), ht_tail_bytes := int (length kept),
           ht_tail := [kept]\<rparr>)
      else trim_tail_to_budget (b\<lparr>ht_tail_bytes := ht_tail_bytes b + n, ht_tail := ht_tail b @ [chunk]\<rparr>))"

definition push_chunk :: "int list \<Rightarrow> head_tail \<Rightarrow> head_tail" where
  "push_chunk data b =
     (let n = int (length data) in
      if ht_max_bytes b = 0 then b\<lparr>ht_omitted_bytes := ht_omitted_bytes b + n\<rparr>
      else if ht_head_bytes b < ht_head_budget b then
        (let remaining_head = ht_head_budget b - ht_head_bytes b in
         if n \<le> remaining_head then b\<lparr>ht_head_bytes := ht_head_bytes b + n, ht_head := ht_head b @ [data]\<rparr>
         else
           (let head_part = take (nat remaining_head) data; tail_part = drop (nat remaining_head) data;
                b' = (if head_part = [] then b
                  else b\<lparr>ht_head_bytes := ht_head_bytes b + int (length head_part), ht_head := ht_head b @ [head_part]\<rparr>)
            in push_to_tail tail_part b'))
      else push_to_tail data b)"

definition snapshot_chunks :: "head_tail \<Rightarrow> int list list" where
  "snapshot_chunks b = ht_head b @ ht_tail b"

definition head_tail_to_bytes :: "head_tail \<Rightarrow> int list" where
  "head_tail_to_bytes b = concat (snapshot_chunks b)"

definition drain_chunks :: "head_tail \<Rightarrow> int list list \<times> head_tail" where
  "drain_chunks b =
     (snapshot_chunks b,
      b\<lparr>ht_head := [], ht_tail := [], ht_head_bytes := 0, ht_tail_bytes := 0, ht_omitted_bytes := 0\<rparr>)"

section \<open>What the buffer holds\<close>

text \<open>The last \<open>n\<close> bytes, and what a buffer of size \<open>m\<close> keeps of the bytes pushed.\<close>

definition last_n :: "nat \<Rightarrow> 'a list \<Rightarrow> 'a list" where
  "last_n n xs = drop (length xs - n) xs"

definition kept_bytes :: "nat \<Rightarrow> int list \<Rightarrow> int list" where
  "kept_bytes m s = take (m div 2) s @ last_n (m - m div 2) (drop (m div 2) s)"

lemma last_n_length [simp]: "length (last_n n xs) = min n (length xs)"
  by (simp add: last_n_def)

lemma last_n_all: "length xs \<le> n \<Longrightarrow> last_n n xs = xs"
  by (simp add: last_n_def)

lemma last_n_append: "last_n n (last_n n xs @ ys) = last_n n (xs @ ys)"
proof (cases "length xs \<le> n")
  case False
  then obtain us vs where "xs = us @ vs" "length vs = n"
    by (metis append_take_drop_id diff_diff_cancel length_drop nat_le_linear)
  then show ?thesis by (simp add: last_n_def)
qed (simp add: last_n_all)

lemma last_n_suffix: "n \<le> length ys \<Longrightarrow> last_n n (xs @ ys) = last_n n ys"
  by (simp add: last_n_def)

lemma trim_loop_drops:
  assumes "0 \<le> excess"
  shows "trim_loop excess chunks tail_bytes omitted = (chunks', tail_bytes', omitted')
    \<Longrightarrow> concat chunks' = drop (nat excess) (concat chunks)
      \<and> omitted' - omitted = min excess (int (length (concat chunks))) \<and> tail_bytes - tail_bytes' = omitted' - omitted"
  using assms
proof (induction excess chunks tail_bytes omitted rule: trim_loop.induct)
  case (2 excess front rest tail_bytes omitted)
  consider "excess = 0" | "0 < excess" "int (length front) \<le> excess" | "excess < int (length front)" "0 < excess"
    using "2.prems" by linarith
  then show ?case
  proof cases
    case 2
    then show ?thesis using "2.IH" "2.prems" by (auto simp: nat_diff_distrib)
  qed (use "2.prems" in \<open>auto\<close>)
qed auto

section \<open>The invariant\<close>

text \<open>The buffer after the bytes \<open>s\<close>.\<close>

definition holds_bytes :: "int list \<Rightarrow> head_tail \<Rightarrow> bool" where
  "holds_bytes s b \<longleftrightarrow> (\<exists>m. ht_max_bytes b = int m \<and> ht_head_budget b = int (m div 2) \<and> ht_tail_budget b = int (m - m div 2)
     \<and> concat (ht_head b) = take (m div 2) s \<and> concat (ht_tail b) = last_n (m - m div 2) (drop (m div 2) s)
     \<and> ht_head_bytes b = int (length (concat (ht_head b))) \<and> ht_tail_bytes b = int (length (concat (ht_tail b)))
     \<and> ht_omitted_bytes b = int (length s) - ht_head_bytes b - ht_tail_bytes b)"

lemma push_to_tail_holds:
  assumes "concat (ht_tail b) = last_n t u" "ht_tail_bytes b = int (length (concat (ht_tail b)))" "ht_tail_budget b = int t"
  shows "\<exists>tl tb om. push_to_tail c b = b\<lparr>ht_tail := tl, ht_tail_bytes := tb, ht_omitted_bytes := om\<rparr>
     \<and> concat tl = last_n t (u @ c) \<and> tb = int (length (concat tl))
     \<and> om = ht_omitted_bytes b + ht_tail_bytes b + int (length c) - tb"
proof -
  consider "t = 0" | "0 < t" "t \<le> length c" | "length c < t" by linarith
  then show ?thesis
  proof cases
    case 1
    then show ?thesis using assms by (intro exI [of _ "ht_tail b"]) (auto simp: push_to_tail_def last_n_def)
  next
    case 2
    then have "last_n t (u @ c) = drop (length c - t) c" by (simp add: last_n_suffix) (simp add: last_n_def)
    then show ?thesis using 2 assms
      by (intro exI [of _ "[drop (length c - t) c]"]) (auto simp: push_to_tail_def Let_def nat_diff_distrib)
  next
    case 3
    let ?cs = "ht_tail b @ [c]" and ?n = "ht_tail_bytes b + int (length c)"
    obtain tl tb om where trim: "trim_loop (max (?n - int t) 0) ?cs ?n (ht_omitted_bytes b) = (tl, tb, om)"
      by (metis prod.exhaust)
    have n: "?n = int (length (last_n t u @ c))" using assms by simp
    from trim_loop_drops [OF _ trim]
    have drops: "concat tl = drop (nat (max (?n - int t) 0)) (last_n t u @ c)"
      "om - ht_omitted_bytes b = min (max (?n - int t) 0) (int (length (last_n t u @ c)))" "?n - tb = om - ht_omitted_bytes b"
      using assms(1) by simp_all
    have "nat (max (?n - int t) 0) = length (last_n t u @ c) - t" unfolding n by linarith
    then have "concat tl = last_n t (last_n t u @ c)" using drops(1) by (simp only: last_n_def [of t "last_n t u @ c"])
    then have tl: "concat tl = last_n t (u @ c)" by (simp only: last_n_append)
    have "tb = ?n - max (?n - int t) 0" using drops(2,3) n by simp
    then have "tb = int (length (concat tl))" unfolding tl last_n_length using n by auto
    moreover have "push_to_tail c b = b\<lparr>ht_tail := tl, ht_tail_bytes := tb, ht_omitted_bytes := om\<rparr>"
      using 3 trim assms(3) by (simp add: push_to_tail_def trim_tail_to_budget_def)
    moreover have "om = ht_omitted_bytes b + ht_tail_bytes b + int (length c) - tb" using drops(3) by simp
    ultimately show ?thesis using tl by blast
  qed
qed

lemma push_chunk_holds: "holds_bytes s b \<Longrightarrow> holds_bytes (s @ c) (push_chunk c b)"
proof -
  assume "holds_bytes s b"
  then obtain m where m: "ht_max_bytes b = int m" "ht_head_budget b = int (m div 2)" "ht_tail_budget b = int (m - m div 2)"
    and hd: "concat (ht_head b) = take (m div 2) s" "ht_head_bytes b = int (length (concat (ht_head b)))"
    and tl: "concat (ht_tail b) = last_n (m - m div 2) (drop (m div 2) s)" "ht_tail_bytes b = int (length (concat (ht_tail b)))"
    and om: "ht_omitted_bytes b = int (length s) - ht_head_bytes b - ht_tail_bytes b"
    by (auto simp: holds_bytes_def)
  let ?h = "m div 2" and ?t = "m - m div 2"
  have tail: "holds_bytes (s @ c) (push_to_tail c' b')"
    if h: "ht_max_bytes b' = int m" "ht_head_budget b' = int ?h" "ht_tail_budget b' = int ?t" "ht_tail b' = ht_tail b"
      "ht_tail_bytes b' = ht_tail_bytes b" "ht_omitted_bytes b' = ht_omitted_bytes b"
      "concat (ht_head b') = take ?h (s @ c)" "ht_head_bytes b' = int (length (concat (ht_head b')))"
      "drop ?h (s @ c) = drop ?h s @ c'" "int (length s) + int (length c) = int (length s) - ht_head_bytes b + ht_head_bytes b' + int (length c')"
    for b' c'
  proof -
    have same: "concat (ht_tail b') = last_n ?t (drop ?h s)" "ht_tail_bytes b' = int (length (concat (ht_tail b')))"
      unfolding h(4,5) by (rule tl)+
    obtain tl tb om where t: "push_to_tail c' b' = b'\<lparr>ht_tail := tl, ht_tail_bytes := tb, ht_omitted_bytes := om\<rparr>"
      "concat tl = last_n ?t (drop ?h s @ c')" "tb = int (length (concat tl))"
      "om = ht_omitted_bytes b' + ht_tail_bytes b' + int (length c') - tb"
      using push_to_tail_holds [OF same h(3), of c'] by blast
    let ?b = "push_to_tail c' b'"
    have "ht_max_bytes ?b = int m" "ht_head_budget ?b = int ?h" "ht_tail_budget ?b = int ?t" "ht_head ?b = ht_head b'"
      "ht_head_bytes ?b = ht_head_bytes b'" "ht_tail ?b = tl" "ht_tail_bytes ?b = tb" "ht_omitted_bytes ?b = om"
      unfolding t(1) using h(1-3) by simp_all
    moreover have "om = int (length (s @ c)) - ht_head_bytes b' - tb" using t(4) h(5,6,10) om by simp
    ultimately show ?thesis unfolding holds_bytes_def using t(2,3) h(7,8,9) by metis
  qed
  show ?thesis
  proof (cases "m = 0")
    case True
    then show ?thesis using m hd tl om by (auto simp: push_chunk_def holds_bytes_def last_n_def)
  next
    case False
    show ?thesis
    proof (cases "ht_head_bytes b < int ?h")
      case True
      then have short: "length s < ?h" using hd by simp
      let ?r = "?h - length s"
      have r: "nat (ht_head_budget b - ht_head_bytes b) = ?r" using m hd short by simp
      show ?thesis
      proof (cases "length c \<le> ?r")
        case True
        then show ?thesis using False short m hd tl om
          by (auto simp: push_chunk_def holds_bytes_def Let_def last_n_def intro!: exI [of _ m])
      next
        case large: False
        let ?b = "b\<lparr>ht_head_bytes := ht_head_bytes b + int ?r, ht_head := ht_head b @ [take ?r c]\<rparr>"
        have "ht_max_bytes b \<noteq> 0" "ht_head_bytes b < ht_head_budget b" "\<not> int (length c) \<le> ht_head_budget b - ht_head_bytes b"
          "take ?r c \<noteq> []" "length (take ?r c) = ?r"
          using False True large m(1,2) hd short by auto
        then have "push_chunk c b = push_to_tail (drop ?r c) ?b"
          by (simp only: push_chunk_def Let_def r if_False if_True)
        moreover have "holds_bytes (s @ c) (push_to_tail (drop ?r c) ?b)"
          using m hd tl short large by (intro tail) auto
        ultimately show ?thesis by simp
      qed
    next
      case long: False
      then have "?h \<le> length s" using hd by auto
      then show ?thesis using m hd long False by (auto simp: push_chunk_def Let_def intro!: tail)
    qed
  qed
qed

lemma new_holds: "head_tail_new n = Some b \<Longrightarrow> holds_bytes [] b \<and> ht_max_bytes b = n"
  by (auto simp: head_tail_new_def holds_bytes_def last_n_def zdiv_int of_nat_diff intro!: exI [of _ "nat n"] split: if_splits)

lemma pushes_hold: "holds_bytes s b \<Longrightarrow> holds_bytes (s @ concat cs) (fold push_chunk cs b)"
  by (induction cs arbitrary: s b) (use push_chunk_holds in \<open>fastforce+\<close>)

lemma push_chunk_budgets:
  "ht_max_bytes (push_chunk c b) = ht_max_bytes b \<and> ht_head_budget (push_chunk c b) = ht_head_budget b
   \<and> ht_tail_budget (push_chunk c b) = ht_tail_budget b"
  by (simp add: push_chunk_def push_to_tail_def trim_tail_to_budget_def Let_def split: prod.splits)

lemma pushes_budgets:
  "ht_max_bytes (fold push_chunk cs b) = ht_max_bytes b \<and> ht_head_budget (fold push_chunk cs b) = ht_head_budget b
   \<and> ht_tail_budget (fold push_chunk cs b) = ht_tail_budget b"
  by (induction cs arbitrary: b) (simp_all add: push_chunk_budgets)

text \<open>
  C40: However the output of a command arrives in chunks, the buffer holds its beginning and its end, half of the
  size each, and everything while it fits; it counts exactly the bytes it has left out, and draining it gives what
  it holds and leaves it as new.
\<close>

theorem buffer_keeps_both_ends:
  fixes cs :: "int list list"
  assumes "head_tail_new n = Some b"
  defines "b' \<equiv> fold push_chunk cs b"
  shows "head_tail_to_bytes b' = kept_bytes (nat n) (concat cs)
    \<and> (length (concat cs) \<le> nat n \<longrightarrow> head_tail_to_bytes b' = concat cs)
    \<and> retained_bytes b' = int (length (head_tail_to_bytes b')) \<and> retained_bytes b' = min n (int (length (concat cs)))
    \<and> ht_omitted_bytes b' = int (length (concat cs)) - retained_bytes b'
    \<and> drain_chunks b' = (snapshot_chunks b', b)"
proof -
  let ?s = "concat cs" and ?m = "nat n"
  have n: "0 \<le> n" using assms(1) by (auto simp: head_tail_new_def split: if_splits)
  have "ht_max_bytes b' = n" using new_holds [OF assms(1)] pushes_budgets by (simp add: b'_def)
  moreover have "holds_bytes ?s b'" using pushes_hold [of "[]"] new_holds [OF assms(1)] by (simp add: b'_def)
  ultimately have b: "concat (ht_head b') = take (?m div 2) ?s" "concat (ht_tail b') = last_n (?m - ?m div 2) (drop (?m div 2) ?s)"
      "ht_head_bytes b' = int (length (concat (ht_head b')))" "ht_tail_bytes b' = int (length (concat (ht_tail b')))"
      "ht_omitted_bytes b' = int (length ?s) - ht_head_bytes b' - ht_tail_bytes b'"
    by (auto simp: holds_bytes_def)
  have bytes: "head_tail_to_bytes b' = kept_bytes ?m ?s"
    using b(1,2) by (simp add: head_tail_to_bytes_def snapshot_chunks_def kept_bytes_def)
  moreover have "length ?s \<le> ?m \<longrightarrow> kept_bytes ?m ?s = ?s" by (auto simp: kept_bytes_def last_n_all)
  moreover have "retained_bytes b' = int (length (head_tail_to_bytes b'))"
    using b(3,4) by (simp add: retained_bytes_def head_tail_to_bytes_def snapshot_chunks_def)
  moreover have "length (kept_bytes ?m ?s) = min ?m (length ?s)" by (auto simp: kept_bytes_def min_def)
  moreover have "drain_chunks b' = (snapshot_chunks b', b)"
    using assms(1) pushes_budgets [of cs b] by (auto simp: b'_def drain_chunks_def head_tail_new_def split: if_splits)
  ultimately show ?thesis using b(5) n by (simp add: retained_bytes_def)
qed

theorem buffer_keeps_both_ends_witness:
  "\<exists>b. head_tail_new 5 = Some b \<and> head_tail_to_bytes (fold push_chunk [[1, 2, 3], [4], [5, 6, 7]] b) = [1, 2, 5, 6, 7]
     \<and> ht_omitted_bytes (fold push_chunk [[1, 2, 3], [4], [5, 6, 7]] b) = 2"
proof -
  obtain b where b: "head_tail_new 5 = Some b" by (simp add: head_tail_new_def)
  moreover have "kept_bytes (nat 5) (concat [[1, 2, 3], [4], [5, 6, 7]]) = [1, 2, 5, 6, 7]" by (simp add: kept_bytes_def last_n_def)
  ultimately show ?thesis using buffer_keeps_both_ends [OF b, of "[[1, 2, 3], [4], [5, 6, 7]]"] by simp
qed

end
