(* ===== verification/ShellEnvironment.thy ===== *)
theory ShellEnvironment
  imports PyDict PyFnmatch
begin

text \<open>
  The environment variables a command is started with (\<open>protocol/shell_environment.py\<close>): those of the agent,
  filtered by the policy of the user, so that credentials need not reach the commands. \<open>str.lower\<close> is a
  parameter; a mapping is a list of pairs in insertion order.
\<close>

section \<open>The policy\<close>

datatype env_inherit = InheritCore | InheritAll | InheritNone

record shell_env_policy =
  sp_inherit :: env_inherit
  sp_ignore_default_excludes :: bool
  sp_exclude :: "pystr list"
  sp_set_values :: "(pystr, pystr) pydict"
  sp_include_only :: "pystr list"

definition CODEX_THREAD_ID_ENV_VAR :: pystr where
  "CODEX_THREAD_ID_ENV_VAR = lit ''CODEX_THREAD_ID''"

definition WINDOWS_DEFAULT_PATHEXT :: pystr where
  "WINDOWS_DEFAULT_PATHEXT = lit ''.COM;.EXE;.BAT;.CMD''"

definition UNIX_CORE_ENV_VARS :: "pystr list" where
  "UNIX_CORE_ENV_VARS = map lit
     [''PATH'', ''SHELL'', ''TMPDIR'', ''TEMP'', ''TMP'', ''HOME'', ''LANG'', ''LC_ALL'', ''LC_CTYPE'', ''LOGNAME'', ''USER'']"

definition WINDOWS_CORE_ENV_VARS :: "pystr list" where
  "WINDOWS_CORE_ENV_VARS = map lit
     [''PATH'', ''PATHEXT'', ''SHELL'', ''COMSPEC'', ''SYSTEMROOT'', ''SYSTEMDRIVE'', ''USERNAME'', ''USERDOMAIN'',
      ''USERPROFILE'', ''HOMEDRIVE'', ''HOMEPATH'', ''PROGRAMFILES'', ''PROGRAMFILES(X86)'', ''PROGRAMW6432'',
      ''PROGRAMDATA'', ''LOCALAPPDATA'', ''APPDATA'', ''TEMP'', ''TMP'', ''TMPDIR'', ''POWERSHELL'', ''PWSH'']"

definition default_excludes :: "pystr list" where
  "default_excludes = map lit [''*KEY*'', ''*SECRET*'', ''*TOKEN*'']"

section \<open>Filtering\<close>

definition matches_any_case_insensitive :: "(pystr \<Rightarrow> pystr) \<Rightarrow> pystr \<Rightarrow> pystr list \<Rightarrow> bool" where
  "matches_any_case_insensitive lower name candidates = list_ex (\<lambda>c. lower name = lower c) candidates"

definition matches_any_pattern :: "(pystr \<Rightarrow> pystr) \<Rightarrow> pystr \<Rightarrow> pystr list \<Rightarrow> bool" where
  "matches_any_pattern lower name patterns = list_ex (\<lambda>p. fnmatchcase (lower name) (lower p)) patterns"

text \<open>A dictionary filled from pairs, in order.\<close>

definition dict_update :: "('k, 'v) pydict \<Rightarrow> ('k \<times> 'v) list \<Rightarrow> ('k, 'v) pydict" where
  "dict_update d pairs = fold (\<lambda>(k, v). dict_set k v) pairs d"

definition keep_keys :: "('k \<Rightarrow> bool) \<Rightarrow> ('k \<times> 'v) list \<Rightarrow> ('k \<times> 'v) list" where
  "keep_keys P d = filter (\<lambda>(k, v). P k) d"

definition populate_env ::
    "(pystr \<Rightarrow> pystr) \<Rightarrow> bool \<Rightarrow> (pystr \<times> pystr) list \<Rightarrow> shell_env_policy \<Rightarrow> pystr option \<Rightarrow> (pystr, pystr) pydict" where
  "populate_env lower win32 pairs policy thread_id =
     (let inherited =
        (case sp_inherit policy of
           InheritAll \<Rightarrow> dict_update [] pairs
         | InheritNone \<Rightarrow> []
         | InheritCore \<Rightarrow> dict_update [] (keep_keys (\<lambda>k. matches_any_case_insensitive lower k
             (if win32 then WINDOWS_CORE_ENV_VARS else UNIX_CORE_ENV_VARS)) pairs));
          not_default = (if sp_ignore_default_excludes policy then inherited
            else keep_keys (\<lambda>k. \<not> matches_any_pattern lower k default_excludes) inherited);
          not_excluded = (if sp_exclude policy = [] then not_default
            else keep_keys (\<lambda>k. \<not> matches_any_pattern lower k (sp_exclude policy)) not_default);
          with_values = dict_update not_excluded (sp_set_values policy);
          included = (if sp_include_only policy = [] then with_values
            else keep_keys (\<lambda>k. matches_any_pattern lower k (sp_include_only policy)) with_values)
      in case thread_id of None \<Rightarrow> included | Some t \<Rightarrow> dict_set CODEX_THREAD_ID_ENV_VAR t included)"

definition create_env_from_vars ::
    "(pystr \<Rightarrow> pystr) \<Rightarrow> bool \<Rightarrow> (pystr \<times> pystr) list \<Rightarrow> shell_env_policy \<Rightarrow> pystr option \<Rightarrow> (pystr, pystr) pydict" where
  "create_env_from_vars lower win32 pairs policy thread_id =
     (let env_map = populate_env lower win32 pairs policy thread_id in
      if win32 \<and> \<not> list_ex (\<lambda>(k, v). lower k = lit ''pathext'') env_map
      then dict_set (lit ''PATHEXT'') WINDOWS_DEFAULT_PATHEXT env_map
      else env_map)"

section \<open>Dictionaries filled from pairs\<close>

lemma dict_get_empty [simp]: "dict_get [] k = None"
  by (simp add: dict_get_def)

lemma dict_get_update: "dict_get (dict_update d ps) k = (case map_of (rev ps) k of None \<Rightarrow> dict_get d k | Some v \<Rightarrow> Some v)"
proof (induction ps arbitrary: d)
  case (Cons p ps)
  obtain k' v' where "p = (k', v')" by (cases p)
  with Cons [of "dict_set k' v' d"] show ?case by (auto simp: dict_update_def map_add_def split: option.splits)
qed (simp add: dict_update_def)

lemma dict_update_ok: "dict_ok d \<Longrightarrow> dict_ok (dict_update d ps)"
  by (induction ps arbitrary: d) (auto simp: dict_update_def)

lemma dict_get_keep: "dict_get (keep_keys P d) k = (if P k then dict_get d k else None)"
  by (induction d) (auto simp: keep_keys_def dict_get_def)

lemma keep_keys_ok: "dict_ok d \<Longrightarrow> dict_ok (keep_keys P d)"
  by (auto simp: keep_keys_def dict_ok_def intro: distinct_map_filter)

lemma map_of_rev_keep: "map_of (rev (keep_keys P ps)) k = (if P k then map_of (rev ps) k else None)"
  using dict_get_keep [of P "rev ps" k] by (simp add: keep_keys_def dict_get_def rev_filter)

lemma map_of_rev_dict: "dict_ok d \<Longrightarrow> map_of (rev d) k = dict_get d k"
  using map_of_inject_set [of "rev d" d] by (simp add: dict_get_def dict_ok_def flip: rev_map)

section \<open>Patterns with stars around a word\<close>

lemma fnmatch_containing:
  assumes "plain_text w"
  shows "fnmatchcase s (42 # w @ [42]) \<longleftrightarrow> sublist w s"
proof -
  have "glob_elems (w @ [42]) = map OneChar w @ [Star]"
    using assms by (induction w) (auto simp: plain_text_def)
  then have "glob_elems (42 # w @ [42]) = [Star] @ map OneChar w @ [Star]" by simp
  then show ?thesis
    by (auto simp: fnmatchcase_def glob_match_append glob_match_star glob_match_chars sublist_def simp del: append.simps append_Cons)
qed

lemma default_excludes_words:
  assumes "lower (lit ''*KEY*'') = lit ''*key*''" "lower (lit ''*SECRET*'') = lit ''*secret*''" "lower (lit ''*TOKEN*'') = lit ''*token*''"
  shows "matches_any_pattern lower k default_excludes \<longleftrightarrow>
    sublist (lit ''key'') (lower k) \<or> sublist (lit ''secret'') (lower k) \<or> sublist (lit ''token'') (lower k)"
proof -
  have "plain_text (lit ''key'')" "plain_text (lit ''secret'')" "plain_text (lit ''token'')" by code_simp+
  moreover have "lit ''*key*'' = 42 # lit ''key'' @ [42]" "lit ''*secret*'' = 42 # lit ''secret'' @ [42]"
    "lit ''*token*'' = 42 # lit ''token'' @ [42]" by code_simp+
  ultimately show ?thesis
    using assms by (simp add: matches_any_pattern_def default_excludes_def fnmatch_containing del: lit.simps)
qed

section \<open>The variables of a command\<close>

text \<open>What of the agent's own environment the policy lets through, whatever is set besides.\<close>

definition inheritable :: "(pystr \<Rightarrow> pystr) \<Rightarrow> bool \<Rightarrow> shell_env_policy \<Rightarrow> pystr \<Rightarrow> bool" where
  "inheritable lower win32 policy k \<longleftrightarrow>
     (sp_inherit policy = InheritAll
      \<or> sp_inherit policy = InheritCore
        \<and> (\<exists>c \<in> set (if win32 then WINDOWS_CORE_ENV_VARS else UNIX_CORE_ENV_VARS). lower k = lower c))
     \<and> (sp_ignore_default_excludes policy \<or>
        \<not> (sublist (lit ''key'') (lower k) \<or> sublist (lit ''secret'') (lower k) \<or> sublist (lit ''token'') (lower k)))
     \<and> \<not> matches_any_pattern lower k (sp_exclude policy)"

lemma no_patterns [simp]: "\<not> matches_any_pattern lower k []"
  by (simp add: matches_any_pattern_def)

lemma populate_env_get:
  assumes "lower (lit ''*KEY*'') = lit ''*key*''" "lower (lit ''*SECRET*'') = lit ''*secret*''" "lower (lit ''*TOKEN*'') = lit ''*token*''"
    and "dict_ok (sp_set_values policy)"
  shows "dict_get (populate_env lower win32 pairs policy thread_id) k =
    (if thread_id \<noteq> None \<and> k = CODEX_THREAD_ID_ENV_VAR then thread_id
     else if sp_include_only policy \<noteq> [] \<and> \<not> matches_any_pattern lower k (sp_include_only policy) then None
     else if dict_get (sp_set_values policy) k \<noteq> None then dict_get (sp_set_values policy) k
     else if inheritable lower win32 policy k then map_of (rev pairs) k else None)"
proof -
  let ?core = "if win32 then WINDOWS_CORE_ENV_VARS else UNIX_CORE_ENV_VARS"
  define inherited where "inherited = (case sp_inherit policy of InheritAll \<Rightarrow> dict_update [] pairs | InheritNone \<Rightarrow> []
      | InheritCore \<Rightarrow> dict_update [] (keep_keys (\<lambda>k. matches_any_case_insensitive lower k ?core) pairs))"
  define excluded where "excluded = (\<lambda>d :: (pystr, pystr) pydict. if sp_exclude policy = [] then d
      else keep_keys (\<lambda>k. \<not> matches_any_pattern lower k (sp_exclude policy)) d)"
  define defaults where "defaults = (\<lambda>d :: (pystr, pystr) pydict. if sp_ignore_default_excludes policy then d
      else keep_keys (\<lambda>k. \<not> matches_any_pattern lower k default_excludes) d)"
  have "dict_get inherited k = (if sp_inherit policy = InheritAll \<or> sp_inherit policy = InheritCore \<and> (\<exists>c \<in> set ?core. lower k = lower c)
      then map_of (rev pairs) k else None)"
    by (cases "sp_inherit policy")
      (auto simp: inherited_def dict_get_update map_of_rev_keep matches_any_case_insensitive_def list_ex_iff split: option.splits)
  then have own: "dict_get (excluded (defaults inherited)) k = (if inheritable lower win32 policy k then map_of (rev pairs) k else None)"
    by (auto simp: excluded_def defaults_def dict_get_keep inheritable_def default_excludes_words [OF assms(1-3)] simp del: lit.simps)
  have "populate_env lower win32 pairs policy thread_id =
      (let d = dict_update (excluded (defaults inherited)) (sp_set_values policy);
           d' = (if sp_include_only policy = [] then d else keep_keys (\<lambda>k. matches_any_pattern lower k (sp_include_only policy)) d)
       in case thread_id of None \<Rightarrow> d' | Some t \<Rightarrow> dict_set CODEX_THREAD_ID_ENV_VAR t d')"
    unfolding populate_env_def inherited_def excluded_def defaults_def Let_def by (rule refl)
  then show ?thesis
    using own map_of_rev_dict [OF assms(4)]
    by (auto simp: Let_def dict_get_update dict_get_keep split: option.splits)
qed


definition careful_policy :: shell_env_policy where
  "careful_policy = \<lparr>sp_inherit = InheritAll, sp_ignore_default_excludes = False, sp_exclude = [lit ''AWS_*''],
     sp_set_values = [(lit ''CI'', lit ''1'')], sp_include_only = []\<rparr>"


end
