(* ===== verification/CompactHistory.thy ===== *)
theory CompactHistory
  imports ContextManager
begin

text \<open>
  When a conversation grows too long it is replaced by the user's latest messages and a summary
  (\<open>core/compact.py\<close>). What counts as a message of the user is decided by \<open>parse_turn_item\<close>
  (\<open>core/event_mapping.py\<close>), which reads a response item as an item of the turn shown to the user.
\<close>

section \<open>Turn items\<close>

datatype user_input = TextInput pystr | ImageInput pystr "image_detail option"

datatype turn_item =
    HookPromptTurn pystr "hook_prompt_fragment list"
  | UserMessageTurn pystr "user_input list"
  | AgentMessageTurn pystr "pystr list" "message_phase option"
  | ReasoningTurn pystr "pystr list" "pystr list"
  | WebSearchTurn pystr pystr web_search_action
  | ImageGenerationTurn pystr pystr pystr "pystr option"

definition is_image_open_tag_text :: "pystr \<Rightarrow> bool" where
  "is_image_open_tag_text s \<longleftrightarrow> s = lit ''<image>''"

definition is_image_close_tag_text :: "pystr \<Rightarrow> bool" where
  "is_image_close_tag_text s \<longleftrightarrow> s = lit ''</image>''"

definition is_local_image_open_tag_text :: "pystr \<Rightarrow> bool" where
  "is_local_image_open_tag_text s \<longleftrightarrow> starts_with s (lit ''<image name='') \<and> ends_with s (lit ''>'')"

fun is_input_image :: "content_item \<Rightarrow> bool" where
  "is_input_image (InputImage _ _) = True"
| "is_input_image _ = False"

text \<open>The loop of \<open>_parse_user_message\<close>, with whether the item before is an image.\<close>

fun user_inputs :: "bool \<Rightarrow> content_item list \<Rightarrow> user_input list" where
  "user_inputs after_image [] = []"
| "user_inputs after_image (InputText s # content) =
     (if (is_local_image_open_tag_text s \<or> is_image_open_tag_text s) \<and> content \<noteq> [] \<and> is_input_image (hd content)
         \<or> is_image_close_tag_text s \<and> after_image
      then user_inputs False content
      else TextInput s # user_inputs False content)"
| "user_inputs after_image (InputImage url detail # content) = ImageInput url detail # user_inputs True content"
| "user_inputs after_image (OutputText s # content) = user_inputs False content"

definition parse_user_message :: "context_env \<Rightarrow> pystr \<Rightarrow> content_item list \<Rightarrow> turn_item option" where
  "parse_user_message env uuid content =
     (if is_contextual_user_message_content env content then None
      else Some (UserMessageTurn uuid (user_inputs False content)))"

fun content_texts :: "content_item list \<Rightarrow> pystr list" where
  "content_texts [] = []"
| "content_texts (InputText s # content) = s # content_texts content"
| "content_texts (OutputText s # content) = s # content_texts content"
| "content_texts (InputImage _ _ # content) = content_texts content"

definition or_empty :: "pystr option \<Rightarrow> pystr" where
  "or_empty v = (case v of None \<Rightarrow> [] | Some s \<Rightarrow> s)"

definition search_action_detail :: "pystr option \<Rightarrow> pystr list option \<Rightarrow> pystr" where
  "search_action_detail query queries =
     (if or_empty query \<noteq> [] then or_empty query
      else (case queries of
          None \<Rightarrow> []
        | Some [] \<Rightarrow> []
        | Some (first # rest) \<Rightarrow> if rest \<noteq> [] \<and> first \<noteq> [] then first @ lit '' ...'' else first))"

fun web_search_action_detail :: "web_search_action \<Rightarrow> pystr" where
  "web_search_action_detail (SearchAction query queries) = search_action_detail query queries"
| "web_search_action_detail (OpenPageAction url) = or_empty url"
| "web_search_action_detail (FindInPageAction url pattern) =
     (case (pattern, url) of
        (Some p, Some u) \<Rightarrow> [39] @ p @ [39] @ lit '' in '' @ u
      | (Some p, None) \<Rightarrow> [39] @ p @ [39]
      | (None, Some u) \<Rightarrow> u
      | (None, None) \<Rightarrow> [])"
| "web_search_action_detail OtherSearchAction = []"

text \<open>\<open>uuid\<close> is the identifier made up where the item has none.\<close>

definition parse_turn_item :: "context_env \<Rightarrow> pystr \<Rightarrow> response_item \<Rightarrow> turn_item option" where
  "parse_turn_item env uuid item =
     (case ri_type item of
        MessageItem \<Rightarrow>
          if ri_role item = Some (lit ''user'') then
            (case visible_hook_prompts env [] (ri_content item) of
               Some fragments \<Rightarrow> Some (HookPromptTurn (case ri_id item of None \<Rightarrow> uuid | Some i \<Rightarrow> i) fragments)
             | None \<Rightarrow> parse_user_message env uuid (ri_content item))
          else if ri_role item = Some (lit ''assistant'') then
            Some (AgentMessageTurn (if or_empty (ri_id item) = [] then uuid else or_empty (ri_id item))
              (content_texts (ri_content item)) (ri_phase item))
          else None
      | ReasoningItem \<Rightarrow>
          Some (ReasoningTurn (or_empty (ri_id item)) (ri_summary item)
            (map (\<lambda>c. case c of ReasoningText s \<Rightarrow> s | PlainReasoning s \<Rightarrow> s)
              (case ri_reasoning item of None \<Rightarrow> [] | Some cs \<Rightarrow> cs)))
      | WebSearchCall \<Rightarrow>
          (case ri_action item of
             Some (WebSearch a) \<Rightarrow> Some (WebSearchTurn (or_empty (ri_id item)) (web_search_action_detail a) a)
           | _ \<Rightarrow> Some (WebSearchTurn (or_empty (ri_id item)) [] OtherSearchAction))
      | ImageGenerationCall \<Rightarrow>
          Some (ImageGenerationTurn (or_empty (ri_id item)) (or_empty (ri_status item)) (or_empty (ri_result item))
            (ri_revised_prompt item))
      | _ \<Rightarrow> None)"

text \<open>\<open>UserMessageItem.message\<close>, and the message of an item that is a message of the user.\<close>

fun input_texts :: "user_input list \<Rightarrow> pystr" where
  "input_texts [] = []"
| "input_texts (TextInput s # inputs) = s @ input_texts inputs"
| "input_texts (ImageInput _ _ # inputs) = input_texts inputs"

definition user_message_of :: "context_env \<Rightarrow> response_item \<Rightarrow> pystr option" where
  "user_message_of env item =
     (case parse_turn_item env [] item of Some (UserMessageTurn _ inputs) \<Rightarrow> Some (input_texts inputs) | _ \<Rightarrow> None)"

section \<open>Compaction\<close>

definition SUMMARY_PREFIX :: pystr where
  "SUMMARY_PREFIX =
     lit ''Another language model started to solve this problem and produced a summary of its '' @
     lit ''thinking process. You also have access to the state of the tools that were used by that '' @
     lit ''language model. Use this to build on the work that has already been done and avoid '' @
     lit ''duplicating work. Here is the summary produced by the other language model, use the '' @
     lit ''information in this summary to assist with your own analysis:''"

definition COMPACT_USER_MESSAGE_MAX_TOKENS :: int where
  "COMPACT_USER_MESSAGE_MAX_TOKENS = 20000"

definition content_items_to_text :: "content_item list \<Rightarrow> pystr option" where
  "content_items_to_text content =
     (let pieces = filter (\<lambda>s. s \<noteq> []) (content_texts content) in
      if pieces = [] then None else Some (join_with [10] pieces))"

definition is_summary_message :: "pystr \<Rightarrow> bool" where
  "is_summary_message s = starts_with s (SUMMARY_PREFIX @ [10])"

fun collect_user_messages :: "context_env \<Rightarrow> response_item list \<Rightarrow> pystr list" where
  "collect_user_messages env [] = []"
| "collect_user_messages env (item # items) =
     (case user_message_of env item of
        None \<Rightarrow> collect_user_messages env items
      | Some m \<Rightarrow> if is_summary_message m then collect_user_messages env items else m # collect_user_messages env items)"

text \<open>The last assistant message with a text.\<close>

fun last_assistant_text :: "response_item list \<Rightarrow> pystr" where
  "last_assistant_text [] = []"
| "last_assistant_text (item # items) =
     (if ri_type item = MessageItem \<and> ri_role item = Some (lit ''assistant'') then
        (case content_items_to_text (ri_content item) of
           Some t \<Rightarrow> if t = [] then last_assistant_text items else t
         | None \<Rightarrow> last_assistant_text items)
      else last_assistant_text items)"

definition last_assistant_message :: "response_item list \<Rightarrow> pystr" where
  "last_assistant_message items = last_assistant_text (rev items)"

definition user_message_response_item :: "pystr \<Rightarrow> response_item" where
  "user_message_response_item s = message_item (lit ''user'') [InputText s] None None"

text \<open>The loop over the messages, the latest first, and what it selects in that order.\<close>

fun select_messages :: "int \<Rightarrow> pystr list \<Rightarrow> (trunc_exn, pystr list) result" where
  "select_messages remaining [] = Inr []"
| "select_messages remaining (m # ms) =
     (if remaining = 0 then Inr []
      else bindE (approx_token_count m) (\<lambda>tokens.
        if int tokens \<le> remaining
        then bindE (select_messages (max (remaining - int tokens) 0) ms) (\<lambda>selected. Inr (m # selected))
        else bindE (truncate_text m \<lparr>tp_mode = TokensMode, tp_limit = remaining\<rparr>) (\<lambda>t. Inr [t])))"

definition build_compacted_history_with_limit ::
    "response_item list \<Rightarrow> pystr list \<Rightarrow> pystr \<Rightarrow> int \<Rightarrow> (trunc_exn, response_item list) result" where
  "build_compacted_history_with_limit initial_context messages summary_text max_tokens =
     (if max_tokens < 0 then Inl (NegativeError (lit ''max_tokens must be non-negative''))
      else bindE (if max_tokens > 0 then select_messages max_tokens (rev messages) else Inr []) (\<lambda>selected.
        Inr (initial_context @ map user_message_response_item (rev selected)
          @ [user_message_response_item (if summary_text \<noteq> [] then summary_text else lit ''(no summary available)'')])))"

definition build_compacted_history ::
    "response_item list \<Rightarrow> pystr list \<Rightarrow> pystr \<Rightarrow> (trunc_exn, response_item list) result" where
  "build_compacted_history initial_context messages summary_text =
     build_compacted_history_with_limit initial_context messages summary_text COMPACT_USER_MESSAGE_MAX_TOKENS"

text \<open>
  The scan from the end: the index of the last message of the user or summary, and of the last message that
  is no summary.
\<close>

fun scan_user_messages ::
    "context_env \<Rightarrow> response_item list \<Rightarrow> nat \<Rightarrow> nat option \<Rightarrow> nat option \<times> nat option" where
  "scan_user_messages env history 0 last_any = (last_any, None)"
| "scan_user_messages env history (Suc i) last_any =
     (case user_message_of env (history ! i) of
        None \<Rightarrow> scan_user_messages env history i last_any
      | Some m \<Rightarrow>
          (let any = (case last_any of None \<Rightarrow> Some i | Some j \<Rightarrow> Some j) in
           if is_summary_message m then scan_user_messages env history i any else (any, Some i)))"

definition insert_initial_context_before_last_real_user_or_summary ::
    "context_env \<Rightarrow> response_item list \<Rightarrow> response_item list \<Rightarrow> response_item list" where
  "insert_initial_context_before_last_real_user_or_summary env history ctx =
     (let (last_user_or_summary, last_real_user) = scan_user_messages env history (length history) None;
          last_compaction = last_index_matching (\<lambda>i. ri_type i = CompactionItem \<or> ri_type i = ContextCompaction) history
      in case (case last_real_user of Some i \<Rightarrow> Some i
            | None \<Rightarrow> (case last_user_or_summary of Some i \<Rightarrow> Some i | None \<Rightarrow> last_compaction)) of
           None \<Rightarrow> history @ ctx
         | Some i \<Rightarrow> take i history @ ctx @ drop i history)"

text \<open>
  The history a compaction installs (\<open>run_compact_task_inner_impl\<close>, after the model has written the summary),
  with the initial context where it is to be put back.
\<close>

definition compacted_history ::
    "context_env \<Rightarrow> response_item list \<Rightarrow> response_item list option \<Rightarrow> (trunc_exn, response_item list) result" where
  "compacted_history env items initial_context =
     bindE (build_compacted_history [] (collect_user_messages env items)
       (SUMMARY_PREFIX @ [10] @ last_assistant_message items)) (\<lambda>new_history.
       Inr (case initial_context of
          None \<Rightarrow> new_history
        | Some ctx \<Rightarrow> insert_initial_context_before_last_real_user_or_summary env new_history ctx))"

section \<open>Messages of the user\<close>

definition ordinary_message :: "context_env \<Rightarrow> pystr \<Rightarrow> bool" where
  "ordinary_message env s \<longleftrightarrow>
     parse_hook_prompt_fragment env s = None \<and> \<not> is_standard_contextual_user_text env s \<and> \<not> is_summary_message s"

lemma user_message_of_text:
  "user_message_of env (user_message_response_item s) =
     (if parse_hook_prompt_fragment env s = None \<and> \<not> is_standard_contextual_user_text env s then Some s else None)"
  by (auto simp: user_message_of_def parse_turn_item_def user_message_response_item_def message_item_def item_of_type_def
      parse_user_message_def is_contextual_user_message_content_def simp del: lit.simps split: option.splits)

lemma collect_append: "collect_user_messages env (xs @ ys) = collect_user_messages env xs @ collect_user_messages env ys"
  by (induction xs) (auto split: option.splits)

lemma collect_texts: "collect_user_messages env (map user_message_response_item ms) = filter (ordinary_message env) ms"
  by (induction ms) (auto simp: user_message_of_text ordinary_message_def)

lemma collect_none: "list_all (\<lambda>i. user_message_of env i = None) ctx \<Longrightarrow> collect_user_messages env ctx = []"
  by (induction ctx) auto

lemma summary_is_summary [simp]: "is_summary_message (SUMMARY_PREFIX @ 10 # s)"
  using starts_with_append [of "SUMMARY_PREFIX @ [10]" s] by (simp add: is_summary_message_def)

lemma summary_not_ordinary [simp]: "\<not> ordinary_message env (SUMMARY_PREFIX @ 10 # s)"
  using summary_is_summary by (simp add: ordinary_message_def)

section \<open>What is selected\<close>

definition token_count :: "pystr \<Rightarrow> int" where
  "token_count s = int (approx_tokens_from_byte_count (byte_len s))"

lemma approx_token_count_total: "list_all scalar_value s \<Longrightarrow> approx_token_count s = Inr (nat (token_count s))"
  by (simp add: approx_token_count_def encode_len_def token_count_def)

text \<open>
  Of the messages, the latest are kept whole as long as the budget lasts, and of the one before them what the
  rest of the budget allows.
\<close>

lemma select_messages_spec:
  assumes "list_all (list_all scalar_value) ms" "0 \<le> budget"
  shows "\<exists>kept rest cut. select_messages budget ms = Inr (kept @ cut) \<and> ms = kept @ rest \<and> sum_list (map token_count kept) \<le> budget
    \<and> (if rest = [] \<or> sum_list (map token_count kept) = budget then cut = []
       else budget < sum_list (map token_count kept) + token_count (hd rest)
         \<and> (\<exists>t. truncate_text (hd rest) \<lparr>tp_mode = TokensMode, tp_limit = budget - sum_list (map token_count kept)\<rparr> = Inr t \<and> cut = [t]))"
  using assms
proof (induction ms arbitrary: budget)
  case (Cons m ms)
  then have m: "approx_token_count m = Inr (nat (token_count m))" "0 \<le> token_count m"
    by (simp_all add: approx_token_count_total token_count_def)
  consider "budget = 0" | "budget \<noteq> 0" "token_count m \<le> budget" | "budget \<noteq> 0" "budget < token_count m" by linarith
  then show ?case
  proof cases
    case 1
    then show ?thesis by (intro exI [of _ "[]"] exI [of _ "m # ms"]) simp
  next
    case 2
    then obtain kept rest cut where k: "select_messages (budget - token_count m) ms = Inr (kept @ cut)" "ms = kept @ rest"
      "sum_list (map token_count kept) \<le> budget - token_count m"
      "if rest = [] \<or> sum_list (map token_count kept) = budget - token_count m then cut = []
       else budget - token_count m < sum_list (map token_count kept) + token_count (hd rest)
         \<and> (\<exists>t. truncate_text (hd rest) \<lparr>tp_mode = TokensMode, tp_limit = budget - token_count m - sum_list (map token_count kept)\<rparr> = Inr t
           \<and> cut = [t])"
      using Cons.IH [of "budget - token_count m"] Cons.prems by auto
    have "max (budget - token_count m) 0 = budget - token_count m" using 2 by simp
    with k(1) have "select_messages budget (m # ms) = Inr ((m # kept) @ cut)" using 2 m by simp
    moreover have "budget - token_count m - sum_list (map token_count kept) = budget - sum_list (map token_count (m # kept))" by simp
    ultimately show ?thesis using k(2-4)
      by (intro exI [of _ "m # kept"] exI [of _ rest] exI [of _ cut])
        (auto simp: algebra_simps simp del: select_messages.simps split: if_splits)
  next
    case 3
    obtain t where t: "truncate_text m \<lparr>tp_mode = TokensMode, tp_limit = budget\<rparr> = Inr t"
      using truncate_text_total [of m "\<lparr>tp_mode = TokensMode, tp_limit = budget\<rparr>"] Cons.prems by auto
    then have "select_messages budget (m # ms) = Inr ([] @ [t])" using 3 m by simp
    then show ?thesis using 3 t Cons.prems
      by (intro exI [of _ "[]"] exI [of _ "m # ms"] exI [of _ "[t]"]) (simp del: select_messages.simps)
  qed
qed simp

section \<open>Where the context goes\<close>

lemma scan_last_ordinary:
  assumes "i < n" "user_message_of env (history ! i) = Some m" "\<not> is_summary_message m"
    and "\<forall>j. i < j \<and> j < n \<longrightarrow> (case user_message_of env (history ! j) of None \<Rightarrow> True | Some s \<Rightarrow> is_summary_message s)"
  shows "snd (scan_user_messages env history n last_any) = Some i"
  using assms
proof (induction n arbitrary: last_any)
  case (Suc n)
  show ?case
  proof (cases "i = n")
    case True
    then show ?thesis using Suc.prems by simp
  next
    case False
    then have "case user_message_of env (history ! n) of None \<Rightarrow> True | Some s \<Rightarrow> is_summary_message s"
      using Suc.prems by auto
    then show ?thesis using Suc.IH Suc.prems False by (auto simp: Let_def split: option.splits)
  qed
qed simp

lemma insert_before_last_ordinary:
  assumes "user_message_of env item = Some m" "\<not> is_summary_message m"
    and "list_all (\<lambda>i. case user_message_of env i of None \<Rightarrow> True | Some s \<Rightarrow> is_summary_message s) after"
  shows "insert_initial_context_before_last_real_user_or_summary env (before @ item # after) ctx = before @ ctx @ item # after"
proof -
  let ?h = "before @ item # after"
  have "snd (scan_user_messages env ?h (length ?h) None) = Some (length before)"
  proof (rule scan_last_ordinary [of _ _ _ _ m])
    show "\<forall>j. length before < j \<and> j < length ?h \<longrightarrow>
        (case user_message_of env (?h ! j) of None \<Rightarrow> True | Some s \<Rightarrow> is_summary_message s)"
      using assms(3) by (auto simp: nth_append nth_Cons' list_all_length)
  qed (use assms in \<open>auto simp: nth_append\<close>)
  then show ?thesis
    by (auto simp: insert_initial_context_before_last_real_user_or_summary_def split: prod.splits)
qed

lemma insert_keeps_messages:
  assumes "list_all (\<lambda>i. user_message_of env i = None) ctx"
  shows "collect_user_messages env (insert_initial_context_before_last_real_user_or_summary env history ctx)
    = collect_user_messages env history"
proof -
  have "collect_user_messages env (take i history @ ctx @ drop i history) = collect_user_messages env history" for i
    using collect_none [OF assms] by (simp add: collect_append) (metis append_take_drop_id collect_append)
  then show ?thesis using collect_none [OF assms]
    by (auto simp: insert_initial_context_before_last_real_user_or_summary_def collect_append split: prod.splits option.splits)
qed

section \<open>Compaction keeps the latest messages\<close>

lemma compacted_history_shape:
  assumes "list_all (list_all scalar_value) (collect_user_messages env items)"
  shows "\<exists>older kept cut. compacted_history env items None = Inr (map user_message_response_item (cut @ kept)
        @ [user_message_response_item (SUMMARY_PREFIX @ 10 # last_assistant_message items)])
    \<and> collect_user_messages env items = older @ kept \<and> sum_list (map token_count kept) \<le> 20000
    \<and> (if older = [] \<or> sum_list (map token_count kept) = 20000 then cut = []
       else 20000 < token_count (last older) + sum_list (map token_count kept)
         \<and> (\<exists>t. truncate_text (last older) \<lparr>tp_mode = TokensMode, tp_limit = 20000 - sum_list (map token_count kept)\<rparr> = Inr t \<and> cut = [t]))"
proof -
  let ?ms = "collect_user_messages env items"
  from select_messages_spec [of "rev ?ms" 20000] assms
  obtain kept rest cut where sel: "select_messages 20000 (rev ?ms) = Inr (kept @ cut)" "rev ?ms = kept @ rest"
    "sum_list (map token_count kept) \<le> 20000"
    "if rest = [] \<or> sum_list (map token_count kept) = 20000 then cut = []
       else 20000 < sum_list (map token_count kept) + token_count (hd rest)
         \<and> (\<exists>t. truncate_text (hd rest) \<lparr>tp_mode = TokensMode, tp_limit = 20000 - sum_list (map token_count kept)\<rparr> = Inr t \<and> cut = [t])"
    by (auto simp: list_all_rev)
  have cut: "rev cut = cut" using sel(4) by (auto split: if_splits)
  have "?ms = rev rest @ rev kept" using sel(2) by (metis rev_append rev_rev_ident)
  moreover have "compacted_history env items None = Inr (map user_message_response_item (cut @ rev kept)
        @ [user_message_response_item (SUMMARY_PREFIX @ 10 # last_assistant_message items)])"
    using sel(1) cut by (simp add: compacted_history_def build_compacted_history_def build_compacted_history_with_limit_def
        COMPACT_USER_MESSAGE_MAX_TOKENS_def)
  moreover have "sum_list (map token_count (rev kept)) = sum_list (map token_count kept)" by (simp add: sum_list_rev flip: rev_map)
  ultimately show ?thesis using sel(3,4)
    by (intro exI [of _ "rev rest"] exI [of _ "rev kept"] exI [of _ cut]) (auto simp: last_rev add.commute split: if_splits)
qed

text \<open>
  C21: Compacting a conversation keeps the latest messages of the user whole as long as they fit the budget, and of
  the one before them what fits the rest of it, followed by one summary; older summaries and context are left
  out, so that compacting again finds the same messages. Context that is put back stands right before the last
  message of the user and is no message of theirs.
\<close>

theorem compaction_keeps_the_latest_messages:
  assumes "list_all (\<lambda>m. list_all scalar_value m \<and> ordinary_message env m) (collect_user_messages env items)"
    and "list_all (\<lambda>i. user_message_of env i = None) ctx"
  shows "\<exists>older kept cut summary. collect_user_messages env items = older @ kept
    \<and> sum_list (map token_count kept) \<le> 20000
    \<and> (if older = [] \<or> sum_list (map token_count kept) = 20000 then cut = []
       else 20000 < token_count (last older) + sum_list (map token_count kept)
         \<and> (\<exists>t. truncate_text (last older) \<lparr>tp_mode = TokensMode, tp_limit = 20000 - sum_list (map token_count kept)\<rparr> = Inr t \<and> cut = [t]))
    \<and> is_summary_message summary
    \<and> compacted_history env items None = Inr (map user_message_response_item (cut @ kept @ [summary]))
    \<and> (kept \<noteq> [] \<longrightarrow> compacted_history env items (Some ctx) = Inr (map user_message_response_item (cut @ butlast kept) @ ctx
          @ map user_message_response_item [last kept, summary]))
    \<and> (\<exists>h. compacted_history env items (Some ctx) = Inr h
        \<and> collect_user_messages env h = filter (ordinary_message env) cut @ kept)"
proof -
  let ?summary = "SUMMARY_PREFIX @ 10 # last_assistant_message items"
  have "list_all (list_all scalar_value) (collect_user_messages env items)" using assms(1) by (simp add: list_all_iff)
  from compacted_history_shape [OF this]
  obtain older kept cut where s: "compacted_history env items None = Inr (map user_message_response_item (cut @ kept @ [?summary]))"
    "collect_user_messages env items = older @ kept" "sum_list (map token_count kept) \<le> 20000"
    "if older = [] \<or> sum_list (map token_count kept) = 20000 then cut = []
       else 20000 < token_count (last older) + sum_list (map token_count kept)
         \<and> (\<exists>t. truncate_text (last older) \<lparr>tp_mode = TokensMode, tp_limit = 20000 - sum_list (map token_count kept)\<rparr> = Inr t \<and> cut = [t])"
    by (auto simp del: not_less)
  have kept: "list_all (ordinary_message env) kept" using assms(1) s(2) by (simp add: list_all_iff)
  let ?h = "map user_message_response_item (cut @ kept @ [?summary])"
  have ctx: "compacted_history env items (Some ctx) = Inr (insert_initial_context_before_last_real_user_or_summary env ?h ctx)"
    using s(1) by (auto simp: compacted_history_def bindE_eq_Inr)
  have "filter (ordinary_message env) kept = kept" using kept by (simp add: list_all_iff)
  then have found: "collect_user_messages env (insert_initial_context_before_last_real_user_or_summary env ?h ctx)
      = filter (ordinary_message env) cut @ kept"
    unfolding insert_keeps_messages [OF assms(2)] collect_texts by simp
  have placed: "insert_initial_context_before_last_real_user_or_summary env ?h ctx
      = map user_message_response_item (cut @ butlast kept) @ ctx @ map user_message_response_item [last kept, ?summary]"
    if "kept \<noteq> []"
  proof -
    have "ordinary_message env (last kept)" using kept that by (simp add: list_all_iff)
    then have m: "user_message_of env (user_message_response_item (last kept)) = Some (last kept)" "\<not> is_summary_message (last kept)"
      by (simp_all add: user_message_of_text ordinary_message_def)
    have h: "?h = map user_message_response_item (cut @ butlast kept)
        @ user_message_response_item (last kept) # [user_message_response_item ?summary]"
    proof -
      have "map user_message_response_item kept = map user_message_response_item (butlast kept) @ [user_message_response_item (last kept)]"
        using that by (metis append_butlast_last_id list.simps(8,9) map_append)
      then show ?thesis by simp
    qed
    have "list_all (\<lambda>i. case user_message_of env i of None \<Rightarrow> True | Some s \<Rightarrow> is_summary_message s)
        [user_message_response_item ?summary]"
      by (simp add: user_message_of_text)
    from insert_before_last_ordinary [OF m this, of "map user_message_response_item (cut @ butlast kept)" ctx]
    show ?thesis unfolding h by simp
  qed
  show ?thesis
  proof (intro exI conjI)
    show "kept \<noteq> [] \<longrightarrow> compacted_history env items (Some ctx) = Inr (map user_message_response_item (cut @ butlast kept) @ ctx
        @ map user_message_response_item [last kept, ?summary])"
      using placed ctx by simp
  qed (fact s(2), fact s(3), fact s(4), rule summary_is_summary, fact s(1), fact ctx, fact found)
qed

text \<open>A conversation of two messages, the first with an answer, and its compaction with context put back.\<close>

definition sample_items :: "response_item list" where
  "sample_items = [user_message_response_item (lit ''fix it''),
     message_item (lit ''assistant'') [OutputText (lit ''done'')] None None, user_message_response_item (lit ''thanks'')]"

definition sample_context :: "response_item list" where
  "sample_context = [message_item (lit ''developer'') [InputText (lit ''rules'')] None None]"

theorem compaction_keeps_the_latest_messages_witness:
  "collect_user_messages plain_env sample_items = [lit ''fix it'', lit ''thanks'']
   \<and> (\<exists>h. compacted_history plain_env sample_items (Some sample_context) = Inr h
       \<and> collect_user_messages plain_env h = [lit ''fix it'', lit ''thanks''])"
proof -
  have c: "collect_user_messages plain_env sample_items = [lit ''fix it'', lit ''thanks'']" by code_simp
  have "list_all (\<lambda>m. list_all scalar_value m \<and> ordinary_message plain_env m) (collect_user_messages plain_env sample_items)"
    by code_simp
  moreover have "list_all (\<lambda>i. user_message_of plain_env i = None) sample_context" by code_simp
  ultimately obtain older kept cut where k: "[lit ''fix it'', lit ''thanks''] = older @ kept" "sum_list (map token_count kept) \<le> 20000"
    "if older = [] \<or> sum_list (map token_count kept) = 20000 then cut = []
     else 20000 < token_count (last older) + sum_list (map token_count kept) \<and> (\<exists>t. cut = [t])"
    "\<exists>h. compacted_history plain_env sample_items (Some sample_context) = Inr h
      \<and> collect_user_messages plain_env h = filter (ordinary_message plain_env) cut @ kept"
    using compaction_keeps_the_latest_messages [of plain_env sample_items sample_context] c by (metis (no_types, lifting))
  have "token_count (lit ''fix it'') = 2" "token_count (lit ''thanks'') = 2" by code_simp+
  then have "older = [] \<and> kept = [lit ''fix it'', lit ''thanks''] \<and> cut = []"
    using k(1-3) by (cases older; cases "tl older"; cases kept) (auto simp del: lit.simps)
  then show ?thesis using k(4) c by auto
qed

end
