(* ===== verification/NetworkApproval.thy ===== *)
theory NetworkApproval
  imports PatchSafety PyDict
begin

text \<open>
  The approval of network accesses (\<open>core/tools/network_approval.py\<close> and the denial texts of
  \<open>core/network_policy_decision.py\<close>): what the network proxy's decider answers for a host that is on no list.
  A host is allowed or denied for the session, or one request asks the user while the others for the same
  host wait for the answer; running commands learn that an access of theirs was denied. The objects that are
  shared by reference, pending approvals and cancellation tokens, are cells of a store addressed by index.
\<close>

section \<open>Keys, decisions and outcomes\<close>

datatype access_protocol = HttpAccess | HttpsAccess | Socks5TcpAccess | Socks5UdpAccess

fun protocol_key_label :: "access_protocol \<Rightarrow> pystr" where
  "protocol_key_label HttpAccess = lit ''http''"
| "protocol_key_label HttpsAccess = lit ''https''"
| "protocol_key_label Socks5TcpAccess = lit ''socks5-tcp''"
| "protocol_key_label Socks5UdpAccess = lit ''socks5-udp''"

record host_key =
  hk_host :: pystr
  hk_protocol :: pystr
  hk_port :: int

text \<open>\<open>None\<close> is \<open>ValueError\<close>: the port does not fit 16 bits.\<close>

definition host_key_of :: "(pystr \<Rightarrow> pystr) \<Rightarrow> pystr \<Rightarrow> access_protocol \<Rightarrow> int \<Rightarrow> host_key option" where
  "host_key_of lower host protocol port =
     (if 0 \<le> port \<and> port \<le> 65535
      then Some \<lparr>hk_host = lower host, hk_protocol = protocol_key_label protocol, hk_port = port\<rparr> else None)"

definition NOT_ALLOWED :: pystr where "NOT_ALLOWED = lit ''not_allowed''"

datatype access_decision = AllowAccess | DenyAccess pystr | AskAccess pystr

datatype pending_decision = AllowOnce | AllowForSession | DenyPending

definition to_access_decision :: "pending_decision \<Rightarrow> access_decision" where
  "to_access_decision d = (if d = DenyPending then DenyAccess NOT_ALLOWED else AllowAccess)"

datatype approval_outcome = DeniedByUser | DeniedByPolicy pystr

text \<open>What the user or a reviewer answers (\<open>ReviewDecision\<close>); an amendment allows or denies a host for good.\<close>

datatype review_decision =
    ReviewApproved | ReviewAmendment "pystr list" | ReviewForSession | ReviewNetworkAmendment pystr bool
  | ReviewDenied | ReviewTimedOut | ReviewAbort

definition GUARDIAN_TIMEOUT_MESSAGE :: pystr where
  "GUARDIAN_TIMEOUT_MESSAGE =
     lit ''The automatic permission approval review did not finish before its deadline. '' @
     lit ''Do not assume the action is unsafe based on the timeout alone. '' @
     lit ''You may retry once, or ask the user for guidance or explicit approval.''"

section \<open>The service\<close>

record active_call =
  ac_turn :: pystr
  ac_command :: pystr
  ac_token :: nat

record approval_service =
  as_active :: "(pystr, active_call) pydict"
  as_outcomes :: "(pystr, approval_outcome) pydict"
  as_pending :: "(host_key, nat) pydict"
  as_approved :: "host_key set"
  as_denied :: "host_key set"
  as_cells :: "pending_decision option list"
  as_tokens :: "bool list"

definition service_init :: approval_service where
  "service_init = \<lparr>as_active = [], as_outcomes = [], as_pending = [], as_approved = {}, as_denied = {}, as_cells = [],
     as_tokens = []\<rparr>"

definition sync_session_approved_hosts_to :: "approval_service \<Rightarrow> approval_service \<Rightarrow> approval_service" where
  "sync_session_approved_hosts_to s other = other\<lparr>as_approved := as_approved s\<rparr>"

text \<open>The pending approval of a key, and whether it is new.\<close>

definition get_or_create_pending_approval :: "host_key \<Rightarrow> approval_service \<Rightarrow> nat \<times> bool \<times> approval_service" where
  "get_or_create_pending_approval key s =
     (case dict_get (as_pending s) key of
        Some c \<Rightarrow> (c, False, s)
      | None \<Rightarrow> (length (as_cells s), True,
          s\<lparr>as_cells := as_cells s @ [None], as_pending := dict_set key (length (as_cells s)) (as_pending s)\<rparr>))"

definition set_decision :: "nat \<Rightarrow> pending_decision \<Rightarrow> approval_service \<Rightarrow> approval_service" where
  "set_decision c d s = s\<lparr>as_cells := (as_cells s)[c := Some d]\<rparr>"

definition register_call :: "pystr \<Rightarrow> pystr \<Rightarrow> pystr \<Rightarrow> approval_service \<Rightarrow> nat \<times> approval_service" where
  "register_call registration turn command s =
     (let token = length (as_tokens s) in
      (token, s\<lparr>as_tokens := as_tokens s @ [False],
        as_active := dict_set registration \<lparr>ac_turn = turn, ac_command = command, ac_token = token\<rparr> (as_active s)\<rparr>))"

definition resolve_single_active_call :: "approval_service \<Rightarrow> (pystr \<times> active_call) option" where
  "resolve_single_active_call s = (case as_active s of [c] \<Rightarrow> Some c | _ \<Rightarrow> None)"

definition record_call_outcome :: "pystr \<Rightarrow> approval_outcome \<Rightarrow> approval_service \<Rightarrow> approval_service" where
  "record_call_outcome registration outcome s =
     (case dict_get (as_active s) registration of
        None \<Rightarrow> s
      | Some call \<Rightarrow>
          if dict_get (as_outcomes s) registration = Some DeniedByUser then s
          else s\<lparr>as_outcomes := dict_set registration outcome (as_outcomes s),
            as_tokens := (as_tokens s)[ac_token call := True]\<rparr>)"

definition record_outcome_for_single_active_call :: "approval_outcome \<Rightarrow> approval_service \<Rightarrow> approval_service" where
  "record_outcome_for_single_active_call outcome s =
     (case resolve_single_active_call s of None \<Rightarrow> s | Some (r, _) \<Rightarrow> record_call_outcome r outcome s)"

definition remove_call :: "pystr \<Rightarrow> approval_service \<Rightarrow> approval_outcome option \<times> approval_service" where
  "remove_call registration s =
     (dict_get (as_outcomes s) registration,
      s\<lparr>as_active := dict_pop registration (as_active s), as_outcomes := dict_pop registration (as_outcomes s)\<rparr>)"

definition take_call_outcome :: "pystr \<Rightarrow> approval_service \<Rightarrow> approval_outcome option \<times> approval_service" where
  "take_call_outcome registration s =
     (dict_get (as_outcomes s) registration, s\<lparr>as_outcomes := dict_pop registration (as_outcomes s)\<rparr>)"

text \<open>\<open>NetworkApprovalRejected\<close> with its text.\<close>

fun network_approval_outcome_to_result :: "approval_outcome option \<Rightarrow> (pystr, unit) result" where
  "network_approval_outcome_to_result None = Inr ()"
| "network_approval_outcome_to_result (Some DeniedByUser) = Inl (lit ''rejected by user'')"
| "network_approval_outcome_to_result (Some (DeniedByPolicy m)) = Inl m"

definition finish_call :: "pystr \<Rightarrow> approval_service \<Rightarrow> (pystr, unit) result \<times> approval_service" where
  "finish_call registration s =
     (let (outcome, s') = remove_call registration s in (network_approval_outcome_to_result outcome, s'))"

section \<open>Blocked requests\<close>

record core_blocked_request =
  cb_host :: pystr
  cb_reason :: pystr
  cb_decision :: "pystr option"

definition blocked_detail :: "pystr \<Rightarrow> pystr" where
  "blocked_detail reason =
     (if reason = lit ''denied'' then lit ''domain is explicitly denied by policy and cannot be approved from this prompt''
      else if reason = lit ''not_allowed'' then lit ''domain is not on the allowlist for the current sandbox mode''
      else if reason = lit ''not_allowed_local'' then lit ''local/private network addresses are blocked by the sandbox policy''
      else if reason = lit ''method_not_allowed'' then lit ''request method is blocked by the current network mode''
      else if reason = lit ''proxy_disabled'' then lit ''network proxy is disabled''
      else lit ''request is blocked by network policy'')"

definition denied_network_policy_message :: "core_blocked_request \<Rightarrow> pystr option" where
  "denied_network_policy_message b =
     (let host = strip (cb_host b) in
      if cb_decision b \<noteq> Some (lit ''deny'') then None
      else if host = [] then Some (lit ''Network access was blocked by policy.'')
      else Some (lit ''Network access to '' @ [34] @ host @ [34] @ lit '' was blocked: '' @ blocked_detail (cb_reason b) @ lit ''.''))"

definition record_blocked_request :: "core_blocked_request \<Rightarrow> approval_service \<Rightarrow> approval_service" where
  "record_blocked_request b s =
     (case denied_network_policy_message b of
        None \<Rightarrow> s | Some m \<Rightarrow> record_outcome_for_single_active_call (DeniedByPolicy m) s)"

section \<open>Deciding an access\<close>

text \<open>
  The flow needs an approval policy of the plain kind: for a granular configuration \<open>TypeError\<close> is raised,
  which is \<open>None\<close>.
\<close>

fun allows_network_approval_flow :: "approval_policy \<Rightarrow> bool option" where
  "allows_network_approval_flow (Granular _) = None"
| "allows_network_approval_flow policy = Some (policy \<noteq> Never)"

definition permission_profile_allows_network_approval_flow :: "profile_type \<Rightarrow> bool" where
  "permission_profile_allows_network_approval_flow profile \<longleftrightarrow> profile = ManagedProfile"

datatype disposition = AllowCached | DenyCached | DenyPolicy | WaitForPending nat | ReviewRequired nat

text \<open>The disposition of a request and its decision, where there is one already.\<close>

definition policy_denial_message :: "host_key \<Rightarrow> pystr" where
  "policy_denial_message key =
     lit ''Network access to '' @ [34] @ hk_protocol key @ lit ''://'' @ hk_host key @ lit '':'' @ str_of_int (hk_port key) @ [34]
       @ lit '' was blocked by policy.''"

definition drop_pending :: "host_key \<Rightarrow> nat \<Rightarrow> approval_service \<Rightarrow> approval_service" where
  "drop_pending key c s =
     record_outcome_for_single_active_call (DeniedByPolicy (policy_denial_message key))
       ((set_decision c DenyPending s)\<lparr>as_pending := dict_pop key (as_pending s)\<rparr>)"

definition plan_inline_network_policy_request ::
    "profile_type option \<Rightarrow> approval_policy \<Rightarrow> host_key \<Rightarrow> approval_service
      \<Rightarrow> (disposition \<times> access_decision option \<times> approval_service) option" where
  "plan_inline_network_policy_request profile policy key s =
     map_option (\<lambda>flow.
      if key \<in> as_denied s then (DenyCached, Some (DenyAccess NOT_ALLOWED), s)
      else if key \<in> as_approved s then (AllowCached, Some AllowAccess, s)
      else let (c, is_owner, s') = get_or_create_pending_approval key s;
               managed = (case profile of None \<Rightarrow> False | Some p \<Rightarrow> permission_profile_allows_network_approval_flow p)
        in if \<not> is_owner then
             (if managed then (WaitForPending c, map_option to_access_decision (as_cells s' ! c), s')
              else (DenyPolicy, Some (DenyAccess NOT_ALLOWED), drop_pending key c s'))
           else if \<not> managed \<or> \<not> flow
             then (DenyPolicy, Some (DenyAccess NOT_ALLOWED), drop_pending key c s')
           else (ReviewRequired c, None, s')) (allows_network_approval_flow policy)"

record review_resolution =
  rr_decision :: pending_decision
  rr_outcome :: "approval_outcome option"
  rr_approve_host :: bool
  rr_deny_host :: bool

definition resolution :: "pending_decision \<Rightarrow> approval_outcome option \<Rightarrow> bool \<Rightarrow> bool \<Rightarrow> review_resolution" where
  "resolution d outcome approve deny =
     \<lparr>rr_decision = d, rr_outcome = outcome, rr_approve_host = approve, rr_deny_host = deny\<rparr>"

fun resolve_network_review_decision :: "review_decision \<Rightarrow> review_resolution" where
  "resolve_network_review_decision ReviewApproved = resolution AllowOnce None False False"
| "resolve_network_review_decision (ReviewAmendment _) = resolution AllowOnce None False False"
| "resolve_network_review_decision ReviewForSession = resolution AllowForSession None True False"
| "resolve_network_review_decision (ReviewNetworkAmendment host allow) =
     (if allow then resolution AllowForSession None True False
      else resolution DenyPending (Some DeniedByUser) False True)"
| "resolve_network_review_decision ReviewDenied = resolution DenyPending (Some DeniedByUser) False False"
| "resolve_network_review_decision ReviewAbort = resolution DenyPending (Some DeniedByUser) False False"
| "resolve_network_review_decision ReviewTimedOut =
     resolution DenyPending (Some (DeniedByPolicy GUARDIAN_TIMEOUT_MESSAGE)) False False"

definition apply_network_review_decision ::
    "host_key \<Rightarrow> review_decision \<Rightarrow> pystr option \<Rightarrow> approval_service \<Rightarrow> pending_decision \<times> approval_service" where
  "apply_network_review_decision key review registration s =
     (let r = resolve_network_review_decision review;
          s1 = (if rr_approve_host r then s\<lparr>as_denied := as_denied s - {key}, as_approved := insert key (as_approved s)\<rparr> else s);
          s2 = (if rr_deny_host r then s1\<lparr>as_approved := as_approved s1 - {key}, as_denied := insert key (as_denied s1)\<rparr> else s1);
          s3 = (case dict_get (as_pending s2) key of
                  None \<Rightarrow> s2
                | Some c \<Rightarrow> set_decision c (rr_decision r) (s2\<lparr>as_pending := dict_pop key (as_pending s2)\<rparr>));
          s4 = (case (registration, rr_outcome r) of
                  (Some i, Some outcome) \<Rightarrow> record_call_outcome i outcome s3 | _ \<Rightarrow> s3)
      in (rr_decision r, s4))"

text \<open>
  \<open>handle_inline_policy_request\<close> in its two stretches: up to the point where a request is answered, waits for
  the decision of another, or asks; and from the answer of the user on.
\<close>

datatype request_state = NotAsked | Waiting nat | Reviewing host_key | Answered access_decision | Raised

definition begin_request ::
    "profile_type option \<Rightarrow> approval_policy \<Rightarrow> bool \<Rightarrow> host_key \<Rightarrow> approval_service \<Rightarrow> request_state \<times> approval_service" where
  "begin_request profile policy can_ask key s =
     (case plan_inline_network_policy_request profile policy key s of
        None \<Rightarrow> (Raised, s)
      | Some (_, Some d, s') \<Rightarrow> (Answered d, s')
      | Some (WaitForPending c, None, s') \<Rightarrow> (Waiting c, s')
      | Some (_, None, s') \<Rightarrow> if can_ask then (Reviewing key, s') else (Answered (AskAccess NOT_ALLOWED), s'))"

definition finish_review :: "host_key \<Rightarrow> review_decision \<Rightarrow> approval_service \<Rightarrow> request_state \<times> approval_service" where
  "finish_review key review s =
     (let owner = map_option fst (resolve_single_active_call s);
          (d, s') = apply_network_review_decision key review owner s
      in (Answered (to_access_decision d), s'))"

section \<open>Calls of a tool\<close>

datatype approval_mode = ImmediateApproval | DeferredApproval

record active_network_approval =
  an_registration :: pystr
  an_mode :: approval_mode
  an_token :: nat

text \<open>
  A specification has a mode, a command and whether it names a network. A new registration is a fresh id.
\<close>

definition begin_network_approval ::
    "pystr \<Rightarrow> bool \<Rightarrow> (approval_mode \<times> pystr \<times> bool) option \<Rightarrow> pystr \<Rightarrow> approval_service
      \<Rightarrow> active_network_approval option \<times> approval_service" where
  "begin_network_approval turn managed_network_active spec registration s =
     (case spec of
        None \<Rightarrow> (None, s)
      | Some (mode, command, has_network) \<Rightarrow>
          if \<not> managed_network_active \<or> \<not> has_network then (None, s)
          else let (token, s') = register_call registration turn command s in
            (Some \<lparr>an_registration = registration, an_mode = mode, an_token = token\<rparr>, s'))"

definition finish_immediate_network_approval ::
    "active_network_approval \<Rightarrow> approval_service \<Rightarrow> (pystr, unit) result \<times> approval_service" where
  "finish_immediate_network_approval active s = finish_call (an_registration active) s"

text \<open>A deferred approval remembers the outcome its first \<open>finish\<close> took, so that each of them reports it.\<close>

record deferred_network_approval =
  df_registration :: pystr
  df_token :: nat
  df_finished :: "approval_outcome option option"

definition into_deferred :: "active_network_approval \<Rightarrow> deferred_network_approval option" where
  "into_deferred active =
     (if an_mode active = DeferredApproval
      then Some \<lparr>df_registration = an_registration active, df_token = an_token active, df_finished = None\<rparr> else None)"

definition deferred_finish ::
    "deferred_network_approval \<Rightarrow> approval_service
      \<Rightarrow> (pystr, unit) result \<times> deferred_network_approval \<times> approval_service" where
  "deferred_finish d s =
     (case df_finished d of
        Some outcome \<Rightarrow> (network_approval_outcome_to_result outcome, d, s)
      | None \<Rightarrow> let (outcome, s') = remove_call (df_registration d) s in
          (network_approval_outcome_to_result outcome, d\<lparr>df_finished := Some outcome\<rparr>, s'))"

lemma deferred_finish_again:
  assumes "deferred_finish d s = (r, d', s')"
  shows "deferred_finish d' s'' = (r, d', s'')"
  using assms by (auto simp: deferred_finish_def split: option.splits prod.splits)

section \<open>Many requests at once\<close>

text \<open>What happens to the calls of tools meanwhile.\<close>

datatype call_op = RegisterCall pystr pystr pystr | FinishCall pystr | TakeOutcome pystr | BlockedRequest core_blocked_request

fun run_call_op :: "call_op \<Rightarrow> approval_service \<Rightarrow> approval_service" where
  "run_call_op (RegisterCall i turn command) s = snd (register_call i turn command s)"
| "run_call_op (FinishCall i) s = snd (finish_call i s)"
| "run_call_op (TakeOutcome i) s = snd (take_call_outcome i s)"
| "run_call_op (BlockedRequest b) s = record_blocked_request b s"

text \<open>The requests with their keys, and the answers of the user so far, the latest first.\<close>

record approval_sys =
  sy_service :: approval_service
  sy_requests :: "nat \<Rightarrow> request_state"
  sy_keys :: "nat \<Rightarrow> host_key"
  sy_reviews :: "(host_key \<times> review_decision) list"

definition sys_init :: approval_sys where
  "sys_init = \<lparr>sy_service = service_init, sy_requests = (\<lambda>_. NotAsked),
     sy_keys = (\<lambda>_. \<lparr>hk_host = [], hk_protocol = [], hk_port = 0\<rparr>), sy_reviews = []\<rparr>"

inductive access_step :: "profile_type option \<Rightarrow> approval_policy \<Rightarrow> bool \<Rightarrow> approval_sys \<Rightarrow> approval_sys \<Rightarrow> bool"
  for profile policy can_ask where
  begin_access: "sy_requests s i = NotAsked \<Longrightarrow>
    begin_request profile policy can_ask key (sy_service s) = (st, v) \<Longrightarrow>
    access_step profile policy can_ask s
      (s\<lparr>sy_service := v, sy_requests := (sy_requests s)(i := st), sy_keys := (sy_keys s)(i := key)\<rparr>)"
| review_access: "sy_requests s i = Reviewing key \<Longrightarrow> finish_review key review (sy_service s) = (st, v) \<Longrightarrow>
    access_step profile policy can_ask s
      (s\<lparr>sy_service := v, sy_requests := (sy_requests s)(i := st), sy_reviews := (key, review) # sy_reviews s\<rparr>)"
| wake_access: "sy_requests s i = Waiting c \<Longrightarrow> as_cells (sy_service s) ! c = Some d \<Longrightarrow>
    access_step profile policy can_ask s (s\<lparr>sy_requests := (sy_requests s)(i := Answered (to_access_decision d))\<rparr>)"
| call_access: "access_step profile policy can_ask s (s\<lparr>sy_service := run_call_op op (sy_service s)\<rparr>)"

definition access_reachable :: "profile_type option \<Rightarrow> approval_policy \<Rightarrow> bool \<Rightarrow> approval_sys \<Rightarrow> bool" where
  "access_reachable profile policy can_ask s \<longleftrightarrow> (access_step profile policy can_ask)\<^sup>*\<^sup>* sys_init s"

text \<open>The last answer that rules on a host for the session, and whether a host has been allowed at all.\<close>

fun last_ruling :: "(host_key \<times> review_decision) list \<Rightarrow> host_key \<Rightarrow> bool option" where
  "last_ruling [] key = None"
| "last_ruling ((k, r) # log) key =
     (let v = resolve_network_review_decision r in
      if k = key \<and> rr_approve_host v then Some True
      else if k = key \<and> rr_deny_host v then Some False
      else last_ruling log key)"

definition user_allowed :: "(host_key \<times> review_decision) list \<Rightarrow> host_key \<Rightarrow> bool" where
  "user_allowed log key \<longleftrightarrow>
     (\<exists>r. (key, r) \<in> set log \<and> rr_decision (resolve_network_review_decision r) \<noteq> DenyPending)"

section \<open>The calls do not touch the approvals\<close>

definition same_approvals :: "approval_service \<Rightarrow> approval_service \<Rightarrow> bool" where
  "same_approvals s s' \<longleftrightarrow> as_pending s' = as_pending s \<and> as_cells s' = as_cells s \<and> as_approved s' = as_approved s
     \<and> as_denied s' = as_denied s"

lemma record_outcome_same: "same_approvals s (record_call_outcome i outcome s)"
  by (auto simp: record_call_outcome_def same_approvals_def split: option.splits)

lemma record_outcome_fields [simp]:
  "as_pending (record_call_outcome i outcome s) = as_pending s" "as_cells (record_call_outcome i outcome s) = as_cells s"
  "as_approved (record_call_outcome i outcome s) = as_approved s" "as_denied (record_call_outcome i outcome s) = as_denied s"
  using record_outcome_same by (simp_all add: same_approvals_def)

lemma record_single_same: "same_approvals s (record_outcome_for_single_active_call outcome s)"
  using record_outcome_same
  by (auto simp: record_outcome_for_single_active_call_def same_approvals_def split: option.splits)

lemma call_op_same: "same_approvals s (run_call_op op s)"
proof (cases op)
  case (BlockedRequest b)
  then show ?thesis using record_single_same
    by (auto simp: record_blocked_request_def same_approvals_def split: option.splits)
qed (auto simp: same_approvals_def register_call_def finish_call_def remove_call_def take_call_outcome_def Let_def)

section \<open>The invariant\<close>

text \<open>Whether the user is asked about hosts at all.\<close>

definition asks_user :: "profile_type option \<Rightarrow> approval_policy \<Rightarrow> bool" where
  "asks_user profile policy \<longleftrightarrow> profile = Some ManagedProfile \<and> allows_network_approval_flow policy = Some True"

definition approvals_ok :: "bool \<Rightarrow> (host_key \<times> review_decision) list \<Rightarrow> approval_service \<Rightarrow> bool" where
  "approvals_ok flow log v \<longleftrightarrow> dict_ok (as_pending v) \<and> (flow \<or> as_pending v = [])
     \<and> (\<forall>k c. dict_get (as_pending v) k = Some c \<longrightarrow> c < length (as_cells v) \<and> as_cells v ! c = None)
     \<and> (\<forall>k k' c. dict_get (as_pending v) k = Some c \<longrightarrow> dict_get (as_pending v) k' = Some c \<longrightarrow> k = k')
     \<and> (\<forall>k. (k \<in> as_approved v \<longleftrightarrow> last_ruling log k = Some True) \<and> (k \<in> as_denied v \<longleftrightarrow> last_ruling log k = Some False))"

definition request_ok :: "(host_key \<times> review_decision) list \<Rightarrow> approval_service \<Rightarrow> host_key \<Rightarrow> request_state \<Rightarrow> bool" where
  "request_ok log v key st \<longleftrightarrow>
     (case st of
        NotAsked \<Rightarrow> True
      | Reviewing k \<Rightarrow> k = key \<and> dict_get (as_pending v) k \<noteq> None
      | Waiting c \<Rightarrow> c < length (as_cells v) \<and>
          (case as_cells v ! c of
             None \<Rightarrow> dict_get (as_pending v) key = Some c
           | Some d \<Rightarrow> d \<noteq> DenyPending \<longrightarrow> user_allowed log key)
      | Answered d \<Rightarrow> d = AllowAccess \<longrightarrow> user_allowed log key
      | Raised \<Rightarrow> True)"

definition access_inv :: "bool \<Rightarrow> bool \<Rightarrow> approval_sys \<Rightarrow> bool" where
  "access_inv flow can_ask s \<longleftrightarrow> approvals_ok flow (sy_reviews s) (sy_service s)
     \<and> (\<forall>i. request_ok (sy_reviews s) (sy_service s) (sy_keys s i) (sy_requests s i))
     \<and> (can_ask \<longrightarrow> (\<forall>k. dict_get (as_pending (sy_service s)) k \<noteq> None \<longrightarrow> (\<exists>i. sy_requests s i = Reviewing k)))
     \<and> (\<forall>i j k. sy_requests s i = Reviewing k \<longrightarrow> sy_requests s j = Reviewing k \<longrightarrow> i = j)"

lemma access_inv_reviewing:
  assumes "access_inv flow can_ask s" "sy_requests s i = Reviewing k"
  shows "sy_keys s i = k \<and> (\<exists>c. dict_get (as_pending (sy_service s)) k = Some c)"
proof -
  have "request_ok (sy_reviews s) (sy_service s) (sy_keys s i) (sy_requests s i)" using assms(1) by (simp add: access_inv_def)
  then show ?thesis using assms(2) by (auto simp: request_ok_def)
qed

lemma approved_was_allowed: "last_ruling log k = Some True \<Longrightarrow> user_allowed log k"
proof (induction log k rule: last_ruling.induct)
  case (2 k r log key)
  show ?case
  proof (cases "k = key \<and> rr_approve_host (resolve_network_review_decision r)")
    case True
    then have "rr_decision (resolve_network_review_decision r) \<noteq> DenyPending"
      by (cases r) (auto simp: resolution_def split: if_splits)
    then show ?thesis using True by (auto simp: user_allowed_def)
  next
    case False
    then show ?thesis using 2 by (auto simp: user_allowed_def Let_def split: if_splits)
  qed
qed simp

lemma user_allowed_mono: "user_allowed log k \<Longrightarrow> user_allowed (x # log) k"
  by (auto simp: user_allowed_def)

lemma access_inv_init: "access_inv flow can_ask sys_init"
  by (simp add: access_inv_def approvals_ok_def request_ok_def sys_init_def service_init_def dict_get_def)

lemma begin_request_effect:
  assumes "begin_request profile policy can_ask key v = (st, v')" "asks_user profile policy \<or> as_pending v = []"
    and "\<And>k c. dict_get (as_pending v) k = Some c \<Longrightarrow> c < length (as_cells v) \<and> as_cells v ! c = None"
  obtains (raised) "st = Raised" "v' = v"
  | (denied) "key \<in> as_denied v" "st = Answered (DenyAccess NOT_ALLOWED)" "same_approvals v v'"
  | (approved) "key \<in> as_approved v" "st = Answered AllowAccess" "same_approvals v v'"
  | (joins) c where "dict_get (as_pending v) key = Some c" "st = Waiting c" "same_approvals v v'"
  | (refused) "st = Answered (DenyAccess NOT_ALLOWED)" "as_pending v' = []" "as_pending v = []"
      "as_cells v' = as_cells v @ [Some DenyPending]" "as_approved v' = as_approved v" "as_denied v' = as_denied v"
  | (asks) "asks_user profile policy" "dict_get (as_pending v) key = None"
      "st = (if can_ask then Reviewing key else Answered (AskAccess NOT_ALLOWED))"
      "as_pending v' = dict_set key (length (as_cells v)) (as_pending v)" "as_cells v' = as_cells v @ [None]"
      "as_approved v' = as_approved v" "as_denied v' = as_denied v"
proof -
  note defs = begin_request_def plan_inline_network_policy_request_def get_or_create_pending_approval_def
    permission_profile_allows_network_approval_flow_def
  consider "allows_network_approval_flow policy = None"
    | flow where "allows_network_approval_flow policy = Some flow" "key \<in> as_denied v"
    | flow where "allows_network_approval_flow policy = Some flow" "key \<notin> as_denied v" "key \<in> as_approved v"
    | flow where "allows_network_approval_flow policy = Some flow" "key \<notin> as_denied v" "key \<notin> as_approved v" by blast
  then show ?thesis
  proof cases
    case 1
    then show ?thesis using assms(1) by (intro raised) (simp_all add: defs)
  next
    case 2
    then have "st = Answered (DenyAccess NOT_ALLOWED)" "v' = v" using assms(1) by (simp_all add: defs)
    then show ?thesis using 2 by (intro denied) (simp_all add: same_approvals_def)
  next
    case 3
    then have "st = Answered AllowAccess" "v' = v" using assms(1) by (simp_all add: defs)
    then show ?thesis using 3 by (intro approved) (simp_all add: same_approvals_def)
  next
    case 4
    show ?thesis
    proof (cases "dict_get (as_pending v) key")
      case (Some c)
      then have "as_pending v \<noteq> []" by (auto simp: dict_get_def)
      then have "profile = Some ManagedProfile" using assms(2) by (simp add: asks_user_def)
      then have "st = Waiting c" "v' = v" using assms(1) assms(3) [OF Some] Some 4 by (simp_all add: defs Let_def)
      then show ?thesis using Some by (intro joins) (simp_all add: same_approvals_def)
    next
      case None
      let ?v = "v\<lparr>as_cells := as_cells v @ [None], as_pending := dict_set key (length (as_cells v)) (as_pending v)\<rparr>"
      show ?thesis
      proof (cases "asks_user profile policy")
        case True
        then have "v' = ?v" "st = (if can_ask then Reviewing key else Answered (AskAccess NOT_ALLOWED))"
          using assms(1) None 4 by (simp_all add: defs asks_user_def split: if_splits)
        then show ?thesis using True None by (intro asks) simp_all
      next
        case no: False
        let ?d = "(set_decision (length (as_cells v)) DenyPending ?v)\<lparr>as_pending := dict_pop key (as_pending ?v)\<rparr>"
        have "\<not> (case profile of None \<Rightarrow> False | Some p \<Rightarrow> permission_profile_allows_network_approval_flow p) \<or> \<not> flow"
          using no 4(1) by (auto simp: asks_user_def permission_profile_allows_network_approval_flow_def split: option.splits)
        then have "st = Answered (DenyAccess NOT_ALLOWED)" "v' = drop_pending key (length (as_cells v)) ?v"
          using assms(1) None 4
          by (auto simp: begin_request_def plan_inline_network_policy_request_def get_or_create_pending_approval_def)
        moreover have "same_approvals ?d (drop_pending key (length (as_cells v)) ?v)"
          unfolding drop_pending_def by (rule record_single_same)
        moreover have "as_pending v = []" using assms(2) no by simp
        ultimately show ?thesis by (intro refused) (auto simp: same_approvals_def set_decision_def dict_pop_def)
      qed
    qed
  qed
qed

lemma apply_review_fields:
  fixes review :: review_decision and registration :: "pystr option"
  assumes "dict_get (as_pending v) key = Some c"
  defines "r \<equiv> resolve_network_review_decision review"
  defines "v' \<equiv> snd (apply_network_review_decision key review registration v)"
  shows "fst (apply_network_review_decision key review registration v) = rr_decision r \<and> as_pending v' = dict_pop key (as_pending v)
    \<and> as_cells v' = (as_cells v)[c := Some (rr_decision r)]
    \<and> as_approved v' = (if rr_approve_host r then insert key (as_approved v) else if rr_deny_host r then as_approved v - {key} else as_approved v)
    \<and> as_denied v' = (if rr_approve_host r then as_denied v - {key} else if rr_deny_host r then insert key (as_denied v) else as_denied v)"
proof -
  have one: "\<not> rr_deny_host r" if "rr_approve_host r"
    using that unfolding r_def by (cases review) (auto simp: resolution_def split: if_splits)
  show ?thesis
    unfolding v'_def apply_network_review_decision_def r_def [symmetric]
    using assms(1) one by (cases registration; cases "rr_outcome r"; cases "rr_approve_host r") (simp_all add: Let_def set_decision_def)
qed

lemma finish_review_effect:
  fixes review :: review_decision
  assumes "finish_review key review v = (st, v')" "dict_get (as_pending v) key = Some c"
  defines "r \<equiv> resolve_network_review_decision review"
  shows "st = Answered (to_access_decision (rr_decision r)) \<and> as_pending v' = dict_pop key (as_pending v)
    \<and> as_cells v' = (as_cells v)[c := Some (rr_decision r)]
    \<and> as_approved v' = (if rr_approve_host r then insert key (as_approved v) else if rr_deny_host r then as_approved v - {key} else as_approved v)
    \<and> as_denied v' = (if rr_approve_host r then as_denied v - {key} else if rr_deny_host r then insert key (as_denied v) else as_denied v)"
proof -
  let ?owner = "map_option fst (resolve_single_active_call v)"
  have "st = Answered (to_access_decision (fst (apply_network_review_decision key review ?owner v)))"
    "v' = snd (apply_network_review_decision key review ?owner v)"
    using assms(1) by (auto simp: finish_review_def split: prod.splits)
  then show ?thesis unfolding r_def using apply_review_fields [OF assms(2), of review ?owner] by simp
qed

text \<open>New cells do not matter to the pending approvals.\<close>

lemma approvals_ok_same:
  assumes "approvals_ok flow log v" "as_pending v' = as_pending v" "as_cells v' = as_cells v @ cs"
    "as_approved v' = as_approved v" "as_denied v' = as_denied v"
  shows "approvals_ok flow log v'"
proof -
  have "c < length (as_cells v @ cs) \<and> (as_cells v @ cs) ! c = None" if "dict_get (as_pending v) k = Some c" for k c
  proof -
    have "c < length (as_cells v) \<and> as_cells v ! c = None" using assms(1) that unfolding approvals_ok_def by blast
    then show ?thesis by (simp add: nth_append)
  qed
  then show ?thesis using assms unfolding approvals_ok_def by metis
qed

text \<open>A request changes its state, and nothing about the pending approvals but new cells.\<close>

lemma access_inv_update:
  assumes inv: "access_inv flow can_ask s" and i: "\<forall>k. sy_requests s i \<noteq> Reviewing k" "\<forall>k. st \<noteq> Reviewing k"
    and same: "as_pending v = as_pending (sy_service s)" "as_cells v = as_cells (sy_service s) @ cs"
      "as_approved v = as_approved (sy_service s)" "as_denied v = as_denied (sy_service s)"
    and ok: "request_ok (sy_reviews s) v key st"
  shows "access_inv flow can_ask (s\<lparr>sy_service := v, sy_requests := (sy_requests s)(i := st), sy_keys := (sy_keys s)(i := key)\<rparr>)"
proof -
  have "approvals_ok flow (sy_reviews s) (sy_service s)" using inv by (simp add: access_inv_def)
  then have "approvals_ok flow (sy_reviews s) v" by (rule approvals_ok_same) (use same in simp_all)
  moreover have "request_ok (sy_reviews s) v (sy_keys s j) (sy_requests s j)" for j
  proof -
    have "request_ok (sy_reviews s) (sy_service s) (sy_keys s j) (sy_requests s j)" using inv by (simp add: access_inv_def)
    then show ?thesis using same
      by (auto simp: request_ok_def nth_append split: request_state.splits option.splits)
  qed
  moreover have "\<exists>j. j \<noteq> i \<and> sy_requests s j = Reviewing k" if "can_ask" "dict_get (as_pending v) k \<noteq> None" for k
    using inv i(1) that same(1) unfolding access_inv_def by metis
  moreover have "j = j'" if "sy_requests s j = Reviewing k" "sy_requests s j' = Reviewing k" for j j' k
    using inv that unfolding access_inv_def by blast
  ultimately show ?thesis unfolding access_inv_def using i(2) ok
    by (intro conjI; (simp; fail | (simp; meson)))
qed

lemma access_inv_begin:
  assumes inv: "access_inv (asks_user profile policy) can_ask s" and idle: "sy_requests s i = NotAsked"
    and begun: "begin_request profile policy can_ask key (sy_service s) = (st, v)"
  shows "access_inv (asks_user profile policy) can_ask
    (s\<lparr>sy_service := v, sy_requests := (sy_requests s)(i := st), sy_keys := (sy_keys s)(i := key)\<rparr>)"
proof -
  let ?v = "sy_service s"
  have ok: "approvals_ok (asks_user profile policy) (sy_reviews s) ?v" using inv by (simp add: access_inv_def)
  then have flow: "asks_user profile policy \<or> as_pending ?v = []"
    and pend: "\<And>k c. dict_get (as_pending ?v) k = Some c \<Longrightarrow> c < length (as_cells ?v) \<and> as_cells ?v ! c = None"
    by (auto simp: approvals_ok_def)
  show ?thesis
  proof (rule begin_request_effect [OF begun flow])
    show "c < length (as_cells ?v) \<and> as_cells ?v ! c = None" if "dict_get (as_pending ?v) k = Some c" for k c
      by (rule pend [OF that])
  next
    assume "st = Raised" "v = ?v"
    then show ?thesis using idle
      by (intro access_inv_update [OF inv, where cs = "[]"]) (simp_all add: request_ok_def)
  next
    assume "key \<in> as_denied ?v" "st = Answered (DenyAccess NOT_ALLOWED)" "same_approvals ?v v"
    then show ?thesis using idle
      by (intro access_inv_update [OF inv, where cs = "[]"]) (simp_all add: same_approvals_def request_ok_def)
  next
    assume approved: "key \<in> as_approved ?v" "st = Answered AllowAccess" "same_approvals ?v v"
    then have "user_allowed (sy_reviews s) key" using ok by (auto simp: approvals_ok_def intro: approved_was_allowed)
    then show ?thesis using idle approved
      by (intro access_inv_update [OF inv, where cs = "[]"]) (simp_all add: same_approvals_def request_ok_def)
  next
    fix c
    assume joins: "dict_get (as_pending ?v) key = Some c" "st = Waiting c" "same_approvals ?v v"
    then show ?thesis using idle pend [OF joins(1)]
      by (intro access_inv_update [OF inv, where cs = "[]"]) (simp_all add: same_approvals_def request_ok_def)
  next
    assume "st = Answered (DenyAccess NOT_ALLOWED)" "as_pending v = []" "as_pending ?v = []"
      "as_cells v = as_cells ?v @ [Some DenyPending]" "as_approved v = as_approved ?v" "as_denied v = as_denied ?v"
    then show ?thesis using idle
      by (intro access_inv_update [OF inv, where cs = "[Some DenyPending]"]) (simp_all add: request_ok_def)
  next
    assume asks: "asks_user profile policy" "dict_get (as_pending ?v) key = None"
      "st = (if can_ask then Reviewing key else Answered (AskAccess NOT_ALLOWED))"
      "as_pending v = dict_set key (length (as_cells ?v)) (as_pending ?v)" "as_cells v = as_cells ?v @ [None]"
      "as_approved v = as_approved ?v" "as_denied v = as_denied ?v"
    let ?s = "s\<lparr>sy_service := v, sy_requests := (sy_requests s)(i := st), sy_keys := (sy_keys s)(i := key)\<rparr>"
    have "approvals_ok (asks_user profile policy) (sy_reviews s) v"
      using ok asks by (auto simp: approvals_ok_def nth_append dest: pend)
    moreover have "request_ok (sy_reviews s) v (sy_keys s j) (sy_requests s j)" for j
    proof -
      have "request_ok (sy_reviews s) ?v (sy_keys s j) (sy_requests s j)" using inv by (simp add: access_inv_def)
      then show ?thesis using asks by (auto simp: request_ok_def nth_append split: request_state.splits option.splits)
    qed
    moreover have "request_ok (sy_reviews s) v key st" using asks by (simp add: request_ok_def)
    moreover have "\<exists>j. sy_requests ?s j = Reviewing k" if k: "can_ask" "dict_get (as_pending v) k \<noteq> None" for k
    proof (cases "k = key")
      case True
      then show ?thesis using asks k by auto
    next
      case False
      then have "dict_get (as_pending ?v) k \<noteq> None" using k(2) asks(4) by simp
      then have "\<exists>j. sy_requests s j = Reviewing k" using inv k(1) unfolding access_inv_def by blast
      then show ?thesis using idle by (metis approval_sys.select_convs(2) approval_sys.surjective approval_sys.update_convs(1-3) fun_upd_other request_state.distinct(3))
    qed
    moreover have "sy_requests s j \<noteq> Reviewing key" for j
      using access_inv_reviewing [OF inv, of j key] asks(2) by auto
    moreover have "j = j'" if "sy_requests s j = Reviewing k" "sy_requests s j' = Reviewing k" for j j' k
      using inv that unfolding access_inv_def by blast
    ultimately show ?thesis using asks(3) by (auto simp: access_inv_def split: if_splits)
  qed
qed

text \<open>The answer of the user settles the approval for everyone who waits for it.\<close>

lemma request_ok_review:
  assumes ok: "approvals_ok flow log v" and req: "request_ok log v k st" and c: "dict_get (as_pending v) key = Some c"
    and other: "st \<noteq> Reviewing key"
    and v': "as_pending v' = dict_pop key (as_pending v)" "as_cells v' = (as_cells v)[c := Some d]"
    and d: "d \<noteq> DenyPending \<longrightarrow> user_allowed (x # log) key"
  shows "request_ok (x # log) v' k st"
proof (cases st)
  case NotAsked
  then show ?thesis by (simp add: request_ok_def)
next
  case Raised
  then show ?thesis by (simp add: request_ok_def)
next
  case (Answered a)
  then show ?thesis using req by (auto simp: request_ok_def intro: user_allowed_mono)
next
  case (Reviewing k')
  then show ?thesis using req v'(1) other by (auto simp: request_ok_def)
next
  case (Waiting c')
  show ?thesis
  proof (cases "c' = c")
    case True
    have "c < length (as_cells v)" "as_cells v ! c = None" using ok c unfolding approvals_ok_def by blast+
    moreover from this have "k = key" using req Waiting True ok c unfolding approvals_ok_def request_ok_def by auto
    ultimately show ?thesis using Waiting True v'(2) d by (simp add: request_ok_def)
  next
    case False
    then show ?thesis using req Waiting v' c by (auto simp: request_ok_def dest: user_allowed_mono split: option.splits)
  qed
qed

lemma approvals_ok_review:
  fixes review :: review_decision
  assumes ok: "approvals_ok flow log v" and c: "dict_get (as_pending v) key = Some c"
  defines "r \<equiv> resolve_network_review_decision review"
  assumes v': "as_pending v' = dict_pop key (as_pending v)" "as_cells v' = (as_cells v)[c := Some (rr_decision r)]"
    "as_approved v' = (if rr_approve_host r then insert key (as_approved v) else if rr_deny_host r then as_approved v - {key} else as_approved v)"
    "as_denied v' = (if rr_approve_host r then as_denied v - {key} else if rr_deny_host r then insert key (as_denied v) else as_denied v)"
  shows "approvals_ok flow ((key, review) # log) v'"
proof -
  have "dict_ok (as_pending v)" "flow \<or> as_pending v = []" using ok by (simp_all add: approvals_ok_def)
  then have dk: "dict_ok (as_pending v')" "flow \<or> as_pending v' = []" using v'(1) by (auto simp: dict_get_def dict_pop_def [of key "[]"])
  have cells: "c' < length (as_cells v') \<and> as_cells v' ! c' = None" if k: "dict_get (as_pending v') k = Some c'" for k c'
  proof -
    have "k \<noteq> key" "dict_get (as_pending v) k = Some c'" using k v'(1) by (auto split: if_splits)
    moreover from this have "c' \<noteq> c" using ok c unfolding approvals_ok_def by blast
    ultimately show ?thesis using ok v'(2) unfolding approvals_ok_def by auto
  qed
  have inj: "k = k'" if "dict_get (as_pending v') k = Some c'" "dict_get (as_pending v') k' = Some c'" for k k' c'
  proof -
    have "dict_get (as_pending v) k = Some c'" "dict_get (as_pending v) k' = Some c'" using that v'(1) by (auto split: if_splits)
    then show ?thesis using ok unfolding approvals_ok_def by blast
  qed
  have one: "\<not> rr_deny_host r" if "rr_approve_host r"
    using that unfolding r_def by (cases review) (auto simp: resolution_def split: if_splits)
  have "(k \<in> as_approved v' \<longleftrightarrow> last_ruling ((key, review) # log) k = Some True)
    \<and> (k \<in> as_denied v' \<longleftrightarrow> last_ruling ((key, review) # log) k = Some False)" for k
  proof -
    have "(k \<in> as_approved v \<longleftrightarrow> last_ruling log k = Some True) \<and> (k \<in> as_denied v \<longleftrightarrow> last_ruling log k = Some False)"
      using ok unfolding approvals_ok_def by blast
    then show ?thesis using one by (auto simp: v'(3,4) Let_def simp flip: r_def)
  qed
  then show ?thesis using dk cells inj unfolding approvals_ok_def by blast
qed

lemma access_inv_review:
  assumes inv: "access_inv flow can_ask s" and i: "sy_requests s i = Reviewing key"
    and answered: "finish_review key review (sy_service s) = (st, v)"
  shows "access_inv flow can_ask
    (s\<lparr>sy_service := v, sy_requests := (sy_requests s)(i := st), sy_reviews := (key, review) # sy_reviews s\<rparr>)"
proof -
  let ?r = "resolve_network_review_decision review"
  have ok: "approvals_ok flow (sy_reviews s) (sy_service s)" using inv by (simp add: access_inv_def)
  obtain c where key: "sy_keys s i = key" and c: "dict_get (as_pending (sy_service s)) key = Some c"
    using access_inv_reviewing [OF inv i] by blast
  have effect: "st = Answered (to_access_decision (rr_decision ?r))" "as_pending v = dict_pop key (as_pending (sy_service s))"
    "as_cells v = (as_cells (sy_service s))[c := Some (rr_decision ?r)]"
    "as_approved v = (if rr_approve_host ?r then insert key (as_approved (sy_service s))
      else if rr_deny_host ?r then as_approved (sy_service s) - {key} else as_approved (sy_service s))"
    "as_denied v = (if rr_approve_host ?r then as_denied (sy_service s) - {key}
      else if rr_deny_host ?r then insert key (as_denied (sy_service s)) else as_denied (sy_service s))"
    using finish_review_effect [OF answered c] by blast+
  have only: "j = i" if "sy_requests s j = Reviewing key" for j using inv that i unfolding access_inv_def by blast
  have allowed: "rr_decision ?r \<noteq> DenyPending \<longrightarrow> user_allowed ((key, review) # sy_reviews s) key"
    by (auto simp: user_allowed_def)
  have "approvals_ok flow ((key, review) # sy_reviews s) v" by (rule approvals_ok_review [OF ok c effect(2-5)])
  moreover have "request_ok ((key, review) # sy_reviews s) v (sy_keys s j) (sy_requests s j)" if j: "j \<noteq> i" for j
  proof -
    have "request_ok (sy_reviews s) (sy_service s) (sy_keys s j) (sy_requests s j)" using inv by (simp add: access_inv_def)
    then show ?thesis by (rule request_ok_review [OF ok _ c _ effect(2,3) allowed]) (use only j in blast)
  qed
  moreover have "request_ok ((key, review) # sy_reviews s) v (sy_keys s i) st"
    using allowed by (simp add: request_ok_def effect(1) key to_access_decision_def)
  moreover have "\<exists>j. j \<noteq> i \<and> sy_requests s j = Reviewing k" if k: "can_ask" "dict_get (as_pending v) k \<noteq> None" for k
  proof -
    have "k \<noteq> key" "dict_get (as_pending (sy_service s)) k \<noteq> None" using k(2) effect(2) by (auto split: if_splits)
    moreover from this have "\<exists>j. sy_requests s j = Reviewing k" using inv k(1) unfolding access_inv_def by blast
    ultimately show ?thesis using i by (metis request_state.inject(2))
  qed
  moreover have "j = j'" if "sy_requests s j = Reviewing k" "sy_requests s j' = Reviewing k" for j j' k
    using inv that unfolding access_inv_def by blast
  ultimately show ?thesis unfolding access_inv_def using effect(1)
    by (intro conjI; (simp; fail | (simp; meson)))
qed

lemma access_inv_wake:
  assumes inv: "access_inv flow can_ask s" and i: "sy_requests s i = Waiting c"
    and d: "as_cells (sy_service s) ! c = Some d"
  shows "access_inv flow can_ask (s\<lparr>sy_requests := (sy_requests s)(i := Answered (to_access_decision d))\<rparr>)"
proof -
  have "request_ok (sy_reviews s) (sy_service s) (sy_keys s i) (sy_requests s i)" using inv by (simp add: access_inv_def)
  then have "request_ok (sy_reviews s) (sy_service s) (sy_keys s i) (Answered (to_access_decision d))"
    using i d by (simp add: request_ok_def to_access_decision_def)
  from access_inv_update [OF inv, of i "Answered (to_access_decision d)" "sy_service s" "[]" "sy_keys s i"] this i
  show ?thesis by simp
qed

lemma request_ok_same:
  assumes "same_approvals v v'"
  shows "request_ok log v' k st \<longleftrightarrow> request_ok log v k st"
proof -
  have "as_pending v' = as_pending v" "as_cells v' = as_cells v" using assms by (simp_all add: same_approvals_def)
  then show ?thesis by (simp only: request_ok_def)
qed

lemma access_inv_call:
  assumes inv: "access_inv flow can_ask s"
  shows "access_inv flow can_ask (s\<lparr>sy_service := run_call_op op (sy_service s)\<rparr>)"
proof -
  have "same_approvals (sy_service s) (run_call_op op (sy_service s))" by (rule call_op_same)
  then show ?thesis using inv request_ok_same [of "sy_service s" "run_call_op op (sy_service s)"]
    by (simp add: access_inv_def approvals_ok_def same_approvals_def)
qed

lemma access_inv_step:
  assumes "access_step profile policy can_ask s s'" "access_inv (asks_user profile policy) can_ask s"
  shows "access_inv (asks_user profile policy) can_ask s'"
  using assms
proof cases
  case (begin_access i key st v)
  then show ?thesis using access_inv_begin assms(2) by simp
next
  case (review_access i key review st v)
  then show ?thesis using access_inv_review assms(2) by simp
next
  case (wake_access i c d)
  then show ?thesis using access_inv_wake assms(2) by simp
next
  case (call_access op)
  then show ?thesis using access_inv_call assms(2) by simp
qed

lemma access_inv_reachable: "access_reachable profile policy can_ask s \<Longrightarrow> access_inv (asks_user profile policy) can_ask s"
  unfolding access_reachable_def
  by (induction rule: rtranclp_induct) (auto intro: access_inv_init access_inv_step)

section \<open>Who allowed an access, and whether one waits in vain\<close>

text \<open>
  C15: However the requests, the reviews and the calls of tools interleave, an access is only ever allowed
  to a host that the user has allowed, and the hosts allowed or denied for the session are those for which
  the last ruling of the user said so; no host is on both lists.
\<close>

theorem allowed_access_was_allowed_by_user:
  assumes "access_reachable profile policy can_ask s"
  shows "(sy_requests s i = Answered AllowAccess \<longrightarrow> user_allowed (sy_reviews s) (sy_keys s i))
    \<and> (k \<in> as_approved (sy_service s) \<longleftrightarrow> last_ruling (sy_reviews s) k = Some True)
    \<and> (k \<in> as_denied (sy_service s) \<longleftrightarrow> last_ruling (sy_reviews s) k = Some False)"
proof -
  have inv: "access_inv (asks_user profile policy) can_ask s" using assms by (rule access_inv_reachable)
  then have "request_ok (sy_reviews s) (sy_service s) (sy_keys s i) (sy_requests s i)" by (simp add: access_inv_def)
  then have "sy_requests s i = Answered AllowAccess \<longrightarrow> user_allowed (sy_reviews s) (sy_keys s i)"
    by (auto simp: request_ok_def)
  then show ?thesis using inv by (simp add: access_inv_def approvals_ok_def)
qed

text \<open>The answer of the user reaches the request that asked and any one that waits for it.\<close>

lemma review_wakes:
  fixes review :: review_decision
  assumes inv: "access_inv flow can_ask s" and j: "sy_requests s j = Reviewing key" and i: "sy_requests s i = Waiting c"
    and c: "dict_get (as_pending (sy_service s)) key = Some c" "c < length (as_cells (sy_service s))"
  defines "a \<equiv> Answered (to_access_decision (rr_decision (resolve_network_review_decision review)))"
  shows "\<exists>s'. (access_step profile policy can_ask)\<^sup>*\<^sup>* s s' \<and> sy_requests s' i = a \<and> sy_requests s' j = a"
proof -
  let ?d = "rr_decision (resolve_network_review_decision review)"
  obtain st v where answered: "finish_review key review (sy_service s) = (st, v)" by fastforce
  have st: "st = a" "as_cells v = (as_cells (sy_service s))[c := Some ?d]"
    using finish_review_effect [OF answered c(1)] by (simp_all add: a_def)
  let ?s = "s\<lparr>sy_service := v, sy_requests := (sy_requests s)(j := st), sy_reviews := (key, review) # sy_reviews s\<rparr>"
  have "i \<noteq> j" using i j by auto
  then have "sy_requests ?s i = Waiting c" "as_cells (sy_service ?s) ! c = Some ?d" using i st(2) c(2) by simp_all
  then have "access_step profile policy can_ask ?s (?s\<lparr>sy_requests := (sy_requests ?s)(i := Answered (to_access_decision ?d))\<rparr>)"
    by (rule wake_access)
  moreover have "access_step profile policy can_ask s ?s" using j answered by (rule review_access)
  ultimately have "(access_step profile policy can_ask)\<^sup>*\<^sup>* s
      (?s\<lparr>sy_requests := (sy_requests ?s)(i := Answered (to_access_decision ?d))\<rparr>)"
    by (meson converse_rtranclp_into_rtranclp rtranclp.rtrancl_refl)
  moreover have "sy_requests (?s\<lparr>sy_requests := (sy_requests ?s)(i := Answered (to_access_decision ?d))\<rparr>) i = a"
    by (simp add: a_def)
  moreover have "sy_requests (?s\<lparr>sy_requests := (sy_requests ?s)(i := Answered (to_access_decision ?d))\<rparr>) j = a"
    using \<open>i \<noteq> j\<close> st(1) by simp
  ultimately show ?thesis by blast
qed

text \<open>
  C32: Where the session can ask the user, a request that waits for the approval of its host never waits in
  vain: either the decision is there, or some request is asking the user about this very host, and whatever
  the user answers, both are answered with it.
\<close>

theorem waiting_request_can_be_answered:
  assumes "access_reachable profile policy True s" "sy_requests s i = Waiting c"
  shows "(\<exists>d. as_cells (sy_service s) ! c = Some d)
    \<or> (\<exists>j. sy_requests s j = Reviewing (sy_keys s i) \<and>
        (\<forall>review. \<exists>s'. (access_step profile policy True)\<^sup>*\<^sup>* s s'
          \<and> sy_requests s' i = Answered (to_access_decision (rr_decision (resolve_network_review_decision review)))
          \<and> sy_requests s' j = Answered (to_access_decision (rr_decision (resolve_network_review_decision review)))))"
proof (cases "as_cells (sy_service s) ! c")
  case None
  have inv: "access_inv (asks_user profile policy) True s" using assms(1) by (rule access_inv_reachable)
  then have "request_ok (sy_reviews s) (sy_service s) (sy_keys s i) (sy_requests s i)" by (simp add: access_inv_def)
  then have c: "c < length (as_cells (sy_service s))" "dict_get (as_pending (sy_service s)) (sy_keys s i) = Some c"
    using assms(2) None by (simp_all add: request_ok_def)
  then obtain j where "sy_requests s j = Reviewing (sy_keys s i)" using inv unfolding access_inv_def by auto
  then show ?thesis using review_wakes [OF inv _ assms(2) c(2,1)] by blast
qed simp

section \<open>Samples\<close>

text \<open>Two requests for one host: the second waits for the first, and the user allows the host for the session.\<close>

definition sample_key :: host_key where
  "sample_key = \<lparr>hk_host = lit ''example.com'', hk_protocol = lit ''https'', hk_port = 443\<rparr>"

definition begin_sample :: "bool \<Rightarrow> nat \<Rightarrow> approval_sys \<Rightarrow> approval_sys" where
  "begin_sample can_ask i s =
     (let (st, v) = begin_request (Some ManagedProfile) OnRequest can_ask sample_key (sy_service s)
      in s\<lparr>sy_service := v, sy_requests := (sy_requests s)(i := st), sy_keys := (sy_keys s)(i := sample_key)\<rparr>)"

definition review_sample :: "nat \<Rightarrow> review_decision \<Rightarrow> approval_sys \<Rightarrow> approval_sys" where
  "review_sample i review s =
     (let (st, v) = finish_review sample_key review (sy_service s)
      in s\<lparr>sy_service := v, sy_requests := (sy_requests s)(i := st), sy_reviews := (sample_key, review) # sy_reviews s\<rparr>)"

definition sample_waiting :: "bool \<Rightarrow> approval_sys" where
  "sample_waiting can_ask = begin_sample can_ask 1 (begin_sample can_ask 0 sys_init)"

definition sample_allowed :: approval_sys where
  "sample_allowed = review_sample 0 ReviewForSession (sample_waiting True)"

lemma begin_sample_step:
  "access_reachable (Some ManagedProfile) OnRequest can_ask s \<Longrightarrow> sy_requests s i = NotAsked
    \<Longrightarrow> access_reachable (Some ManagedProfile) OnRequest can_ask (begin_sample can_ask i s)"
  unfolding access_reachable_def begin_sample_def
  by (auto split: prod.splits intro: rtranclp.rtrancl_into_rtrancl access_step.begin_access)

lemma review_sample_step:
  "access_reachable (Some ManagedProfile) OnRequest True s \<Longrightarrow> sy_requests s i = Reviewing sample_key
    \<Longrightarrow> access_reachable (Some ManagedProfile) OnRequest True (review_sample i review s)"
  unfolding access_reachable_def review_sample_def
  by (auto split: prod.splits intro: rtranclp.rtrancl_into_rtrancl access_step.review_access)

lemmas sample_request_defs = begin_sample_def review_sample_def begin_request_def plan_inline_network_policy_request_def
  get_or_create_pending_approval_def permission_profile_allows_network_approval_flow_def sys_init_def service_init_def dict_get_def

lemma sample_waiting_state:
  "sy_requests (sample_waiting can_ask) = (\<lambda>_. NotAsked)
      (0 := if can_ask then Reviewing sample_key else Answered (AskAccess NOT_ALLOWED), 1 := Waiting 0)
    \<and> sy_keys (sample_waiting can_ask) 1 = sample_key"
  by (simp add: sample_waiting_def sample_request_defs)

lemma sample_waiting_reachable: "access_reachable (Some ManagedProfile) OnRequest can_ask (sample_waiting can_ask)"
  unfolding sample_waiting_def
  by (intro begin_sample_step) (simp_all add: access_reachable_def sample_request_defs)

lemma sample_allowed_state:
  "sy_requests sample_allowed 0 = Answered AllowAccess \<and> sy_keys sample_allowed 0 = sample_key"
  by (simp add: sample_allowed_def sample_waiting_def sample_request_defs finish_review_def apply_network_review_decision_def
      resolve_single_active_call_def resolution_def set_decision_def to_access_decision_def dict_pop_def)

lemma sample_allowed_reachable: "access_reachable (Some ManagedProfile) OnRequest True sample_allowed"
  unfolding sample_allowed_def
  by (intro review_sample_step sample_waiting_reachable) (simp add: sample_waiting_state)

theorem allowed_access_was_allowed_by_user_witness:
  "access_reachable (Some ManagedProfile) OnRequest True sample_allowed
    \<and> sy_requests sample_allowed 0 = Answered AllowAccess
    \<and> user_allowed (sy_reviews sample_allowed) sample_key \<and> sample_key \<in> as_approved (sy_service sample_allowed)"
proof -
  have "last_ruling (sy_reviews sample_allowed) sample_key = Some True"
    by (simp add: sample_allowed_def review_sample_def finish_review_def Let_def resolution_def split: prod.splits)
  then show ?thesis
    using allowed_access_was_allowed_by_user [OF sample_allowed_reachable, of 0 sample_key]
      sample_allowed_reachable sample_allowed_state by simp
qed

theorem waiting_request_can_be_answered_witness:
  "access_reachable (Some ManagedProfile) OnRequest True (sample_waiting True)
    \<and> sy_requests (sample_waiting True) 1 = Waiting 0
    \<and> (\<exists>s'. (access_step (Some ManagedProfile) OnRequest True)\<^sup>*\<^sup>* (sample_waiting True) s'
      \<and> sy_requests s' 1 = Answered (DenyAccess NOT_ALLOWED))"
proof -
  have "as_cells (sy_service (sample_waiting True)) ! 0 = None" by (simp add: sample_waiting_def sample_request_defs)
  moreover have "sy_requests (sample_waiting True) 1 = Waiting 0" by (simp add: sample_waiting_state)
  ultimately obtain s' where "(access_step (Some ManagedProfile) OnRequest True)\<^sup>*\<^sup>* (sample_waiting True) s'"
    "sy_requests s' 1 = Answered (to_access_decision (rr_decision (resolve_network_review_decision ReviewDenied)))"
    using waiting_request_can_be_answered [OF sample_waiting_reachable, of 1 0] by fastforce
  then show ?thesis using sample_waiting_reachable sample_waiting_state
    by (auto simp: to_access_decision_def resolution_def)
qed

section \<open>A session that cannot ask\<close>

text \<open>
  A session without \<open>request_network_approval\<close> answers the first request for a host at once and leaves its
  approval pending. Nobody will ever decide it: a later request for the host waits for ever.
\<close>

definition undecided :: "nat \<Rightarrow> nat \<Rightarrow> approval_sys \<Rightarrow> bool" where
  "undecided i c s \<longleftrightarrow> (\<forall>j k. sy_requests s j \<noteq> Reviewing k) \<and> sy_requests s i = Waiting c
     \<and> c < length (as_cells (sy_service s)) \<and> as_cells (sy_service s) ! c = None"

lemma undecided_step:
  assumes "access_step (Some ManagedProfile) policy False s s'" "undecided i c s"
    and "access_inv (asks_user (Some ManagedProfile) policy) False s"
  shows "undecided i c s'"
  using assms(1)
proof cases
  case (begin_access j key st v)
  have ok: "approvals_ok (asks_user (Some ManagedProfile) policy) (sy_reviews s) (sy_service s)"
    using assms(3) by (simp add: access_inv_def)
  then have pend: "\<And>k c. dict_get (as_pending (sy_service s)) k = Some c
      \<Longrightarrow> c < length (as_cells (sy_service s)) \<and> as_cells (sy_service s) ! c = None"
    and flow: "asks_user (Some ManagedProfile) policy \<or> as_pending (sy_service s) = []"
    by (simp_all add: approvals_ok_def)
  have cells: "(\<exists>cs. as_cells v = as_cells (sy_service s) @ cs) \<and> (\<forall>k. st \<noteq> Reviewing k)"
  proof (rule begin_request_effect [OF begin_access(3) flow])
    show "c < length (as_cells (sy_service s)) \<and> as_cells (sy_service s) ! c = None"
      if "dict_get (as_pending (sy_service s)) k = Some c" for k c by (rule pend [OF that])
  qed (simp_all add: same_approvals_def)
  then show ?thesis using assms(2) begin_access(1,2) by (auto simp: undecided_def nth_append)
next
  case (review_access j key review st v)
  then show ?thesis using assms(2) by (simp add: undecided_def)
next
  case (wake_access j c' d)
  then have "j \<noteq> i" using assms(2) by (auto simp: undecided_def)
  then show ?thesis using assms(2) wake_access(1) by (simp add: undecided_def)
next
  case (call_access op)
  then show ?thesis using assms(2) call_op_same [of "sy_service s" op] by (simp add: undecided_def same_approvals_def)
qed

theorem without_a_reviewer_a_request_waits_for_ever:
  assumes "(access_step (Some ManagedProfile) OnRequest False)\<^sup>*\<^sup>* (sample_waiting False) s"
  shows "sy_requests s 1 = Waiting 0"
proof -
  have "undecided 1 0 s \<and> access_inv (asks_user (Some ManagedProfile) OnRequest) False s"
    using assms
  proof (induction rule: rtranclp_induct)
    case base
    have "undecided 1 0 (sample_waiting False)" by (simp add: undecided_def sample_waiting_def sample_request_defs)
    then show ?case using access_inv_reachable [OF sample_waiting_reachable] by simp
  next
    case (step s s')
    then show ?case using undecided_step access_inv_step by blast
  qed
  then show ?thesis by (simp add: undecided_def)
qed

end
