(* ===== verification/Orchestrator.thy ===== *)
theory Orchestrator
  imports ExecApproval NetworkApproval
begin

text \<open>
  How a call of a tool is carried out (\<open>ToolOrchestrator\<close> of \<open>core/tools/orchestrator.py\<close> with the rules of
  \<open>core/tools/sandboxing.py\<close>): the call is approved first, then attempted in the sandbox the rules select, and
  attempted once more without one when the sandbox denied it and the rules and the user allow that. The tool
  and the world it changes are parameters; what is asked and what is run is recorded as a trace.
\<close>

section \<open>Requirements and overrides\<close>

definition default_exec_approval_requirement :: "approval_policy \<Rightarrow> fs_policy \<Rightarrow> requirement" where
  "default_exec_approval_requirement policy fs =
     (let (needs, allowed) =
        (case policy of
           Granular g \<Rightarrow> (fp_kind fs = Restricted, gc_sandbox_approval g)
         | Never \<Rightarrow> (False, True)
         | OnFailure \<Rightarrow> (False, True)
         | UnlessTrusted \<Rightarrow> (True, True)
         | OnRequest \<Rightarrow> (fp_kind fs = Restricted, True))
      in if needs \<and> \<not> allowed then ForbiddenReq (lit ''approval policy disallowed sandbox approval prompt'')
         else if needs then NeedsApproval None None
         else Skip False None)"

datatype sandbox_override = NoOverride | BypassSandboxFirstAttempt

definition sandbox_override_for_first_attempt :: "sandbox_permissions \<Rightarrow> requirement \<Rightarrow> fs_policy \<Rightarrow> sandbox_override" where
  "sandbox_override_for_first_attempt permissions requirement fs =
     (if (case requirement of Skip bypass _ \<Rightarrow> bypass | _ \<Rightarrow> False) then BypassSandboxFirstAttempt
      else if has_denied_read_restrictions fs then NoOverride
      else if permissions = RequireEscalated then BypassSandboxFirstAttempt
      else NoOverride)"

text \<open>\<open>None\<close> is \<open>ValueError\<close>: a granular configuration is no \<open>AskForApproval\<close>.\<close>

definition should_bypass_approval :: "approval_policy \<Rightarrow> bool \<Rightarrow> bool option" where
  "should_bypass_approval policy already_approved =
     (if already_approved then Some True else case policy of Granular _ \<Rightarrow> None | _ \<Rightarrow> Some (policy = Never))"

fun wants_no_sandbox_approval :: "approval_policy \<Rightarrow> bool" where
  "wants_no_sandbox_approval (Granular g) = gc_sandbox_approval g"
| "wants_no_sandbox_approval OnFailure = True"
| "wants_no_sandbox_approval UnlessTrusted = True"
| "wants_no_sandbox_approval Never = False"
| "wants_no_sandbox_approval OnRequest = False"

definition should_require_platform_sandbox :: "fs_policy \<Rightarrow> bool \<Rightarrow> bool \<Rightarrow> bool" where
  "should_require_platform_sandbox fs network_enabled managed_network =
     (if managed_network then True
      else if \<not> network_enabled then fp_kind fs \<noteq> ExternalSandbox
      else if fp_kind fs = Restricted then \<not> has_full_disk_write_access fs
      else False)"

datatype windows_sandbox_level = WindowsDisabled | WindowsRestricted | WindowsElevated

text \<open>A preference that is no sandbox type, such as \<open>auto\<close>, is \<open>None\<close>.\<close>

definition select_initial ::
    "platform \<Rightarrow> fs_policy \<Rightarrow> bool \<Rightarrow> sandbox_type option \<Rightarrow> windows_sandbox_level option \<Rightarrow> bool \<Rightarrow> sandbox_type" where
  "select_initial platform fs network_enabled preference level managed_network =
     (case preference of
        Some t \<Rightarrow> t
      | None \<Rightarrow>
          if should_require_platform_sandbox fs network_enabled managed_network
          then (case get_platform_sandbox platform (level \<noteq> None) of None \<Rightarrow> SandboxNone | Some t \<Rightarrow> t)
          else SandboxNone)"

section \<open>The approvals of a session\<close>

text \<open>The keys are serialised; one that cannot be is \<open>None\<close>. The second result says whether \<open>fetch\<close> was called.\<close>

type_synonym approval_store = "(pystr, review_decision) pydict"

definition store_get :: "approval_store \<Rightarrow> pystr option \<Rightarrow> review_decision option" where
  "store_get store key = (case key of None \<Rightarrow> None | Some k \<Rightarrow> dict_get store k)"

definition store_put :: "pystr option \<Rightarrow> review_decision \<Rightarrow> approval_store \<Rightarrow> approval_store" where
  "store_put key d store = (case key of None \<Rightarrow> store | Some k \<Rightarrow> dict_set k d store)"

definition with_cached_approval ::
    "approval_store \<Rightarrow> pystr option list \<Rightarrow> review_decision \<Rightarrow> review_decision \<times> bool \<times> approval_store" where
  "with_cached_approval store keys fetched =
     (if keys = [] then (fetched, True, store)
      else if list_all (\<lambda>k. store_get store k = Some ReviewForSession) keys then (ReviewForSession, False, store)
      else (fetched, True,
        if fetched = ReviewForSession then fold (\<lambda>k. store_put k ReviewForSession) keys store else store))"

section \<open>The tool, the turn and the trace\<close>

datatype payload_decision = PayloadDeny | PayloadAsk

datatype payload_source = BaselineSource | ModeGuardSource | ProxyStateSource | DeciderSource

record network_payload =
  np_decision :: payload_decision
  np_source :: payload_source
  np_protocol :: "access_protocol option"
  np_host :: "pystr option"

type_synonym network_context = "pystr \<times> access_protocol"

definition network_approval_context_from_payload :: "network_payload \<Rightarrow> network_context option" where
  "network_approval_context_from_payload p =
     (if \<not> (np_decision p = PayloadAsk \<and> np_source p = DeciderSource) then None
      else case np_protocol p of
        None \<Rightarrow> None
      | Some protocol \<Rightarrow>
          (let host = strip (case np_host p of None \<Rightarrow> [] | Some h \<Rightarrow> h) in
           if host = [] then None else Some (host, protocol)))"

text \<open>\<open>'o\<close> is the output of a tool. An error of Codex is a denial by the sandbox or another one.\<close>

datatype 'o tool_error = RejectedError pystr | SandboxDenied 'o "network_payload option" | OtherCodexError

text \<open>A tool returns its output or an error, or raises.\<close>

datatype 'o run_result = RunOk 'o | RunError "'o tool_error" | RunRaised

record sandbox_attempt =
  sa_sandbox :: sandbox_type
  sa_managed_network :: bool
  sa_linux_sandbox_exe :: "pystr option"
  sa_token :: "nat option"

record approval_ctx =
  ax_guardian :: bool
  ax_retry_reason :: "pystr option"
  ax_network :: "network_context option"

text \<open>What happens: an answer of the user or reviewer, and a run of the tool with whether the sandbox denied it.\<close>

datatype orch_event = Asked approval_ctx review_decision | Ran sandbox_attempt bool

record 'w orch_state =
  os_world :: 'w
  os_service :: "approval_service option"
  os_trace :: "orch_event list"

text \<open>
  A tool, for one request: \<open>None\<close> where it lacks a method. \<open>tr_start_approval\<close> and \<open>tr_run\<close> change the world; the
  network approvals of the session may change while a tool runs.
\<close>

record ('w, 'o) tool_runtime =
  tr_requirement :: "requirement option"
  tr_sandbox_permissions :: sandbox_permissions
  tr_sandbox_preference :: "sandbox_type option"
  tr_escalate_on_failure :: bool
  tr_wants_no_sandbox_approval :: "(approval_policy \<Rightarrow> bool) option"
  tr_should_bypass_approval :: "(approval_policy \<Rightarrow> bool \<Rightarrow> bool option) option"
  tr_network_spec :: "(approval_mode \<times> pystr \<times> bool) option"
  tr_start_approval :: "approval_ctx \<Rightarrow> 'w \<Rightarrow> review_decision \<times> 'w"
  tr_run :: "sandbox_attempt \<Rightarrow> 'w \<times> approval_service option \<Rightarrow> 'o run_result \<times> 'w \<times> approval_service option"

record turn_ctx =
  tc_strict_auto_review :: bool
  tc_routes_to_guardian :: bool
  tc_guardian_message :: "approval_ctx \<Rightarrow> pystr"
  tc_fs_policy :: fs_policy
  tc_network_enabled :: bool
  tc_managed_network :: bool
  tc_windows_level :: "windows_sandbox_level option"
  tc_platform :: platform
  tc_linux_sandbox_exe :: "pystr option"
  tc_turn_id :: pystr

section \<open>One attempt\<close>

fun denied :: "'o run_result \<Rightarrow> bool" where
  "denied (RunError (SandboxDenied _ _)) = True"
| "denied _ = False"

definition tool_run ::
    "('w, 'o) tool_runtime \<Rightarrow> sandbox_attempt \<Rightarrow> 'w orch_state \<Rightarrow> 'o run_result \<times> 'w orch_state" where
  "tool_run tool attempt s =
     (let (r, w, v) = tr_run tool attempt (os_world s, os_service s)
      in (r, s\<lparr>os_world := w, os_service := v, os_trace := os_trace s @ [Ran attempt (denied r)]\<rparr>))"

definition NO_NETWORK_SERVICE :: pystr where
  "NO_NETWORK_SERVICE = lit ''network approval requested but session has no network approval service''"

text \<open>The end of an attempt with a network approval.\<close>

definition finish_attempt ::
    "active_network_approval \<Rightarrow> 'o run_result \<Rightarrow> 'w orch_state
      \<Rightarrow> 'o run_result \<times> deferred_network_approval option \<times> 'w orch_state" where
  "finish_attempt active r s =
     (case os_service s of
        None \<Rightarrow> (RunError (RejectedError NO_NETWORK_SERVICE), None, s)
      | Some v \<Rightarrow>
          (case an_mode active of
             ImmediateApproval \<Rightarrow>
               (case finish_immediate_network_approval active v of
                  (Inl m, v') \<Rightarrow> (RunError (RejectedError m), None, s\<lparr>os_service := Some v'\<rparr>)
                | (Inr _, v') \<Rightarrow> (r, None, s\<lparr>os_service := Some v'\<rparr>))
           | DeferredApproval \<Rightarrow>
               (case (r, into_deferred active) of
                  (RunError e, Some d) \<Rightarrow>
                    (case deferred_finish d v of
                       (Inl m, _, v') \<Rightarrow> (RunError (RejectedError m), None, s\<lparr>os_service := Some v'\<rparr>)
                     | (Inr _, _, v') \<Rightarrow> (r, None, s\<lparr>os_service := Some v'\<rparr>))
                | (RunError e, None) \<Rightarrow> (r, None, s)
                | (_, d) \<Rightarrow> (r, d, s))))"

definition run_attempt ::
    "('w, 'o) tool_runtime \<Rightarrow> turn_ctx \<Rightarrow> pystr \<Rightarrow> sandbox_attempt \<Rightarrow> 'w orch_state
      \<Rightarrow> 'o run_result \<times> deferred_network_approval option \<times> 'w orch_state" where
  "run_attempt tool tc registration attempt s =
     (case tr_network_spec tool of
        None \<Rightarrow> let (r, s') = tool_run tool attempt s in (r, None, s')
      | Some spec \<Rightarrow>
          (case os_service s of
             None \<Rightarrow> (RunError (RejectedError NO_NETWORK_SERVICE), None, s)
           | Some v \<Rightarrow>
               (case begin_network_approval (tc_turn_id tc) (tc_managed_network tc) (Some spec) registration v of
                  (None, v') \<Rightarrow> let (r, s') = tool_run tool attempt (s\<lparr>os_service := Some v'\<rparr>) in (r, None, s')
                | (Some active, v') \<Rightarrow>
                    let (r, s') = tool_run tool (attempt\<lparr>sa_token := Some (an_token active)\<rparr>) (s\<lparr>os_service := Some v'\<rparr>)
                    in case r of RunRaised \<Rightarrow> (RunRaised, None, s') | _ \<Rightarrow> finish_attempt active r s')))"

section \<open>Asking\<close>

datatype approval_kind = SkippedApproval | RequestedApproval | ForbiddenApproval

record approval_step =
  ap_kind :: approval_kind
  ap_use_guardian :: bool
  ap_hooks :: bool
  ap_already_approved :: bool
  ap_guardian_id :: bool
  ap_error :: "pystr option"

definition approval_step_decision :: "requirement \<Rightarrow> bool \<Rightarrow> bool \<Rightarrow> approval_step" where
  "approval_step_decision requirement strict routes_to_guardian =
     (let use_guardian = routes_to_guardian \<or> strict in
      case requirement of
        Skip _ _ \<Rightarrow>
          if strict
          then \<lparr>ap_kind = RequestedApproval, ap_use_guardian = True, ap_hooks = False, ap_already_approved = True,
            ap_guardian_id = True, ap_error = None\<rparr>
          else \<lparr>ap_kind = SkippedApproval, ap_use_guardian = use_guardian, ap_hooks = False, ap_already_approved = False,
            ap_guardian_id = False, ap_error = None\<rparr>
      | ForbiddenReq reason \<Rightarrow>
          \<lparr>ap_kind = ForbiddenApproval, ap_use_guardian = use_guardian, ap_hooks = False, ap_already_approved = False,
            ap_guardian_id = False, ap_error = Some reason\<rparr>
      | NeedsApproval _ _ \<Rightarrow>
          \<lparr>ap_kind = RequestedApproval, ap_use_guardian = use_guardian, ap_hooks = \<not> strict, ap_already_approved = True,
            ap_guardian_id = use_guardian, ap_error = None\<rparr>)"

datatype hook_answer = HookAllow | HookDeny "pystr option"

text \<open>\<open>hook\<close> is what the hooks for permission requests say, where there is a way to run them.\<close>

definition request_approval ::
    "('w, 'o) tool_runtime \<Rightarrow> hook_answer option \<Rightarrow> bool \<Rightarrow> approval_ctx \<Rightarrow> 'w orch_state
      \<Rightarrow> (pystr, review_decision) result \<times> 'w orch_state" where
  "request_approval tool hook evaluate_hooks ctx s =
     (case (if evaluate_hooks then hook else None) of
        Some HookAllow \<Rightarrow> (Inr ReviewApproved, s)
      | Some (HookDeny m) \<Rightarrow>
          (Inl (if m = None \<or> m = Some [] then lit ''rejected by permission request hook'' else the m), s)
      | None \<Rightarrow>
          (let (d, w) = tr_start_approval tool ctx (os_world s)
           in (Inr d, s\<lparr>os_world := w, os_trace := os_trace s @ [Asked ctx d]\<rparr>)))"

definition REJECTED_BY_USER :: pystr where "REJECTED_BY_USER = lit ''rejected by user''"

text \<open>The text of the rejection, if the answer is one.\<close>

fun reject_if_not_approved :: "pystr option \<Rightarrow> review_decision \<Rightarrow> pystr option" where
  "reject_if_not_approved guardian ReviewApproved = None"
| "reject_if_not_approved guardian ReviewForSession = None"
| "reject_if_not_approved guardian (ReviewAmendment _) = None"
| "reject_if_not_approved guardian (ReviewNetworkAmendment _ allow) = (if allow then None else Some REJECTED_BY_USER)"
| "reject_if_not_approved guardian ReviewTimedOut = Some GUARDIAN_TIMEOUT_MESSAGE"
| "reject_if_not_approved guardian ReviewDenied =
     Some (case guardian of None \<Rightarrow> REJECTED_BY_USER | Some m \<Rightarrow> if m = [] then REJECTED_BY_USER else m)"
| "reject_if_not_approved guardian ReviewAbort =
     Some (case guardian of None \<Rightarrow> REJECTED_BY_USER | Some m \<Rightarrow> if m = [] then REJECTED_BY_USER else m)"

text \<open>Asking as \<open>run\<close> does it, which hands no hooks on: the rejection, if it is one.\<close>

definition ask_step ::
    "('w, 'o) tool_runtime \<Rightarrow> turn_ctx \<Rightarrow> bool \<Rightarrow> approval_ctx \<Rightarrow> 'w orch_state \<Rightarrow> pystr option \<times> 'w orch_state" where
  "ask_step tool tc evaluate_hooks ctx s =
     (case request_approval tool None evaluate_hooks ctx s of
        (Inl m, s') \<Rightarrow> (Some m, s')
      | (Inr d, s') \<Rightarrow> (reject_if_not_approved (if ax_guardian ctx then Some (tc_guardian_message tc ctx) else None) d, s'))"

section \<open>A call from beginning to end\<close>

definition effective_requirement :: "('w, 'o) tool_runtime \<Rightarrow> turn_ctx \<Rightarrow> approval_policy \<Rightarrow> requirement" where
  "effective_requirement tool tc policy =
     (case tr_requirement tool of Some r \<Rightarrow> r | None \<Rightarrow> default_exec_approval_requirement policy (tc_fs_policy tc))"

fun requirement_reason :: "requirement \<Rightarrow> pystr option" where
  "requirement_reason (NeedsApproval reason _) = reason"
| "requirement_reason (ForbiddenReq reason) = Some reason"
| "requirement_reason (Skip _ _) = None"

text \<open>The first step: the rejection, if any, and whether the call is approved already.\<close>

definition approve_call ::
    "('w, 'o) tool_runtime \<Rightarrow> turn_ctx \<Rightarrow> approval_policy \<Rightarrow> 'w orch_state \<Rightarrow> pystr option \<times> bool \<times> 'w orch_state" where
  "approve_call tool tc policy s =
     (let requirement = effective_requirement tool tc policy;
          approval = approval_step_decision requirement (tc_strict_auto_review tc) (tc_routes_to_guardian tc)
      in case ap_error approval of
           Some reason \<Rightarrow> (Some reason, False, s)
         | None \<Rightarrow>
             if ap_kind approval = RequestedApproval then
               (let (rejection, s') = ask_step tool tc (ap_hooks approval)
                  \<lparr>ax_guardian = ap_guardian_id approval, ax_retry_reason = requirement_reason requirement, ax_network = None\<rparr> s
                in (rejection, ap_already_approved approval, s'))
             else (None, False, s))"

definition initial_attempt :: "('w, 'o) tool_runtime \<Rightarrow> turn_ctx \<Rightarrow> approval_policy \<Rightarrow> sandbox_attempt" where
  "initial_attempt tool tc policy =
     \<lparr>sa_sandbox =
        (if sandbox_override_for_first_attempt (tr_sandbox_permissions tool) (effective_requirement tool tc policy) (tc_fs_policy tc)
             = BypassSandboxFirstAttempt
         then SandboxNone
         else select_initial (tc_platform tc) (tc_fs_policy tc) (tc_network_enabled tc) (tr_sandbox_preference tool)
           (tc_windows_level tc) (tc_managed_network tc)),
      sa_managed_network = tc_managed_network tc, sa_linux_sandbox_exe = tc_linux_sandbox_exe tc, sa_token = None\<rparr>"

datatype 'o orch_result = OrchOk 'o "deferred_network_approval option" | OrchError "'o tool_error" | OrchRaised

fun orch_result_of :: "'o run_result \<Rightarrow> deferred_network_approval option \<Rightarrow> 'o orch_result" where
  "orch_result_of (RunOk out) deferred = OrchOk out deferred"
| "orch_result_of (RunError e) deferred = OrchError e"
| "orch_result_of RunRaised deferred = OrchRaised"

text \<open>
  The host the retry is about. \<open>None\<close>: no retry, because the network was refused by something else than the
  decider; \<open>Some None\<close>: the denial is not about the network.
\<close>

definition retry_network_context :: "turn_ctx \<Rightarrow> network_payload option \<Rightarrow> network_context option option" where
  "retry_network_context tc payload =
     (case payload of
        None \<Rightarrow> Some None
      | Some p \<Rightarrow>
          if tc_managed_network tc then map_option Some (network_approval_context_from_payload p) else Some None)"

definition wants_approval_to_retry :: "('w, 'o) tool_runtime \<Rightarrow> approval_policy \<Rightarrow> bool" where
  "wants_approval_to_retry tool policy =
     (case tr_wants_no_sandbox_approval tool of None \<Rightarrow> wants_no_sandbox_approval policy | Some f \<Rightarrow> f policy)"

definition allow_on_request_network_prompt :: "approval_policy \<Rightarrow> network_context option \<Rightarrow> requirement \<Rightarrow> bool" where
  "allow_on_request_network_prompt policy network base \<longleftrightarrow> policy = OnRequest \<and> network \<noteq> None
     \<and> (case base of NeedsApproval _ _ \<Rightarrow> True | _ \<Rightarrow> False)"

definition DEFAULT_RETRY_REASON :: pystr where
  "DEFAULT_RETRY_REASON = lit ''command failed; retry without sandbox?''"

definition retry_reason :: "network_context option \<Rightarrow> pystr" where
  "retry_reason network =
     (case network of
        None \<Rightarrow> DEFAULT_RETRY_REASON
      | Some (host, _) \<Rightarrow> lit ''Network access to '' @ [34] @ host @ [34] @ lit '' is blocked by policy.'')"

text \<open>\<open>None\<close>: the tool raises. A tool without the method bypasses nothing.\<close>

definition bypass_retry_approval ::
    "('w, 'o) tool_runtime \<Rightarrow> turn_ctx \<Rightarrow> approval_policy \<Rightarrow> bool \<Rightarrow> network_context option \<Rightarrow> bool option" where
  "bypass_retry_approval tool tc policy already_approved network =
     (if tc_strict_auto_review tc then Some False
      else case tr_should_bypass_approval tool of
        None \<Rightarrow> Some False
      | Some f \<Rightarrow> map_option (\<lambda>b. b \<and> network = None) (f policy already_approved))"

definition retry_attempt :: "sandbox_attempt \<Rightarrow> sandbox_attempt" where
  "retry_attempt attempt = attempt\<lparr>sa_sandbox := SandboxNone, sa_linux_sandbox_exe := None, sa_token := None\<rparr>"

definition run_again ::
    "('w, 'o) tool_runtime \<Rightarrow> turn_ctx \<Rightarrow> approval_policy \<Rightarrow> pystr \<Rightarrow> 'w orch_state \<Rightarrow> 'o orch_result \<times> 'w orch_state" where
  "run_again tool tc policy registration s =
     (let (r, deferred, s') = run_attempt tool tc registration (retry_attempt (initial_attempt tool tc policy)) s
      in (orch_result_of r deferred, s'))"

definition retry_without_sandbox ::
    "('w, 'o) tool_runtime \<Rightarrow> turn_ctx \<Rightarrow> approval_policy \<Rightarrow> pystr \<Rightarrow> bool \<Rightarrow> 'o \<Rightarrow> network_payload option \<Rightarrow> 'w orch_state
      \<Rightarrow> 'o orch_result \<times> 'w orch_state" where
  "retry_without_sandbox tool tc policy registration already_approved out payload s =
     (case retry_network_context tc payload of
        None \<Rightarrow> (OrchError (SandboxDenied out payload), s)
      | Some network \<Rightarrow>
          if \<not> tr_escalate_on_failure tool
            \<or> \<not> wants_approval_to_retry tool policy
              \<and> \<not> allow_on_request_network_prompt policy network (default_exec_approval_requirement policy (tc_fs_policy tc))
          then (OrchError (SandboxDenied out payload), s)
          else case bypass_retry_approval tool tc policy already_approved network of
            None \<Rightarrow> (OrchRaised, s)
          | Some True \<Rightarrow> run_again tool tc policy registration s
          | Some False \<Rightarrow>
              (case ask_step tool tc (\<not> tc_strict_auto_review tc)
                  \<lparr>ax_guardian = tc_routes_to_guardian tc \<or> tc_strict_auto_review tc,
                   ax_retry_reason = Some (retry_reason network), ax_network = network\<rparr> s of
                (Some m, s') \<Rightarrow> (OrchError (RejectedError m), s')
              | (None, s') \<Rightarrow> run_again tool tc policy registration s'))"

text \<open>\<open>registrations\<close> are the fresh ids of the two attempts.\<close>

definition orchestrator_run ::
    "('w, 'o) tool_runtime \<Rightarrow> turn_ctx \<Rightarrow> approval_policy \<Rightarrow> pystr \<times> pystr \<Rightarrow> 'w orch_state
      \<Rightarrow> 'o orch_result \<times> 'w orch_state" where
  "orchestrator_run tool tc policy registrations s =
     (case approve_call tool tc policy s of
        (Some m, _, s1) \<Rightarrow> (OrchError (RejectedError m), s1)
      | (None, already_approved, s1) \<Rightarrow>
          (case run_attempt tool tc (fst registrations) (initial_attempt tool tc policy) s1 of
             (RunError (SandboxDenied out payload), _, s2) \<Rightarrow>
               retry_without_sandbox tool tc policy (snd registrations) already_approved out payload s2
           | (r, deferred, s2) \<Rightarrow> (orch_result_of r deferred, s2)))"

section \<open>The decision about a retry on its own\<close>

text \<open>\<open>retry_decision_for_sandbox_denial\<close>; \<open>None\<close> is \<open>ValueError\<close>.\<close>

record retry_decision =
  rd_should_retry :: bool
  rd_reason :: "pystr option"
  rd_needs_approval :: bool
  rd_guardian_id :: bool
  rd_hooks :: bool
  rd_bypass :: bool

definition no_retry :: retry_decision where
  "no_retry = \<lparr>rd_should_retry = False, rd_reason = None, rd_needs_approval = False, rd_guardian_id = False, rd_hooks = True,
     rd_bypass = False\<rparr>"

definition retry_decision_for_sandbox_denial ::
    "approval_policy \<Rightarrow> bool \<Rightarrow> bool \<Rightarrow> bool \<Rightarrow> bool \<Rightarrow> bool option \<Rightarrow> network_context option \<Rightarrow> requirement option
      \<Rightarrow> retry_decision option" where
  "retry_decision_for_sandbox_denial policy already_approved strict routes_to_guardian escalate wants network base =
     (if \<not> escalate then Some no_retry
      else if \<not> (case wants of None \<Rightarrow> wants_no_sandbox_approval policy | Some b \<Rightarrow> b)
        \<and> \<not> (case base of None \<Rightarrow> False | Some d \<Rightarrow> allow_on_request_network_prompt policy network d)
      then Some no_retry
      else map_option (\<lambda>bypass.
          \<lparr>rd_should_retry = True, rd_reason = Some (retry_reason network), rd_needs_approval = \<not> bypass,
           rd_guardian_id = (\<not> bypass \<and> (routes_to_guardian \<or> strict)), rd_hooks = (\<not> bypass \<and> \<not> strict), rd_bypass = bypass\<rparr>)
        (if strict then Some False
         else map_option (\<lambda>b. b \<and> network = None) (should_bypass_approval policy already_approved)))"

section \<open>What a step adds to the trace\<close>

definition approves :: "orch_event \<Rightarrow> bool" where
  "approves e \<longleftrightarrow> (\<exists>ctx d. e = Asked ctx d \<and> reject_if_not_approved None d = None)"

definition is_run :: "sandbox_type \<Rightarrow> orch_event \<Rightarrow> bool" where
  "is_run t e \<longleftrightarrow> (\<exists>a b. e = Ran a b \<and> sa_sandbox a = t)"

definition was_denied :: "orch_event \<Rightarrow> bool" where
  "was_denied e \<longleftrightarrow> (\<exists>a. e = Ran a True)"

lemma ask_step_trace:
  assumes "ask_step tool tc hooks ctx s = (rejection, s')"
  shows "\<exists>d. os_trace s' = os_trace s @ [Asked ctx d] \<and> (rejection = None \<longrightarrow> approves (Asked ctx d))"
proof -
  let ?guardian = "if ax_guardian ctx then Some (tc_guardian_message tc ctx) else None"
  obtain d w where "tr_start_approval tool ctx (os_world s) = (d, w)" by fastforce
  then have s': "os_trace s' = os_trace s @ [Asked ctx d]" "rejection = reject_if_not_approved ?guardian d"
    using assms by (auto simp: ask_step_def request_approval_def)
  have "approves (Asked ctx d)" if "rejection = None"
  proof -
    have "reject_if_not_approved None d = None" using that s'(2) by (cases d) (auto split: if_splits)
    then show ?thesis by (simp add: approves_def)
  qed
  then show ?thesis using s'(1) by blast
qed

lemma tool_run_trace: "tool_run tool attempt s = (r, s') \<Longrightarrow> os_trace s' = os_trace s @ [Ran attempt (denied r)]"
  by (auto simp: tool_run_def split: prod.splits)

lemma finish_attempt_trace:
  assumes "finish_attempt active r s = (r', deferred, s')"
  shows "os_trace s' = os_trace s \<and> (r' = r \<or> (\<exists>m. r' = RunError (RejectedError m)))"
  using assms
  by (auto simp: finish_attempt_def split: option.splits approval_mode.splits prod.splits sum.splits run_result.splits)

text \<open>An attempt runs the tool once, in the sandbox it was given, or fails before it runs.\<close>

lemma run_attempt_trace:
  assumes "run_attempt tool tc registration attempt s = (r, deferred, s')"
  shows "(os_trace s' = os_trace s \<and> (\<exists>m. r = RunError (RejectedError m)))
    \<or> (\<exists>e. os_trace s' = os_trace s @ [e] \<and> is_run (sa_sandbox attempt) e \<and> (denied r \<longrightarrow> was_denied e))"
proof (cases "tr_network_spec tool")
  case None
  then obtain s0 where "tool_run tool attempt s = (r, s0)" "s' = s0" using assms by (auto simp: run_attempt_def split: prod.splits)
  then show ?thesis using tool_run_trace [of tool attempt s r s0] by (auto simp: is_run_def was_denied_def)
next
  case (Some spec)
  show ?thesis
  proof (cases "os_service s")
    case None
    then show ?thesis using assms Some by (auto simp: run_attempt_def)
  next
    case v: (Some v)
    obtain active v' where begun: "begin_network_approval (tc_turn_id tc) (tc_managed_network tc) (Some spec) registration v = (active, v')"
      by fastforce
    obtain a where a: "a = (case active of None \<Rightarrow> attempt | Some x \<Rightarrow> attempt\<lparr>sa_token := Some (an_token x)\<rparr>)" by simp
    obtain r0 s0 where ran: "tool_run tool a (s\<lparr>os_service := Some v'\<rparr>) = (r0, s0)" by fastforce
    have "os_trace s0 = os_trace s @ [Ran a (denied r0)]" using tool_run_trace [OF ran] by simp
    moreover have "os_trace s' = os_trace s0 \<and> (r = r0 \<or> (\<exists>m. r = RunError (RejectedError m)))"
    proof (cases active)
      case None
      then show ?thesis using assms Some v begun ran a by (simp add: run_attempt_def)
    next
      case (Some x)
      then have "finish_attempt x r0 s0 = (r, deferred, s') \<or> s' = s0 \<and> r = r0"
        using assms \<open>tr_network_spec tool = Some spec\<close> v begun ran a by (auto simp: run_attempt_def split: run_result.splits)
      then show ?thesis using finish_attempt_trace by blast
    qed
    ultimately show ?thesis using a by (auto simp: is_run_def was_denied_def split: option.splits)
  qed
qed

lemma approve_call_trace:
  assumes "approve_call tool tc policy s = (rejection, approved, s')"
  shows "(\<exists>q. os_trace s' = os_trace s @ q \<and> (q = [] \<or> (\<exists>ctx d. q = [Asked ctx d]))
      \<and> (rejection = None \<longrightarrow>
          (case effective_requirement tool tc policy of
             Skip _ _ \<Rightarrow> tc_strict_auto_review tc \<longrightarrow> list_ex approves q
           | NeedsApproval _ _ \<Rightarrow> list_ex approves q
           | ForbiddenReq _ \<Rightarrow> False)))
    \<and> (rejection = None \<longrightarrow> approved = (effective_requirement tool tc policy \<in> range (\<lambda>(r, a). NeedsApproval r a) \<or> tc_strict_auto_review tc))"
proof (cases "effective_requirement tool tc policy")
  case (Skip b a)
  show ?thesis
  proof (cases "tc_strict_auto_review tc")
    case True
    then obtain ctx where "ask_step tool tc False ctx s = (rejection, s')" "approved"
      using assms Skip by (auto simp: approve_call_def approval_step_decision_def Let_def split: prod.splits)
    from ask_step_trace [OF this(1)] this(2) show ?thesis using Skip True by auto
  next
    case False
    then show ?thesis using assms Skip by (auto simp: approve_call_def approval_step_decision_def Let_def)
  qed
next
  case (NeedsApproval why a)
  then obtain hooks ctx where "ask_step tool tc hooks ctx s = (rejection, s')" "approved"
    using assms by (auto simp: approve_call_def approval_step_decision_def Let_def split: prod.splits)
  from ask_step_trace [OF this(1)] this(2) show ?thesis using NeedsApproval by (auto intro!: image_eqI [of _ _ "(why, a)"])
next
  case (ForbiddenReq why)
  then show ?thesis using assms by (auto simp: approve_call_def approval_step_decision_def Let_def)
qed

section \<open>What justifies a run\<close>

definition needs_approval :: "requirement \<Rightarrow> bool" where
  "needs_approval r \<longleftrightarrow> (case r of NeedsApproval _ _ \<Rightarrow> True | _ \<Rightarrow> False)"

text \<open>What must have happened before the first run, and what between a denied run and the next one.\<close>

definition first_run_justified ::
    "('w, 'o) tool_runtime \<Rightarrow> turn_ctx \<Rightarrow> approval_policy \<Rightarrow> orch_event list \<Rightarrow> bool" where
  "first_run_justified tool tc policy before \<longleftrightarrow>
     (case effective_requirement tool tc policy of
        Skip _ _ \<Rightarrow> tc_strict_auto_review tc \<longrightarrow> list_ex approves before
      | NeedsApproval _ _ \<Rightarrow> list_ex approves before
      | ForbiddenReq _ \<Rightarrow> False)"

definition retry_justified ::
    "('w, 'o) tool_runtime \<Rightarrow> turn_ctx \<Rightarrow> approval_policy \<Rightarrow> orch_event list \<Rightarrow> bool" where
  "retry_justified tool tc policy between \<longleftrightarrow> tr_escalate_on_failure tool
     \<and> (wants_approval_to_retry tool policy
       \<or> policy = OnRequest \<and> needs_approval (default_exec_approval_requirement policy (tc_fs_policy tc)))
     \<and> (list_ex approves between
       \<or> \<not> tc_strict_auto_review tc \<and> (\<exists>bypass. tr_should_bypass_approval tool = Some bypass
           \<and> bypass policy (needs_approval (effective_requirement tool tc policy)) = Some True))"

lemma run_again_trace:
  assumes "run_again tool tc policy registration s = (out, s')"
  shows "\<exists>more. os_trace s' = os_trace s @ more \<and> (more = [] \<or> (\<exists>e. more = [e] \<and> is_run SandboxNone e))"
proof -
  obtain r deferred where "run_attempt tool tc registration (retry_attempt (initial_attempt tool tc policy)) s = (r, deferred, s')"
    using assms by (auto simp: run_again_def split: prod.splits)
  from run_attempt_trace [OF this] show ?thesis by (auto simp: retry_attempt_def intro: exI [of _ "[_]"])
qed

lemma retry_trace:
  assumes "retry_without_sandbox tool tc policy registration approved out payload s = (result, s')"
    and "\<not> tc_strict_auto_review tc \<longrightarrow> approved = needs_approval (effective_requirement tool tc policy)"
  shows "\<exists>q more. os_trace s' = os_trace s @ q @ more \<and> (q = [] \<or> (\<exists>ctx d. q = [Asked ctx d]))
    \<and> (more = [] \<or> (\<exists>e. more = [e] \<and> is_run SandboxNone e \<and> retry_justified tool tc policy q))"
proof (cases "os_trace s' = os_trace s")
  case True
  then show ?thesis by (intro exI [of _ "[]"]) simp
next
  case False
  then obtain network where net: "retry_network_context tc payload = Some network"
    using assms(1) by (auto simp: retry_without_sandbox_def split: option.splits)
  have "tr_escalate_on_failure tool \<and> (wants_approval_to_retry tool policy
      \<or> allow_on_request_network_prompt policy network (default_exec_approval_requirement policy (tc_fs_policy tc)))"
    using assms(1) net False by (auto simp: retry_without_sandbox_def split: if_splits)
  then have may: "tr_escalate_on_failure tool" "wants_approval_to_retry tool policy
      \<or> policy = OnRequest \<and> needs_approval (default_exec_approval_requirement policy (tc_fs_policy tc))"
    by (auto simp: allow_on_request_network_prompt_def needs_approval_def)
  consider "bypass_retry_approval tool tc policy approved network = Some True" "run_again tool tc policy registration s = (result, s')"
    | ctx s1 rejection where "ask_step tool tc (\<not> tc_strict_auto_review tc) ctx s = (rejection, s1)"
        "if rejection = None then run_again tool tc policy registration s1 = (result, s') else s' = s1"
    using assms(1) net False
    by (auto simp: retry_without_sandbox_def split: if_splits option.splits bool.splits prod.splits)
  then show ?thesis
  proof cases
    case 1
    then have "retry_justified tool tc policy []"
      using may assms(2) by (auto simp: retry_justified_def bypass_retry_approval_def split: if_splits option.splits)
    moreover obtain more where "os_trace s' = os_trace s @ more" "more = [] \<or> (\<exists>e. more = [e] \<and> is_run SandboxNone e)"
      using run_again_trace [OF 1(2)] by blast
    ultimately show ?thesis by (intro exI [of _ "[]"] exI [of _ more]) auto
  next
    case 2
    obtain d where d: "os_trace s1 = os_trace s @ [Asked ctx d]" "rejection = None \<longrightarrow> approves (Asked ctx d)"
      using ask_step_trace [OF 2(1)] by blast
    show ?thesis
    proof (cases "rejection = None")
      case True
      then have "retry_justified tool tc policy [Asked ctx d]" using may d(2) by (simp add: retry_justified_def)
      moreover have "run_again tool tc policy registration s1 = (result, s')" using 2(2) True by simp
      from run_again_trace [OF this] obtain more where "os_trace s' = os_trace s1 @ more"
        "more = [] \<or> (\<exists>e. more = [e] \<and> is_run SandboxNone e)" by blast
      ultimately show ?thesis using d(1) by (intro exI [of _ "[Asked ctx d]"] exI [of _ more]) auto
    next
      case False
      then show ?thesis using 2(2) d(1) by (intro exI [of _ "[Asked ctx d]"] exI [of _ "[]"]) simp
    qed
  qed
qed

lemma orchestrator_trace:
  assumes "orchestrator_run tool tc policy regs s = (result, s')"
  shows "\<exists>q more. os_trace s' = os_trace s @ q @ more \<and> (q = [] \<or> (\<exists>ctx d. q = [Asked ctx d]))
    \<and> (more = [] \<or> (\<exists>e q' again. more = e # q' @ again \<and> is_run (sa_sandbox (initial_attempt tool tc policy)) e
        \<and> first_run_justified tool tc policy q \<and> (q' = [] \<or> (\<exists>ctx d. q' = [Asked ctx d]))
        \<and> (again = [] \<or> (\<exists>e'. again = [e'] \<and> was_denied e \<and> is_run SandboxNone e' \<and> retry_justified tool tc policy q'))))"
proof -
  obtain rejection approved s1 where first: "approve_call tool tc policy s = (rejection, approved, s1)" by (metis prod_cases3)
  obtain q where q: "os_trace s1 = os_trace s @ q" "q = [] \<or> (\<exists>ctx d. q = [Asked ctx d])"
      "rejection = None \<longrightarrow> first_run_justified tool tc policy q"
    using approve_call_trace [OF first] unfolding first_run_justified_def by blast
  have approved: "rejection = None \<longrightarrow> \<not> tc_strict_auto_review tc \<longrightarrow> approved = needs_approval (effective_requirement tool tc policy)"
    using approve_call_trace [OF first] by (auto simp: needs_approval_def split: requirement.splits)
  show ?thesis
  proof (cases rejection)
    case (Some m)
    then have "s' = s1" using assms first by (simp add: orchestrator_run_def)
    then show ?thesis using q by (intro exI [of _ q] exI [of _ "[]"]) simp
  next
    case None
    obtain r deferred s2 where run: "run_attempt tool tc (fst regs) (initial_attempt tool tc policy) s1 = (r, deferred, s2)"
      by (metis prod_cases3)
    show ?thesis
    proof (cases "denied r")
      case False
      then have "s' = s2" using assms first run None
        by (cases r rule: denied.cases) (auto simp: orchestrator_run_def)
      moreover obtain more where "os_trace s2 = os_trace s1 @ more"
        "more = [] \<or> (\<exists>e. more = [e] \<and> is_run (sa_sandbox (initial_attempt tool tc policy)) e)"
        using run_attempt_trace [OF run] by (metis append_Nil2)
      ultimately show ?thesis using q None by (intro exI [of _ q] exI [of _ more]) auto
    next
      case True
      then obtain out payload where r: "r = RunError (SandboxDenied out payload)" by (cases r rule: denied.cases) auto
      then obtain e where e: "os_trace s2 = os_trace s1 @ [e]" "is_run (sa_sandbox (initial_attempt tool tc policy)) e" "was_denied e"
        using run_attempt_trace [OF run] by auto
      have "retry_without_sandbox tool tc policy (snd regs) approved out payload s2 = (result, s')"
        using assms first run None r by (simp add: orchestrator_run_def)
      from retry_trace [OF this] obtain q' more where "os_trace s' = os_trace s2 @ q' @ more" "q' = [] \<or> (\<exists>ctx d. q' = [Asked ctx d])"
        "more = [] \<or> (\<exists>e. more = [e] \<and> is_run SandboxNone e \<and> retry_justified tool tc policy q')"
        using approved None by blast
      then show ?thesis using e q None by (intro exI [of _ q] exI [of _ "e # q' @ more"]) auto
    qed
  qed
qed

section \<open>Nothing runs that may not\<close>

lemma asked_is_no_run [simp]: "\<not> is_run t (Asked ctx d)"
  by (simp add: is_run_def)

lemma is_run_unique: "is_run t e \<Longrightarrow> is_run u e \<Longrightarrow> t = u"
  by (auto simp: is_run_def)

lemma first_split:
  assumes "xs @ a # ys = us @ b # vs" "P a" "P b" "list_all (\<lambda>x. \<not> P x) xs" "list_all (\<lambda>x. \<not> P x) us"
  shows "xs = us \<and> a = b \<and> ys = vs"
  using assms
proof (induction xs arbitrary: us)
  case Nil
  then show ?case by (cases us) auto
next
  case (Cons x xs)
  then show ?case by (cases us) auto
qed

lemma initial_unsandboxed:
  assumes "sa_sandbox (initial_attempt tool tc policy) = SandboxNone"
  shows "(\<exists>amendment. effective_requirement tool tc policy = Skip True amendment)
    \<or> tr_sandbox_permissions tool = RequireEscalated \<and> \<not> has_denied_read_restrictions (tc_fs_policy tc)
    \<or> tr_sandbox_preference tool = Some SandboxNone
    \<or> \<not> tc_managed_network tc \<and> (if tc_network_enabled tc
        then fp_kind (tc_fs_policy tc) \<noteq> Restricted \<or> has_full_disk_write_access (tc_fs_policy tc)
        else fp_kind (tc_fs_policy tc) = ExternalSandbox)
    \<or> tc_platform tc = OtherPlatform \<or> tc_platform tc = Win32 \<and> tc_windows_level tc = None"
  using assms
  by (auto simp: initial_attempt_def sandbox_override_for_first_attempt_def select_initial_def should_require_platform_sandbox_def
      get_platform_sandbox_def split: if_splits option.splits requirement.splits platform.splits)

text \<open>
  C8: A call first runs only in the sandbox selected for it, after its requirement is met: what is forbidden never
  runs, and what needs an approval (every call, under strict review) runs only after an approving answer. It runs
  without a sandbox only if a rule skips the sandbox, or escalation was requested and no file is protected from
  reading, or the tool asks for it, or the policies or the platform need or have none.
\<close>

theorem first_run_is_approved:
  assumes "orchestrator_run tool tc policy regs s = (result, s')" "os_trace s = []"
    and "os_trace s' = before @ e # after" "is_run t e" "list_all (\<lambda>x. \<forall>u. \<not> is_run u x) before"
  shows "t = sa_sandbox (initial_attempt tool tc policy)
    \<and> (case effective_requirement tool tc policy of
         Skip _ _ \<Rightarrow> tc_strict_auto_review tc \<longrightarrow> list_ex approves before
       | NeedsApproval _ _ \<Rightarrow> list_ex approves before
       | ForbiddenReq _ \<Rightarrow> False)
    \<and> (t = SandboxNone \<longrightarrow>
         (\<exists>amendment. effective_requirement tool tc policy = Skip True amendment)
         \<or> tr_sandbox_permissions tool = RequireEscalated \<and> \<not> has_denied_read_restrictions (tc_fs_policy tc)
         \<or> tr_sandbox_preference tool = Some SandboxNone
         \<or> \<not> tc_managed_network tc \<and> (if tc_network_enabled tc
             then fp_kind (tc_fs_policy tc) \<noteq> Restricted \<or> has_full_disk_write_access (tc_fs_policy tc)
             else fp_kind (tc_fs_policy tc) = ExternalSandbox)
         \<or> tc_platform tc = OtherPlatform \<or> tc_platform tc = Win32 \<and> tc_windows_level tc = None)"
proof -
  from orchestrator_trace [OF assms(1)] obtain q more where shape0: "os_trace s' = os_trace s @ q @ more"
    and shape2: "q = [] \<or> (\<exists>ctx d. q = [Asked ctx d])"
    and shape3: "more = [] \<or> (\<exists>e q' again. more = e # q' @ again \<and> is_run (sa_sandbox (initial_attempt tool tc policy)) e
        \<and> first_run_justified tool tc policy q \<and> (q' = [] \<or> (\<exists>ctx d. q' = [Asked ctx d]))
        \<and> (again = [] \<or> (\<exists>e'. again = [e'] \<and> was_denied e \<and> is_run SandboxNone e' \<and> retry_justified tool tc policy q')))"
    by (elim exE conjE)
  have "os_trace s' = q @ more" using shape0 assms(2) by simp
  moreover have "more = [] \<or> (\<exists>e' rest. more = e' # rest \<and> is_run (sa_sandbox (initial_attempt tool tc policy)) e'
        \<and> first_run_justified tool tc policy q)" using shape3 by blast
  ultimately have shape: "os_trace s' = q @ more" "q = [] \<or> (\<exists>ctx d. q = [Asked ctx d])"
      "more = [] \<or> (\<exists>e' rest. more = e' # rest \<and> is_run (sa_sandbox (initial_attempt tool tc policy)) e'
        \<and> first_run_justified tool tc policy q)"
    using shape2 by blast+
  have q: "list_all (\<lambda>x. \<not> (\<exists>u. is_run u x)) q" using shape(2) by auto
  have "more \<noteq> []"
  proof
    assume "more = []"
    then have "e \<in> set q" using shape(1) assms(3) by auto
    then show False using q assms(4) by (auto simp: list_all_iff)
  qed
  then obtain e' rest where more: "more = e' # rest" "is_run (sa_sandbox (initial_attempt tool tc policy)) e'"
    "first_run_justified tool tc policy q" using shape(3) by blast
  have eq: "before @ e # after = q @ e' # rest" using shape(1) assms(3) more(1) by simp
  have "list_all (\<lambda>x. \<not> (\<exists>u. is_run u x)) before" using assms(5) by simp
  then have split: "before = q \<and> e = e' \<and> after = rest"
    using first_split [OF eq, of "\<lambda>x. \<exists>u. is_run u x"] assms(4) more(2) q by blast
  then have t: "t = sa_sandbox (initial_attempt tool tc policy)" using assms(4) more(2) is_run_unique by blast
  moreover have "case effective_requirement tool tc policy of
         Skip _ _ \<Rightarrow> tc_strict_auto_review tc \<longrightarrow> list_ex approves before
       | NeedsApproval _ _ \<Rightarrow> list_ex approves before
       | ForbiddenReq _ \<Rightarrow> False"
  proof -
    have "first_run_justified tool tc policy before" using more(3) split by simp
    then show ?thesis by (simp only: first_run_justified_def)
  qed
  ultimately show ?thesis
  proof (intro conjI impI)
    assume "t = SandboxNone"
    then have "sa_sandbox (initial_attempt tool tc policy) = SandboxNone" using t by simp
    then show "(\<exists>amendment. effective_requirement tool tc policy = Skip True amendment)
         \<or> tr_sandbox_permissions tool = RequireEscalated \<and> \<not> has_denied_read_restrictions (tc_fs_policy tc)
         \<or> tr_sandbox_preference tool = Some SandboxNone
         \<or> \<not> tc_managed_network tc \<and> (if tc_network_enabled tc
             then fp_kind (tc_fs_policy tc) \<noteq> Restricted \<or> has_full_disk_write_access (tc_fs_policy tc)
             else fp_kind (tc_fs_policy tc) = ExternalSandbox)
         \<or> tc_platform tc = OtherPlatform \<or> tc_platform tc = Win32 \<and> tc_windows_level tc = None"
      by (rule initial_unsandboxed)
  qed
qed

text \<open>
  C9: A call runs a second time only after the sandbox denied the first run, then without a sandbox and for the last
  time; the tool must allow it, and the approval policy ask for approval of such runs (or the denial be about a
  host under \<open>OnRequest\<close>); and either the user or reviewer has approved it since the denial, or the tool bypasses
  the question, which it cannot under strict review.
\<close>

theorem second_run_is_approved:
  assumes "orchestrator_run tool tc policy regs s = (result, s')" "os_trace s = []"
    and "os_trace s' = before @ x # between @ e # after" "is_run u x" "is_run t e"
  shows "t = SandboxNone \<and> after = [] \<and> was_denied x \<and> tr_escalate_on_failure tool
    \<and> (wants_approval_to_retry tool policy
       \<or> policy = OnRequest \<and> needs_approval (default_exec_approval_requirement policy (tc_fs_policy tc)))
    \<and> (list_ex approves between
       \<or> \<not> tc_strict_auto_review tc \<and> (\<exists>bypass. tr_should_bypass_approval tool = Some bypass
           \<and> bypass policy (needs_approval (effective_requirement tool tc policy)) = Some True))"
proof -
  from orchestrator_trace [OF assms(1)] obtain q more where shape: "os_trace s' = os_trace s @ q @ more"
    and q: "q = [] \<or> (\<exists>ctx d. q = [Asked ctx d])"
    and more: "more = [] \<or> (\<exists>e q' again. more = e # q' @ again \<and> is_run (sa_sandbox (initial_attempt tool tc policy)) e
        \<and> first_run_justified tool tc policy q \<and> (q' = [] \<or> (\<exists>ctx d. q' = [Asked ctx d]))
        \<and> (again = [] \<or> (\<exists>e'. again = [e'] \<and> was_denied e \<and> is_run SandboxNone e' \<and> retry_justified tool tc policy q')))"
    by (elim exE conjE)
  define isr where "isr = (\<lambda>x. \<exists>u. is_run u x)"
  have asked: "filter isr q = []" using q by (auto simp: isr_def)
  have eq: "before @ x # between @ e # after = q @ more" using shape assms(2,3) by simp
  have "isr x" "isr e" using assms(4,5) by (auto simp: isr_def)
  then have runs: "filter isr more = filter isr before @ x # filter isr between @ e # filter isr after"
    using arg_cong [OF eq, of "filter isr"] asked by simp
  then have "more \<noteq> []" by auto
  then obtain e0 q' again where m: "more = e0 # q' @ again" "is_run (sa_sandbox (initial_attempt tool tc policy)) e0"
      "q' = [] \<or> (\<exists>ctx d. q' = [Asked ctx d])"
      "again = [] \<or> (\<exists>e'. again = [e'] \<and> was_denied e0 \<and> is_run SandboxNone e' \<and> retry_justified tool tc policy q')"
    using more by blast
  have asked': "filter isr q' = []" using m(3) by (auto simp: isr_def)
  have "isr e0" using m(2) by (auto simp: isr_def)
  then have two: "e0 # filter isr again = filter isr before @ x # filter isr between @ e # filter isr after"
    using runs m(1) asked' by simp
  then have "again \<noteq> []" by (cases "filter isr before") auto
  then obtain e' where e': "again = [e']" "was_denied e0" "is_run SandboxNone e'" "retry_justified tool tc policy q'"
    using m(4) by blast
  have none: "filter isr before = []" "filter isr between = []"
    using two e'(1) by (cases "filter isr before"; cases "isr e'"; cases "filter isr between"; simp)+
  have "before = q \<and> x = e0 \<and> between @ e # after = q' @ [e']"
    using first_split [of before x "between @ e # after" q e0 "q' @ [e']" isr] eq m(1) e'(1) none(1) asked \<open>isr x\<close> \<open>isr e0\<close>
    by (simp add: filter_empty_conv list_all_iff)
  moreover from this have "between = q' \<and> e = e' \<and> after = []"
    using first_split [of between e after q' e' "[]" isr] none(2) asked' \<open>isr e\<close> e'(3)
    by (auto simp: filter_empty_conv list_all_iff isr_def)
  ultimately have "t = SandboxNone \<and> after = [] \<and> was_denied x \<and> retry_justified tool tc policy between"
    using e' assms(5) is_run_unique by blast
  then show ?thesis by (simp add: retry_justified_def)
qed

section \<open>A sample call\<close>

definition sample_tool :: "(unit, unit) tool_runtime" where
  "sample_tool =
     \<lparr>tr_requirement = Some (NeedsApproval None None), tr_sandbox_permissions = UseDefault, tr_sandbox_preference = None,
      tr_escalate_on_failure = True, tr_wants_no_sandbox_approval = None, tr_should_bypass_approval = None,
      tr_network_spec = None, tr_start_approval = (\<lambda>ctx w. (ReviewApproved, w)),
      tr_run = (\<lambda>a (w, v). (if sa_sandbox a = SandboxNone then RunOk () else RunError (SandboxDenied () None), w, v))\<rparr>"

definition sample_turn :: turn_ctx where
  "sample_turn =
     \<lparr>tc_strict_auto_review = False, tc_routes_to_guardian = False, tc_guardian_message = (\<lambda>_. []),
      tc_fs_policy = \<lparr>fp_kind = Restricted, fp_entries = [], fp_glob_depth = None\<rparr>, tc_network_enabled = False,
      tc_managed_network = False, tc_windows_level = None, tc_platform = Linux, tc_linux_sandbox_exe = None, tc_turn_id = []\<rparr>"

definition sample_start :: "unit orch_state" where
  "sample_start = \<lparr>os_world = (), os_service = None, os_trace = []\<rparr>"

definition sample_run :: "sandbox_type \<Rightarrow> bool \<Rightarrow> orch_event" where
  "sample_run t was = Ran \<lparr>sa_sandbox = t, sa_managed_network = False, sa_linux_sandbox_exe = None, sa_token = None\<rparr> was"

definition sample_ask :: "pystr option \<Rightarrow> orch_event" where
  "sample_ask reason = Asked \<lparr>ax_guardian = False, ax_retry_reason = reason, ax_network = None\<rparr> ReviewApproved"

lemma sample_start_trace [simp]: "os_trace sample_start = []"
  by (simp add: sample_start_def)

lemma sample_run_is_run [simp]: "is_run t (sample_run t was)"
  by (auto simp: is_run_def sample_run_def)

lemma sample_ask_is_no_run [simp]: "\<not> is_run t (sample_ask reason)"
  by (simp add: sample_ask_def)

lemma sample_result:
  "orchestrator_run sample_tool sample_turn UnlessTrusted ([], []) sample_start =
     (OrchOk () None, sample_start\<lparr>os_trace := [sample_ask None, sample_run LinuxSeccomp True,
       sample_ask (Some DEFAULT_RETRY_REASON), sample_run SandboxNone False]\<rparr>)"
  by (simp add: orchestrator_run_def approve_call_def effective_requirement_def sample_tool_def sample_turn_def sample_start_def
      approval_step_decision_def ask_step_def request_approval_def run_attempt_def tool_run_def initial_attempt_def
      sandbox_override_for_first_attempt_def has_denied_read_restrictions_def select_initial_def
      should_require_platform_sandbox_def get_platform_sandbox_def retry_without_sandbox_def retry_network_context_def
      wants_approval_to_retry_def bypass_retry_approval_def retry_reason_def run_again_def retry_attempt_def
      sample_ask_def sample_run_def)

theorem first_run_is_approved_witness:
  "os_trace (snd (orchestrator_run sample_tool sample_turn UnlessTrusted ([], []) sample_start)) =
     [sample_ask None] @ sample_run LinuxSeccomp True # [sample_ask (Some DEFAULT_RETRY_REASON), sample_run SandboxNone False]
   \<and> LinuxSeccomp = sa_sandbox (initial_attempt sample_tool sample_turn UnlessTrusted)
   \<and> list_ex approves [sample_ask None]"
proof -
  have "effective_requirement sample_tool sample_turn UnlessTrusted = NeedsApproval None None"
    by (simp add: effective_requirement_def sample_tool_def)
  then show ?thesis
    using first_run_is_approved [OF sample_result, of "[sample_ask None]" "sample_run LinuxSeccomp True" _ LinuxSeccomp]
    by (simp add: sample_result)
qed

theorem second_run_is_approved_witness:
  "os_trace (snd (orchestrator_run sample_tool sample_turn UnlessTrusted ([], []) sample_start)) =
     [sample_ask None] @ sample_run LinuxSeccomp True # [sample_ask (Some DEFAULT_RETRY_REASON)] @ sample_run SandboxNone False # []
   \<and> was_denied (sample_run LinuxSeccomp True) \<and> list_ex approves [sample_ask (Some DEFAULT_RETRY_REASON)]"
proof -
  have "tr_should_bypass_approval sample_tool = None" by (simp add: sample_tool_def)
  then show ?thesis
    using second_run_is_approved [OF sample_result, of "[sample_ask None]" "sample_run LinuxSeccomp True"
        "[sample_ask (Some DEFAULT_RETRY_REASON)]" "sample_run SandboxNone False" "[]" LinuxSeccomp SandboxNone]
    by (simp add: sample_result)
qed

section \<open>The plain decision and the calls of an attempt\<close>

text \<open>
  For a tool that bypasses approvals by the general rule, what happens after a denial is what the plain decision
  about the retry says: nothing, another run at once, or a question first, with its reason and reviewer.
\<close>

theorem retry_follows_the_decision:
  assumes "tr_should_bypass_approval tool = Some should_bypass_approval" "retry_network_context tc payload = Some network"
  shows "retry_without_sandbox tool tc policy registration approved out payload s =
    (case retry_decision_for_sandbox_denial policy approved (tc_strict_auto_review tc) (tc_routes_to_guardian tc)
        (tr_escalate_on_failure tool) (map_option (\<lambda>f. f policy) (tr_wants_no_sandbox_approval tool)) network
        (Some (default_exec_approval_requirement policy (tc_fs_policy tc))) of
       None \<Rightarrow> (OrchRaised, s)
     | Some rd \<Rightarrow>
         if \<not> rd_should_retry rd then (OrchError (SandboxDenied out payload), s)
         else if rd_needs_approval rd then
           (case ask_step tool tc (rd_hooks rd)
               \<lparr>ax_guardian = rd_guardian_id rd, ax_retry_reason = rd_reason rd, ax_network = network\<rparr> s of
              (Some m, s') \<Rightarrow> (OrchError (RejectedError m), s')
            | (None, s') \<Rightarrow> run_again tool tc policy registration s')
         else run_again tool tc policy registration s)"
proof -
  have wants: "wants_approval_to_retry tool policy =
      (case map_option (\<lambda>f. f policy) (tr_wants_no_sandbox_approval tool) of None \<Rightarrow> wants_no_sandbox_approval policy | Some b \<Rightarrow> b)"
    by (simp add: wants_approval_to_retry_def split: option.splits)
  show ?thesis
    unfolding retry_without_sandbox_def retry_decision_for_sandbox_denial_def bypass_retry_approval_def wants assms
    by (cases "should_bypass_approval policy approved"; cases "tc_strict_auto_review tc"; cases network)
      (auto simp: no_retry_def split: bool.splits)
qed

theorem retry_follows_the_decision_witness:
  "retry_without_sandbox (sample_tool\<lparr>tr_should_bypass_approval := Some should_bypass_approval\<rparr>) sample_turn OnFailure [] True ()
      None sample_start =
     (OrchOk () None, sample_start\<lparr>os_trace := [sample_run SandboxNone False]\<rparr>)"
proof -
  let ?tool = "sample_tool\<lparr>tr_should_bypass_approval := Some should_bypass_approval\<rparr>"
  have "tr_should_bypass_approval ?tool = Some should_bypass_approval" "retry_network_context sample_turn None = Some None"
    by (simp_all add: retry_network_context_def)
  from retry_follows_the_decision [OF this, of OnFailure "[]" True "()" sample_start] show ?thesis
    by (simp add: retry_decision_for_sandbox_denial_def sample_tool_def sample_turn_def should_bypass_approval_def run_again_def
        run_attempt_def tool_run_def retry_attempt_def initial_attempt_def sample_run_def sample_start_def)
qed

lemma tool_without_the_rule_asks_again:
  assumes "tr_should_bypass_approval tool = None"
  shows "bypass_retry_approval tool tc policy True None = Some False
    \<and> (\<not> strict \<longrightarrow> wants_no_sandbox_approval policy \<longrightarrow>
        (\<exists>rd. retry_decision_for_sandbox_denial policy True strict guardian True None None base = Some rd \<and> rd_bypass rd))"
  using assms by (auto simp: bypass_retry_approval_def retry_decision_for_sandbox_denial_def should_bypass_approval_def)

text \<open>
  An attempt whose network is watched leaves no call registered, unless it hands on a deferred approval of this call
  or the tool raises.
\<close>

lemma finish_attempt_calls:
  assumes "finish_attempt active r s = (r', deferred, s')" "os_service s' = Some v" "r \<noteq> RunRaised"
  shows "(case deferred of
      None \<Rightarrow> dict_get (as_active v) (an_registration active) = None
    | Some d \<Rightarrow> df_registration d = an_registration active \<and> an_mode active = DeferredApproval \<and> (\<exists>out. r' = RunOk out))"
proof (cases "os_service s")
  case None
  then show ?thesis using assms(1,2) by (auto simp: finish_attempt_def)
next
  case (Some v0)
  show ?thesis
  proof (cases "an_mode active")
    case ImmediateApproval
    then have "as_active v = dict_pop (an_registration active) (as_active v0) \<and> deferred = None"
      using assms Some
      by (auto simp: finish_attempt_def finish_immediate_network_approval_def finish_call_def remove_call_def Let_def
          split: sum.splits prod.splits)
    then show ?thesis by simp
  next
    case DeferredApproval
    show ?thesis
    proof (cases r)
      case (RunOk out)
      then show ?thesis using assms Some DeferredApproval by (auto simp: finish_attempt_def into_deferred_def)
    next
      case (RunError e)
      then have "as_active v = dict_pop (an_registration active) (as_active v0) \<and> deferred = None"
        using assms Some DeferredApproval
        by (auto simp: finish_attempt_def into_deferred_def deferred_finish_def remove_call_def Let_def
            split: sum.splits prod.splits)
      then show ?thesis by simp
    next
      case RunRaised
      then show ?thesis using assms(3) by simp
    qed
  qed
qed

end
