(* ===== verification/Spec2Isabelle.thy ===== *)
theory Spec2Isabelle
  imports PatchCall PatchStreamAgree LegacyPolicy ExecPolicyAmend AssistantText Utf8Stream CommandSummary
    Readiness LruCache RolloutTruncation NetRuntime NetBind MitmHook HeadTail ShellEnvironment CompactHistory Orchestrator
begin

text \<open>
  A verification development for \<open>pycodex\<close>, the Python port of a coding agent. It models the parts of
  the program that decide what the agent may do to the user's machine, the parsers in front of them,
  and the conversation the agent keeps with the model.

  \<^bold>\<open>Parts of the program\<close>

  \<^item> \<^bold>\<open>Patches\<close> (\<open>src/pycodex/apply_patch\<close>). The agent edits files by an \<open>apply_patch\<close> call.
    \<open>invocation.py\<close> recognises the call in an argument vector, directly or as a shell script with a
    here-document; \<open>parser.py\<close> parses the patch text into hunks and \<open>streaming_parser.py\<close> does so
    while the text arrives; each hunk is checked against the workspace, its chunks are located in the
    file by the fuzzy lookup of \<open>seek_sequence.py\<close> and the new contents computed; the resulting action
    is written to disk.
  \<^item> \<^bold>\<open>Command policies, first generation\<close> (\<open>src/pycodex/execpolicy_legacy\<close>). A policy file defines,
    per program, the flags, options and argument patterns that are known; \<open>ProgramSpec.check\<close> reads a
    call by a specification, \<open>Policy.check\<close> chooses the specification, \<open>ExecvChecker.check\<close> confines
    the files, \<open>main.py\<close> reports in JSON and by exit code.
  \<^item> \<^bold>\<open>Command policies, second generation\<close> (\<open>src/pycodex/execpolicy\<close>). Prefix rules with a decision,
    network rules, host executables; loading them from files, checking a command, and amending a file
    when the user allows a prefix for good.
  \<^item> \<^bold>\<open>Stream parsers\<close> (\<open>src/pycodex/utils/stream_parser\<close>). The assistant's text arrives in deltas (of
    bytes); citations are hidden from it and plan blocks taken out of it while it streams.

  \<^item> \<^bold>\<open>Shell commands\<close> (\<open>src/pycodex/shell_command\<close>). Which shell a path names, which plain commands a
    script given to \<open>bash -lc\<close> or to PowerShell runs, whether a command is known to be safe or might
    be dangerous, and how it is summarised for the user.
  \<^item> \<^bold>\<open>Permissions and approvals\<close> (\<open>protocol/permissions.py\<close>, \<open>core/safety.py\<close>, \<open>core/exec_policy.py\<close>).
    The file-system policy gives each path its access; a verified patch is assessed against it; a
    command is parsed into its plain commands, each judged and matched against the rules, and the
    strictest answer becomes the requirement: skip approval, ask, or forbid.
  \<^item> \<^bold>\<open>Carrying a call out\<close> (\<open>core/tools/orchestrator.py\<close>, \<open>core/tools/sandboxing.py\<close>,
    \<open>core/tools/network_approval.py\<close>). The orchestrator has the requirement met, runs the tool in the
    sandbox selected for it and, if the sandbox denied it, once more without one where the rules and the
    user allow that. While tools run, the network proxy asks for hosts it does not know: the approval
    service answers from the lists of the session, lets one request ask the user while the others for
    the host wait, and tells the running call of a denial. \<open>protocol/shell_environment.py\<close> chooses the
    variables a command gets, \<open>core/unified_exec/head_tail_buffer.py\<close> keeps both ends of its output.
  \<^item> \<^bold>\<open>Network proxy\<close> (\<open>src/pycodex/network_proxy\<close>). Settings with domain lists, Unix sockets, a mode
    and hooks, under constraints that an administrator manages; the state decides on each host, socket
    and method, reads host names and addresses, looks names up before they are admitted, records what it
    blocked and reloads its settings; a decider may be asked about hosts that are on no list; hooks match
    a request and change its headers; the proxy's own addresses are clamped to the loopback interface.
  \<^item> \<^bold>\<open>Conversation\<close> (\<open>protocol/models.py\<close>, \<open>core/context\<close>, \<open>core/context_manager\<close>). A conversation is
    a list of response items. The agent puts fragments of context into it, marked so that they can be
    told from the user's words; the history records the items, keeps calls and outputs paired,
    estimates its tokens, drops turns, and makes the prompt; \<open>thread_rollout_truncation.py\<close> finds the
    turns of a stored conversation from which a fork can start; \<open>core/compact.py\<close> replaces a conversation
    that grew too long by the latest messages of the user and a summary.
  \<^item> \<^bold>\<open>Utilities\<close> (\<open>utils/string\<close>, \<open>utils/output_truncation\<close>, \<open>utils/readiness\<close>, \<open>utils/cache\<close>). Long
    texts and tool outputs are truncated in the middle before they enter the history; a readiness flag
    lets tasks wait until every subscriber is done; a cache keeps the most recently used entries.

  \<^bold>\<open>Theories\<close>

  \<^item> \<open>Prelude\<close>, \<open>PyPath\<close>, \<open>PyDict\<close>, \<open>PyJson\<close>, \<open>PyShlex\<close>: Python's strings (lists of code points with
    \<open>strip\<close>, \<open>split\<close>, \<open>splitlines\<close>, \<open>find\<close>), results as sums, \<open>pathlib\<close> paths, insertion-ordered
    dictionaries, JSON values and \<open>shlex.split\<close>, with the lemmas every component shares.
  \<^item> \<open>PatchParser\<close> is \<open>parser.py\<close>, \<open>PatchStreaming\<close> is \<open>streaming_parser.py\<close>, \<open>SeekSequence\<close> is
    \<open>seek_sequence.py\<close>, \<open>PatchApply\<close> and the second half of \<open>PatchVerify\<close> are \<open>__init__.py\<close>, the first
    half of \<open>PatchVerify\<close> and \<open>PatchInvoke\<close> are \<open>invocation.py\<close>. \<open>PatchRoundtrip\<close> has a printer for
    hunks and shows that parsing inverts it, \<open>PatchStreamAgree\<close> the same for the streaming parser,
    \<open>PatchCall\<close> composes all steps for a whole call. Python's regular \<open>hunk\<close> objects are the values of
    \<open>hunk\<close>, an exception is the \<open>Inl\<close> of a result, a mutable parser object is a record returned
    changed, a file system is a record of functions (\<open>host\<close>) or a map (\<open>disk\<close>).
  \<^item> \<open>LegacyTypes\<close>: \<open>arg_type.py\<close>, \<open>arg_matcher.py\<close>, \<open>sed_command.py\<close>, \<open>valid_exec.py\<close>, \<open>opt.py\<close>,
    \<open>exec_call.py\<close> and the errors of \<open>error.py\<close>; \<open>LegacyJson\<close>: what they are reported as;
    \<open>LegacyResolver\<close>: \<open>arg_resolver.py\<close>; \<open>LegacyProgram\<close>: \<open>program.py\<close>, with the grammar \<open>reads\<close> of the
    argument lists a specification accepts; \<open>LegacyPolicy\<close>: \<open>policy.py\<close>, \<open>policy_parser.py\<close>,
    \<open>execv_checker.py\<close>, \<open>main.py\<close>.
  \<^item> \<open>ExecPolicy\<close>: \<open>decision.py\<close>, \<open>error.py\<close>, \<open>rule.py\<close>, \<open>executable_name.py\<close>, \<open>policy.py\<close>;
    \<open>ExecPolicyParser\<close>: \<open>parser.py\<close>, \<open>execpolicycheck.py\<close>, \<open>main.py\<close>; \<open>ExecPolicyAmend\<close>: \<open>amend.py\<close>.
  \<^item> \<open>StreamText\<close>: the contract of a stream parser as the locale \<open>stream_parser\<close> (an invariant every push
    keeps; pushing a concatenation is pushing its parts and merging the outputs) and its extension
    \<open>finishing_parser\<close> (finishing gives the parser as new), in which it is shown once that the pieces
    do not matter; \<open>HiddenTag\<close> (\<open>inline_hidden_tag.py\<close>, \<open>citation.py\<close>), \<open>TaggedLine\<close>
    (\<open>tagged_line_parser.py\<close>) and \<open>AssistantText\<close> (\<open>proposed_plan.py\<close>, \<open>assistant_text.py\<close>) interpret
    it on the code's parsers; \<open>Utf8Stream\<close> (\<open>utf8_stream.py\<close>, with CPython's decoder) is proved for any
    parser that meets it, the locale \<open>chunk_parser\<close>.
  \<^item> \<open>ShellBash\<close>: \<open>shell_detect.py\<close>, \<open>bash.py\<close>, with a printer of command lines; \<open>CommandSafety\<close>: the
    package \<open>command_safety\<close>; \<open>CommandSummary\<close>: \<open>parse_command.py\<close> and
    \<open>core/command_canonicalization.py\<close>; \<open>FsPolicy\<close>: \<open>protocol/permissions.py\<close>; \<open>PatchSafety\<close>: \<open>core/safety.py\<close>;
    \<open>ExecApproval\<close>: the decisions of \<open>core/exec_policy.py\<close> and \<open>powershell.py\<close>. \<open>os.name\<close>, \<open>sys.platform\<close>,
    the case and class of characters, URL parsing, the canonical form of paths and what exists on disk
    are fields of the records \<open>shell_env\<close> and \<open>fs_env\<close>.
  \<^item> \<open>Orchestrator\<close>: \<open>orchestrator.py\<close>, \<open>sandboxing.py\<close>, \<open>sandbox_tags.py\<close>. The tool is a record of its
    methods for one request, its world a type variable passed through; what is asked and run is appended
    to a trace. \<open>NetworkApproval\<close>: \<open>network_approval.py\<close>. Pending approvals and cancellation tokens are
    shared by reference, so they are cells of a store addressed by index; the requests that are underway
    at once are the steps of \<open>access_step\<close>, one for each stretch of code up to the point where a request
    waits for an answer. The code takes no lock over such a stretch: the steps assume it is not
    interrupted. \<open>ShellEnvironment\<close> and \<open>HeadTail\<close> are the modules named above.
  \<^item> \<open>PyIp\<close> and \<open>PyFnmatch\<close> are \<open>ipaddress\<close> and \<open>fnmatch\<close> of the standard library (CPython 3.11);
    \<open>NetHost\<close>: hosts and domain patterns of \<open>policy.py\<close>; \<open>NetConfig\<close>: \<open>config.py\<close> and the managed
    constraints of \<open>state.py\<close>; \<open>NetRuntime\<close>: the state of \<open>runtime.py\<close>, a record returned changed, with
    \<open>connect_policy.py\<close> and \<open>network_policy.py\<close>; \<open>NetBind\<close>: the addresses of \<open>config.py\<close>; \<open>MitmHook\<close>:
    \<open>mitm_hook.py\<close>. The lookup of names, lower case, regular expressions, URL and query parsing,
    environment variables and secret files are parameters.
  \<^item> \<open>Truncation\<close> (\<open>utils/string\<close>), \<open>OutputTruncation\<close> (\<open>utils/output_truncation\<close>), \<open>LruCache\<close>
    (\<open>utils/cache\<close>), \<open>Readiness\<close> (\<open>utils/readiness\<close>): the tasks that use a flag are the steps of the
    relation \<open>readiness_step\<close>, one for each stretch of code between two points where a task may be
    suspended.
  \<^item> \<open>AgentPath\<close> (\<open>protocol/agent_path.py\<close>), \<open>ContextFragments\<close> (\<open>core/context\<close> and the predicates of
    \<open>core/event_mapping.py\<close>), \<open>ResponseItem\<close> (the items of \<open>protocol/models.py\<close>; an item is a record with
    all the fields of the dataclass, of which each type uses some), \<open>History\<close> (\<open>normalize.py\<close>),
    \<open>TokenEstimate\<close> and \<open>ContextManager\<close> (\<open>history.py\<close>), \<open>RolloutTruncation\<close>
    (\<open>core/thread_rollout_truncation.py\<close>), \<open>CompactHistory\<close> (\<open>core/compact.py\<close> and \<open>parse_turn_item\<close> of
    \<open>core/event_mapping.py\<close>). Lower case, XML, JSON and base64 of the standard library are
    fields of the record \<open>context_env\<close>.

  \<^bold>\<open>What is shown\<close>

  Patches: a call with edits that quote the file changes exactly that file to exactly the edited text;
  parsing inverts printing, in one go and streamed; an accepted action stays inside the workspace; the
  replacements computed lie apart, each at lines its chunk quotes, and are applied as in one forward
  pass; the lookup finds the first place of the strictest comparison; a here-document is a direct call;
  the disk afterwards is the effects of the action and nothing else. First-generation policies: the
  resolver and the scanner accept exactly what the patterns and the grammar describe; a match accounts
  for every argument; the exit code of \<open>--require-safe\<close>, the folder check and the file's specifications
  are characterised. Second generation: the decision is the strictest of the matched rules, a rule
  bounds every command it matches, loading only tightens, examples are kept, the compiled network
  domains follow the last ruling, amendments are read back as what they stand for. Streams: however
  text or bytes are cut, the output is the reading of the whole document. Shell commands: reading a
  script inverts printing it, a line is judged command by command, a safe command is never dangerous,
  what a safe git call looks like, the text shown of a command splits into the command again, and the
  summary of a line leaves out only what it is said to leave out. Permissions and approvals: the most specific entry decides,
  metadata directories stay protected, a patch applied without asking is confined, a forbid rule cannot
  be evaded by putting the command in a line, and skipping approval or the sandbox, or asking, needs
  the reasons the policy gives. Carrying a call out: nothing runs before its requirement is met, a second
  run follows a denial and an approval, and what is decided about a retry is the plain decision; an
  access is allowed only to a host the user allowed, the lists of the session are the user's last
  rulings, a request that waits can always be answered where the user can be asked, and waits for ever
  where not; a command gets exactly the variables of its policy; the buffer holds both ends. Network
  proxy: an admitted host is listed and public, the decider is asked about unlisted hosts only, managed
  constraints survive every sequence of operations and bind every host, the proxy listens on the
  loopback interface, the first matching hook applies and injects well-formed headers. Conversation: the prompt has an output for every call and a call for
  every output, and the items of the history otherwise; removing an end keeps the pairs and dropping
  turns keeps the others; estimates are the saturated sums; items are read back from what is written;
  rendered context is recognised as such; a rollout is replayed to the turns that are alive; compacting keeps the
  latest messages that fit and finds the same ones again. Utilities:
  truncation keeps both ends and its budget and fails only for the given reasons, the flag is earned,
  stays reachable and subscribing ends, the cache holds the most recent keys.

  \<^bold>\<open>Loops and bounds\<close>

  Every loop is a total function: structural recursion, or recursion with a measure (\<open>parse_hunks\<close> and
  \<open>parse_chunks\<close> on the lines left, \<open>walk_to_root\<close> on the components of the path, \<open>tagged_parts\<close> on
  the text left, \<open>detect_shell_type\<close> on the length of the path). The loop of the hidden-tag parser alone
  runs on fuel, one more than the text pending: \<open>hidden_loop_fuel\<close> shows that more changes nothing.
  The search for a free readiness token may run for ever when all \<open>2 ^ 32\<close> ids are taken: it is a
  partial function into options, and it is shown that it returns while one is free. The chunks of an
  image are read with a measure, the bytes left.
  Python's integers are unbounded and modelled as \<open>int\<close>; the checks against \<open>2 ^ 64\<close>, the wrap of token
  ids at 32 bits and the saturation of counters at 64 bits are written out. The one product with a
  float, the token budget times 1.2, is rounded to 53 bits as the machine does.

  \<^bold>\<open>What is not modelled\<close>

  Code outside \<open>src/\<close> is a parameter: the file system, \<open>str.lower\<close>, \<open>json.loads\<close>, \<open>difflib\<close>,
  \<open>ast.parse\<close> of policy files, \<open>urlparse\<close>, XML parsing, base64, compiled regular expressions. Not
  modelled: the mapping constructors of the patch code, the messages of the legacy command-line tool,
  the JSON mappings, the legacy and semantic forms and the glob matcher of \<open>permissions.py\<close>, the rules
  files of \<open>core/exec_policy.py\<close>, the texts of skill, app and plugin instructions, the settings of the
  network proxy read from and written to mappings and its servers, the asynchronous tasks around a
  compaction and an orchestrated call, and the rest of the program (the agent's session, the terminal
  interface, the model clients, the sandboxes, the app server), which is listed by part in the manifest:
  it is input and output, event loops and calls of services around the decisions modelled here. What
  could be added in the same way are the messages about changed settings of
  \<open>context_manager/updates.py\<close>, and the fuzzy matcher and templates of \<open>utils\<close>.
\<close>

end
